(* ===== verification/Prelude.thy ===== *)
theory Prelude
  imports Main "HOL-Library.Word"
begin

text \<open>
  Shared vocabulary of the development: the outcome type of Go functions, the loops over
  slices that the modelled packages use, and the list and arithmetic lemmas the component
  theories share.

  A Go function that returns \<^verbatim>\<open>(T, error)\<close> is a function into
  \<^verbatim>\<open>('e, 'a) res\<close>: \<^verbatim>\<open>Inr\<close> is the normal result, \<^verbatim>\<open>Inl (Err e)\<close> a returned
  error, \<^verbatim>\<open>Inl Panic\<close> a run-time panic (an index out of range), and \<^verbatim>\<open>Inl NoFuel\<close>
  the exhaustion of the fuel of a modelled recursion, which each component shows impossible.
\<close>

section \<open>Outcomes\<close>

datatype 'e failure = Err 'e | Panic | NoFuel

type_synonym ('e, 'a) res = "'e failure + 'a"

named_theorems res_simps \<open>unfolding of the outcome combinators\<close>
named_theorems ok_iff \<open>characterisations of the successful outcome of an operation\<close>

definition err :: "'e \<Rightarrow> ('e, 'a) res" where
  "err e = Inl (Err e)"

definition and_then :: "('e, 'a) res \<Rightarrow> ('a \<Rightarrow> ('e, 'b) res) \<Rightarrow> ('e, 'b) res" where
  "and_then m f = (case m of Inl e \<Rightarrow> Inl e | Inr x \<Rightarrow> f x)"

definition map_err :: "('e \<Rightarrow> 'f) \<Rightarrow> ('e, 'a) res \<Rightarrow> ('f, 'a) res" where
  "map_err w m =
     (case m of
        Inl (Err e) \<Rightarrow> Inl (Err (w e))
      | Inl Panic \<Rightarrow> Inl Panic
      | Inl NoFuel \<Rightarrow> Inl NoFuel
      | Inr x \<Rightarrow> Inr x)"

definition reject_if :: "bool \<Rightarrow> 'e \<Rightarrow> ('e, unit) res" where
  "reject_if b e = (if b then err e else Inr ())"

definition is_ok :: "('e, 'a) res \<Rightarrow> bool" where
  "is_ok m = (case m of Inl _ \<Rightarrow> False | Inr _ \<Rightarrow> True)"

lemma err_simps [simp]: "err e \<noteq> Inr x" "Inr x \<noteq> err e" "err e = err e' \<longleftrightarrow> e = e'"
    "err e \<noteq> Inl Panic" "err e \<noteq> Inl NoFuel"
  by (simp_all add: err_def)

lemma is_ok_simps [simp]: "is_ok (Inr x)" "\<not> is_ok (Inl f)" "\<not> is_ok (err e)"
  by (simp_all add: is_ok_def err_def)

lemma is_ok_iff: "is_ok m \<longleftrightarrow> (\<exists>x. m = Inr x)"
  by (cases m) simp_all

lemma and_then_simps [simp]:
  "and_then (Inr x) f = f x" "and_then (Inl e) f = Inl e" "and_then (err e') f = err e'"
  by (simp_all add: and_then_def err_def)

lemma and_then_ok [ok_iff]: "and_then m f = Inr y \<longleftrightarrow> (\<exists>x. m = Inr x \<and> f x = Inr y)"
  by (cases m) simp_all

lemma and_then_okI: "m = Inr x \<Longrightarrow> f x = Inr y \<Longrightarrow> and_then m f = Inr y"
  by simp

lemma and_then_assoc: "and_then (and_then m f) g = and_then m (\<lambda>x. and_then (f x) g)"
  by (cases m) simp_all

lemma and_then_not_panic:
  "m \<noteq> Inl Panic \<Longrightarrow> (\<And>x. m = Inr x \<Longrightarrow> f x \<noteq> Inl Panic) \<Longrightarrow> and_then m f \<noteq> Inl Panic"
  by (cases m) simp_all

lemma map_err_simps [simp]:
  "map_err w (Inr x) = Inr x" "map_err w (err e) = err (w e)"
  "map_err w (Inl Panic) = Inl Panic" "map_err w (Inl NoFuel) = Inl NoFuel"
  by (simp_all add: map_err_def err_def)

lemma map_err_ok [ok_iff]: "map_err w m = Inr x \<longleftrightarrow> m = Inr x"
  by (auto simp: map_err_def split: sum.splits failure.splits)

lemma map_err_panic [simp]: "map_err w m = Inl Panic \<longleftrightarrow> m = Inl Panic"
  by (auto simp: map_err_def split: sum.splits failure.splits)

lemma map_err_nofuel [simp]: "map_err w m = Inl NoFuel \<longleftrightarrow> m = Inl NoFuel"
  by (auto simp: map_err_def split: sum.splits failure.splits)

lemma reject_if_ok [ok_iff]: "reject_if b e = Inr u \<longleftrightarrow> \<not> b"
  by (simp add: reject_if_def)

lemma reject_if_simps [simp]:
  "reject_if False e = Inr ()" "reject_if True e = err e"
  "reject_if b e \<noteq> Inl Panic" "reject_if b e \<noteq> Inl NoFuel"
  by (simp_all add: reject_if_def)

lemma unit_res_ok: "m = Inr (u :: unit) \<longleftrightarrow> m = Inr ()"
  by simp

section \<open>Slices and loops\<close>

text \<open>Indexing a slice panics out of range.\<close>

definition at :: "'a list \<Rightarrow> nat \<Rightarrow> ('e, 'a) res" where
  "at xs i = (if i < length xs then Inr (xs ! i) else Inl Panic)"

definition at_int :: "'a list \<Rightarrow> int \<Rightarrow> ('e, 'a) res" where
  "at_int xs i = (if 0 \<le> i \<and> i < int (length xs) then Inr (xs ! nat i) else Inl Panic)"

lemma at_ok [ok_iff]: "at xs i = Inr x \<longleftrightarrow> i < length xs \<and> x = xs ! i"
  by (auto simp: at_def)

lemma at_in_range [simp]: "i < length xs \<Longrightarrow> at xs i = Inr (xs ! i)"
  by (simp add: at_def)

lemma at_int_ok [ok_iff]:
  "at_int xs i = Inr x \<longleftrightarrow> 0 \<le> i \<and> i < int (length xs) \<and> x = xs ! nat i"
  by (auto simp: at_int_def)

lemma at_int_in_range [simp]:
  "0 \<le> i \<Longrightarrow> i < int (length xs) \<Longrightarrow> at_int xs i = Inr (xs ! nat i)"
  by (simp add: at_int_def)

lemma at_int_of_nat [simp]: "at_int xs (int i) = at xs i"
  by (simp add: at_int_def at_def)

text \<open>
  \<^verbatim>\<open>for i, x := range xs\<close> with an early error return: \<^verbatim>\<open>check_each\<close> when the body
  only checks, \<^verbatim>\<open>map_each\<close> when it fills the i-th entry of a fresh slice, \<^verbatim>\<open>fold_each\<close>
  when it updates variables declared outside the loop.
\<close>

fun check_each :: "(nat \<Rightarrow> 'a \<Rightarrow> ('e, unit) res) \<Rightarrow> nat \<Rightarrow> 'a list \<Rightarrow> ('e, unit) res" where
  "check_each f i [] = Inr ()"
| "check_each f i (x # xs) = and_then (f i x) (\<lambda>_. check_each f (Suc i) xs)"

fun map_each :: "(nat \<Rightarrow> 'a \<Rightarrow> ('e, 'b) res) \<Rightarrow> nat \<Rightarrow> 'a list \<Rightarrow> ('e, 'b list) res" where
  "map_each f i [] = Inr []"
| "map_each f i (x # xs) =
     and_then (f i x) (\<lambda>y. and_then (map_each f (Suc i) xs) (\<lambda>ys. Inr (y # ys)))"

fun fold_each :: "(nat \<Rightarrow> 'a \<Rightarrow> 's \<Rightarrow> ('e, 's) res) \<Rightarrow> nat \<Rightarrow> 'a list \<Rightarrow> 's \<Rightarrow> ('e, 's) res" where
  "fold_each f i [] s = Inr s"
| "fold_each f i (x # xs) s = and_then (f i x s) (\<lambda>s'. fold_each f (Suc i) xs s')"

lemma check_each_ok_from:
  "check_each f i xs = Inr () \<longleftrightarrow> (\<forall>j < length xs. f (i + j) (xs ! j) = Inr ())"
proof (induction xs arbitrary: i)
  case Nil
  show ?case by simp
next
  case (Cons x xs)
  have "check_each f i (x # xs) = Inr () \<longleftrightarrow>
      f i x = Inr () \<and> (\<forall>j < length xs. f (Suc i + j) (xs ! j) = Inr ())"
    by (simp add: and_then_ok Cons.IH)
  also have "\<dots> \<longleftrightarrow> (\<forall>j < length (x # xs). f (i + j) ((x # xs) ! j) = Inr ())"
    by (auto simp: less_Suc_eq_0_disj)
  finally show ?case .
qed

lemma check_each_ok [ok_iff]:
  "check_each f 0 xs = Inr u \<longleftrightarrow> (\<forall>j < length xs. f j (xs ! j) = Inr ())"
  by (simp add: check_each_ok_from)

lemma check_each_cong_set:
  "(\<And>i x. x \<in> set xs \<Longrightarrow> f i x = Inr ()) \<Longrightarrow> check_each f i xs = Inr ()"
  by (induction xs arbitrary: i) simp_all

lemma check_each_no_panic:
  "(\<And>j x. x \<in> set xs \<Longrightarrow> f j x \<noteq> Inl Panic) \<Longrightarrow> check_each f i xs \<noteq> Inl Panic"
proof (induction xs arbitrary: i)
  case Nil
  show ?case by simp
next
  case (Cons x xs)
  have "f i x \<noteq> Inl Panic" and "check_each f (Suc i) xs \<noteq> Inl Panic"
    using Cons by simp_all
  then show ?case by (cases "f i x") simp_all
qed

lemma map_each_ok_from:
  "map_each f i xs = Inr ys \<longleftrightarrow>
     length ys = length xs \<and> (\<forall>j < length xs. f (i + j) (xs ! j) = Inr (ys ! j))"
proof (induction xs arbitrary: i ys)
  case Nil
  show ?case by auto
next
  case (Cons x xs)
  show ?case
  proof (cases ys)
    case Nil
    then show ?thesis by (auto simp: and_then_ok)
  next
    case (Cons z zs)
    then show ?thesis
      by (auto simp: and_then_ok Cons.IH less_Suc_eq_0_disj)
  qed
qed

lemma map_each_ok [ok_iff]:
  "map_each f 0 xs = Inr ys \<longleftrightarrow>
     length ys = length xs \<and> (\<forall>j < length xs. f j (xs ! j) = Inr (ys ! j))"
  by (simp add: map_each_ok_from)

lemma map_each_all_ok:
  "(\<And>j x. x \<in> set xs \<Longrightarrow> f j x = Inr (g x)) \<Longrightarrow> map_each f i xs = Inr (map g xs)"
  by (induction xs arbitrary: i) simp_all

lemma fold_each_append:
  "fold_each f i (xs @ ys) s = and_then (fold_each f i xs s) (\<lambda>s'. fold_each f (i + length xs) ys s')"
proof (induction xs arbitrary: i s)
  case Nil
  show ?case by simp
next
  case (Cons x xs)
  then show ?case by (cases "f i x s") simp_all
qed

lemma fold_each_invariant:
  assumes "fold_each f i xs s = Inr s'" and "P s"
    and "\<And>j x t t'. x \<in> set xs \<Longrightarrow> P t \<Longrightarrow> f j x t = Inr t' \<Longrightarrow> P t'"
  shows "P s'"
  using assms
proof (induction xs arbitrary: i s)
  case Nil
  then show ?case by simp
next
  case (Cons x xs)
  from Cons.prems(1) obtain t where t: "f i x s = Inr t" "fold_each f (Suc i) xs t = Inr s'"
    by (auto simp: and_then_ok)
  from Cons.prems(2,3) t(1) have "P t" by (metis list.set_intros(1))
  with t(2) show ?case
    using Cons.IH Cons.prems(3) by (meson list.set_intros(2))
qed

lemma fold_each_total:
  "(\<And>j x t. x \<in> set xs \<Longrightarrow> f j x t = Inr (g x t)) \<Longrightarrow> fold_each f i xs s = Inr (fold g xs s)"
  by (induction xs arbitrary: i s) simp_all

text \<open>
  A loop whose i-th iteration rewrites the i-th entry of another slice of the same length is
  a \<^verbatim>\<open>map_each\<close> over the two slices side by side.
\<close>

lemma fold_each_update_from:
  assumes f: "\<And>j x ss. f j x ss = and_then (at ss j) (\<lambda>s. and_then (g j x s) (\<lambda>s'. Inr (ss[j := s'])))"
  shows "length ss = length xs \<Longrightarrow>
     fold_each f (length done) xs (done @ ss) =
     and_then (map_each (\<lambda>j (x, s). g j x s) (length done) (zip xs ss)) (\<lambda>ys. Inr (done @ ys))"
proof (induction xs arbitrary: ss "done")
  case Nil
  then show ?case by simp
next
  case (Cons x xs)
  from Cons.prems obtain s rest where ss: "ss = s # rest" "length rest = length xs"
    by (cases ss) auto
  show ?case
  proof (cases "g (length done) x s")
    case (Inl e)
    then show ?thesis by (simp add: ss f)
  next
    case (Inr s')
    have "fold_each f (length done) (x # xs) (done @ ss) =
        fold_each f (length (done @ [s'])) xs ((done @ [s']) @ rest)"
      by (simp add: ss f Inr)
    also have "\<dots> = and_then (map_each (\<lambda>j (x, s). g j x s) (length (done @ [s'])) (zip xs rest))
        (\<lambda>ys. Inr ((done @ [s']) @ ys))"
      by (rule Cons.IH [OF ss(2)])
    finally show ?thesis by (simp add: ss Inr and_then_assoc)
  qed
qed

lemma fold_each_update:
  assumes "\<And>j x ss. f j x ss = and_then (at ss j) (\<lambda>s. and_then (g j x s) (\<lambda>s'. Inr (ss[j := s'])))"
    and "length ss = length xs"
  shows "fold_each f 0 xs ss = map_each (\<lambda>j (x, s). g j x s) 0 (zip xs ss)"
  using fold_each_update_from [where ?done = "[]", OF assms]
  by (cases "map_each (\<lambda>j (x, s). g j x s) 0 (zip xs ss)") simp_all

section \<open>Pointers that may be nil, and 64-bit integers\<close>

text \<open>Reading through a nil pointer panics.\<close>

definition deref :: "'a option \<Rightarrow> ('e, 'a) res" where
  "deref p = (case p of None \<Rightarrow> Inl Panic | Some x \<Rightarrow> Inr x)"

lemma deref_ok [ok_iff]: "deref p = Inr x \<longleftrightarrow> p = Some x"
  by (simp add: deref_def split: option.splits)

lemma deref_Some [simp]: "deref (Some x) = Inr x"
  by (simp add: deref_def)

text \<open>\<^verbatim>\<open>int\<close> and \<^verbatim>\<open>int64\<close> arithmetic wraps around at 64 bits.\<close>

definition wrap64 :: "int \<Rightarrow> int" where
  "wrap64 z = signed_take_bit 63 z"

definition max_int64 :: int where
  "max_int64 = 9223372036854775807"

lemma wrap64_id: "- (2 ^ 63) \<le> z \<Longrightarrow> z \<le> max_int64 \<Longrightarrow> wrap64 z = z"
  by (simp add: wrap64_def max_int64_def signed_take_bit_int_eq_self)

text \<open>\<^verbatim>\<open>1 << n\<close> for a non-negative count: zero from 64 on.\<close>

definition shift_one :: "int \<Rightarrow> int" where
  "shift_one n = wrap64 (2 ^ nat n)"

lemma shift_one_small: "n < 63 \<Longrightarrow> shift_one n = 2 ^ nat n"
proof -
  assume "n < 63"
  then have "nat n \<le> 62" by simp
  then have "(2::int) ^ nat n \<le> 2 ^ 62" by (rule power_increasing) simp
  then have "2 ^ nat n \<le> max_int64" by (simp add: max_int64_def)
  moreover have "- (2 ^ 63) \<le> (2::int) ^ nat n" by (rule order_trans [of _ 0]) simp_all
  ultimately show ?thesis by (simp add: shift_one_def wrap64_id)
qed

section \<open>Outcomes without panics\<close>

text \<open>An outcome is \<^verbatim>\<open>safe\<close> when it is a value or a returned error.\<close>

definition safe :: "('e, 'a) res \<Rightarrow> bool" where
  "safe r \<longleftrightarrow> r \<noteq> Inl Panic \<and> r \<noteq> Inl NoFuel"

named_theorems safe_intro \<open>introduction rules for safe outcomes\<close>

lemma safe_simps [simp]: "safe (Inr x)" "safe (err e)" "safe (reject_if b e)"
  by (simp_all add: safe_def)

lemma safe_map_err [simp]: "safe (map_err w r) = safe r"
  by (simp add: safe_def)

lemma safe_and_then [safe_intro]: "safe r \<Longrightarrow> (\<And>x. r = Inr x \<Longrightarrow> safe (f x)) \<Longrightarrow> safe (and_then r f)"
  by (cases r) (simp_all add: safe_def)

lemma safe_check_each [safe_intro]:
  "(\<And>j x. x \<in> set xs \<Longrightarrow> safe (f j x)) \<Longrightarrow> safe (check_each f i xs)"
  by (induction xs arbitrary: i) (simp_all add: safe_and_then)

lemma safe_map_each [safe_intro]:
  "(\<And>j x. x \<in> set xs \<Longrightarrow> safe (f j x)) \<Longrightarrow> safe (map_each f i xs)"
  by (induction xs arbitrary: i) (simp_all add: safe_and_then)

lemma safe_at [safe_intro]: "i < length xs \<Longrightarrow> safe (at xs i)"
  by simp

lemma safe_cases:
  assumes "safe r" obtains (good) x where "r = Inr x" | (bad) e where "r = err e"
proof (cases r)
  case (Inl f)
  then show thesis using assms that by (cases f) (auto simp: safe_def err_def)
next
  case (Inr x)
  then show thesis using that by blast
qed

section \<open>Lists\<close>

lemma nth_append_block:
  "j < length ys \<Longrightarrow> (xs @ ys @ zs) ! (length xs + j) = ys ! j"
  by (simp add: nth_append)

lemma list_all_iff_nth: "list_all P xs \<longleftrightarrow> (\<forall>i < length xs. P (xs ! i))"
  by (fastforce simp: list_all_iff in_set_conv_nth)

lemma two_power_less: "(2::nat) ^ m < 2 ^ n \<Longrightarrow> m < n"
  by (rule power_less_imp_less_exp [of 2]) simp_all

lemma ex_nth_set: "x \<in> set xs \<Longrightarrow> \<exists>i < length xs. xs ! i = x"
  by (simp add: in_set_conv_nth)

end
