(* ===== verification/GoFloat.thy ===== *)
theory GoFloat
  imports Prelude
begin

text \<open>
  IEEE-754 binary interchange formats as Go uses them (float32, float64), on bit patterns.
  A format is given by its exponent width \<^verbatim>\<open>w\<close> and its fraction width \<^verbatim>\<open>p\<close>; a pattern is a
  natural number below \<^verbatim>\<open>2 ^ (1 + w + p)\<close>. The value of a pattern is read exactly, as an
  integer in units of the least positive subnormal, so comparison is comparison of integers
  and addition is integer addition followed by one rounding to nearest, ties to even.
\<close>

section \<open>Reading a bit pattern\<close>

definition fp_neg :: "nat \<Rightarrow> nat \<Rightarrow> nat \<Rightarrow> bool" where
  "fp_neg w p n \<longleftrightarrow> odd (n div 2 ^ (w + p))"

definition fp_abs :: "nat \<Rightarrow> nat \<Rightarrow> nat \<Rightarrow> nat" where
  "fp_abs w p n = n mod 2 ^ (w + p)"

definition fp_exp :: "nat \<Rightarrow> nat \<Rightarrow> nat \<Rightarrow> nat" where
  "fp_exp w p n = fp_abs w p n div 2 ^ p"

definition fp_frac :: "nat \<Rightarrow> nat \<Rightarrow> nat" where
  "fp_frac p n = n mod 2 ^ p"

definition fp_finite :: "nat \<Rightarrow> nat \<Rightarrow> nat \<Rightarrow> bool" where
  "fp_finite w p n \<longleftrightarrow> fp_exp w p n \<noteq> 2 ^ w - 1"

definition fp_nan :: "nat \<Rightarrow> nat \<Rightarrow> nat \<Rightarrow> bool" where
  "fp_nan w p n \<longleftrightarrow> fp_exp w p n = 2 ^ w - 1 \<and> fp_frac p n \<noteq> 0"

definition fp_inf :: "nat \<Rightarrow> nat \<Rightarrow> nat \<Rightarrow> bool" where
  "fp_inf w p n \<longleftrightarrow> fp_exp w p n = 2 ^ w - 1 \<and> fp_frac p n = 0"

text \<open>
  The magnitude of the pattern \<^verbatim>\<open>e * 2 ^ p + f\<close>, in units of the least subnormal. The same
  formula places an infinity above every finite value, which is all a comparison needs.
\<close>

definition mag_of :: "nat \<Rightarrow> nat \<Rightarrow> nat" where
  "mag_of p a = (if a div 2 ^ p = 0 then a else (2 ^ p + a mod 2 ^ p) * 2 ^ (a div 2 ^ p - 1))"

definition fp_mag :: "nat \<Rightarrow> nat \<Rightarrow> nat \<Rightarrow> nat" where
  "fp_mag w p n = mag_of p (fp_abs w p n)"

definition fp_val :: "nat \<Rightarrow> nat \<Rightarrow> nat \<Rightarrow> int" where
  "fp_val w p n = (if fp_neg w p n then - int (fp_mag w p n) else int (fp_mag w p n))"

definition fp_lt :: "nat \<Rightarrow> nat \<Rightarrow> nat \<Rightarrow> nat \<Rightarrow> bool" where
  "fp_lt w p a b \<longleftrightarrow> \<not> fp_nan w p a \<and> \<not> fp_nan w p b \<and> fp_val w p a < fp_val w p b"

definition fp_ge :: "nat \<Rightarrow> nat \<Rightarrow> nat \<Rightarrow> nat \<Rightarrow> bool" where
  "fp_ge w p a b \<longleftrightarrow> \<not> fp_nan w p a \<and> \<not> fp_nan w p b \<and> fp_val w p a \<ge> fp_val w p b"

definition fp_eq :: "nat \<Rightarrow> nat \<Rightarrow> nat \<Rightarrow> nat \<Rightarrow> bool" where
  "fp_eq w p a b \<longleftrightarrow> \<not> fp_nan w p a \<and> \<not> fp_nan w p b \<and> fp_val w p a = fp_val w p b"

section \<open>Rounding and packing\<close>

fun bitlen :: "nat \<Rightarrow> nat" where
  "bitlen n = (if n = 0 then 0 else Suc (bitlen (n div 2)))"

declare bitlen.simps [simp del]

text \<open>\<^verbatim>\<open>m / 2 ^ s\<close> rounded to the nearest integer, ties to the even one.\<close>

definition rne_shift :: "nat \<Rightarrow> nat \<Rightarrow> nat" where
  "rne_shift m s =
     (let q = m div 2 ^ s; r = 2 * (m mod 2 ^ s)
      in if r < 2 ^ s \<or> (r = 2 ^ s \<and> even q) then q else q + 1)"

text \<open>The pattern of a magnitude that has at most \<^verbatim>\<open>p + 1\<close> significant bits.\<close>

definition pack_mag :: "nat \<Rightarrow> nat \<Rightarrow> nat" where
  "pack_mag p m =
     (if m < 2 ^ p then m
      else let e = bitlen m - p in e * 2 ^ p + (m div 2 ^ (e - 1) - 2 ^ p))"

definition fp_inf_pattern :: "nat \<Rightarrow> nat \<Rightarrow> nat" where
  "fp_inf_pattern w p = (2 ^ w - 1) * 2 ^ p"

definition fp_nan_pattern :: "nat \<Rightarrow> nat \<Rightarrow> nat" where
  "fp_nan_pattern w p = (2 ^ w - 1) * 2 ^ p + 2 ^ (p - 1)"

definition fp_sign_bit :: "nat \<Rightarrow> nat \<Rightarrow> bool \<Rightarrow> nat" where
  "fp_sign_bit w p s = (if s then 2 ^ (w + p) else 0)"

text \<open>The pattern nearest to \<^verbatim>\<open>m / 2 ^ k\<close> least-subnormal units, with the given sign.\<close>

definition fp_round :: "nat \<Rightarrow> nat \<Rightarrow> bool \<Rightarrow> nat \<Rightarrow> nat \<Rightarrow> nat" where
  "fp_round w p s m k =
     (let sh = max k (bitlen m - (p + 1));
          a = pack_mag p (rne_shift m sh * 2 ^ (sh - k))
      in fp_sign_bit w p s + min a (fp_inf_pattern w p))"

section \<open>Arithmetic\<close>

text \<open>
  A NaN result is some quiet NaN: the payload a processor chooses is not modelled, and no code
  of the repository looks at it.
\<close>

definition fp_add :: "nat \<Rightarrow> nat \<Rightarrow> nat \<Rightarrow> nat \<Rightarrow> nat" where
  "fp_add w p a b =
     (if fp_nan w p a \<or> fp_nan w p b then fp_nan_pattern w p
      else if fp_inf w p a
        then (if fp_inf w p b \<and> fp_neg w p a \<noteq> fp_neg w p b then fp_nan_pattern w p else a)
      else if fp_inf w p b then b
      else let z = fp_val w p a + fp_val w p b
           in if z = 0 then fp_sign_bit w p (fp_neg w p a \<and> fp_neg w p b)
              else fp_round w p (z < 0) (nat \<bar>z\<bar>) 0)"

definition fp_negate :: "nat \<Rightarrow> nat \<Rightarrow> nat \<Rightarrow> nat" where
  "fp_negate w p a = fp_sign_bit w p (\<not> fp_neg w p a) + fp_abs w p a"

definition fp_sub :: "nat \<Rightarrow> nat \<Rightarrow> nat \<Rightarrow> nat \<Rightarrow> nat" where
  "fp_sub w p a b = fp_add w p a (fp_negate w p b)"

text \<open>The least subnormal is \<^verbatim>\<open>2 ^ - fp_scale w p\<close>.\<close>

definition fp_scale :: "nat \<Rightarrow> nat \<Rightarrow> nat" where
  "fp_scale w p = 2 ^ (w - 1) - 2 + p"

definition fp_mul :: "nat \<Rightarrow> nat \<Rightarrow> nat \<Rightarrow> nat \<Rightarrow> nat" where
  "fp_mul w p a b =
     (let s = (fp_neg w p a \<noteq> fp_neg w p b)
      in if fp_nan w p a \<or> fp_nan w p b then fp_nan_pattern w p
         else if fp_inf w p a \<or> fp_inf w p b
           then (if fp_mag w p a = 0 \<or> fp_mag w p b = 0 then fp_nan_pattern w p
                 else fp_sign_bit w p s + fp_inf_pattern w p)
         else fp_round w p s (fp_mag w p a * fp_mag w p b) (fp_scale w p))"

text \<open>
  Division keeps \<^verbatim>\<open>2 ^ w + p + 4\<close> fraction bits of the quotient, more than the least quotient of two
  patterns needs, and one sticky bit for the remainder, so that rounding sees the exact quotient.
\<close>

definition fp_div :: "nat \<Rightarrow> nat \<Rightarrow> nat \<Rightarrow> nat \<Rightarrow> nat" where
  "fp_div w p a b =
     (let s = (fp_neg w p a \<noteq> fp_neg w p b); k = 2 ^ w + p + 4; ma = fp_mag w p a; mb = fp_mag w p b
      in if fp_nan w p a \<or> fp_nan w p b then fp_nan_pattern w p
         else if fp_inf w p a
           then (if fp_inf w p b then fp_nan_pattern w p else fp_sign_bit w p s + fp_inf_pattern w p)
         else if fp_inf w p b then fp_sign_bit w p s
         else if mb = 0
           then (if ma = 0 then fp_nan_pattern w p else fp_sign_bit w p s + fp_inf_pattern w p)
         else let n = ma * 2 ^ (fp_scale w p + k); sticky = (if n mod mb = 0 then 0 else 1)
              in fp_round w p s (2 * (n div mb) + sticky) (k + 1))"

section \<open>Properties of the magnitude\<close>

lemma mag_of_step: "mag_of p a < mag_of p (Suc a)"
proof (cases "Suc a mod 2 ^ p = 0")
  case True
  then obtain q where q: "Suc a = q * 2 ^ p" by (metis mod_0_imp_dvd dvd_div_mult_self)
  then have q0: "q \<noteq> 0" by (cases q) simp_all
  have pos: "(0::nat) < 2 ^ p" by simp
  have a: "a = (2 ^ p - 1) + (q - 1) * 2 ^ p"
    using q q0 pos by (cases q) (auto simp: algebra_simps)
  have lt: "2 ^ p - 1 < (2 ^ p :: nat)" using pos by linarith
  have ad: "a div 2 ^ p = q - 1"
    unfolding a by (subst div_mult_self1) (simp_all only: div_less [OF lt], simp_all)
  have am: "a mod 2 ^ p = 2 ^ p - 1"
    unfolding a by (subst mod_mult_self1) (rule mod_less [OF lt])
  have sd: "Suc a div 2 ^ p = q" and sm: "Suc a mod 2 ^ p = 0"
    using q pos by simp_all
  have "mag_of p (Suc a) = 2 ^ p * 2 ^ (q - 1)"
    using sd sm q0 by (simp add: mag_of_def)
  moreover have "mag_of p a < 2 ^ p * 2 ^ (q - 1)"
  proof (cases "q = 1")
    case True
    then show ?thesis using a pos by (simp add: mag_of_def)
  next
    case False
    with q0 obtain r where r: "q = Suc (Suc r)" by (metis One_nat_def not0_implies_Suc)
    have "mag_of p a = (2 ^ p + (2 ^ p - 1)) * 2 ^ r"
      using ad am r by (simp add: mag_of_def)
    also have "\<dots> < 2 ^ p * 2 ^ Suc r"
    proof -
      have "2 ^ p + (2 ^ p - 1) < (2 ^ p * 2 :: nat)" using pos by linarith
      then have "(2 ^ p + (2 ^ p - 1)) * 2 ^ r < (2 ^ p * 2) * (2 ^ r :: nat)"
        by (rule mult_strict_right_mono) simp
      then show ?thesis by (simp add: mult.assoc)
    qed
    finally show ?thesis using r by simp
  qed
  ultimately show ?thesis by simp
next
  case False
  then have d: "Suc a div 2 ^ p = a div 2 ^ p" and m: "Suc a mod 2 ^ p = Suc (a mod 2 ^ p)"
    by (simp_all add: div_Suc mod_Suc split: if_splits)
  then show ?thesis by (simp add: mag_of_def)
qed

lemma mag_of_mono: "a < b \<Longrightarrow> mag_of p a < mag_of p b"
  by (rule lift_Suc_mono_less [of "mag_of p"]) (rule mag_of_step)

lemma mag_of_less_iff [simp]: "mag_of p a < mag_of p b \<longleftrightarrow> a < b"
  by (rule strict_mono_less) (simp add: strict_mono_def mag_of_mono)

lemma mag_of_eq_iff [simp]: "mag_of p a = mag_of p b \<longleftrightarrow> a = b"
  by (metis mag_of_less_iff less_irrefl linorder_neqE_nat)

lemma mag_of_0 [simp]: "mag_of p 0 = 0"
  by (simp add: mag_of_def)

lemma mag_of_eq_0 [simp]: "mag_of p a = 0 \<longleftrightarrow> a = 0"
  using mag_of_eq_iff [of p a 0] by (simp del: mag_of_eq_iff)

text \<open>
  A sign-magnitude key of a pattern: its order is the order of the values, because the magnitude
  grows with the pattern and both zeros get the key 0.
\<close>

definition fp_key :: "nat \<Rightarrow> nat \<Rightarrow> nat \<Rightarrow> int" where
  "fp_key w p n = (if fp_neg w p n then - int (fp_abs w p n) else int (fp_abs w p n))"

lemma neg_int_less_int_iff: "- int x < int y \<longleftrightarrow> 0 < x \<or> 0 < y"
  by linarith

lemma not_int_less_neg_int [simp]: "\<not> int x < - int y"
  by linarith

lemma mag_of_pos [simp]: "0 < mag_of p a \<longleftrightarrow> 0 < a"
  using mag_of_less_iff [of p 0 a] by (simp del: mag_of_less_iff)

lemma fp_val_less_iff: "fp_val w p a < fp_val w p b \<longleftrightarrow> fp_key w p a < fp_key w p b"
  by (simp add: fp_val_def fp_key_def fp_mag_def neg_int_less_int_iff)

lemma fp_lt_key:
  "\<not> fp_nan w p a \<Longrightarrow> \<not> fp_nan w p b \<Longrightarrow> fp_lt w p a b \<longleftrightarrow> fp_key w p a < fp_key w p b"
  by (simp add: fp_lt_def fp_val_less_iff)

lemma fp_finite_not_nan: "fp_finite w p n \<Longrightarrow> \<not> fp_nan w p n"
  by (simp add: fp_finite_def fp_nan_def)

lemma fp_finite_iff: "fp_finite w p n \<longleftrightarrow> \<not> fp_nan w p n \<and> \<not> fp_inf w p n"
  by (auto simp: fp_finite_def fp_nan_def fp_inf_def)

lemma fp_ge_not_lt:
  "\<not> fp_nan w p a \<Longrightarrow> \<not> fp_nan w p b \<Longrightarrow> fp_ge w p a b \<longleftrightarrow> \<not> fp_lt w p a b"
  by (auto simp: fp_ge_def fp_lt_def)

section \<open>Packing is the inverse of reading\<close>

lemma bitlen_bounds: "0 < n \<Longrightarrow> 2 ^ (bitlen n - 1) \<le> n \<and> n < 2 ^ bitlen n"
proof (induction n rule: bitlen.induct)
  case (1 n)
  show ?case
  proof (cases "n = 1")
    case True
    then show ?thesis by (simp add: bitlen.simps [of "Suc 0"] bitlen.simps [of 0])
  next
    case False
    with 1 have "n div 2 > 0" "n \<noteq> 0" by auto
    with "1.IH" have ih: "2 ^ (bitlen (n div 2) - 1) \<le> n div 2" "n div 2 < 2 ^ bitlen (n div 2)"
      by auto
    have len: "bitlen n = Suc (bitlen (n div 2))" using \<open>n \<noteq> 0\<close> by (subst bitlen.simps) simp
    have "bitlen (n div 2) = Suc (bitlen (n div 2) - 1)"
      using \<open>n div 2 > 0\<close> by (subst (1 2) bitlen.simps) simp
    then have "2 ^ bitlen (n div 2) = 2 * (2::nat) ^ (bitlen (n div 2) - 1)"
      by (metis power_Suc)
    moreover have "\<And>x::nat. x \<le> n div 2 \<Longrightarrow> n div 2 < 2 * x \<Longrightarrow> 2 * x \<le> n \<and> n < 2 * (2 * x)"
      by linarith
    ultimately show ?thesis using ih len by simp
  qed
qed

lemma bitlen_0 [simp]: "bitlen 0 = 0"
  by (simp add: bitlen.simps)

lemma bitlen_unique: "2 ^ k \<le> n \<Longrightarrow> n < 2 ^ Suc k \<Longrightarrow> bitlen n = Suc k"
proof -
  assume lo: "2 ^ k \<le> n" and hi: "n < 2 ^ Suc k"
  have n: "0 < n" using lo by (cases n) simp_all
  note b = bitlen_bounds [OF n]
  have "(2::nat) ^ k < 2 ^ bitlen n" using lo b by linarith
  then have 1: "k < bitlen n" by (rule two_power_less)
  then have 1: "k < bitlen n" by simp
  have "(2::nat) ^ (bitlen n - 1) < 2 ^ Suc k" using hi b by linarith
  then have "bitlen n - 1 < Suc k" by (rule two_power_less)
  with 1 show ?thesis by simp
qed

lemma pack_mag_mag_of: "pack_mag p (mag_of p a) = a"
proof (cases "a div 2 ^ p = 0")
  case True
  then have "a < 2 ^ p" by (simp add: div_eq_0_iff)
  with True show ?thesis by (simp add: pack_mag_def mag_of_def)
next
  case False
  define e where "e = a div 2 ^ p"
  define f where "f = a mod 2 ^ p"
  have a: "a = e * 2 ^ p + f" unfolding e_def f_def by (rule div_mult_mod_eq [symmetric])
  have f: "f < 2 ^ p" by (simp add: f_def)
  obtain d where d: "e = Suc d" using False by (metis e_def not0_implies_Suc)
  have m: "mag_of p a = (2 ^ p + f) * 2 ^ d"
    using False d by (simp add: mag_of_def flip: e_def f_def)
  have lo: "2 ^ (p + d) \<le> mag_of p a" by (simp add: m power_add)
  have hi: "mag_of p a < 2 ^ Suc (p + d)"
  proof -
    have "(2 ^ p + f) * 2 ^ d < (2 * 2 ^ p) * (2 ^ d :: nat)"
      by (rule mult_strict_right_mono) (use f in simp_all)
    then show ?thesis by (simp add: m power_add)
  qed
  have "bitlen (mag_of p a) - p = e" using bitlen_unique [OF lo hi] d by simp
  moreover have "\<not> mag_of p a < 2 ^ p"
  proof -
    have "(2::nat) ^ p \<le> 2 ^ (p + d)" by simp
    with lo show ?thesis by linarith
  qed
  moreover have "mag_of p a div 2 ^ d = 2 ^ p + f" by (simp add: m)
  ultimately show ?thesis using a d by (simp add: pack_mag_def Let_def)
qed

lemma rne_shift_0 [simp]: "rne_shift m 0 = m"
  by (simp add: rne_shift_def)

lemma rne_shift_exact: "rne_shift (m * 2 ^ s) s = m"
  by (simp add: rne_shift_def)

lemma bitlen_mag_of: "bitlen (mag_of p a) \<le> p + 1 + (a div 2 ^ p - 1)"
proof (cases "a div 2 ^ p = 0")
  case True
  then have "a < 2 ^ p" by (simp add: div_eq_0_iff)
  show ?thesis
  proof (cases "a = 0")
    case False
    with bitlen_bounds have "2 ^ (bitlen a - 1) \<le> a" by simp
    with \<open>a < 2 ^ p\<close> have "(2::nat) ^ (bitlen a - 1) < 2 ^ p" by linarith
    then have "bitlen a - 1 < p" by simp
    with True show ?thesis by (simp add: mag_of_def)
  qed simp
next
  case False
  then obtain d where d: "a div 2 ^ p = Suc d" by (metis not0_implies_Suc)
  have "mag_of p a < 2 ^ (p + 1 + (a div 2 ^ p - 1))"
  proof -
    have "2 ^ p + a mod 2 ^ p < 2 * 2 ^ p" by simp
    then have "(2 ^ p + a mod 2 ^ p) * 2 ^ d < 2 * 2 ^ p * (2 ^ d :: nat)"
      by (rule mult_strict_right_mono) simp
    with d show ?thesis by (simp add: mag_of_def power_add)
  qed
  moreover have "0 < mag_of p a" using d by (cases a) simp_all
  ultimately have "(2::nat) ^ (bitlen (mag_of p a) - 1) < 2 ^ (p + 1 + (a div 2 ^ p - 1))"
    using bitlen_bounds le_less_trans by blast
  then have "bitlen (mag_of p a) - 1 < p + 1 + (a div 2 ^ p - 1)" by (rule two_power_less)
  then show ?thesis by linarith
qed

text \<open>Rounding a representable magnitude returns its own pattern: the arithmetic is exact there.\<close>

lemma fp_round_exact:
  assumes "a \<le> fp_inf_pattern w p"
  shows "fp_round w p s (mag_of p a) 0 = fp_sign_bit w p s + a"
proof -
  define sh where "sh = bitlen (mag_of p a) - Suc p"
  have sh: "sh \<le> a div 2 ^ p - 1" using bitlen_mag_of [of p a] by (simp add: sh_def)
  have "2 ^ sh dvd mag_of p a"
  proof (cases "a div 2 ^ p = 0")
    case True
    with sh show ?thesis by simp
  next
    case False
    have "(2::nat) ^ sh dvd 2 ^ (a div 2 ^ p - 1)" by (rule le_imp_power_dvd [OF sh])
    with False show ?thesis by (simp add: mag_of_def)
  qed
  then have "rne_shift (mag_of p a) sh * 2 ^ sh = mag_of p a"
    by (metis dvd_def mult.commute rne_shift_exact)
  then show ?thesis
    using assms by (simp add: fp_round_def Let_def pack_mag_mag_of min_absorb1 flip: sh_def)
qed

end
