(* ===== verification/GoScalar.thy ===== *)
theory GoScalar
  imports GoFloat
begin

text \<open>
  The numeric values that instantiate the type parameters of \<^verbatim>\<open>treeplan\<close> (the constraint
  \<^verbatim>\<open>Ordered\<close> of \<^verbatim>\<open>integer/treeplan/binary.go\<close>). The packages inspect such a value only
  through the operator \<^verbatim>\<open><\<close> and through \<^verbatim>\<open>reflect\<close> (its kind, its width, its integer value or
  its IEEE-754 bits), so a value is modelled as its kind with a 64-bit payload: a signed
  integer is sign-extended, an unsigned one zero-extended, a float is its bit pattern. The
  platform is 64-bit, as for every supported build of the repository.
\<close>

unbundle bit_operations_syntax

type_synonym byte = "8 word"

section \<open>Kinds\<close>

datatype go_kind =
  KInt | KInt8 | KInt16 | KInt32 | KInt64
| KUint | KUint8 | KUint16 | KUint32 | KUint64 | KUintptr
| KFloat32 | KFloat64

text \<open>The numbers of \<^verbatim>\<open>reflect.Kind\<close>, which the canonical encoder writes as a byte.\<close>

fun kind_code :: "go_kind \<Rightarrow> byte" where
  "kind_code KInt = 2"
| "kind_code KInt8 = 3"
| "kind_code KInt16 = 4"
| "kind_code KInt32 = 5"
| "kind_code KInt64 = 6"
| "kind_code KUint = 7"
| "kind_code KUint8 = 8"
| "kind_code KUint16 = 9"
| "kind_code KUint32 = 10"
| "kind_code KUint64 = 11"
| "kind_code KUintptr = 12"
| "kind_code KFloat32 = 13"
| "kind_code KFloat64 = 14"

fun kind_bits :: "go_kind \<Rightarrow> nat" where
  "kind_bits KInt = 64"
| "kind_bits KInt8 = 8"
| "kind_bits KInt16 = 16"
| "kind_bits KInt32 = 32"
| "kind_bits KInt64 = 64"
| "kind_bits KUint = 64"
| "kind_bits KUint8 = 8"
| "kind_bits KUint16 = 16"
| "kind_bits KUint32 = 32"
| "kind_bits KUint64 = 64"
| "kind_bits KUintptr = 64"
| "kind_bits KFloat32 = 32"
| "kind_bits KFloat64 = 64"

datatype kind_class = SignedKind | UnsignedKind | Float32Kind | Float64Kind

fun class_of :: "go_kind \<Rightarrow> kind_class" where
  "class_of KFloat32 = Float32Kind"
| "class_of KFloat64 = Float64Kind"
| "class_of KInt = SignedKind"
| "class_of KInt8 = SignedKind"
| "class_of KInt16 = SignedKind"
| "class_of KInt32 = SignedKind"
| "class_of KInt64 = SignedKind"
| "class_of KUint = UnsignedKind"
| "class_of KUint8 = UnsignedKind"
| "class_of KUint16 = UnsignedKind"
| "class_of KUint32 = UnsignedKind"
| "class_of KUint64 = UnsignedKind"
| "class_of KUintptr = UnsignedKind"

lemma kind_code_inj: "kind_code k = kind_code l \<longleftrightarrow> k = l"
  by (cases k; cases l) simp_all

section \<open>Floats as words\<close>

definition f64_lt :: "64 word \<Rightarrow> 64 word \<Rightarrow> bool" where
  "f64_lt a b = fp_lt 11 52 (unat a) (unat b)"

definition f64_ge :: "64 word \<Rightarrow> 64 word \<Rightarrow> bool" where
  "f64_ge a b = fp_ge 11 52 (unat a) (unat b)"

definition f64_eq :: "64 word \<Rightarrow> 64 word \<Rightarrow> bool" where
  "f64_eq a b = fp_eq 11 52 (unat a) (unat b)"

definition f64_nan :: "64 word \<Rightarrow> bool" where
  "f64_nan a = fp_nan 11 52 (unat a)"

definition f64_inf :: "64 word \<Rightarrow> bool" where
  "f64_inf a = fp_inf 11 52 (unat a)"

definition f64_finite :: "64 word \<Rightarrow> bool" where
  "f64_finite a = fp_finite 11 52 (unat a)"

definition f64_add :: "64 word \<Rightarrow> 64 word \<Rightarrow> 64 word" where
  "f64_add a b = word_of_nat (fp_add 11 52 (unat a) (unat b))"

definition f64_sub :: "64 word \<Rightarrow> 64 word \<Rightarrow> 64 word" where
  "f64_sub a b = word_of_nat (fp_sub 11 52 (unat a) (unat b))"

definition f64_mul :: "64 word \<Rightarrow> 64 word \<Rightarrow> 64 word" where
  "f64_mul a b = word_of_nat (fp_mul 11 52 (unat a) (unat b))"

definition f64_div :: "64 word \<Rightarrow> 64 word \<Rightarrow> 64 word" where
  "f64_div a b = word_of_nat (fp_div 11 52 (unat a) (unat b))"

definition f32_lt :: "32 word \<Rightarrow> 32 word \<Rightarrow> bool" where
  "f32_lt a b = fp_lt 8 23 (unat a) (unat b)"

definition f32_finite :: "32 word \<Rightarrow> bool" where
  "f32_finite a = fp_finite 8 23 (unat a)"

definition f32_nan :: "32 word \<Rightarrow> bool" where
  "f32_nan a = fp_nan 8 23 (unat a)"

definition f32_inf :: "32 word \<Rightarrow> bool" where
  "f32_inf a = fp_inf 8 23 (unat a)"

definition f32_add :: "32 word \<Rightarrow> 32 word \<Rightarrow> 32 word" where
  "f32_add a b = word_of_nat (fp_add 8 23 (unat a) (unat b))"

text \<open>\<^verbatim>\<open>float64(x)\<close> for a float32, \<^verbatim>\<open>float32(x)\<close> for a float64.\<close>

definition f64_of_f32 :: "32 word \<Rightarrow> 64 word" where
  "f64_of_f32 a =
     (let n = unat a; s = fp_neg 8 23 n
      in if fp_nan 8 23 n then word_of_nat (fp_nan_pattern 11 52)
         else if fp_inf 8 23 n then word_of_nat (fp_sign_bit 11 52 s + fp_inf_pattern 11 52)
         else word_of_nat (fp_round 11 52 s (fp_mag 8 23 n * 2 ^ (fp_scale 11 52 - fp_scale 8 23)) 0))"

definition f32_of_f64 :: "64 word \<Rightarrow> 32 word" where
  "f32_of_f64 a =
     (let n = unat a; s = fp_neg 11 52 n
      in if fp_nan 11 52 n then word_of_nat (fp_nan_pattern 8 23)
         else if fp_inf 11 52 n then word_of_nat (fp_sign_bit 8 23 s + fp_inf_pattern 8 23)
         else word_of_nat (fp_round 8 23 s (fp_mag 11 52 n) (fp_scale 11 52 - fp_scale 8 23)))"

text \<open>\<^verbatim>\<open>float64(x)\<close> for a uint64 and for an int64.\<close>

definition f64_of_uint :: "64 word \<Rightarrow> 64 word" where
  "f64_of_uint x = word_of_nat (fp_round 11 52 False (unat x * 2 ^ fp_scale 11 52) 0)"

definition f64_of_int :: "64 word \<Rightarrow> 64 word" where
  "f64_of_int x =
     (let z = sint x
      in word_of_nat (fp_round 11 52 (z < 0) (nat \<bar>z\<bar> * 2 ^ fp_scale 11 52) 0))"

section \<open>Scalars\<close>

datatype scalar = Num (scalar_kind: go_kind) (scalar_bits: "64 word")

definition f32_scalar :: "32 word \<Rightarrow> scalar" where
  "f32_scalar b = Num KFloat32 (ucast b)"

definition f64_scalar :: "64 word \<Rightarrow> scalar" where
  "f64_scalar b = Num KFloat64 b"

definition u32_scalar :: "32 word \<Rightarrow> scalar" where
  "u32_scalar b = Num KUint32 (ucast b)"

text \<open>
  The operator \<^verbatim>\<open><\<close> at the operands' kind. Go's type checker gives both operands one kind.
\<close>

definition scalar_lt :: "scalar \<Rightarrow> scalar \<Rightarrow> bool" where
  "scalar_lt x y =
     (case class_of (scalar_kind x) of
        SignedKind \<Rightarrow> sint (scalar_bits x) < sint (scalar_bits y)
      | UnsignedKind \<Rightarrow> scalar_bits x < scalar_bits y
      | Float32Kind \<Rightarrow> fp_lt 8 23 (unat (scalar_bits x)) (unat (scalar_bits y))
      | Float64Kind \<Rightarrow> fp_lt 11 52 (unat (scalar_bits x)) (unat (scalar_bits y)))"

text \<open>\<^verbatim>\<open>finiteScalar\<close> accepts every integer and rejects NaN and the infinities.\<close>

definition finite_scalar :: "scalar \<Rightarrow> bool" where
  "finite_scalar x =
     (case class_of (scalar_kind x) of
        SignedKind \<Rightarrow> True
      | UnsignedKind \<Rightarrow> True
      | Float32Kind \<Rightarrow>
          \<not> fp_nan 8 23 (unat (scalar_bits x)) \<and> \<not> fp_inf 8 23 (unat (scalar_bits x))
      | Float64Kind \<Rightarrow>
          \<not> fp_nan 11 52 (unat (scalar_bits x)) \<and> \<not> fp_inf 11 52 (unat (scalar_bits x)))"

lemma unat_ucast_32_64 [simp]: "unat (ucast (a :: 32 word) :: 64 word) = unat a"
  by transfer (simp add: take_bit_eq_mod)

section \<open>The order of the finite scalars of one kind\<close>

text \<open>
  The interface the split evaluators rely on: on the values a validator admits, the comparison
  is a strict weak order, so \<^verbatim>\<open>!(x < y)\<close> may be read as \<^verbatim>\<open>x >= y\<close>.
\<close>

locale split_order =
  fixes lt :: "'a \<Rightarrow> 'a \<Rightarrow> bool"
    and ok :: "'a \<Rightarrow> bool"
  assumes lt_irrefl: "ok x \<Longrightarrow> \<not> lt x x"
    and lt_trans: "ok x \<Longrightarrow> ok y \<Longrightarrow> ok z \<Longrightarrow> lt x y \<Longrightarrow> lt y z \<Longrightarrow> lt x z"
    and not_lt_trans: "ok x \<Longrightarrow> ok y \<Longrightarrow> ok z \<Longrightarrow> \<not> lt x y \<Longrightarrow> \<not> lt y z \<Longrightarrow> \<not> lt x z"
begin

lemma lt_asym: "ok x \<Longrightarrow> ok y \<Longrightarrow> lt x y \<Longrightarrow> \<not> lt y x"
  using lt_irrefl lt_trans by blast

lemma lt_le_trans: "ok x \<Longrightarrow> ok y \<Longrightarrow> ok z \<Longrightarrow> lt x y \<Longrightarrow> \<not> lt z y \<Longrightarrow> lt x z"
  using not_lt_trans by blast

lemma strictly_increasing_nth:
  assumes "\<And>j. 0 < j \<Longrightarrow> j < length ts \<Longrightarrow> lt (ts ! (j - 1)) (ts ! j)"
    and "\<And>j. j < length ts \<Longrightarrow> ok (ts ! j)"
    and "i < j" and "j < length ts"
  shows "lt (ts ! i) (ts ! j)"
  using assms(3,4)
proof (induction j)
  case 0
  then show ?case by simp
next
  case (Suc j)
  have step: "lt (ts ! j) (ts ! Suc j)" using assms(1) [of "Suc j"] Suc.prems by simp
  show ?case
  proof (cases "i = j")
    case True
    with step show ?thesis by simp
  next
    case False
    with Suc have "lt (ts ! i) (ts ! j)" by simp
    then show ?thesis
      using lt_trans [of "ts ! i" "ts ! j" "ts ! Suc j"] step assms(2) Suc.prems by simp
  qed
qed

end

text \<open>Each kind's comparison compares integers read off the payload.\<close>

definition scalar_rank :: "go_kind \<Rightarrow> 64 word \<Rightarrow> int" where
  "scalar_rank k b =
     (case class_of k of
        SignedKind \<Rightarrow> sint b
      | UnsignedKind \<Rightarrow> uint b
      | Float32Kind \<Rightarrow> fp_val 8 23 (unat b)
      | Float64Kind \<Rightarrow> fp_val 11 52 (unat b))"

definition scalar_ok :: "go_kind \<Rightarrow> scalar \<Rightarrow> bool" where
  "scalar_ok k x \<longleftrightarrow> scalar_kind x = k \<and> finite_scalar x"

lemma scalar_lt_rank:
  "scalar_ok k x \<Longrightarrow> scalar_ok k y \<Longrightarrow>
     scalar_lt x y \<longleftrightarrow> scalar_rank k (scalar_bits x) < scalar_rank k (scalar_bits y)"
  by (auto simp: scalar_ok_def scalar_lt_def finite_scalar_def scalar_rank_def fp_lt_def
        word_less_def split: kind_class.splits)

interpretation scalars: split_order scalar_lt "scalar_ok k" for k
  by unfold_locales (simp_all add: scalar_lt_rank)

lemma finite_scalar_float:
  "finite_scalar (f32_scalar b) = f32_finite b"
  "finite_scalar (f64_scalar c) = f64_finite c"
  "finite_scalar (u32_scalar d)"
  by (simp_all add: finite_scalar_def f32_scalar_def f64_scalar_def u32_scalar_def
        f32_finite_def f64_finite_def fp_finite_iff unat_ucast_32_64)

lemma scalar_lt_float:
  "scalar_lt (f32_scalar a) (f32_scalar b) = f32_lt a b"
  "scalar_lt (f64_scalar c) (f64_scalar d) = f64_lt c d"
  "scalar_lt (u32_scalar e) (u32_scalar f) = (e < f)"
  by (simp_all add: scalar_lt_def f32_scalar_def f64_scalar_def u32_scalar_def
        f32_lt_def f64_lt_def unat_ucast_32_64 word_less_nat_alt)

end
