(* ===== verification/BinaryTree.thy ===== *)
theory BinaryTree
  imports Sha256
begin

text \<open>
  The reference model of the planner: \<^verbatim>\<open>integer/treeplan/binary.go\<close> (complete binary trees in
  breadth-first heap order, their validation and their routing) and
  \<^verbatim>\<open>integer/treeplan/cost.go\<close> (logical cost vectors). A decision tree as a recursive datatype
  is the abstract specification that routing refines.
\<close>

section \<open>Data\<close>

record binary_split =
  bs_feature :: int
  bs_threshold :: scalar

record binary_tree =
  bt_depth :: int
  bt_splits :: "binary_split list"
  bt_leaves :: "scalar list"

datatype binary_error =
  DepthNegative int
| DepthUnrepresentable int
| SplitCount nat int int
| LeafCount nat int int
| SplitNegativeFeature nat int
| SplitNonFinite nat
| LeafNonFinite nat
| FeatureNonFinite nat
| SplitNeedsFeature nat int nat

section \<open>Validation\<close>

definition validate_finite_features :: "scalar list \<Rightarrow> (binary_error, unit) res" where
  "validate_finite_features features =
     check_each (\<lambda>i x. reject_if (\<not> finite_scalar x) (FeatureNonFinite i)) 0 features"

text \<open>\<^verbatim>\<open>fullTreeCounts\<close> with \<^verbatim>\<open>bits.UintSize = 64\<close>: split count and leaf count of a depth.\<close>

definition full_tree_counts :: "int \<Rightarrow> (binary_error, int \<times> int) res" where
  "full_tree_counts depth =
     (if depth < 0 then err (DepthNegative depth)
      else if depth \<ge> 64 - 1 then err (DepthUnrepresentable depth)
      else let leaves = 2 ^ nat depth in Inr (leaves - 1, leaves))"

definition binary_validate :: "binary_tree \<Rightarrow> (binary_error, unit) res" where
  "binary_validate t =
     and_then (full_tree_counts (bt_depth t)) (\<lambda>(want_splits, want_leaves).
       if int (length (bt_splits t)) \<noteq> want_splits
         then err (SplitCount (length (bt_splits t)) want_splits (bt_depth t))
       else if int (length (bt_leaves t)) \<noteq> want_leaves
         then err (LeafCount (length (bt_leaves t)) want_leaves (bt_depth t))
       else and_then
         (check_each (\<lambda>i split.
            and_then (reject_if (bs_feature split < 0) (SplitNegativeFeature i (bs_feature split)))
              (\<lambda>_. reject_if (\<not> finite_scalar (bs_threshold split)) (SplitNonFinite i)))
            0 (bt_splits t))
         (\<lambda>_. check_each (\<lambda>i leaf. reject_if (\<not> finite_scalar leaf) (LeafNonFinite i))
            0 (bt_leaves t)))"

section \<open>Routing\<close>

definition branch_of :: "binary_split \<Rightarrow> scalar \<Rightarrow> nat" where
  "branch_of split value = (if scalar_lt value (bs_threshold split) then 0 else 1)"

fun binary_route_loop ::
  "binary_split list \<Rightarrow> scalar list \<Rightarrow> nat \<Rightarrow> nat \<Rightarrow> nat \<Rightarrow> (binary_error, nat) res" where
  "binary_route_loop splits features 0 node leaf = Inr leaf"
| "binary_route_loop splits features (Suc d) node leaf =
     and_then (at splits node) (\<lambda>split.
       if bs_feature split \<ge> int (length features)
         then err (SplitNeedsFeature node (bs_feature split) (length features))
       else and_then (at_int features (bs_feature split)) (\<lambda>value.
         let branch = branch_of split value
         in binary_route_loop splits features d (2 * node + 1 + branch) (2 * leaf + branch)))"

definition binary_route :: "binary_tree \<Rightarrow> scalar list \<Rightarrow> (binary_error, nat) res" where
  "binary_route t features =
     and_then (binary_validate t) (\<lambda>_.
     and_then (validate_finite_features features) (\<lambda>_.
     binary_route_loop (bt_splits t) features (nat (bt_depth t)) 0 0))"

definition binary_evaluate :: "binary_tree \<Rightarrow> scalar list \<Rightarrow> (binary_error, scalar) res" where
  "binary_evaluate t features = and_then (binary_route t features) (at (bt_leaves t))"

section \<open>Cost vectors\<close>

datatype semantics_class =
  SemanticsUnverified | SemanticsBinaryReference | SemanticsR0Equivalent | SemanticsR1ModelChanging

datatype logical_metric_status =
  LogicalMetricDerivedEndToEnd | LogicalMetricPredicateLowerBound | LogicalMetricNotDerived

type_synonym r0_schedule = string

record symbolic_rotation_cost =
  rc_expression :: string
  rc_data_dependent_allowed :: bool
  rc_constraint :: string

record cost_vector =
  cv_threshold_comparisons :: int
  cv_branch_bits :: int
  cv_structural_rounds :: int
  cv_depth :: int
  cv_depth_status :: logical_metric_status
  cv_one_hot_states :: int
  cv_selector_terms :: int
  cv_logical_bootstraps :: int
  cv_logical_bootstraps_status :: logical_metric_status
  cv_rotations :: symbolic_rotation_cost
  cv_leaf_terms :: int
  cv_execution_schedule :: r0_schedule
  cv_eligibility_constraint :: string

definition encrypted_index_constraint :: string where
  "encrypted_index_constraint =
     ''an encrypted child index cannot drive a data-dependent rotation; use an oblivious one-hot/diagonal selector with public rotations''"

text \<open>Decimal numbers, as \<^verbatim>\<open>%d\<close> prints them.\<close>

fun show_nat :: "nat \<Rightarrow> string" where
  "show_nat n =
     (if n < 10 then [char_of (48 + n)] else show_nat (n div 10) @ [char_of (48 + n mod 10)])"

declare show_nat.simps [simp del]

definition show_int :: "int \<Rightarrow> string" where
  "show_int z = (if z < 0 then ''-'' @ show_nat (nat (- z)) else show_nat (nat z))"

definition binary_cost :: "int \<Rightarrow> int \<Rightarrow> cost_vector" where
  "binary_cost depth leaf_terms = \<lparr>
     cv_threshold_comparisons = depth,
     cv_branch_bits = depth,
     cv_structural_rounds = depth,
     cv_depth = depth,
     cv_depth_status = LogicalMetricDerivedEndToEnd,
     cv_one_hot_states = 2 * depth,
     cv_selector_terms = 2 * depth,
     cv_logical_bootstraps = depth,
     cv_logical_bootstraps_status = LogicalMetricDerivedEndToEnd,
     cv_rotations = \<lparr>
       rc_expression = show_int depth @ ''*ObliviousSelect(2)'',
       rc_data_dependent_allowed = False,
       rc_constraint = encrypted_index_constraint\<rparr>,
     cv_leaf_terms = leaf_terms,
     cv_execution_schedule = '''',
     cv_eligibility_constraint = ''''\<rparr>"

definition binary_semantics :: "binary_tree \<Rightarrow> semantics_class" where
  "binary_semantics t = SemanticsBinaryReference"

definition binary_metrics :: "binary_tree \<Rightarrow> (binary_error, cost_vector) res" where
  "binary_metrics t =
     and_then (binary_validate t) (\<lambda>_.
       Inr (binary_cost (bt_depth t) (int (length (bt_leaves t)))))"

datatype cost_error =
  RadixTooSmall int
| LeavesNotPositive int
| NotExactPower int int

text \<open>
  The loop \<^verbatim>\<open>for n := leaves; n > 1; n /= radix\<close>, entered only with \<^verbatim>\<open>radix >= 2\<close> (the
  first test of the function); a smaller radix never reaches it.
\<close>

function exact_log_loop :: "nat \<Rightarrow> nat \<Rightarrow> nat \<Rightarrow> int \<Rightarrow> (cost_error, int) res" where
  "exact_log_loop radix leaves n depth =
     (if n > 1 \<and> radix \<ge> 2
      then if n mod radix \<noteq> 0 then err (NotExactPower (int leaves) (int radix))
           else exact_log_loop radix leaves (n div radix) (depth + 1)
      else Inr depth)"
  by pat_completeness auto
termination
  by (relation "measure (\<lambda>(radix, leaves, n, depth). n)") auto

declare exact_log_loop.simps [simp del]

definition multiway_cost_vector :: "int \<Rightarrow> int \<Rightarrow> int \<Rightarrow> cost_vector" where
  "multiway_cost_vector radix depth leaves = \<lparr>
     cv_threshold_comparisons = (radix - 1) * depth,
     cv_branch_bits = (radix - 1) * depth,
     cv_structural_rounds = depth,
     cv_depth = depth,
     cv_depth_status = LogicalMetricDerivedEndToEnd,
     cv_one_hot_states = radix * depth,
     cv_selector_terms = radix * depth,
     cv_logical_bootstraps = depth,
     cv_logical_bootstraps_status = LogicalMetricDerivedEndToEnd,
     cv_rotations = \<lparr>
       rc_expression = show_int depth @ ''*ObliviousSelect('' @ show_int radix @ '')'',
       rc_data_dependent_allowed = False,
       rc_constraint = encrypted_index_constraint\<rparr>,
     cv_leaf_terms = leaves,
     cv_execution_schedule = '''',
     cv_eligibility_constraint = ''''\<rparr>"

definition complete_multiway_cost :: "int \<Rightarrow> int \<Rightarrow> (cost_error, cost_vector) res" where
  "complete_multiway_cost radix leaves =
     (if radix < 2 then err (RadixTooSmall radix)
      else if leaves < 1 then err (LeavesNotPositive leaves)
      else and_then (exact_log_loop (nat radix) (nat leaves) (nat leaves) 0)
        (\<lambda>depth. Inr (multiway_cost_vector radix depth leaves)))"

section \<open>What validation admits\<close>

definition split_ok :: "binary_split \<Rightarrow> bool" where
  "split_ok s \<longleftrightarrow> 0 \<le> bs_feature s \<and> finite_scalar (bs_threshold s)"

definition binary_wf :: "binary_tree \<Rightarrow> bool" where
  "binary_wf t \<longleftrightarrow>
     0 \<le> bt_depth t \<and> bt_depth t < 63 \<and>
     length (bt_splits t) = 2 ^ nat (bt_depth t) - 1 \<and>
     length (bt_leaves t) = 2 ^ nat (bt_depth t) \<and>
     list_all split_ok (bt_splits t) \<and> list_all finite_scalar (bt_leaves t)"

lemma validate_finite_features_ok [ok_iff]:
  "validate_finite_features xs = Inr u \<longleftrightarrow> list_all finite_scalar xs"
  by (simp add: validate_finite_features_def check_each_ok reject_if_ok list_all_iff_nth)

lemma full_tree_counts_ok [ok_iff]:
  "full_tree_counts d = Inr (s, l) \<longleftrightarrow> 0 \<le> d \<and> d < 63 \<and> l = 2 ^ nat d \<and> s = 2 ^ nat d - 1"
  by (auto simp: full_tree_counts_def Let_def)

lemma int_length_power [simp]: "int n = 2 ^ k \<longleftrightarrow> n = 2 ^ k"
  by (metis of_nat_eq_iff of_nat_numeral of_nat_power)

lemma int_length_power_minus [simp]: "int n = 2 ^ k - 1 \<longleftrightarrow> n = 2 ^ k - 1"
proof -
  have "(2::int) ^ k - 1 = int (2 ^ k - 1)" by (simp add: of_nat_diff)
  then show ?thesis by (metis of_nat_eq_iff)
qed

lemma binary_validate_ok [ok_iff]: "binary_validate t = Inr u \<longleftrightarrow> binary_wf t"
proof -
  have "binary_validate t = Inr () \<longleftrightarrow>
      (\<exists>s l. full_tree_counts (bt_depth t) = Inr (s, l) \<and>
         int (length (bt_splits t)) = s \<and> int (length (bt_leaves t)) = l \<and>
         list_all split_ok (bt_splits t) \<and> list_all finite_scalar (bt_leaves t))"
    by (auto simp: binary_validate_def ok_iff split_ok_def list_all_iff_nth split: if_splits)
  then show ?thesis by (auto simp: full_tree_counts_ok binary_wf_def)
qed

section \<open>Decision trees, the abstract specification\<close>

datatype dtree = DLeaf scalar | DNode binary_split dtree dtree

text \<open>The value a decision tree predicts, and the index of its leaf from the left.\<close>

fun dtree_eval :: "dtree \<Rightarrow> scalar list \<Rightarrow> scalar" where
  "dtree_eval (DLeaf v) features = v"
| "dtree_eval (DNode s l r) features =
     (if scalar_lt (features ! nat (bs_feature s)) (bs_threshold s)
      then dtree_eval l features else dtree_eval r features)"

fun heap_dtree :: "binary_split list \<Rightarrow> scalar list \<Rightarrow> nat \<Rightarrow> nat \<Rightarrow> nat \<Rightarrow> dtree" where
  "heap_dtree splits leaves 0 node leaf = DLeaf (leaves ! leaf)"
| "heap_dtree splits leaves (Suc d) node leaf =
     DNode (splits ! node)
       (heap_dtree splits leaves d (2 * node + 1) (2 * leaf))
       (heap_dtree splits leaves d (2 * node + 2) (2 * leaf + 1))"

text \<open>The tree a complete binary tree in heap order stands for.\<close>

definition binary_dtree :: "binary_tree \<Rightarrow> dtree" where
  "binary_dtree t = heap_dtree (bt_splits t) (bt_leaves t) (nat (bt_depth t)) 0 0"

text \<open>Every split of the tree names a feature the input has.\<close>

definition features_cover :: "binary_split list \<Rightarrow> scalar list \<Rightarrow> bool" where
  "features_cover splits features \<longleftrightarrow> list_all (\<lambda>s. bs_feature s < int (length features)) splits"

section \<open>The walk down the heap\<close>

text \<open>
  The node at level \<^verbatim>\<open>k\<close> above leaf prefix \<^verbatim>\<open>q\<close> is \<^verbatim>\<open>2 ^ k - 1 + q\<close>; the loop keeps this
  relation between its two variables.
\<close>

lemma heap_child:
  "node = 2 ^ k - 1 + q \<Longrightarrow> (b::nat) \<le> 1 \<Longrightarrow> 2 * node + 1 + b = 2 ^ Suc k - 1 + (2 * q + b)"
proof -
  obtain r where "2 ^ k = Suc r" by (metis not0_implies_Suc power_not_zero zero_neq_numeral)
  then show "node = 2 ^ k - 1 + q \<Longrightarrow> b \<le> 1 \<Longrightarrow> 2 * node + 1 + b = 2 ^ Suc k - 1 + (2 * q + b)"
    by simp
qed

lemma heap_node_bound:
  "q < 2 ^ k \<Longrightarrow> k < D \<Longrightarrow> 2 ^ k - 1 + q < (2 ^ D - 1 :: nat)"
proof -
  assume q: "q < 2 ^ k" and k: "k < D"
  have "(2::nat) ^ Suc k \<le> 2 ^ D" using k by (intro power_increasing) simp_all
  with q show ?thesis by simp
qed

lemma branch_of_le: "branch_of s v \<le> 1"
  by (simp add: branch_of_def)

lemma child_prefix_bound: "q < 2 ^ k \<Longrightarrow> (b::nat) \<le> 1 \<Longrightarrow> 2 * q + b < 2 ^ Suc k"
  by simp

definition route_outcome ::
  "binary_split list \<Rightarrow> scalar list \<Rightarrow> scalar list \<Rightarrow> nat \<Rightarrow> dtree \<Rightarrow> (binary_error, nat) res \<Rightarrow> bool" where
  "route_outcome splits leaves features D tr r =
     (case r of
        Inr i \<Rightarrow> i < 2 ^ D \<and> dtree_eval tr features = leaves ! i
      | Inl f \<Rightarrow> \<not> features_cover splits features \<and>
                 (\<exists>n z. f = Err (SplitNeedsFeature n z (length features))))"

lemma binary_route_loop_spec:
  assumes "length splits = 2 ^ D - 1" and "list_all split_ok splits"
    and "k + d = D" and "q < 2 ^ k"
  shows "route_outcome splits leaves features D (heap_dtree splits leaves d (2 ^ k - 1 + q) q)
     (binary_route_loop splits features d (2 ^ k - 1 + q) q)"
  using assms(3,4)
proof (induction d arbitrary: k q)
  case 0
  then show ?case by (simp add: route_outcome_def)
next
  case (Suc d)
  define node where "node = 2 ^ k - 1 + q"
  define s where "s = splits ! node"
  define b where "b = branch_of s (features ! nat (bs_feature s))"
  have node: "node < length splits"
    using heap_node_bound [of q k D] Suc.prems assms(1) by (simp add: node_def)
  then have s: "split_ok s" using assms(2) by (simp add: s_def list_all_iff)
  show ?case
  proof (cases "bs_feature s < int (length features)")
    case False
    with node have "\<not> features_cover splits features"
      by (auto simp: features_cover_def list_all_iff s_def dest: nth_mem)
    with False node show ?thesis
      unfolding node_def [symmetric] by (simp add: route_outcome_def err_def s_def)
  next
    case True
    have step: "binary_route_loop splits features (Suc d) node q =
        binary_route_loop splits features d (2 ^ Suc k - 1 + (2 * q + b)) (2 * q + b)"
      using node s True heap_child [OF node_def branch_of_le, of s "features ! nat (bs_feature s)"]
      by (simp add: split_ok_def Let_def b_def flip: s_def)
    have kids: "2 * node + 1 = 2 ^ Suc k - 1 + 2 * q" "2 * node + 2 = 2 ^ Suc k - 1 + (2 * q + 1)"
      using heap_child [OF node_def, of 0] heap_child [OF node_def, of 1] by simp_all
    have eval: "dtree_eval (heap_dtree splits leaves (Suc d) node q) features =
        dtree_eval (heap_dtree splits leaves d (2 ^ Suc k - 1 + (2 * q + b)) (2 * q + b)) features"
      using kids by (simp add: b_def branch_of_def flip: s_def)
    have "2 * q + b < 2 ^ Suc k"
      using child_prefix_bound [OF Suc.prems(2) branch_of_le] by (simp add: b_def)
    then have "route_outcome splits leaves features D
        (heap_dtree splits leaves d (2 ^ Suc k - 1 + (2 * q + b)) (2 * q + b))
        (binary_route_loop splits features d (2 ^ Suc k - 1 + (2 * q + b)) (2 * q + b))"
      using Suc.IH [of "Suc k" "2 * q + b"] Suc.prems(1) by simp
    then show ?thesis unfolding node_def [symmetric] route_outcome_def step eval .
  qed
qed

lemma binary_route_wf:
  assumes "binary_wf t" and "list_all finite_scalar features"
  shows "route_outcome (bt_splits t) (bt_leaves t) features (nat (bt_depth t)) (binary_dtree t)
     (binary_route t features)"
proof -
  have "binary_route t features = binary_route_loop (bt_splits t) features (nat (bt_depth t)) 0 0"
  proof -
    have "binary_validate t = Inr ()" and "validate_finite_features features = Inr ()"
      using assms by (simp_all add: ok_iff)
    then show ?thesis by (simp add: binary_route_def)
  qed
  then show ?thesis
    using assms(1) binary_route_loop_spec [of "bt_splits t" "nat (bt_depth t)" 0 "nat (bt_depth t)" 0
      "bt_leaves t" features]
    by (simp add: binary_dtree_def binary_wf_def)
qed

section \<open>No panic, whatever the tree\<close>

lemma binary_validate_safe [simp]: "safe (binary_validate t)"
  by (auto simp: binary_validate_def full_tree_counts_def Let_def intro!: safe_intro)

lemma validate_finite_features_safe [simp]: "safe (validate_finite_features xs)"
  by (auto simp: validate_finite_features_def intro!: safe_intro)

lemma route_outcome_safe: "route_outcome sp lv fs D tr r \<Longrightarrow> safe r"
  by (auto simp: route_outcome_def safe_def split: sum.splits)

lemma binary_route_Inr:
  "binary_route t features = Inr i \<Longrightarrow>
     binary_wf t \<and> list_all finite_scalar features \<and> i < 2 ^ nat (bt_depth t) \<and>
     dtree_eval (binary_dtree t) features = bt_leaves t ! i"
proof -
  assume r: "binary_route t features = Inr i"
  then have w: "binary_wf t" "list_all finite_scalar features"
    by (auto simp: binary_route_def ok_iff)
  with binary_route_wf [OF w] r show ?thesis by (simp add: route_outcome_def)
qed

lemma binary_route_safe [simp]: "safe (binary_route t features)"
proof (cases "binary_wf t \<and> list_all finite_scalar features")
  case True
  then show ?thesis using binary_route_wf route_outcome_safe by blast
next
  case False
  then show ?thesis
    by (auto simp: binary_route_def ok_iff intro!: safe_intro)
qed

lemma binary_evaluate_safe [simp]: "safe (binary_evaluate t features)"
  by (auto simp: binary_evaluate_def binary_wf_def dest: binary_route_Inr intro!: safe_intro)

section \<open>Properties\<close>

text \<open>
  C8. On a tree that passes validation and on finite features that cover its splits, Evaluate
  returns the value of the decision tree the heap layout stands for.
\<close>

theorem binary_evaluate_correct:
  assumes "binary_validate t = Inr ()" and "validate_finite_features features = Inr ()"
    and "features_cover (bt_splits t) features"
  shows "binary_evaluate t features = Inr (dtree_eval (binary_dtree t) features)"
proof -
  from assms have w: "binary_wf t" "list_all finite_scalar features" by (simp_all add: ok_iff)
  from binary_route_wf [OF w] assms(3)
  obtain i where "binary_route t features = Inr i" "i < 2 ^ nat (bt_depth t)"
    "dtree_eval (binary_dtree t) features = bt_leaves t ! i"
    by (auto simp: route_outcome_def split: sum.splits)
  with w(1) show ?thesis by (simp add: binary_evaluate_def binary_wf_def)
qed

text \<open>
  C34. Evaluate never panics, whatever tree and features it is given, and a value it returns is
  a leaf of a valid tree, the one the decision tree selects.
\<close>

theorem binary_evaluate_fails_closed:
  "safe (binary_evaluate t features) \<and>
   (\<forall>v. binary_evaluate t features = Inr v \<longrightarrow>
      binary_validate t = Inr () \<and> v \<in> set (bt_leaves t) \<and>
      v = dtree_eval (binary_dtree t) features)"
proof (intro conjI)
  show "safe (binary_evaluate t features)" by simp
qed (auto simp: binary_evaluate_def ok_iff dest!: binary_route_Inr)

section \<open>A concrete tree\<close>

definition sample_tree :: binary_tree where
  "sample_tree = \<lparr>bt_depth = 1, bt_splits = [\<lparr>bs_feature = 0, bs_threshold = u32_scalar 10\<rparr>],
     bt_leaves = [u32_scalar 7, u32_scalar 8]\<rparr>"

lemma sample_tree_wf [simp]: "binary_wf sample_tree"
  by (simp add: binary_wf_def sample_tree_def split_ok_def finite_scalar_float)

lemma sample_tree_eval:
  "dtree_eval (binary_dtree sample_tree) [u32_scalar 3] = u32_scalar 7"
  by (simp add: binary_dtree_def sample_tree_def scalar_lt_float)

theorem binary_evaluate_correct_witness:
  "binary_validate sample_tree = Inr () \<and> validate_finite_features [u32_scalar 3] = Inr () \<and>
   features_cover (bt_splits sample_tree) [u32_scalar 3] \<and>
   binary_evaluate sample_tree [u32_scalar 3] = Inr (u32_scalar 7)"
proof -
  have h: "binary_validate sample_tree = Inr ()" "validate_finite_features [u32_scalar 3] = Inr ()"
    "features_cover (bt_splits sample_tree) [u32_scalar 3]"
    by (simp_all add: ok_iff finite_scalar_float) (simp add: features_cover_def sample_tree_def)
  show ?thesis using h binary_evaluate_correct [OF h] by (simp add: sample_tree_eval)
qed

theorem binary_evaluate_fails_closed_witness:
  "binary_evaluate sample_tree [u32_scalar 3] = Inr (u32_scalar 7) \<and>
   u32_scalar 7 \<in> set (bt_leaves sample_tree)"
proof -
  have e: "binary_evaluate sample_tree [u32_scalar 3] = Inr (u32_scalar 7)"
    by (simp add: binary_evaluate_def binary_route_def ok_iff finite_scalar_float)
      (simp add: sample_tree_def branch_of_def scalar_lt_float Let_def)
  then show ?thesis
    using binary_evaluate_fails_closed [of sample_tree "[u32_scalar 3]"] by blast
qed

section \<open>Exact powers\<close>

lemma exact_log_loop_iff:
  assumes "2 \<le> radix" and "1 \<le> n"
  shows "exact_log_loop radix leaves n depth = Inr r \<longleftrightarrow> (\<exists>k. n = radix ^ k \<and> r = depth + int k)"
  using assms
proof (induction radix leaves n depth rule: exact_log_loop.induct)
  case (1 radix leaves n depth)
  show ?case
  proof (cases "n = 1")
    case True
    have "\<And>k. Suc 0 = radix ^ k \<longleftrightarrow> k = 0" using 1 by (metis One_nat_def Suc_1 Suc_n_not_le_n nat_power_eq_Suc_0_iff)
    with True show ?thesis by (subst exact_log_loop.simps) auto
  next
    case n1: False
    show ?thesis
    proof (cases "radix dvd n")
      case False
      then have "\<not> (\<exists>k. n = radix ^ k)" using n1 by (metis dvd_power gr0I power_0)
      with False 1 n1 show ?thesis
        by (subst exact_log_loop.simps) (auto simp: mod_eq_0_iff_dvd)
    next
      case True
      then obtain m where m: "n = radix * m" by (elim dvdE)
      with 1 n1 have m1: "1 \<le> m" "n div radix = m" "n mod radix = 0" by (auto simp: Suc_le_eq)
      have "exact_log_loop radix leaves n depth = exact_log_loop radix leaves m (depth + 1)"
        using n1 1 m1 by (subst exact_log_loop.simps) simp
      also have "\<dots> = Inr r \<longleftrightarrow> (\<exists>k. m = radix ^ k \<and> r = depth + 1 + int k)"
        using "1.IH" m1 n1 1 by simp
      also have "\<dots> \<longleftrightarrow> (\<exists>k. n = radix ^ k \<and> r = depth + int k)"
      proof
        assume "\<exists>k. m = radix ^ k \<and> r = depth + 1 + int k"
        then obtain k where "m = radix ^ k" "r = depth + 1 + int k" by blast
        then have "n = radix ^ Suc k \<and> r = depth + int (Suc k)" by (simp add: m)
        then show "\<exists>k. n = radix ^ k \<and> r = depth + int k" by blast
      next
        assume "\<exists>k. n = radix ^ k \<and> r = depth + int k"
        then obtain k where k: "n = radix ^ k" "r = depth + int k" by blast
        with n1 obtain j where "k = Suc j" by (cases k) auto
        with k m 1 show "\<exists>k. m = radix ^ k \<and> r = depth + 1 + int k" by auto
      qed
      finally show ?thesis .
    qed
  qed
qed

lemma exact_log_loop_safe [simp]: "safe (exact_log_loop radix leaves n depth)"
proof (induction radix leaves n depth rule: exact_log_loop.induct)
  case (1 radix leaves n depth)
  then show ?case by (subst exact_log_loop.simps) simp
qed

lemma nat_power_iff: "2 \<le> r \<Longrightarrow> 1 \<le> l \<Longrightarrow> nat l = nat r ^ k \<longleftrightarrow> l = r ^ k"
  by (metis nat_power_eq eq_nat_nat_iff int_one_le_iff_zero_less one_le_numeral order_trans
      zero_le_one zero_le_power)

text \<open>
  CompleteMultiwayCost succeeds exactly on the leaf counts L = r ^ k of a radix r >= 2, and
  then reports the cost vector of depth k, with (r - 1) * k comparisons and r * k selector
  terms; every other input is a returned error.
\<close>

theorem complete_multiway_cost_iff:
  "safe (complete_multiway_cost radix leaves) \<and>
   (complete_multiway_cost radix leaves = Inr c \<longleftrightarrow>
      2 \<le> radix \<and> (\<exists>k. leaves = radix ^ k \<and> c = multiway_cost_vector radix (int k) leaves))"
proof (cases "2 \<le> radix \<and> 1 \<le> leaves")
  case True
  then have "2 \<le> nat radix" "1 \<le> nat leaves" by arith+
  note loop = exact_log_loop_iff [OF this, of "nat leaves" 0]
  have "complete_multiway_cost radix leaves = Inr c \<longleftrightarrow>
      (\<exists>d. exact_log_loop (nat radix) (nat leaves) (nat leaves) 0 = Inr d \<and>
           c = multiway_cost_vector radix d leaves)"
    using True by (auto simp: complete_multiway_cost_def and_then_ok)
  also have "\<dots> \<longleftrightarrow> (\<exists>k. leaves = radix ^ k \<and> c = multiway_cost_vector radix (int k) leaves)"
    using True by (auto simp: loop nat_power_iff)
  finally show ?thesis
    using True by (simp add: complete_multiway_cost_def safe_and_then)
next
  case False
  have "\<And>k. 2 \<le> radix \<Longrightarrow> 1 \<le> radix ^ k" by (simp add: one_le_power)
  with False show ?thesis by (auto simp: complete_multiway_cost_def)
qed

end
