(* ===== verification/Digest.thy ===== *)
theory Digest
  imports BinaryTree
begin

text \<open>
  The canonical encoder of \<^verbatim>\<open>integer/treeplan/digest.go\<close>. The encoder's state is the list of
  bytes written so far; a digest is the SHA-256 of all of them. Every kind of the constraint
  \<^verbatim>\<open>Ordered\<close> has a branch in \<^verbatim>\<open>writeScalar\<close>, so its two error returns cannot be reached and
  the digests are total. The lemmas show the encodings injective on values of Go's \<^verbatim>\<open>int\<close>,
  which is what makes a digest bind a tree.
\<close>

section \<open>The encoder\<close>

type_synonym encoder = "byte list"

definition write_uint64 :: "encoder \<Rightarrow> 64 word \<Rightarrow> encoder" where
  "write_uint64 e value = e @ be64 value"

definition write_bytes :: "encoder \<Rightarrow> byte list \<Rightarrow> encoder" where
  "write_bytes e value = write_uint64 e (word_of_nat (length value)) @ value"

definition write_int :: "encoder \<Rightarrow> int \<Rightarrow> encoder" where
  "write_int e value = write_uint64 e (word_of_int value)"

definition write_scalar :: "encoder \<Rightarrow> scalar \<Rightarrow> encoder" where
  "write_scalar e value =
     write_uint64
       (write_uint64 (e @ [kind_code (scalar_kind value)]) (word_of_nat (kind_bits (scalar_kind value))))
       (scalar_bits value)"

definition ascii :: "string \<Rightarrow> byte list" where
  "ascii s = map (\<lambda>c. word_of_nat (of_char c)) s"

definition new_encoder :: "string \<Rightarrow> encoder" where
  "new_encoder domain = write_bytes [] (ascii domain)"

definition write_split :: "encoder \<Rightarrow> binary_split \<Rightarrow> encoder" where
  "write_split e split = write_scalar (write_int e (bs_feature split)) (bs_threshold split)"

definition write_slice :: "(encoder \<Rightarrow> 'a \<Rightarrow> encoder) \<Rightarrow> encoder \<Rightarrow> 'a list \<Rightarrow> encoder" where
  "write_slice w e xs = fold (\<lambda>x e'. w e' x) xs (write_uint64 e (word_of_nat (length xs)))"

definition encode_binary_tree :: "binary_tree \<Rightarrow> byte list" where
  "encode_binary_tree t =
     (let e = new_encoder ''LCPDTE/treeplan/BinaryTree/v1'';
          e = write_int e (bt_depth t);
          e = write_slice write_split e (bt_splits t)
      in write_slice write_scalar e (bt_leaves t))"

definition digest_binary_tree :: "binary_tree \<Rightarrow> byte list" where
  "digest_binary_tree t = sha256 (encode_binary_tree t)"

section \<open>Writers append, and what they append can be read back\<close>

text \<open>
  A writer appends a block that depends on the value alone; it is \<^verbatim>\<open>self-delimiting\<close> on a set
  of values when the block and whatever follows it determine the value.
\<close>

locale writer =
  fixes w :: "byte list \<Rightarrow> 'a \<Rightarrow> byte list"
    and ok :: "'a \<Rightarrow> bool"
  assumes appends: "w e x = e @ w [] x"
    and delimits: "ok x \<Longrightarrow> ok y \<Longrightarrow> w [] x @ r = w [] y @ s \<Longrightarrow> x = y \<and> r = s"
begin

lemma writes_eq: "ok x \<Longrightarrow> ok y \<Longrightarrow> w e x @ r = w e y @ s \<longleftrightarrow> x = y \<and> r = s"
proof -
  assume o: "ok x" "ok y"
  have "w e x @ r = w e y @ s \<longleftrightarrow> w [] x @ r = w [] y @ s"
    by (simp add: appends [of e])
  also have "\<dots> \<longleftrightarrow> x = y \<and> r = s" using delimits [OF o] by auto
  finally show ?thesis .
qed

lemma fold_appends: "fold (\<lambda>x e'. w e' x) xs e = e @ concat (map (w []) xs)"
proof (induction xs arbitrary: e)
  case Nil
  show ?case by simp
next
  case (Cons x xs)
  then show ?case by (simp add: appends [of e x])
qed

lemma concat_delimits:
  "length xs = length ys \<Longrightarrow> list_all ok xs \<Longrightarrow> list_all ok ys \<Longrightarrow>
     concat (map (w []) xs) @ r = concat (map (w []) ys) @ s \<Longrightarrow> xs = ys \<and> r = s"
proof (induction xs ys rule: list_induct2)
  case Nil
  then show ?case by simp
next
  case (Cons x xs y ys)
  from Cons.prems have "w [] x @ (concat (map (w []) xs) @ r) = w [] y @ (concat (map (w []) ys) @ s)"
    by simp
  with Cons.prems have "x = y \<and> concat (map (w []) xs) @ r = concat (map (w []) ys) @ s"
    by (intro delimits) simp_all
  with Cons show ?case by simp
qed

end

lemma word64_of_nat_inj: "m < 2 ^ 64 \<Longrightarrow> n < 2 ^ 64 \<Longrightarrow> (word_of_nat m :: 64 word) = word_of_nat n \<longleftrightarrow> m = n"
proof -
  have "unat (word_of_nat k :: 64 word) = k" if "k < 2 ^ 64" for k
    using that by (simp add: unat_of_nat)
  then show "m < 2 ^ 64 \<Longrightarrow> n < 2 ^ 64 \<Longrightarrow> ?thesis" by metis
qed

definition go_int :: "int \<Rightarrow> bool" where
  "go_int z \<longleftrightarrow> - (2 ^ 63) \<le> z \<and> z < 2 ^ 63"

lemma word64_of_int_inj: "go_int a \<Longrightarrow> go_int b \<Longrightarrow> (word_of_int a :: 64 word) = word_of_int b \<longleftrightarrow> a = b"
proof
  assume "go_int a" "go_int b" and eq: "(word_of_int a :: 64 word) = word_of_int b"
  then have "signed_take_bit 63 a = a" "signed_take_bit 63 b = b"
    by (simp_all add: go_int_def signed_take_bit_int_eq_self)
  moreover have "sint (word_of_int a :: 64 word) = sint (word_of_int b :: 64 word)" using eq by simp
  ultimately show "a = b" by (simp add: sint_sbintrunc')
qed simp

interpretation uint64_writer: writer write_uint64 "\<lambda>_. True"
  by unfold_locales (simp_all add: write_uint64_def)

interpretation int_writer: writer write_int go_int
  by unfold_locales (simp_all add: write_int_def write_uint64_def word64_of_int_inj)

interpretation scalar_writer: writer write_scalar "\<lambda>_. True"
  by unfold_locales
    (auto simp: write_scalar_def write_uint64_def kind_code_inj intro: scalar.expand)

definition split_int :: "binary_split \<Rightarrow> bool" where
  "split_int s \<longleftrightarrow> go_int (bs_feature s)"

interpretation split_writer: writer write_split split_int
proof
  fix e x show "write_split e x = e @ write_split [] x"
    by (simp add: write_split_def write_scalar_def write_int_def write_uint64_def)
next
  fix x y r s
  assume ok: "split_int x" "split_int y" and eq: "write_split [] x @ r = write_split [] y @ s"
  have sp: "write_split [] z = write_int [] (bs_feature z) @ write_scalar [] (bs_threshold z)" for z
    by (simp add: write_split_def write_scalar_def write_int_def write_uint64_def)
  have "write_int [] (bs_feature x) @ (write_scalar [] (bs_threshold x) @ r) =
      write_int [] (bs_feature y) @ (write_scalar [] (bs_threshold y) @ s)"
    using eq by (simp only: sp append_assoc)
  with ok have f: "bs_feature x = bs_feature y" and
    "write_scalar [] (bs_threshold x) @ r = write_scalar [] (bs_threshold y) @ s"
    using int_writer.delimits unfolding split_int_def by blast+
  then have "bs_threshold x = bs_threshold y" "r = s"
    using scalar_writer.delimits by blast+
  with f show "x = y \<and> r = s" by simp
qed

text \<open>A slice is its length followed by its elements.\<close>

definition slice_ok :: "('a \<Rightarrow> bool) \<Rightarrow> 'a list \<Rightarrow> bool" where
  "slice_ok ok xs \<longleftrightarrow> length xs < 2 ^ 64 \<and> list_all ok xs"

context writer
begin

lemma slice_appends: "write_slice w e xs = e @ write_slice w [] xs"
  by (simp add: write_slice_def fold_appends write_uint64_def)

lemma slice_delimits:
  "slice_ok ok xs \<Longrightarrow> slice_ok ok ys \<Longrightarrow> write_slice w [] xs @ r = write_slice w [] ys @ s \<Longrightarrow>
     xs = ys \<and> r = s"
proof -
  assume ok: "slice_ok ok xs" "slice_ok ok ys"
    and eq: "write_slice w [] xs @ r = write_slice w [] ys @ s"
  from eq have e: "be64 (word_of_nat (length xs)) @ (concat (map (w []) xs) @ r) =
      be64 (word_of_nat (length ys)) @ (concat (map (w []) ys) @ s)"
    by (simp add: write_slice_def fold_appends write_uint64_def)
  then have "length xs = length ys"
    using ok by (simp add: slice_ok_def word64_of_nat_inj)
  with e ok show ?thesis by (auto simp: slice_ok_def dest: concat_delimits)
qed

end

interpretation splits_writer: writer "write_slice write_split" "slice_ok split_int"
  by unfold_locales (rule split_writer.slice_appends, rule split_writer.slice_delimits)

interpretation leaves_writer: writer "write_slice write_scalar" "slice_ok (\<lambda>_. True)"
  by unfold_locales (rule scalar_writer.slice_appends, rule scalar_writer.slice_delimits)

section \<open>The encoding of a tree determines it\<close>

text \<open>A tree whose integers are values of Go's \<^verbatim>\<open>int\<close> and whose slices have Go lengths.\<close>

definition binary_typed :: "binary_tree \<Rightarrow> bool" where
  "binary_typed t \<longleftrightarrow> go_int (bt_depth t) \<and> slice_ok split_int (bt_splits t) \<and>
     slice_ok (\<lambda>_. True) (bt_leaves t)"

lemma encode_binary_tree_blocks:
  "encode_binary_tree t =
     new_encoder ''LCPDTE/treeplan/BinaryTree/v1'' @ write_int [] (bt_depth t) @
     write_slice write_split [] (bt_splits t) @ write_slice write_scalar [] (bt_leaves t)"
  by (simp add: encode_binary_tree_def Let_def int_writer.appends [of "new_encoder _"]
      splits_writer.appends [of "_ @ _"] leaves_writer.appends [of "_ @ _"])

lemma encode_binary_tree_inj:
  assumes "binary_typed t" and "binary_typed u" and eq: "encode_binary_tree t = encode_binary_tree u"
  shows "t = u"
proof -
  have "write_int [] (bt_depth t) @
      (write_slice write_split [] (bt_splits t) @ write_slice write_scalar [] (bt_leaves t)) =
    write_int [] (bt_depth u) @
      (write_slice write_split [] (bt_splits u) @ write_slice write_scalar [] (bt_leaves u))"
    using eq by (simp add: encode_binary_tree_blocks)
  then have d: "bt_depth t = bt_depth u" and
    r: "write_slice write_split [] (bt_splits t) @ write_slice write_scalar [] (bt_leaves t) =
      write_slice write_split [] (bt_splits u) @ write_slice write_scalar [] (bt_leaves u)"
    using int_writer.delimits assms(1,2) unfolding binary_typed_def by blast+
  have s: "bt_splits t = bt_splits u" and
    l: "write_slice write_scalar [] (bt_leaves t) @ [] = write_slice write_scalar [] (bt_leaves u) @ []"
    using splits_writer.delimits [OF _ _ r] assms(1,2) by (simp_all add: binary_typed_def)
  have "bt_leaves t = bt_leaves u"
    using leaves_writer.delimits [OF _ _ l] assms(1,2) by (simp add: binary_typed_def)
  with d s show ?thesis by simp
qed

text \<open>A valid tree whose features are Go ints is typed: its size is bounded by its depth.\<close>

lemma binary_wf_typed:
  "binary_wf t \<Longrightarrow> list_all split_int (bt_splits t) \<Longrightarrow> binary_typed t"
proof -
  assume w: "binary_wf t" and s: "list_all split_int (bt_splits t)"
  have "nat (bt_depth t) \<le> 63" using w by (simp add: binary_wf_def nat_le_iff)
  then have "(2::nat) ^ nat (bt_depth t) \<le> 2 ^ 63" by (intro power_increasing) simp_all
  then have "(2::nat) ^ nat (bt_depth t) < 2 ^ 64" by simp
  with w s show ?thesis
    by (auto simp: binary_typed_def binary_wf_def go_int_def slice_ok_def list_all_iff)
qed

end
