(* ===== verification/RadixTree.thy ===== *)
theory RadixTree
  imports Digest
begin

text \<open>
  Radix grouping of a complete binary tree: \<^verbatim>\<open>integer/treeplan/radix.go\<close> without its cost view.
  The compiler, the structural and certificate validation, the source check and the routing of
  a grouped tree, with the proof that a compiled tree routes every input as its source does and
  that the two digests of its certificate bind it to that source.
\<close>

section \<open>Data\<close>

record radix_supernode =
  rs_prefix :: int
  rs_splits :: "binary_split list"

record radix_level =
  rl_start_depth :: int
  rl_width :: int
  rl_nodes :: "radix_supernode list"

record r0_certificate =
  rc_issued :: bool
  rc_source_digest :: "byte list"
  rc_plan_digest :: "byte list"

record radix_tree =
  rt_binary_depth :: int
  rt_group_width :: int
  rt_levels :: "radix_level list"
  rt_leaves :: "scalar list"
  rt_certificate :: r0_certificate

record r0_certificate_view =
  rv_source_sha256 :: string
  rv_plan_sha256 :: string

datatype radix_error =
  GroupWidthRange int
| InvalidBinarySource binary_error
| RadixCounts binary_error
| RadixLeafCount nat int int
| LevelStart nat int int
| LevelWidth nat int int
| LevelNodeCount nat nat int
| NodePrefix nat nat int
| NodeSplitCount nat nat nat int
| NodeNegativeFeature nat nat nat int
| NodeNonFinite nat nat nat
| LevelsCover int int
| RadixLeafNonFinite nat
| CertificateAbsent
| CertificateMismatch
| InvalidCertifiedPlan radix_error
| DifferentBinarySource
| RecompileSource radix_error
| NotCompilerOutput
| RadixFeatures binary_error
| RadixSplitNeedsFeature nat nat int nat

section \<open>Digest of a plan\<close>

definition write_supernode :: "encoder \<Rightarrow> radix_supernode \<Rightarrow> encoder" where
  "write_supernode e node = write_slice write_split (write_int e (rs_prefix node)) (rs_splits node)"

definition write_level :: "encoder \<Rightarrow> radix_level \<Rightarrow> encoder" where
  "write_level e level =
     write_slice write_supernode
       (write_int (write_int e (rl_start_depth level)) (rl_width level)) (rl_nodes level)"

definition encode_radix_plan :: "radix_tree \<Rightarrow> byte list" where
  "encode_radix_plan t =
     (let e = new_encoder ''LCPDTE/treeplan/RadixTree/v1'';
          e = write_int e (rt_binary_depth t);
          e = write_int e (rt_group_width t);
          e = write_slice write_level e (rt_levels t)
      in write_slice write_scalar e (rt_leaves t))"

definition digest_radix_plan :: "radix_tree \<Rightarrow> byte list" where
  "digest_radix_plan t = sha256 (encode_radix_plan t)"

section \<open>The compiler\<close>

text \<open>
  The two loops over \<^verbatim>\<open>localDepth\<close> and \<^verbatim>\<open>suffix\<close> fill the fresh slice from left to right:
  \<^verbatim>\<open>localBase + suffix\<close> runs through 0, 1, 2, and so on.
\<close>

definition local_splits :: "binary_split list \<Rightarrow> nat \<Rightarrow> nat \<Rightarrow> nat \<Rightarrow> binary_split list" where
  "local_splits splits start width prefix =
     concat (map (\<lambda>local_depth.
       map (\<lambda>suffix. splits ! ((2 ^ (start + local_depth) - 1) + prefix * 2 ^ local_depth + suffix))
         [0..<2 ^ local_depth])
       [0..<width])"

definition compile_level :: "binary_split list \<Rightarrow> nat \<Rightarrow> nat \<Rightarrow> radix_level" where
  "compile_level splits start width = \<lparr>
     rl_start_depth = int start,
     rl_width = int width,
     rl_nodes = map (\<lambda>prefix. \<lparr>
       rs_prefix = int prefix,
       rs_splits = local_splits splits start width prefix\<rparr>) [0..<2 ^ start]\<rparr>"

function compile_levels :: "binary_split list \<Rightarrow> nat \<Rightarrow> nat \<Rightarrow> nat \<Rightarrow> radix_level list" where
  "compile_levels splits group_width depth start =
     (if start < depth \<and> 0 < group_width
      then compile_level splits start (min group_width (depth - start))
             # compile_levels splits group_width depth (start + group_width)
      else [])"
  by pat_completeness auto
termination
  by (relation "measure (\<lambda>(splits, group_width, depth, start). depth - start)") auto

declare compile_levels.simps [simp del]

definition compile_r0 :: "binary_tree \<Rightarrow> int \<Rightarrow> (radix_error, radix_tree) res" where
  "compile_r0 tree group_width =
     (if group_width < 1 \<or> group_width > 4 then err (GroupWidthRange group_width)
      else and_then (map_err InvalidBinarySource (binary_validate tree)) (\<lambda>_.
        let out = \<lparr>
              rt_binary_depth = bt_depth tree,
              rt_group_width = group_width,
              rt_levels = compile_levels (bt_splits tree) (nat group_width) (nat (bt_depth tree)) 0,
              rt_leaves = bt_leaves tree,
              rt_certificate = \<lparr>
                rc_issued = False,
                rc_source_digest = replicate 32 0,
                rc_plan_digest = replicate 32 0\<rparr>\<rparr>
        in Inr (out\<lparr>rt_certificate := \<lparr>
             rc_issued = True,
             rc_source_digest = digest_binary_tree tree,
             rc_plan_digest = digest_radix_plan out\<rparr>\<rparr>)))"

section \<open>Validation\<close>

definition validate_node ::
  "nat \<Rightarrow> int \<Rightarrow> nat \<Rightarrow> radix_supernode \<Rightarrow> (radix_error, unit) res" where
  "validate_node i width prefix node =
     (if rs_prefix node \<noteq> int prefix then err (NodePrefix i prefix (rs_prefix node))
      else if int (length (rs_splits node)) \<noteq> 2 ^ nat width - 1
        then err (NodeSplitCount i prefix (length (rs_splits node)) (2 ^ nat width - 1))
      else check_each (\<lambda>j split.
        if bs_feature split < 0 then err (NodeNegativeFeature i prefix j (bs_feature split))
        else reject_if (\<not> finite_scalar (bs_threshold split)) (NodeNonFinite i prefix j))
        0 (rs_splits node))"

definition validate_level ::
  "int \<Rightarrow> int \<Rightarrow> nat \<Rightarrow> radix_level \<Rightarrow> int \<Rightarrow> (radix_error, int) res" where
  "validate_level group_width binary_depth i level want_start =
     (if rl_start_depth level \<noteq> want_start then err (LevelStart i (rl_start_depth level) want_start)
      else let want_width = min group_width (binary_depth - want_start)
      in if rl_width level \<noteq> want_width then err (LevelWidth i (rl_width level) want_width)
      else if int (length (rl_nodes level)) \<noteq> 2 ^ nat want_start
        then err (LevelNodeCount i (length (rl_nodes level)) (2 ^ nat want_start))
      else and_then (check_each (validate_node i (rl_width level)) 0 (rl_nodes level))
        (\<lambda>_. Inr (want_start + rl_width level)))"

definition validate_structure :: "radix_tree \<Rightarrow> (radix_error, unit) res" where
  "validate_structure t =
     (if rt_group_width t < 1 \<or> rt_group_width t > 4 then err (GroupWidthRange (rt_group_width t))
      else and_then (map_err RadixCounts (full_tree_counts (rt_binary_depth t)))
        (\<lambda>(_, want_leaves).
          if int (length (rt_leaves t)) \<noteq> want_leaves
            then err (RadixLeafCount (length (rt_leaves t)) want_leaves (rt_binary_depth t))
          else and_then
            (fold_each (validate_level (rt_group_width t) (rt_binary_depth t)) 0 (rt_levels t) 0)
            (\<lambda>want_start.
              if want_start \<noteq> rt_binary_depth t
                then err (LevelsCover want_start (rt_binary_depth t))
              else check_each (\<lambda>i leaf. reject_if (\<not> finite_scalar leaf) (RadixLeafNonFinite i))
                0 (rt_leaves t))))"

definition validate_certificate :: "radix_tree \<Rightarrow> (radix_error, unit) res" where
  "validate_certificate t =
     (if \<not> rc_issued (rt_certificate t) then err CertificateAbsent
      else reject_if (digest_radix_plan t \<noteq> rc_plan_digest (rt_certificate t)) CertificateMismatch)"

definition radix_validate :: "radix_tree \<Rightarrow> (radix_error, unit) res" where
  "radix_validate t = and_then (validate_structure t) (\<lambda>_. validate_certificate t)"

definition verify_against :: "radix_tree \<Rightarrow> binary_tree \<Rightarrow> (radix_error, unit) res" where
  "verify_against t source =
     and_then (map_err InvalidCertifiedPlan (radix_validate t)) (\<lambda>_.
     and_then (map_err InvalidBinarySource (binary_validate source)) (\<lambda>_.
       if digest_binary_tree source \<noteq> rc_source_digest (rt_certificate t)
         then err DifferentBinarySource
       else and_then (map_err RecompileSource (compile_r0 source (rt_group_width t))) (\<lambda>expected.
         reject_if (digest_radix_plan expected \<noteq> rc_plan_digest (rt_certificate t))
           NotCompilerOutput)))"

definition certificate_view :: "radix_tree \<Rightarrow> (radix_error, r0_certificate_view) res" where
  "certificate_view t =
     and_then (radix_validate t) (\<lambda>_. Inr \<lparr>
       rv_source_sha256 = hex_string (rc_source_digest (rt_certificate t)),
       rv_plan_sha256 = hex_string (rc_plan_digest (rt_certificate t))\<rparr>)"

definition radix_semantics :: "radix_tree \<Rightarrow> semantics_class" where
  "radix_semantics t =
     (case radix_validate t of Inl _ \<Rightarrow> SemanticsUnverified | Inr _ \<Rightarrow> SemanticsR0Equivalent)"

section \<open>Routing\<close>

fun radix_local_loop ::
  "nat \<Rightarrow> binary_split list \<Rightarrow> scalar list \<Rightarrow> nat \<Rightarrow> nat \<Rightarrow> nat \<Rightarrow> (radix_error, nat) res" where
  "radix_local_loop level_index splits features 0 local_index digit = Inr digit"
| "radix_local_loop level_index splits features (Suc d) local_index digit =
     and_then (at splits local_index) (\<lambda>split.
       if bs_feature split \<ge> int (length features)
         then err (RadixSplitNeedsFeature level_index local_index (bs_feature split) (length features))
       else and_then (at_int features (bs_feature split)) (\<lambda>value.
         let branch = branch_of split value
         in radix_local_loop level_index splits features d
              (2 * local_index + 1 + branch) (2 * digit + branch)))"

definition radix_route_level ::
  "scalar list \<Rightarrow> nat \<Rightarrow> radix_level \<Rightarrow> nat \<Rightarrow> (radix_error, nat) res" where
  "radix_route_level features level_index level prefix =
     and_then (at (rl_nodes level) prefix) (\<lambda>node.
     and_then (radix_local_loop level_index (rs_splits node) features (nat (rl_width level)) 0 0)
       (\<lambda>digit. Inr (prefix * 2 ^ nat (rl_width level) + digit)))"

definition radix_route :: "radix_tree \<Rightarrow> scalar list \<Rightarrow> (radix_error, nat) res" where
  "radix_route t features =
     and_then (radix_validate t) (\<lambda>_.
     and_then (map_err RadixFeatures (validate_finite_features features)) (\<lambda>_.
     fold_each (radix_route_level features) 0 (rt_levels t) 0))"

definition radix_evaluate :: "radix_tree \<Rightarrow> scalar list \<Rightarrow> (radix_error, scalar) res" where
  "radix_evaluate t features = and_then (radix_route t features) (at (rt_leaves t))"

section \<open>The local subtrees\<close>

lemma length_local_splits [simp]: "length (local_splits splits start width prefix) = 2 ^ width - 1"
proof -
  have "sum_list (map (\<lambda>k. 2 ^ k) [0..<width]) = (2 ^ width - 1 :: nat)"
    by (induction width) simp_all
  then show ?thesis by (simp add: local_splits_def length_concat comp_def)
qed

lemma local_splits_Suc:
  "local_splits splits start (Suc width) prefix =
     local_splits splits start width prefix @
     map (\<lambda>suffix. splits ! ((2 ^ (start + width) - 1) + prefix * 2 ^ width + suffix)) [0..<2 ^ width]"
  by (simp add: local_splits_def)

text \<open>Entry \<^verbatim>\<open>suffix\<close> of local level \<^verbatim>\<open>j\<close> is the split of the corresponding heap node.\<close>

lemma nth_local_splits:
  "j < width \<Longrightarrow> suffix < 2 ^ j \<Longrightarrow>
     local_splits splits start width prefix ! (2 ^ j - 1 + suffix) =
     splits ! (2 ^ (start + j) - 1 + (prefix * 2 ^ j + suffix))"
proof (induction width)
  case 0
  then show ?case by simp
next
  case (Suc width)
  show ?case
  proof (cases "j = width")
    case True
    let ?l = "local_splits splits start width prefix"
    let ?f = "\<lambda>suffix. splits ! ((2 ^ (start + width) - 1) + prefix * 2 ^ width + suffix)"
    have "(?l @ map ?f [0..<2 ^ width]) ! (length ?l + suffix) = ?f suffix"
      unfolding nth_append_length_plus using Suc.prems True by (simp only: nth_map_upt add_0 diff_zero)
    then show ?thesis
      using True by (simp only: local_splits_Suc length_local_splits add.assoc)
  next
    case False
    with Suc.prems have j: "j < width" by simp
    then have "2 ^ j - 1 + suffix < (2 ^ width - 1 :: nat)"
      using heap_node_bound [of suffix j width] Suc.prems by simp
    with Suc.IH [OF j] Suc.prems show ?thesis by (simp add: local_splits_Suc nth_append)
  qed
qed

lemma set_local_splits:
  assumes "length splits = 2 ^ D - 1" and "start + width \<le> D" and "prefix < 2 ^ start"
  shows "set (local_splits splits start width prefix) \<subseteq> set splits"
proof -
  have "2 ^ (start + j) - 1 + prefix * 2 ^ j + suffix < length splits"
    if "j < width" "suffix < 2 ^ j" for j suffix
  proof -
    have "prefix * 2 ^ j + suffix < 2 ^ (start + j)"
    proof -
      have "Suc prefix * 2 ^ j \<le> 2 ^ start * 2 ^ j"
        using assms(3) by (intro mult_le_mono1) simp
      with that(2) show ?thesis by (simp add: power_add)
    qed
    then show ?thesis
      using heap_node_bound [of "prefix * 2 ^ j + suffix" "start + j" D] that assms(1,2)
      by (simp add: add.assoc)
  qed
  then show ?thesis by (auto simp: local_splits_def)
qed

section \<open>Grouped routing simulates the binary walk\<close>

text \<open>Both routes return the same leaf, or both report the same missing feature.\<close>

definition same_route :: "nat \<Rightarrow> (binary_error, nat) res \<Rightarrow> (radix_error, nat) res \<Rightarrow> bool" where
  "same_route n b r \<longleftrightarrow>
     (\<exists>i. b = Inr i \<and> r = Inr i) \<or>
     (\<exists>node z level m. b = err (SplitNeedsFeature node z n) \<and> r = err (RadixSplitNeedsFeature level m z n))"

lemma prefix_bound: "q < 2 ^ k \<Longrightarrow> (b::nat) < 2 ^ j \<Longrightarrow> q * 2 ^ j + b < 2 ^ (k + j)"
proof -
  assume "q < 2 ^ k" and b: "b < 2 ^ j"
  then have "Suc q * 2 ^ j \<le> 2 ^ k * 2 ^ j" by (intro mult_le_mono1) simp
  with b show ?thesis by (simp add: power_add)
qed

lemma radix_local_sim:
  fixes splits features start w q level
  defines "local \<equiv> local_splits splits start w q"
    and "walk \<equiv> \<lambda>e j x. binary_route_loop splits features e (2 ^ (start + j) - 1 + (q * 2 ^ j + x)) (q * 2 ^ j + x)"
  assumes len: "length splits = 2 ^ D - 1" and ok: "list_all split_ok splits"
    and dims: "start + w \<le> D" "q < 2 ^ start" and j: "j + d = w" "digit < 2 ^ j"
  shows "(\<exists>x < 2 ^ w. radix_local_loop level local features d (2 ^ j - 1 + digit) digit = Inr x \<and>
            (\<forall>e. walk (d + e) j digit = walk e w x)) \<or>
         (\<exists>node z m. radix_local_loop level local features d (2 ^ j - 1 + digit) digit =
              err (RadixSplitNeedsFeature level m z (length features)) \<and>
            (\<forall>e. walk (d + e) j digit = err (SplitNeedsFeature node z (length features))))"
  using j
proof (induction d arbitrary: j digit)
  case 0
  then show ?case by auto
next
  case (Suc d)
  define ln where "ln = 2 ^ j - 1 + digit"
  define gn where "gn = 2 ^ (start + j) - 1 + (q * 2 ^ j + digit)"
  define s where "s = splits ! gn"
  define b where "b = branch_of s (features ! nat (bs_feature s))"
  have jw: "j < w" and jD: "start + j < D" using Suc.prems dims by simp_all
  have ln: "ln < length local"
    using heap_node_bound [OF Suc.prems(2) jw] by (simp add: ln_def local_def)
  have gn: "gn < length splits"
    using heap_node_bound [OF prefix_bound [OF dims(2) Suc.prems(2)] jD] len by (simp add: gn_def)
  have s: "local ! ln = s" "split_ok s"
    using nth_local_splits [OF jw Suc.prems(2)] gn ok
    by (simp_all add: s_def local_def ln_def gn_def list_all_iff)
  show ?case
  proof (cases "bs_feature s < int (length features)")
    case False
    then show ?thesis
      unfolding walk_def gn_def [symmetric] ln_def [symmetric] using ln gn s
      by (auto simp: s_def)
  next
    case True
    have q2: "2 * (q * 2 ^ j + digit) + b = q * 2 ^ Suc j + (2 * digit + b)" by simp
    have next_node: "2 * gn + 1 + b = 2 ^ (start + Suc j) - 1 + (q * 2 ^ Suc j + (2 * digit + b))"
      using heap_child [OF gn_def branch_of_le, of s "features ! nat (bs_feature s)"] q2
      by (simp add: b_def)
    have local_step: "radix_local_loop level local features (Suc d) ln digit =
        radix_local_loop level local features d (2 ^ Suc j - 1 + (2 * digit + b)) (2 * digit + b)"
      using ln s True heap_child [OF ln_def branch_of_le, of s "features ! nat (bs_feature s)"]
      by (simp add: split_ok_def Let_def b_def)
    have step: "binary_route_loop splits features (Suc d + e) gn p =
        binary_route_loop splits features (d + e) (2 * gn + 1 + b) (2 * p + b)" for e p
      using gn s(2) True by (simp add: split_ok_def Let_def b_def flip: s_def)
    have walk_step: "walk (Suc d + e) j digit = walk (d + e) (Suc j) (2 * digit + b)" for e
      unfolding walk_def gn_def [symmetric] step next_node q2 ..
    have "2 * digit + b < 2 ^ Suc j"
      using child_prefix_bound [OF Suc.prems(2) branch_of_le] by (simp add: b_def)
    then show ?thesis
      using Suc.IH [of "Suc j" "2 * digit + b"] Suc.prems(1)
      unfolding local_step walk_step ln_def [symmetric] by simp
  qed
qed

lemma radix_route_level_compiled:
  assumes "q < 2 ^ start"
  shows "radix_route_level features level (compile_level splits start w) q =
     and_then (radix_local_loop level (local_splits splits start w q) features w 0 0)
       (\<lambda>digit. Inr (q * 2 ^ w + digit))"
  using assms by (simp add: radix_route_level_def compile_level_def)

lemma radix_levels_sim:
  assumes len: "length splits = 2 ^ D - 1" and ok: "list_all split_ok splits"
    and g: "0 < g" and start: "start \<le> D" and q: "q < 2 ^ start"
  shows "same_route (length features)
     (binary_route_loop splits features (D - start) (2 ^ start - 1 + q) q)
     (fold_each (radix_route_level features) level (compile_levels splits g D start) q)"
  using assms
proof (induction splits g D start arbitrary: q level rule: compile_levels.induct)
  case (1 splits g D start)
  show ?case
  proof (cases "start < D")
    case False
    then have "compile_levels splits g D start = []" by (subst compile_levels.simps) simp
    with False 1 show ?thesis by (simp add: same_route_def)
  next
    case True
    define w where "w = min g (D - start)"
    define e where "e = D - start - w"
    have we: "D - start = w + e" "start + w \<le> D" using True by (simp_all add: w_def e_def)
    have levels: "compile_levels splits g D start =
        compile_level splits start w # compile_levels splits g D (start + g)"
      using True 1 by (subst compile_levels.simps) (simp add: w_def)
    from radix_local_sim [OF "1.prems"(1,2) we(2) "1.prems"(5), of 0 w 0 level features]
    consider x where "x < 2 ^ w"
        "radix_local_loop level (local_splits splits start w q) features w 0 0 = Inr x"
        "binary_route_loop splits features (w + e) (2 ^ start - 1 + q) q =
         binary_route_loop splits features e (2 ^ (start + w) - 1 + (q * 2 ^ w + x)) (q * 2 ^ w + x)"
      | node z m where
        "radix_local_loop level (local_splits splits start w q) features w 0 0 =
           err (RadixSplitNeedsFeature level m z (length features))"
        "binary_route_loop splits features (w + e) (2 ^ start - 1 + q) q =
           err (SplitNeedsFeature node z (length features))"
      by auto
    then show ?thesis
    proof cases
      case 2
      then show ?thesis
        by (auto simp: same_route_def levels we(1) radix_route_level_compiled [OF "1.prems"(5)])
    next
      case x: 1
      have q': "q * 2 ^ w + x < 2 ^ (start + w)" by (rule prefix_bound [OF "1.prems"(5) x(1)])
      have fold: "fold_each (radix_route_level features) level (compile_levels splits g D start) q =
          fold_each (radix_route_level features) (Suc level) (compile_levels splits g D (start + g))
            (q * 2 ^ w + x)"
        using x(2) by (simp add: levels radix_route_level_compiled [OF "1.prems"(5)])
      show ?thesis
      proof (cases "start + g \<le> D")
        case le: True
        then have w: "w = g" "e = D - (start + g)" using True by (simp_all add: w_def e_def)
        have "same_route (length features)
            (binary_route_loop splits features (D - (start + g)) (2 ^ (start + g) - 1 + (q * 2 ^ w + x)) (q * 2 ^ w + x))
            (fold_each (radix_route_level features) (Suc level) (compile_levels splits g D (start + g)) (q * 2 ^ w + x))"
          using "1.IH" [of "q * 2 ^ w + x" "Suc level"] True "1.prems"(1-3) le q' w(1) by blast
        then show ?thesis unfolding we(1) unfolding x(3) fold unfolding w .
      next
        case False
        then have "w = D - start" "e = 0" by (simp_all add: w_def e_def)
        moreover have "compile_levels splits g D (start + g) = []"
          using False by (subst compile_levels.simps) simp
        ultimately show ?thesis using x(3) we(1) fold by (simp add: same_route_def)
      qed
    qed
  qed
qed

section \<open>What the compiler builds passes every check\<close>

lemma digest_ignores_certificate [simp]:
  "encode_radix_plan (t\<lparr>rt_certificate := c\<rparr>) = encode_radix_plan t"
  "digest_radix_plan (t\<lparr>rt_certificate := c\<rparr>) = digest_radix_plan t"
  by (simp_all add: encode_radix_plan_def digest_radix_plan_def)

lemma compile_r0_ok [ok_iff]:
  "compile_r0 tree g = Inr t \<longleftrightarrow>
     1 \<le> g \<and> g \<le> 4 \<and> binary_wf tree \<and>
     rt_binary_depth t = bt_depth tree \<and> rt_group_width t = g \<and>
     rt_levels t = compile_levels (bt_splits tree) (nat g) (nat (bt_depth tree)) 0 \<and>
     rt_leaves t = bt_leaves tree \<and>
     rt_certificate t = \<lparr>rc_issued = True, rc_source_digest = digest_binary_tree tree,
                          rc_plan_digest = digest_radix_plan t\<rparr>"
  by (cases t) (auto simp: compile_r0_def ok_iff Let_def digest_radix_plan_def encode_radix_plan_def)

text \<open>The invariant of the loop of \<^verbatim>\<open>validateStructure\<close> on compiled levels.\<close>

lemma validate_node_compiled:
  assumes "length splits = 2 ^ D - 1" and "list_all split_ok splits"
    and "start + w \<le> D" and "q < 2 ^ start"
  shows "validate_node i (int w) q
     \<lparr>rs_prefix = int q, rs_splits = local_splits splits start w q\<rparr> = Inr ()"
proof -
  have "list_all split_ok (local_splits splits start w q)"
    using set_local_splits [OF assms(1,3,4)] assms(2) by (auto simp: list_all_iff)
  then show ?thesis
    by (auto simp: validate_node_def ok_iff split_ok_def list_all_iff_nth)
qed

lemma validate_level_compiled:
  fixes g :: nat
  assumes "length splits = 2 ^ D - 1" and "list_all split_ok splits" and "start < D"
    and w_def: "w = min g (D - start)"
  shows "validate_level (int g) (int D) i (compile_level splits start w) (int start) = Inr (int (start + w))"
proof -
  have w: "start + w \<le> D" "min (int g) (int D - int start) = int w"
    using assms(3) by (simp_all add: w_def of_nat_diff)
  have "check_each (validate_node i (int w)) 0 (rl_nodes (compile_level splits start w)) = Inr ()"
    using validate_node_compiled [OF assms(1,2) w(1)] by (simp add: compile_level_def ok_iff)
  then show ?thesis
    by (simp add: validate_level_def w(2)) (simp add: compile_level_def)
qed

lemma validate_levels_compiled:
  assumes "length splits = 2 ^ D - 1" and "list_all split_ok splits" and "0 < g" and "start \<le> D"
  shows "fold_each (validate_level (int g) (int D)) i (compile_levels splits g D start) (int start) = Inr (int D)"
  using assms
proof (induction splits g D start arbitrary: i rule: compile_levels.induct)
  case (1 splits g D start)
  show ?case
  proof (cases "start < D")
    case False
    then have "compile_levels splits g D start = []" by (subst compile_levels.simps) simp
    with False 1 show ?thesis by simp
  next
    case True
    then have levels: "compile_levels splits g D start =
        compile_level splits start (min g (D - start)) # compile_levels splits g D (start + g)"
      using 1 by (subst compile_levels.simps) simp
    show ?thesis
    proof (cases "start + g \<le> D")
      case le: True
      with 1 True validate_level_compiled [OF "1.prems"(1,2) True refl, of g i] show ?thesis
        by (simp add: levels)
    next
      case False
      then have "compile_levels splits g D (start + g) = []" by (subst compile_levels.simps) simp
      with False True validate_level_compiled [OF "1.prems"(1,2) True refl, of g i] show ?thesis
        by (simp add: levels)
    qed
  qed
qed

lemma compile_r0_valid: "compile_r0 tree g = Inr t \<Longrightarrow> radix_validate t = Inr ()"
proof -
  assume c: "compile_r0 tree g = Inr t"
  then have g: "1 \<le> g" "g \<le> 4" and w: "binary_wf tree" by (auto simp: ok_iff)
  define D where "D = nat (bt_depth tree)"
  have D: "bt_depth tree = int D" "length (bt_splits tree) = 2 ^ D - 1" "list_all split_ok (bt_splits tree)"
    using w by (simp_all add: D_def binary_wf_def)
  have "fold_each (validate_level g (int D)) 0 (compile_levels (bt_splits tree) (nat g) D 0) 0 = Inr (int D)"
    using validate_levels_compiled [OF D(2,3), of "nat g" 0 0] g by simp
  moreover have "full_tree_counts (int D) = Inr (2 ^ D - 1, 2 ^ D)"
    using w D(1) by (simp add: ok_iff binary_wf_def)
  ultimately show ?thesis
    using c w g D(1)
    by (auto simp: radix_validate_def validate_structure_def validate_certificate_def compile_r0_ok
        binary_wf_def list_all_iff_nth ok_iff D_def[symmetric])
qed

section \<open>The encoding of a plan determines it\<close>

definition supernode_typed :: "radix_supernode \<Rightarrow> bool" where
  "supernode_typed n \<longleftrightarrow> go_int (rs_prefix n) \<and> slice_ok split_int (rs_splits n)"

definition level_typed :: "radix_level \<Rightarrow> bool" where
  "level_typed l \<longleftrightarrow> go_int (rl_start_depth l) \<and> go_int (rl_width l) \<and> slice_ok supernode_typed (rl_nodes l)"

definition radix_typed :: "radix_tree \<Rightarrow> bool" where
  "radix_typed t \<longleftrightarrow> go_int (rt_binary_depth t) \<and> go_int (rt_group_width t) \<and>
     slice_ok level_typed (rt_levels t) \<and> slice_ok (\<lambda>_. True) (rt_leaves t)"

interpretation supernode_writer: writer write_supernode supernode_typed
proof
  fix e x show "write_supernode e x = e @ write_supernode [] x"
    by (simp add: write_supernode_def int_writer.appends [of e] splits_writer.appends [of "e @ _"]
        splits_writer.appends [of "write_int [] _"])
next
  fix x y r s
  assume ok: "supernode_typed x" "supernode_typed y"
    and eq: "write_supernode [] x @ r = write_supernode [] y @ s"
  have sp: "write_supernode [] z = write_int [] (rs_prefix z) @ write_slice write_split [] (rs_splits z)" for z
    by (simp add: write_supernode_def splits_writer.appends [of "write_int [] _"])
  have "write_int [] (rs_prefix x) @ (write_slice write_split [] (rs_splits x) @ r) =
      write_int [] (rs_prefix y) @ (write_slice write_split [] (rs_splits y) @ s)"
    using eq by (simp only: sp append_assoc)
  with ok have f: "rs_prefix x = rs_prefix y" and
    "write_slice write_split [] (rs_splits x) @ r = write_slice write_split [] (rs_splits y) @ s"
    using int_writer.delimits unfolding supernode_typed_def by blast+
  with ok have "rs_splits x = rs_splits y" "r = s"
    using splits_writer.delimits unfolding supernode_typed_def by blast+
  with f show "x = y \<and> r = s" by simp
qed

interpretation supernodes_writer: writer "write_slice write_supernode" "slice_ok supernode_typed"
  by unfold_locales (rule supernode_writer.slice_appends, rule supernode_writer.slice_delimits)

interpretation level_writer: writer write_level level_typed
proof
  fix e x show "write_level e x = e @ write_level [] x"
    by (simp add: write_level_def write_int_def write_uint64_def supernodes_writer.appends [of "_ @ _"])
next
  fix x y r s
  assume ok: "level_typed x" "level_typed y" and eq: "write_level [] x @ r = write_level [] y @ s"
  have sp: "write_level [] z = write_int [] (rl_start_depth z) @ write_int [] (rl_width z) @
      write_slice write_supernode [] (rl_nodes z)" for z
    by (simp add: write_level_def write_int_def write_uint64_def supernodes_writer.appends [of "_ @ _"])
  have "write_int [] (rl_start_depth x) @ (write_int [] (rl_width x) @ (write_slice write_supernode [] (rl_nodes x) @ r)) =
      write_int [] (rl_start_depth y) @ (write_int [] (rl_width y) @ (write_slice write_supernode [] (rl_nodes y) @ s))"
    using eq by (simp only: sp append_assoc)
  with ok have f: "rl_start_depth x = rl_start_depth y" and
    "write_int [] (rl_width x) @ (write_slice write_supernode [] (rl_nodes x) @ r) =
     write_int [] (rl_width y) @ (write_slice write_supernode [] (rl_nodes y) @ s)"
    using int_writer.delimits unfolding level_typed_def by blast+
  with ok have g: "rl_width x = rl_width y" and
    "write_slice write_supernode [] (rl_nodes x) @ r = write_slice write_supernode [] (rl_nodes y) @ s"
    using int_writer.delimits unfolding level_typed_def by blast+
  with ok have "rl_nodes x = rl_nodes y" "r = s"
    using supernodes_writer.delimits unfolding level_typed_def by blast+
  with f g show "x = y \<and> r = s" by simp
qed

interpretation levels_writer: writer "write_slice write_level" "slice_ok level_typed"
  by unfold_locales (rule level_writer.slice_appends, rule level_writer.slice_delimits)

lemma encode_radix_plan_inj:
  assumes t: "radix_typed t" and u: "radix_typed u" and eq: "encode_radix_plan t = encode_radix_plan u"
  shows "rt_binary_depth t = rt_binary_depth u \<and> rt_group_width t = rt_group_width u \<and>
     rt_levels t = rt_levels u \<and> rt_leaves t = rt_leaves u"
proof -
  have sp: "encode_radix_plan z = new_encoder ''LCPDTE/treeplan/RadixTree/v1'' @
      write_int [] (rt_binary_depth z) @ write_int [] (rt_group_width z) @
      write_slice write_level [] (rt_levels z) @ write_slice write_scalar [] (rt_leaves z) @ []" for z
    by (simp add: encode_radix_plan_def Let_def write_int_def write_uint64_def
        levels_writer.appends [of "_ @ _"] leaves_writer.appends [of "_ @ _"])
  have "write_int [] (rt_binary_depth t) @ write_int [] (rt_group_width t) @
      write_slice write_level [] (rt_levels t) @ write_slice write_scalar [] (rt_leaves t) @ [] =
    write_int [] (rt_binary_depth u) @ write_int [] (rt_group_width u) @
      write_slice write_level [] (rt_levels u) @ write_slice write_scalar [] (rt_leaves u) @ []"
    using eq by (simp only: sp same_append_eq)
  then have d: "rt_binary_depth t = rt_binary_depth u" and
    "write_int [] (rt_group_width t) @
      write_slice write_level [] (rt_levels t) @ write_slice write_scalar [] (rt_leaves t) @ [] =
    write_int [] (rt_group_width u) @
      write_slice write_level [] (rt_levels u) @ write_slice write_scalar [] (rt_leaves u) @ []"
    using int_writer.delimits t u unfolding radix_typed_def by blast+
  then have g: "rt_group_width t = rt_group_width u" and
    "write_slice write_level [] (rt_levels t) @ write_slice write_scalar [] (rt_leaves t) @ [] =
     write_slice write_level [] (rt_levels u) @ write_slice write_scalar [] (rt_leaves u) @ []"
    using int_writer.delimits t u unfolding radix_typed_def by blast+
  then have l: "rt_levels t = rt_levels u" and
    "write_slice write_scalar [] (rt_leaves t) @ [] = write_slice write_scalar [] (rt_leaves u) @ []"
    using levels_writer.delimits t u unfolding radix_typed_def by blast+
  then have "rt_leaves t = rt_leaves u"
    using leaves_writer.delimits t u unfolding radix_typed_def by blast
  with d g l show ?thesis by simp
qed

text \<open>Compiled plans are typed when their source's features are Go ints.\<close>

lemma two_power_64: "k \<le> 63 \<Longrightarrow> (2::nat) ^ k < 2 ^ 64"
  by (rule power_strict_increasing) simp_all

lemma compile_levels_form:
  "level \<in> set (compile_levels splits g D start) \<Longrightarrow>
     \<exists>s < D. level = compile_level splits s (min g (D - s))"
proof (induction splits g D start rule: compile_levels.induct)
  case (1 splits g D start)
  then show ?case
    by (subst (asm) compile_levels.simps) (auto split: if_splits)
qed

lemma length_compile_levels: "length (compile_levels splits g D start) \<le> D - start"
proof (induction splits g D start rule: compile_levels.induct)
  case (1 splits g D start)
  then show ?case
    by (subst compile_levels.simps) auto
qed

lemma compile_level_typed:
  assumes "length splits = 2 ^ D - 1" and "list_all split_int splits" and "D \<le> 63" and "s + w \<le> D"
  shows "level_typed (compile_level splits s w)"
proof -
  have "supernode_typed \<lparr>rs_prefix = int q, rs_splits = local_splits splits s w q\<rparr>" if "q < 2 ^ s" for q
  proof -
    have "q < 2 ^ 63" using that assms(3,4) power_increasing [of s 63 "2::nat"] by simp
    moreover have "list_all split_int (local_splits splits s w q)"
      using set_local_splits [OF assms(1,4) that] assms(2) by (auto simp: list_all_iff)
    moreover have "(2::nat) ^ w < 2 ^ 64" using assms(3,4) by (intro two_power_64) simp
    ultimately show ?thesis by (simp add: supernode_typed_def go_int_def slice_ok_def)
  qed
  moreover have "(2::nat) ^ s < 2 ^ 64" using assms(3,4) by (intro two_power_64) simp
  ultimately show ?thesis
    using assms(3,4) by (simp add: level_typed_def compile_level_def go_int_def slice_ok_def list_all_iff)
qed

lemma compile_r0_typed:
  assumes "compile_r0 tree g = Inr t" and "list_all split_int (bt_splits tree)"
  shows "radix_typed t"
proof -
  define D where "D = nat (bt_depth tree)"
  have D: "D < 63" "bt_depth tree = int D" "length (bt_splits tree) = 2 ^ D - 1" "length (bt_leaves tree) = 2 ^ D"
    using assms(1) by (auto simp: compile_r0_ok binary_wf_def D_def)
  have "level_typed l" if "l \<in> set (compile_levels (bt_splits tree) (nat g) D 0)" for l
    using compile_levels_form [OF that] compile_level_typed [OF D(3) assms(2)] D(1) by force
  moreover have "length (compile_levels (bt_splits tree) (nat g) D 0) < 2 ^ 64"
    using length_compile_levels [of "bt_splits tree" "nat g" D 0] D(1) by simp
  moreover have "(2::nat) ^ D < 2 ^ 64" using D(1) by (intro two_power_64) simp
  ultimately show ?thesis
    using assms(1) D by (auto simp: radix_typed_def compile_r0_ok go_int_def slice_ok_def list_all_iff)
qed

lemma compile_r0_verified: "compile_r0 tree g = Inr t \<Longrightarrow> verify_against t tree = Inr ()"
  using compile_r0_valid [of tree g t] by (auto simp: verify_against_def ok_iff)

text \<open>The compiler is total: it succeeds on the group widths and trees it accepts.\<close>

lemma compile_r0_total: "1 \<le> g \<Longrightarrow> g \<le> 4 \<Longrightarrow> binary_wf tree \<Longrightarrow> \<exists>t. compile_r0 tree g = Inr t"
  by (auto simp: compile_r0_def ok_iff Let_def)

lemma sample_compiles: obtains t where "compile_r0 sample_tree 1 = Inr t"
  using compile_r0_total [of 1 sample_tree] by auto

lemma sample_split_int: "list_all split_int (bt_splits sample_tree)"
  by (simp add: sample_tree_def split_int_def go_int_def)

section \<open>Properties\<close>

text \<open>
  C1. Grouping preserves semantics: a compiled radix tree returns a leaf index on exactly the
  inputs on which its binary source does, and the same one; the same holds of the leaf value.
\<close>

theorem r0_route_equivalent:
  assumes "compile_r0 tree group_width = Inr t"
  shows "(radix_route t features = Inr i \<longleftrightarrow> binary_route tree features = Inr i) \<and>
     (radix_evaluate t features = Inr v \<longleftrightarrow> binary_evaluate tree features = Inr v)"
proof -
  have w: "binary_wf tree" and g: "0 < nat group_width" using assms by (auto simp: compile_r0_ok)
  have "same_route (length features)
      (binary_route_loop (bt_splits tree) features (nat (bt_depth tree)) 0 0)
      (fold_each (radix_route_level features) 0
        (compile_levels (bt_splits tree) (nat group_width) (nat (bt_depth tree)) 0) 0)"
    using radix_levels_sim [of "bt_splits tree" "nat (bt_depth tree)" "nat group_width" 0 0 features 0] w g
    by (simp add: binary_wf_def)
  then have loops: "fold_each (radix_route_level features) 0 (rt_levels t) 0 = Inr k \<longleftrightarrow>
      binary_route_loop (bt_splits tree) features (nat (bt_depth tree)) 0 0 = Inr k" for k
    using assms by (auto simp: same_route_def compile_r0_ok)
  have route: "radix_route t features = Inr k \<longleftrightarrow> binary_route tree features = Inr k" for k
    using compile_r0_valid [OF assms] w by (simp add: radix_route_def binary_route_def ok_iff loops)
  have "rt_leaves t = bt_leaves tree" using assms by (simp add: compile_r0_ok)
  with route show ?thesis by (simp add: radix_evaluate_def binary_evaluate_def ok_iff)
qed

theorem r0_route_equivalent_witness:
  "\<exists>t. compile_r0 sample_tree 1 = Inr t \<and> radix_evaluate t [u32_scalar 3] = Inr (u32_scalar 7)"
proof (rule sample_compiles)
  fix t assume t: "compile_r0 sample_tree 1 = Inr t"
  have "binary_evaluate sample_tree [u32_scalar 3] = Inr (u32_scalar 7)"
    by (simp add: binary_evaluate_def binary_route_def ok_iff finite_scalar_float)
      (simp add: sample_tree_def branch_of_def scalar_lt_float Let_def)
  with t r0_route_equivalent [OF t, of "[u32_scalar 3]"] show ?thesis by blast
qed

text \<open>
  The compiler's output passes every check the package offers: Validate accepts it,
  VerifyAgainst accepts it for its own source, Semantics reports R0 equivalence, and the
  group width is the requested one.
\<close>

theorem compile_r0_certified:
  assumes "compile_r0 tree group_width = Inr t"
  shows "radix_validate t = Inr () \<and> verify_against t tree = Inr () \<and>
     radix_semantics t = SemanticsR0Equivalent \<and> rt_group_width t = group_width"
  using assms compile_r0_valid [OF assms] compile_r0_verified [OF assms]
  by (auto simp: radix_semantics_def ok_iff)

theorem compile_r0_certified_witness:
  "\<exists>t. compile_r0 sample_tree 1 = Inr t \<and> radix_validate t = Inr () \<and> rt_group_width t = 1"
  by (rule sample_compiles) (use compile_r0_certified [of sample_tree 1] in blast)

definition sha256_collision :: "byte list \<Rightarrow> byte list \<Rightarrow> bool" where
  "sha256_collision x y \<longleftrightarrow> x \<noteq> y \<and> sha256 x = sha256 y"

text \<open>
  C7. VerifyAgainst proves source equivalence: a plan it accepts for a source (from any
  provenance) has exactly the compiler's groups and leaves for that source, unless the two plan
  encodings are an explicit SHA-256 collision.
\<close>

theorem verify_against_binds:
  assumes "verify_against t source = Inr ()"
    and "radix_typed t" and "list_all split_int (bt_splits source)"
  shows "\<exists>expected. compile_r0 source (rt_group_width t) = Inr expected \<and>
     (sha256_collision (encode_radix_plan t) (encode_radix_plan expected) \<or>
      rt_binary_depth t = bt_depth source \<and> rt_leaves t = bt_leaves source \<and>
      rt_levels t = rt_levels expected)"
proof -
  obtain expected where e: "compile_r0 source (rt_group_width t) = Inr expected"
    and "digest_radix_plan expected = digest_radix_plan t"
    using assms(1) by (auto simp: verify_against_def radix_validate_def validate_certificate_def ok_iff split: if_splits)
  then have "sha256 (encode_radix_plan t) = sha256 (encode_radix_plan expected)"
    by (simp add: digest_radix_plan_def)
  then show ?thesis
    using e encode_radix_plan_inj [OF assms(2) compile_r0_typed [OF e assms(3)]]
    by (auto simp: sha256_collision_def compile_r0_ok)
qed

theorem verify_against_binds_witness:
  "\<exists>t. verify_against t sample_tree = Inr () \<and> radix_typed t \<and>
     (\<exists>expected. compile_r0 sample_tree (rt_group_width t) = Inr expected \<and>
        (sha256_collision (encode_radix_plan t) (encode_radix_plan expected) \<or>
         rt_binary_depth t = bt_depth sample_tree \<and> rt_leaves t = bt_leaves sample_tree \<and>
         rt_levels t = rt_levels expected))"
proof (rule sample_compiles)
  fix t assume t: "compile_r0 sample_tree 1 = Inr t"
  note v = compile_r0_verified [OF t] compile_r0_typed [OF t sample_split_int]
  show ?thesis using v verify_against_binds [OF v sample_split_int] by blast
qed

text \<open>
  Tampering is detected: a plan that carries the certificate of a compiled plan and passes
  Validate is that compiled plan in every public field, unless the two encodings are an
  explicit SHA-256 collision.
\<close>

theorem certificate_detects_tampering:
  assumes "compile_r0 tree group_width = Inr t" and "list_all split_int (bt_splits tree)"
    and "rt_certificate t' = rt_certificate t" and "radix_typed t'" and "radix_validate t' = Inr ()"
  shows "t' = t \<or> sha256_collision (encode_radix_plan t') (encode_radix_plan t)"
proof -
  have "sha256 (encode_radix_plan t') = sha256 (encode_radix_plan t)"
    using assms(1,3,5)
    by (auto simp: radix_validate_def validate_certificate_def compile_r0_ok digest_radix_plan_def ok_iff split: if_splits)
  then show ?thesis
    using encode_radix_plan_inj [OF assms(4) compile_r0_typed [OF assms(1,2)]] assms(3)
    by (auto simp: sha256_collision_def)
qed

theorem certificate_detects_tampering_witness:
  "\<exists>t t'. compile_r0 sample_tree 1 = Inr t \<and> rt_certificate t' = rt_certificate t \<and>
     radix_typed t' \<and> radix_validate t' = Inr () \<and>
     (t' = t \<or> sha256_collision (encode_radix_plan t') (encode_radix_plan t))"
proof (rule sample_compiles)
  fix t assume t: "compile_r0 sample_tree 1 = Inr t"
  note v = compile_r0_typed [OF t sample_split_int] compile_r0_valid [OF t]
  show ?thesis
    using t v certificate_detects_tampering [OF t sample_split_int refl v] by blast
qed

end
