(* ===== verification/GoString.thy ===== *)
theory GoString
  imports GoScalar
begin

text \<open>
  What the modelled code uses of Go's string packages, on strings as lists of bytes:
  \<^verbatim>\<open>strings.TrimSpace\<close>, \<^verbatim>\<open>hex.DecodeString\<close> and \<^verbatim>\<open>utf8.Valid\<close>.
\<close>

section \<open>White space and hexadecimal\<close>

text \<open>
  The UTF-8 encodings of the runes of \<^verbatim>\<open>unicode.IsSpace\<close>, which \<^verbatim>\<open>strings.TrimSpace\<close> removes at
  both ends of a string of bytes.
\<close>

definition space_runes :: "string list" where
  "space_runes =
     map (\<lambda>b. [char_of b]) [9, 10, 11, 12, 13, 32 :: nat] @
     map (\<lambda>b. [char_of (194 :: nat), char_of b]) [133, 160 :: nat] @
     [[char_of (225 :: nat), char_of (154 :: nat), char_of (128 :: nat)]] @
     map (\<lambda>b. [char_of (226 :: nat), char_of (128 :: nat), char_of b])
       ([128..<139] @ [168, 169, 175 :: nat]) @
     [[char_of (226 :: nat), char_of (129 :: nat), char_of (159 :: nat)],
      [char_of (227 :: nat), char_of (128 :: nat), char_of (128 :: nat)]]"

fun trim_prefix :: "string list \<Rightarrow> nat \<Rightarrow> string \<Rightarrow> string" where
  "trim_prefix runes 0 s = s"
| "trim_prefix runes (Suc k) s =
     (case List.find (\<lambda>r. take (length r) s = r) runes of
        None \<Rightarrow> s
      | Some r \<Rightarrow> trim_prefix runes k (drop (length r) s))"

text \<open>Every rune is at least one byte, so the length of the string bounds the removals.\<close>

definition trim_space :: "string \<Rightarrow> string" where
  "trim_space s =
     (let t = trim_prefix space_runes (length s) s
      in rev (trim_prefix (map rev space_runes) (length t) (rev t)))"

definition hex_value :: "char \<Rightarrow> nat option" where
  "hex_value c =
     (let n = of_char c :: nat
      in if 48 \<le> n \<and> n \<le> 57 then Some (n - 48)
         else if 97 \<le> n \<and> n \<le> 102 then Some (n - 87)
         else if 65 \<le> n \<and> n \<le> 70 then Some (n - 55)
         else None)"

text \<open>\<^verbatim>\<open>hex.DecodeString\<close>: an odd length or another character is an error.\<close>

fun hex_decode :: "string \<Rightarrow> nat list option" where
  "hex_decode [] = Some []"
| "hex_decode [c] = None"
| "hex_decode (c # d # s) =
     (case (hex_value c, hex_value d, hex_decode s) of
        (Some x, Some y, Some bs) \<Rightarrow> Some ((16 * x + y) # bs)
      | _ \<Rightarrow> None)"

section \<open>UTF-8\<close>

text \<open>
  The ranges of the continuation bytes after a first byte, as \<^verbatim>\<open>unicode/utf8\<close> accepts them: no
  overlong form, no surrogate and nothing above U+10FFFF.
\<close>

definition rune_tail :: "byte \<Rightarrow> (byte \<times> byte) list option" where
  "rune_tail b =
     (if b < 0x80 then Some []
      else if 0xC2 \<le> b \<and> b \<le> 0xDF then Some [(0x80, 0xBF)]
      else if b = 0xE0 then Some [(0xA0, 0xBF), (0x80, 0xBF)]
      else if b = 0xED then Some [(0x80, 0x9F), (0x80, 0xBF)]
      else if 0xE1 \<le> b \<and> b \<le> 0xEF then Some [(0x80, 0xBF), (0x80, 0xBF)]
      else if b = 0xF0 then Some [(0x90, 0xBF), (0x80, 0xBF), (0x80, 0xBF)]
      else if 0xF1 \<le> b \<and> b \<le> 0xF3 then Some [(0x80, 0xBF), (0x80, 0xBF), (0x80, 0xBF)]
      else if b = 0xF4 then Some [(0x80, 0x8F), (0x80, 0xBF), (0x80, 0xBF)]
      else None)"

fun utf8_from :: "(byte \<times> byte) list \<Rightarrow> byte list \<Rightarrow> bool" where
  "utf8_from tail [] \<longleftrightarrow> tail = []"
| "utf8_from [] (b # bs) \<longleftrightarrow> (case rune_tail b of None \<Rightarrow> False | Some tail \<Rightarrow> utf8_from tail bs)"
| "utf8_from ((lo, hi) # tail) (b # bs) \<longleftrightarrow> lo \<le> b \<and> b \<le> hi \<and> utf8_from tail bs"

definition utf8_valid :: "byte list \<Rightarrow> bool" where
  "utf8_valid bs = utf8_from [] bs"

lemma utf8_ascii: "list_all (\<lambda>b. b < 0x80) bs \<Longrightarrow> utf8_valid bs"
  unfolding utf8_valid_def by (induction bs) (simp_all add: rune_tail_def)

end
