(* ===== verification/ScheduleData.thy ===== *)
theory ScheduleData
  imports RadixTree GoString "HOL-Library.AList_Mapping" "HOL-Library.Signed_Division"
begin

text \<open>
  The records of \<^verbatim>\<open>integer/treeplan/schedule.go\<close> with their \<^verbatim>\<open>Validate\<close> methods, and the group
  validation and the copies of \<^verbatim>\<open>integer/treeplan/schedule_certificate.go\<close>. A Go string type with
  constants is \<^verbatim>\<open>string\<close> with a definition per constant, so that any other text is a value too;
  a pointer that may be nil is an option, read with \<^verbatim>\<open>deref\<close>. Go ranges over the maps that
  \<^verbatim>\<open>counts()\<close> returns in an unspecified order; the model takes the order of the literal, which
  only selects the error that is reported when several counts are invalid.
  The parse of a proof artifact's URI by the standard library is the parameter \<^verbatim>\<open>parse_url\<close>.
\<close>

section \<open>String constants\<close>

definition R0SequentialSourceFaithfulOBO :: r0_schedule where
  "R0SequentialSourceFaithfulOBO = ''r0_sequential_source_faithful_obo''"

definition R0SequentialActiveCTCT :: r0_schedule where
  "R0SequentialActiveCTCT = ''r0_sequential_active_ct_ct''"

definition R0EagerActiveCTCT :: r0_schedule where
  "R0EagerActiveCTCT = ''r0_eager_active_ct_ct''"

definition R0EagerAllCTPT :: r0_schedule where
  "R0EagerAllCTPT = ''r0_eager_all_ct_pt''"

definition R0StateAwareFusedLUT :: r0_schedule where
  "R0StateAwareFusedLUT = ''r0_state_aware_fused_lut''"

lemmas schedule_constants =
  R0SequentialSourceFaithfulOBO_def R0SequentialActiveCTCT_def R0EagerActiveCTCT_def
  R0EagerAllCTPT_def R0StateAwareFusedLUT_def

lemma schedules_distinct [simp]:
  "R0SequentialSourceFaithfulOBO \<noteq> R0SequentialActiveCTCT"
  "R0SequentialSourceFaithfulOBO \<noteq> R0EagerActiveCTCT"
  "R0SequentialSourceFaithfulOBO \<noteq> R0EagerAllCTPT"
  "R0SequentialSourceFaithfulOBO \<noteq> R0StateAwareFusedLUT"
  "R0SequentialActiveCTCT \<noteq> R0EagerActiveCTCT" "R0SequentialActiveCTCT \<noteq> R0EagerAllCTPT"
  "R0SequentialActiveCTCT \<noteq> R0StateAwareFusedLUT" "R0EagerActiveCTCT \<noteq> R0EagerAllCTPT"
  "R0EagerActiveCTCT \<noteq> R0StateAwareFusedLUT" "R0EagerAllCTPT \<noteq> R0StateAwareFusedLUT"
  by (simp_all add: schedule_constants)

lemmas schedules_distinct' [simp] = schedules_distinct [symmetric]

definition MeasurementNotMeasured :: string where
  "MeasurementNotMeasured = ''not_measured''"

definition MeasurementMeasured :: string where
  "MeasurementMeasured = ''measured''"

lemma measurement_distinct [simp]:
  "MeasurementNotMeasured \<noteq> MeasurementMeasured" "MeasurementMeasured \<noteq> MeasurementNotMeasured"
  by (simp_all add: MeasurementNotMeasured_def MeasurementMeasured_def)

definition ComparatorCTCT :: string where
  "ComparatorCTCT = ''ct_ct''"

definition ComparatorCTPlaintext :: string where
  "ComparatorCTPlaintext = ''ct_plaintext''"

lemma comparator_distinct [simp]:
  "ComparatorCTCT \<noteq> ComparatorCTPlaintext" "ComparatorCTPlaintext \<noteq> ComparatorCTCT"
  by (simp_all add: ComparatorCTCT_def ComparatorCTPlaintext_def)

definition BenchmarkPendingPhysicalMeasurement :: string where
  "BenchmarkPendingPhysicalMeasurement = ''pending_physical_measurement''"

definition BenchmarkIneligibleExternalProofUnverified :: string where
  "BenchmarkIneligibleExternalProofUnverified = ''ineligible_external_proof_unverified''"

lemma benchmark_distinct [simp]:
  "BenchmarkPendingPhysicalMeasurement \<noteq> BenchmarkIneligibleExternalProofUnverified"
  "BenchmarkIneligibleExternalProofUnverified \<noteq> BenchmarkPendingPhysicalMeasurement"
  by (simp_all add: BenchmarkPendingPhysicalMeasurement_def
      BenchmarkIneligibleExternalProofUnverified_def)

definition ProofExternalUnverified :: string where
  "ProofExternalUnverified = ''external_unverified''"

definition FusedLUTRootSingle :: string where
  "FusedLUTRootSingle = ''root_single_lut''"

definition FusedLUTAllSupernodesAndSelect :: string where
  "FusedLUTAllSupernodesAndSelect = ''all_supernode_luts_and_select''"

definition FusedLUTGlobalStateDomain :: string where
  "FusedLUTGlobalStateDomain = ''global_state_domain''"

lemma strategies_distinct [simp]:
  "FusedLUTAllSupernodesAndSelect \<noteq> FusedLUTGlobalStateDomain"
  "FusedLUTGlobalStateDomain \<noteq> FusedLUTAllSupernodesAndSelect"
  by (simp_all add: FusedLUTAllSupernodesAndSelect_def FusedLUTGlobalStateDomain_def)

definition PackingFull :: string where
  "PackingFull = ''full''"

definition PackingSparse :: string where
  "PackingSparse = ''sparse''"

section \<open>Physical counts\<close>

record physical_count =
  pc_status :: string
  pc_value :: "int option"

datatype count_error =
  CountNegative int | CountCarriesValue | CountNoValue | CountMeasuredNegative int
| CountUnknownStatus string

definition not_measured :: physical_count where
  "not_measured = \<lparr>pc_status = MeasurementNotMeasured, pc_value = None\<rparr>"

definition measured_physical_count :: "int \<Rightarrow> (count_error, physical_count) res" where
  "measured_physical_count value =
     (if value < 0 then err (CountNegative value)
      else Inr \<lparr>pc_status = MeasurementMeasured, pc_value = Some value\<rparr>)"

definition count_validate :: "physical_count \<Rightarrow> (count_error, unit) res" where
  "count_validate c =
     (if pc_status c = MeasurementNotMeasured then reject_if (pc_value c \<noteq> None) CountCarriesValue
      else if pc_status c = MeasurementMeasured then
        (if pc_value c = None then err CountNoValue
         else and_then (deref (pc_value c)) (\<lambda>v. reject_if (v < 0) (CountMeasuredNegative v)))
      else err (CountUnknownStatus (pc_status c)))"

definition validate_counts ::
  "(string \<Rightarrow> count_error \<Rightarrow> 'e) \<Rightarrow> (string \<times> physical_count) list \<Rightarrow> ('e, unit) res" where
  "validate_counts wrap counts =
     check_each (\<lambda>_ (name, c). map_err (wrap name) (count_validate c)) 0 counts"

section \<open>Proof artifacts\<close>

record parsed_url =
  pu_scheme :: string
  pu_host :: string
  pu_path :: string
  pu_opaque :: string

record proof_artifact =
  pa_uri :: string
  pa_sha256 :: string
  pa_domain_descriptor :: string
  pa_domain_size :: int

datatype artifact_error =
  ArtifactAbsent | ArtifactUriNotAbsolute string | ArtifactSha256 | ArtifactDomainEmpty
| ArtifactDomainSize int

definition validate_proof_artifact ::
  "(string \<Rightarrow> parsed_url option) \<Rightarrow> proof_artifact option \<Rightarrow> (artifact_error, unit) res" where
  "validate_proof_artifact parse_url reference =
     (case reference of
        None \<Rightarrow> err ArtifactAbsent
      | Some r \<Rightarrow>
          if (case parse_url (trim_space (pa_uri r)) of
                None \<Rightarrow> True
              | Some u \<Rightarrow> pu_scheme u = '''' \<or>
                  pu_host u = '''' \<and> pu_path u = '''' \<and> pu_opaque u = '''')
            then err (ArtifactUriNotAbsolute (pa_uri r))
          else if (case hex_decode (pa_sha256 r) of None \<Rightarrow> True | Some bs \<Rightarrow> length bs \<noteq> 32)
            then err ArtifactSha256
          else if trim_space (pa_domain_descriptor r) = '''' then err ArtifactDomainEmpty
          else reject_if (pa_domain_size r \<le> 0) (ArtifactDomainSize (pa_domain_size r)))"

section \<open>Requests\<close>

record fused_lut_options =
  fo_root_proof :: "proof_artifact option"
  fo_below_root_strategy :: string
  fo_below_root_proof :: "proof_artifact option"
  fo_global_proofs :: "(int, proof_artifact) mapping"

record r0_schedule_request =
  rq_schedule :: r0_schedule
  rq_fused_lut :: "fused_lut_options option"

section \<open>Packing\<close>

record packing_observation =
  po_status :: string
  po_mode :: string
  po_word_width :: int
  po_log_slots :: int
  po_word_slot_occupancy :: int
  po_ba2b_group_occupancy :: int

datatype packing_error =
  PackingCarriesFields | PackingUnknownMode string | PackingNeedsDimensions
| PackingNeedsOccupancy | PackingUnknownStatus string

definition packing_validate :: "packing_observation \<Rightarrow> (packing_error, unit) res" where
  "packing_validate p =
     (if po_status p = MeasurementNotMeasured then
        reject_if (po_mode p \<noteq> '''' \<or> po_word_width p \<noteq> 0 \<or> po_log_slots p \<noteq> 0 \<or>
            po_word_slot_occupancy p \<noteq> 0 \<or> po_ba2b_group_occupancy p \<noteq> 0)
          PackingCarriesFields
      else if po_status p = MeasurementMeasured then
        (if po_mode p \<noteq> PackingFull \<and> po_mode p \<noteq> PackingSparse
           then err (PackingUnknownMode (po_mode p))
         else if po_word_width p \<le> 0 \<or> po_log_slots p \<le> 0 then err PackingNeedsDimensions
         else reject_if (po_word_slot_occupancy p \<le> 0 \<or> po_ba2b_group_occupancy p < 0)
           PackingNeedsOccupancy)
      else err (PackingUnknownStatus (po_status p)))"

section \<open>Comparator charges\<close>

record comparator_charge =
  cc_provenance :: string
  cc_logical_comparisons :: int
  cc_streams_per_comparison :: physical_count
  cc_streams :: physical_count
  cc_refreshes_per_stream :: physical_count
  cc_bootstraps_per_stream :: physical_count
  cc_refreshes :: physical_count
  cc_bootstraps :: physical_count

datatype charge_error =
  ChargeProvenance string | ChargeLogicalCount int | ChargeCount string count_error
| ProductOverflows string | ProductMismatch string int int

definition unknown_comparator_charge :: "string \<Rightarrow> int \<Rightarrow> comparator_charge" where
  "unknown_comparator_charge provenance logical = \<lparr>
     cc_provenance = provenance,
     cc_logical_comparisons = logical,
     cc_streams_per_comparison = not_measured,
     cc_streams = not_measured,
     cc_refreshes_per_stream = not_measured,
     cc_bootstraps_per_stream = not_measured,
     cc_refreshes = not_measured,
     cc_bootstraps = not_measured\<rparr>"

definition charge_counts :: "comparator_charge \<Rightarrow> (string \<times> physical_count) list" where
  "charge_counts c = [
     (''streams per logical comparison'', cc_streams_per_comparison c),
     (''physical comparator streams'', cc_streams c),
     (''refreshes per comparator stream'', cc_refreshes_per_stream c),
     (''bootstraps per comparator stream'', cc_bootstraps_per_stream c),
     (''comparator refreshes'', cc_refreshes c),
     (''comparator bootstraps'', cc_bootstraps c)]"

definition validate_measured_product ::
  "string \<Rightarrow> int \<Rightarrow> physical_count \<Rightarrow> physical_count \<Rightarrow> (charge_error, unit) res" where
  "validate_measured_product name multiplicand factor product =
     (if pc_status factor \<noteq> MeasurementMeasured \<or> pc_status product \<noteq> MeasurementMeasured
      then Inr ()
      else and_then (deref (pc_value factor)) (\<lambda>f.
        if multiplicand \<noteq> 0 \<and> f > max_int64 sdiv multiplicand then err (ProductOverflows name)
        else let want = wrap64 (multiplicand * f)
        in and_then (deref (pc_value product)) (\<lambda>got.
          reject_if (got \<noteq> want) (ProductMismatch name got want))))"

definition charge_validate :: "comparator_charge \<Rightarrow> (charge_error, unit) res" where
  "charge_validate c =
     (if cc_provenance c \<noteq> ComparatorCTCT \<and> cc_provenance c \<noteq> ComparatorCTPlaintext
        then err (ChargeProvenance (cc_provenance c))
      else if cc_logical_comparisons c \<le> 0
        then err (ChargeLogicalCount (cc_logical_comparisons c))
      else and_then (validate_counts ChargeCount (charge_counts c)) (\<lambda>_.
        and_then (validate_measured_product ''physical comparator streams''
            (cc_logical_comparisons c) (cc_streams_per_comparison c) (cc_streams c)) (\<lambda>_.
        if pc_status (cc_streams c) = MeasurementMeasured
        then and_then (deref (pc_value (cc_streams c))) (\<lambda>streams.
          and_then (validate_measured_product ''comparator refreshes'' streams
              (cc_refreshes_per_stream c) (cc_refreshes c)) (\<lambda>_.
          validate_measured_product ''comparator bootstraps'' streams
              (cc_bootstraps_per_stream c) (cc_bootstraps c)))
        else Inr ())))"

record comparator_observation =
  co_provenance :: string
  co_streams_per_comparison :: physical_count
  co_streams :: physical_count
  co_refreshes_per_stream :: physical_count
  co_bootstraps_per_stream :: physical_count
  co_refreshes :: physical_count
  co_bootstraps :: physical_count

definition unknown_comparator_observation :: "string \<Rightarrow> comparator_observation" where
  "unknown_comparator_observation provenance = \<lparr>
     co_provenance = provenance,
     co_streams_per_comparison = not_measured,
     co_streams = not_measured,
     co_refreshes_per_stream = not_measured,
     co_bootstraps_per_stream = not_measured,
     co_refreshes = not_measured,
     co_bootstraps = not_measured\<rparr>"

definition observation_validate :: "comparator_observation \<Rightarrow> (charge_error, unit) res" where
  "observation_validate ob =
     (if co_provenance ob \<noteq> ComparatorCTCT \<and> co_provenance ob \<noteq> ComparatorCTPlaintext
        then err (ChargeProvenance (co_provenance ob))
      else validate_counts ChargeCount [
        (''streams per logical comparison'', co_streams_per_comparison ob),
        (''physical comparator streams'', co_streams ob),
        (''refreshes per comparator stream'', co_refreshes_per_stream ob),
        (''bootstraps per comparator stream'', co_bootstraps_per_stream ob),
        (''comparator refreshes'', co_refreshes ob),
        (''comparator bootstraps'', co_bootstraps ob)])"

section \<open>Physical profiles\<close>

record physical_profile =
  pp_packing :: packing_observation
  pp_comparator_streams :: physical_count
  pp_lut_input_streams :: physical_count
  pp_lut_output_streams :: physical_count
  pp_ct_ct_multiplications :: physical_count
  pp_ct_pt_multiplications :: physical_count
  pp_ct_additions :: physical_count
  pp_a2b :: physical_count
  pp_b2a :: physical_count
  pp_rotations :: physical_count
  pp_relinearizations :: physical_count
  pp_rescales :: physical_count
  pp_key_switches :: physical_count
  pp_transforms :: physical_count
  pp_refreshes :: physical_count
  pp_bootstraps :: physical_count
  pp_peak_live_ciphertexts :: physical_count
  pp_peak_live_bytes :: physical_count
  pp_wall_time :: physical_count

datatype profile_error = ProfilePacking packing_error | ProfileCount string count_error

definition unknown_physical_profile :: physical_profile where
  "unknown_physical_profile = \<lparr>
     pp_packing = \<lparr>po_status = MeasurementNotMeasured, po_mode = '''', po_word_width = 0,
       po_log_slots = 0, po_word_slot_occupancy = 0, po_ba2b_group_occupancy = 0\<rparr>,
     pp_comparator_streams = not_measured, pp_lut_input_streams = not_measured,
     pp_lut_output_streams = not_measured, pp_ct_ct_multiplications = not_measured,
     pp_ct_pt_multiplications = not_measured, pp_ct_additions = not_measured,
     pp_a2b = not_measured, pp_b2a = not_measured, pp_rotations = not_measured,
     pp_relinearizations = not_measured, pp_rescales = not_measured,
     pp_key_switches = not_measured, pp_transforms = not_measured,
     pp_refreshes = not_measured, pp_bootstraps = not_measured,
     pp_peak_live_ciphertexts = not_measured, pp_peak_live_bytes = not_measured,
     pp_wall_time = not_measured\<rparr>"

definition profile_counts :: "physical_profile \<Rightarrow> (string \<times> physical_count) list" where
  "profile_counts p = [
     (''physical comparator streams'', pp_comparator_streams p),
     (''LUT input streams'', pp_lut_input_streams p),
     (''LUT output streams'', pp_lut_output_streams p),
     (''ciphertext-ciphertext multiplications'', pp_ct_ct_multiplications p),
     (''ciphertext-plaintext multiplications'', pp_ct_pt_multiplications p),
     (''ciphertext additions'', pp_ct_additions p),
     (''A2B'', pp_a2b p), (''B2A'', pp_b2a p),
     (''rotations'', pp_rotations p), (''relinearizations'', pp_relinearizations p),
     (''rescales'', pp_rescales p), (''key switches'', pp_key_switches p),
     (''transforms'', pp_transforms p), (''refreshes'', pp_refreshes p),
     (''bootstraps'', pp_bootstraps p), (''peak live ciphertexts'', pp_peak_live_ciphertexts p),
     (''peak live bytes'', pp_peak_live_bytes p), (''wall time nanoseconds'', pp_wall_time p)]"

definition profile_validate :: "physical_profile \<Rightarrow> (profile_error, unit) res" where
  "profile_validate p =
     and_then (map_err ProfilePacking (packing_validate (pp_packing p))) (\<lambda>_.
       validate_counts ProfileCount (profile_counts p))"

record group_measurements =
  gm_group_index :: int
  gm_start_depth :: int
  gm_height :: int
  gm_comparator_charges :: "comparator_observation list"
  gm_dependency_depth :: physical_count
  gm_physical :: physical_profile

section \<open>Group profiles\<close>

record group_profile =
  gp_start_depth :: int
  gp_height :: int
  gp_candidate_supernodes :: int
  gp_predicates_per_supernode :: int
  gp_comparator_charges :: "comparator_charge list"
  gp_logical_comparisons :: int
  gp_feature_selector_widths :: "int list"
  gp_threshold_selector_widths :: "int list"
  gp_result_selector_widths :: "int list"
  gp_logical_selector_terms :: int
  gp_selector_terms_lower_bound :: bool
  gp_predicate_dependency_rounds :: int
  gp_dependency_depth :: physical_count
  gp_logical_lut_evaluations :: int
  gp_fused_lut_strategy :: string
  gp_equivalence_proof :: "proof_artifact option"
  gp_equivalence_proof_status :: string
  gp_declared_global_domain_size :: int
  gp_physical :: physical_profile

datatype group_error =
  GroupShape int int
| GroupCounts int int int int
| GroupCharge nat charge_error
| GroupDuplicateProvenance string
| GroupLogicalTotal int int
| GroupSelectorWidth int
| GroupLogicalCounts
| GroupDependencyDepth count_error
| GroupDepthBelowBound int int
| GroupPhysical profile_error
| AggregateOverflows string
| AggregateBelowSubtotal string int int
| AggregateNotSum string int int
| FusedCarriesCharges
| GroupProof artifact_error
| GroupProofStatus string
| NonFusedCarriesEvidence

definition validate_charge_aggregate ::
  "string \<Rightarrow> physical_count \<Rightarrow> comparator_charge list \<Rightarrow> bool \<Rightarrow>
   (comparator_charge \<Rightarrow> physical_count) \<Rightarrow> (group_error, unit) res" where
  "validate_charge_aggregate name aggregate charges exact_when_complete select_count =
     (if pc_status aggregate \<noteq> MeasurementMeasured \<or> charges = [] then Inr ()
      else and_then
        (fold_each (\<lambda>_ charge (sum, complete).
           let count = select_count charge
           in if pc_status count \<noteq> MeasurementMeasured then Inr (sum, False)
              else and_then (deref (pc_value count)) (\<lambda>v.
                if v > wrap64 (max_int64 - sum) then err (AggregateOverflows name)
                else Inr (wrap64 (sum + v), complete)))
           0 charges (0, True))
        (\<lambda>(sum, complete).
           and_then (deref (pc_value aggregate)) (\<lambda>got.
             if got < sum then err (AggregateBelowSubtotal name got sum)
             else reject_if (exact_when_complete \<and> complete \<and> got \<noteq> sum)
               (AggregateNotSum name got sum))))"

text \<open>\<^verbatim>\<open>R0GroupProfile.Validate\<close>, in the three stretches of its body.\<close>

definition group_validate_logical :: "group_profile \<Rightarrow> (group_error, unit) res" where
  "group_validate_logical g =
     (if gp_start_depth g < 0 \<or> gp_height g \<le> 0 \<or> gp_height g > 4
        then err (GroupShape (gp_start_depth g) (gp_height g))
      else if gp_candidate_supernodes g \<noteq> shift_one (gp_start_depth g) \<or>
           gp_predicates_per_supernode g \<noteq> shift_one (gp_height g) - 1
        then err (GroupCounts (gp_candidate_supernodes g) (gp_predicates_per_supernode g)
               (gp_start_depth g) (gp_height g))
      else and_then
        (fold_each (\<lambda>i charge (seen, total).
           and_then (map_err (GroupCharge i) (charge_validate charge)) (\<lambda>_.
             if cc_provenance charge \<in> set seen
               then err (GroupDuplicateProvenance (cc_provenance charge))
             else Inr (cc_provenance charge # seen,
                       wrap64 (total + cc_logical_comparisons charge))))
           0 (gp_comparator_charges g) ([], 0))
        (\<lambda>(_, total).
           if total \<noteq> gp_logical_comparisons g
             then err (GroupLogicalTotal total (gp_logical_comparisons g))
           else and_then
             (check_each (\<lambda>_ widths.
                check_each (\<lambda>_ width. reject_if (width \<le> 0) (GroupSelectorWidth width)) 0 widths)
                0 [gp_feature_selector_widths g, gp_threshold_selector_widths g,
                   gp_result_selector_widths g])
             (\<lambda>_. reject_if (gp_logical_selector_terms g < 0 \<or>
                 gp_predicate_dependency_rounds g \<le> 0 \<or> gp_logical_lut_evaluations g < 0)
               GroupLogicalCounts)))"

definition group_validate_physical :: "group_profile \<Rightarrow> (group_error, unit) res" where
  "group_validate_physical g =
     and_then (map_err GroupDependencyDepth (count_validate (gp_dependency_depth g))) (\<lambda>_.
     and_then
       (if pc_status (gp_dependency_depth g) = MeasurementMeasured
        then and_then (deref (pc_value (gp_dependency_depth g))) (\<lambda>v.
          reject_if (v < gp_predicate_dependency_rounds g)
            (GroupDepthBelowBound v (gp_predicate_dependency_rounds g)))
        else Inr ()) (\<lambda>_.
     and_then (map_err GroupPhysical (profile_validate (gp_physical g))) (\<lambda>_.
     and_then (validate_charge_aggregate ''physical comparator streams''
         (pp_comparator_streams (gp_physical g)) (gp_comparator_charges g) True cc_streams) (\<lambda>_.
     and_then (validate_charge_aggregate ''refreshes''
         (pp_refreshes (gp_physical g)) (gp_comparator_charges g) False cc_refreshes) (\<lambda>_.
     validate_charge_aggregate ''bootstraps''
         (pp_bootstraps (gp_physical g)) (gp_comparator_charges g) False cc_bootstraps)))))"

definition group_validate_evidence ::
  "(string \<Rightarrow> parsed_url option) \<Rightarrow> r0_schedule \<Rightarrow> group_profile \<Rightarrow> (group_error, unit) res" where
  "group_validate_evidence parse_url schedule g =
     (if schedule = R0StateAwareFusedLUT then
        if gp_comparator_charges g \<noteq> [] \<or> gp_logical_comparisons g \<noteq> 0 then err FusedCarriesCharges
        else and_then
          (map_err GroupProof (validate_proof_artifact parse_url (gp_equivalence_proof g)))
          (\<lambda>_. reject_if (gp_equivalence_proof_status g \<noteq> ProofExternalUnverified)
            (GroupProofStatus (gp_equivalence_proof_status g)))
      else reject_if (gp_equivalence_proof g \<noteq> None \<or> gp_equivalence_proof_status g \<noteq> '''' \<or>
          gp_fused_lut_strategy g \<noteq> '''')
        NonFusedCarriesEvidence)"

definition group_validate ::
  "(string \<Rightarrow> parsed_url option) \<Rightarrow> r0_schedule \<Rightarrow> group_profile \<Rightarrow> (group_error, unit) res" where
  "group_validate parse_url schedule g =
     and_then (group_validate_logical g) (\<lambda>_.
     and_then (group_validate_physical g) (\<lambda>_.
     group_validate_evidence parse_url schedule g))"

section \<open>Copies\<close>

text \<open>
  The copies allocate: their effect on values is the identity, proved below; that no caller can
  reach a copied cell through the original is their point in Go and has no counterpart in a
  value.
\<close>

definition clone_proof_artifact :: "proof_artifact option \<Rightarrow> proof_artifact option" where
  "clone_proof_artifact reference = (case reference of None \<Rightarrow> None | Some r \<Rightarrow> Some r)"

definition clone_physical_count :: "physical_count \<Rightarrow> physical_count" where
  "clone_physical_count count =
     (case pc_value count of None \<Rightarrow> count | Some v \<Rightarrow> count\<lparr>pc_value := Some v\<rparr>)"

definition clone_comparator_charge :: "comparator_charge \<Rightarrow> comparator_charge" where
  "clone_comparator_charge c = c\<lparr>
     cc_streams_per_comparison := clone_physical_count (cc_streams_per_comparison c),
     cc_streams := clone_physical_count (cc_streams c),
     cc_refreshes_per_stream := clone_physical_count (cc_refreshes_per_stream c),
     cc_bootstraps_per_stream := clone_physical_count (cc_bootstraps_per_stream c),
     cc_refreshes := clone_physical_count (cc_refreshes c),
     cc_bootstraps := clone_physical_count (cc_bootstraps c)\<rparr>"

definition clone_physical_profile :: "physical_profile \<Rightarrow> physical_profile" where
  "clone_physical_profile p = p\<lparr>
     pp_comparator_streams := clone_physical_count (pp_comparator_streams p),
     pp_lut_input_streams := clone_physical_count (pp_lut_input_streams p),
     pp_lut_output_streams := clone_physical_count (pp_lut_output_streams p),
     pp_ct_ct_multiplications := clone_physical_count (pp_ct_ct_multiplications p),
     pp_ct_pt_multiplications := clone_physical_count (pp_ct_pt_multiplications p),
     pp_ct_additions := clone_physical_count (pp_ct_additions p),
     pp_a2b := clone_physical_count (pp_a2b p),
     pp_b2a := clone_physical_count (pp_b2a p),
     pp_rotations := clone_physical_count (pp_rotations p),
     pp_relinearizations := clone_physical_count (pp_relinearizations p),
     pp_rescales := clone_physical_count (pp_rescales p),
     pp_key_switches := clone_physical_count (pp_key_switches p),
     pp_transforms := clone_physical_count (pp_transforms p),
     pp_refreshes := clone_physical_count (pp_refreshes p),
     pp_bootstraps := clone_physical_count (pp_bootstraps p),
     pp_peak_live_ciphertexts := clone_physical_count (pp_peak_live_ciphertexts p),
     pp_peak_live_bytes := clone_physical_count (pp_peak_live_bytes p),
     pp_wall_time := clone_physical_count (pp_wall_time p)\<rparr>"

definition clone_group_profile :: "group_profile \<Rightarrow> group_profile" where
  "clone_group_profile g = g\<lparr>
     gp_comparator_charges := map clone_comparator_charge (gp_comparator_charges g),
     gp_feature_selector_widths := [] @ gp_feature_selector_widths g,
     gp_threshold_selector_widths := [] @ gp_threshold_selector_widths g,
     gp_result_selector_widths := [] @ gp_result_selector_widths g,
     gp_equivalence_proof := clone_proof_artifact (gp_equivalence_proof g),
     gp_dependency_depth := clone_physical_count (gp_dependency_depth g),
     gp_physical := clone_physical_profile (gp_physical g)\<rparr>"

lemma clone_proof_artifact_id [simp]: "clone_proof_artifact r = r"
  by (simp add: clone_proof_artifact_def split: option.splits)

lemma clone_physical_count_id [simp]: "clone_physical_count c = c"
  by (cases c) (simp add: clone_physical_count_def split: option.splits)

lemma clone_comparator_charge_id [simp]: "clone_comparator_charge c = c"
  by (simp add: clone_comparator_charge_def)

lemma clone_physical_profile_id [simp]: "clone_physical_profile p = p"
  by (simp add: clone_physical_profile_def)

lemma map_clone_comparator_charge [simp]: "map clone_comparator_charge cs = cs"
  by (simp add: map_idI)

lemma clone_group_profile_id [simp]: "clone_group_profile g = g"
  by (simp add: clone_group_profile_def)

end
