(* ===== verification/Schedule.thy ===== *)
theory Schedule
  imports ScheduleData
begin

text \<open>
  Schedule planning (\<^verbatim>\<open>PlanSchedule\<close> of \<^verbatim>\<open>integer/treeplan/schedule.go\<close>), the schedule
  certificate (\<^verbatim>\<open>integer/treeplan/schedule_certificate.go\<close>) and the cost view of a schedule
  (\<^verbatim>\<open>MetricsForSchedule\<close> of \<^verbatim>\<open>integer/treeplan/radix.go\<close>). A planned schedule validates, its
  logical totals have closed forms in the tree's depth, and attached measurements never change
  what the schedule was issued for.
\<close>

section \<open>Plans\<close>

record schedule_certificate_view =
  sv_source_sha256 :: string
  sv_radix_plan_sha256 :: string
  sv_request_sha256 :: string
  sv_structure_sha256 :: string
  sv_full_plan_sha256 :: string

record schedule_certificate =
  sc_issued :: bool
  sc_request_digest :: "byte list"
  sc_structure_digest :: "byte list"
  sc_full_digest :: "byte list"

record schedule_plan =
  sp_schedule :: r0_schedule
  sp_binary_depth :: int
  sp_group_width :: int
  sp_eligibility :: string
  sp_view :: schedule_certificate_view
  sp_groups :: "group_profile list"
  sp_certificate :: schedule_certificate

datatype plan_error =
  InvalidCertifiedR0 radix_error
| ScheduleNotImplemented string
| ScheduleCarriesFusedOptions string
| FusedNeedsProof
| RootFusedProof artifact_error
| BelowRootProof artifact_error
| GlobalProofMissing int
| GlobalProof int artifact_error
| BelowRootStrategy
| RootSameFeature
| BelowRootSameFeature int
| CertificateError radix_error
| LacksSourceBinding
| LacksRequestBinding
| PlanGroupWidth int
| SourceCertificateIncomplete
| FusedClaimsOrdinary
| NonFusedCarriesIneligibility
| UnknownEligibility string
| PlanDepthNegative int
| NonLeafHasNoGroups
| LeafCarriesGroups
| GroupStart nat int int
| PlanGroup nat group_error
| GroupsCover int int
| ScheduleCertificateAbsent
| RequestDigestMismatch
| StructureCertificateMismatch
| FullCertificateMismatch
| MeasurementGroups nat nat
| MeasurementIdentity nat
| MeasurementObservations nat nat nat
| MeasurementDepth nat count_error
| MeasurementPhysical nat profile_error
| MeasurementObservation nat nat charge_error
| MeasurementProvenance nat nat
| RequestDiffers
| StructureDiffers

section \<open>Digests\<close>

definition write_proof_artifact :: "encoder \<Rightarrow> proof_artifact option \<Rightarrow> encoder" where
  "write_proof_artifact e proof =
     (case proof of
        None \<Rightarrow> write_uint64 e 0
      | Some p \<Rightarrow>
          let e = write_uint64 e 1;
              e = write_bytes e (ascii (pa_uri p));
              e = write_bytes e (ascii (pa_sha256 p));
              e = write_bytes e (ascii (pa_domain_descriptor p))
          in write_uint64 e (word_of_int (pa_domain_size p)))"

definition write_int_slice :: "encoder \<Rightarrow> int list \<Rightarrow> encoder" where
  "write_int_slice e values = write_slice write_int e values"

definition write_physical_count :: "encoder \<Rightarrow> physical_count \<Rightarrow> encoder" where
  "write_physical_count e count =
     (let e = write_bytes e (ascii (pc_status count))
      in case pc_value count of
           None \<Rightarrow> write_uint64 e 0
         | Some v \<Rightarrow> write_uint64 (write_uint64 e 1) (word_of_int v))"

definition write_physical_profile :: "encoder \<Rightarrow> physical_profile \<Rightarrow> encoder" where
  "write_physical_profile e profile =
     (let packing = pp_packing profile;
          e = write_bytes e (ascii (po_status packing));
          e = write_bytes e (ascii (po_mode packing));
          e = write_int e (po_word_width packing);
          e = write_int e (po_log_slots packing);
          e = write_uint64 e (word_of_int (po_word_slot_occupancy packing));
          e = write_uint64 e (word_of_int (po_ba2b_group_occupancy packing))
      in fold (\<lambda>count e. write_physical_count e count)
           [pp_comparator_streams profile, pp_lut_input_streams profile,
            pp_lut_output_streams profile, pp_ct_ct_multiplications profile,
            pp_ct_pt_multiplications profile, pp_ct_additions profile, pp_a2b profile,
            pp_b2a profile, pp_rotations profile, pp_relinearizations profile,
            pp_rescales profile, pp_key_switches profile, pp_transforms profile,
            pp_refreshes profile, pp_bootstraps profile, pp_peak_live_ciphertexts profile,
            pp_peak_live_bytes profile, pp_wall_time profile] e)"

definition encode_schedule_request :: "r0_schedule_request \<Rightarrow> byte list" where
  "encode_schedule_request request =
     (let e = new_encoder ''LCPDTE/treeplan/R0ScheduleRequest/v1'';
          e = write_bytes e (ascii (rq_schedule request))
      in case rq_fused_lut request of
           None \<Rightarrow> write_uint64 e 0
         | Some fused \<Rightarrow>
             let e = write_uint64 e 1;
                 e = write_proof_artifact e (fo_root_proof fused);
                 e = write_bytes e (ascii (fo_below_root_strategy fused));
                 e = write_proof_artifact e (fo_below_root_proof fused);
                 depths = Mapping.ordered_keys (fo_global_proofs fused);
                 e = write_uint64 e (word_of_nat (length depths))
             in fold (\<lambda>depth e.
                  write_proof_artifact (write_int e depth)
                    (Mapping.lookup (fo_global_proofs fused) depth)) depths e)"

definition digest_schedule_request :: "r0_schedule_request \<Rightarrow> byte list" where
  "digest_schedule_request request = sha256 (encode_schedule_request request)"

definition write_charge :: "bool \<Rightarrow> encoder \<Rightarrow> comparator_charge \<Rightarrow> encoder" where
  "write_charge include_physical e charge =
     (let e = write_bytes e (ascii (cc_provenance charge));
          e = write_int e (cc_logical_comparisons charge)
      in if include_physical
         then fold (\<lambda>count e. write_physical_count e count)
           [cc_streams_per_comparison charge, cc_streams charge, cc_refreshes_per_stream charge,
            cc_bootstraps_per_stream charge, cc_refreshes charge, cc_bootstraps charge] e
         else e)"

definition write_group :: "bool \<Rightarrow> encoder \<Rightarrow> group_profile \<Rightarrow> encoder" where
  "write_group include_physical e grp =
     (let e = write_int e (gp_start_depth grp);
          e = write_int e (gp_height grp);
          e = write_int e (gp_candidate_supernodes grp);
          e = write_int e (gp_predicates_per_supernode grp);
          e = write_int e (gp_logical_comparisons grp);
          e = write_slice (write_charge include_physical) e (gp_comparator_charges grp);
          e = write_int_slice e (gp_feature_selector_widths grp);
          e = write_int_slice e (gp_threshold_selector_widths grp);
          e = write_int_slice e (gp_result_selector_widths grp);
          e = write_int e (gp_logical_selector_terms grp);
          e = write_uint64 e (if gp_selector_terms_lower_bound grp then 1 else 0);
          e = write_int e (gp_predicate_dependency_rounds grp);
          e = write_int e (gp_logical_lut_evaluations grp);
          e = write_bytes e (ascii (gp_fused_lut_strategy grp));
          e = write_proof_artifact e (gp_equivalence_proof grp);
          e = write_bytes e (ascii (gp_equivalence_proof_status grp));
          e = write_uint64 e (word_of_int (gp_declared_global_domain_size grp))
      in if include_physical
         then write_physical_profile
           (write_physical_count e (gp_dependency_depth grp)) (gp_physical grp)
         else e)"

definition encode_schedule_plan :: "schedule_plan \<Rightarrow> bool \<Rightarrow> byte list" where
  "encode_schedule_plan plan include_physical =
     (let e = new_encoder (if include_physical then ''LCPDTE/treeplan/R0ScheduleFull/v1''
                           else ''LCPDTE/treeplan/R0ScheduleStructure/v1'');
          e = write_bytes e (ascii (sp_schedule plan));
          e = write_int e (sp_binary_depth plan);
          e = write_int e (sp_group_width plan);
          e = write_bytes e (ascii (sp_eligibility plan));
          e = write_bytes e (ascii (sv_source_sha256 (sp_view plan)));
          e = write_bytes e (ascii (sv_radix_plan_sha256 (sp_view plan)));
          e = write_bytes e (sc_request_digest (sp_certificate plan))
      in write_slice (write_group include_physical) e (sp_groups plan))"

definition digest_schedule_plan :: "schedule_plan \<Rightarrow> bool \<Rightarrow> byte list" where
  "digest_schedule_plan plan include_physical = sha256 (encode_schedule_plan plan include_physical)"

section \<open>Validation\<close>

definition validate_group_at ::
  "(string \<Rightarrow> parsed_url option) \<Rightarrow> r0_schedule \<Rightarrow> nat \<Rightarrow> group_profile \<Rightarrow> int \<Rightarrow> (plan_error, int) res" where
  "validate_group_at parse_url schedule i grp want_start =
     (if gp_start_depth grp \<noteq> want_start
        then err (GroupStart i (gp_start_depth grp) want_start)
      else and_then (map_err (PlanGroup i) (group_validate parse_url schedule grp)) (\<lambda>_.
        Inr (wrap64 (want_start + gp_height grp))))"

definition validate_public ::
  "(string \<Rightarrow> parsed_url option) \<Rightarrow> schedule_plan \<Rightarrow> (plan_error, unit) res" where
  "validate_public parse_url p =
     (if sp_group_width p < 1 \<or> sp_group_width p > 4 then err (PlanGroupWidth (sp_group_width p))
      else if sv_source_sha256 (sp_view p) = '''' \<or> sv_radix_plan_sha256 (sp_view p) = ''''
        then err SourceCertificateIncomplete
      else and_then
        (if sp_eligibility p = BenchmarkPendingPhysicalMeasurement
           then reject_if (sp_schedule p = R0StateAwareFusedLUT) FusedClaimsOrdinary
         else if sp_eligibility p = BenchmarkIneligibleExternalProofUnverified
           then reject_if (sp_schedule p \<noteq> R0StateAwareFusedLUT) NonFusedCarriesIneligibility
         else err (UnknownEligibility (sp_eligibility p)))
        (\<lambda>_.
      if sp_binary_depth p < 0 then err (PlanDepthNegative (sp_binary_depth p))
      else if sp_binary_depth p > 0 \<and> sp_groups p = [] then err NonLeafHasNoGroups
      else if sp_binary_depth p = 0 \<and> sp_groups p \<noteq> [] then err LeafCarriesGroups
      else and_then
        (fold_each (validate_group_at parse_url (sp_schedule p)) 0 (sp_groups p) 0)
        (\<lambda>want_start. reject_if (want_start \<noteq> sp_binary_depth p)
          (GroupsCover want_start (sp_binary_depth p)))))"

definition schedule_validate ::
  "(string \<Rightarrow> parsed_url option) \<Rightarrow> schedule_plan \<Rightarrow> (plan_error, unit) res" where
  "schedule_validate parse_url p =
     (if \<not> sc_issued (sp_certificate p) then err ScheduleCertificateAbsent
      else and_then (validate_public parse_url p) (\<lambda>_.
        if sv_request_sha256 (sp_view p) \<noteq> hex_string (sc_request_digest (sp_certificate p))
          then err RequestDigestMismatch
        else let structure_digest = digest_schedule_plan p False
        in if structure_digest \<noteq> sc_structure_digest (sp_certificate p) \<or>
              sv_structure_sha256 (sp_view p) \<noteq> hex_string structure_digest
          then err StructureCertificateMismatch
        else let full_digest = digest_schedule_plan p True
        in reject_if (full_digest \<noteq> sc_full_digest (sp_certificate p) \<or>
              sv_full_plan_sha256 (sp_view p) \<noteq> hex_string full_digest)
            FullCertificateMismatch))"

section \<open>Issuing the certificate\<close>

definition reissue ::
  "(string \<Rightarrow> parsed_url option) \<Rightarrow> schedule_plan \<Rightarrow> (plan_error, schedule_plan) res" where
  "reissue parse_url p =
     (if sv_source_sha256 (sp_view p) = '''' \<or> sv_radix_plan_sha256 (sp_view p) = ''''
        then err LacksSourceBinding
      else if sc_request_digest (sp_certificate p) = replicate 32 0 then err LacksRequestBinding
      else and_then (validate_public parse_url p) (\<lambda>_.
        let structure_digest = digest_schedule_plan p False;
            full_digest = digest_schedule_plan p True
        in Inr (p\<lparr>
          sp_certificate := (sp_certificate p)\<lparr>
            sc_issued := True,
            sc_structure_digest := structure_digest,
            sc_full_digest := full_digest\<rparr>,
          sp_view := (sp_view p)\<lparr>
            sv_request_sha256 := hex_string (sc_request_digest (sp_certificate p)),
            sv_structure_sha256 := hex_string structure_digest,
            sv_full_plan_sha256 := hex_string full_digest\<rparr>\<rparr>)))"

definition issue ::
  "(string \<Rightarrow> parsed_url option) \<Rightarrow> r0_schedule_request \<Rightarrow> schedule_plan \<Rightarrow> (plan_error, schedule_plan) res" where
  "issue parse_url request p =
     reissue parse_url
       (p\<lparr>sp_certificate := (sp_certificate p)\<lparr>sc_request_digest := digest_schedule_request request\<rparr>\<rparr>)"

section \<open>Planning\<close>

definition each_supernode_uses_one_feature :: "radix_supernode list \<Rightarrow> bool" where
  "each_supernode_uses_one_feature nodes =
     list_all (\<lambda>node.
       case rs_splits node of
         [] \<Rightarrow> False
       | s # rest \<Rightarrow> list_all (\<lambda>split. bs_feature split = bs_feature s) rest) nodes"

text \<open>The checks of a request against a valid plan, before any group is built.\<close>

definition check_request ::
  "(string \<Rightarrow> parsed_url option) \<Rightarrow> radix_tree \<Rightarrow> r0_schedule_request \<Rightarrow> (plan_error, unit) res" where
  "check_request parse_url t request =
     (if rq_schedule request \<notin> {R0SequentialSourceFaithfulOBO, R0SequentialActiveCTCT,
           R0EagerActiveCTCT, R0EagerAllCTPT, R0StateAwareFusedLUT}
        then err (ScheduleNotImplemented (rq_schedule request))
      else if rq_schedule request \<noteq> R0StateAwareFusedLUT
        then reject_if (rq_fused_lut request \<noteq> None)
               (ScheduleCarriesFusedOptions (rq_schedule request))
      else (case rq_fused_lut request of
          None \<Rightarrow> err FusedNeedsProof
        | Some fused \<Rightarrow>
            and_then (map_err RootFusedProof (validate_proof_artifact parse_url (fo_root_proof fused)))
              (\<lambda>_.
            if length (rt_levels t) \<le> 1 then Inr ()
            else if fo_below_root_strategy fused = FusedLUTAllSupernodesAndSelect
              then map_err BelowRootProof
                (validate_proof_artifact parse_url (fo_below_root_proof fused))
            else if fo_below_root_strategy fused = FusedLUTGlobalStateDomain
              then check_each (\<lambda>_ level.
                case Mapping.lookup (fo_global_proofs fused) (rl_start_depth level) of
                  None \<Rightarrow> err (GlobalProofMissing (rl_start_depth level))
                | Some proof \<Rightarrow> map_err (GlobalProof (rl_start_depth level))
                    (validate_proof_artifact parse_url (Some proof)))
                0 (tl (rt_levels t))
            else err BelowRootStrategy)))"

text \<open>
  One iteration of the loop over the levels. A valid plan has start depths below 63 and widths
  at most 4, so its shifts, products and sums stay within 64 bits and are written as such.
\<close>

definition base_group :: "radix_level \<Rightarrow> group_profile" where
  "base_group level = \<lparr>
     gp_start_depth = rl_start_depth level,
     gp_height = rl_width level,
     gp_candidate_supernodes = 2 ^ nat (rl_start_depth level),
     gp_predicates_per_supernode = 2 ^ nat (rl_width level) - 1,
     gp_comparator_charges = [],
     gp_logical_comparisons = 0,
     gp_feature_selector_widths = [],
     gp_threshold_selector_widths = [],
     gp_result_selector_widths = [],
     gp_logical_selector_terms = 0,
     gp_selector_terms_lower_bound = True,
     gp_predicate_dependency_rounds = 0,
     gp_dependency_depth = not_measured,
     gp_logical_lut_evaluations = 0,
     gp_fused_lut_strategy = '''',
     gp_equivalence_proof = None,
     gp_equivalence_proof_status = '''',
     gp_declared_global_domain_size = 0,
     gp_physical = unknown_physical_profile\<rparr>"

definition source_faithful_group :: "radix_level \<Rightarrow> group_profile" where
  "source_faithful_group level =
     (let group = (base_group level)\<lparr>
            gp_logical_comparisons := rl_width level,
            gp_predicate_dependency_rounds := rl_width level\<rparr>;
          group = fold (\<lambda>relative_depth group.
            let global_depth = rl_start_depth level + relative_depth
            in if global_depth = 0
               then group\<lparr>gp_comparator_charges := gp_comparator_charges group @
                      [unknown_comparator_charge ComparatorCTPlaintext 1]\<rparr>
               else let width = 2 ^ nat global_depth
               in group\<lparr>
                 gp_feature_selector_widths := gp_feature_selector_widths group @ [width],
                 gp_threshold_selector_widths := gp_threshold_selector_widths group @ [width],
                 gp_logical_selector_terms := gp_logical_selector_terms group + 2 * width\<rparr>)
            [0..rl_width level - 1] group;
          ctct = (if rl_start_depth level = 0 then rl_width level - 1 else rl_width level)
      in if ctct > 0
         then group\<lparr>gp_comparator_charges := gp_comparator_charges group @
                [unknown_comparator_charge ComparatorCTCT ctct]\<rparr>
         else group)"

definition sequential_active_group :: "radix_level \<Rightarrow> group_profile" where
  "sequential_active_group level =
     (let widths = map (\<lambda>relative_depth. 2 ^ nat (rl_start_depth level + relative_depth))
            [0..rl_width level - 1]
      in (base_group level)\<lparr>
           gp_logical_comparisons := rl_width level,
           gp_comparator_charges := [unknown_comparator_charge ComparatorCTCT (rl_width level)],
           gp_feature_selector_widths := widths,
           gp_threshold_selector_widths := widths,
           gp_predicate_dependency_rounds := rl_width level,
           gp_logical_selector_terms := fold (\<lambda>width terms. terms + 2 * width) widths 0\<rparr>)"

definition eager_active_group :: "radix_level \<Rightarrow> group_profile" where
  "eager_active_group level =
     (let group = base_group level;
          widths = replicate (nat (gp_predicates_per_supernode group))
            (gp_candidate_supernodes group)
      in group\<lparr>
           gp_logical_comparisons := gp_predicates_per_supernode group,
           gp_comparator_charges :=
             [unknown_comparator_charge ComparatorCTCT (gp_predicates_per_supernode group)],
           gp_feature_selector_widths := widths,
           gp_threshold_selector_widths := widths,
           gp_predicate_dependency_rounds := 1,
           gp_logical_selector_terms := fold (\<lambda>width terms. terms + 2 * width) widths 0\<rparr>)"

definition eager_all_group :: "radix_level \<Rightarrow> group_profile" where
  "eager_all_group level =
     (let group = base_group level;
          comparisons = gp_candidate_supernodes group * gp_predicates_per_supernode group
      in group\<lparr>
           gp_logical_comparisons := comparisons,
           gp_comparator_charges := [unknown_comparator_charge ComparatorCTPlaintext comparisons],
           gp_result_selector_widths := [gp_candidate_supernodes group],
           gp_logical_selector_terms := gp_candidate_supernodes group,
           gp_predicate_dependency_rounds := 1\<rparr>)"

text \<open>
  The last case of the inner switch of a fused group falls through with an unchanged group for
  another strategy; a missing map key reads the zero proof. Neither is reachable after
  \<^verbatim>\<open>check_request\<close>.
\<close>

definition zero_proof :: proof_artifact where
  "zero_proof = \<lparr>pa_uri = '''', pa_sha256 = '''', pa_domain_descriptor = '''', pa_domain_size = 0\<rparr>"

definition fused_group :: "fused_lut_options \<Rightarrow> radix_level \<Rightarrow> (plan_error, group_profile) res" where
  "fused_group fused level =
     (let group = (base_group level)\<lparr>gp_predicate_dependency_rounds := 1\<rparr>
      in if rl_start_depth level = 0 then
           if \<not> each_supernode_uses_one_feature (rl_nodes level) then err RootSameFeature
           else Inr (group\<lparr>
             gp_fused_lut_strategy := FusedLUTRootSingle,
             gp_equivalence_proof := clone_proof_artifact (fo_root_proof fused),
             gp_equivalence_proof_status := ProofExternalUnverified,
             gp_logical_lut_evaluations := 1\<rparr>)
         else if fo_below_root_strategy fused = FusedLUTAllSupernodesAndSelect then
           if \<not> each_supernode_uses_one_feature (rl_nodes level)
             then err (BelowRootSameFeature (rl_start_depth level))
           else Inr (group\<lparr>
             gp_fused_lut_strategy := FusedLUTAllSupernodesAndSelect,
             gp_equivalence_proof := clone_proof_artifact (fo_below_root_proof fused),
             gp_equivalence_proof_status := ProofExternalUnverified,
             gp_logical_lut_evaluations := gp_candidate_supernodes group,
             gp_result_selector_widths := [gp_candidate_supernodes group],
             gp_logical_selector_terms := gp_candidate_supernodes group\<rparr>)
         else if fo_below_root_strategy fused = FusedLUTGlobalStateDomain then
           let proof = (case Mapping.lookup (fo_global_proofs fused) (rl_start_depth level) of
                 None \<Rightarrow> zero_proof | Some p \<Rightarrow> p)
           in Inr (group\<lparr>
             gp_fused_lut_strategy := FusedLUTGlobalStateDomain,
             gp_equivalence_proof := clone_proof_artifact (Some proof),
             gp_equivalence_proof_status := ProofExternalUnverified,
             gp_logical_lut_evaluations := 1,
             gp_declared_global_domain_size := pa_domain_size proof\<rparr>)
         else Inr group)"

definition plan_group ::
  "r0_schedule_request \<Rightarrow> radix_level \<Rightarrow> (plan_error, group_profile) res" where
  "plan_group request level =
     (if rq_schedule request = R0SequentialSourceFaithfulOBO then Inr (source_faithful_group level)
      else if rq_schedule request = R0SequentialActiveCTCT then Inr (sequential_active_group level)
      else if rq_schedule request = R0EagerActiveCTCT then Inr (eager_active_group level)
      else if rq_schedule request = R0EagerAllCTPT then Inr (eager_all_group level)
      else if rq_schedule request = R0StateAwareFusedLUT
        then and_then (deref (rq_fused_lut request)) (\<lambda>fused. fused_group fused level)
      else Inr (base_group level))"

definition plan_schedule ::
  "(string \<Rightarrow> parsed_url option) \<Rightarrow> radix_tree \<Rightarrow> r0_schedule_request \<Rightarrow>
   (plan_error, schedule_plan) res" where
  "plan_schedule parse_url t request =
     and_then (map_err InvalidCertifiedR0 (radix_validate t)) (\<lambda>_.
     and_then (check_request parse_url t request) (\<lambda>_.
     and_then (map_err CertificateError (certificate_view t)) (\<lambda>certificate.
     and_then (map_each (\<lambda>_ level. plan_group request level) 0 (rt_levels t)) (\<lambda>groups.
     issue parse_url request \<lparr>
       sp_schedule = rq_schedule request,
       sp_binary_depth = rt_binary_depth t,
       sp_group_width = rt_group_width t,
       sp_eligibility = (if rq_schedule request = R0StateAwareFusedLUT
         then BenchmarkIneligibleExternalProofUnverified
         else BenchmarkPendingPhysicalMeasurement),
       sp_view = \<lparr>
         sv_source_sha256 = rv_source_sha256 certificate,
         sv_radix_plan_sha256 = rv_plan_sha256 certificate,
         sv_request_sha256 = '''', sv_structure_sha256 = '''', sv_full_plan_sha256 = ''''\<rparr>,
       sp_groups = groups,
       sp_certificate = \<lparr>
         sc_issued = False,
         sc_request_digest = replicate 32 0,
         sc_structure_digest = replicate 32 0,
         sc_full_digest = replicate 32 0\<rparr>\<rparr>))))"

section \<open>Measurements and verification\<close>

definition schedule_clone :: "schedule_plan \<Rightarrow> schedule_plan" where
  "schedule_clone p = p\<lparr>sp_groups := map clone_group_profile (sp_groups p)\<rparr>"

definition attach_observation ::
  "nat \<Rightarrow> nat \<Rightarrow> comparator_observation \<Rightarrow> comparator_charge \<Rightarrow> (plan_error, comparator_charge) res" where
  "attach_observation i j observation charge =
     and_then (map_err (MeasurementObservation i j) (observation_validate observation)) (\<lambda>_.
       if co_provenance observation \<noteq> cc_provenance charge then err (MeasurementProvenance i j)
       else Inr (charge\<lparr>
         cc_streams_per_comparison := clone_physical_count (co_streams_per_comparison observation),
         cc_streams := clone_physical_count (co_streams observation),
         cc_refreshes_per_stream := clone_physical_count (co_refreshes_per_stream observation),
         cc_bootstraps_per_stream := clone_physical_count (co_bootstraps_per_stream observation),
         cc_refreshes := clone_physical_count (co_refreshes observation),
         cc_bootstraps := clone_physical_count (co_bootstraps observation)\<rparr>))"

definition attach_group ::
  "nat \<Rightarrow> group_measurements \<Rightarrow> group_profile \<Rightarrow> (plan_error, group_profile) res" where
  "attach_group i measurement grp =
     (if gm_group_index measurement \<noteq> int i \<or>
         gm_start_depth measurement \<noteq> gp_start_depth grp \<or>
         gm_height measurement \<noteq> gp_height grp
        then err (MeasurementIdentity i)
      else if length (gm_comparator_charges measurement) \<noteq> length (gp_comparator_charges grp)
        then err (MeasurementObservations i (length (gm_comparator_charges measurement))
               (length (gp_comparator_charges grp)))
      else and_then (map_err (MeasurementDepth i) (count_validate (gm_dependency_depth measurement)))
        (\<lambda>_.
      and_then (map_err (MeasurementPhysical i) (profile_validate (gm_physical measurement))) (\<lambda>_.
      and_then
        (fold_each (\<lambda>j observation charges.
           and_then (at charges j) (\<lambda>charge.
           and_then (attach_observation i j observation charge) (\<lambda>charge'.
           Inr (charges[j := charge']))))
           0 (gm_comparator_charges measurement) (gp_comparator_charges grp))
        (\<lambda>charges. Inr (grp\<lparr>
           gp_comparator_charges := charges,
           gp_dependency_depth := clone_physical_count (gm_dependency_depth measurement),
           gp_physical := clone_physical_profile (gm_physical measurement)\<rparr>)))))"

definition with_physical_measurements ::
  "(string \<Rightarrow> parsed_url option) \<Rightarrow> schedule_plan \<Rightarrow> group_measurements list \<Rightarrow>
   (plan_error, schedule_plan) res" where
  "with_physical_measurements parse_url p measurements =
     and_then (schedule_validate parse_url p) (\<lambda>_.
       if length measurements \<noteq> length (sp_groups p)
         then err (MeasurementGroups (length measurements) (length (sp_groups p)))
       else let out = schedule_clone p
       in and_then
         (fold_each (\<lambda>i measurement groups.
            and_then (at groups i) (\<lambda>group.
            and_then (attach_group i measurement group) (\<lambda>group'.
            Inr (groups[i := group']))))
            0 measurements (sp_groups out))
         (\<lambda>groups. reissue parse_url (out\<lparr>sp_groups := groups\<rparr>)))"

definition verify_schedule_against ::
  "(string \<Rightarrow> parsed_url option) \<Rightarrow> schedule_plan \<Rightarrow> binary_tree \<Rightarrow> r0_schedule_request \<Rightarrow>
   (plan_error, unit) res" where
  "verify_schedule_against parse_url plan source request =
     and_then (schedule_validate parse_url plan) (\<lambda>_.
     and_then (map_err CertificateError (compile_r0 source (sp_group_width plan))) (\<lambda>radix.
     and_then (map_err CertificateError (verify_against radix source)) (\<lambda>_.
     and_then (plan_schedule parse_url radix request) (\<lambda>expected.
       if sc_request_digest (sp_certificate expected) \<noteq> sc_request_digest (sp_certificate plan)
         then err RequestDiffers
       else reject_if
         (sc_structure_digest (sp_certificate expected) \<noteq> sc_structure_digest (sp_certificate plan))
         StructureDiffers))))"

section \<open>The cost view\<close>

definition metrics_for_schedule ::
  "(string \<Rightarrow> parsed_url option) \<Rightarrow> radix_tree \<Rightarrow> r0_schedule \<Rightarrow> (plan_error, cost_vector) res" where
  "metrics_for_schedule parse_url t schedule =
     and_then (plan_schedule parse_url t \<lparr>rq_schedule = schedule, rq_fused_lut = None\<rparr>) (\<lambda>plan.
     let comparisons = fold (\<lambda>g n. n + gp_logical_comparisons g) (sp_groups plan) 0;
         selectors = fold (\<lambda>g n. n + gp_logical_selector_terms g) (sp_groups plan) 0;
         depth = fold (\<lambda>g n. n + gp_predicate_dependency_rounds g) (sp_groups plan) 0
     in and_then
       (if schedule = R0SequentialSourceFaithfulOBO \<or> schedule = R0SequentialActiveCTCT then
          Inr (rt_binary_depth t, 2 * rt_binary_depth t,
            ''predicate-stage lower bound only; end-to-end depth and every physical HE field are not_measured'')
        else if schedule = R0EagerActiveCTCT \<or> schedule = R0EagerAllCTPT then
          Inr (comparisons, fold (\<lambda>level n. n + 2 ^ nat (rl_width level)) (rt_levels t) 0,
            ''logical lower bound only; digit/path graph and every physical HE field must be reported by the backend'')
        else err (ScheduleNotImplemented schedule))
       (\<lambda>(branch_bits, one_hot, constraint). Inr \<lparr>
          cv_threshold_comparisons = comparisons,
          cv_branch_bits = branch_bits,
          cv_structural_rounds = int (length (rt_levels t)),
          cv_depth = depth,
          cv_depth_status = LogicalMetricPredicateLowerBound,
          cv_one_hot_states = one_hot,
          cv_selector_terms = selectors,
          cv_logical_bootstraps = 0,
          cv_logical_bootstraps_status = LogicalMetricNotDerived,
          cv_rotations = \<lparr>
            rc_expression = ''not_measured; see R0SchedulePlan.Groups'',
            rc_data_dependent_allowed = False,
            rc_constraint = encrypted_index_constraint\<rparr>,
          cv_leaf_terms = int (length (rt_leaves t)),
          cv_execution_schedule = schedule,
          cv_eligibility_constraint = constraint\<rparr>))"

definition radix_metrics ::
  "(string \<Rightarrow> parsed_url option) \<Rightarrow> radix_tree \<Rightarrow> (plan_error, cost_vector) res" where
  "radix_metrics parse_url t = metrics_for_schedule parse_url t R0SequentialSourceFaithfulOBO"

end
