(* ===== verification/ScheduleFacts.thy ===== *)
theory ScheduleFacts
  imports Schedule
begin

text \<open>
  Correctness of schedule planning: no operation of the package panics on any value, every plan
  that is issued validates, the logical totals of a planned schedule, and what attaching
  measurements can and cannot change.
\<close>

section \<open>No panics\<close>

lemma count_validate_ok [ok_iff]:
  "count_validate c = Inr u \<longleftrightarrow>
     (pc_status c = MeasurementNotMeasured \<and> pc_value c = None) \<or>
     (pc_status c = MeasurementMeasured \<and> (\<exists>v. pc_value c = Some v \<and> 0 \<le> v))"
  by (cases "pc_value c") (auto simp: count_validate_def reject_if_def)

lemma count_validate_safe [simp]: "safe (count_validate c)"
  by (cases "pc_value c") (auto simp: count_validate_def)

lemma not_measured_ok [simp]: "count_validate not_measured = Inr ()"
  by (simp add: count_validate_ok not_measured_def)

lemma not_measured_simps [simp]:
  "pc_status not_measured = MeasurementNotMeasured" "pc_value not_measured = None"
  by (simp_all add: not_measured_def)

lemma validate_counts_ok [ok_iff]:
  "validate_counts w counts = Inr u \<longleftrightarrow> (\<forall>(name, c) \<in> set counts. count_validate c = Inr ())"
proof -
  have "validate_counts w counts = Inr u \<longleftrightarrow>
      list_all (\<lambda>(name, c). count_validate c = Inr ()) counts"
    by (auto simp: validate_counts_def check_each_ok list_all_iff_nth map_err_ok split_beta)
  then show ?thesis by (simp add: list_all_iff)
qed

lemma validate_counts_safe [simp]: "safe (validate_counts w counts)"
  by (auto simp: validate_counts_def intro!: safe_intro)

text \<open>A count that passed validation can be read when its status says measured.\<close>

lemma measured_readable:
  "count_validate c = Inr () \<Longrightarrow> pc_status c = MeasurementMeasured \<Longrightarrow> \<exists>v. pc_value c = Some v \<and> 0 \<le> v"
  by (simp add: count_validate_ok)

lemma deref_safe_measured [safe_intro]:
  "count_validate c = Inr () \<Longrightarrow> pc_status c = MeasurementMeasured \<Longrightarrow> safe (deref (pc_value c))"
  by (auto dest: measured_readable)

lemma validate_measured_product_safe [safe_intro]:
  "count_validate factor = Inr () \<Longrightarrow> count_validate product = Inr () \<Longrightarrow>
     safe (validate_measured_product name m factor product)"
  by (auto simp: validate_measured_product_def Let_def intro!: safe_intro)

lemma charge_counts_ok:
  "validate_counts w (charge_counts c) = Inr () \<longleftrightarrow>
     count_validate (cc_streams_per_comparison c) = Inr () \<and>
     count_validate (cc_streams c) = Inr () \<and>
     count_validate (cc_refreshes_per_stream c) = Inr () \<and>
     count_validate (cc_bootstraps_per_stream c) = Inr () \<and>
     count_validate (cc_refreshes c) = Inr () \<and> count_validate (cc_bootstraps c) = Inr ()"
  by (simp add: validate_counts_ok charge_counts_def)

lemma charge_validate_safe [simp]: "safe (charge_validate c)"
  by (auto simp: charge_validate_def charge_counts_ok intro!: safe_intro)

lemma charge_validate_counts:
  "charge_validate c = Inr () \<Longrightarrow> validate_counts ChargeCount (charge_counts c) = Inr ()"
  by (auto simp: charge_validate_def ok_iff split: if_splits)

lemma packing_validate_safe [simp]: "safe (packing_validate p)"
  by (simp add: packing_validate_def)

lemma profile_validate_safe [simp]: "safe (profile_validate p)"
  by (auto simp: profile_validate_def intro!: safe_intro)

lemma observation_validate_safe [simp]: "safe (observation_validate ob)"
  by (simp add: observation_validate_def)

lemma safe_fold_each [safe_intro]:
  assumes "\<And>j x s. x \<in> set xs \<Longrightarrow> safe (f j x s)"
  shows "safe (fold_each f i xs s)"
  using assms
proof (induction xs arbitrary: i s)
  case Nil
  then show ?case by simp
next
  case (Cons x xs)
  then show ?case by (auto intro!: safe_and_then)
qed

lemma fold_each_checked:
  "fold_each f i xs s = Inr s' \<Longrightarrow> (\<And>j x t t'. f j x t = Inr t' \<Longrightarrow> P x) \<Longrightarrow> \<forall>x \<in> set xs. P x"
  by (induction xs arbitrary: i s) (auto simp: and_then_ok)

lemma group_validate_logical_charges:
  "group_validate_logical g = Inr () \<Longrightarrow> \<forall>c \<in> set (gp_comparator_charges g). charge_validate c = Inr ()"
  by (auto simp: group_validate_logical_def ok_iff split: if_splits
      elim!: fold_each_checked [THEN bspec])

lemma group_validate_logical_safe [simp]: "safe (group_validate_logical g)"
  by (auto simp: group_validate_logical_def intro!: safe_intro split: prod.splits)

lemma validate_charge_aggregate_safe:
  assumes "count_validate aggregate = Inr ()"
    and "\<forall>c \<in> set charges. count_validate (sel c) = Inr ()"
  shows "safe (validate_charge_aggregate name aggregate charges exact sel)"
  using assms
  by (auto simp: validate_charge_aggregate_def Let_def intro!: safe_intro split: prod.splits)

lemma profile_validate_counts:
  "profile_validate p = Inr () \<Longrightarrow> (name, c) \<in> set (profile_counts p) \<Longrightarrow> count_validate c = Inr ()"
  by (auto simp: profile_validate_def ok_iff)

lemma group_validate_physical_safe:
  assumes "\<forall>c \<in> set (gp_comparator_charges g). charge_validate c = Inr ()"
  shows "safe (group_validate_physical g)"
proof -
  have charges: "\<forall>c \<in> set (gp_comparator_charges g).
      count_validate (cc_streams c) = Inr () \<and> count_validate (cc_refreshes c) = Inr () \<and>
      count_validate (cc_bootstraps c) = Inr ()"
    using assms charge_validate_counts charge_counts_ok by blast
  have profile: "count_validate (pp_comparator_streams p) = Inr () \<and>
      count_validate (pp_refreshes p) = Inr () \<and> count_validate (pp_bootstraps p) = Inr ()"
    if "profile_validate p = Inr ()" for p
    using that by (auto simp: profile_validate_def profile_counts_def validate_counts_ok and_then_ok)
  show ?thesis
    unfolding group_validate_physical_def
    by (intro safe_and_then validate_charge_aggregate_safe)
      (auto simp: charges ok_iff dest!: profile intro!: safe_intro)
qed

lemma validate_proof_artifact_safe [simp]: "safe (validate_proof_artifact parse_url r)"
  by (simp add: validate_proof_artifact_def split: option.splits)

lemma group_validate_safe [simp]: "safe (group_validate parse_url schedule g)"
  by (auto simp: group_validate_def group_validate_evidence_def
      intro!: safe_intro group_validate_physical_safe
      dest: bspec [OF group_validate_logical_charges])

lemma validate_public_safe [simp]: "safe (validate_public parse_url p)"
  by (auto simp: validate_public_def validate_group_at_def intro!: safe_intro)

lemma schedule_validate_safe [simp]: "safe (schedule_validate parse_url p)"
  by (auto simp: schedule_validate_def Let_def intro!: safe_intro)

lemma reissue_safe [simp]: "safe (reissue parse_url p)"
  by (auto simp: reissue_def Let_def intro!: safe_intro)

lemma radix_validate_safe [simp]: "safe (radix_validate t)"
  by (auto simp: radix_validate_def validate_structure_def validate_certificate_def
      full_tree_counts_def validate_level_def validate_node_def Let_def intro!: safe_intro)

lemma check_request_safe [simp]: "safe (check_request parse_url t request)"
  by (auto simp: check_request_def intro!: safe_intro split: option.splits)

lemma check_request_fused:
  "check_request parse_url t request = Inr () \<Longrightarrow> rq_schedule request = R0StateAwareFusedLUT \<Longrightarrow>
     \<exists>fused. rq_fused_lut request = Some fused"
  by (auto simp: check_request_def split: option.splits)

lemma fused_group_safe [simp]: "safe (fused_group fused level)"
  by (simp add: fused_group_def Let_def)

lemma plan_group_safe:
  "check_request parse_url t request = Inr () \<Longrightarrow> safe (plan_group request level)"
  by (auto simp: plan_group_def dest!: check_request_fused intro!: safe_intro)

lemma certificate_view_safe [simp]: "safe (certificate_view t)"
  by (auto simp: certificate_view_def intro!: safe_intro)

lemma plan_schedule_safe [simp]: "safe (plan_schedule parse_url t request)"
  by (auto simp: plan_schedule_def issue_def intro!: safe_intro plan_group_safe)

lemma attach_observation_safe [simp]: "safe (attach_observation i j ob c)"
  by (auto simp: attach_observation_def intro!: safe_intro)

text \<open>Both loops of the attachment rewrite entry by entry.\<close>

lemma attach_charges_map:
  "length charges = length obs \<Longrightarrow>
     fold_each (\<lambda>j observation charges.
       and_then (at charges j) (\<lambda>charge.
       and_then (attach_observation i j observation charge) (\<lambda>charge'.
       Inr (charges[j := charge'])))) 0 obs charges =
     map_each (\<lambda>j (ob, c). attach_observation i j ob c) 0 (zip obs charges)"
  by (rule fold_each_update) simp_all

lemma attach_groups_map:
  "length groups = length ms \<Longrightarrow>
     fold_each (\<lambda>i measurement groups.
       and_then (at groups i) (\<lambda>grp.
       and_then (attach_group i measurement grp) (\<lambda>group'.
       Inr (groups[i := group'])))) 0 ms groups =
     map_each (\<lambda>i (m, g). attach_group i m g) 0 (zip ms groups)"
  by (rule fold_each_update) simp_all

lemma attach_group_safe [simp]: "safe (attach_group i m g)"
  by (auto simp: attach_group_def attach_charges_map intro!: safe_intro)

lemma with_physical_measurements_safe [simp]: "safe (with_physical_measurements parse_url p ms)"
  by (auto simp: with_physical_measurements_def Let_def schedule_clone_def attach_groups_map
      intro!: safe_intro)

lemma verify_against_safe [simp]: "safe (verify_against t source)"
  by (auto simp: verify_against_def compile_r0_def Let_def intro!: safe_intro)

lemma verify_schedule_against_safe [simp]: "safe (verify_schedule_against parse_url p source request)"
  by (auto simp: verify_schedule_against_def compile_r0_def Let_def intro!: safe_intro)

section \<open>What a reissued plan carries\<close>

text \<open>Neither digest reads the fields the certificate fills in.\<close>

definition certify :: "schedule_plan \<Rightarrow> schedule_plan" where
  "certify p = p\<lparr>
     sp_certificate := (sp_certificate p)\<lparr>
       sc_issued := True,
       sc_structure_digest := digest_schedule_plan p False,
       sc_full_digest := digest_schedule_plan p True\<rparr>,
     sp_view := (sp_view p)\<lparr>
       sv_request_sha256 := hex_string (sc_request_digest (sp_certificate p)),
       sv_structure_sha256 := hex_string (digest_schedule_plan p False),
       sv_full_plan_sha256 := hex_string (digest_schedule_plan p True)\<rparr>\<rparr>"

lemma certify_simps [simp]:
  "digest_schedule_plan (certify p) b = digest_schedule_plan p b"
  "validate_public parse_url (certify p) = validate_public parse_url p"
  "sp_groups (certify p) = sp_groups p" "sp_schedule (certify p) = sp_schedule p"
  "sp_binary_depth (certify p) = sp_binary_depth p" "sp_group_width (certify p) = sp_group_width p"
  "sp_eligibility (certify p) = sp_eligibility p"
  "sc_request_digest (sp_certificate (certify p)) = sc_request_digest (sp_certificate p)"
  "sc_structure_digest (sp_certificate (certify p)) = digest_schedule_plan p False"
  "sv_source_sha256 (sp_view (certify p)) = sv_source_sha256 (sp_view p)"
  "sv_radix_plan_sha256 (sp_view (certify p)) = sv_radix_plan_sha256 (sp_view p)"
  "sv_structure_sha256 (sp_view (certify p)) = hex_string (digest_schedule_plan p False)"
  by (simp_all add: certify_def digest_schedule_plan_def encode_schedule_plan_def validate_public_def)

lemma reissue_ok [ok_iff]:
  "reissue parse_url p = Inr q \<longleftrightarrow>
     sc_request_digest (sp_certificate p) \<noteq> replicate 32 0 \<and>
     validate_public parse_url p = Inr () \<and> q = certify p"
proof -
  have "validate_public parse_url p = Inr () \<Longrightarrow>
      sv_source_sha256 (sp_view p) \<noteq> '''' \<and> sv_radix_plan_sha256 (sp_view p) \<noteq> ''''"
    by (auto simp: validate_public_def split: if_splits)
  then show ?thesis by (auto simp: reissue_def Let_def certify_def and_then_ok)
qed

lemma certify_valid:
  "validate_public parse_url p = Inr () \<Longrightarrow> schedule_validate parse_url (certify p) = Inr ()"
proof -
  assume "validate_public parse_url p = Inr ()"
  moreover have "sc_issued (sp_certificate (certify p))"
    "sv_request_sha256 (sp_view (certify p)) = hex_string (sc_request_digest (sp_certificate p))"
    "sc_full_digest (sp_certificate (certify p)) = digest_schedule_plan p True"
    "sv_full_plan_sha256 (sp_view (certify p)) = hex_string (digest_schedule_plan p True)"
    by (simp_all add: certify_def)
  ultimately show ?thesis by (simp add: schedule_validate_def)
qed

lemma reissue_valid: "reissue parse_url p = Inr q \<Longrightarrow> schedule_validate parse_url q = Inr ()"
  by (auto simp: reissue_ok certify_valid)

text \<open>A valid plan carries its own structure digest.\<close>

lemma schedule_validate_digest:
  "schedule_validate parse_url p = Inr () \<Longrightarrow>
     sc_structure_digest (sp_certificate p) = digest_schedule_plan p False \<and>
     sv_structure_sha256 (sp_view p) = hex_string (digest_schedule_plan p False) \<and>
     validate_public parse_url p = Inr ()"
  by (auto simp: schedule_validate_def and_then_ok Let_def reject_if_ok split: if_splits)

section \<open>The groups of a compiled plan\<close>

text \<open>
  The levels of a compiled tree tile the depths: a quantity of one level that is the difference
  of a function of its two ends telescopes over all of them.
\<close>

lemma compile_levels_telescope:
  fixes F :: "nat \<Rightarrow> int"
  assumes "\<And>s w. 0 < w \<Longrightarrow> w \<le> g \<Longrightarrow> s + w \<le> D \<Longrightarrow> f (compile_level splits s w) = F (s + w) - F s"
    and "0 < g" and "start \<le> D"
  shows "sum_list (map f (compile_levels splits g D start)) = F D - F start"
  using assms
proof (induction splits g D start rule: compile_levels.induct)
  case (1 splits g D start)
  show ?case
  proof (cases "start < D")
    case False
    with 1 show ?thesis by (subst compile_levels.simps) simp
  next
    case True
    then have levels: "compile_levels splits g D start =
        compile_level splits start (min g (D - start)) # compile_levels splits g D (start + g)"
      using 1 by (subst compile_levels.simps) simp
    show ?thesis
    proof (cases "start + g \<le> D")
      case True
      then have "sum_list (map f (compile_levels splits g D (start + g))) = F D - F (start + g)"
        using "1.IH" \<open>start < D\<close> 1 by blast
      moreover have "f (compile_level splits start g) = F (start + g) - F start"
        using "1.prems"(1) [of g start] "1.prems"(2) True by simp
      ultimately show ?thesis using True \<open>start < D\<close> by (simp add: levels min_absorb1)
    next
      case False
      then have "compile_levels splits g D (start + g) = []" by (subst compile_levels.simps) simp
      moreover have "f (compile_level splits start (D - start)) = F D - F start"
        using "1.prems"(1) [of "D - start" start] False \<open>start < D\<close> by simp
      ultimately show ?thesis using False by (simp add: levels min_absorb2)
    qed
  qed
qed

text \<open>The same induction for the loop of \<^verbatim>\<open>validatePublic\<close> over the groups.\<close>

lemma validate_groups_compiled:
  assumes "\<And>s w. 0 < w \<Longrightarrow> w \<le> g \<Longrightarrow> s + w \<le> D \<Longrightarrow>
      group_validate parse_url schedule (G (compile_level splits s w)) = Inr () \<and>
      gp_start_depth (G (compile_level splits s w)) = int s \<and>
      gp_height (G (compile_level splits s w)) = int w"
    and "0 < g" and "start \<le> D" and "D < 63"
  shows "fold_each (validate_group_at parse_url schedule) i
     (map G (compile_levels splits g D start)) (int start) = Inr (int D)"
  using assms
proof (induction splits g D start arbitrary: i rule: compile_levels.induct)
  case (1 splits g D start)
  have step: "validate_group_at parse_url schedule i (G (compile_level splits start w)) (int start) =
      Inr (int (start + w))" if "0 < w" "w \<le> g" "start + w \<le> D" for w i
  proof -
    have "wrap64 (int start + int w) = int (start + w)"
      using that(3) "1.prems"(4) by (simp add: wrap64_id max_int64_def)
    then show ?thesis using "1.prems"(1) [OF that] by (simp add: validate_group_at_def)
  qed
  show ?case
  proof (cases "start < D")
    case False
    with 1 show ?thesis by (subst compile_levels.simps) simp
  next
    case True
    then have levels: "compile_levels splits g D start =
        compile_level splits start (min g (D - start)) # compile_levels splits g D (start + g)"
      using 1 by (subst compile_levels.simps) simp
    show ?thesis
    proof (cases "start + g \<le> D")
      case le: True
      have "fold_each (validate_group_at parse_url schedule) (Suc i)
          (map G (compile_levels splits g D (start + g))) (int (start + g)) = Inr (int D)"
        by (rule "1.IH") (use True 1 le in auto)
      then show ?thesis using step [of g i] le True 1 by (simp add: levels min_absorb1)
    next
      case False
      then have "compile_levels splits g D (start + g) = []" by (subst compile_levels.simps) simp
      then show ?thesis using step [of "D - start" i] False True by (simp add: levels min_absorb2)
    qed
  qed
qed

section \<open>The group of one level\<close>

lemma unknown_charge_simps [simp]:
  "cc_provenance (unknown_comparator_charge p n) = p"
  "cc_logical_comparisons (unknown_comparator_charge p n) = n"
  "cc_streams (unknown_comparator_charge p n) = not_measured"
  "cc_refreshes (unknown_comparator_charge p n) = not_measured"
  "cc_bootstraps (unknown_comparator_charge p n) = not_measured"
  by (simp_all add: unknown_comparator_charge_def)

lemma unknown_charge_valid [simp]:
  "0 < n \<Longrightarrow> p \<in> {ComparatorCTCT, ComparatorCTPlaintext} \<Longrightarrow>
     charge_validate (unknown_comparator_charge p n) = Inr ()"
proof -
  assume "0 < n" and "p \<in> {ComparatorCTCT, ComparatorCTPlaintext}"
  moreover have "validate_counts ChargeCount (charge_counts (unknown_comparator_charge p n)) = Inr ()"
    by (simp add: charge_counts_ok unknown_comparator_charge_def)
  ultimately show ?thesis
    by (auto simp: charge_validate_def validate_measured_product_def unknown_comparator_charge_def)
qed

lemma unknown_profile_valid [simp]: "profile_validate unknown_physical_profile = Inr ()"
  by (simp add: profile_validate_def ok_iff profile_counts_def unknown_physical_profile_def
      packing_validate_def)

lemma unknown_profile_simps [simp]:
  "pp_comparator_streams unknown_physical_profile = not_measured"
  "pp_refreshes unknown_physical_profile = not_measured"
  "pp_bootstraps unknown_physical_profile = not_measured"
  by (simp_all add: unknown_physical_profile_def)

lemma aggregate_not_measured [simp]:
  "pc_status a \<noteq> MeasurementMeasured \<Longrightarrow> validate_charge_aggregate name a cs b sel = Inr ()"
  by (simp add: validate_charge_aggregate_def)

text \<open>A group whose physical fields are untouched.\<close>

definition unmeasured :: "group_profile \<Rightarrow> bool" where
  "unmeasured g \<longleftrightarrow> gp_dependency_depth g = not_measured \<and> gp_physical g = unknown_physical_profile"

lemma unmeasured_valid: "unmeasured g \<Longrightarrow> group_validate_physical g = Inr ()"
  by (simp add: unmeasured_def group_validate_physical_def)

definition shaped :: "nat \<Rightarrow> nat \<Rightarrow> group_profile \<Rightarrow> bool" where
  "shaped s w g \<longleftrightarrow>
     gp_start_depth g = int s \<and> gp_height g = int w \<and>
     gp_candidate_supernodes g = 2 ^ s \<and> gp_predicates_per_supernode g = 2 ^ w - 1 \<and>
     list_all (\<lambda>x. 0 < x) (gp_feature_selector_widths g) \<and>
     list_all (\<lambda>x. 0 < x) (gp_threshold_selector_widths g) \<and>
     list_all (\<lambda>x. 0 < x) (gp_result_selector_widths g) \<and>
     0 \<le> gp_logical_selector_terms g \<and> 0 < gp_predicate_dependency_rounds g \<and>
     0 \<le> gp_logical_lut_evaluations g"

text \<open>The comparator charges a planner writes, and their total.\<close>

definition planned_charges :: "comparator_charge list \<Rightarrow> int \<Rightarrow> bool" where
  "planned_charges cs k \<longleftrightarrow>
     cs = [] \<and> k = 0 \<or>
     (\<exists>p n. cs = [unknown_comparator_charge p n] \<and> p \<in> {ComparatorCTCT, ComparatorCTPlaintext} \<and>
        0 < n \<and> k = n) \<or>
     (\<exists>n. cs = [unknown_comparator_charge ComparatorCTPlaintext 1,
                unknown_comparator_charge ComparatorCTCT n] \<and> 0 < n \<and> k = 1 + n)"

lemma planned_group_logical:
  assumes "shaped s w g" and "0 < w" and "w \<le> 4" and "s < 63"
    and "planned_charges (gp_comparator_charges g) (gp_logical_comparisons g)"
    and "gp_logical_comparisons g \<le> max_int64"
  shows "group_validate_logical g = Inr ()"
proof -
  have "shift_one (int s) = 2 ^ s" "shift_one (int w) = 2 ^ w"
    using assms(3,4) by (simp_all add: shift_one_small)
  moreover have "fold_each (\<lambda>i charge (seen, total).
      and_then (map_err (GroupCharge i) (charge_validate charge)) (\<lambda>_.
        if cc_provenance charge \<in> set seen
          then err (GroupDuplicateProvenance (cc_provenance charge))
        else Inr (cc_provenance charge # seen, wrap64 (total + cc_logical_comparisons charge))))
      0 (gp_comparator_charges g) ([], 0) =
      Inr (rev (map cc_provenance (gp_comparator_charges g)), gp_logical_comparisons g)"
    using assms(5,6) by (auto simp: planned_charges_def wrap64_id max_int64_def)
  ultimately show ?thesis
    using assms by (auto simp: group_validate_logical_def shaped_def ok_iff list_all_iff_nth
        less_Suc_eq numeral_3_eq_3)
qed

text \<open>The loop of the source-faithful case, after \<^verbatim>\<open>k\<close> of its iterations.\<close>

definition below_root_widths :: "nat \<Rightarrow> nat \<Rightarrow> int list" where
  "below_root_widths s k = map (\<lambda>r. 2 ^ (s + r)) (filter (\<lambda>r. s + r \<noteq> 0) [0..<k])"

lemma below_root_widths_Suc:
  "below_root_widths s (Suc k) = below_root_widths s k @ (if s + k = 0 then [] else [2 ^ (s + k)])"
  by (simp add: below_root_widths_def)

definition source_faithful_step :: "int \<Rightarrow> int \<Rightarrow> group_profile \<Rightarrow> group_profile" where
  "source_faithful_step start relative_depth g =
     (let global_depth = start + relative_depth
      in if global_depth = 0
         then g\<lparr>gp_comparator_charges := gp_comparator_charges g @
                [unknown_comparator_charge ComparatorCTPlaintext 1]\<rparr>
         else let width = 2 ^ nat global_depth
         in g\<lparr>
           gp_feature_selector_widths := gp_feature_selector_widths g @ [width],
           gp_threshold_selector_widths := gp_threshold_selector_widths g @ [width],
           gp_logical_selector_terms := gp_logical_selector_terms g + 2 * width\<rparr>)"

lemma source_faithful_steps:
  "fold (source_faithful_step (int s)) (map int [0..<k]) g = g\<lparr>
     gp_comparator_charges := gp_comparator_charges g @
       (if s = 0 \<and> 0 < k then [unknown_comparator_charge ComparatorCTPlaintext 1] else []),
     gp_feature_selector_widths := gp_feature_selector_widths g @ below_root_widths s k,
     gp_threshold_selector_widths := gp_threshold_selector_widths g @ below_root_widths s k,
     gp_logical_selector_terms := gp_logical_selector_terms g + 2 * sum_list (below_root_widths s k)\<rparr>"
proof (induction k)
  case 0
  then show ?case by (simp add: below_root_widths_def)
next
  case (Suc k)
  have step: "fold (source_faithful_step (int s)) (map int [0..<Suc k]) g =
      source_faithful_step (int s) (int k) (fold (source_faithful_step (int s)) (map int [0..<k]) g)"
    by simp
  show ?case
    unfolding step Suc.IH by (simp add: source_faithful_step_def below_root_widths_Suc nat_add_distrib Let_def)
qed

lemma upto_of_nat: "[0..int w - 1] = map int [0..<w]"
proof (induction w)
  case (Suc w)
  have "[0..int (Suc w) - 1] = [0..int w - 1] @ [int w]"
    by (subst upto_rec2) simp_all
  then show ?case using Suc by simp
qed simp

lemma sum_below_root_widths:
  "sum_list (below_root_widths s k) =
     (if s = 0 then if k = 0 then 0 else 2 ^ k - 2 else 2 ^ (s + k) - 2 ^ s)"
  by (induction k) (auto simp: below_root_widths_Suc, simp_all add: below_root_widths_def)

lemma level_simps [simp]:
  "rl_start_depth (compile_level splits s w) = int s" "rl_width (compile_level splits s w) = int w"
  by (simp_all add: compile_level_def)

lemma source_faithful_group_form:
  "source_faithful_group (compile_level splits s w) = (base_group (compile_level splits s w))\<lparr>
     gp_logical_comparisons := int w,
     gp_predicate_dependency_rounds := int w,
     gp_comparator_charges :=
       (if s = 0 \<and> 0 < w then [unknown_comparator_charge ComparatorCTPlaintext 1] else []) @
       (if (if s = 0 then int w - 1 else int w) > 0
        then [unknown_comparator_charge ComparatorCTCT (if s = 0 then int w - 1 else int w)] else []),
     gp_feature_selector_widths := below_root_widths s w,
     gp_threshold_selector_widths := below_root_widths s w,
     gp_logical_selector_terms := 2 * sum_list (below_root_widths s w)\<rparr>"
proof -
  note steps = source_faithful_steps [of s w, folded upto_of_nat, unfolded source_faithful_step_def]
  show ?thesis
    by (simp only: source_faithful_group_def Let_def level_simps steps [unfolded Let_def])
      (simp add: base_group_def)
qed

text \<open>The four schedules without fused look-up tables, and the group each builds.\<close>

definition standard_schedules :: "r0_schedule list" where
  "standard_schedules =
     [R0SequentialSourceFaithfulOBO, R0SequentialActiveCTCT, R0EagerActiveCTCT, R0EagerAllCTPT]"

definition standard_group :: "r0_schedule \<Rightarrow> radix_level \<Rightarrow> group_profile" where
  "standard_group schedule =
     (if schedule = R0SequentialSourceFaithfulOBO then source_faithful_group
      else if schedule = R0SequentialActiveCTCT then sequential_active_group
      else if schedule = R0EagerActiveCTCT then eager_active_group
      else eager_all_group)"

lemma standard_not_fused: "schedule \<in> set standard_schedules \<Longrightarrow> schedule \<noteq> R0StateAwareFusedLUT"
  by (auto simp: standard_schedules_def)

lemma plan_group_standard:
  "schedule \<in> set standard_schedules \<Longrightarrow>
     plan_group \<lparr>rq_schedule = schedule, rq_fused_lut = f\<rparr> level = Inr (standard_group schedule level)"
  by (auto simp: plan_group_def standard_group_def standard_schedules_def)

lemma fold_add_widths: "fold (\<lambda>width terms. terms + 2 * width) ws (a :: int) = a + 2 * sum_list ws"
  by (induction ws arbitrary: a) simp_all

lemma sum_powers_from: "sum_list (map (\<lambda>r. 2 ^ (s + r)) [0..<w]) = (2 ^ (s + w) - 2 ^ s :: int)"
  by (induction w) simp_all

lemma sequential_active_group_form:
  "sequential_active_group (compile_level splits s w) = (base_group (compile_level splits s w))\<lparr>
     gp_logical_comparisons := int w,
     gp_comparator_charges := [unknown_comparator_charge ComparatorCTCT (int w)],
     gp_feature_selector_widths := map (\<lambda>r. 2 ^ (s + r)) [0..<w],
     gp_threshold_selector_widths := map (\<lambda>r. 2 ^ (s + r)) [0..<w],
     gp_predicate_dependency_rounds := int w,
     gp_logical_selector_terms := 2 ^ (s + w + 1) - 2 ^ (s + 1)\<rparr>"
  by (simp add: sequential_active_group_def upto_of_nat comp_def nat_add_distrib Let_def
      fold_add_widths sum_powers_from right_diff_distrib)

lemma eager_active_group_form:
  "eager_active_group (compile_level splits s w) = (base_group (compile_level splits s w))\<lparr>
     gp_logical_comparisons := 2 ^ w - 1,
     gp_comparator_charges := [unknown_comparator_charge ComparatorCTCT (2 ^ w - 1)],
     gp_feature_selector_widths := replicate (2 ^ w - 1) (2 ^ s),
     gp_threshold_selector_widths := replicate (2 ^ w - 1) (2 ^ s),
     gp_predicate_dependency_rounds := 1,
     gp_logical_selector_terms := 2 ^ (s + w + 1) - 2 ^ (s + 1)\<rparr>"
proof -
  have count: "nat (2 ^ w - 1) = 2 ^ w - 1" by (simp add: nat_diff_distrib nat_power_eq)
  have "fold (\<lambda>width terms. terms + 2 * width) (replicate (2 ^ w - 1) (2 ^ s)) 0 =
      (2 ^ (s + w + 1) - 2 ^ (s + 1) :: int)"
    unfolding fold_add_widths sum_list_replicate
    by (simp add: of_nat_diff power_add right_diff_distrib left_diff_distrib)
  then show ?thesis
    unfolding eager_active_group_def by (simp add: base_group_def count Let_def)
qed

lemma eager_all_group_form:
  "eager_all_group (compile_level splits s w) = (base_group (compile_level splits s w))\<lparr>
     gp_logical_comparisons := 2 ^ (s + w) - 2 ^ s,
     gp_comparator_charges := [unknown_comparator_charge ComparatorCTPlaintext (2 ^ (s + w) - 2 ^ s)],
     gp_result_selector_widths := [2 ^ s],
     gp_logical_selector_terms := 2 ^ s,
     gp_predicate_dependency_rounds := 1\<rparr>"
  by (simp add: eager_all_group_def base_group_def power_add right_diff_distrib Let_def)

lemmas group_forms =
  source_faithful_group_form sequential_active_group_form eager_active_group_form
  eager_all_group_form

lemma base_group_simps [simp]:
  "gp_start_depth (base_group (compile_level splits s w)) = int s"
  "gp_height (base_group (compile_level splits s w)) = int w"
  "gp_candidate_supernodes (base_group (compile_level splits s w)) = 2 ^ s"
  "gp_predicates_per_supernode (base_group (compile_level splits s w)) = 2 ^ w - 1"
  "gp_comparator_charges (base_group l) = []" "gp_result_selector_widths (base_group l) = []"
  "gp_feature_selector_widths (base_group l) = []" "gp_threshold_selector_widths (base_group l) = []"
  "gp_logical_lut_evaluations (base_group l) = 0" "gp_dependency_depth (base_group l) = not_measured"
  "gp_physical (base_group l) = unknown_physical_profile" "gp_equivalence_proof (base_group l) = None"
  "gp_equivalence_proof_status (base_group l) = ''''" "gp_fused_lut_strategy (base_group l) = ''''"
  by (simp_all add: base_group_def)

lemma positive_widths: "list_all (\<lambda>x. 0 < x) (below_root_widths s k)"
  by (simp add: below_root_widths_def list_all_iff)

lemma standard_group_valid:
  assumes "schedule \<in> set standard_schedules" and "0 < w" and "w \<le> 4" and "s + w < 63"
  shows "group_validate parse_url schedule (standard_group schedule (compile_level splits s w)) = Inr () \<and>
     gp_start_depth (standard_group schedule (compile_level splits s w)) = int s \<and>
     gp_height (standard_group schedule (compile_level splits s w)) = int w"
proof -
  let ?g = "standard_group schedule (compile_level splits s w)"
  have lt: "(2::int) ^ s < 2 ^ (s + w)" "(1::int) < 2 ^ w" and "(2::int) ^ (s + w) \<le> 2 ^ 62"
    and "(2::int) ^ w \<le> 2 ^ 4"
    using assms(2-4) power_strict_increasing [of s "s + w" "2::int"] one_less_power [of "2::int" w]
      power_increasing [of "s + w" 62 "2::int"] power_increasing [of w 4 "2::int"] by simp_all
  then have bound: "(2::int) ^ (s + w) \<le> max_int64" "(2::int) ^ w \<le> max_int64"
    by (simp_all add: max_int64_def)
  have two: "(2::int) \<le> 2 ^ w" using assms(2) power_increasing [of 1 w "2::int"] by simp
  have "shaped s w ?g"
    using assms lt two positive_widths [of s w]
    by (auto simp: shaped_def standard_group_def standard_schedules_def group_forms
        list_all_iff sum_below_root_widths)
  moreover have "planned_charges (gp_comparator_charges ?g) (gp_logical_comparisons ?g)"
  proof -
    have "w = Suc 0 \<or> Suc 0 < w" using assms(2) by auto
    then show ?thesis
      using assms lt
      by (auto simp: planned_charges_def standard_group_def standard_schedules_def group_forms)
  qed
  moreover have "gp_logical_comparisons ?g \<le> max_int64"
  proof -
    have "int w \<le> max_int64" using assms(3) by (simp add: max_int64_def)
    moreover have "2 ^ (s + w) - 2 ^ s \<le> max_int64"
      using bound(1) zero_le_power [of "2::int" s] by linarith
    ultimately show ?thesis
      using assms(1) bound by (auto simp: standard_group_def standard_schedules_def group_forms)
  qed
  ultimately have "group_validate_logical ?g = Inr ()"
    using planned_group_logical assms(2-4) by auto
  moreover have "unmeasured ?g" "group_validate_evidence parse_url schedule ?g = Inr ()"
    using assms(1) standard_not_fused [OF assms(1)]
    by (auto simp: unmeasured_def group_validate_evidence_def standard_group_def
        standard_schedules_def group_forms)
  ultimately show ?thesis
    using \<open>shaped s w ?g\<close> by (simp add: group_validate_def unmeasured_valid shaped_def)
qed

section \<open>The plan of a compiled tree\<close>

text \<open>The plan \<^verbatim>\<open>PlanSchedule\<close> hands to \<^verbatim>\<open>issue\<close>, with the digest of its request.\<close>

definition schedule_draft :: "radix_tree \<Rightarrow> r0_schedule_request \<Rightarrow> group_profile list \<Rightarrow> schedule_plan" where
  "schedule_draft t request groups = \<lparr>
     sp_schedule = rq_schedule request,
     sp_binary_depth = rt_binary_depth t,
     sp_group_width = rt_group_width t,
     sp_eligibility = (if rq_schedule request = R0StateAwareFusedLUT
       then BenchmarkIneligibleExternalProofUnverified
       else BenchmarkPendingPhysicalMeasurement),
     sp_view = \<lparr>
       sv_source_sha256 = hex_string (rc_source_digest (rt_certificate t)),
       sv_radix_plan_sha256 = hex_string (rc_plan_digest (rt_certificate t)),
       sv_request_sha256 = '''', sv_structure_sha256 = '''', sv_full_plan_sha256 = ''''\<rparr>,
     sp_groups = groups,
     sp_certificate = \<lparr>
       sc_issued = False,
       sc_request_digest = digest_schedule_request request,
       sc_structure_digest = replicate 32 0,
       sc_full_digest = replicate 32 0\<rparr>\<rparr>"

lemma plan_schedule_ok:
  "plan_schedule parse_url t request = Inr p \<longleftrightarrow>
     radix_validate t = Inr () \<and> check_request parse_url t request = Inr () \<and>
     (\<exists>groups. map_each (\<lambda>_ level. plan_group request level) 0 (rt_levels t) = Inr groups \<and>
        reissue parse_url (schedule_draft t request groups) = Inr p)"
  by (auto simp: plan_schedule_def issue_def schedule_draft_def certificate_view_def
      and_then_ok map_err_ok)

lemma schedule_draft_simps [simp]:
  "sp_groups (schedule_draft t request groups) = groups"
  "sp_binary_depth (schedule_draft t request groups) = rt_binary_depth t"
  "sp_group_width (schedule_draft t request groups) = rt_group_width t"
  "sp_schedule (schedule_draft t request groups) = rq_schedule request"
  "sc_request_digest (sp_certificate (schedule_draft t request groups)) = digest_schedule_request request"
  by (simp_all add: schedule_draft_def)

lemma hex_string_nonempty: "b \<noteq> [] \<Longrightarrow> hex_string b \<noteq> ''''"
  by (cases b) (simp_all add: hex_string_def)

lemma compiled_digests_nonempty:
  "compile_r0 tree g = Inr t \<Longrightarrow>
     hex_string (rc_source_digest (rt_certificate t)) \<noteq> '''' \<and>
     hex_string (rc_plan_digest (rt_certificate t)) \<noteq> ''''"
proof -
  have "sha256 m \<noteq> []" for m by (metis length_sha256 list.size(3) zero_neq_numeral)
  then show "compile_r0 tree g = Inr t \<Longrightarrow> ?thesis"
    by (auto simp: compile_r0_ok digest_binary_tree_def digest_radix_plan_def intro!: hex_string_nonempty)
qed

lemma compile_levels_nonempty: "0 < g \<Longrightarrow> s < D \<Longrightarrow> compile_levels splits g D s \<noteq> []"
  by (subst compile_levels.simps) simp

lemma compile_levels_empty: "\<not> s < D \<Longrightarrow> compile_levels splits g D s = []"
  by (subst compile_levels.simps) simp

lemma standard_draft_valid:
  assumes "compile_r0 tree g = Inr t" and "schedule \<in> set standard_schedules"
  shows "validate_public parse_url
     (schedule_draft t \<lparr>rq_schedule = schedule, rq_fused_lut = None\<rparr>
       (map (standard_group schedule) (rt_levels t))) = Inr ()"
proof -
  define D where "D = nat (bt_depth tree)"
  have g: "1 \<le> g" "g \<le> 4" and t: "rt_binary_depth t = int D" "rt_group_width t = g"
    "rt_levels t = compile_levels (bt_splits tree) (nat g) D 0" and D: "D < 63"
    using assms(1) by (auto simp: compile_r0_ok binary_wf_def D_def)
  have groups: "fold_each (validate_group_at parse_url schedule) 0
      (map (standard_group schedule) (compile_levels (bt_splits tree) (nat g) D 0)) (int 0) = Inr (int D)"
    by (rule validate_groups_compiled, rule standard_group_valid) (use assms(2) g D in auto)
  have "rt_levels t = [] \<longleftrightarrow> D = 0"
    using g compile_levels_nonempty [of "nat g" 0 D] compile_levels_empty [of 0 D]
    by (auto simp: t)
  then show ?thesis
    using groups g t compiled_digests_nonempty [OF assms(1)] standard_not_fused [OF assms(2)]
    by (cases "D = 0") (simp_all add: validate_public_def schedule_draft_def)
qed

lemma plan_schedule_standard:
  assumes "compile_r0 tree g = Inr t" and "schedule \<in> set standard_schedules"
  shows "plan_schedule parse_url t \<lparr>rq_schedule = schedule, rq_fused_lut = None\<rparr> =
     (if digest_schedule_request \<lparr>rq_schedule = schedule, rq_fused_lut = None\<rparr> = replicate 32 0
      then err LacksRequestBinding
      else Inr (certify (schedule_draft t \<lparr>rq_schedule = schedule, rq_fused_lut = None\<rparr>
        (map (standard_group schedule) (rt_levels t)))))"
proof -
  let ?rq = "\<lparr>rq_schedule = schedule, rq_fused_lut = None\<rparr>"
  let ?draft = "schedule_draft t ?rq (map (standard_group schedule) (rt_levels t))"
  have check: "check_request parse_url t ?rq = Inr ()"
    using assms(2) by (auto simp: check_request_def standard_schedules_def)
  have groups: "map_each (\<lambda>_ level. plan_group ?rq level) 0 (rt_levels t) =
      Inr (map (standard_group schedule) (rt_levels t))"
    by (rule map_each_all_ok) (rule plan_group_standard [OF assms(2)])
  have cert: "certificate_view t = Inr \<lparr>
      rv_source_sha256 = hex_string (rc_source_digest (rt_certificate t)),
      rv_plan_sha256 = hex_string (rc_plan_digest (rt_certificate t))\<rparr>"
    using compile_r0_valid [OF assms(1)] by (simp add: certificate_view_def)
  have "plan_schedule parse_url t ?rq = reissue parse_url ?draft"
    using compile_r0_valid [OF assms(1)] check groups cert
    by (simp add: plan_schedule_def issue_def schedule_draft_def)
  moreover have "sv_source_sha256 (sp_view ?draft) \<noteq> ''''" "sv_radix_plan_sha256 (sp_view ?draft) \<noteq> ''''"
    using compiled_digests_nonempty [OF assms(1)] by (simp_all add: schedule_draft_def)
  ultimately show ?thesis
    using standard_draft_valid [OF assms, of parse_url]
    by (simp add: reissue_def Let_def certify_def)
qed

section \<open>Logical totals\<close>

lemma fold_sum: "fold (\<lambda>x n. n + f x) xs (a :: int) = a + sum_list (map f xs)"
  by (induction xs arbitrary: a) simp_all

text \<open>Sums over the levels of a quantity of the width, and of the start depth.\<close>

lemma sum_level_widths:
  fixes f :: "int \<Rightarrow> int"
  assumes "0 < g" and "start \<le> D"
  shows "sum_list (map (\<lambda>l. f (rl_width l)) (compile_levels splits g D start)) =
     int ((D - start) div g) * f (int g) + (if (D - start) mod g = 0 then 0 else f (int ((D - start) mod g)))"
  using assms
proof (induction splits g D start rule: compile_levels.induct)
  case (1 splits g D start)
  show ?case
  proof (cases "start < D")
    case False
    with 1 show ?thesis by (simp add: compile_levels_empty)
  next
    case True
    then have levels: "compile_levels splits g D start =
        compile_level splits start (min g (D - start)) # compile_levels splits g D (start + g)"
      using 1 by (subst compile_levels.simps) simp
    show ?thesis
    proof (cases "start + g \<le> D")
      case le: True
      then have n: "(D - start) div g = Suc ((D - (start + g)) div g)"
        "(D - start) mod g = (D - (start + g)) mod g"
        using "1.prems"(1) by (simp_all add: le_div_geq le_mod_geq)
      show ?thesis
        using "1.IH" True "1.prems"(1) le unfolding n levels by (simp add: min_absorb1 algebra_simps)
    next
      case False
      then show ?thesis using True by (simp add: levels compile_levels_empty min_absorb2)
    qed
  qed
qed

lemma sum_level_starts:
  assumes "0 < g" and "start \<le> D"
  shows "sum_list (map (\<lambda>l. 2 ^ nat (rl_start_depth l)) (compile_levels splits g D start)) =
     (\<Sum>i < (D - start + g - 1) div g. 2 ^ (start + i * g) :: int)"
  using assms
proof (induction splits g D start rule: compile_levels.induct)
  case (1 splits g D start)
  show ?case
  proof (cases "start < D")
    case False
    with 1 show ?thesis by (simp add: compile_levels_empty)
  next
    case True
    then have levels: "compile_levels splits g D start =
        compile_level splits start (min g (D - start)) # compile_levels splits g D (start + g)"
      using 1 by (subst compile_levels.simps) simp
    define n where "n = (D - (start + g) + g - 1) div g"
    have n: "(D - start + g - 1) div g = Suc n"
    proof (cases "start + g \<le> D")
      case True
      then have eq: "D - start + g - 1 = (D - (start + g) + g - 1) + g" using 1 by simp
      show ?thesis unfolding eq n_def by (rule div_add_self2 [THEN trans]) (use "1.prems"(1) in simp_all)
    next
      case False
      then show ?thesis using True "1.prems"(1) by (simp add: n_def le_div_geq)
    qed
    have "sum_list (map (\<lambda>l. 2 ^ nat (rl_start_depth l)) (compile_levels splits g D (start + g))) =
        (\<Sum>i < n. 2 ^ (start + g + i * g) :: int)"
    proof (cases "start + g \<le> D")
      case le: True
      then show ?thesis using "1.IH" True "1.prems"(1) by (simp add: n_def)
    next
      case False
      then show ?thesis using "1.prems"(1) by (simp add: compile_levels_empty n_def)
    qed
    then show ?thesis
      unfolding n levels sum.lessThan_Suc_shift by (simp add: algebra_simps)
  qed
qed

lemma length_levels:
  assumes "0 < g"
  shows "length (compile_levels splits g D 0) = (D + g - 1) div g"
proof -
  have "int (length (compile_levels splits g D 0)) =
      int (D div g) + (if D mod g = 0 then 0 else 1)"
    using sum_level_widths [of g 0 D "\<lambda>_. 1" splits] assms by (simp add: sum_list_triv)
  then have "length (compile_levels splits g D 0) = D div g + (if D mod g = 0 then 0 else 1)"
    by (simp split: if_splits)
  also have "\<dots> = (D + g - 1) div g"
  proof (cases "D mod g = 0")
    case True
    then obtain k where D: "D = g * k" by (auto simp: mod_eq_0_iff_dvd elim: dvdE)
    have "D + g - 1 = (g - 1) + k * g" using assms by (simp add: D mult.commute)
    moreover have "((g - 1) + k * g) div g = k" using assms by (subst div_mult_self1) simp_all
    ultimately have "(D + g - 1) div g = k" by simp
    then show ?thesis using True assms by (simp add: D)
  next
    case False
    then obtain r where r: "D mod g = Suc r" by (cases "D mod g") auto
    define q where "q = D div g"
    have "D = q * g + Suc r" using div_mult_mod_eq [of D g] r by (simp add: q_def)
    then have "D + g - 1 = r + (q + 1) * g" by simp
    moreover have "(r + (q + 1) * g) div g = q + 1"
      using assms mod_less_divisor [of g D] r by (subst div_mult_self1) simp_all
    ultimately have "(D + g - 1) div g = q + 1" by simp
    then show ?thesis using False by (simp add: q_def)
  qed
  finally show ?thesis .
qed

end
