(* ===== verification/ScheduleProps.thy ===== *)
theory ScheduleProps
  imports ScheduleFacts
begin

text \<open>
  The properties of schedule planning: closed forms of the cost view, issued plans validate and
  verify, attached measurements change nothing the plan was issued for, fused schedules never
  claim eligibility, and no operation panics.
\<close>

section \<open>The cost view in closed form\<close>

definition rounds_of :: "nat \<Rightarrow> nat \<Rightarrow> nat" where
  "rounds_of D g = (D + g - 1) div g"

definition uniform_sum :: "(nat \<Rightarrow> int) \<Rightarrow> nat \<Rightarrow> nat \<Rightarrow> int" where
  "uniform_sum f D g = int (D div g) * f g + (if D mod g = 0 then 0 else f (D mod g))"

definition expected_metrics :: "r0_schedule \<Rightarrow> nat \<Rightarrow> nat \<Rightarrow> int \<Rightarrow> cost_vector" where
  "expected_metrics schedule D g leaves =
     (let sequential = (schedule = R0SequentialSourceFaithfulOBO \<or> schedule = R0SequentialActiveCTCT);
          comparisons = (if sequential then int D
            else if schedule = R0EagerActiveCTCT then uniform_sum (\<lambda>w. 2 ^ w - 1) D g
            else 2 ^ D - 1)
      in \<lparr>
        cv_threshold_comparisons = comparisons,
        cv_branch_bits = comparisons,
        cv_structural_rounds = int (rounds_of D g),
        cv_depth = (if sequential then int D else int (rounds_of D g)),
        cv_depth_status = LogicalMetricPredicateLowerBound,
        cv_one_hot_states = (if sequential then 2 * int D else uniform_sum (\<lambda>w. 2 ^ w) D g),
        cv_selector_terms =
          (if schedule = R0SequentialSourceFaithfulOBO then if D = 0 then 0 else 2 ^ (D + 1) - 4
           else if schedule = R0EagerAllCTPT then \<Sum>i < rounds_of D g. 2 ^ (i * g)
           else 2 ^ (D + 1) - 2),
        cv_logical_bootstraps = 0,
        cv_logical_bootstraps_status = LogicalMetricNotDerived,
        cv_rotations = \<lparr>
          rc_expression = ''not_measured; see R0SchedulePlan.Groups'',
          rc_data_dependent_allowed = False,
          rc_constraint = encrypted_index_constraint\<rparr>,
        cv_leaf_terms = leaves,
        cv_execution_schedule = schedule,
        cv_eligibility_constraint = (if sequential
          then ''predicate-stage lower bound only; end-to-end depth and every physical HE field are not_measured''
          else ''logical lower bound only; digit/path graph and every physical HE field must be reported by the backend'')\<rparr>)"

lemma sum_levels_nat:
  fixes f :: "nat \<Rightarrow> int"
  shows "0 < g \<Longrightarrow> sum_list (map (\<lambda>l. f (nat (rl_width l))) (compile_levels splits g D 0)) = uniform_sum f D g"
  using sum_level_widths [of g 0 D "\<lambda>z. f (nat z)" splits] by (simp add: uniform_sum_def)

lemma sum_map_cong_levels:
  assumes "\<And>s w. f (compile_level splits s w) = (h (compile_level splits s w) :: int)"
  shows "sum_list (map f (compile_levels splits g D 0)) = sum_list (map h (compile_levels splits g D 0))"
  by (rule arg_cong [where f = sum_list], rule map_cong) (auto dest!: compile_levels_form simp: assms)

lemma total_comparisons:
  assumes g: "0 < g" and s: "schedule \<in> set standard_schedules"
  shows "sum_list (map (\<lambda>l. gp_logical_comparisons (standard_group schedule l)) (compile_levels splits g D 0)) =
     (if schedule = R0SequentialSourceFaithfulOBO \<or> schedule = R0SequentialActiveCTCT then int D
      else if schedule = R0EagerActiveCTCT then uniform_sum (\<lambda>w. 2 ^ w - 1) D g else 2 ^ D - 1)"
proof -
  consider "schedule = R0SequentialSourceFaithfulOBO \<or> schedule = R0SequentialActiveCTCT"
    | "schedule = R0EagerActiveCTCT" | "schedule = R0EagerAllCTPT"
    using s by (auto simp: standard_schedules_def)
  then show ?thesis
  proof cases
    case 1
    have "sum_list (map (\<lambda>l. gp_logical_comparisons (standard_group schedule l))
        (compile_levels splits g D 0)) = int D - int 0"
      by (rule compile_levels_telescope) (use 1 g in \<open>auto simp: standard_group_def group_forms\<close>)
    with 1 show ?thesis by simp
  next
    case 2
    have "sum_list (map (\<lambda>l. gp_logical_comparisons (standard_group schedule l))
        (compile_levels splits g D 0)) =
        sum_list (map (\<lambda>l. (\<lambda>w. 2 ^ w - 1) (nat (rl_width l))) (compile_levels splits g D 0))"
      by (rule sum_map_cong_levels) (simp add: 2 standard_group_def group_forms)
    with 2 show ?thesis using sum_levels_nat [OF g, of "\<lambda>w. 2 ^ w - 1" splits D] by simp
  next
    case 3
    have "sum_list (map (\<lambda>l. gp_logical_comparisons (standard_group schedule l))
        (compile_levels splits g D 0)) = 2 ^ D - 2 ^ 0"
      by (rule compile_levels_telescope) (use 3 g in \<open>auto simp: standard_group_def group_forms\<close>)
    with 3 show ?thesis by simp
  qed
qed

lemma total_selectors:
  assumes g: "0 < g" and s: "schedule \<in> set standard_schedules"
  shows "sum_list (map (\<lambda>l. gp_logical_selector_terms (standard_group schedule l)) (compile_levels splits g D 0)) =
     (if schedule = R0SequentialSourceFaithfulOBO then if D = 0 then 0 else 2 ^ (D + 1) - 4
      else if schedule = R0EagerAllCTPT then \<Sum>i < rounds_of D g. 2 ^ (i * g)
      else 2 ^ (D + 1) - 2)"
proof -
  consider "schedule = R0SequentialSourceFaithfulOBO"
    | "schedule = R0SequentialActiveCTCT \<or> schedule = R0EagerActiveCTCT" | "schedule = R0EagerAllCTPT"
    using s by (auto simp: standard_schedules_def)
  then show ?thesis
  proof cases
    case 1
    let ?F = "\<lambda>n. if n = 0 then 0 else 2 ^ (n + 1) - 4 :: int"
    have "sum_list (map (\<lambda>l. gp_logical_selector_terms (standard_group schedule l))
        (compile_levels splits g D 0)) = ?F D - ?F 0"
      by (rule compile_levels_telescope)
        (use 1 g in \<open>auto simp: standard_group_def group_forms sum_below_root_widths power_add\<close>)
    with 1 show ?thesis by simp
  next
    case 2
    have "sum_list (map (\<lambda>l. gp_logical_selector_terms (standard_group schedule l))
        (compile_levels splits g D 0)) = 2 ^ (D + 1) - 2 ^ (0 + 1)"
      by (rule compile_levels_telescope) (use 2 g in \<open>auto simp: standard_group_def group_forms\<close>)
    with 2 show ?thesis by auto
  next
    case 3
    have "sum_list (map (\<lambda>l. gp_logical_selector_terms (standard_group schedule l))
        (compile_levels splits g D 0)) =
        sum_list (map (\<lambda>l. 2 ^ nat (rl_start_depth l)) (compile_levels splits g D 0))"
      by (rule sum_map_cong_levels) (simp add: 3 standard_group_def group_forms)
    with 3 show ?thesis using sum_level_starts [OF g, of 0 D splits] by (simp add: rounds_of_def)
  qed
qed

lemma total_rounds:
  assumes g: "0 < g" and s: "schedule \<in> set standard_schedules"
  shows "sum_list (map (\<lambda>l. gp_predicate_dependency_rounds (standard_group schedule l)) (compile_levels splits g D 0)) =
     (if schedule = R0SequentialSourceFaithfulOBO \<or> schedule = R0SequentialActiveCTCT then int D
      else int (rounds_of D g))"
proof (cases "schedule = R0SequentialSourceFaithfulOBO \<or> schedule = R0SequentialActiveCTCT")
  case True
  have "sum_list (map (\<lambda>l. gp_predicate_dependency_rounds (standard_group schedule l))
      (compile_levels splits g D 0)) = int D - int 0"
    by (rule compile_levels_telescope) (use True g in \<open>auto simp: standard_group_def group_forms\<close>)
  with True show ?thesis by simp
next
  case False
  have "sum_list (map (\<lambda>l. gp_predicate_dependency_rounds (standard_group schedule l))
      (compile_levels splits g D 0)) = sum_list (map (\<lambda>l. 1) (compile_levels splits g D 0))"
    by (rule sum_map_cong_levels)
      (use False s in \<open>auto simp: standard_group_def standard_schedules_def group_forms\<close>)
  with False show ?thesis by (simp add: sum_list_triv length_levels [OF g] rounds_of_def)
qed

text \<open>
  C19. The cost view of a compiled tree in closed form, for each of the four schedules without
  fused tables: comparisons, selector terms, dependency rounds and one-hot states are the
  stated functions of the depth and the group width. The only failure left is a request whose
  SHA-256 digest is zero, which the certificate uses to mean absent.
\<close>

theorem metrics_for_schedule_closed_form:
  assumes "compile_r0 tree group_width = Inr t" and "schedule \<in> set standard_schedules"
  shows "metrics_for_schedule parse_url t schedule =
     (if digest_schedule_request \<lparr>rq_schedule = schedule, rq_fused_lut = None\<rparr> = replicate 32 0
      then err LacksRequestBinding
      else Inr (expected_metrics schedule (nat (bt_depth tree)) (nat group_width)
        (int (length (bt_leaves tree)))))"
proof -
  define D where "D = nat (bt_depth tree)"
  have g: "0 < nat group_width" and t: "rt_binary_depth t = int D" "rt_leaves t = bt_leaves tree"
    "rt_levels t = compile_levels (bt_splits tree) (nat group_width) D 0"
    using assms(1) by (auto simp: compile_r0_ok binary_wf_def D_def)
  note totals = total_comparisons [OF g assms(2)] total_selectors [OF g assms(2)] total_rounds [OF g assms(2)]
  show ?thesis
    using assms(2)
    by (auto simp: metrics_for_schedule_def plan_schedule_standard [OF assms] fold_sum comp_def t
        totals length_levels [OF g] rounds_of_def sum_levels_nat [OF g] expected_metrics_def
        standard_schedules_def Let_def D_def [symmetric])
qed

theorem metrics_for_schedule_closed_form_witness:
  "\<exists>t. compile_r0 sample_tree 1 = Inr t \<and>
     (metrics_for_schedule (\<lambda>_. None) t R0EagerAllCTPT = err LacksRequestBinding \<or>
      metrics_for_schedule (\<lambda>_. None) t R0EagerAllCTPT = Inr (expected_metrics R0EagerAllCTPT 1 1 2))"
proof (rule sample_compiles)
  fix t assume t: "compile_r0 sample_tree 1 = Inr t"
  have "R0EagerAllCTPT \<in> set standard_schedules" by (simp add: standard_schedules_def)
  from metrics_for_schedule_closed_form [OF t this, of "\<lambda>_. None"] t show ?thesis
    by (auto simp: sample_tree_def split: if_splits)
qed

section \<open>Issued plans\<close>

text \<open>Only the logical part of a group enters the structure digest.\<close>

definition logical_charge :: "comparator_charge \<Rightarrow> string \<times> int" where
  "logical_charge c = (cc_provenance c, cc_logical_comparisons c)"

definition logical_group :: "group_profile \<Rightarrow> group_profile \<times> (string \<times> int) list" where
  "logical_group g =
     (g\<lparr>gp_comparator_charges := [], gp_dependency_depth := not_measured,
        gp_physical := unknown_physical_profile\<rparr>, map logical_charge (gp_comparator_charges g))"

lemma write_charge_logical:
  "logical_charge c = logical_charge d \<Longrightarrow> write_charge False e c = write_charge False e d"
  by (simp add: logical_charge_def write_charge_def)

lemma fold_cong_map:
  assumes "\<And>e x y. f x = f y \<Longrightarrow> w e x = w e y"
  shows "map f xs = map f ys \<Longrightarrow> fold (\<lambda>x e'. w e' x) xs e = fold (\<lambda>x e'. w e' x) ys e"
proof (induction xs arbitrary: ys e)
  case Nil
  then show ?case by simp
next
  case (Cons x xs)
  then obtain y zs where ys: "ys = y # zs" "f x = f y" "map f xs = map f zs" by (cases ys) auto
  show ?case using Cons.IH [OF ys(3)] assms [OF ys(2)] by (simp add: ys(1))
qed

lemma write_slice_cong_map:
  assumes "map f xs = map f ys" and "\<And>e x y. f x = f y \<Longrightarrow> w e x = w e y"
  shows "write_slice w e xs = write_slice w e ys"
  using map_eq_imp_length_eq [OF assms(1)] fold_cong_map [OF assms(2) assms(1)]
  by (simp add: write_slice_def)

lemma write_group_logical:
  assumes "logical_group g = logical_group h"
  shows "write_group False e g = write_group False e h"
proof -
  have "write_slice (write_charge False) e (gp_comparator_charges g) =
      write_slice (write_charge False) e (gp_comparator_charges h)" for e
    using assms by (intro write_slice_cong_map [where f = logical_charge] write_charge_logical)
      (simp_all add: logical_group_def)
  then show ?thesis
    using assms by (cases g; cases h) (simp add: logical_group_def write_group_def Let_def)
qed

lemma structure_digest_logical:
  assumes "map logical_group groups = map logical_group (sp_groups p)"
  shows "digest_schedule_plan (p\<lparr>sp_groups := groups\<rparr>) False = digest_schedule_plan p False"
proof -
  have "write_slice (write_group False) e groups = write_slice (write_group False) e (sp_groups p)" for e
    by (rule write_slice_cong_map [OF assms]) (rule write_group_logical)
  then show ?thesis by (simp add: digest_schedule_plan_def encode_schedule_plan_def Let_def)
qed

text \<open>The observation a charge carries.\<close>

definition observed_charge :: "comparator_charge \<Rightarrow> comparator_observation" where
  "observed_charge c = \<lparr>co_provenance = cc_provenance c, co_streams_per_comparison = cc_streams_per_comparison c,
     co_streams = cc_streams c, co_refreshes_per_stream = cc_refreshes_per_stream c,
     co_bootstraps_per_stream = cc_bootstraps_per_stream c, co_refreshes = cc_refreshes c,
     co_bootstraps = cc_bootstraps c\<rparr>"

lemma attach_observation_observed: "attach_observation i j ob c = Inr c' \<Longrightarrow> observed_charge c' = ob"
  by (auto simp: attach_observation_def observed_charge_def and_then_ok map_err_ok split: if_splits)

lemma attach_observation_logical:
  "attach_observation i j ob c = Inr c' \<Longrightarrow> logical_charge c' = logical_charge c"
  by (auto simp: attach_observation_def logical_charge_def and_then_ok map_err_ok split: if_splits)

lemma map_each_zip_keeps:
  assumes "map_each (\<lambda>j (x, s). f j x s) 0 (zip xs ss) = Inr ys" and "length xs = length ss"
    and "\<And>j x s s'. f j x s = Inr s' \<Longrightarrow> h s' = h s"
  shows "map h ys = map h ss"
proof (rule nth_equalityI)
  show "length (map h ys) = length (map h ss)" using assms(1,2) by (simp add: map_each_ok)
  fix j assume "j < length (map h ys)"
  then have j: "j < length ss" and "f j (xs ! j) (ss ! j) = Inr (ys ! j)"
    using assms(1,2) by (simp_all add: map_each_ok)
  then have "h (ys ! j) = h (ss ! j)" by (intro assms(3))
  with j show "map h ys ! j = map h ss ! j" using assms(1,2) by (simp add: map_each_ok)
qed

lemma attach_group_logical:
  assumes "attach_group i m g = Inr g'"
  shows "logical_group g' = logical_group g \<and> gp_physical g' = gm_physical m \<and>
     gp_dependency_depth g' = gm_dependency_depth m \<and>
     map observed_charge (gp_comparator_charges g') = gm_comparator_charges m"
proof -
  from assms obtain cs where l: "length (gm_comparator_charges m) = length (gp_comparator_charges g)"
    and cs: "map_each (\<lambda>j (ob, c). attach_observation i j ob c) 0
        (zip (gm_comparator_charges m) (gp_comparator_charges g)) = Inr cs"
    and g': "g' = g\<lparr>gp_comparator_charges := cs, gp_dependency_depth := gm_dependency_depth m,
        gp_physical := gm_physical m\<rparr>"
    by (auto simp: attach_group_def attach_charges_map and_then_ok map_err_ok split: if_splits)
  have "map logical_charge cs = map logical_charge (gp_comparator_charges g)"
    by (rule map_each_zip_keeps [OF cs l]) (rule attach_observation_logical)
  moreover have "map observed_charge cs = gm_comparator_charges m"
  proof (rule nth_equalityI)
    show "length (map observed_charge cs) = length (gm_comparator_charges m)" using cs l by (simp add: map_each_ok)
    fix j assume "j < length (map observed_charge cs)"
    then have j: "j < length cs"
      and "attach_observation i j (gm_comparator_charges m ! j) (gp_comparator_charges g ! j) = Inr (cs ! j)"
      using cs l by (simp_all add: map_each_ok)
    then show "map observed_charge cs ! j = gm_comparator_charges m ! j" by (simp add: attach_observation_observed)
  qed
  ultimately show ?thesis by (simp add: g' logical_group_def)
qed

lemma with_physical_measurements_ok:
  assumes "with_physical_measurements parse_url p ms = Inr q"
  shows "\<exists>groups. schedule_validate parse_url p = Inr () \<and>
     map logical_group groups = map logical_group (sp_groups p) \<and>
     map gp_physical groups = map gm_physical ms \<and>
     map gp_dependency_depth groups = map gm_dependency_depth ms \<and>
     map (\<lambda>g. map observed_charge (gp_comparator_charges g)) groups = map gm_comparator_charges ms \<and>
     validate_public parse_url (p\<lparr>sp_groups := groups\<rparr>) = Inr () \<and>
     q = certify (p\<lparr>sp_groups := groups\<rparr>)"
proof -
  have id: "map clone_group_profile gs = gs" for gs by (simp add: map_idI)
  from assms obtain groups where l: "length ms = length (sp_groups p)"
    and groups: "map_each (\<lambda>i (m, g). attach_group i m g) 0 (zip ms (sp_groups p)) = Inr groups"
    and q: "reissue parse_url (p\<lparr>sp_groups := groups\<rparr>) = Inr q" "schedule_validate parse_url p = Inr ()"
    by (auto simp: with_physical_measurements_def schedule_clone_def attach_groups_map id Let_def
        and_then_ok split: if_splits)
  have len: "length groups = length ms" using groups l by (simp add: map_each_ok)
  have "map logical_group groups = map logical_group (sp_groups p)"
    by (rule map_each_zip_keeps [OF groups l]) (simp add: attach_group_logical)
  moreover have at: "attach_group i (ms ! i) (sp_groups p ! i) = Inr (groups ! i)" if "i < length ms" for i
    using groups l that by (simp add: map_each_ok)
  have "map gp_physical groups = map gm_physical ms"
    by (rule nth_equalityI) (simp_all add: len attach_group_logical [OF at])
  moreover have "map gp_dependency_depth groups = map gm_dependency_depth ms"
    by (rule nth_equalityI) (simp_all add: len attach_group_logical [OF at])
  moreover have "map (\<lambda>g. map observed_charge (gp_comparator_charges g)) groups = map gm_comparator_charges ms"
    by (rule nth_equalityI) (simp_all add: len attach_group_logical [OF at])
  ultimately show ?thesis using q by (auto simp: reissue_ok)
qed

lemma plan_schedule_issued:
  assumes "plan_schedule parse_url t request = Inr p"
  shows "schedule_validate parse_url p = Inr () \<and> sp_group_width p = rt_group_width t \<and>
     sc_request_digest (sp_certificate p) = digest_schedule_request request"
proof -
  from assms obtain groups where "reissue parse_url (schedule_draft t request groups) = Inr p"
    by (auto simp: plan_schedule_ok)
  then show ?thesis
    using reissue_valid [of parse_url "schedule_draft t request groups" p] by (auto simp: reissue_ok)
qed

text \<open>
  C25. Every schedule that PlanSchedule issues passes Validate, and VerifyScheduleAgainst accepts
  it for the source tree and the request it was planned for: checking after planning returns
  exactly what planning alone does.
\<close>

theorem planned_schedules_verify:
  "and_then (plan_schedule parse_url t request) (schedule_validate parse_url) =
     and_then (plan_schedule parse_url t request) (\<lambda>_. Inr ()) \<and>
   and_then (map_err CertificateError (compile_r0 source group_width)) (\<lambda>t.
     and_then (plan_schedule parse_url t request) (\<lambda>p.
       verify_schedule_against parse_url p source request)) =
   and_then (map_err CertificateError (compile_r0 source group_width)) (\<lambda>t.
     and_then (plan_schedule parse_url t request) (\<lambda>_. Inr ()))"
proof (rule conjI)
  show "and_then (plan_schedule parse_url t request) (schedule_validate parse_url) =
      and_then (plan_schedule parse_url t request) (\<lambda>_. Inr ())"
    by (cases "plan_schedule parse_url t request") (auto dest: plan_schedule_issued)
next
  have accepts: "verify_schedule_against parse_url p source request = Inr ()"
    if t: "compile_r0 source group_width = Inr t" and p: "plan_schedule parse_url t request = Inr p" for t p
  proof -
    have "sp_group_width p = group_width" "schedule_validate parse_url p = Inr ()"
      using plan_schedule_issued [OF p] t by (auto simp: compile_r0_ok)
    then show ?thesis using t p compile_r0_verified [OF t] by (simp add: verify_schedule_against_def)
  qed
  show "and_then (map_err CertificateError (compile_r0 source group_width)) (\<lambda>t.
      and_then (plan_schedule parse_url t request) (\<lambda>p.
        verify_schedule_against parse_url p source request)) =
    and_then (map_err CertificateError (compile_r0 source group_width)) (\<lambda>t.
      and_then (plan_schedule parse_url t request) (\<lambda>_. Inr ()))"
  proof (cases "compile_r0 source group_width")
    case (Inl f)
    then show ?thesis by (cases f) (simp_all flip: err_def)
  next
    case (Inr t)
    then show ?thesis
      by (cases "plan_schedule parse_url t request") (auto dest: accepts)
  qed
qed

section \<open>A concrete plan\<close>

text \<open>A schedule of depth one whose request digest is any non-zero value.\<close>

definition sample_level :: radix_level where
  "sample_level = compile_level (bt_splits sample_tree) 0 1"

definition sample_schedule :: schedule_plan where
  "sample_schedule = certify \<lparr>
     sp_schedule = R0SequentialSourceFaithfulOBO,
     sp_binary_depth = 1,
     sp_group_width = 1,
     sp_eligibility = BenchmarkPendingPhysicalMeasurement,
     sp_view = \<lparr>sv_source_sha256 = ''00'', sv_radix_plan_sha256 = ''00'',
       sv_request_sha256 = '''', sv_structure_sha256 = '''', sv_full_plan_sha256 = ''''\<rparr>,
     sp_groups = [standard_group R0SequentialSourceFaithfulOBO sample_level],
     sp_certificate = \<lparr>sc_issued = False, sc_request_digest = replicate 32 1,
       sc_structure_digest = [], sc_full_digest = []\<rparr>\<rparr>"

lemma sample_group_valid:
  "group_validate parse_url R0SequentialSourceFaithfulOBO
     (standard_group R0SequentialSourceFaithfulOBO sample_level) = Inr ()"
  "gp_start_depth (standard_group R0SequentialSourceFaithfulOBO sample_level) = 0"
  "gp_height (standard_group R0SequentialSourceFaithfulOBO sample_level) = 1"
  using standard_group_valid [of R0SequentialSourceFaithfulOBO 1 0 parse_url "bt_splits sample_tree"]
  by (simp_all add: sample_level_def standard_schedules_def)

lemma sample_schedule_valid: "schedule_validate parse_url sample_schedule = Inr ()"
  unfolding sample_schedule_def
  by (rule certify_valid)
    (simp add: validate_public_def validate_group_at_def sample_group_valid wrap64_id max_int64_def)

text \<open>Measurements of a backend that has measured its comparator streams and its depth.\<close>

definition sample_count :: "int \<Rightarrow> physical_count" where
  "sample_count v = \<lparr>pc_status = MeasurementMeasured, pc_value = Some v\<rparr>"

definition sample_observation :: comparator_observation where
  "sample_observation = (unknown_comparator_observation ComparatorCTPlaintext)
     \<lparr>co_streams_per_comparison := sample_count 2, co_streams := sample_count 2\<rparr>"

definition sample_measurements :: "group_measurements list" where
  "sample_measurements = [\<lparr>gm_group_index = 0, gm_start_depth = 0, gm_height = 1,
     gm_comparator_charges = [sample_observation],
     gm_dependency_depth = sample_count 3,
     gm_physical = unknown_physical_profile\<rparr>]"

lemma sample_group_form:
  "standard_group R0SequentialSourceFaithfulOBO sample_level = (base_group sample_level)\<lparr>
     gp_logical_comparisons := 1,
     gp_predicate_dependency_rounds := 1,
     gp_comparator_charges := [unknown_comparator_charge ComparatorCTPlaintext 1],
     gp_logical_selector_terms := 0\<rparr>"
  by (simp add: standard_group_def sample_level_def group_forms below_root_widths_def)

lemma same_logical_charge:
  assumes "charge_validate c = Inr ()" and "charge_validate c' = Inr ()" and "logical_charge c' = logical_charge c"
    and "gp_comparator_charges g = [c]"
  shows "group_validate_logical (g\<lparr>gp_comparator_charges := [c']\<rparr>) = group_validate_logical g"
  using assms by (simp add: group_validate_logical_def logical_charge_def)

lemma evidence_ignores_charges:
  "s \<noteq> R0StateAwareFusedLUT \<Longrightarrow>
     group_validate_evidence parse_url s (g\<lparr>gp_comparator_charges := cs\<rparr>) = group_validate_evidence parse_url s g"
  by (simp add: group_validate_evidence_def)

lemma ignores_dependency_depth:
  "group_validate_logical (g\<lparr>gp_dependency_depth := c\<rparr>) = group_validate_logical g"
  "group_validate_evidence parse_url s (g\<lparr>gp_dependency_depth := c\<rparr>) =
     group_validate_evidence parse_url s g"
  by (simp_all add: group_validate_logical_def group_validate_evidence_def case_prod_unfold cong: if_cong)

lemma sample_measures: "is_ok (with_physical_measurements parse_url sample_schedule sample_measurements)"
proof -
  let ?g = "standard_group R0SequentialSourceFaithfulOBO sample_level"
  let ?m = "hd sample_measurements"
  let ?c = "unknown_comparator_charge ComparatorCTPlaintext 1"
  let ?c' = "?c\<lparr>cc_streams_per_comparison := sample_count 2, cc_streams := sample_count 2\<rparr>"
  let ?g' = "?g\<lparr>gp_comparator_charges := [?c'], gp_dependency_depth := sample_count 3\<rparr>"
  have ob: "observation_validate sample_observation = Inr ()"
    by (simp add: observation_validate_def sample_observation_def unknown_comparator_observation_def validate_counts_ok
        count_validate_def sample_count_def)
  have charges: "gp_comparator_charges ?g = [?c]" by (simp add: sample_group_form)
  have attach: "attach_group 0 ?m ?g = Inr ?g'"
    using ob by (simp add: attach_group_def sample_measurements_def sample_group_valid count_validate_def sample_count_def)
      (simp add: sample_group_form attach_observation_def sample_observation_def unknown_comparator_observation_def
        unknown_comparator_charge_def sample_count_def)
  have valid: "charge_validate ?c = Inr ()" "charge_validate ?c' = Inr ()"
    by (simp_all add: and_then_ok charge_validate_def unknown_comparator_charge_def charge_counts_def validate_counts_ok count_validate_def
        validate_measured_product_def sample_count_def max_int64_def wrap64_id)
  have "group_validate_logical ?g' = Inr ()"
    using sample_group_valid(1) same_logical_charge [OF valid _ charges]
    by (simp add: group_validate_def and_then_ok ignores_dependency_depth logical_charge_def)
  moreover have "group_validate_physical ?g' = Inr ()"
    by (simp add: sample_group_form group_validate_physical_def count_validate_def sample_count_def
        validate_charge_aggregate_def unknown_comparator_charge_def)
  moreover have "group_validate_evidence parse_url R0SequentialSourceFaithfulOBO ?g' = Inr ()"
    using sample_group_valid(1) [of parse_url]
    by (simp add: group_validate_def and_then_ok ignores_dependency_depth evidence_ignores_charges)
  ultimately have "group_validate parse_url R0SequentialSourceFaithfulOBO ?g' = Inr ()"
    by (simp add: group_validate_def)
  then have "validate_public parse_url (sample_schedule\<lparr>sp_groups := [?g']\<rparr>) = Inr ()"
    by (simp add: sample_schedule_def certify_def validate_public_def validate_group_at_def
        sample_group_valid wrap64_id max_int64_def)
  moreover have "sc_request_digest (sp_certificate (sample_schedule\<lparr>sp_groups := [?g']\<rparr>)) \<noteq> replicate 32 0"
    by (simp add: sample_schedule_def certify_def)
  ultimately have "reissue parse_url (sample_schedule\<lparr>sp_groups := [?g']\<rparr>) =
      Inr (certify (sample_schedule\<lparr>sp_groups := [?g']\<rparr>))"
    by (simp add: reissue_ok)
  moreover have "sp_groups sample_schedule = [?g]" by (simp add: sample_schedule_def)
  moreover obtain m where m: "sample_measurements = [m]" "?m = m"
    by (simp add: sample_measurements_def)
  ultimately show ?thesis
    using attach [unfolded m(2)] sample_schedule_valid [of parse_url]
    by (simp add: with_physical_measurements_def schedule_clone_def m(1))
qed

text \<open>
  C23. Attaching measurements yields a valid plan that carries exactly the attached physical
  profiles, dependency depths and, charge by charge, comparator observations, while every logical field of every group, the structure
  digest, the request digest and the verdict of VerifyScheduleAgainst for any source and
  request stay those of the plan it started from.
\<close>

theorem measurements_preserve_structure:
  assumes "with_physical_measurements parse_url p ms = Inr q"
  shows "schedule_validate parse_url q = Inr () \<and>
     map logical_group (sp_groups q) = map logical_group (sp_groups p) \<and>
     map gp_physical (sp_groups q) = map gm_physical ms \<and>
     map gp_dependency_depth (sp_groups q) = map gm_dependency_depth ms \<and>
     map (\<lambda>g. map observed_charge (gp_comparator_charges g)) (sp_groups q) = map gm_comparator_charges ms \<and>
     sc_structure_digest (sp_certificate q) = sc_structure_digest (sp_certificate p) \<and>
     sc_request_digest (sp_certificate q) = sc_request_digest (sp_certificate p) \<and>
     verify_schedule_against parse_url q source request =
       verify_schedule_against parse_url p source request"
proof -
  from with_physical_measurements_ok [OF assms] obtain groups where
    p: "schedule_validate parse_url p = Inr ()" and
    groups: "map logical_group groups = map logical_group (sp_groups p)"
      "map gp_physical groups = map gm_physical ms"
      "map gp_dependency_depth groups = map gm_dependency_depth ms"
      "map (\<lambda>g. map observed_charge (gp_comparator_charges g)) groups = map gm_comparator_charges ms" and
    public: "validate_public parse_url (p\<lparr>sp_groups := groups\<rparr>) = Inr ()" and
    q: "q = certify (p\<lparr>sp_groups := groups\<rparr>)"
    by blast
  have valid: "schedule_validate parse_url q = Inr ()" unfolding q by (rule certify_valid [OF public])
  have digest: "sc_structure_digest (sp_certificate q) = sc_structure_digest (sp_certificate p)"
    "sc_request_digest (sp_certificate q) = sc_request_digest (sp_certificate p)"
    "sp_group_width q = sp_group_width p"
    using schedule_validate_digest [OF p] structure_digest_logical [OF groups(1)] by (simp_all add: q)
  then have verify: "verify_schedule_against parse_url q source request =
      verify_schedule_against parse_url p source request"
    by (simp only: verify_schedule_against_def valid p digest and_then_simps)
  have "sp_groups q = groups" by (simp add: q)
  then show ?thesis using valid groups digest verify by simp
qed

theorem measurements_preserve_structure_witness:
  "\<exists>q. with_physical_measurements (\<lambda>_. None) sample_schedule sample_measurements = Inr q \<and>
     schedule_validate (\<lambda>_. None) q = Inr () \<and>
     map gp_dependency_depth (sp_groups q) = [sample_count 3] \<and>
     map (\<lambda>g. map observed_charge (gp_comparator_charges g)) (sp_groups q) = [[sample_observation]]"
proof -
  obtain q where q: "with_physical_measurements (\<lambda>_. None) sample_schedule sample_measurements = Inr q"
    using sample_measures by (auto simp: is_ok_iff)
  with measurements_preserve_structure [OF q] show ?thesis
    by (auto simp: sample_measurements_def)
qed

section \<open>Evidence and arithmetic\<close>

definition measured :: "int \<Rightarrow> physical_count" where
  "measured v = \<lparr>pc_status = MeasurementMeasured, pc_value = Some v\<rparr>"

text \<open>
  The check of a measured product is exact: for non-negative 64-bit operands it accepts a
  reported product exactly when it is the product over the integers, so that a product that
  overflows int64 is never accepted.
\<close>

theorem measured_product_exact:
  assumes "0 \<le> m" and "m \<le> max_int64" and "0 \<le> f" and "f \<le> max_int64" and "b \<le> max_int64"
  shows "validate_measured_product name m (measured f) (measured b) = Inr () \<longleftrightarrow> b = m * f"
proof (cases "m = 0")
  case True
  then show ?thesis
    by (simp add: validate_measured_product_def measured_def wrap64_id max_int64_def reject_if_ok)
next
  case False
  then have m: "0 < m" using assms(1) by simp
  have quot: "max_int64 sdiv m = max_int64 div m"
    using m by (simp add: signed_divide_int_def max_int64_def)
  have le: "f > max_int64 div m \<longleftrightarrow> m * f > max_int64"
  proof
    assume "f > max_int64 div m"
    then have "m * (max_int64 div m + 1) \<le> m * f" using m by (intro mult_left_mono) simp_all
    then have "m * (max_int64 div m) + m \<le> m * f" by (simp only: distrib_left mult_1_right)
    then show "m * f > max_int64"
      using mult_div_mod_eq [of m max_int64] pos_mod_bound [OF m, of max_int64] by linarith
  next
    assume gt: "m * f > max_int64"
    show "f > max_int64 div m"
    proof (rule ccontr)
      assume "\<not> f > max_int64 div m"
      then have "m * f \<le> m * (max_int64 div m)" using m by (intro mult_left_mono) simp_all
      then show False
        using gt mult_div_mod_eq [of m max_int64] pos_mod_sign [OF m, of max_int64] by linarith
    qed
  qed
  show ?thesis
  proof (cases "m * f > max_int64")
    case True
    then show ?thesis
      using le quot False assms(5) by (auto simp: validate_measured_product_def measured_def)
  next
    case fits: False
    moreover have "0 \<le> m * f" using m assms(3) by simp
    ultimately have "wrap64 (m * f) = m * f" by (intro wrap64_id) simp_all
    then show ?thesis
      using le quot fits
      by (auto simp: validate_measured_product_def measured_def reject_if_ok Let_def)
  qed
qed

theorem measured_product_exact_witness:
  "validate_measured_product ''streams'' 3 (measured 5) (measured 15) = Inr ()"
  using measured_product_exact [of 3 5 15 "''streams''"] by (simp add: max_int64_def)

text \<open>
  No operation on schedules panics, on any plan, tree, request or measurement: every nil
  count is rejected before it is read, and every index is within its slice.
\<close>

theorem schedules_never_panic:
  "safe (plan_schedule parse_url t request) \<and> safe (schedule_validate parse_url p) \<and>
   safe (group_validate parse_url schedule g) \<and> safe (with_physical_measurements parse_url p ms) \<and>
   safe (verify_schedule_against parse_url p source request)"
  by simp

end
