(* ===== verification/Multiway.thy ===== *)
theory Multiway
  imports BinaryTree
begin

text \<open>
  Multiway interval trees: \<^verbatim>\<open>integer/treeplan/multiway.go\<close>. The nodes live in an arena and refer
  to each other by index, so validation runs a depth-first search for cycles and unreachable
  entries. The two recursive closures and the routing loop are modelled with fuel; the number
  of nodes plus two always suffices, because the search colours a node before it descends and
  routing follows edges of an acyclic graph. A finite tree datatype is the abstract
  specification of a valid arena.
\<close>

section \<open>Data\<close>

definition ChildNode :: string where
  "ChildNode = ''node''"

definition ChildLeaf :: string where
  "ChildLeaf = ''leaf''"

lemma child_kinds_distinct [simp]: "ChildNode \<noteq> ChildLeaf" "ChildLeaf \<noteq> ChildNode"
  by (simp_all add: ChildNode_def ChildLeaf_def)

record child_ref =
  cr_kind :: string
  cr_index :: int

definition node_ref :: "int \<Rightarrow> child_ref" where
  "node_ref index = \<lparr>cr_kind = ChildNode, cr_index = index\<rparr>"

definition leaf_ref :: "int \<Rightarrow> child_ref" where
  "leaf_ref index = \<lparr>cr_kind = ChildLeaf, cr_index = index\<rparr>"

record interval_node =
  in_feature :: int
  in_thresholds :: "scalar list"
  in_children :: "child_ref list"

record multiway_tree =
  mt_root :: child_ref
  mt_nodes :: "interval_node list"
  mt_leaves :: "scalar list"

datatype multiway_error =
  RefNegative string int
| RefNodeRange int nat
| RefLeafRange int nat
| RefUnknownKind string
| InvalidRoot multiway_error
| NodeFeatureNegative nat int
| NodeNoThresholds nat
| NodeThresholdNonFinite nat nat
| NodeChildCount nat nat nat
| NodeNotIncreasing nat nat
| NodeChild nat nat multiway_error
| MultiwayLeafNonFinite nat
| CycleReaches int
| NodeUnreachable nat
| LeafUnreachable nat
| MultiwayFeatures binary_error
| MultiwayNeedsFeature int int nat

section \<open>Validation\<close>

definition validate_ref :: "multiway_tree \<Rightarrow> child_ref \<Rightarrow> (multiway_error, unit) res" where
  "validate_ref t ref =
     (if cr_index ref < 0 then err (RefNegative (cr_kind ref) (cr_index ref))
      else if cr_kind ref = ChildNode then
        reject_if (cr_index ref \<ge> int (length (mt_nodes t)))
          (RefNodeRange (cr_index ref) (length (mt_nodes t)))
      else if cr_kind ref = ChildLeaf then
        reject_if (cr_index ref \<ge> int (length (mt_leaves t)))
          (RefLeafRange (cr_index ref) (length (mt_leaves t)))
      else err (RefUnknownKind (cr_kind ref)))"

definition validate_interval_node ::
  "multiway_tree \<Rightarrow> nat \<Rightarrow> interval_node \<Rightarrow> (multiway_error, unit) res" where
  "validate_interval_node t i node =
     (if in_feature node < 0 then err (NodeFeatureNegative i (in_feature node))
      else if in_thresholds node = [] then err (NodeNoThresholds i)
      else and_then
        (check_each (\<lambda>j threshold. reject_if (\<not> finite_scalar threshold) (NodeThresholdNonFinite i j))
          0 (in_thresholds node)) (\<lambda>_.
      if length (in_children node) \<noteq> length (in_thresholds node) + 1
        then err (NodeChildCount i (length (in_thresholds node)) (length (in_children node)))
      else and_then
        (check_each (\<lambda>_ j.
           and_then (at (in_thresholds node) (j - 1)) (\<lambda>lo.
           and_then (at (in_thresholds node) j) (\<lambda>hi.
           reject_if (\<not> scalar_lt lo hi) (NodeNotIncreasing i j))))
          0 [1..<length (in_thresholds node)]) (\<lambda>_.
      check_each (\<lambda>j child. map_err (NodeChild i j) (validate_ref t child)) 0 (in_children node))))"

record visit_state =
  vs_state :: "nat list"
  vs_nodes :: "bool list"
  vs_leaves :: "bool list"

definition update_at :: "'a list \<Rightarrow> int \<Rightarrow> 'a \<Rightarrow> ('e, 'a list) res" where
  "update_at xs i x = (if 0 \<le> i \<and> i < int (length xs) then Inr (xs[nat i := x]) else Inl Panic)"

fun visit :: "multiway_tree \<Rightarrow> nat \<Rightarrow> child_ref \<Rightarrow> visit_state \<Rightarrow> (multiway_error, visit_state) res" where
  "visit t 0 ref s = Inl NoFuel"
| "visit t (Suc k) ref s =
     (if cr_kind ref = ChildLeaf
      then and_then (update_at (vs_leaves s) (cr_index ref) True) (\<lambda>ls. Inr (s\<lparr>vs_leaves := ls\<rparr>))
      else let index = cr_index ref in
        and_then (at_int (vs_state s) index) (\<lambda>colour.
          if colour = 1 then err (CycleReaches index)
          else if colour = 2 then Inr s
          else
            and_then (update_at (vs_state s) index 1) (\<lambda>st.
            and_then (update_at (vs_nodes s) index True) (\<lambda>ns.
            and_then (at_int (mt_nodes t) index) (\<lambda>node.
            and_then (fold_each (\<lambda>_ child s. visit t k child s) 0 (in_children node)
                (s\<lparr>vs_state := st, vs_nodes := ns\<rparr>)) (\<lambda>s.
            and_then (update_at (vs_state s) index 2) (\<lambda>st. Inr (s\<lparr>vs_state := st\<rparr>))))))))"

declare visit.simps [simp del]

definition multiway_validate :: "multiway_tree \<Rightarrow> (multiway_error, unit) res" where
  "multiway_validate t =
     and_then (map_err InvalidRoot (validate_ref t (mt_root t))) (\<lambda>_.
     and_then (check_each (validate_interval_node t) 0 (mt_nodes t)) (\<lambda>_.
     and_then (check_each (\<lambda>i leaf. reject_if (\<not> finite_scalar leaf) (MultiwayLeafNonFinite i))
       0 (mt_leaves t)) (\<lambda>_.
     and_then (visit t (length (mt_nodes t) + 2) (mt_root t) \<lparr>
         vs_state = replicate (length (mt_nodes t)) 0,
         vs_nodes = replicate (length (mt_nodes t)) False,
         vs_leaves = replicate (length (mt_leaves t)) False\<rparr>) (\<lambda>s.
     and_then (check_each (\<lambda>i reached. reject_if (\<not> reached) (NodeUnreachable i)) 0 (vs_nodes s)) (\<lambda>_.
     check_each (\<lambda>i reached. reject_if (\<not> reached) (LeafUnreachable i)) 0 (vs_leaves s))))))"

definition multiway_semantics :: "multiway_tree \<Rightarrow> semantics_class" where
  "multiway_semantics t = SemanticsR1ModelChanging"

section \<open>Routing\<close>

text \<open>The index of the first threshold above the value, or the number of thresholds.\<close>

fun find_interval :: "scalar \<Rightarrow> nat \<Rightarrow> scalar list \<Rightarrow> nat" where
  "find_interval value i [] = i"
| "find_interval value i (threshold # rest) =
     (if scalar_lt value threshold then i else find_interval value (Suc i) rest)"

fun multiway_route_loop ::
  "multiway_tree \<Rightarrow> scalar list \<Rightarrow> nat \<Rightarrow> child_ref \<Rightarrow> (multiway_error, int) res" where
  "multiway_route_loop t features 0 ref = Inl NoFuel"
| "multiway_route_loop t features (Suc k) ref =
     (if cr_kind ref = ChildNode
      then and_then (at_int (mt_nodes t) (cr_index ref)) (\<lambda>node.
        if in_feature node \<ge> int (length features)
          then err (MultiwayNeedsFeature (cr_index ref) (in_feature node) (length features))
        else and_then (at_int features (in_feature node)) (\<lambda>value.
          and_then (at (in_children node) (find_interval value 0 (in_thresholds node))) (\<lambda>next_ref.
          multiway_route_loop t features k next_ref)))
      else Inr (cr_index ref))"

definition multiway_route :: "multiway_tree \<Rightarrow> scalar list \<Rightarrow> (multiway_error, int) res" where
  "multiway_route t features =
     and_then (multiway_validate t) (\<lambda>_.
     and_then (map_err MultiwayFeatures (validate_finite_features features)) (\<lambda>_.
     multiway_route_loop t features (length (mt_nodes t) + 2) (mt_root t)))"

definition multiway_evaluate :: "multiway_tree \<Rightarrow> scalar list \<Rightarrow> (multiway_error, scalar) res" where
  "multiway_evaluate t features = and_then (multiway_route t features) (at_int (mt_leaves t))"

section \<open>Costs\<close>

record path_vector =
  pv_comparisons :: int
  pv_branch_bits :: int
  pv_depth :: int
  pv_one_hot :: int
  pv_selectors :: int
  pv_bootstraps :: int

definition zero_path :: path_vector where
  "zero_path = \<lparr>pv_comparisons = 0, pv_branch_bits = 0, pv_depth = 0, pv_one_hot = 0,
     pv_selectors = 0, pv_bootstraps = 0\<rparr>"

definition max_path :: "path_vector \<Rightarrow> path_vector \<Rightarrow> path_vector" where
  "max_path a b = \<lparr>
     pv_comparisons = max (pv_comparisons a) (pv_comparisons b),
     pv_branch_bits = max (pv_branch_bits a) (pv_branch_bits b),
     pv_depth = max (pv_depth a) (pv_depth b),
     pv_one_hot = max (pv_one_hot a) (pv_one_hot b),
     pv_selectors = max (pv_selectors a) (pv_selectors b),
     pv_bootstraps = max (pv_bootstraps a) (pv_bootstraps b)\<rparr>"

definition node_path :: "int \<Rightarrow> path_vector \<Rightarrow> path_vector" where
  "node_path radix child_max = \<lparr>
     pv_comparisons = pv_comparisons child_max + radix - 1,
     pv_branch_bits = pv_branch_bits child_max + radix - 1,
     pv_depth = pv_depth child_max + 1,
     pv_one_hot = pv_one_hot child_max + radix,
     pv_selectors = pv_selectors child_max + radix,
     pv_bootstraps = pv_bootstraps child_max + 1\<rparr>"

text \<open>The memo and the done flags of the closure \<^verbatim>\<open>walk\<close>.\<close>

type_synonym walk_state = "path_vector list \<times> bool list"

fun walk_costs ::
  "multiway_tree \<Rightarrow> nat \<Rightarrow> child_ref \<Rightarrow> walk_state \<Rightarrow> (multiway_error, path_vector \<times> walk_state) res" where
  "walk_costs t 0 ref s = Inl NoFuel"
| "walk_costs t (Suc k) ref s =
     (if cr_kind ref = ChildLeaf then Inr (zero_path, s)
      else and_then (at_int (snd s) (cr_index ref)) (\<lambda>finished.
        if finished then and_then (at_int (fst s) (cr_index ref)) (\<lambda>v. Inr (v, s))
        else and_then (at_int (mt_nodes t) (cr_index ref)) (\<lambda>node.
          and_then (fold_each (\<lambda>_ child (child_max, s).
              and_then (walk_costs t k child s) (\<lambda>(v, s). Inr (max_path child_max v, s)))
            0 (in_children node) (zero_path, s)) (\<lambda>(child_max, s).
          let v = node_path (int (length (in_children node))) child_max in
          and_then (update_at (snd s) (cr_index ref) True) (\<lambda>finished'.
          and_then (update_at (fst s) (cr_index ref) v) (\<lambda>memo'.
          Inr (v, (memo', finished'))))))))"

definition multiway_metrics :: "multiway_tree \<Rightarrow> (multiway_error, cost_vector) res" where
  "multiway_metrics t =
     and_then (multiway_validate t) (\<lambda>_.
     and_then (walk_costs t (length (mt_nodes t) + 2) (mt_root t)
         (replicate (length (mt_nodes t)) zero_path, replicate (length (mt_nodes t)) False))
       (\<lambda>(v, _). Inr \<lparr>
         cv_threshold_comparisons = pv_comparisons v,
         cv_branch_bits = pv_branch_bits v,
         cv_structural_rounds = pv_depth v,
         cv_depth = pv_depth v,
         cv_depth_status = LogicalMetricDerivedEndToEnd,
         cv_one_hot_states = pv_one_hot v,
         cv_selector_terms = pv_selectors v,
         cv_logical_bootstraps = pv_bootstraps v,
         cv_logical_bootstraps_status = LogicalMetricDerivedEndToEnd,
         cv_rotations = \<lparr>
           rc_expression = ''sum_path ObliviousSelect(r_i)'',
           rc_data_dependent_allowed = False,
           rc_constraint = encrypted_index_constraint\<rparr>,
         cv_leaf_terms = int (length (mt_leaves t)),
         cv_execution_schedule = '''',
         cv_eligibility_constraint = ''''\<rparr>))"

section \<open>What the local checks admit\<close>

definition ref_ok :: "multiway_tree \<Rightarrow> child_ref \<Rightarrow> bool" where
  "ref_ok t ref \<longleftrightarrow>
     0 \<le> cr_index ref \<and>
     (cr_kind ref = ChildNode \<and> cr_index ref < int (length (mt_nodes t)) \<or>
      cr_kind ref = ChildLeaf \<and> cr_index ref < int (length (mt_leaves t)))"

definition node_ok :: "multiway_tree \<Rightarrow> interval_node \<Rightarrow> bool" where
  "node_ok t node \<longleftrightarrow>
     0 \<le> in_feature node \<and> in_thresholds node \<noteq> [] \<and>
     list_all finite_scalar (in_thresholds node) \<and>
     length (in_children node) = length (in_thresholds node) + 1 \<and>
     (\<forall>j. 0 < j \<and> j < length (in_thresholds node) \<longrightarrow>
        scalar_lt (in_thresholds node ! (j - 1)) (in_thresholds node ! j)) \<and>
     list_all (ref_ok t) (in_children node)"

lemma validate_ref_ok [ok_iff]: "validate_ref t ref = Inr u \<longleftrightarrow> ref_ok t ref"
  by (auto simp: validate_ref_def ref_ok_def reject_if_ok)

lemma validate_ref_safe [simp]: "safe (validate_ref t ref)"
  by (simp add: validate_ref_def)

lemma adjacent_iff:
  "(\<forall>j < n - Suc 0. P j (Suc j)) \<longleftrightarrow> (\<forall>j. 0 < j \<and> j < n \<longrightarrow> P (j - 1) j)"
proof
  assume l: "\<forall>j < n - Suc 0. P j (Suc j)"
  show "\<forall>j. 0 < j \<and> j < n \<longrightarrow> P (j - 1) j"
  proof (intro allI impI)
    fix j assume "0 < j \<and> j < n"
    then have "j - 1 < n - Suc 0" "Suc (j - 1) = j" by auto
    with l show "P (j - 1) j" by metis
  qed
next
  assume r: "\<forall>j. 0 < j \<and> j < n \<longrightarrow> P (j - 1) j"
  show "\<forall>j < n - Suc 0. P j (Suc j)"
  proof (intro allI impI)
    fix j assume "j < n - Suc 0"
    with r [rule_format, of "Suc j"] show "P j (Suc j)" by simp
  qed
qed

lemma validate_interval_node_ok [ok_iff]:
  "validate_interval_node t i node = Inr u \<longleftrightarrow> node_ok t node"
proof -
  have "validate_interval_node t i node = Inr u \<longleftrightarrow>
      0 \<le> in_feature node \<and> in_thresholds node \<noteq> [] \<and>
      list_all finite_scalar (in_thresholds node) \<and>
      length (in_children node) = length (in_thresholds node) + 1 \<and>
      (\<forall>j < length (in_thresholds node) - Suc 0.
        scalar_lt (in_thresholds node ! j) (in_thresholds node ! Suc j)) \<and>
      list_all (ref_ok t) (in_children node)"
    by (auto simp: validate_interval_node_def ok_iff list_all_iff_nth split: if_splits)
  also have "\<dots> \<longleftrightarrow> node_ok t node"
    unfolding node_ok_def
    using adjacent_iff [of "length (in_thresholds node)"
      "\<lambda>a b. scalar_lt (in_thresholds node ! a) (in_thresholds node ! b)"] by blast
  finally show ?thesis .
qed

lemma validate_interval_node_safe [simp]: "safe (validate_interval_node t i node)"
  by (auto simp: validate_interval_node_def intro!: safe_intro)

lemma update_at_ok [ok_iff]:
  "update_at xs i x = Inr ys \<longleftrightarrow> 0 \<le> i \<and> i < int (length xs) \<and> ys = xs[nat i := x]"
  by (auto simp: update_at_def)

lemma update_at_in_range [simp]:
  "0 \<le> i \<Longrightarrow> i < int (length xs) \<Longrightarrow> update_at xs i x = Inr (xs[nat i := x])"
  by (simp add: update_at_def)

section \<open>The graph of an arena\<close>

abbreviation node_count :: "multiway_tree \<Rightarrow> nat" where
  "node_count t \<equiv> length (mt_nodes t)"

definition children_of :: "multiway_tree \<Rightarrow> nat \<Rightarrow> child_ref list" where
  "children_of t i = in_children (mt_nodes t ! i)"

definition arena_ok :: "multiway_tree \<Rightarrow> bool" where
  "arena_ok t \<longleftrightarrow> list_all (node_ok t) (mt_nodes t)"

inductive mw_reaches :: "multiway_tree \<Rightarrow> child_ref \<Rightarrow> bool" for t where
  root: "mw_reaches t (mt_root t)"
| child: "mw_reaches t ref \<Longrightarrow> ref_ok t ref \<Longrightarrow> cr_kind ref = ChildNode \<Longrightarrow>
    c \<in> set (children_of t (nat (cr_index ref))) \<Longrightarrow> mw_reaches t c"

text \<open>A rank that decreases along every edge: the arena is acyclic.\<close>

definition edge_rank :: "multiway_tree \<Rightarrow> (nat \<Rightarrow> nat) \<Rightarrow> bool" where
  "edge_rank t r \<longleftrightarrow>
     (\<forall>i < node_count t. \<forall>c \<in> set (children_of t i).
        cr_kind c = ChildNode \<longrightarrow> r (nat (cr_index c)) < r i)"

definition node_edges :: "multiway_tree \<Rightarrow> (nat \<times> nat) set" where
  "node_edges t =
     {(i, j). i < node_count t \<and> (\<exists>c \<in> set (children_of t i). cr_kind c = ChildNode \<and> nat (cr_index c) = j)}"

definition multiway_wf :: "multiway_tree \<Rightarrow> bool" where
  "multiway_wf t \<longleftrightarrow>
     ref_ok t (mt_root t) \<and> arena_ok t \<and> list_all finite_scalar (mt_leaves t) \<and>
     acyclic (node_edges t) \<and>
     (\<forall>i < node_count t. mw_reaches t (node_ref (int i))) \<and>
     (\<forall>i < length (mt_leaves t). mw_reaches t (leaf_ref (int i)))"

lemma children_ref_ok:
  "arena_ok t \<Longrightarrow> i < node_count t \<Longrightarrow> c \<in> set (children_of t i) \<Longrightarrow> ref_ok t c"
  by (fastforce simp: arena_ok_def node_ok_def children_of_def list_all_iff dest: nth_mem)

lemma ref_ok_cases:
  assumes "ref_ok t ref"
  obtains (node) i where "ref = node_ref (int i)" "i < node_count t"
    | (leaf) i where "ref = leaf_ref (int i)" "i < length (mt_leaves t)"
proof -
  have "ref = \<lparr>cr_kind = cr_kind ref, cr_index = int (nat (cr_index ref))\<rparr>"
    using assms by (simp add: ref_ok_def)
  then show thesis
    using assms that(1) [of "nat (cr_index ref)"] that(2) [of "nat (cr_index ref)"]
    unfolding ref_ok_def node_ref_def leaf_ref_def by (metis nat_less_iff)
qed

lemma ref_simps [simp]:
  "cr_kind (node_ref i) = ChildNode" "cr_index (node_ref i) = i"
  "cr_kind (leaf_ref i) = ChildLeaf" "cr_index (leaf_ref i) = i"
  by (simp_all add: node_ref_def leaf_ref_def)

lemma edge_rank_iff: "arena_ok t \<Longrightarrow> acyclic (node_edges t) \<longleftrightarrow> (\<exists>r. edge_rank t r)"
proof
  assume ok: "arena_ok t" and ac: "acyclic (node_edges t)"
  have "node_edges t \<subseteq> {..<node_count t} \<times> {..<node_count t}"
  proof
    fix e assume "e \<in> node_edges t"
    then obtain i c where "i < node_count t" "c \<in> set (children_of t i)" "cr_kind c = ChildNode"
      "e = (i, nat (cr_index c))" by (auto simp: node_edges_def)
    with children_ref_ok [OF ok] show "e \<in> {..<node_count t} \<times> {..<node_count t}"
      by (fastforce simp: ref_ok_def)
  qed
  then have fin: "finite (node_edges t)" by (rule finite_subset) simp
  define r where "r i = card ((node_edges t)\<^sup>+ `` {i})" for i
  have "r j < r i" if "(i, j) \<in> node_edges t" for i j
  proof -
    have "(node_edges t)\<^sup>+ `` {j} \<subset> (node_edges t)\<^sup>+ `` {i}"
      using that ac by (auto simp: acyclic_def intro: trancl_into_trancl2)
    moreover have "finite ((node_edges t)\<^sup>+ `` {i})"
      by (rule finite_subset [of _ "snd ` (node_edges t)\<^sup>+"]) (force simp: fin)+
    ultimately show ?thesis unfolding r_def by (rule psubset_card_mono [rotated])
  qed
  then have "edge_rank t r" by (auto simp: edge_rank_def node_edges_def)
  then show "\<exists>r. edge_rank t r" by blast
next
  assume "\<exists>r. edge_rank t r"
  then obtain r where r: "edge_rank t r" ..
  have "(i, j) \<in> (node_edges t)\<^sup>+ \<Longrightarrow> r j < r i" for i j
    by (induction rule: trancl.induct) (use r in \<open>fastforce simp: edge_rank_def node_edges_def\<close>)+
  then show "acyclic (node_edges t)" by (auto simp: acyclic_def)
qed

section \<open>The depth-first search\<close>

definition visited :: "visit_state \<Rightarrow> child_ref \<Rightarrow> bool" where
  "visited s ref \<longleftrightarrow>
     (if cr_kind ref = ChildLeaf then vs_leaves s ! nat (cr_index ref)
      else vs_state s ! nat (cr_index ref) = 2)"

text \<open>
  The invariant: colours are 0, 1 or 2; the flags mark the coloured nodes; everything marked is
  reachable; and the children of a finished node are finished, with smaller ranks.
\<close>

definition search_inv :: "multiway_tree \<Rightarrow> visit_state \<Rightarrow> bool" where
  "search_inv t s \<longleftrightarrow>
     length (vs_state s) = node_count t \<and> length (vs_nodes s) = node_count t \<and>
     length (vs_leaves s) = length (mt_leaves t) \<and>
     (\<forall>i < node_count t. vs_state s ! i \<le> 2 \<and> (vs_nodes s ! i \<longleftrightarrow> vs_state s ! i \<noteq> 0) \<and>
        (vs_state s ! i \<noteq> 0 \<longrightarrow> mw_reaches t (node_ref (int i)))) \<and>
     (\<forall>i < length (mt_leaves t). vs_leaves s ! i \<longrightarrow> mw_reaches t (leaf_ref (int i))) \<and>
     (\<exists>r. \<forall>i < node_count t. vs_state s ! i = 2 \<longrightarrow>
        (\<forall>c \<in> set (children_of t i). visited s c \<and>
           (cr_kind c = ChildNode \<longrightarrow> (r (nat (cr_index c)) :: nat) < r i)))"

definition extends :: "multiway_tree \<Rightarrow> visit_state \<Rightarrow> visit_state \<Rightarrow> bool" where
  "extends t s s' \<longleftrightarrow>
     (\<forall>i < node_count t. (vs_state s ! i \<noteq> 0 \<longrightarrow> vs_state s' ! i = vs_state s ! i) \<and>
        (vs_state s ! i = 0 \<longrightarrow> vs_state s' ! i \<in> {0, 2})) \<and>
     (\<forall>i < length (mt_leaves t). vs_leaves s ! i \<longrightarrow> vs_leaves s' ! i)"

definition whites :: "multiway_tree \<Rightarrow> visit_state \<Rightarrow> nat" where
  "whites t s = card {i. i < node_count t \<and> vs_state s ! i = 0}"

text \<open>The nodes being visited all rank above the reference, for every rank of the arena.\<close>

definition above :: "multiway_tree \<Rightarrow> visit_state \<Rightarrow> child_ref list \<Rightarrow> bool" where
  "above t s refs \<longleftrightarrow>
     (\<forall>r. edge_rank t r \<longrightarrow> (\<forall>ref \<in> set refs. cr_kind ref = ChildNode \<longrightarrow>
        (\<forall>i < node_count t. vs_state s ! i = 1 \<longrightarrow> r (nat (cr_index ref)) < r i)))"

definition search_outcome ::
  "multiway_tree \<Rightarrow> child_ref list \<Rightarrow> visit_state \<Rightarrow> (multiway_error, visit_state) res \<Rightarrow> bool" where
  "search_outcome t refs s out \<longleftrightarrow>
     (case out of
        Inl f \<Rightarrow> (\<exists>z. f = Err (CycleReaches z)) \<and> \<not> (\<exists>r. edge_rank t r)
      | Inr s' \<Rightarrow> search_inv t s' \<and> extends t s s' \<and> (\<forall>ref \<in> set refs. visited s' ref))"

lemma extends_refl [simp]: "extends t s s"
  by (simp add: extends_def)

lemma extends_trans: "extends t s s' \<Longrightarrow> extends t s' s'' \<Longrightarrow> extends t s s''"
  unfolding extends_def by (metis insert_iff singletonD)

lemma extends_visited:
  "extends t s s' \<Longrightarrow> ref_ok t ref \<Longrightarrow> visited s ref \<Longrightarrow> visited s' ref"
  by (erule ref_ok_cases) (auto simp: extends_def visited_def)

lemma extends_whites: "extends t s s' \<Longrightarrow> whites t s' \<le> whites t s"
  unfolding whites_def by (rule card_mono) (auto simp: extends_def)

lemma extends_gray: "extends t s s' \<Longrightarrow> i < node_count t \<Longrightarrow> vs_state s' ! i = Suc 0 \<longleftrightarrow> vs_state s ! i = Suc 0"
  unfolding One_nat_def [symmetric] extends_def
  by (metis insertE singletonD zero_neq_numeral one_neq_zero num.distinct(1) one_eq_numeral_iff)

lemma above_extends:
  "extends t s s' \<Longrightarrow> above t s refs \<Longrightarrow> above t s' refs"
  by (auto simp: above_def extends_gray)

lemma search_fold:
  assumes visit: "\<And>ref s. ref_ok t ref \<Longrightarrow> search_inv t s \<Longrightarrow> mw_reaches t ref \<Longrightarrow>
      whites t s < k \<Longrightarrow> above t s [ref] \<Longrightarrow> search_outcome t [ref] s (visit t k ref s)"
  shows "\<forall>ref \<in> set refs. ref_ok t ref \<and> mw_reaches t ref \<Longrightarrow> search_inv t s \<Longrightarrow>
     whites t s < k \<Longrightarrow> above t s refs \<Longrightarrow>
     search_outcome t refs s (fold_each (\<lambda>_ child s. visit t k child s) i refs s)"
proof (induction refs arbitrary: s i)
  case Nil
  then show ?case by (simp add: search_outcome_def)
next
  case (Cons ref refs)
  have hd: "search_outcome t [ref] s (visit t k ref s)"
    using visit Cons.prems by (simp add: above_def)
  show ?case
  proof (cases "visit t k ref s")
    case (Inl f)
    with hd show ?thesis by (simp add: search_outcome_def)
  next
    case (Inr s')
    with hd have s': "search_inv t s'" "extends t s s'" "visited s' ref"
      by (simp_all add: search_outcome_def)
    have "search_outcome t refs s' (fold_each (\<lambda>_ child s. visit t k child s) (Suc i) refs s')"
    proof (rule Cons.IH)
      show "whites t s' < k" using extends_whites [OF s'(2)] Cons.prems(3) by simp
      show "above t s' refs" using above_extends [OF s'(2) Cons.prems(4)] by (simp add: above_def)
    qed (use Cons.prems s' in simp_all)
    then show ?thesis
      using Inr s' Cons.prems(1) by (auto simp: search_outcome_def split: sum.splits
          dest: extends_trans extends_visited)
  qed
qed

text \<open>Colouring a white node gray, and a gray node whose children are finished black.\<close>

definition gray :: "nat \<Rightarrow> visit_state \<Rightarrow> visit_state" where
  "gray i s = s\<lparr>vs_state := (vs_state s)[i := 1], vs_nodes := (vs_nodes s)[i := True]\<rparr>"

definition black :: "nat \<Rightarrow> visit_state \<Rightarrow> visit_state" where
  "black i s = s\<lparr>vs_state := (vs_state s)[i := 2]\<rparr>"

lemma gray_inv:
  assumes "arena_ok t" and "search_inv t s" and "i < node_count t" and "vs_state s ! i = 0"
    and "mw_reaches t (node_ref (int i))"
  shows "search_inv t (gray i s) \<and> whites t (gray i s) < whites t s"
proof -
  have len: "length (vs_state s) = node_count t" "length (vs_nodes s) = node_count t"
    using assms(2) by (simp_all add: search_inv_def)
  from assms(2) obtain r where r: "\<forall>j < node_count t. vs_state s ! j = 2 \<longrightarrow>
      (\<forall>c \<in> set (children_of t j). visited s c \<and>
         (cr_kind c = ChildNode \<longrightarrow> (r (nat (cr_index c)) :: nat) < r j))"
    by (auto simp: search_inv_def)
  have "visited (gray i s) c" if "ref_ok t c" "visited s c" for c
    using that assms(3,4) len by (cases rule: ref_ok_cases) (auto simp: visited_def gray_def nth_list_update)
  then have kids: "\<forall>j < node_count t. vs_state (gray i s) ! j = 2 \<longrightarrow>
      (\<forall>c \<in> set (children_of t j). visited (gray i s) c \<and>
         (cr_kind c = ChildNode \<longrightarrow> r (nat (cr_index c)) < r j))"
    using r children_ref_ok [OF assms(1)] len assms(3) by (auto simp: gray_def nth_list_update split: if_splits)
  have "search_inv t (gray i s)"
    unfolding search_inv_def
  proof (intro conjI)
    show "\<exists>r. \<forall>j < node_count t. vs_state (gray i s) ! j = 2 \<longrightarrow>
        (\<forall>c \<in> set (children_of t j). visited (gray i s) c \<and>
           (cr_kind c = ChildNode \<longrightarrow> (r (nat (cr_index c)) :: nat) < r j))"
      using kids by blast
  qed (use assms(2,3,5) in \<open>auto simp: search_inv_def gray_def nth_list_update\<close>)
  moreover have "{j. j < node_count t \<and> vs_state (gray i s) ! j = 0} \<subset>
      {j. j < node_count t \<and> vs_state s ! j = 0}"
    using assms(3,4) len by (auto simp: gray_def nth_list_update split: if_splits)
  then have "whites t (gray i s) < whites t s"
    unfolding whites_def by (rule psubset_card_mono [rotated]) simp
  ultimately show ?thesis ..
qed

lemma black_inv:
  assumes "arena_ok t" and "search_inv t s" and "i < node_count t" and "vs_state s ! i = 1"
    and "\<forall>c \<in> set (children_of t i). visited s c"
  shows "search_inv t (black i s)"
proof -
  have len: "length (vs_state s) = node_count t" using assms(2) by (simp add: search_inv_def)
  from assms(2) obtain r where r: "\<forall>j < node_count t. vs_state s ! j = 2 \<longrightarrow>
      (\<forall>c \<in> set (children_of t j). visited s c \<and>
         (cr_kind c = ChildNode \<longrightarrow> (r (nat (cr_index c)) :: nat) < r j))"
    by (auto simp: search_inv_def)
  define r' where "r' = r(i := Suc (\<Sum>j < node_count t. r j))"
  have keeps: "visited (black i s) c" if "ref_ok t c" "visited s c" for c
    using that assms(3) len by (cases rule: ref_ok_cases) (auto simp: visited_def black_def nth_list_update)
  have small: "r' (nat (cr_index c)) = r (nat (cr_index c)) \<and> r (nat (cr_index c)) < r' i"
    if c: "ref_ok t c" "visited s c" "cr_kind c = ChildNode" for c
  proof -
    from c obtain j where j: "c = node_ref (int j)" "j < node_count t" by (auto elim: ref_ok_cases)
    with c assms(4) have "j \<noteq> i" by (auto simp: visited_def)
    moreover have "r j \<le> (\<Sum>j < node_count t. r j)" using j(2) by (intro member_le_sum) simp_all
    ultimately show ?thesis by (simp add: r'_def j(1))
  qed
  have "visited (black i s) c \<and> (cr_kind c = ChildNode \<longrightarrow> r' (nat (cr_index c)) < r' j)"
    if j: "j < node_count t" "vs_state (black i s) ! j = 2" "c \<in> set (children_of t j)" for j c
  proof (cases "j = i")
    case True
    with j(3) assms(5) have "visited s c" by simp
    with children_ref_ok [OF assms(1) j(1,3)] keeps [of c] small [of c] True show ?thesis by simp
  next
    case False
    with j(2) have "vs_state s ! j = 2" by (simp add: black_def)
    then have "visited s c" "cr_kind c = ChildNode \<longrightarrow> r (nat (cr_index c)) < r j" using r j by blast+
    moreover have "r' j = r j" using False by (simp add: r'_def)
    ultimately show ?thesis using keeps small children_ref_ok [OF assms(1) j(1,3)] by simp
  qed
  then have kids: "\<forall>j < node_count t. vs_state (black i s) ! j = 2 \<longrightarrow>
      (\<forall>c \<in> set (children_of t j). visited (black i s) c \<and>
         (cr_kind c = ChildNode \<longrightarrow> r' (nat (cr_index c)) < r' j))" by blast
  show ?thesis
    unfolding search_inv_def
  proof (intro conjI)
    show "\<exists>r. \<forall>j < node_count t. vs_state (black i s) ! j = 2 \<longrightarrow>
        (\<forall>c \<in> set (children_of t j). visited (black i s) c \<and>
           (cr_kind c = ChildNode \<longrightarrow> (r (nat (cr_index c)) :: nat) < r j))"
      using kids by blast
  qed (use assms(2,3,4) in \<open>auto simp: search_inv_def black_def nth_list_update\<close>)
qed

lemma visit_white:
  assumes "i < node_count t" and "search_inv t s" and "vs_state s ! i = 0"
  shows "visit t (Suc k) (node_ref (int i)) s =
     and_then (fold_each (\<lambda>_ child s. visit t k child s) 0 (children_of t i) (gray i s)) (\<lambda>s'.
     and_then (update_at (vs_state s') (int i) 2) (\<lambda>st. Inr (s'\<lparr>vs_state := st\<rparr>)))"
  using assms by (simp add: visit.simps search_inv_def gray_def children_of_def)

lemma search_node:
  assumes ok: "arena_ok t" and s: "search_inv t s" and i: "i < node_count t" "vs_state s ! i = 0"
    and reach: "mw_reaches t (node_ref (int i))" and above: "above t s [node_ref (int i)]"
    and out: "search_outcome t (children_of t i) (gray i s)
      (fold_each (\<lambda>_ child s. visit t k child s) 0 (children_of t i) (gray i s))"
  shows "search_outcome t [node_ref (int i)] s (visit t (Suc k) (node_ref (int i)) s)"
proof (cases "fold_each (\<lambda>_ child s. visit t k child s) 0 (children_of t i) (gray i s)")
  case (Inl f)
  with out show ?thesis unfolding visit_white [OF i(1) s i(2)] by (simp add: search_outcome_def)
next
  case (Inr s')
  have len: "length (vs_state s) = node_count t" using s by (simp add: search_inv_def)
  from out Inr have s': "search_inv t s'" "extends t (gray i s) s'" "\<forall>c \<in> set (children_of t i). visited s' c"
    by (simp_all add: search_outcome_def)
  have "vs_state (gray i s) ! i = 1" using i(1) len by (simp add: gray_def)
  then have gray: "vs_state s' ! i = 1" using s'(2) i(1) by (simp add: extends_def)
  have inv: "search_inv t (black i s')" by (rule black_inv [OF ok s'(1) i(1) gray s'(3)])
  have "extends t s (black i s')"
    unfolding extends_def
  proof (intro conjI allI impI)
    fix j assume j: "j < node_count t"
    have len': "length (vs_state s') = node_count t" using s'(1) by (simp add: search_inv_def)
    show "vs_state (black i s') ! j = vs_state s ! j" if "vs_state s ! j \<noteq> 0"
      using that i j s'(2) len len' by (auto simp: extends_def gray_def black_def nth_list_update)
    show "vs_state (black i s') ! j \<in> {0, 2}" if "vs_state s ! j = 0"
      using that i j s'(2) len len' by (cases "j = i") (auto simp: extends_def gray_def black_def)
  next
    fix j assume "j < length (mt_leaves t)" "vs_leaves s ! j"
    with s'(2) show "vs_leaves (black i s') ! j" by (simp add: extends_def gray_def black_def)
  qed
  moreover have "visited (black i s') (node_ref (int i))"
    using s'(1) i(1) by (simp add: visited_def black_def search_inv_def)
  moreover have "visit t (Suc k) (node_ref (int i)) s = Inr (black i s')"
    using s'(1) i(1) unfolding visit_white [OF i(1) s i(2)]
    by (simp add: Inr search_inv_def black_def)
  ultimately show ?thesis using inv by (simp add: search_outcome_def)
qed

definition mark_leaf :: "nat \<Rightarrow> visit_state \<Rightarrow> visit_state" where
  "mark_leaf i s = s\<lparr>vs_leaves := (vs_leaves s)[i := True]\<rparr>"

lemma mark_leaf_inv:
  assumes "arena_ok t" and "search_inv t s" and "i < length (mt_leaves t)"
    and "mw_reaches t (leaf_ref (int i))"
  shows "search_inv t (mark_leaf i s)"
proof -
  from assms(2) obtain r where r: "\<forall>j < node_count t. vs_state s ! j = 2 \<longrightarrow>
      (\<forall>c \<in> set (children_of t j). visited s c \<and>
         (cr_kind c = ChildNode \<longrightarrow> (r (nat (cr_index c)) :: nat) < r j))"
    by (auto simp: search_inv_def)
  have "visited (mark_leaf i s) c" if "ref_ok t c" "visited s c" for c
    using that assms(2,3)
    by (cases rule: ref_ok_cases) (auto simp: visited_def mark_leaf_def search_inv_def nth_list_update)
  then have kids: "\<forall>j < node_count t. vs_state (mark_leaf i s) ! j = 2 \<longrightarrow>
      (\<forall>c \<in> set (children_of t j). visited (mark_leaf i s) c \<and>
         (cr_kind c = ChildNode \<longrightarrow> r (nat (cr_index c)) < r j))"
    using r children_ref_ok [OF assms(1)] by (simp add: mark_leaf_def)
  show ?thesis
    unfolding search_inv_def
  proof (intro conjI)
    show "\<exists>r. \<forall>j < node_count t. vs_state (mark_leaf i s) ! j = 2 \<longrightarrow>
        (\<forall>c \<in> set (children_of t j). visited (mark_leaf i s) c \<and>
           (cr_kind c = ChildNode \<longrightarrow> (r (nat (cr_index c)) :: nat) < r j))"
      using kids by blast
  qed (use assms(2-4) in \<open>auto simp: search_inv_def mark_leaf_def nth_list_update\<close>)
qed

lemma above_children:
  assumes "above t s [node_ref (int i)]" and "i < node_count t" and "length (vs_state s) = node_count t"
  shows "above t (gray i s) (children_of t i)"
  unfolding above_def
proof (intro allI impI ballI)
  fix r c j
  assume r: "edge_rank t r" and c: "c \<in> set (children_of t i)" "cr_kind c = ChildNode"
    and j: "j < node_count t" "vs_state (gray i s) ! j = 1"
  have less: "r (nat (cr_index c)) < r i" using r c assms(2) by (auto simp: edge_rank_def)
  show "r (nat (cr_index c)) < r j"
  proof (cases "j = i")
    case True
    with less show ?thesis by simp
  next
    case False
    with j(2) have "vs_state s ! j = 1" by (simp add: gray_def)
    then have "r i < r j" using assms(1) r j(1) by (simp add: above_def)
    with less show ?thesis by simp
  qed
qed

lemma visit_spec:
  assumes "arena_ok t"
  shows "ref_ok t ref \<Longrightarrow> search_inv t s \<Longrightarrow> mw_reaches t ref \<Longrightarrow> whites t s < k \<Longrightarrow>
     above t s [ref] \<Longrightarrow> search_outcome t [ref] s (visit t k ref s)"
proof (induction k arbitrary: ref s)
  case 0
  then show ?case by simp
next
  case (Suc k)
  from Suc.prems(1) show ?case
  proof (cases rule: ref_ok_cases)
    case (leaf i)
    have "visit t (Suc k) ref s = Inr (mark_leaf i s)"
      using leaf Suc.prems(2) by (simp add: visit.simps mark_leaf_def search_inv_def)
    then show ?thesis
      using leaf Suc.prems(2,3) mark_leaf_inv [OF assms Suc.prems(2) leaf(2)]
      by (auto simp: search_outcome_def extends_def mark_leaf_def visited_def search_inv_def nth_list_update)
  next
    case (node i)
    have len: "length (vs_state s) = node_count t" using Suc.prems(2) by (simp add: search_inv_def)
    consider "vs_state s ! i = 0" | "vs_state s ! i = 1" | "vs_state s ! i = 2"
      using Suc.prems(2) node(2) by (fastforce simp: search_inv_def le_Suc_eq numeral_2_eq_2)
    then show ?thesis
    proof cases
      case 1
      have "search_outcome t (children_of t i) (gray i s)
          (fold_each (\<lambda>_ child s. visit t k child s) 0 (children_of t i) (gray i s))"
      proof (rule search_fold [OF Suc.IH])
        show "\<forall>c \<in> set (children_of t i). ref_ok t c \<and> mw_reaches t c"
          using children_ref_ok [OF assms node(2)] mw_reaches.child [OF Suc.prems(3,1)] node by simp
        have "search_inv t (gray i s) \<and> whites t (gray i s) < whites t s"
          by (rule gray_inv [OF assms Suc.prems(2) node(2) 1]) (use Suc.prems(3) node(1) in simp)
        then show "search_inv t (gray i s)" "whites t (gray i s) < k"
          using Suc.prems(4) by simp_all
        show "above t (gray i s) (children_of t i)"
          by (rule above_children [OF _ node(2) len]) (use Suc.prems(5) node(1) in simp)
      qed
      then show ?thesis
        using search_node [OF assms Suc.prems(2) node(2) 1] Suc.prems(3,5) unfolding node(1) by blast
    next
      case 2
      then have "\<not> (\<exists>r. edge_rank t r)" using Suc.prems(5) node by (auto simp: above_def)
      with 2 node len show ?thesis by (simp add: visit.simps search_outcome_def err_def)
    next
      case 3
      with node len Suc.prems(2) show ?thesis
        by (simp add: visit.simps search_outcome_def visited_def)
    qed
  qed
qed

section \<open>Validation decides well-formedness\<close>

definition initial_search :: "multiway_tree \<Rightarrow> visit_state" where
  "initial_search t = \<lparr>
     vs_state = replicate (node_count t) 0,
     vs_nodes = replicate (node_count t) False,
     vs_leaves = replicate (length (mt_leaves t)) False\<rparr>"

lemma initial_outcome:
  assumes "arena_ok t" and "ref_ok t (mt_root t)"
  shows "search_outcome t [mt_root t] (initial_search t)
     (visit t (node_count t + 2) (mt_root t) (initial_search t))"
proof (rule visit_spec [OF assms])
  show "search_inv t (initial_search t)" by (simp add: search_inv_def initial_search_def)
  show "mw_reaches t (mt_root t)" by (rule mw_reaches.root)
  have "whites t (initial_search t) \<le> card {..<node_count t}"
    unfolding whites_def by (rule card_mono) auto
  then show "whites t (initial_search t) < node_count t + 2" by simp
  show "above t (initial_search t) [mt_root t]" by (simp add: above_def initial_search_def)
qed

lemma reaches_visited:
  assumes "arena_ok t" and "search_inv t s" and "ref_ok t (mt_root t)" and "visited s (mt_root t)"
  shows "mw_reaches t ref \<Longrightarrow> ref_ok t ref \<and> visited s ref"
proof (induction rule: mw_reaches.induct)
  case root
  then show ?case using assms(3,4) by simp
next
  case (child ref c)
  then obtain i where i: "ref = node_ref (int i)" "i < node_count t" by (auto elim: ref_ok_cases)
  with child have "vs_state s ! i = 2" by (simp add: visited_def)
  then show ?case
    using assms(1,2) i child.hyps children_ref_ok by (fastforce simp: search_inv_def)
qed

lemma multiway_validate_ok [ok_iff]: "multiway_validate t = Inr u \<longleftrightarrow> multiway_wf t"
proof -
  let ?out = "visit t (node_count t + 2) (mt_root t) (initial_search t)"
  have split: "multiway_validate t = Inr u \<longleftrightarrow>
      ref_ok t (mt_root t) \<and> arena_ok t \<and> list_all finite_scalar (mt_leaves t) \<and>
      (\<exists>s. ?out = Inr s \<and> list_all id (vs_nodes s) \<and> list_all id (vs_leaves s))"
    by (simp add: multiway_validate_def ok_iff arena_ok_def list_all_iff_nth
        initial_search_def [symmetric])
  show ?thesis
  proof (cases "ref_ok t (mt_root t) \<and> arena_ok t \<and> list_all finite_scalar (mt_leaves t)")
    case False
    then show ?thesis unfolding split multiway_wf_def by blast
  next
    case True
    note out = initial_outcome [of t] True
    show ?thesis
    proof (cases ?out)
      case (Inl f)
      then have "\<not> (\<exists>r. edge_rank t r)" using out by (simp add: search_outcome_def)
      then have "\<not> multiway_wf t" using True by (simp add: multiway_wf_def edge_rank_iff)
      with Inl show ?thesis unfolding split by simp
    next
      case (Inr s)
      then have s: "search_inv t s" "extends t (initial_search t) s" "visited s (mt_root t)"
        using out by (simp_all add: search_outcome_def)
      have colours: "vs_state s ! i \<in> {0, 2}" if "i < node_count t" for i
        using s(2) that by (simp add: extends_def initial_search_def)
      have len: "length (vs_nodes s) = node_count t" "length (vs_leaves s) = length (mt_leaves t)"
        using s(1) by (simp_all add: search_inv_def)
      have "list_all id (vs_nodes s) \<and> list_all id (vs_leaves s) \<longleftrightarrow> multiway_wf t"
      proof
        assume all: "list_all id (vs_nodes s) \<and> list_all id (vs_leaves s)"
        then have "vs_state s ! i = 2" if "i < node_count t" for i
          using that colours [OF that] s(1) len by (auto simp: list_all_iff_nth search_inv_def)
        moreover obtain r where "\<forall>i < node_count t. vs_state s ! i = 2 \<longrightarrow>
            (\<forall>c \<in> set (children_of t i). visited s c \<and>
               (cr_kind c = ChildNode \<longrightarrow> (r (nat (cr_index c)) :: nat) < r i))"
          using s(1) by (auto simp: search_inv_def)
        ultimately have "edge_rank t r" by (simp add: edge_rank_def)
        then have "\<exists>r. edge_rank t r" by blast
        then show "multiway_wf t"
          using True all s(1) len edge_rank_iff [of t]
          by (auto simp: multiway_wf_def search_inv_def list_all_iff_nth)
      next
        assume wf: "multiway_wf t"
        note v = reaches_visited [OF _ s(1) _ s(3)]
        have "vs_nodes s ! i" if "i < node_count t" for i
          using wf v [of "node_ref (int i)"] that s(1) by (simp add: multiway_wf_def visited_def search_inv_def)
        moreover have "vs_leaves s ! i" if "i < length (mt_leaves t)" for i
          using wf v [of "leaf_ref (int i)"] that by (simp add: multiway_wf_def visited_def)
        ultimately show "list_all id (vs_nodes s) \<and> list_all id (vs_leaves s)"
          by (simp add: list_all_iff_nth len)
      qed
      with True Inr show ?thesis unfolding split by simp
    qed
  qed
qed

lemma multiway_validate_safe [simp]: "safe (multiway_validate t)"
proof -
  have "safe (visit t (node_count t + 2) (mt_root t) (initial_search t))"
    if "ref_ok t (mt_root t)" "arena_ok t"
    using initial_outcome [OF that(2,1)] by (auto simp: search_outcome_def safe_def split: sum.splits)
  then show ?thesis
    unfolding multiway_validate_def initial_search_def [symmetric]
    by (auto simp: ok_iff arena_ok_def list_all_iff_nth intro!: safe_intro)
qed

section \<open>The tree an arena denotes\<close>

datatype mtree = MLeaf nat | MNode int "scalar list" "mtree list"

text \<open>
  The leaf a multiway tree selects: at every node, the child whose position is the number of
  thresholds that are not above the value.
\<close>

primrec mtree_route :: "scalar list \<Rightarrow> mtree \<Rightarrow> nat" where
  "mtree_route features (MLeaf i) = i"
| "mtree_route features (MNode f thresholds kids) =
     map (mtree_route features) kids !
       length (filter (\<lambda>th. \<not> scalar_lt (features ! nat f) th) thresholds)"

primrec mtree_cost :: "mtree \<Rightarrow> path_vector" where
  "mtree_cost (MLeaf i) = zero_path"
| "mtree_cost (MNode f thresholds kids) =
     node_path (int (length kids)) (fold (\<lambda>c m. max_path m c) (map mtree_cost kids) zero_path)"

inductive denotes :: "multiway_tree \<Rightarrow> child_ref \<Rightarrow> mtree \<Rightarrow> bool" for t where
  leaf: "i < length (mt_leaves t) \<Longrightarrow> denotes t (leaf_ref (int i)) (MLeaf i)"
| node: "i < node_count t \<Longrightarrow> list_all2 (denotes t) (children_of t i) kids \<Longrightarrow>
    denotes t (node_ref (int i)) (MNode (in_feature (mt_nodes t ! i)) (in_thresholds (mt_nodes t ! i)) kids)"

lemma denotes_exists:
  assumes "arena_ok t" and r: "edge_rank t r"
  shows "ref_ok t ref \<Longrightarrow> \<exists>m. denotes t ref m"
proof (induction "if cr_kind ref = ChildNode then Suc (r (nat (cr_index ref))) else 0" arbitrary: ref
    rule: less_induct)
  case less
  from less.prems show ?case
  proof (cases rule: ref_ok_cases)
    case (leaf i)
    then show ?thesis using denotes.leaf by blast
  next
    case (node i)
    have "\<exists>m. denotes t c m" if "c \<in> set (children_of t i)" for c
    proof (rule less.hyps)
      show "ref_ok t c" by (rule children_ref_ok [OF assms(1) node(2) that])
      show "(if cr_kind c = ChildNode then Suc (r (nat (cr_index c))) else 0) <
          (if cr_kind ref = ChildNode then Suc (r (nat (cr_index ref))) else 0)"
        using r that node by (simp add: edge_rank_def)
    qed
    then obtain m where "\<forall>c \<in> set (children_of t i). denotes t c (m c)" by metis
    then have "list_all2 (denotes t) (children_of t i) (map m (children_of t i))"
      by (simp add: list_all2_conv_all_nth)
    then show ?thesis using denotes.node [OF node(2)] node(1) by blast
  qed
qed

lemma denotes_unique: "denotes t ref m \<Longrightarrow> denotes t ref m' \<Longrightarrow> m = m'"
proof (induction arbitrary: m' rule: denotes.induct)
  case (leaf i)
  from leaf.prems show ?case by (cases rule: denotes.cases) (simp_all add: node_ref_def leaf_ref_def)
next
  case (node i kids)
  from node.prems obtain kids' where m': "m' = MNode (in_feature (mt_nodes t ! i)) (in_thresholds (mt_nodes t ! i)) kids'"
    "list_all2 (denotes t) (children_of t i) kids'"
    by (cases rule: denotes.cases) (auto simp: node_ref_def leaf_ref_def)
  have "kids = kids'"
    using node.IH m'(2) by (auto simp: list_all2_conv_all_nth intro: nth_equalityI)
  with m' show ?case by simp
qed

section \<open>Intervals\<close>

lemma find_interval_shift: "find_interval v (Suc i) ts = Suc (find_interval v i ts)"
  by (induction ts arbitrary: i) simp_all

lemma find_interval_le: "find_interval v 0 ts \<le> length ts"
  by (induction ts) (simp_all add: find_interval_shift)

text \<open>
  On strictly increasing thresholds of one kind, the first threshold above the value comes after
  exactly the thresholds that are not above it.
\<close>

lemma find_interval_count:
  assumes "scalar_ok k v" and "list_all (scalar_ok k) ts"
    and "\<forall>j. 0 < j \<and> j < length ts \<longrightarrow> scalar_lt (ts ! (j - 1)) (ts ! j)"
  shows "find_interval v 0 ts = length (filter (\<lambda>th. \<not> scalar_lt v th) ts)"
  using assms(2,3)
proof (induction ts)
  case Nil
  then show ?case by simp
next
  case (Cons t ts)
  have tail: "\<forall>j. 0 < j \<and> j < length ts \<longrightarrow> scalar_lt (ts ! (j - 1)) (ts ! j)"
  proof (intro allI impI)
    fix j assume "0 < j \<and> j < length ts"
    with Cons.prems(2) [rule_format, of "Suc j"] show "scalar_lt (ts ! (j - 1)) (ts ! j)"
      by (cases j) simp_all
  qed
  show ?case
  proof (cases "scalar_lt v t")
    case True
    have "scalar_lt v th" if "th \<in> set ts" for th
    proof -
      from that obtain j where j: "j < length ts" "ts ! j = th" by (auto simp: in_set_conv_nth)
      have "scalar_lt ((t # ts) ! 0) ((t # ts) ! Suc j)"
        by (rule scalars.strictly_increasing_nth [of _ k])
          (use Cons.prems j(1) in \<open>auto simp: list_all_iff_nth\<close>)
      then have "scalar_lt t th" using j(2) by simp
      then show ?thesis
        using scalars.lt_trans [of k v t th] True assms(1) Cons.prems(1) that by (simp add: list_all_iff)
    qed
    with True show ?thesis by simp
  next
    case False
    with Cons.IH Cons.prems(1) tail show ?thesis by (simp add: find_interval_shift)
  qed
qed

section \<open>Routing an arena\<close>

definition mw_covers :: "multiway_tree \<Rightarrow> scalar list \<Rightarrow> bool" where
  "mw_covers t features \<longleftrightarrow> list_all (\<lambda>n. in_feature n < int (length features)) (mt_nodes t)"

definition mw_typed :: "go_kind \<Rightarrow> multiway_tree \<Rightarrow> scalar list \<Rightarrow> bool" where
  "mw_typed k t features \<longleftrightarrow>
     list_all (\<lambda>x. scalar_kind x = k) features \<and>
     list_all (\<lambda>n. list_all (\<lambda>x. scalar_kind x = k) (in_thresholds n)) (mt_nodes t)"

text \<open>Fuel: a rank bounded by the number of nodes.\<close>

lemma edge_rank_bounded:
  assumes "arena_ok t" and r: "edge_rank t r"
  shows "\<exists>b. edge_rank t b \<and> (\<forall>i. b i \<le> node_count t)"
proof -
  define b where "b i = card {j. j < node_count t \<and> r j < r i}" for i
  have "b (nat (cr_index c)) < b i"
    if "i < node_count t" "c \<in> set (children_of t i)" "cr_kind c = ChildNode" for i c
  proof -
    have "nat (cr_index c) < node_count t"
      using children_ref_ok [OF assms(1) that(1,2)] that(3) by (auto simp: ref_ok_def)
    moreover have "r (nat (cr_index c)) < r i" using r that by (auto simp: edge_rank_def)
    ultimately have "{j. j < node_count t \<and> r j < r (nat (cr_index c))} \<subset> {j. j < node_count t \<and> r j < r i}"
      by auto
    then show ?thesis unfolding b_def by (rule psubset_card_mono [rotated]) simp
  qed
  then have "edge_rank t b" by (simp add: edge_rank_def)
  moreover have "b i \<le> card {..<node_count t}" for i
    unfolding b_def by (rule card_mono) auto
  ultimately show ?thesis by auto
qed

definition ref_fuel :: "(nat \<Rightarrow> nat) \<Rightarrow> child_ref \<Rightarrow> nat" where
  "ref_fuel b ref = (if cr_kind ref = ChildNode then Suc (b (nat (cr_index ref))) else 0)"

lemma ref_fuel_child:
  "edge_rank t b \<Longrightarrow> i < node_count t \<Longrightarrow> c \<in> set (children_of t i) \<Longrightarrow>
     ref_fuel b c < ref_fuel b (node_ref (int i))"
  by (auto simp: ref_fuel_def edge_rank_def)

lemma multiway_route_loop_spec:
  assumes ok: "arena_ok t" and b: "edge_rank t b"
    and typed: "mw_typed k t features" "list_all finite_scalar features"
  shows "ref_fuel b ref < fuel \<Longrightarrow> denotes t ref m \<Longrightarrow> ref_ok t ref \<Longrightarrow>
     (case multiway_route_loop t features fuel ref of
        Inr i \<Rightarrow> i = int (mtree_route features m) \<and> mtree_route features m < length (mt_leaves t)
      | Inl f \<Rightarrow> (\<exists>e. f = Err e) \<and> \<not> mw_covers t features)"
proof (induction fuel arbitrary: ref m)
  case 0
  then show ?case by simp
next
  case (Suc fuel)
  from Suc.prems(3) show ?case
  proof (cases rule: ref_ok_cases)
    case (leaf i)
    with Suc.prems(2) have "m = MLeaf i" using denotes_unique denotes.leaf by blast
    with leaf show ?thesis by simp
  next
    case (node i)
    let ?n = "mt_nodes t ! i"
    from Suc.prems(2) node obtain kids where m: "m = MNode (in_feature ?n) (in_thresholds ?n) kids"
      and kids: "list_all2 (denotes t) (children_of t i) kids"
      by (cases rule: denotes.cases) (auto simp: node_ref_def leaf_ref_def)
    have n: "node_ok t ?n" using ok node(2) by (simp add: arena_ok_def list_all_iff)
    show ?thesis
    proof (cases "in_feature ?n < int (length features)")
      case False
      then have "\<not> mw_covers t features" using node(2) by (auto simp: mw_covers_def list_all_iff_nth)
      with False node show ?thesis by (simp add: err_def)
    next
      case True
      define v where "v = features ! nat (in_feature ?n)"
      have "nat (in_feature ?n) < length features" using True n by (auto simp: node_ok_def)
      then have "scalar_ok k v"
        using typed by (simp add: scalar_ok_def v_def mw_typed_def list_all_iff)
      moreover have "list_all (scalar_ok k) (in_thresholds ?n)"
        using typed(1) n node(2) by (auto simp: mw_typed_def node_ok_def scalar_ok_def list_all_iff)
      moreover have "\<forall>j. 0 < j \<and> j < length (in_thresholds ?n) \<longrightarrow>
          scalar_lt (in_thresholds ?n ! (j - 1)) (in_thresholds ?n ! j)"
        using n by (simp add: node_ok_def)
      ultimately have iv: "find_interval v 0 (in_thresholds ?n) =
          length (filter (\<lambda>th. \<not> scalar_lt v th) (in_thresholds ?n))" by (rule find_interval_count)
      define j where "j = find_interval v 0 (in_thresholds ?n)"
      have j: "j < length (children_of t i)"
        using n find_interval_le [of v "in_thresholds ?n"] by (simp add: j_def node_ok_def children_of_def)
      define c where "c = children_of t i ! j"
      have c: "c \<in> set (children_of t i)" using j by (simp add: c_def)
      have step: "multiway_route_loop t features (Suc fuel) ref = multiway_route_loop t features fuel c"
        using node True n j by (simp add: node_ok_def v_def j_def c_def children_of_def)
      have child: "denotes t c (kids ! j)" "mtree_route features m = mtree_route features (kids ! j)"
        using kids j iv by (simp_all add: c_def m list_all2_conv_all_nth v_def j_def)
      have fuel: "ref_fuel b c < fuel" using ref_fuel_child [OF b node(2) c] Suc.prems(1) node(1) by simp
      show ?thesis
        using Suc.IH [OF fuel child(1) children_ref_ok [OF ok node(2) c]] unfolding step child(2) .
    qed
  qed
qed

declare multiway_route_loop.simps [simp del]

lemma multiway_wf_graph:
  assumes "multiway_wf t"
  obtains b m where "edge_rank t b" "ref_fuel b (mt_root t) < node_count t + 2" "denotes t (mt_root t) m"
proof -
  have ok: "arena_ok t" "ref_ok t (mt_root t)" using assms by (simp_all add: multiway_wf_def)
  obtain r where "edge_rank t r" using assms edge_rank_iff [OF ok(1)] by (auto simp: multiway_wf_def)
  then obtain b where b: "edge_rank t b" "\<forall>i. b i \<le> node_count t"
    using edge_rank_bounded [OF ok(1)] by blast
  obtain m where "denotes t (mt_root t) m" using denotes_exists [OF ok(1) b(1) ok(2)] by blast
  moreover have "ref_fuel b (mt_root t) < node_count t + 2"
    using b(2) [rule_format, of "nat (cr_index (mt_root t))"] by (simp add: ref_fuel_def)
  ultimately show thesis using that b(1) by blast
qed

section \<open>The memoised cost walk\<close>

definition memo_inv :: "multiway_tree \<Rightarrow> walk_state \<Rightarrow> bool" where
  "memo_inv t s \<longleftrightarrow>
     length (fst s) = node_count t \<and> length (snd s) = node_count t \<and>
     (\<forall>i < node_count t. snd s ! i \<longrightarrow>
        (\<forall>m. denotes t (node_ref (int i)) m \<longrightarrow> fst s ! i = mtree_cost m))"

definition walk_outcome ::
  "multiway_tree \<Rightarrow> path_vector \<Rightarrow> (multiway_error, path_vector \<times> walk_state) res \<Rightarrow> bool" where
  "walk_outcome t v out \<longleftrightarrow> (\<exists>s. out = Inr (v, s) \<and> memo_inv t s)"

lemma walk_fold:
  assumes walk: "\<And>c m s. c \<in> set cs \<Longrightarrow> denotes t c m \<Longrightarrow> memo_inv t s \<Longrightarrow>
      walk_outcome t (mtree_cost m) (walk_costs t k c s)"
  shows "list_all2 (denotes t) cs ms \<Longrightarrow> memo_inv t s \<Longrightarrow>
     walk_outcome t (fold (\<lambda>c m. max_path m c) (map mtree_cost ms) cm)
       (fold_each (\<lambda>_ child (child_max, s).
          and_then (walk_costs t k child s) (\<lambda>(v, s). Inr (max_path child_max v, s))) i cs (cm, s))"
  using walk
proof (induction cs arbitrary: ms cm s i)
  case Nil
  then show ?case by (simp add: walk_outcome_def)
next
  case (Cons c cs)
  then obtain m ms' where ms: "ms = m # ms'" "denotes t c m" "list_all2 (denotes t) cs ms'"
    by (auto simp: list_all2_Cons1)
  have "walk_outcome t (mtree_cost m) (walk_costs t k c s)" using Cons.prems ms by simp
  then obtain s' where s': "walk_costs t k c s = Inr (mtree_cost m, s')" "memo_inv t s'"
    by (auto simp: walk_outcome_def)
  have "walk_outcome t (fold (\<lambda>c m. max_path m c) (map mtree_cost ms') (max_path cm (mtree_cost m)))
      (fold_each (\<lambda>_ child (child_max, s).
         and_then (walk_costs t k child s) (\<lambda>(v, s). Inr (max_path child_max v, s))) (Suc i) cs
         (max_path cm (mtree_cost m), s'))"
    by (rule Cons.IH [OF ms(3) s'(2)]) (use Cons.prems(3) in simp)
  then show ?case by (simp add: ms(1) s'(1))
qed

declare walk_costs.simps [simp del]

lemma walk_costs_spec:
  assumes ok: "arena_ok t" and b: "edge_rank t b"
  shows "ref_fuel b ref < fuel \<Longrightarrow> denotes t ref m \<Longrightarrow> ref_ok t ref \<Longrightarrow> memo_inv t s \<Longrightarrow>
     walk_outcome t (mtree_cost m) (walk_costs t fuel ref s)"
proof (induction fuel arbitrary: ref m s)
  case 0
  then show ?case by simp
next
  case (Suc fuel)
  from Suc.prems(3) show ?case
  proof (cases rule: ref_ok_cases)
    case (leaf i)
    with Suc.prems(2) have "m = MLeaf i" using denotes_unique denotes.leaf by blast
    with leaf Suc.prems(4) show ?thesis by (simp add: walk_costs.simps walk_outcome_def)
  next
    case (node i)
    let ?n = "mt_nodes t ! i"
    have len: "length (fst s) = node_count t" "length (snd s) = node_count t"
      using Suc.prems(4) by (simp_all add: memo_inv_def)
    show ?thesis
    proof (cases "snd s ! i")
      case True
      with Suc.prems(2,4) node have "fst s ! i = mtree_cost m" by (simp add: memo_inv_def)
      with True node len Suc.prems(4) show ?thesis by (simp add: walk_costs.simps walk_outcome_def)
    next
      case False
      from Suc.prems(2) node obtain kids where m: "m = MNode (in_feature ?n) (in_thresholds ?n) kids"
        and kids: "list_all2 (denotes t) (in_children ?n) kids"
        by (cases rule: denotes.cases) (auto simp: node_ref_def leaf_ref_def children_of_def)
      let ?cm = "fold (\<lambda>c m. max_path m c) (map mtree_cost kids) zero_path"
      have "walk_outcome t ?cm
          (fold_each (\<lambda>_ child (child_max, s).
             and_then (walk_costs t fuel child s) (\<lambda>(v, s). Inr (max_path child_max v, s)))
             0 (in_children ?n) (zero_path, s))"
      proof (rule walk_fold [OF _ kids Suc.prems(4)])
        fix c m' s' assume c: "c \<in> set (in_children ?n)" and d: "denotes t c m'" "memo_inv t s'"
        then have c': "c \<in> set (children_of t i)" by (simp add: children_of_def)
        show "walk_outcome t (mtree_cost m') (walk_costs t fuel c s')"
          using ref_fuel_child [OF b node(2) c'] Suc.prems(1) node(1) children_ref_ok [OF ok node(2) c'] d
          by (intro Suc.IH) simp_all
      qed
      then obtain s' where s': "fold_each (\<lambda>_ child (child_max, s).
             and_then (walk_costs t fuel child s) (\<lambda>(v, s). Inr (max_path child_max v, s)))
             0 (in_children ?n) (zero_path, s) = Inr (?cm, s')" "memo_inv t s'"
        by (auto simp: walk_outcome_def)
      have v: "node_path (int (length (in_children ?n))) ?cm = mtree_cost m"
        using list_all2_lengthD [OF kids] by (simp add: m)
      have len': "length (fst s') = node_count t" "length (snd s') = node_count t"
        using s'(2) by (simp_all add: memo_inv_def)
      have "walk_costs t (Suc fuel) ref s =
          Inr (mtree_cost m, ((fst s')[i := mtree_cost m], (snd s')[i := True]))"
        using node False len len' by (simp add: walk_costs.simps s'(1) v Let_def)
      moreover have "memo_inv t ((fst s')[i := mtree_cost m], (snd s')[i := True])"
        using s'(2) len' node denotes_unique [OF Suc.prems(2) [unfolded node(1)]]
        by (auto simp: memo_inv_def nth_list_update)
      ultimately show ?thesis by (simp add: walk_outcome_def)
    qed
  qed
qed

section \<open>Properties\<close>

text \<open>
  C13. Validate decides well-formedness: it accepts exactly the trees whose references and
  intervals are in order, whose graph is acyclic, and all of whose nodes and leaves are reachable
  from the root; on every other tree it returns an error, never panics, and the recursion of its
  search is bounded by the number of nodes.
\<close>

theorem multiway_validate_iff:
  "safe (multiway_validate t) \<and> (multiway_validate t = Inr () \<longleftrightarrow> multiway_wf t)"
  by (simp add: multiway_validate_ok)

text \<open>
  C14. A validated tree denotes exactly one finite tree, and on finite features of its kind that
  cover its nodes Route and Evaluate terminate with the leaf that tree selects, where the
  interval at a node is the number of thresholds that are not above the value.
\<close>

theorem multiway_route_correct:
  assumes "multiway_validate t = Inr ()" and "validate_finite_features features = Inr ()"
    and "mw_typed k t features" and "mw_covers t features"
  shows "\<exists>m. denotes t (mt_root t) m \<and> (\<forall>m'. denotes t (mt_root t) m' \<longrightarrow> m' = m) \<and>
     multiway_route t features = Inr (int (mtree_route features m)) \<and>
     multiway_evaluate t features = Inr (mt_leaves t ! mtree_route features m)"
proof -
  have wf: "multiway_wf t" and fin: "list_all finite_scalar features"
    using assms(1,2) by (simp_all add: ok_iff)
  then have ok: "arena_ok t" "ref_ok t (mt_root t)" by (simp_all add: multiway_wf_def)
  from wf obtain b m where g: "edge_rank t b" "ref_fuel b (mt_root t) < node_count t + 2"
    and m: "denotes t (mt_root t) m" by (rule multiway_wf_graph)
  have loop: "multiway_route_loop t features (node_count t + 2) (mt_root t) = Inr (int (mtree_route features m)) \<and>
      mtree_route features m < length (mt_leaves t)"
    using multiway_route_loop_spec [OF ok(1) g(1) assms(3) fin g(2) m ok(2)] assms(4)
    by (simp split: sum.splits)
  then have route: "multiway_route t features = Inr (int (mtree_route features m))"
    using assms(1,2) by (simp add: multiway_route_def)
  with loop have "multiway_evaluate t features = Inr (mt_leaves t ! mtree_route features m)"
    by (simp add: multiway_evaluate_def)
  with route m show ?thesis using denotes_unique by blast
qed

text \<open>
  The memoised walk of Metrics computes, for every validated tree, the cost that the
  unmemoised recursion assigns to the finite tree the arena denotes.
\<close>

theorem multiway_metrics_correct:
  assumes "multiway_validate t = Inr ()"
  shows "\<exists>m c. denotes t (mt_root t) m \<and> multiway_metrics t = Inr c \<and>
     cv_threshold_comparisons c = pv_comparisons (mtree_cost m) \<and>
     cv_branch_bits c = pv_branch_bits (mtree_cost m) \<and>
     cv_depth c = pv_depth (mtree_cost m) \<and> cv_structural_rounds c = pv_depth (mtree_cost m) \<and>
     cv_one_hot_states c = pv_one_hot (mtree_cost m) \<and>
     cv_selector_terms c = pv_selectors (mtree_cost m) \<and>
     cv_logical_bootstraps c = pv_bootstraps (mtree_cost m) \<and>
     cv_leaf_terms c = int (length (mt_leaves t))"
proof -
  have wf: "multiway_wf t" using assms by (simp add: ok_iff)
  then have ok: "arena_ok t" "ref_ok t (mt_root t)" by (simp_all add: multiway_wf_def)
  from wf obtain b m where g: "edge_rank t b" "ref_fuel b (mt_root t) < node_count t + 2"
    and m: "denotes t (mt_root t) m" by (rule multiway_wf_graph)
  have "memo_inv t (replicate (node_count t) zero_path, replicate (node_count t) False)"
    by (simp add: memo_inv_def)
  from walk_costs_spec [OF ok(1) g m ok(2) this] obtain s where
    "walk_costs t (node_count t + 2) (mt_root t)
      (replicate (node_count t) zero_path, replicate (node_count t) False) = Inr (mtree_cost m, s)"
    by (auto simp: walk_outcome_def)
  with m assms show ?thesis by (simp add: multiway_metrics_def) blast
qed

section \<open>A concrete tree\<close>

definition sample_multiway :: multiway_tree where
  "sample_multiway = \<lparr>
     mt_root = node_ref 0,
     mt_nodes = [\<lparr>in_feature = 0, in_thresholds = [u32_scalar 10, u32_scalar 20],
       in_children = [leaf_ref 0, leaf_ref 1, leaf_ref 0]\<rparr>],
     mt_leaves = [u32_scalar 7, u32_scalar 8]\<rparr>"

lemma sample_multiway_ok: "multiway_validate sample_multiway = Inr ()"
  by (simp add: multiway_validate_def sample_multiway_def validate_ref_def validate_interval_node_def
      visit.simps finite_scalar_float scalar_lt_float upt_rec)

theorem multiway_route_correct_witness:
  "multiway_evaluate sample_multiway [u32_scalar 15] = Inr (u32_scalar 8)"
proof -
  have h: "validate_finite_features [u32_scalar 15] = Inr ()"
    "mw_typed KUint32 sample_multiway [u32_scalar 15]" "mw_covers sample_multiway [u32_scalar 15]"
    by (simp_all add: ok_iff finite_scalar_float mw_typed_def mw_covers_def sample_multiway_def)
      (simp_all add: u32_scalar_def)
  obtain m where m: "denotes sample_multiway (mt_root sample_multiway) m"
    "multiway_evaluate sample_multiway [u32_scalar 15] =
       Inr (mt_leaves sample_multiway ! mtree_route [u32_scalar 15] m)"
    using multiway_route_correct [OF sample_multiway_ok h] by blast
  have "denotes sample_multiway (node_ref (int 0))
      (MNode (in_feature (mt_nodes sample_multiway ! 0)) (in_thresholds (mt_nodes sample_multiway ! 0))
        [MLeaf 0, MLeaf 1, MLeaf 0])"
    using denotes.leaf [of 0 sample_multiway] denotes.leaf [of 1 sample_multiway]
    by (intro denotes.node) (simp_all add: sample_multiway_def children_of_def)
  then have "m = MNode 0 [u32_scalar 10, u32_scalar 20] [MLeaf 0, MLeaf 1, MLeaf 0]"
    using denotes_unique m(1) by (fastforce simp: sample_multiway_def)
  with m(2) show ?thesis by (simp add: sample_multiway_def scalar_lt_float)
qed

theorem multiway_metrics_correct_witness:
  "\<exists>c. multiway_metrics sample_multiway = Inr c \<and> cv_leaf_terms c = 2"
  using multiway_metrics_correct [OF sample_multiway_ok] by (auto simp: sample_multiway_def)

end
