(* ===== verification/FloatExact.thy ===== *)
theory FloatExact
  imports GoScalar
begin

text \<open>
  Exactness of the floating-point operations on the values the tree evaluators produce: widening
  a float32, multiplying by the selector values 0 and 1, adding a zero, and subtracting selector
  values. All statements are about \<^verbatim>\<open>fp_val\<close>, the exact value of a pattern.
\<close>

section \<open>Representable magnitudes\<close>

lemma bitlen_mult: "0 < m \<Longrightarrow> bitlen (m * 2 ^ k) = bitlen m + k"
proof -
  assume m: "0 < m"
  note b = bitlen_bounds [OF m]
  have "0 < bitlen m" using b m by (cases "bitlen m") simp_all
  then obtain l where l: "bitlen m = Suc l" by (cases "bitlen m") simp_all
  have "2 ^ l * 2 ^ k \<le> m * 2 ^ k" and "m * 2 ^ k < 2 ^ Suc l * 2 ^ k"
    using b l by simp_all
  then have "bitlen (m * 2 ^ k) = Suc (l + k)"
    by (intro bitlen_unique) (simp_all add: power_add)
  with l show ?thesis by simp
qed

lemma mag_of_pack:
  assumes "2 ^ sh dvd m" and "bitlen m \<le> p + 1 + sh"
  shows "mag_of p (pack_mag p m) = m"
proof (cases "m < 2 ^ p")
  case True
  then show ?thesis by (simp add: pack_mag_def mag_of_def)
next
  case False
  then have m: "0 < m" by (cases m) simp_all
  note b = bitlen_bounds [OF m]
  have "(2::nat) ^ p < 2 ^ bitlen m" using False b by linarith
  then have lb: "p < bitlen m" by (rule two_power_less)
  then obtain d where d: "bitlen m = Suc (p + d)" by (metis less_imp_Suc_add add_Suc_right)
  have "d \<le> sh" using assms(2) d by simp
  then have "2 ^ d dvd m" using assms(1) le_imp_power_dvd dvd_trans by blast
  then obtain q where q: "m = q * 2 ^ d" by (metis dvd_div_mult_self)
  have "2 ^ p * 2 ^ d \<le> m" and "m < 2 * 2 ^ p * 2 ^ d" using b by (simp_all add: d power_add)
  then have lo: "2 ^ p \<le> q" and hi: "q < 2 * 2 ^ p" by (simp_all add: q)
  define r where "r = q - 2 ^ p"
  have r: "q = 2 ^ p + r" "r < 2 ^ p" using lo hi by (simp_all add: r_def)
  have "pack_mag p m = Suc d * 2 ^ p + r"
  proof -
    have "m div 2 ^ d = 2 ^ p + r" by (simp add: q r(1))
    then show ?thesis using False d by (simp add: pack_mag_def Let_def)
  qed
  moreover have "(Suc d * 2 ^ p + r) div 2 ^ p = Suc d" "(Suc d * 2 ^ p + r) mod 2 ^ p = r"
    using r(2) by (simp_all add: div_nat_eqI mod_mult_self3 del: mult_Suc)
  ultimately show ?thesis by (simp add: mag_of_def q r(1))
qed

lemma fp_inf_pattern_bound: "fp_inf_pattern w p < 2 ^ (w + p)"
proof -
  have "(2 ^ w - 1) * 2 ^ p < (2 ^ w * 2 ^ p :: nat)" by (rule mult_strict_right_mono) simp_all
  then show ?thesis by (simp add: fp_inf_pattern_def power_add)
qed

text \<open>A pattern built from a sign and a magnitude below infinity reads back as both.\<close>

lemma fp_read_sign:
  assumes "a < 2 ^ (w + p)"
  shows "fp_abs w p (fp_sign_bit w p s + a) = a" and "fp_neg w p (fp_sign_bit w p s + a) = s"
  using assms by (simp_all add: fp_abs_def fp_neg_def fp_sign_bit_def div_add_self1)

lemma fp_finite_abs: "fp_finite w p n \<longleftrightarrow> fp_abs w p n < fp_inf_pattern w p"
proof -
  have a: "fp_abs w p n < 2 ^ (w + p)" by (simp add: fp_abs_def)
  have e: "fp_exp w p n < 2 ^ w"
    using a by (simp add: fp_exp_def less_mult_imp_div_less power_add)
  have "fp_abs w p n < fp_inf_pattern w p \<longleftrightarrow> fp_exp w p n < 2 ^ w - 1"
    by (simp add: fp_inf_pattern_def fp_exp_def div_less_iff_less_mult)
  with e show ?thesis by (auto simp: fp_finite_def)
qed

lemma fp_round_result:
  assumes "m = mag_of p a" and "a < fp_inf_pattern w p"
  shows "fp_finite w p (fp_round w p s m 0)"
    and "fp_val w p (fp_round w p s m 0) = (if s then - int m else int m)"
    and "fp_round w p s m 0 = fp_sign_bit w p s + a"
proof -
  have a: "a < 2 ^ (w + p)" using assms(2) fp_inf_pattern_bound [of w p] by simp
  show eq: "fp_round w p s m 0 = fp_sign_bit w p s + a"
    using fp_round_exact [of a w p s] assms by simp
  show "fp_finite w p (fp_round w p s m 0)"
    using assms(2) fp_read_sign [OF a] by (simp add: eq fp_finite_abs)
  show "fp_val w p (fp_round w p s m 0) = (if s then - int m else int m)"
    by (subst eq) (simp only: fp_val_def fp_mag_def fp_read_sign [OF a] assms(1))
qed

text \<open>Multiplying by one shifts a magnitude and rounds it back.\<close>

lemma fp_round_shift:
  assumes "m = mag_of p a" and "a < fp_inf_pattern w p"
  shows "fp_round w p s (m * 2 ^ k) k = fp_sign_bit w p s + a"
proof (cases "a = 0")
  case True
  then show ?thesis using assms
    by (simp add: fp_round_def Let_def pack_mag_def rne_shift_def)
next
  case False
  then have m: "0 < m" using assms(1) by simp
  define sh where "sh = bitlen m - Suc p"
  have eq: "max k (bitlen (m * 2 ^ k) - Suc p) = sh + k"
    using m by (simp add: bitlen_mult sh_def)
  have "sh \<le> a div 2 ^ p - 1" using bitlen_mag_of [of p a] assms(1) by (simp add: sh_def)
  then have "2 ^ sh dvd m"
    using assms(1) by (auto simp: mag_of_def le_imp_power_dvd)
  then obtain q where q: "m = q * 2 ^ sh" by (metis dvd_div_mult_self)
  have "rne_shift (m * 2 ^ k) (sh + k) = q"
    using rne_shift_exact [of q "sh + k"] by (simp add: q power_add mult.assoc)
  then have "fp_round w p s (m * 2 ^ k) k = fp_sign_bit w p s + min (pack_mag p m) (fp_inf_pattern w p)"
    using eq by (simp add: fp_round_def Let_def q)
  then show ?thesis using assms by (simp add: pack_mag_mag_of min_absorb1)
qed

lemma fp_round_zero: "fp_round w p s 0 k = fp_sign_bit w p s"
  by (simp add: fp_round_def Let_def pack_mag_def rne_shift_def)

section \<open>Values of float64 words\<close>

definition f64_val :: "64 word \<Rightarrow> int" where
  "f64_val a = fp_val 11 52 (unat a)"

definition f64_one :: "64 word" where
  "f64_one = 4607182418800017408"

lemma sign_bound: "a < 2 ^ 63 \<Longrightarrow> fp_sign_bit 11 52 s + a < 2 ^ 64"
  by (simp add: fp_sign_bit_def)

lemma unat_word_of_pattern:
  "a < 2 ^ 63 \<Longrightarrow> unat (word_of_nat (fp_sign_bit 11 52 s + a) :: 64 word) = fp_sign_bit 11 52 s + a"
  using sign_bound [of a s] by (simp add: unat_of_nat del: of_nat_add)

lemma inf_pattern_63: "a < fp_inf_pattern 11 52 \<Longrightarrow> a < 2 ^ 63"
  using fp_inf_pattern_bound [of 11 52] by simp

lemma f64_word_val:
  assumes "a < fp_inf_pattern 11 52"
  shows "f64_val (word_of_nat (fp_sign_bit 11 52 s + a)) = (if s then - int (mag_of 52 a) else int (mag_of 52 a))"
    and "f64_finite (word_of_nat (fp_sign_bit 11 52 s + a))"
proof -
  have a: "a < 2 ^ 63" using assms by (rule inf_pattern_63)
  have a': "a < 2 ^ (11 + 52)" using a by simp
  show "f64_val (word_of_nat (fp_sign_bit 11 52 s + a)) = (if s then - int (mag_of 52 a) else int (mag_of 52 a))"
    by (simp only: f64_val_def unat_word_of_pattern [OF a] fp_val_def fp_mag_def fp_read_sign [OF a'])
  show "f64_finite (word_of_nat (fp_sign_bit 11 52 s + a))"
    using assms by (simp only: f64_finite_def unat_word_of_pattern [OF a] fp_finite_abs fp_read_sign [OF a'])
qed

lemma f64_zero: "f64_val 0 = 0" "f64_finite 0" "\<not> fp_neg 11 52 (unat (0 :: 64 word))"
  by (simp_all add: f64_val_def f64_finite_def fp_val_def fp_mag_def fp_abs_def fp_neg_def
      fp_finite_def fp_exp_def)

lemma f64_one_abs: "fp_abs 11 52 (unat f64_one) = 1023 * 2 ^ 52" "\<not> fp_neg 11 52 (unat f64_one)"
  by (simp_all add: f64_one_def fp_abs_def fp_neg_def)

lemma f64_one_mag: "fp_mag 11 52 (unat f64_one) = 2 ^ 1074"
proof -
  have "fp_mag 11 52 (unat f64_one) = 2 ^ 52 * 2 ^ 1022"
    by (simp add: fp_mag_def f64_one_abs mag_of_def del: power_numeral)
  then show ?thesis by (simp flip: power_add)
qed

lemma fp_scale_64: "fp_scale 11 52 = 1074"
  by (simp add: fp_scale_def)

lemma f64_one_val: "f64_val f64_one = 2 ^ 1074"
  by (simp only: f64_val_def fp_val_def f64_one_mag f64_one_abs if_False of_nat_power of_nat_numeral)

lemma f64_one_finite: "f64_finite f64_one"
  by (simp add: f64_finite_def fp_finite_abs f64_one_abs fp_inf_pattern_def)

section \<open>Selector arithmetic\<close>

text \<open>A finite word is determined by its sign and its magnitude pattern.\<close>

lemma f64_split:
  "unat (a :: 64 word) = fp_sign_bit 11 52 (fp_neg 11 52 (unat a)) + fp_abs 11 52 (unat a)"
proof -
  have lt: "unat a < 2 ^ 64" by (rule order_less_le_trans [OF unsigned_less]) simp
  define q where "q = unat a div 2 ^ 63"
  define r where "r = unat a mod 2 ^ 63"
  have eq: "unat a = q * 2 ^ 63 + r" unfolding q_def r_def by (rule div_mult_mod_eq [symmetric])
  have "q < 2" using lt by (simp add: q_def less_mult_imp_div_less)
  then have "q * 2 ^ 63 = (if odd q then 2 ^ 63 else 0)" by (cases q) auto
  moreover have "fp_neg 11 52 (unat a) = odd q" "fp_abs 11 52 (unat a) = r"
    by (simp_all add: fp_neg_def fp_abs_def q_def r_def)
  ultimately show ?thesis using eq by (simp add: fp_sign_bit_def)
qed

lemma f64_repack:
  "word_of_nat (fp_sign_bit 11 52 (fp_neg 11 52 (unat a)) + fp_abs 11 52 (unat a)) = (a :: 64 word)"
  by (subst f64_split [symmetric]) simp

lemma f64_finite_abs: "f64_finite a \<longleftrightarrow> fp_abs 11 52 (unat a) < fp_inf_pattern 11 52"
  by (simp add: f64_finite_def fp_finite_abs)

lemma f64_finite_class:
  "f64_finite a \<Longrightarrow> \<not> fp_nan 11 52 (unat a)" "f64_finite a \<Longrightarrow> \<not> fp_inf 11 52 (unat a)"
  by (simp_all add: f64_finite_def fp_finite_iff)

text \<open>Adding two finite values whose sum is the value of a pattern is exact.\<close>

lemma f64_add_exact:
  assumes "f64_finite a" and "f64_finite b" and "f64_finite c"
    and "f64_val a + f64_val b = f64_val c"
  shows "f64_finite (f64_add a b)" and "f64_val (f64_add a b) = f64_val c"
    and "f64_val c \<noteq> 0 \<Longrightarrow> f64_add a b = c"
proof -
  define z where "z = f64_val c"
  define m where "m = fp_abs 11 52 (unat c)"
  define s where "s = fp_neg 11 52 (unat c)"
  have m: "m < fp_inf_pattern 11 52" using assms(3) by (simp add: m_def f64_finite_abs)
  have z: "z = (if s then - int (mag_of 52 m) else int (mag_of 52 m))"
    by (simp add: z_def f64_val_def fp_val_def fp_mag_def m_def s_def)
  have add: "f64_add a b = word_of_nat (if z = 0
      then fp_sign_bit 11 52 (fp_neg 11 52 (unat a) \<and> fp_neg 11 52 (unat b)) + 0
      else fp_sign_bit 11 52 s + m)"
  proof (cases "z = 0")
    case True
    then show ?thesis
      using assms f64_finite_class [OF assms(1)] f64_finite_class [OF assms(2)]
      by (simp add: f64_add_def fp_add_def z_def f64_val_def Let_def)
  next
    case False
    then have "(z < 0) = s" "nat \<bar>z\<bar> = mag_of 52 m" using z by (auto split: if_splits)
    moreover have "fp_round 11 52 s (mag_of 52 m) 0 = fp_sign_bit 11 52 s + m"
      using m by (intro fp_round_result(3)) simp_all
    ultimately show ?thesis
      using False assms f64_finite_class [OF assms(1)] f64_finite_class [OF assms(2)]
      by (simp add: f64_add_def fp_add_def z_def f64_val_def Let_def del: of_nat_add)
  qed
  have inf0: "0 < fp_inf_pattern 11 52" by (simp add: fp_inf_pattern_def)
  show "f64_finite (f64_add a b)"
    using f64_word_val(2) [OF m] f64_word_val(2) [OF inf0] by (simp add: add del: of_nat_add)
  show "f64_val (f64_add a b) = f64_val c"
    using f64_word_val(1) [OF m, of s] f64_word_val(1) [OF inf0] z
    by (auto simp: add z_def [symmetric] simp del: of_nat_add split: if_splits)
  show "f64_val c \<noteq> 0 \<Longrightarrow> f64_add a b = c"
    using f64_repack [of c] by (simp add: add z_def m_def s_def del: of_nat_add)
qed

lemma f64_mul_one:
  assumes "f64_finite a"
  shows "f64_mul f64_one a = a" and "f64_mul a f64_one = a"
proof -
  define m where "m = fp_abs 11 52 (unat a)"
  define s where "s = fp_neg 11 52 (unat a)"
  have m: "m < fp_inf_pattern 11 52" using assms by (simp add: m_def f64_finite_abs)
  have r: "fp_round 11 52 s (mag_of 52 m * 2 ^ 1074) 1074 = fp_sign_bit 11 52 s + m"
    by (rule fp_round_shift [OF refl m])
  have a: "word_of_nat (fp_sign_bit 11 52 s + m) = a"
    by (simp only: m_def s_def f64_repack)
  have mag: "fp_mag 11 52 (unat a) = mag_of 52 m" by (simp add: fp_mag_def m_def)
  show "f64_mul f64_one a = a" "f64_mul a f64_one = a"
    using r f64_finite_class [OF assms] f64_finite_class [OF f64_one_finite]
    by (simp_all only: f64_mul_def fp_mul_def Let_def f64_one_mag mag f64_one_abs if_False
        fp_scale_64 s_def [symmetric] mult.commute [of "2 ^ 1074"] simp_thms a)
qed

lemma f64_mul_zero:
  assumes "f64_finite a"
  shows "f64_finite (f64_mul 0 a)" "f64_val (f64_mul 0 a) = 0"
    "f64_finite (f64_mul a 0)" "f64_val (f64_mul a 0) = 0"
    "f64_mul 0 f64_one = 0" "f64_mul f64_one 0 = 0" "f64_mul 0 0 = 0"
proof -
  have z: "fp_mag 11 52 (unat (0 :: 64 word)) = 0" by (simp add: fp_mag_def fp_abs_def)
  have inf0: "0 < fp_inf_pattern 11 52" by (simp add: fp_inf_pattern_def)
  note fin = f64_finite_class [OF assms] f64_finite_class [OF f64_zero(2)]
  have l: "f64_mul 0 a = word_of_nat (fp_sign_bit 11 52 (fp_neg 11 52 (unat a)) + 0)"
    using fin f64_zero(3) z by (simp add: f64_mul_def fp_mul_def fp_round_zero Let_def)
  have r: "f64_mul a 0 = word_of_nat (fp_sign_bit 11 52 (fp_neg 11 52 (unat a)) + 0)"
    using fin f64_zero(3) z by (simp add: f64_mul_def fp_mul_def fp_round_zero Let_def)
  show "f64_finite (f64_mul 0 a)" "f64_val (f64_mul 0 a) = 0"
    "f64_finite (f64_mul a 0)" "f64_val (f64_mul a 0) = 0"
    unfolding l r using f64_word_val [OF inf0] by (simp_all del: of_nat_add)
  show "f64_mul 0 f64_one = 0" "f64_mul f64_one 0 = 0"
    using f64_mul_one [OF f64_zero(2)] by simp_all
  show "f64_mul 0 0 = 0"
    using f64_finite_class [OF f64_zero(2)] f64_zero(3) z
    by (simp add: f64_mul_def fp_mul_def fp_round_zero Let_def fp_sign_bit_def)
qed

lemma f64_add_cancel:
  assumes "f64_finite a" and "f64_finite b" and "f64_val a + f64_val b = 0"
    and "\<not> fp_neg 11 52 (unat a)"
  shows "f64_add a b = 0"
  using assms f64_finite_class [OF assms(1)] f64_finite_class [OF assms(2)]
  by (simp add: f64_add_def fp_add_def f64_val_def Let_def fp_sign_bit_def)

definition f64_negate :: "64 word \<Rightarrow> 64 word" where
  "f64_negate b = word_of_nat (fp_negate 11 52 (unat b))"

lemma f64_negate:
  assumes "f64_finite b"
  shows "f64_sub a b = f64_add a (f64_negate b)" "f64_finite (f64_negate b)"
    "f64_val (f64_negate b) = - f64_val b"
proof -
  have m: "fp_abs 11 52 (unat b) < fp_inf_pattern 11 52" using assms by (simp add: f64_finite_abs)
  note r = f64_word_val [OF m, of "\<not> fp_neg 11 52 (unat b)"]
  show "f64_finite (f64_negate b)" using r by (simp only: f64_negate_def fp_negate_def)
  show "f64_val (f64_negate b) = - f64_val b"
    unfolding f64_negate_def fp_negate_def r(1) by (simp add: f64_val_def fp_val_def fp_mag_def)
  show "f64_sub a b = f64_add a (f64_negate b)"
    unfolding f64_sub_def f64_add_def fp_sub_def f64_negate_def fp_negate_def
    by (simp only: unat_word_of_pattern [OF inf_pattern_63 [OF m]])
qed

lemma f64_sub_selectors:
  "f64_sub f64_one f64_one = 0" "f64_sub f64_one 0 = f64_one" "f64_sub 0 0 = 0"
proof -
  note one = f64_negate [OF f64_one_finite] and zero = f64_negate [OF f64_zero(2)]
  have ne: "f64_val f64_one \<noteq> 0" by (simp only: f64_one_val power_not_zero) simp
  show "f64_sub f64_one f64_one = 0"
    unfolding one(1) by (rule f64_add_cancel) (simp_all add: f64_one_finite one f64_one_abs del: power_numeral)
  show "f64_sub f64_one 0 = f64_one"
    unfolding zero(1) by (rule f64_add_exact(3) [OF f64_one_finite zero(2) f64_one_finite _ ne])
      (simp add: zero(3) f64_zero)
  show "f64_sub 0 0 = 0"
    unfolding zero(1) by (rule f64_add_cancel) (simp_all add: f64_zero zero fp_neg_def)
qed

section \<open>Widening a float32 is exact\<close>

lemma f32_mag_bounds:
  assumes "fp_finite 8 23 n"
  shows "\<exists>a. fp_mag 8 23 n * 2 ^ 925 = mag_of 52 a \<and> a < fp_inf_pattern 11 52"
proof -
  define e where "e = fp_abs 8 23 n div 2 ^ 23 - 1"
  define m where "m = fp_mag 8 23 n"
  have lt: "fp_abs 8 23 n < fp_inf_pattern 8 23" using assms by (simp add: fp_finite_abs)
  then have "fp_abs 8 23 n div 2 ^ 23 < 255"
    by (simp add: fp_inf_pattern_def less_mult_imp_div_less)
  then have e: "e < 254" by (simp add: e_def)
  have bl: "bitlen m \<le> 24 + e" using bitlen_mag_of [of 23 "fp_abs 8 23 n"] by (simp add: m_def e_def fp_mag_def)
  have dvd: "2 ^ e dvd m" by (auto simp: m_def fp_mag_def mag_of_def e_def)
  define sh where "sh = e + 925"
  have d: "2 ^ sh dvd m * 2 ^ 925" unfolding sh_def power_add by (intro mult_dvd_mono dvd dvd_refl)
  have b: "bitlen (m * 2 ^ 925) \<le> 52 + 1 + sh"
  proof (cases "m = 0")
    case False
    with bl show ?thesis by (simp add: bitlen_mult sh_def del: power_numeral)
  qed simp
  have eq: "mag_of 52 (pack_mag 52 (m * 2 ^ 925)) = m * 2 ^ 925" by (rule mag_of_pack [OF d b])
  have "m * 2 ^ 925 < mag_of 52 (fp_inf_pattern 11 52)"
  proof (cases "m = 0")
    case True
    then show ?thesis by (simp add: fp_inf_pattern_def)
  next
    case False
    then have "m < 2 ^ (24 + e)"
      using bitlen_bounds [of m] power_increasing [OF bl, of "2::nat"] by (simp del: power_increasing_iff)
    also have "\<dots> \<le> 2 ^ 278" using e by (intro power_increasing) simp_all
    finally have "m * 2 ^ 925 < 2 ^ 278 * 2 ^ 925" by (intro mult_strict_right_mono) simp_all
    also have "\<dots> \<le> 2 ^ 52 * 2 ^ 2046" unfolding power_add [symmetric] by (intro power_increasing) simp_all
    also have "\<dots> = mag_of 52 (fp_inf_pattern 11 52)"
    proof -
      have i: "fp_inf_pattern 11 52 = 2047 * 2 ^ 52" by (simp add: fp_inf_pattern_def)
      show ?thesis unfolding i by (simp add: mag_of_def del: power_numeral)
    qed
    finally show ?thesis .
  qed
  then have "pack_mag 52 (m * 2 ^ 925) < fp_inf_pattern 11 52"
    using mag_of_less_iff [of 52] eq by metis
  with eq show ?thesis unfolding m_def by metis
qed

lemma f64_of_f32_val:
  assumes "f32_finite a"
  shows "f64_val (f64_of_f32 a) = fp_val 8 23 (unat a) * 2 ^ 925" and "f64_finite (f64_of_f32 a)"
proof -
  have fin: "fp_finite 8 23 (unat a)" using assms by (simp add: f32_finite_def)
  obtain c where c: "fp_mag 8 23 (unat a) * 2 ^ 925 = mag_of 52 c" "c < fp_inf_pattern 11 52"
    using f32_mag_bounds [OF fin] by blast
  define s where "s = fp_neg 8 23 (unat a)"
  have sc: "fp_scale 11 52 - fp_scale 8 23 = 925" by (simp add: fp_scale_def)
  have eq: "f64_of_f32 a = word_of_nat (fp_sign_bit 11 52 s + c)"
    using fin fp_round_result(3) [OF refl c(2), of s]
    by (simp only: f64_of_f32_def Let_def fp_finite_iff if_False simp_thms sc c(1) s_def)
  show "f64_finite (f64_of_f32 a)" unfolding eq by (rule f64_word_val(2) [OF c(2)])
  show "f64_val (f64_of_f32 a) = fp_val 8 23 (unat a) * 2 ^ 925"
    unfolding eq f64_word_val(1) [OF c(2)] c(1) [symmetric]
    by (simp only: fp_val_def s_def [symmetric] of_nat_mult of_nat_power of_nat_numeral mult_minus_left
        if_distribR split: if_splits) simp
qed

lemma f64_of_f32_not_finite:
  assumes "\<not> f32_finite a"
  shows "\<not> f64_finite (f64_of_f32 a)"
proof -
  have "fp_nan 8 23 (unat a) \<or> \<not> fp_nan 8 23 (unat a) \<and> fp_inf 8 23 (unat a)"
    using assms by (auto simp: f32_finite_def fp_finite_iff)
  then show ?thesis
    by (auto simp: f64_of_f32_def Let_def f64_finite_def unat_of_nat fp_nan_pattern_def
        fp_inf_pattern_def fp_sign_bit_def fp_finite_def fp_exp_def fp_abs_def)
qed

end
