(* ===== verification/Numeric.thy ===== *)
theory Numeric
  imports BinaryTree FloatExact "HOL-Library.Signed_Division"
begin

text \<open>
  Exact public scalars and comparison policies: \<^verbatim>\<open>integer/treeeval/numeric.go\<close>. An integer
  scalar keeps its low \<^verbatim>\<open>BitWidth\<close> bits in a 64-bit word; a policy names a comparator and the
  ranges that justify it. The lemmas give every valid scalar an exact number, show the round
  trips of the constructors, and that the declared ranges of a signed no-overflow policy really
  rule out overflow of the w-bit subtraction.
\<close>

section \<open>Scalars\<close>

definition ScalarReal :: string where
  "ScalarReal = ''real''"

definition ScalarUnsigned :: string where
  "ScalarUnsigned = ''unsigned_integer''"

definition ScalarSigned :: string where
  "ScalarSigned = ''twos_complement_signed_integer''"

lemma scalar_kinds_distinct [simp]:
  "ScalarReal \<noteq> ScalarUnsigned" "ScalarUnsigned \<noteq> ScalarReal" "ScalarReal \<noteq> ScalarSigned"
  "ScalarSigned \<noteq> ScalarReal" "ScalarUnsigned \<noteq> ScalarSigned" "ScalarSigned \<noteq> ScalarUnsigned"
  by (simp_all add: ScalarReal_def ScalarUnsigned_def ScalarSigned_def)

record public_scalar =
  ps_kind :: string
  ps_real :: "64 word"
  ps_bits :: "64 word"
  ps_bit_width :: int

datatype numeric_error =
  WidthOutOfRange int
| UnsignedDoesNotFit "64 word" int
| SignedDoesNotFit int int
| RealNonFinite
| RealCarriesInteger
| BitsExceedWidth "64 word" int
| IntegerCarriesReal
| UnknownScalarKind string
| RangeBound string numeric_error
| RangeBoundKind string
| RangeEmpty
| RealPolicyMetadata
| UnknownComparisonKind string
| PolicyWidth int
| LeftRangeError numeric_error
| RightRangeError numeric_error
| BorrowPolicy
| WidenedPolicy
| NoOverflowPolicy
| RangesAllowOverflow
| CorrectedPolicy
| UnknownComparator string
| OperandKind string string
| OperandWidth int int
| OperandOutsideRange

definition bit_mask :: "int \<Rightarrow> 64 word" where
  "bit_mask width = (if width = 64 then - 1 else push_bit (nat width) 1 - 1)"

definition scalar_validate :: "public_scalar \<Rightarrow> (numeric_error, unit) res" where
  "scalar_validate s =
     (if ps_kind s = ScalarReal then
        if f64_nan (ps_real s) \<or> f64_inf (ps_real s) then err RealNonFinite
        else reject_if (ps_bit_width s \<noteq> 0 \<or> ps_bits s \<noteq> 0) RealCarriesInteger
      else if ps_kind s = ScalarUnsigned \<or> ps_kind s = ScalarSigned then
        if ps_bit_width s < 1 \<or> ps_bit_width s > 64 then err (WidthOutOfRange (ps_bit_width s))
        else if ps_bits s AND NOT (bit_mask (ps_bit_width s)) \<noteq> 0
          then err (BitsExceedWidth (ps_bits s) (ps_bit_width s))
        else reject_if (\<not> f64_eq (ps_real s) 0) IntegerCarriesReal
      else err (UnknownScalarKind (ps_kind s)))"

definition real_scalar :: "64 word \<Rightarrow> (numeric_error, public_scalar) res" where
  "real_scalar value =
     (let scalar = \<lparr>ps_kind = ScalarReal, ps_real = value, ps_bits = 0, ps_bit_width = 0\<rparr>
      in and_then (scalar_validate scalar) (\<lambda>_. Inr scalar))"

definition unsigned_scalar :: "64 word \<Rightarrow> int \<Rightarrow> (numeric_error, public_scalar) res" where
  "unsigned_scalar value width =
     (if width < 1 \<or> width > 64 then err (WidthOutOfRange width)
      else if value > bit_mask width then err (UnsignedDoesNotFit value width)
      else Inr \<lparr>ps_kind = ScalarUnsigned, ps_real = 0, ps_bits = value, ps_bit_width = width\<rparr>)"

text \<open>An int64 argument is an integer between \<^verbatim>\<open>- 2 ^ 63\<close> and \<^verbatim>\<open>2 ^ 63 - 1\<close>.\<close>

definition signed_scalar :: "int \<Rightarrow> int \<Rightarrow> (numeric_error, public_scalar) res" where
  "signed_scalar value width =
     (if width < 1 \<or> width > 64 then err (WidthOutOfRange width)
      else if width < 64 \<and> (value < - (2 ^ nat (width - 1)) \<or> value > 2 ^ nat (width - 1) - 1)
        then err (SignedDoesNotFit value width)
      else Inr \<lparr>ps_kind = ScalarSigned, ps_real = 0,
        ps_bits = word_of_int value AND bit_mask width, ps_bit_width = width\<rparr>)"

definition unsigned_value :: "public_scalar \<Rightarrow> 64 word option" where
  "unsigned_value s =
     (if ps_kind s \<noteq> ScalarUnsigned \<or> scalar_validate s \<noteq> Inr () then None else Some (ps_bits s))"

definition signed_value :: "public_scalar \<Rightarrow> int option" where
  "signed_value s =
     (if ps_kind s \<noteq> ScalarSigned \<or> scalar_validate s \<noteq> Inr () then None
      else if ps_bit_width s = 64 then Some (sint (ps_bits s))
      else let mask = bit_mask (ps_bit_width s);
               bits = ps_bits s AND mask
           in Some (sint (if bits AND push_bit (nat (ps_bit_width s - 1)) 1 \<noteq> 0
                          then bits OR NOT mask else bits)))"

text \<open>\<^verbatim>\<open>publicScalarFromOrdered\<close> and \<^verbatim>\<open>exactPublicScalar\<close> on a value of any ordered kind.\<close>

definition public_scalar_from_ordered :: "scalar \<Rightarrow> (numeric_error, public_scalar) res" where
  "public_scalar_from_ordered v =
     (case class_of (scalar_kind v) of
        Float32Kind \<Rightarrow> real_scalar (f64_of_f32 (ucast (scalar_bits v)))
      | Float64Kind \<Rightarrow> real_scalar (scalar_bits v)
      | SignedKind \<Rightarrow> signed_scalar (sint (scalar_bits v)) (int (kind_bits (scalar_kind v)))
      | UnsignedKind \<Rightarrow> unsigned_scalar (scalar_bits v) (int (kind_bits (scalar_kind v))))"

section \<open>Comparison policies\<close>

definition ComparatorReal :: string where
  "ComparatorReal = ''real_order''"

definition ComparatorUnsignedBorrow :: string where
  "ComparatorUnsignedBorrow = ''unsigned_borrow''"

definition ComparatorUnsignedWidened :: string where
  "ComparatorUnsignedWidened = ''unsigned_widened''"

definition ComparatorSignedNoOverflow :: string where
  "ComparatorSignedNoOverflow = ''signed_no_overflow''"

definition ComparatorSignedCorrected :: string where
  "ComparatorSignedCorrected = ''signed_corrected''"

lemma comparators_distinct [simp]:
  "ComparatorSignedNoOverflow \<noteq> ComparatorUnsignedBorrow"
  "ComparatorSignedNoOverflow \<noteq> ComparatorUnsignedWidened"
  "ComparatorUnsignedBorrow \<noteq> ComparatorUnsignedWidened"
  by (simp_all add: ComparatorSignedNoOverflow_def ComparatorUnsignedBorrow_def
      ComparatorUnsignedWidened_def)

definition OverflowRealOrder :: string where
  "OverflowRealOrder = ''real_order''"

definition OverflowBorrowExact :: string where
  "OverflowBorrowExact = ''borrow_bit_exact''"

definition OverflowWidenedExact :: string where
  "OverflowWidenedExact = ''logical_widening_exact''"

definition OverflowSignedDifferenceInRange :: string where
  "OverflowSignedDifferenceInRange = ''signed_difference_proved_in_range''"

definition OverflowSignCorrectedExact :: string where
  "OverflowSignCorrectedExact = ''sign_corrected_exact''"

record integer_range =
  ir_min :: public_scalar
  ir_max :: public_scalar

record comparison_policy =
  cp_kind :: string
  cp_bit_width :: int
  cp_comparator :: string
  cp_overflow :: string
  cp_left_range :: integer_range
  cp_right_range :: integer_range

definition zero_scalar :: public_scalar where
  "zero_scalar = \<lparr>ps_kind = '''', ps_real = 0, ps_bits = 0, ps_bit_width = 0\<rparr>"

definition real_comparison_policy :: comparison_policy where
  "real_comparison_policy = \<lparr>
     cp_kind = ScalarReal, cp_bit_width = 0, cp_comparator = ComparatorReal,
     cp_overflow = OverflowRealOrder,
     cp_left_range = \<lparr>ir_min = zero_scalar, ir_max = zero_scalar\<rparr>,
     cp_right_range = \<lparr>ir_min = zero_scalar, ir_max = zero_scalar\<rparr>\<rparr>"

text \<open>A scalar that is neither a valid unsigned nor a valid signed one counts as zero.\<close>

definition scalar_big_int :: "public_scalar \<Rightarrow> int" where
  "scalar_big_int s =
     (case unsigned_value s of
        Some v \<Rightarrow> uint v
      | None \<Rightarrow> (case signed_value s of Some z \<Rightarrow> z | None \<Rightarrow> 0))"

text \<open>Go ranges over the two bounds in an unspecified order; the model takes min first.\<close>

definition range_validate :: "integer_range \<Rightarrow> string \<Rightarrow> int \<Rightarrow> (numeric_error, unit) res" where
  "range_validate r kind width =
     and_then (check_each (\<lambda>_ (name, bound).
         and_then (map_err (RangeBound name) (scalar_validate bound)) (\<lambda>_.
         reject_if (ps_kind bound \<noteq> kind \<or> ps_bit_width bound \<noteq> width) (RangeBoundKind name)))
       0 [(''min'', ir_min r), (''max'', ir_max r)])
     (\<lambda>_. reject_if (scalar_big_int (ir_min r) > scalar_big_int (ir_max r)) RangeEmpty)"

definition range_contains :: "integer_range \<Rightarrow> public_scalar \<Rightarrow> bool" where
  "range_contains r value =
     (if ps_kind value \<noteq> ps_kind (ir_min r) \<or> ps_bit_width value \<noteq> ps_bit_width (ir_min r) \<or>
         scalar_validate value \<noteq> Inr ()
      then False
      else let v = scalar_big_int value
           in scalar_big_int (ir_min r) \<le> v \<and> v \<le> scalar_big_int (ir_max r))"

definition policy_validate :: "comparison_policy \<Rightarrow> (numeric_error, unit) res" where
  "policy_validate p =
     (if cp_kind p = ScalarReal then
        reject_if (cp_bit_width p \<noteq> 0 \<or> cp_comparator p \<noteq> ComparatorReal \<or>
            cp_overflow p \<noteq> OverflowRealOrder)
          RealPolicyMetadata
      else if cp_kind p \<noteq> ScalarUnsigned \<and> cp_kind p \<noteq> ScalarSigned
        then err (UnknownComparisonKind (cp_kind p))
      else if cp_bit_width p < 1 \<or> cp_bit_width p > 64 then err (PolicyWidth (cp_bit_width p))
      else and_then (map_err LeftRangeError
          (range_validate (cp_left_range p) (cp_kind p) (cp_bit_width p))) (\<lambda>_.
        and_then (map_err RightRangeError
          (range_validate (cp_right_range p) (cp_kind p) (cp_bit_width p))) (\<lambda>_.
        if cp_comparator p = ComparatorUnsignedBorrow then
          reject_if (cp_kind p \<noteq> ScalarUnsigned \<or> cp_overflow p \<noteq> OverflowBorrowExact) BorrowPolicy
        else if cp_comparator p = ComparatorUnsignedWidened then
          reject_if (cp_kind p \<noteq> ScalarUnsigned \<or> cp_overflow p \<noteq> OverflowWidenedExact) WidenedPolicy
        else if cp_comparator p = ComparatorSignedNoOverflow then
          if cp_kind p \<noteq> ScalarSigned \<or> cp_overflow p \<noteq> OverflowSignedDifferenceInRange
            then err NoOverflowPolicy
          else let
            min_difference = scalar_big_int (ir_min (cp_left_range p)) - scalar_big_int (ir_max (cp_right_range p));
            max_difference = scalar_big_int (ir_max (cp_left_range p)) - scalar_big_int (ir_min (cp_right_range p));
            limit = 2 ^ nat (cp_bit_width p - 1)
          in reject_if (min_difference < - limit \<or> max_difference > limit - 1) RangesAllowOverflow
        else if cp_comparator p = ComparatorSignedCorrected then
          reject_if (cp_kind p \<noteq> ScalarSigned \<or> cp_overflow p \<noteq> OverflowSignCorrectedExact)
            CorrectedPolicy
        else err (UnknownComparator (cp_comparator p)))))"

definition new_integer_policy ::
  "string \<Rightarrow> int \<Rightarrow> public_scalar \<Rightarrow> public_scalar \<Rightarrow> public_scalar \<Rightarrow> public_scalar \<Rightarrow>
   string \<Rightarrow> string \<Rightarrow> (numeric_error, comparison_policy) res" where
  "new_integer_policy kind width lmin lmax rmin rmax comparator overflow =
     (let policy = \<lparr>
            cp_kind = kind, cp_bit_width = width, cp_comparator = comparator, cp_overflow = overflow,
            cp_left_range = \<lparr>ir_min = lmin, ir_max = lmax\<rparr>,
            cp_right_range = \<lparr>ir_min = rmin, ir_max = rmax\<rparr>\<rparr>
      in and_then (policy_validate policy) (\<lambda>_. Inr policy))"

definition new_unsigned_comparison_policy ::
  "int \<Rightarrow> 64 word \<Rightarrow> 64 word \<Rightarrow> 64 word \<Rightarrow> 64 word \<Rightarrow> string \<Rightarrow> string \<Rightarrow>
   (numeric_error, comparison_policy) res" where
  "new_unsigned_comparison_policy width left_min left_max right_min right_max comparator overflow =
     and_then (unsigned_scalar left_min width) (\<lambda>lmin.
     and_then (unsigned_scalar left_max width) (\<lambda>lmax.
     and_then (unsigned_scalar right_min width) (\<lambda>rmin.
     and_then (unsigned_scalar right_max width) (\<lambda>rmax.
     new_integer_policy ScalarUnsigned width lmin lmax rmin rmax comparator overflow))))"

definition new_signed_comparison_policy ::
  "int \<Rightarrow> int \<Rightarrow> int \<Rightarrow> int \<Rightarrow> int \<Rightarrow> string \<Rightarrow> string \<Rightarrow>
   (numeric_error, comparison_policy) res" where
  "new_signed_comparison_policy width left_min left_max right_min right_max comparator overflow =
     and_then (signed_scalar left_min width) (\<lambda>lmin.
     and_then (signed_scalar left_max width) (\<lambda>lmax.
     and_then (signed_scalar right_min width) (\<lambda>rmin.
     and_then (signed_scalar right_max width) (\<lambda>rmax.
     new_integer_policy ScalarSigned width lmin lmax rmin rmax comparator overflow))))"

definition validate_operand ::
  "comparison_policy \<Rightarrow> public_scalar \<Rightarrow> bool \<Rightarrow> (numeric_error, unit) res" where
  "validate_operand p value left =
     and_then (policy_validate p) (\<lambda>_.
       if ps_kind value \<noteq> cp_kind p then err (OperandKind (ps_kind value) (cp_kind p))
       else if cp_kind p = ScalarReal then scalar_validate value
       else if ps_bit_width value \<noteq> cp_bit_width p
         then err (OperandWidth (ps_bit_width value) (cp_bit_width p))
       else let range_to_use = (if left then cp_left_range p else cp_right_range p)
       in reject_if (\<not> range_contains range_to_use value) OperandOutsideRange)"

section \<open>Masks\<close>

definition width_ok :: "int \<Rightarrow> bool" where
  "width_ok w \<longleftrightarrow> 1 \<le> w \<and> w \<le> 64"

lemma bit_mask_eq: "0 \<le> w \<Longrightarrow> w \<le> 64 \<Longrightarrow> bit_mask w = mask (nat w)"
proof -
  assume w: "0 \<le> w" "w \<le> 64"
  show ?thesis
  proof (cases "w = 64")
    case True
    have "(mask 64 :: 64 word) = - 1" by (simp add: mask_eq_exp_minus_1)
    with True show ?thesis by (simp add: bit_mask_def)
  next
    case False
    then show ?thesis by (simp add: bit_mask_def mask_eq_exp_minus_1 push_bit_eq_mult)
  qed
qed

lemma bit_mask_bit: "0 \<le> w \<Longrightarrow> w \<le> 64 \<Longrightarrow> bit (bit_mask w) i \<longleftrightarrow> i < nat w"
  by (auto simp: bit_mask_eq bit_mask_iff nat_le_iff min_def dest: bit_imp_le_length)

lemma and_bit_mask: "width_ok w \<Longrightarrow> b AND bit_mask w = take_bit (nat w) b"
  by (simp add: width_ok_def bit_mask_eq take_bit_eq_mask)

lemma and_not_bit_mask:
  "width_ok w \<Longrightarrow> b AND NOT (bit_mask w) = 0 \<longleftrightarrow> uint b < 2 ^ nat w"
proof -
  assume w: "width_ok w"
  have "b AND NOT (bit_mask w) = 0 \<longleftrightarrow> b AND bit_mask w = b"
    by (auto simp: bit_eq_iff bit_and_iff bit_not_iff dest: bit_imp_le_length)
  also have "\<dots> \<longleftrightarrow> take_bit (nat w) b = b" by (simp add: and_bit_mask [OF w])
  also have "\<dots> \<longleftrightarrow> take_bit (nat w) (uint b) = uint b"
    by (metis unsigned_take_bit_eq word_uint_eq_iff)
  also have "\<dots> \<longleftrightarrow> uint b < 2 ^ nat w"
    by (simp add: take_bit_int_eq_self_iff)
  finally show ?thesis .
qed

section \<open>The number a valid scalar stands for\<close>

text \<open>
  Reals count in units of the least subnormal, integers in units of one, so the number of a
  scalar is an exact integer.
\<close>

definition scalar_number :: "public_scalar \<Rightarrow> int" where
  "scalar_number s = (if ps_kind s = ScalarReal then fp_val 11 52 (unat (ps_real s)) else scalar_big_int s)"

definition real_ok :: "public_scalar \<Rightarrow> bool" where
  "real_ok s \<longleftrightarrow> ps_kind s = ScalarReal \<and> f64_finite (ps_real s) \<and> ps_bit_width s = 0 \<and> ps_bits s = 0"

definition integer_ok :: "string \<Rightarrow> public_scalar \<Rightarrow> bool" where
  "integer_ok k s \<longleftrightarrow> ps_kind s = k \<and> width_ok (ps_bit_width s) \<and>
     uint (ps_bits s) < 2 ^ nat (ps_bit_width s) \<and> f64_eq (ps_real s) 0"

lemma scalar_validate_ok [ok_iff]:
  "scalar_validate s = Inr u \<longleftrightarrow> real_ok s \<or> integer_ok ScalarUnsigned s \<or> integer_ok ScalarSigned s"
  by (auto simp: scalar_validate_def real_ok_def integer_ok_def width_ok_def ok_iff f64_finite_def
      f64_nan_def f64_inf_def fp_finite_iff and_not_bit_mask)

lemma unsigned_value_eq: "integer_ok ScalarUnsigned s \<Longrightarrow> unsigned_value s = Some (ps_bits s)"
  by (simp add: unsigned_value_def ok_iff) (simp add: integer_ok_def)

lemma sign_extend_bits:
  assumes "width_ok w" and "w \<noteq> 64" and "uint b < 2 ^ nat w"
  shows "sint (if b AND push_bit (nat (w - 1)) 1 \<noteq> 0 then b OR NOT (bit_mask w) else b)
     = signed_take_bit (nat (w - 1)) (uint b)"
proof -
  define m where "m = nat (w - 1)"
  have w: "nat w = Suc m" "m < 63" using assms by (auto simp: m_def width_ok_def)
  have hi: "\<not> bit b i" if "Suc m \<le> i" for i
  proof -
    have "take_bit (Suc m) (uint b) = uint b" using assms(3) w by (simp add: take_bit_int_eq_self_iff)
    then have "bit (uint b) i = bit (take_bit (Suc m) (uint b)) i" by simp
    with that show ?thesis
      by (auto simp: bit_take_bit_iff bit_uint_iff dest: bit_imp_le_length)
  qed
  have top: "n = m" if "m \<le> n" "n < Suc m" for n using that by simp
  have sign: "n = m" if "m \<le> n" "bit b n" for n using that hi [of n] by (cases "n = m") auto
  have test: "b AND push_bit m 1 \<noteq> 0 \<longleftrightarrow> bit b m"
    by (simp add: and_exp_eq_0_iff_not_bit push_bit_eq_mult)
  have mk: "bit (bit_mask w) i \<longleftrightarrow> i < Suc m" for i
    using bit_mask_bit [of w i] assms(1) w by (simp add: width_ok_def)
  show ?thesis unfolding m_def [symmetric] test
    by (rule bit_eqI)
      (use w hi top in \<open>auto simp: bit_sint_iff bit_signed_take_bit_iff bit_uint_iff bit_or_iff bit_not_iff mk min_def
          dest: bit_imp_le_length top sign split: if_splits\<close>)
qed

lemma signed_value_eq:
  assumes "integer_ok ScalarSigned s"
  shows "signed_value s = Some (signed_take_bit (nat (ps_bit_width s - 1)) (uint (ps_bits s)))"
proof -
  have w: "width_ok (ps_bit_width s)" and b: "uint (ps_bits s) < 2 ^ nat (ps_bit_width s)"
    and k: "ps_kind s = ScalarSigned" using assms by (simp_all add: integer_ok_def)
  have v: "scalar_validate s = Inr ()" using assms by (simp add: ok_iff)
  have low: "ps_bits s AND bit_mask (ps_bit_width s) = ps_bits s"
    using w b by (simp add: and_bit_mask word_uint_eq_iff unsigned_take_bit_eq take_bit_int_eq_self)
  show ?thesis
  proof (cases "ps_bit_width s = 64")
    case True
    then show ?thesis by (simp add: signed_value_def k v sint_uint)
  next
    case False
    with sign_extend_bits [OF w False b] low show ?thesis
      by (simp add: signed_value_def k v Let_def split: if_splits)
  qed
qed

lemma scalar_number_real: "real_ok s \<Longrightarrow> scalar_number s = fp_val 11 52 (unat (ps_real s))"
  by (simp add: scalar_number_def real_ok_def)

lemma scalar_number_unsigned: "integer_ok ScalarUnsigned s \<Longrightarrow> scalar_number s = uint (ps_bits s)"
  by (simp add: scalar_number_def scalar_big_int_def unsigned_value_eq) (simp add: integer_ok_def)

lemma scalar_number_signed:
  "integer_ok ScalarSigned s \<Longrightarrow>
     scalar_number s = signed_take_bit (nat (ps_bit_width s - 1)) (uint (ps_bits s))"
  by (simp add: scalar_number_def scalar_big_int_def signed_value_eq unsigned_value_def)
     (simp add: integer_ok_def)

lemmas scalar_number_simps = scalar_number_real scalar_number_unsigned scalar_number_signed

lemma scalar_number_signed_bounds:
  assumes "integer_ok ScalarSigned s"
  shows "- (2 ^ nat (ps_bit_width s - 1)) \<le> scalar_number s"
    and "scalar_number s < 2 ^ nat (ps_bit_width s - 1)"
  unfolding scalar_number_signed [OF assms] by (simp_all add: signed_take_bit_int_greater_eq_minus_exp
      signed_take_bit_int_less_exp)

lemma scalar_number_zero_bits:
  assumes "integer_ok k s" and "k = ScalarUnsigned \<or> k = ScalarSigned" and "scalar_number s = 0"
  shows "ps_bits s = 0"
proof (cases "k = ScalarUnsigned")
  case True
  with assms show ?thesis by (simp add: scalar_number_unsigned word_uint_eq_iff)
next
  case False
  then have s: "integer_ok ScalarSigned s" using assms by simp
  define m where "m = nat (ps_bit_width s - 1)"
  have w: "nat (ps_bit_width s) = Suc m" using s by (auto simp: m_def integer_ok_def width_ok_def)
  have "signed_take_bit m (uint (ps_bits s)) = 0"
    using assms(3) by (simp add: scalar_number_signed [OF s] m_def)
  then have "take_bit (Suc m) (uint (ps_bits s)) = 0"
    using signed_take_bit_eq_iff_take_bit_eq [of m "uint (ps_bits s)" 0] by simp
  moreover have "take_bit (Suc m) (uint (ps_bits s)) = uint (ps_bits s)"
    using s w by (simp add: integer_ok_def take_bit_int_eq_self)
  ultimately show ?thesis by (simp add: uint_0_iff)
qed

section \<open>Constructors and accessors\<close>

lemma unsigned_scalar_ok [ok_iff]:
  "unsigned_scalar v w = Inr s \<longleftrightarrow> width_ok w \<and> uint v < 2 ^ nat w \<and>
     s = \<lparr>ps_kind = ScalarUnsigned, ps_real = 0, ps_bits = v, ps_bit_width = w\<rparr>"
proof -
  have "v \<le> bit_mask w \<longleftrightarrow> uint v < 2 ^ nat w" if w: "width_ok w"
  proof -
    have "uint (bit_mask w) = mask (nat w)"
    proof -
      have "bit_mask w = take_bit (nat w) (- 1)" using and_bit_mask [OF w, of "- 1"] by simp
      then have "uint (bit_mask w) = take_bit (nat w) (uint (- 1 :: 64 word))"
        by (simp only: unsigned_take_bit_eq)
      with w show ?thesis by (simp add: unsigned_minus_1_eq_mask width_ok_def min_def nat_le_iff)
    qed
    then show ?thesis by (simp add: word_le_def mask_eq_exp_minus_1)
  qed
  then show ?thesis
    by (auto simp: unsigned_scalar_def width_ok_def not_less [symmetric])
qed

lemma f64_eq_zero_self [simp]: "f64_eq 0 0"
  by (simp add: f64_eq_def fp_eq_def fp_nan_def fp_exp_def fp_abs_def)

lemma width_Suc: "width_ok w \<Longrightarrow> \<exists>m. nat w = Suc m \<and> nat (w - 1) = m \<and> m < 64"
  by (rule exI [of _ "nat (w - 1)"]) (auto simp: width_ok_def)

lemma signed_scalar_ok:
  assumes "- (2 ^ 63) \<le> z" and "z < 2 ^ 63"
  shows "signed_scalar z w = Inr s \<longleftrightarrow>
    width_ok w \<and> - (2 ^ nat (w - 1)) \<le> z \<and> z < 2 ^ nat (w - 1) \<and>
    s = \<lparr>ps_kind = ScalarSigned, ps_real = 0, ps_bits = word_of_int z AND bit_mask w, ps_bit_width = w\<rparr>"
  using assms by (cases "w = 64") (auto simp: signed_scalar_def width_ok_def)

lemma signed_scalar_number:
  assumes "width_ok w" and "- (2 ^ nat (w - 1)) \<le> z" and "z < 2 ^ nat (w - 1)"
    and s: "s = \<lparr>ps_kind = ScalarSigned, ps_real = 0, ps_bits = word_of_int z AND bit_mask w, ps_bit_width = w\<rparr>"
  shows "integer_ok ScalarSigned s" and "scalar_number s = z"
proof -
  obtain m where m: "nat w = Suc m" "nat (w - 1) = m" "m < 64" using width_Suc [OF assms(1)] by blast
  have b: "uint (ps_bits s) = take_bit (Suc m) z"
    using m by (simp add: s and_bit_mask [OF assms(1)] unsigned_take_bit_eq uint_word_of_int_eq min_def)
  show ok: "integer_ok ScalarSigned s"
    using b m assms(1) take_bit_int_less_exp [of "Suc m" z] by (simp add: integer_ok_def s)
  show "scalar_number s = z"
    using b m assms(2,3)
    by (subst scalar_number_signed [OF ok]) (simp add: s signed_take_bit_take_bit signed_take_bit_int_eq_self)
qed

lemma scalar_number_inj:
  assumes "integer_ok k s" "integer_ok k t" and "k = ScalarUnsigned \<or> k = ScalarSigned"
    and "ps_bit_width s = ps_bit_width t" and "scalar_number s = scalar_number t"
  shows "ps_bits s = ps_bits t"
proof (cases "k = ScalarUnsigned")
  case True
  with assms show ?thesis by (simp add: scalar_number_unsigned word_uint_eq_iff)
next
  case False
  then have s: "integer_ok ScalarSigned s" and t: "integer_ok ScalarSigned t" using assms by simp_all
  obtain m where m: "nat (ps_bit_width s) = Suc m" "nat (ps_bit_width s - 1) = m"
    using width_Suc s by (auto simp: integer_ok_def)
  have "signed_take_bit m (uint (ps_bits s)) = signed_take_bit m (uint (ps_bits t))"
    using assms(4,5) m by (simp add: scalar_number_signed [OF s] scalar_number_signed [OF t])
  then have "take_bit (Suc m) (uint (ps_bits s)) = take_bit (Suc m) (uint (ps_bits t))"
    by (simp add: signed_take_bit_eq_iff_take_bit_eq)
  then show ?thesis
    using s t m assms(4) by (simp add: integer_ok_def take_bit_int_eq_self word_uint_eq_iff)
qed

text \<open>C19.
  The integer constructors and accessors are inverse to each other: \<^verbatim>\<open>UnsignedScalar(v, w)\<close> and
  \<^verbatim>\<open>SignedScalar(z, w)\<close> succeed exactly for the values that fit, and they yield exactly the
  valid scalar of that width without a real payload whose \<^verbatim>\<open>UnsignedValue\<close> (resp.
  \<^verbatim>\<open>SignedValue\<close>) returns the value: every valid integer scalar arises so.
\<close>

theorem integer_scalars_roundtrip:
  "(unsigned_scalar v w = Inr s \<longleftrightarrow>
      scalar_validate s = Inr () \<and> ps_bit_width s = w \<and> ps_real s = 0 \<and> unsigned_value s = Some v) \<and>
   ((- (2 ^ 63) \<le> z \<and> z < 2 ^ 63 \<and> signed_scalar z w = Inr s) \<longleftrightarrow>
      scalar_validate s = Inr () \<and> ps_bit_width s = w \<and> ps_real s = 0 \<and> signed_value s = Some z)"
  (is "?U \<and> ?S")
proof
  show ?U
  proof
    assume u: "unsigned_scalar v w = Inr s"
    then have "integer_ok ScalarUnsigned s" by (auto simp: unsigned_scalar_ok integer_ok_def)
    with u show "scalar_validate s = Inr () \<and> ps_bit_width s = w \<and> ps_real s = 0 \<and> unsigned_value s = Some v"
      by (auto simp: unsigned_scalar_ok scalar_validate_ok unsigned_value_eq)
  next
    assume r: "scalar_validate s = Inr () \<and> ps_bit_width s = w \<and> ps_real s = 0 \<and> unsigned_value s = Some v"
    then have "integer_ok ScalarUnsigned s"
      by (auto simp: unsigned_value_def ok_iff integer_ok_def real_ok_def split: if_splits)
    with r show "unsigned_scalar v w = Inr s"
      by (auto simp: unsigned_scalar_ok unsigned_value_eq integer_ok_def)
  qed
  show ?S
  proof
    assume u: "- (2 ^ 63) \<le> z \<and> z < 2 ^ 63 \<and> signed_scalar z w = Inr s"
    then have r: "width_ok w" "- (2 ^ nat (w - 1)) \<le> z" "z < 2 ^ nat (w - 1)"
      "s = \<lparr>ps_kind = ScalarSigned, ps_real = 0, ps_bits = word_of_int z AND bit_mask w, ps_bit_width = w\<rparr>"
      using signed_scalar_ok [of z w s] by blast+
    note n = signed_scalar_number [OF r]
    from n have "signed_value s = Some z" by (simp add: signed_value_eq scalar_number_signed)
    with n r show "scalar_validate s = Inr () \<and> ps_bit_width s = w \<and> ps_real s = 0 \<and> signed_value s = Some z"
      by (simp add: scalar_validate_ok)
  next
    assume r: "scalar_validate s = Inr () \<and> ps_bit_width s = w \<and> ps_real s = 0 \<and> signed_value s = Some z"
    then have s: "integer_ok ScalarSigned s"
      by (auto simp: signed_value_def ok_iff integer_ok_def real_ok_def split: if_splits)
    then have z: "z = scalar_number s" using r by (metis signed_value_eq scalar_number_signed option.inject)
    note b = scalar_number_signed_bounds [OF s, folded z]
    have w: "width_ok w" using s r by (simp add: integer_ok_def)
    then have "(2::int) ^ nat (w - 1) \<le> 2 ^ 63" by (intro power_increasing) (auto simp: width_ok_def)
    with b r have lim: "- (2 ^ 63) \<le> z" "z < 2 ^ 63" by simp_all
    define t where "t = \<lparr>ps_kind = ScalarSigned, ps_real = 0, ps_bits = word_of_int z AND bit_mask w, ps_bit_width = w\<rparr>"
    have zw: "- (2 ^ nat (w - 1)) \<le> z" "z < 2 ^ nat (w - 1)" using b r by simp_all
    note t = signed_scalar_number [OF w zw t_def]
    have "ps_bits s = ps_bits t"
      by (rule scalar_number_inj [OF s t(1)]) (use r z t(2) in \<open>simp_all add: t_def\<close>)
    then have "s = t" using r s by (simp add: t_def integer_ok_def)
    with lim zw w show "- (2 ^ 63) \<le> z \<and> z < 2 ^ 63 \<and> signed_scalar z w = Inr s"
      by (simp add: signed_scalar_ok t_def)
  qed
qed

section \<open>Policies and operands\<close>

definition range_ok :: "string \<Rightarrow> int \<Rightarrow> integer_range \<Rightarrow> bool" where
  "range_ok k w r \<longleftrightarrow> integer_ok k (ir_min r) \<and> integer_ok k (ir_max r) \<and>
     ps_bit_width (ir_min r) = w \<and> ps_bit_width (ir_max r) = w \<and>
     scalar_number (ir_min r) \<le> scalar_number (ir_max r)"

definition integer_kind :: "string \<Rightarrow> bool" where
  "integer_kind k \<longleftrightarrow> k = ScalarUnsigned \<or> k = ScalarSigned"

lemma valid_integer:
  "integer_kind k \<Longrightarrow> ps_kind s = k \<Longrightarrow> scalar_validate s = Inr () \<longleftrightarrow> integer_ok k s"
  by (auto simp: integer_kind_def scalar_validate_ok real_ok_def integer_ok_def)

lemma big_int_number: "integer_kind (ps_kind s) \<Longrightarrow> scalar_big_int s = scalar_number s"
  by (auto simp: integer_kind_def scalar_number_def)

lemma integer_ok_kind: "integer_ok k s \<Longrightarrow> ps_kind s = k"
  by (simp add: integer_ok_def)

lemma big_int_ok: "integer_kind k \<Longrightarrow> integer_ok k s \<Longrightarrow> scalar_big_int s = scalar_number s"
  by (simp add: big_int_number integer_ok_kind)

lemma range_validate_ok:
  assumes "integer_kind k"
  shows "range_validate r k w = Inr u \<longleftrightarrow> range_ok k w r"
proof -
  have "range_validate r k w = Inr u \<longleftrightarrow>
      (scalar_validate (ir_min r) = Inr () \<and> ps_kind (ir_min r) = k \<and> ps_bit_width (ir_min r) = w) \<and>
      (scalar_validate (ir_max r) = Inr () \<and> ps_kind (ir_max r) = k \<and> ps_bit_width (ir_max r) = w) \<and>
      scalar_big_int (ir_min r) \<le> scalar_big_int (ir_max r)"
    by (auto simp: range_validate_def and_then_ok map_err_ok reject_if_ok)
  also have "\<dots> \<longleftrightarrow> range_ok k w r"
    using valid_integer [OF assms, of "ir_min r"] valid_integer [OF assms, of "ir_max r"]
      big_int_ok [OF assms, of "ir_min r"] big_int_ok [OF assms, of "ir_max r"]
      integer_ok_kind [of k "ir_min r"] integer_ok_kind [of k "ir_max r"]
    unfolding range_ok_def by metis
  finally show ?thesis .
qed

text \<open>What an operand has to satisfy, over numbers.\<close>

definition admits :: "integer_range \<Rightarrow> int \<Rightarrow> bool" where
  "admits r n \<longleftrightarrow> scalar_number (ir_min r) \<le> n \<and> n \<le> scalar_number (ir_max r)"

lemma validate_operand_real:
  "cp_kind p = ScalarReal \<Longrightarrow> policy_validate p = Inr () \<Longrightarrow>
     validate_operand p v left = Inr () \<longleftrightarrow> real_ok v"
  by (auto simp: validate_operand_def scalar_validate_ok real_ok_def integer_ok_def err_def)

lemma policy_ranges:
  assumes "policy_validate p = Inr ()" and "cp_kind p \<noteq> ScalarReal"
  shows "integer_kind (cp_kind p)" "width_ok (cp_bit_width p)"
    "range_ok (cp_kind p) (cp_bit_width p) (cp_left_range p)"
    "range_ok (cp_kind p) (cp_bit_width p) (cp_right_range p)"
proof -
  show k: "integer_kind (cp_kind p)" and "width_ok (cp_bit_width p)"
    using assms by (auto simp: policy_validate_def integer_kind_def width_ok_def split: if_splits)
  show "range_ok (cp_kind p) (cp_bit_width p) (cp_left_range p)"
    "range_ok (cp_kind p) (cp_bit_width p) (cp_right_range p)"
    using assms by (auto simp: policy_validate_def and_then_ok map_err_ok range_validate_ok [OF k]
        split: if_splits)
qed

lemma validate_operand_integer:
  assumes "policy_validate p = Inr ()" and "cp_kind p \<noteq> ScalarReal"
  shows "validate_operand p v left = Inr () \<longleftrightarrow>
    integer_ok (cp_kind p) v \<and> ps_bit_width v = cp_bit_width p \<and>
    admits (if left then cp_left_range p else cp_right_range p) (scalar_number v)"
proof -
  define r where "r = (if left then cp_left_range p else cp_right_range p)"
  have k: "integer_kind (cp_kind p)" and r: "range_ok (cp_kind p) (cp_bit_width p) r"
    using policy_ranges [OF assms] by (simp_all add: r_def)
  have b: "scalar_big_int (ir_min r) = scalar_number (ir_min r)"
    "scalar_big_int (ir_max r) = scalar_number (ir_max r)"
    using r by (simp_all add: range_ok_def big_int_ok [OF k])
  have rc: "range_contains r v \<longleftrightarrow> integer_ok (cp_kind p) v \<and> admits r (scalar_number v)"
    if "ps_kind v = cp_kind p" "ps_bit_width v = cp_bit_width p"
  proof -
    have rm: "ps_kind (ir_min r) = cp_kind p" "ps_bit_width (ir_min r) = cp_bit_width p"
      using r by (auto simp: range_ok_def integer_ok_kind)
    have v: "scalar_validate v = Inr () \<longleftrightarrow> integer_ok (cp_kind p) v"
      using valid_integer [OF k that(1)] .
    have n: "scalar_big_int v = scalar_number v" using that k by (simp add: big_int_number)
    show ?thesis by (simp add: range_contains_def that rm v n b admits_def Let_def)
  qed
  show ?thesis
    using assms rc unfolding validate_operand_def r_def [symmetric]
    by (auto simp: integer_ok_kind Let_def reject_if_ok r_def [symmetric])
qed

section \<open>The signed no-overflow policy\<close>

definition scalar_difference :: "public_scalar \<Rightarrow> public_scalar \<Rightarrow> public_scalar" where
  "scalar_difference x y = x\<lparr>ps_bits := (ps_bits x - ps_bits y) AND bit_mask (ps_bit_width x)\<rparr>"

lemma scalar_difference_number:
  assumes x: "integer_ok ScalarSigned x" and y: "integer_ok ScalarSigned y"
    and w: "ps_bit_width x = w" "ps_bit_width y = w"
    and lo: "- (2 ^ nat (w - 1)) \<le> scalar_number x - scalar_number y"
    and hi: "scalar_number x - scalar_number y < 2 ^ nat (w - 1)"
  shows "integer_ok ScalarSigned (scalar_difference x y)"
    and "scalar_number (scalar_difference x y) = scalar_number x - scalar_number y"
proof -
  have wd: "width_ok w" using x w by (simp add: integer_ok_def)
  obtain m where m: "nat w = Suc m" "nat (w - 1) = m" "m < 64" using width_Suc [OF wd] by blast
  have b: "uint (ps_bits (scalar_difference x y)) = take_bit (Suc m) (uint (ps_bits x) - uint (ps_bits y))"
    using m w by (simp add: scalar_difference_def and_bit_mask [OF wd] unsigned_take_bit_eq
        uint_word_arith_bintrs)
  show ok: "integer_ok ScalarSigned (scalar_difference x y)"
    using x b m w take_bit_int_less_exp [of "Suc m"]
    by (simp add: integer_ok_def) (simp add: scalar_difference_def)
  have "signed_take_bit m (uint (ps_bits x) - uint (ps_bits y)) =
      signed_take_bit m (signed_take_bit m (uint (ps_bits x)) - signed_take_bit m (uint (ps_bits y)))"
    by (simp add: signed_take_bit_diff)
  also have "\<dots> = signed_take_bit m (uint (ps_bits x)) - signed_take_bit m (uint (ps_bits y))"
    using lo hi m w x y by (simp add: scalar_number_signed signed_take_bit_int_eq_self)
  finally show "scalar_number (scalar_difference x y) = scalar_number x - scalar_number y"
    using b m w x y ok by (simp add: scalar_number_signed signed_take_bit_take_bit)
       (simp add: scalar_difference_def)
qed

lemma no_overflow_ranges:
  assumes "policy_validate p = Inr ()" and "cp_comparator p = ComparatorSignedNoOverflow"
    and "cp_kind p \<noteq> ScalarReal"
  shows "cp_kind p = ScalarSigned" and
    "- (2 ^ nat (cp_bit_width p - 1)) \<le>
       scalar_number (ir_min (cp_left_range p)) - scalar_number (ir_max (cp_right_range p))"
    "scalar_number (ir_max (cp_left_range p)) - scalar_number (ir_min (cp_right_range p)) <
       2 ^ nat (cp_bit_width p - 1)"
proof -
  have k: "integer_kind (cp_kind p)"
    and l: "range_ok (cp_kind p) (cp_bit_width p) (cp_left_range p)"
    and r: "range_ok (cp_kind p) (cp_bit_width p) (cp_right_range p)"
    using policy_ranges [OF assms(1,3)] by simp_all
  have b: "scalar_big_int (ir_min (cp_left_range p)) = scalar_number (ir_min (cp_left_range p))"
    "scalar_big_int (ir_max (cp_left_range p)) = scalar_number (ir_max (cp_left_range p))"
    "scalar_big_int (ir_min (cp_right_range p)) = scalar_number (ir_min (cp_right_range p))"
    "scalar_big_int (ir_max (cp_right_range p)) = scalar_number (ir_max (cp_right_range p))"
    using l r by (simp_all add: range_ok_def big_int_ok [OF k])
  show "cp_kind p = ScalarSigned"
    "- (2 ^ nat (cp_bit_width p - 1)) \<le>
       scalar_number (ir_min (cp_left_range p)) - scalar_number (ir_max (cp_right_range p))"
    "scalar_number (ir_max (cp_left_range p)) - scalar_number (ir_min (cp_right_range p)) <
       2 ^ nat (cp_bit_width p - 1)"
    using assms by (auto simp: policy_validate_def and_then_ok reject_if_ok Let_def b split: if_splits)
qed

text \<open>C29.
  The declared ranges of a valid \<^verbatim>\<open>signed_no_overflow\<close> policy justify its comparator: for all
  operands the policy admits, the w-bit wrapping subtraction of their bit patterns is again a
  valid signed scalar, it stands for the exact difference of the two numbers, and its sign is
  therefore the comparison: the top bit is clear exactly when left is at least right.
\<close>

theorem no_overflow_policy_sound:
  assumes "policy_validate p = Inr ()" and "cp_comparator p = ComparatorSignedNoOverflow"
    and "cp_kind p \<noteq> ScalarReal"
    and "validate_operand p x True = Inr ()" and "validate_operand p y False = Inr ()"
  shows "signed_value (scalar_difference x y) = Some (scalar_number x - scalar_number y) \<and>
    (bit (ps_bits (scalar_difference x y)) (nat (cp_bit_width p) - 1) \<longleftrightarrow> scalar_number x < scalar_number y)"
proof -
  note no = no_overflow_ranges [OF assms(1-3)]
  from assms(4,5) no(1) have x: "integer_ok ScalarSigned x" "ps_bit_width x = cp_bit_width p"
    "admits (cp_left_range p) (scalar_number x)"
    and y: "integer_ok ScalarSigned y" "ps_bit_width y = cp_bit_width p"
    "admits (cp_right_range p) (scalar_number y)"
    by (simp_all add: validate_operand_integer [OF assms(1,3)])
  have d: "- (2 ^ nat (cp_bit_width p - 1)) \<le> scalar_number x - scalar_number y"
    "scalar_number x - scalar_number y < 2 ^ nat (cp_bit_width p - 1)"
    using no x(3) y(3) by (auto simp: admits_def)
  note df = scalar_difference_number [OF x(1) y(1) x(2) y(2) d]
  have v: "signed_value (scalar_difference x y) = Some (scalar_number x - scalar_number y)"
    using df by (simp add: signed_value_eq scalar_number_signed)
  obtain m where m: "nat (cp_bit_width p) = Suc m" "nat (cp_bit_width p - 1) = m" "m < 64"
    using width_Suc x(1,2) by (auto simp: integer_ok_def)
  have "scalar_number x - scalar_number y < 0 \<longleftrightarrow> bit (uint (ps_bits (scalar_difference x y))) m"
    using df m x(2) by (simp add: scalar_number_signed flip: df(2))
       (simp add: scalar_difference_def signed_take_bit_negative_iff)
  with v m show ?thesis by (simp add: bit_uint_iff)
qed

section \<open>Scalars of ordered kinds\<close>

text \<open>
  The tree's numbers and their exact public scalars: a float32 counts in units \<^verbatim>\<open>2 ^ 925\<close> times
  larger than a float64, every other kind keeps its rank.
\<close>

definition rank_unit :: "go_kind \<Rightarrow> int" where
  "rank_unit k = (case class_of k of Float32Kind \<Rightarrow> 2 ^ 925 | _ \<Rightarrow> 1)"

definition kind_domain :: "go_kind \<Rightarrow> string \<times> int" where
  "kind_domain k =
     (case class_of k of
        SignedKind \<Rightarrow> (ScalarSigned, int (kind_bits k))
      | UnsignedKind \<Rightarrow> (ScalarUnsigned, int (kind_bits k))
      | _ \<Rightarrow> (ScalarReal, 0))"

definition scalar_domain :: "public_scalar \<Rightarrow> string \<times> int" where
  "scalar_domain s = (ps_kind s, ps_bit_width s)"

lemma real_scalar_ok [ok_iff]:
  "real_scalar v = Inr s \<longleftrightarrow>
     f64_finite v \<and> s = \<lparr>ps_kind = ScalarReal, ps_real = v, ps_bits = 0, ps_bit_width = 0\<rparr>"
  by (auto simp: real_scalar_def Let_def and_then_ok scalar_validate_ok real_ok_def integer_ok_def)

lemma public_scalar_from_ordered_ok:
  assumes "public_scalar_from_ordered x = Inr s"
  shows "scalar_validate s = Inr ()" "scalar_domain s = kind_domain (scalar_kind x)"
    "finite_scalar x" "scalar_number s = scalar_rank (scalar_kind x) (scalar_bits x) * rank_unit (scalar_kind x)"
proof -
  define b where "b = scalar_bits x"
  define k where "k = scalar_kind x"
  have lim: "- (2 ^ 63) \<le> sint b" "sint b < 2 ^ 63"
    using sint_greater_eq [of b] sint_less [of b] by simp_all
  have "scalar_validate s = Inr () \<and> scalar_domain s = kind_domain k \<and> finite_scalar x \<and>
      scalar_number s = scalar_rank k b * rank_unit k"
  proof (cases "class_of k")
    case SignedKind
    then have s: "signed_scalar (sint b) (int (kind_bits k)) = Inr s"
      using assms by (simp add: public_scalar_from_ordered_def b_def k_def)
    have r: "width_ok (int (kind_bits k))" "- (2 ^ nat (int (kind_bits k) - 1)) \<le> sint b"
      "sint b < 2 ^ nat (int (kind_bits k) - 1)"
      "s = \<lparr>ps_kind = ScalarSigned, ps_real = 0, ps_bits = word_of_int (sint b) AND bit_mask (int (kind_bits k)),
        ps_bit_width = int (kind_bits k)\<rparr>"
      using s signed_scalar_ok [OF lim] by blast+
    show ?thesis using signed_scalar_number [OF r] SignedKind
      by (simp add: scalar_validate_ok scalar_domain_def kind_domain_def finite_scalar_def k_def
          scalar_rank_def rank_unit_def) (simp add: r(4) k_def)
  next
    case UnsignedKind
    then have s: "unsigned_scalar b (int (kind_bits k)) = Inr s"
      using assms by (simp add: public_scalar_from_ordered_def b_def k_def)
    then have "integer_ok ScalarUnsigned s" "ps_bits s = b" "ps_bit_width s = int (kind_bits k)"
      by (auto simp: unsigned_scalar_ok integer_ok_def)
    with UnsignedKind show ?thesis
      by (simp add: scalar_validate_ok scalar_number_unsigned scalar_domain_def kind_domain_def
          finite_scalar_def k_def scalar_rank_def rank_unit_def) (simp add: integer_ok_def k_def)
  next
    case Float64Kind
    then have s: "real_scalar b = Inr s"
      using assms by (simp add: public_scalar_from_ordered_def b_def k_def)
    then have r: "real_ok s" "ps_real s = b" "ps_bit_width s = 0" "f64_finite b"
      by (auto simp: real_scalar_ok real_ok_def)
    with Float64Kind show ?thesis
      by (simp add: scalar_validate_ok scalar_number_real scalar_domain_def kind_domain_def
          finite_scalar_def k_def b_def scalar_rank_def rank_unit_def f64_finite_def fp_finite_iff)
         (simp add: real_ok_def)
  next
    case Float32Kind
    define a :: "32 word" where "a = ucast b"
    have s: "real_scalar (f64_of_f32 a) = Inr s"
      using assms Float32Kind by (simp add: public_scalar_from_ordered_def b_def k_def a_def)
    then have fin: "f32_finite a" using f64_of_f32_not_finite by (auto simp: real_scalar_ok)
    note v = f64_of_f32_val [OF fin]
    from s have r: "real_ok s" "ps_real s = f64_of_f32 a" "ps_bit_width s = 0"
      by (auto simp: real_scalar_ok real_ok_def)
    have low: "unat a = unat b mod 2 ^ 32" by (simp add: a_def unsigned_ucast_eq take_bit_eq_mod)
    have abs: "fp_abs 8 23 (unat a) = fp_abs 8 23 (unat b)" "fp_neg 8 23 (unat a) = fp_neg 8 23 (unat b)"
      "fp_frac 23 (unat a) = fp_frac 23 (unat b)"
      unfolding low using bit_take_bit_iff [of 32 "unat b" 31]
      by (simp_all add: fp_abs_def fp_neg_def fp_frac_def mod_mod_cancel bit_iff_odd take_bit_eq_mod)
    have val: "fp_val 8 23 (unat a) = fp_val 8 23 (unat b)"
      by (simp add: fp_val_def fp_mag_def abs)
    have "finite_scalar x"
      using fin Float32Kind abs
      by (auto simp: finite_scalar_def k_def b_def f32_finite_def fp_finite_iff fp_nan_def fp_inf_def fp_exp_def)
    with Float32Kind r v val show ?thesis
      by (simp add: scalar_validate_ok scalar_number_real scalar_domain_def kind_domain_def k_def
          scalar_rank_def rank_unit_def f64_val_def) (simp add: real_ok_def)
  qed
  then show "scalar_validate s = Inr ()" "scalar_domain s = kind_domain (scalar_kind x)"
    "finite_scalar x" "scalar_number s = scalar_rank (scalar_kind x) (scalar_bits x) * rank_unit (scalar_kind x)"
    by (simp_all add: k_def b_def)
qed

lemma rank_unit_pos: "0 < rank_unit k"
  by (simp add: rank_unit_def split: kind_class.split)

lemma scalar_lt_number:
  assumes "public_scalar_from_ordered x = Inr s" and "public_scalar_from_ordered y = Inr t"
    and "scalar_kind x = scalar_kind y"
  shows "scalar_lt x y \<longleftrightarrow> scalar_number s < scalar_number t"
proof -
  note x = public_scalar_from_ordered_ok [OF assms(1)] and y = public_scalar_from_ordered_ok [OF assms(2)]
  have "scalar_lt x y \<longleftrightarrow> scalar_rank (scalar_kind y) (scalar_bits x) < scalar_rank (scalar_kind y) (scalar_bits y)"
    using x(3) y(3) assms(3) by (intro scalar_lt_rank) (simp_all add: scalar_ok_def)
  then show ?thesis using rank_unit_pos by (simp add: x(4) y(4) assms(3))
qed

end
