(* ===== verification/StateRes.thy ===== *)
theory StateRes
  imports Prelude
begin

text \<open>
  Fallible code that updates a state on the way: a computation maps a state to an outcome and
  the state it leaves, whether it returns an error or not, as a Go method with a pointer receiver
  does.
\<close>

type_synonym ('e, 'a, 's) stm = "'s \<Rightarrow> ('e, 'a) res \<times> 's"

definition lift_res :: "('e, 'a) res \<Rightarrow> ('e, 'a, 's) stm" where
  "lift_res r s = (r, s)"

definition bind_st :: "('e, 'a, 's) stm \<Rightarrow> ('a \<Rightarrow> ('e, 'b, 's) stm) \<Rightarrow> ('e, 'b, 's) stm" where
  "bind_st m f s = (case m s of (Inl e, s') \<Rightarrow> (Inl e, s') | (Inr x, s') \<Rightarrow> f x s')"

definition modify_st :: "('s \<Rightarrow> 's) \<Rightarrow> ('e, unit, 's) stm" where
  "modify_st f s = (Inr (), f s)"

fun map_st :: "(nat \<Rightarrow> 'a \<Rightarrow> ('e, 'b, 's) stm) \<Rightarrow> nat \<Rightarrow> 'a list \<Rightarrow> ('e, 'b list, 's) stm" where
  "map_st f i [] = lift_res (Inr [])"
| "map_st f i (x # xs) =
     bind_st (f i x) (\<lambda>y. bind_st (map_st f (Suc i) xs) (\<lambda>ys. lift_res (Inr (y # ys))))"

fun fold_st :: "(nat \<Rightarrow> 'a \<Rightarrow> 'b \<Rightarrow> ('e, 'b, 's) stm) \<Rightarrow> nat \<Rightarrow> 'a list \<Rightarrow> 'b \<Rightarrow> ('e, 'b, 's) stm" where
  "fold_st f i [] acc = lift_res (Inr acc)"
| "fold_st f i (x # xs) acc = bind_st (f i x acc) (\<lambda>acc'. fold_st f (Suc i) xs acc')"

section \<open>Running a computation\<close>

text \<open>\<^verbatim>\<open>runs m s x s'\<close>: from state s the computation returns x and leaves s'.\<close>

definition runs :: "('e, 'a, 's) stm \<Rightarrow> 's \<Rightarrow> 'a \<Rightarrow> 's \<Rightarrow> bool" where
  "runs m s x s' \<longleftrightarrow> m s = (Inr x, s')"

named_theorems runs_iff \<open>when a computation returns a value\<close>

lemma runs_lift [runs_iff]: "runs (lift_res r) s x s' \<longleftrightarrow> r = Inr x \<and> s' = s"
  by (auto simp: runs_def lift_res_def)

lemma runs_bind [runs_iff]:
  "runs (bind_st m f) s y s'' \<longleftrightarrow> (\<exists>x s'. runs m s x s' \<and> runs (f x) s' y s'')"
  by (cases "m s"; cases "fst (m s)") (auto simp: runs_def bind_st_def)

lemma runs_modify [runs_iff]: "runs (modify_st f) s u s' \<longleftrightarrow> s' = f s"
  by (auto simp: runs_def modify_st_def)

lemma runs_bindI: "runs m s x s' \<Longrightarrow> runs (f x) s' y s'' \<Longrightarrow> runs (bind_st m f) s y s''"
  by (auto simp: runs_bind)

lemma runs_liftI: "runs (lift_res (Inr x)) s x s"
  by (simp add: runs_lift)

lemma runs_det: "runs m s x s' \<Longrightarrow> runs m s y s'' \<Longrightarrow> y = x \<and> s'' = s'"
  by (simp add: runs_def)

text \<open>A loop whose iterations all return a value with a given property.\<close>

lemma map_st_runs:
  assumes "\<And>j s. j < length xs \<Longrightarrow> \<exists>y s'. runs (f (i + j) (xs ! j)) s y s' \<and> P j y"
  shows "\<exists>ys s'. runs (map_st f i xs) s ys s' \<and> length ys = length xs \<and> (\<forall>j < length xs. P j (ys ! j))"
  using assms
proof (induction xs arbitrary: i s P)
  case Nil
  then show ?case by (simp add: runs_iff)
next
  case (Cons x xs)
  obtain y t where y: "runs (f i x) s y t" "P 0 y" using Cons.prems [of 0 s] by auto
  have "\<exists>y t'. runs (f (Suc i + j) (xs ! j)) t y t' \<and> P (Suc j) y" if "j < length xs" for j t
    using Cons.prems [of "Suc j" t] that by simp
  then obtain ys t' where ys: "runs (map_st f (Suc i) xs) t ys t'"
    "length ys = length xs" "\<forall>j < length xs. P (Suc j) (ys ! j)"
    using Cons.IH [of "Suc i" "\<lambda>j. P (Suc j)" t] by auto
  have "runs (map_st f i (x # xs)) s (y # ys) t'"
    using y(1) ys(1) by (auto simp: runs_iff)
  moreover have "\<forall>j < length (x # xs). P j ((y # ys) ! j)"
    using y(2) ys(3) by (auto simp: less_Suc_eq_0_disj)
  ultimately show ?case using ys(2) by auto
qed

lemma map_st_runs_length: "runs (map_st f i xs) s ys s' \<Longrightarrow> length ys = length xs"
  by (induction xs arbitrary: i s ys) (auto simp: runs_iff)

text \<open>What every iteration does to the state, the loop does as often as it runs.\<close>

lemma map_st_runs_state:
  assumes "runs (map_st f i xs) s ys s'"
    and "\<And>j x y t t'. x \<in> set xs \<Longrightarrow> runs (f j x) t y t' \<Longrightarrow> t' = g t \<and> P y"
  shows "s' = (g ^^ length xs) s" and "list_all P ys"
proof -
  have "s' = (g ^^ length xs) s \<and> list_all P ys"
    using assms
  proof (induction xs arbitrary: i s ys)
    case Nil
    then show ?case by (simp add: runs_iff)
  next
    case (Cons x xs)
    from Cons.prems(1) obtain y t zs where r: "runs (f i x) s y t" "runs (map_st f (Suc i) xs) t zs s'"
      "ys = y # zs" by (auto simp: runs_iff)
    have y: "t = g s" "P y" using Cons.prems(2) [OF _ r(1)] by auto
    have "s' = (g ^^ length xs) t \<and> list_all P zs"
      by (rule Cons.IH [OF r(2)]) (rule Cons.prems(2), simp_all)
    with y r(3) show ?case by (simp add: funpow_swap1)
  qed
  then show "s' = (g ^^ length xs) s" "list_all P ys" by auto
qed

lemma map_st_runs_all:
  assumes "runs (map_st f i xs) s ys s'"
    and "\<And>j x y t t'. x \<in> set xs \<Longrightarrow> runs (f j x) t y t' \<Longrightarrow> P y"
  shows "list_all P ys"
  using assms
proof (induction xs arbitrary: i s ys)
  case Nil
  then show ?case by (simp add: runs_iff)
next
  case (Cons x xs)
  from Cons.prems(1) obtain y t zs where r: "runs (f i x) s y t" "runs (map_st f (Suc i) xs) t zs s'"
    "ys = y # zs" by (auto simp: runs_iff)
  have "P y" using Cons.prems(2) [OF _ r(1)] by simp
  moreover have "list_all P zs" by (rule Cons.IH [OF r(2)]) (rule Cons.prems(2), simp_all)
  ultimately show ?case using r(3) by simp
qed

section \<open>Computations without panics\<close>

definition safe_st :: "('e, 'a, 's) stm \<Rightarrow> bool" where
  "safe_st m \<longleftrightarrow> (\<forall>s. safe (fst (m s)))"

lemma safe_lift [safe_intro]: "safe r \<Longrightarrow> safe_st (lift_res r)"
  by (simp add: safe_st_def lift_res_def)

lemma safe_modify [safe_intro]: "safe_st (modify_st f)"
  by (simp add: safe_st_def modify_st_def)

lemma safe_bind [safe_intro]:
  assumes "safe_st m" and "\<And>x s s'. runs m s x s' \<Longrightarrow> safe_st (f x)"
  shows "safe_st (bind_st m f)"
  unfolding safe_st_def
proof
  fix s
  show "safe (fst (bind_st m f s))"
  proof (cases "fst (m s)")
    case (Inl e)
    then have "fst (bind_st m f s) = Inl e" by (cases "m s") (simp add: bind_st_def)
    moreover have "safe (fst (m s))" using assms(1) by (simp add: safe_st_def)
    ultimately show ?thesis using Inl by (simp add: safe_def)
  next
    case (Inr x)
    then have "runs m s x (snd (m s))" by (simp add: runs_def prod_eq_iff)
    then have "safe_st (f x)" by (rule assms(2))
    with Inr show ?thesis by (cases "m s") (simp add: safe_st_def bind_st_def)
  qed
qed

lemma safe_map_st [safe_intro]:
  "(\<And>j x. x \<in> set xs \<Longrightarrow> safe_st (f j x)) \<Longrightarrow> safe_st (map_st f i xs)"
proof (induction xs arbitrary: i)
  case Nil
  show ?case by (simp add: safe_lift)
next
  case (Cons x xs)
  show ?case unfolding map_st.simps
    by (intro safe_intro) (use Cons in \<open>simp_all\<close>)
qed

lemma safe_fold_st [safe_intro]:
  "(\<And>j x a. x \<in> set xs \<Longrightarrow> safe_st (f j x a)) \<Longrightarrow> safe_st (fold_st f i xs acc)"
proof (induction xs arbitrary: i acc)
  case Nil
  show ?case by (simp add: safe_lift)
next
  case (Cons x xs)
  show ?case unfolding fold_st.simps
    by (intro safe_intro) (use Cons in \<open>simp_all\<close>)
qed

end
