(* ===== verification/TreeEval.thy ===== *)
theory TreeEval
  imports PlainBackend StateRes
begin

text \<open>
  Oblivious tree evaluation over an abstract arithmetic backend: \<^verbatim>\<open>integer/treeeval/backend.go\<close>,
  \<^verbatim>\<open>counts.go\<close>, \<^verbatim>\<open>engine.go\<close> and \<^verbatim>\<open>evaluator.go\<close>. The backend interface is a record of
  functions, a nil backend is \<^verbatim>\<open>None\<close>, and the counting engine is a computation on the operation
  counts, which it leaves behind on errors too. Counters are unbounded: each unit stands for one
  executed backend call, so no run reaches the 64-bit limit.
\<close>

section \<open>The backend interface and the counts\<close>

record ('v, 'b) backend =
  be_public_constant :: "public_scalar \<Rightarrow> ('b, 'v) res"
  be_kind :: "'v \<Rightarrow> value_kind"
  be_add :: "'v \<Rightarrow> 'v \<Rightarrow> ('b, 'v) res"
  be_sub :: "'v \<Rightarrow> 'v \<Rightarrow> ('b, 'v) res"
  be_mul :: "'v \<Rightarrow> 'v \<Rightarrow> ('b, 'v) res"
  be_compare_ge :: "'v \<Rightarrow> 'v \<Rightarrow> comparison_policy \<Rightarrow> ('b, 'v) res"

record operation_counts =
  oc_public_constants :: int
  oc_ctct_multiplications :: int
  oc_ctpublic_multiplications :: int
  oc_publicpublic_multiplications :: int
  oc_additions :: int
  oc_subtractions :: int
  oc_comparisons :: int
  oc_ctct_comparisons :: int
  oc_ctpublic_comparisons :: int
  oc_publicpublic_comparisons :: int
  oc_peak_live_states :: int
  oc_peak_live_path_states :: int
  oc_peak_live_comparison_states :: int
  oc_final_live_states :: int

definition zero_counts :: operation_counts where
  "zero_counts = \<lparr>
     oc_public_constants = 0, oc_ctct_multiplications = 0, oc_ctpublic_multiplications = 0,
     oc_publicpublic_multiplications = 0, oc_additions = 0, oc_subtractions = 0,
     oc_comparisons = 0, oc_ctct_comparisons = 0, oc_ctpublic_comparisons = 0,
     oc_publicpublic_comparisons = 0, oc_peak_live_states = 0, oc_peak_live_path_states = 0,
     oc_peak_live_comparison_states = 0, oc_final_live_states = 0\<rparr>"

definition total_backend_calls :: "operation_counts \<Rightarrow> int" where
  "total_backend_calls c =
     oc_public_constants c + oc_ctct_multiplications c + oc_ctpublic_multiplications c +
     oc_publicpublic_multiplications c + oc_additions c + oc_subtractions c + oc_comparisons c"

datatype 'b eval_error =
  ErrInvalidBackend
| InvalidKind string value_kind
| InitialWeightNotOpaque
| FeatureNotOpaque nat
| SplitFeatureMissing nat int nat
| UnrepresentableScalar scalar numeric_error
| EmptySum
| PathBranchLengths nat nat
| PathLeafLengths nat nat
| ErrBackendOperation string 'b
| ErrBackendProvenance string value_kind value_kind
| FinalNotOpaque
| ErrInvalidComparisonPolicy numeric_error
| ThresholdNotAdmitted nat numeric_error
| InvalidTree binary_error

type_synonym ('b, 'a) engine = "('b eval_error, 'a, operation_counts) stm"

section \<open>The counting engine\<close>

definition engine_kind :: "('v, 'b) backend \<Rightarrow> 'v \<Rightarrow> string \<Rightarrow> ('b, value_kind) engine" where
  "engine_kind be value place =
     lift_res (let kind = be_kind be value
       in if kind \<noteq> ValuePublic \<and> kind \<noteq> ValueOpaque then err (InvalidKind place kind) else Inr kind)"

definition joined_kind :: "value_kind \<Rightarrow> value_kind \<Rightarrow> value_kind" where
  "joined_kind left right =
     (if left = ValueOpaque \<or> right = ValueOpaque then ValueOpaque else ValuePublic)"

definition require_result ::
  "('v, 'b) backend \<Rightarrow> 'v \<Rightarrow> value_kind \<Rightarrow> string \<Rightarrow> ('b, 'v) engine" where
  "require_result be value want operation =
     lift_res (let got = be_kind be value
       in if got \<noteq> want then err (ErrBackendProvenance operation got want) else Inr value)"

definition backend_call :: "string \<Rightarrow> ('b, 'v) res \<Rightarrow> ('b, 'v) engine" where
  "backend_call operation r = lift_res (map_err (ErrBackendOperation operation) r)"

definition engine_public :: "('v, 'b) backend \<Rightarrow> public_scalar \<Rightarrow> ('b, 'v) engine" where
  "engine_public be value =
     bind_st (backend_call ''PublicConstant'' (be_public_constant be value)) (\<lambda>result.
     bind_st (modify_st (\<lambda>c. c\<lparr>oc_public_constants := oc_public_constants c + 1\<rparr>)) (\<lambda>_.
     require_result be result ValuePublic ''PublicConstant''))"

definition engine_add :: "('v, 'b) backend \<Rightarrow> 'v \<Rightarrow> 'v \<Rightarrow> ('b, 'v) engine" where
  "engine_add be left right =
     bind_st (engine_kind be left ''Add left operand'') (\<lambda>lk.
     bind_st (engine_kind be right ''Add right operand'') (\<lambda>rk.
     bind_st (backend_call ''Add'' (be_add be left right)) (\<lambda>result.
     bind_st (modify_st (\<lambda>c. c\<lparr>oc_additions := oc_additions c + 1\<rparr>)) (\<lambda>_.
     require_result be result (joined_kind lk rk) ''Add''))))"

definition engine_sub :: "('v, 'b) backend \<Rightarrow> 'v \<Rightarrow> 'v \<Rightarrow> ('b, 'v) engine" where
  "engine_sub be left right =
     bind_st (engine_kind be left ''Sub left operand'') (\<lambda>lk.
     bind_st (engine_kind be right ''Sub right operand'') (\<lambda>rk.
     bind_st (backend_call ''Sub'' (be_sub be left right)) (\<lambda>result.
     bind_st (modify_st (\<lambda>c. c\<lparr>oc_subtractions := oc_subtractions c + 1\<rparr>)) (\<lambda>_.
     require_result be result (joined_kind lk rk) ''Sub''))))"

definition count_mul :: "value_kind \<Rightarrow> value_kind \<Rightarrow> operation_counts \<Rightarrow> operation_counts" where
  "count_mul lk rk c =
     (if lk = ValueOpaque \<and> rk = ValueOpaque
        then c\<lparr>oc_ctct_multiplications := oc_ctct_multiplications c + 1\<rparr>
      else if lk = ValueOpaque \<or> rk = ValueOpaque
        then c\<lparr>oc_ctpublic_multiplications := oc_ctpublic_multiplications c + 1\<rparr>
      else c\<lparr>oc_publicpublic_multiplications := oc_publicpublic_multiplications c + 1\<rparr>)"

definition engine_mul :: "('v, 'b) backend \<Rightarrow> 'v \<Rightarrow> 'v \<Rightarrow> ('b, 'v) engine" where
  "engine_mul be left right =
     bind_st (engine_kind be left ''Mul left operand'') (\<lambda>lk.
     bind_st (engine_kind be right ''Mul right operand'') (\<lambda>rk.
     bind_st (backend_call ''Mul'' (be_mul be left right)) (\<lambda>result.
     bind_st (modify_st (count_mul lk rk)) (\<lambda>_.
     require_result be result (joined_kind lk rk) ''Mul''))))"

definition count_compare :: "value_kind \<Rightarrow> value_kind \<Rightarrow> operation_counts \<Rightarrow> operation_counts" where
  "count_compare lk rk c0 =
     (let c = c0\<lparr>oc_comparisons := oc_comparisons c0 + 1\<rparr>
      in if lk = ValueOpaque \<and> rk = ValueOpaque
           then c\<lparr>oc_ctct_comparisons := oc_ctct_comparisons c + 1\<rparr>
         else if lk = ValueOpaque \<or> rk = ValueOpaque
           then c\<lparr>oc_ctpublic_comparisons := oc_ctpublic_comparisons c + 1\<rparr>
         else c\<lparr>oc_publicpublic_comparisons := oc_publicpublic_comparisons c + 1\<rparr>)"

definition engine_compare_ge ::
  "('v, 'b) backend \<Rightarrow> 'v \<Rightarrow> 'v \<Rightarrow> comparison_policy \<Rightarrow> ('b, 'v) engine" where
  "engine_compare_ge be left right policy =
     bind_st (engine_kind be left ''CompareGE left operand'') (\<lambda>lk.
     bind_st (engine_kind be right ''CompareGE right operand'') (\<lambda>rk.
     bind_st (backend_call ''CompareGE'' (be_compare_ge be left right policy)) (\<lambda>result.
     bind_st (modify_st (count_compare lk rk)) (\<lambda>_.
     require_result be result (joined_kind lk rk) ''CompareGE''))))"

definition observed :: "int \<Rightarrow> int \<Rightarrow> operation_counts \<Rightarrow> operation_counts" where
  "observed path_states comparison_states c = c\<lparr>
     oc_peak_live_path_states := max path_states (oc_peak_live_path_states c),
     oc_peak_live_comparison_states := max comparison_states (oc_peak_live_comparison_states c),
     oc_peak_live_states := max (path_states + comparison_states) (oc_peak_live_states c)\<rparr>"

definition observe_live :: "nat \<Rightarrow> nat \<Rightarrow> ('b, unit) engine" where
  "observe_live path_states comparison_states =
     modify_st (observed (int path_states) (int comparison_states))"

section \<open>The evaluators\<close>

definition exact_public_scalar :: "scalar \<Rightarrow> ('b eval_error, public_scalar) res" where
  "exact_public_scalar value =
     map_err (UnrepresentableScalar value) (public_scalar_from_ordered value)"

definition validate_inputs ::
  "('v, 'b) backend option \<Rightarrow> binary_tree \<Rightarrow> 'v list \<Rightarrow> 'v \<Rightarrow> comparison_policy \<Rightarrow>
   ('b eval_error, unit) res" where
  "validate_inputs backend tree features opaque_one policy =
     (case backend of
        None \<Rightarrow> err ErrInvalidBackend
      | Some be \<Rightarrow>
          and_then (map_err ErrInvalidComparisonPolicy (policy_validate policy)) (\<lambda>_.
          and_then (map_err InvalidTree (binary_validate tree)) (\<lambda>_.
          and_then (reject_if (be_kind be opaque_one \<noteq> ValueOpaque) InitialWeightNotOpaque) (\<lambda>_.
          and_then (check_each (\<lambda>i feature.
            reject_if (be_kind be feature \<noteq> ValueOpaque) (FeatureNotOpaque i)) 0 features) (\<lambda>_.
          check_each (\<lambda>i split.
            and_then (reject_if (bs_feature split \<ge> int (length features))
              (SplitFeatureMissing i (bs_feature split) (length features))) (\<lambda>_.
            and_then (exact_public_scalar (bs_threshold split)) (\<lambda>threshold.
            map_err (ThresholdNotAdmitted i) (validate_operand policy threshold False))))
            0 (bt_splits tree))))))"

definition sum_values :: "('v, 'b) backend \<Rightarrow> 'v list \<Rightarrow> ('b, 'v) engine" where
  "sum_values be values =
     (case values of
        [] \<Rightarrow> lift_res (err EmptySum)
      | first # rest \<Rightarrow> fold_st (\<lambda>_ x total. engine_add be total x) 1 rest first)"

definition select_features ::
  "('v, 'b) backend \<Rightarrow> 'v list \<Rightarrow> binary_split list \<Rightarrow> 'v list \<Rightarrow> ('b, 'v) engine" where
  "select_features be weights splits features =
     bind_st (map_st (\<lambda>i weight.
       bind_st (lift_res (at splits i)) (\<lambda>split.
       bind_st (lift_res (at_int features (bs_feature split))) (\<lambda>feature.
       engine_mul be weight feature))) 0 weights)
     (sum_values be)"

definition select_thresholds ::
  "('v, 'b) backend \<Rightarrow> 'v list \<Rightarrow> binary_split list \<Rightarrow> ('b, 'v) engine" where
  "select_thresholds be weights splits =
     bind_st (map_st (\<lambda>i weight.
       bind_st (lift_res (at splits i)) (\<lambda>split.
       bind_st (lift_res (exact_public_scalar (bs_threshold split))) (\<lambda>scalar.
       bind_st (engine_public be scalar) (\<lambda>threshold.
       engine_mul be weight threshold)))) 0 weights)
     (sum_values be)"

definition update_path_weights ::
  "('v, 'b) backend \<Rightarrow> 'v list \<Rightarrow> 'v list \<Rightarrow> ('b, 'v list) engine" where
  "update_path_weights be weights branches =
     (if length weights \<noteq> length branches
        then lift_res (err (PathBranchLengths (length weights) (length branches)))
      else bind_st (map_st (\<lambda>i weight.
          bind_st (lift_res (at branches i)) (\<lambda>branch.
          bind_st (engine_mul be weight branch) (\<lambda>right.
          bind_st (engine_sub be weight right) (\<lambda>left.
          lift_res (Inr [left, right]))))) 0 weights)
        (\<lambda>pairs. lift_res (Inr (concat pairs))))"

definition select_leaves ::
  "('v, 'b) backend \<Rightarrow> 'v list \<Rightarrow> scalar list \<Rightarrow> ('b, 'v) engine" where
  "select_leaves be weights leaves =
     (if length weights \<noteq> length leaves
        then lift_res (err (PathLeafLengths (length weights) (length leaves)))
      else bind_st (map_st (\<lambda>i leaf.
          bind_st (lift_res (exact_public_scalar leaf)) (\<lambda>scalar.
          bind_st (engine_public be scalar) (\<lambda>constant.
          bind_st (lift_res (at weights i)) (\<lambda>weight.
          engine_mul be weight constant)))) 0 leaves)
        (sum_values be))"

text \<open>The slice expression \<^verbatim>\<open>xs[a:b]\<close>.\<close>

definition slice :: "'a list \<Rightarrow> nat \<Rightarrow> nat \<Rightarrow> ('e, 'a list) res" where
  "slice xs a b = (if a \<le> b \<and> b \<le> length xs then Inr (take (b - a) (drop a xs)) else Inl Panic)"

text \<open>One iteration of the depth loop of \<^verbatim>\<open>EvaluateOBO\<close>, then of \<^verbatim>\<open>EvaluateFullLevel\<close>.\<close>

definition obo_level ::
  "('v, 'b) backend \<Rightarrow> binary_tree \<Rightarrow> 'v list \<Rightarrow> comparison_policy \<Rightarrow> nat \<Rightarrow> 'v list \<Rightarrow>
   ('b, 'v list) engine" where
  "obo_level be tree features policy depth weights =
     (let width = 2 ^ depth; base = width - 1
      in bind_st (lift_res (slice (bt_splits tree) base (base + width))) (\<lambda>splits.
         bind_st (select_features be weights splits features) (\<lambda>selected_feature.
         bind_st (select_thresholds be weights splits) (\<lambda>selected_threshold.
         bind_st (engine_compare_ge be selected_feature selected_threshold policy) (\<lambda>branch.
         bind_st (observe_live (length weights) 1) (\<lambda>_.
         bind_st (update_path_weights be weights (replicate width branch)) (\<lambda>next_weights.
         bind_st (observe_live (length next_weights) 0) (\<lambda>_.
         lift_res (Inr next_weights)))))))))"

definition full_level ::
  "('v, 'b) backend \<Rightarrow> binary_tree \<Rightarrow> 'v list \<Rightarrow> comparison_policy \<Rightarrow> nat \<Rightarrow> 'v list \<Rightarrow>
   ('b, 'v list) engine" where
  "full_level be tree features policy depth weights =
     (let width = 2 ^ depth; base = width - 1
      in bind_st (map_st (\<lambda>_ i.
           bind_st (lift_res (at (bt_splits tree) (base + i))) (\<lambda>split.
           bind_st (lift_res (exact_public_scalar (bs_threshold split))) (\<lambda>scalar.
           bind_st (engine_public be scalar) (\<lambda>threshold.
           bind_st (lift_res (at_int features (bs_feature split))) (\<lambda>feature.
           engine_compare_ge be feature threshold policy))))) 0 [0..<width]) (\<lambda>branches.
         bind_st (observe_live (length weights) (length branches)) (\<lambda>_.
         bind_st (update_path_weights be weights branches) (\<lambda>next_weights.
         bind_st (observe_live (length next_weights) 0) (\<lambda>_.
         lift_res (Inr next_weights))))))"

text \<open>The code both evaluators end with: select the leaf and check that it is opaque.\<close>

definition finish_evaluation ::
  "('v, 'b) backend \<Rightarrow> binary_tree \<Rightarrow> 'v list \<Rightarrow> ('b, 'v) engine" where
  "finish_evaluation be tree weights =
     bind_st (select_leaves be weights (bt_leaves tree)) (\<lambda>value.
     bind_st (lift_res (reject_if (be_kind be value \<noteq> ValueOpaque) FinalNotOpaque)) (\<lambda>_.
     bind_st (modify_st (\<lambda>c. c\<lparr>oc_final_live_states := int (length weights)\<rparr>)) (\<lambda>_.
     lift_res (Inr value))))"

definition run_levels ::
  "(nat \<Rightarrow> 'v list \<Rightarrow> ('b, 'v list) engine) \<Rightarrow> nat \<Rightarrow> 'v \<Rightarrow> ('b, 'v list) engine" where
  "run_levels level depth opaque_one =
     bind_st (observe_live 1 0) (\<lambda>_.
     fold_st (\<lambda>_ d weights. level d weights) 0 [0..<depth] [opaque_one])"

definition evaluate_obo ::
  "('v, 'b) backend option \<Rightarrow> binary_tree \<Rightarrow> 'v list \<Rightarrow> 'v \<Rightarrow> comparison_policy \<Rightarrow>
   ('b eval_error, 'v) res \<times> operation_counts" where
  "evaluate_obo backend tree features opaque_one policy =
     bind_st (lift_res (validate_inputs backend tree features opaque_one policy)) (\<lambda>_.
     bind_st (lift_res (deref backend)) (\<lambda>be.
     bind_st (run_levels (obo_level be tree features policy) (nat (bt_depth tree)) opaque_one)
       (finish_evaluation be tree))) zero_counts"

definition evaluate_full_level ::
  "('v, 'b) backend option \<Rightarrow> binary_tree \<Rightarrow> 'v list \<Rightarrow> 'v \<Rightarrow> comparison_policy \<Rightarrow>
   ('b eval_error, 'v) res \<times> operation_counts" where
  "evaluate_full_level backend tree features opaque_one policy =
     bind_st (lift_res (validate_inputs backend tree features opaque_one policy)) (\<lambda>_.
     bind_st (lift_res (deref backend)) (\<lambda>be.
     bind_st (run_levels (full_level be tree features policy) (nat (bt_depth tree)) opaque_one)
       (finish_evaluation be tree))) zero_counts"

end
