(* ===== verification/TreeEvalCounts.thy ===== *)
theory TreeEvalCounts
  imports TreeEval
begin

text \<open>
  The exact operation counts of the oblivious evaluators. The engine checks the kind of every
  operand and of every result, so a run that returns a value has issued a number of backend calls
  that depends on the depth of the tree only, whatever the backend computes.
\<close>

section \<open>What one engine call does\<close>

text \<open>
  \<^verbatim>\<open>charge k m p a s cc cp\<close> adds to the counts of constants, CT-CT and CT-public
  multiplications, additions, subtractions, CT-CT and CT-public comparisons.
\<close>

definition charge ::
  "int \<Rightarrow> int \<Rightarrow> int \<Rightarrow> int \<Rightarrow> int \<Rightarrow> int \<Rightarrow> int \<Rightarrow> operation_counts \<Rightarrow> operation_counts" where
  "charge k m p a s cc cp c = c\<lparr>
     oc_public_constants := oc_public_constants c + k,
     oc_ctct_multiplications := oc_ctct_multiplications c + m,
     oc_ctpublic_multiplications := oc_ctpublic_multiplications c + p,
     oc_additions := oc_additions c + a,
     oc_subtractions := oc_subtractions c + s,
     oc_comparisons := oc_comparisons c + (cc + cp),
     oc_ctct_comparisons := oc_ctct_comparisons c + cc,
     oc_ctpublic_comparisons := oc_ctpublic_comparisons c + cp\<rparr>"

lemma charge_charge [simp]:
  "charge k m p a s cc cp (charge k' m' p' a' s' cc' cp' c) =
   charge (k + k') (m + m') (p + p') (a + a') (s + s') (cc + cc') (cp + cp') c"
  by (simp add: charge_def)

lemma charge_zero [simp]: "charge 0 0 0 0 0 0 0 c = c"
  by (simp add: charge_def)

lemma charge_funpow:
  "(charge k m p a s cc cp ^^ n) c =
   charge (int n * k) (int n * m) (int n * p) (int n * a) (int n * s) (int n * cc) (int n * cp) c"
  by (induction n) (simp_all add: algebra_simps)

lemma runs_engine_kind [runs_iff]:
  "runs (engine_kind be v place) c k c' \<longleftrightarrow> provenance_ok (be_kind be v) \<and> k = be_kind be v \<and> c' = c"
  by (auto simp: engine_kind_def runs_iff Let_def provenance_ok_def)

lemma runs_require_result [runs_iff]:
  "runs (require_result be v want op) c x c' \<longleftrightarrow> be_kind be v = want \<and> x = v \<and> c' = c"
  by (auto simp: require_result_def runs_iff Let_def)

lemma runs_backend_call [runs_iff]:
  "runs (backend_call op r) c x c' \<longleftrightarrow> r = Inr x \<and> c' = c"
  by (auto simp: backend_call_def runs_iff map_err_ok)

lemma runs_engine_public:
  "runs (engine_public be s) c v c' \<longleftrightarrow>
     be_public_constant be s = Inr v \<and> be_kind be v = ValuePublic \<and> c' = charge 1 0 0 0 0 0 0 c"
  by (auto simp: engine_public_def runs_iff charge_def)

lemma runs_engine_add:
  "runs (engine_add be l r) c v c' \<longleftrightarrow>
     provenance_ok (be_kind be l) \<and> provenance_ok (be_kind be r) \<and> be_add be l r = Inr v \<and>
     be_kind be v = joined_kind (be_kind be l) (be_kind be r) \<and> c' = charge 0 0 0 1 0 0 0 c"
  by (auto simp: engine_add_def runs_iff charge_def)

lemma runs_engine_sub:
  "runs (engine_sub be l r) c v c' \<longleftrightarrow>
     provenance_ok (be_kind be l) \<and> provenance_ok (be_kind be r) \<and> be_sub be l r = Inr v \<and>
     be_kind be v = joined_kind (be_kind be l) (be_kind be r) \<and> c' = charge 0 0 0 0 1 0 0 c"
  by (auto simp: engine_sub_def runs_iff charge_def)

lemma runs_engine_mul:
  "runs (engine_mul be l r) c v c' \<longleftrightarrow>
     provenance_ok (be_kind be l) \<and> provenance_ok (be_kind be r) \<and> be_mul be l r = Inr v \<and>
     be_kind be v = joined_kind (be_kind be l) (be_kind be r) \<and>
     c' = count_mul (be_kind be l) (be_kind be r) c"
  by (auto simp: engine_mul_def runs_iff)

lemma runs_engine_compare_ge:
  "runs (engine_compare_ge be l r policy) c v c' \<longleftrightarrow>
     provenance_ok (be_kind be l) \<and> provenance_ok (be_kind be r) \<and>
     be_compare_ge be l r policy = Inr v \<and>
     be_kind be v = joined_kind (be_kind be l) (be_kind be r) \<and>
     c' = count_compare (be_kind be l) (be_kind be r) c"
  by (auto simp: engine_compare_ge_def runs_iff)

lemmas runs_engine =
  runs_engine_public runs_engine_add runs_engine_sub runs_engine_mul runs_engine_compare_ge

lemma joined_opaque [simp]:
  "joined_kind ValueOpaque k = ValueOpaque" "joined_kind k ValueOpaque = ValueOpaque"
  by (simp_all add: joined_kind_def)

lemma count_mul_charge [simp]:
  "count_mul ValueOpaque ValueOpaque = charge 0 1 0 0 0 0 0"
  "count_mul ValueOpaque ValuePublic = charge 0 0 1 0 0 0 0"
  by (rule ext, simp add: count_mul_def charge_def)+

lemma count_compare_charge [simp]:
  "count_compare ValueOpaque ValueOpaque = charge 0 0 0 0 0 1 0"
  "count_compare ValueOpaque ValuePublic = charge 0 0 0 0 0 0 1"
  by (rule ext, simp add: count_compare_def charge_def)+

lemma provenance_ok_kinds [simp]: "provenance_ok ValueOpaque" "provenance_ok ValuePublic"
  by (simp_all add: provenance_ok_def)

section \<open>What the parts of a level do\<close>

abbreviation all_opaque :: "('v, 'b) backend \<Rightarrow> 'v list \<Rightarrow> bool" where
  "all_opaque be vs \<equiv> list_all (\<lambda>v. be_kind be v = ValueOpaque) vs"

lemma fold_add_counts:
  assumes "runs (fold_st (\<lambda>_ x total. engine_add be total x) i vs acc) c v c'"
    and "be_kind be acc = ValueOpaque"
  shows "be_kind be v = ValueOpaque \<and> c' = charge 0 0 0 (int (length vs)) 0 0 0 c"
  using assms
proof (induction vs arbitrary: i acc c)
  case Nil
  then show ?case by (simp add: runs_iff)
next
  case (Cons x xs)
  from Cons.prems(1) obtain y where r: "runs (engine_add be acc x) c y (charge 0 0 0 1 0 0 0 c)"
    "runs (fold_st (\<lambda>_ x total. engine_add be total x) (Suc i) xs y) (charge 0 0 0 1 0 0 0 c) v c'"
    by (auto simp: runs_iff runs_engine)
  then have "be_kind be y = ValueOpaque" using Cons.prems(2) by (simp add: runs_engine)
  from Cons.IH [OF r(2) this] show ?case by (simp add: add.commute)
qed

lemma sum_values_counts:
  assumes "runs (sum_values be vs) c v c'" and "all_opaque be vs"
  shows "vs \<noteq> [] \<and> be_kind be v = ValueOpaque \<and> c' = charge 0 0 0 (int (length vs) - 1) 0 0 0 c"
  using assms fold_add_counts [of be 1 "tl vs" "hd vs" c v c']
  by (cases vs) (simp_all add: sum_values_def runs_iff)

lemma select_features_counts:
  assumes "runs (select_features be weights splits features) c v c'"
    and "all_opaque be weights" and "all_opaque be features"
  shows "be_kind be v = ValueOpaque \<and>
    c' = charge 0 (int (length weights)) 0 (int (length weights) - 1) 0 0 0 c"
proof -
  from assms(1) obtain terms d where
    m: "runs (map_st (\<lambda>i weight.
        bind_st (lift_res (at splits i)) (\<lambda>split.
        bind_st (lift_res (at_int features (bs_feature split))) (\<lambda>feature.
        engine_mul be weight feature))) 0 weights) c terms d"
    and s: "runs (sum_values be terms) d v c'"
    by (auto simp: select_features_def runs_iff)
  have opaque: "be_kind be f = ValueOpaque" if "at_int features z = Inr f" for z f
    using that assms(3) by (auto simp: at_int_ok list_all_iff)
  have step: "t' = charge 0 1 0 0 0 0 0 t \<and> be_kind be y = ValueOpaque"
    if "w \<in> set weights" and "runs (bind_st (lift_res (at splits i)) (\<lambda>split.
        bind_st (lift_res (at_int features (bs_feature split))) (\<lambda>feature.
        engine_mul be w feature))) t y t'" for i w t y t'
    using that assms(2) by (auto simp: runs_iff runs_engine list_all_iff dest: opaque)
  note st = map_st_runs_state [where g = "charge 0 1 0 0 0 0 0" and P = "\<lambda>v. be_kind be v = ValueOpaque",
      OF m step]
  have "length terms = length weights" by (rule map_st_runs_length [OF m])
  with st sum_values_counts [OF s] show ?thesis by (simp add: charge_funpow)
qed

lemma select_thresholds_counts:
  assumes "runs (select_thresholds be weights splits) c v c'" and "all_opaque be weights"
  shows "be_kind be v = ValueOpaque \<and>
    c' = charge (int (length weights)) 0 (int (length weights)) (int (length weights) - 1) 0 0 0 c"
proof -
  from assms(1) obtain terms d where
    m: "runs (map_st (\<lambda>i weight.
        bind_st (lift_res (at splits i)) (\<lambda>split.
        bind_st (lift_res (exact_public_scalar (bs_threshold split))) (\<lambda>scalar.
        bind_st (engine_public be scalar) (\<lambda>threshold.
        engine_mul be weight threshold)))) 0 weights) c terms d"
    and s: "runs (sum_values be terms) d v c'"
    by (auto simp: select_thresholds_def runs_iff)
  have step: "t' = charge 1 0 1 0 0 0 0 t \<and> be_kind be y = ValueOpaque"
    if "w \<in> set weights" and "runs (bind_st (lift_res (at splits i)) (\<lambda>split.
        bind_st (lift_res (exact_public_scalar (bs_threshold split))) (\<lambda>scalar.
        bind_st (engine_public be scalar) (\<lambda>threshold.
        engine_mul be w threshold)))) t y t'" for i w t y t'
    using that assms(2) by (auto simp: runs_iff runs_engine list_all_iff)
  note st = map_st_runs_state [where g = "charge 1 0 1 0 0 0 0" and P = "\<lambda>v. be_kind be v = ValueOpaque",
      OF m step]
  have "length terms = length weights" by (rule map_st_runs_length [OF m])
  with st sum_values_counts [OF s] show ?thesis by (simp add: charge_funpow)
qed

lemma select_leaves_counts:
  assumes "runs (select_leaves be weights leaves) c v c'" and "all_opaque be weights"
  shows "length weights = length leaves \<and> be_kind be v = ValueOpaque \<and>
    c' = charge (int (length leaves)) 0 (int (length leaves)) (int (length leaves) - 1) 0 0 0 c"
proof -
  from assms(1) obtain terms d where
    m: "runs (map_st (\<lambda>i leaf.
        bind_st (lift_res (exact_public_scalar leaf)) (\<lambda>scalar.
        bind_st (engine_public be scalar) (\<lambda>constant.
        bind_st (lift_res (at weights i)) (\<lambda>weight.
        engine_mul be weight constant)))) 0 leaves) c terms d"
    and s: "runs (sum_values be terms) d v c'" and l: "length weights = length leaves"
    by (auto simp: select_leaves_def runs_iff split: if_splits)
  have step: "t' = charge 1 0 1 0 0 0 0 t \<and> be_kind be y = ValueOpaque"
    if "x \<in> set leaves" and "runs (bind_st (lift_res (exact_public_scalar x)) (\<lambda>scalar.
        bind_st (engine_public be scalar) (\<lambda>constant.
        bind_st (lift_res (at weights i)) (\<lambda>weight.
        engine_mul be weight constant)))) t y t'" for i x t y t'
    using that assms(2) by (auto simp: runs_iff runs_engine at_ok list_all_iff)
  note st = map_st_runs_state [where g = "charge 1 0 1 0 0 0 0" and P = "\<lambda>v. be_kind be v = ValueOpaque",
      OF m step]
  have "length terms = length leaves" by (rule map_st_runs_length [OF m])
  with st sum_values_counts [OF s] l show ?thesis by (simp add: charge_funpow)
qed

lemma length_concat_pairs: "list_all (\<lambda>p. length p = 2) ps \<Longrightarrow> length (concat ps) = 2 * length ps"
  by (induction ps) simp_all

lemma update_path_weights_counts:
  assumes "runs (update_path_weights be weights branches) c ws c'"
    and "all_opaque be weights" and "all_opaque be branches"
  shows "length ws = 2 * length weights \<and> all_opaque be ws \<and>
    c' = charge 0 (int (length weights)) 0 0 (int (length weights)) 0 0 c"
proof -
  from assms(1) obtain pairs where
    m: "runs (map_st (\<lambda>i weight.
        bind_st (lift_res (at branches i)) (\<lambda>branch.
        bind_st (engine_mul be weight branch) (\<lambda>right.
        bind_st (engine_sub be weight right) (\<lambda>left.
        lift_res (Inr [left, right]))))) 0 weights) c pairs c'"
    and ws: "ws = concat pairs"
    by (auto simp: update_path_weights_def runs_iff split: if_splits)
  have opaque: "be_kind be f = ValueOpaque" if "at branches i = Inr f" for i f
    using that assms(3) by (auto simp: at_ok list_all_iff)
  define two where "two y \<longleftrightarrow> length y = 2 \<and> all_opaque be y" for y
  have step: "t' = charge 0 1 0 0 1 0 0 t \<and> two y"
    if "w \<in> set weights" and "runs (bind_st (lift_res (at branches i)) (\<lambda>branch.
        bind_st (engine_mul be w branch) (\<lambda>right.
        bind_st (engine_sub be w right) (\<lambda>left.
        lift_res (Inr [left, right]))))) t y t'" for i w t y t'
    using that assms(2) by (auto simp: two_def runs_iff runs_engine list_all_iff dest: opaque)
  have st: "c' = (charge 0 1 0 0 1 0 0 ^^ length weights) c" "list_all two pairs"
    by (rule map_st_runs_state [where g = "charge 0 1 0 0 1 0 0" and P = two, OF m], erule (1) step)+
  have "list_all (\<lambda>p. length p = 2) pairs"
  proof (rule list.pred_mono_strong [OF st(2)])
    fix z assume "two z"
    then show "length z = 2" unfolding two_def by (rule conjunct1)
  qed
  moreover have "all_opaque be ws"
    unfolding ws list_all_iff set_concat
    using st(2) [unfolded list_all_iff two_def] by blast
  moreover from calculation(1) have "length ws = 2 * length weights"
    using map_st_runs_length [OF m] by (simp add: ws length_concat_pairs)
  ultimately show ?thesis by (simp only: st(1) charge_funpow mult_1_right mult_zero_right simp_thms)
qed

section \<open>The counts of a whole run\<close>

text \<open>The counts after d levels of \<^verbatim>\<open>EvaluateOBO\<close> and of \<^verbatim>\<open>EvaluateFullLevel\<close>.\<close>

definition obo_level_counts :: "nat \<Rightarrow> operation_counts" where
  "obo_level_counts d =
     (let w = 2 ^ d in zero_counts\<lparr>
        oc_public_constants := w - 1,
        oc_ctct_multiplications := 2 * (w - 1),
        oc_ctpublic_multiplications := w - 1,
        oc_additions := 2 * (w - 1) - 2 * int d,
        oc_subtractions := w - 1,
        oc_comparisons := int d,
        oc_ctct_comparisons := int d,
        oc_peak_live_states := w,
        oc_peak_live_path_states := w,
        oc_peak_live_comparison_states := (if d = 0 then 0 else 1)\<rparr>)"

definition full_level_counts :: "nat \<Rightarrow> operation_counts" where
  "full_level_counts d =
     (let w = 2 ^ d in zero_counts\<lparr>
        oc_public_constants := w - 1,
        oc_ctct_multiplications := w - 1,
        oc_subtractions := w - 1,
        oc_comparisons := w - 1,
        oc_ctpublic_comparisons := w - 1,
        oc_peak_live_states := w,
        oc_peak_live_path_states := w,
        oc_peak_live_comparison_states := (if d = 0 then 0 else 2 ^ (d - 1))\<rparr>)"

text \<open>The leaf selection adds L constants, L CT-public multiplications and L - 1 additions.\<close>

definition with_leaf_counts :: "nat \<Rightarrow> operation_counts \<Rightarrow> operation_counts" where
  "with_leaf_counts d c =
     (charge (2 ^ d) 0 (2 ^ d) (2 ^ d - 1) 0 0 0 c)\<lparr>oc_final_live_states := 2 ^ d\<rparr>"

definition obo_counts :: "nat \<Rightarrow> operation_counts" where
  "obo_counts d = with_leaf_counts d (obo_level_counts d)"

definition full_counts :: "nat \<Rightarrow> operation_counts" where
  "full_counts d = with_leaf_counts d (full_level_counts d)"

lemma slice_ok [ok_iff]:
  "slice xs a b = Inr ys \<longleftrightarrow> a \<le> b \<and> b \<le> length xs \<and> ys = take (b - a) (drop a xs)"
  by (auto simp: slice_def)

lemma runs_observe [runs_iff]:
  "runs (observe_live p q) c u c' \<longleftrightarrow> c' = observed (int p) (int q) c"
  by (simp add: observe_live_def runs_iff)

lemma runs_observeI: "runs (observe_live p q) c () (observed (int p) (int q) c)"
  by (simp add: runs_observe)

lemma obo_level_step:
  assumes "runs (obo_level be tree features policy d weights) (obo_level_counts d) ws c'"
    and "all_opaque be weights" and "length weights = 2 ^ d" and "all_opaque be features"
  shows "length ws = 2 ^ Suc d \<and> all_opaque be ws \<and> c' = obo_level_counts (Suc d)"
proof -
  define w :: int where "w = 2 ^ d"
  have lw: "int (length weights) = w" using assms(3) by (simp add: w_def)
  have w1: "1 \<le> w" by (simp add: w_def)
  from assms(1) obtain splits f c1 t c2 b c3 c4 where
    f: "runs (select_features be weights splits features) (obo_level_counts d) f c1"
    and t: "runs (select_thresholds be weights splits) c1 t c2"
    and b: "runs (engine_compare_ge be f t policy) c2 b c3"
    and u: "runs (update_path_weights be weights (replicate (2 ^ d) b)) (observed w 1 c3) ws c4"
    and c': "c' = observed (int (length ws)) 0 c4"
    by (auto simp: obo_level_def Let_def runs_iff lw)
  note f' = select_features_counts [OF f assms(2,4)] and t' = select_thresholds_counts [OF t assms(2)]
  from b f' t' have b': "be_kind be b = ValueOpaque" "c3 = charge 0 0 0 0 0 1 0 c2"
    by (simp_all add: runs_engine)
  have "all_opaque be (replicate (2 ^ d) b)" using b'(1) by (simp add: list_all_iff)
  note u' = update_path_weights_counts [OF u assms(2) this]
  have len: "length ws = 2 ^ Suc d" using u' assms(3) by simp
  then have li: "int (length ws) = 2 * w" by (simp add: w_def)
  have "c' = obo_level_counts (Suc d)"
    using c' u' b'(2) f' t' w1
    by (simp add: lw li obo_level_counts_def charge_def observed_def zero_counts_def Let_def
        flip: w_def)
  with len u' show ?thesis by simp
qed

lemma full_level_step:
  assumes "runs (full_level be tree features policy d weights) (full_level_counts d) ws c'"
    and "all_opaque be weights" and "length weights = 2 ^ d" and "all_opaque be features"
  shows "length ws = 2 ^ Suc d \<and> all_opaque be ws \<and> c' = full_level_counts (Suc d)"
proof -
  define w :: int where "w = 2 ^ d"
  have lw: "int (length weights) = w" using assms(3) by (simp add: w_def)
  have w1: "1 \<le> w" by (simp add: w_def)
  from assms(1) obtain branches c1 c2 where
    m: "runs (map_st (\<lambda>_ i.
           bind_st (lift_res (at (bt_splits tree) (2 ^ d - 1 + i))) (\<lambda>split.
           bind_st (lift_res (exact_public_scalar (bs_threshold split))) (\<lambda>scalar.
           bind_st (engine_public be scalar) (\<lambda>threshold.
           bind_st (lift_res (at_int features (bs_feature split))) (\<lambda>feature.
           engine_compare_ge be feature threshold policy))))) 0 [0..<2 ^ d]) (full_level_counts d) branches c1"
    and u: "runs (update_path_weights be weights branches) (observed w (int (length branches)) c1) ws c2"
    and c': "c' = observed (int (length ws)) 0 c2"
    by (auto simp: full_level_def Let_def runs_iff lw)
  have opaque: "be_kind be f = ValueOpaque" if "at_int features z = Inr f" for z f
    using that assms(4) by (auto simp: at_int_ok list_all_iff)
  have step: "t' = charge 1 0 0 0 0 0 1 t \<and> be_kind be y = ValueOpaque"
    if "i \<in> set [0..<2 ^ d]" and "runs (
           bind_st (lift_res (at (bt_splits tree) (2 ^ d - 1 + i))) (\<lambda>split.
           bind_st (lift_res (exact_public_scalar (bs_threshold split))) (\<lambda>scalar.
           bind_st (engine_public be scalar) (\<lambda>threshold.
           bind_st (lift_res (at_int features (bs_feature split))) (\<lambda>feature.
           engine_compare_ge be feature threshold policy))))) t y t'" for i t y t'
    using that(2) by (auto simp: runs_iff runs_engine dest: opaque)
  note st = map_st_runs_state [where g = "charge 1 0 0 0 0 0 1" and P = "\<lambda>v. be_kind be v = ValueOpaque",
      OF m step]
  have lb: "int (length branches) = w" using map_st_runs_length [OF m] by (simp add: w_def)
  note u' = update_path_weights_counts [OF u assms(2) st(2)]
  have len: "length ws = 2 ^ Suc d" using u' assms(3) by simp
  then have li: "int (length ws) = 2 * w" by (simp add: w_def)
  have "c1 = charge w 0 0 0 0 0 w (full_level_counts d)"
    using st(1) by (simp add: charge_funpow w_def)
  moreover have "c2 = charge 0 w 0 0 w 0 0 (observed w w c1)" using u' by (simp add: lw lb)
  moreover have "(if d = 0 then 0 else 2 ^ (d - 1)) \<le> w"
    by (cases d) (simp_all add: w_def)
  ultimately have "c' = full_level_counts (Suc d)"
    using c' w1
    by (simp add: li full_level_counts_def charge_def observed_def zero_counts_def Let_def
        max_def flip: w_def)
  with len u' show ?thesis by simp
qed

lemma fold_levels_counts:
  assumes "runs (fold_st (\<lambda>_ d weights. level d weights) i [d..<D] weights) (C d) ws c'"
    and "\<And>d weights ws c'. runs (level d weights) (C d) ws c' \<Longrightarrow> all_opaque be weights \<Longrightarrow>
      length weights = 2 ^ d \<Longrightarrow> length ws = 2 ^ Suc d \<and> all_opaque be ws \<and> c' = C (Suc d)"
    and "d \<le> D" and "all_opaque be weights" and "length weights = 2 ^ d"
  shows "length ws = 2 ^ D \<and> all_opaque be ws \<and> c' = C D"
  using assms(1,3-5)
proof (induction "D - d" arbitrary: i d weights)
  case 0
  then show ?case by (simp add: runs_iff)
next
  case (Suc n)
  then have lt: "d < D" and n: "n = D - Suc d" by simp_all
  from Suc.prems(1) obtain ws1 c1 where r: "runs (level d weights) (C d) ws1 c1"
    "runs (fold_st (\<lambda>_ d weights. level d weights) (Suc i) [Suc d..<D] ws1) c1 ws c'"
    by (auto simp: runs_iff upt_conv_Cons [OF lt])
  note st = assms(2) [OF r(1) Suc.prems(3,4)]
  then show ?case using Suc.hyps(1) [OF n, of "Suc i" ws1] r(2) lt by simp
qed

lemma run_levels_counts:
  assumes "runs (run_levels level D one) zero_counts ws c'"
    and "observed 1 0 zero_counts = C 0"
    and "\<And>d weights ws c'. runs (level d weights) (C d) ws c' \<Longrightarrow> all_opaque be weights \<Longrightarrow>
      length weights = 2 ^ d \<Longrightarrow> length ws = 2 ^ Suc d \<and> all_opaque be ws \<and> c' = C (Suc d)"
    and "be_kind be one = ValueOpaque"
  shows "length ws = 2 ^ D \<and> all_opaque be ws \<and> c' = C D"
proof -
  have "runs (fold_st (\<lambda>_ d weights. level d weights) 0 [0..<D] [one]) (C 0) ws c'"
    using assms(1,2) by (simp add: run_levels_def runs_iff)
  from fold_levels_counts [OF this assms(3)] assms(4) show ?thesis by simp
qed

lemma finish_counts:
  assumes "runs (finish_evaluation be tree weights) c v c'"
    and "all_opaque be weights" and "length weights = 2 ^ D"
  shows "be_kind be v = ValueOpaque \<and> c' = with_leaf_counts D c"
proof -
  from assms(1) obtain d where
    l: "runs (select_leaves be weights (bt_leaves tree)) c v d"
    and c': "c' = d\<lparr>oc_final_live_states := 2 ^ D\<rparr>"
    by (auto simp: finish_evaluation_def runs_iff reject_if_ok assms(3))
  note st = select_leaves_counts [OF l assms(2)]
  then have "int (length (bt_leaves tree)) = 2 ^ D" using assms(3) by simp
  with st c' show ?thesis by (simp add: with_leaf_counts_def)
qed

lemma validate_inputs_kinds:
  assumes "validate_inputs (Some be) tree features one policy = Inr u"
  shows "be_kind be one = ValueOpaque" and "all_opaque be features"
  using assms by (auto simp: validate_inputs_def ok_iff list_all_iff_nth)

lemma evaluate_obo_runs:
  "evaluate_obo (Some be) tree features one policy = (Inr v, c) \<longleftrightarrow>
     validate_inputs (Some be) tree features one policy = Inr () \<and>
     (\<exists>ws d. runs (run_levels (obo_level be tree features policy) (nat (bt_depth tree)) one) zero_counts ws d \<and>
        runs (finish_evaluation be tree ws) d v c)"
  unfolding evaluate_obo_def runs_def [symmetric] by (auto simp: runs_iff)

lemma evaluate_full_level_runs:
  "evaluate_full_level (Some be) tree features one policy = (Inr v, c) \<longleftrightarrow>
     validate_inputs (Some be) tree features one policy = Inr () \<and>
     (\<exists>ws d. runs (run_levels (full_level be tree features policy) (nat (bt_depth tree)) one) zero_counts ws d \<and>
        runs (finish_evaluation be tree ws) d v c)"
  unfolding evaluate_full_level_def runs_def [symmetric] by (auto simp: runs_iff)

lemma evaluate_nil: "evaluate_obo None tree features one policy = (err ErrInvalidBackend, zero_counts)"
  "evaluate_full_level None tree features one policy = (err ErrInvalidBackend, zero_counts)"
  by (simp_all add: evaluate_obo_def evaluate_full_level_def validate_inputs_def bind_st_def
      lift_res_def err_def)

lemma evaluate_obo_counts:
  assumes "evaluate_obo (Some be) tree features one policy = (Inr v, c)"
  shows "be_kind be v = ValueOpaque \<and> c = obo_counts (nat (bt_depth tree))"
proof -
  from assms obtain ws d where v: "validate_inputs (Some be) tree features one policy = Inr ()"
    and r: "runs (run_levels (obo_level be tree features policy) (nat (bt_depth tree)) one) zero_counts ws d"
    and f: "runs (finish_evaluation be tree ws) d v c"
    by (auto simp: evaluate_obo_runs)
  note k = validate_inputs_kinds [OF v]
  have "observed 1 0 zero_counts = obo_level_counts 0"
    by (simp add: observed_def zero_counts_def obo_level_counts_def)
  note st = run_levels_counts [where be = be and C = obo_level_counts, OF r this]
  have "length ws = 2 ^ nat (bt_depth tree) \<and> all_opaque be ws \<and> d = obo_level_counts (nat (bt_depth tree))"
    by (rule st, erule (2) obo_level_step [OF _ _ _ k(2)], rule k(1))
  with finish_counts [OF f] show ?thesis by (simp add: obo_counts_def)
qed

lemma evaluate_full_level_counts:
  assumes "evaluate_full_level (Some be) tree features one policy = (Inr v, c)"
  shows "be_kind be v = ValueOpaque \<and> c = full_counts (nat (bt_depth tree))"
proof -
  from assms obtain ws d where v: "validate_inputs (Some be) tree features one policy = Inr ()"
    and r: "runs (run_levels (full_level be tree features policy) (nat (bt_depth tree)) one) zero_counts ws d"
    and f: "runs (finish_evaluation be tree ws) d v c"
    by (auto simp: evaluate_full_level_runs)
  note k = validate_inputs_kinds [OF v]
  have "observed 1 0 zero_counts = full_level_counts 0"
    by (simp add: observed_def zero_counts_def full_level_counts_def)
  note st = run_levels_counts [where be = be and C = full_level_counts, OF r this]
  have "length ws = 2 ^ nat (bt_depth tree) \<and> all_opaque be ws \<and> d = full_level_counts (nat (bt_depth tree))"
    by (rule st, erule (2) full_level_step [OF _ _ _ k(2)], rule k(1))
  with finish_counts [OF f] show ?thesis by (simp add: full_counts_def)
qed

end
