(* ===== verification/TreeEvalSafety.thy ===== *)
theory TreeEvalSafety
  imports TreeEvalCounts
begin

text \<open>
  No run of the oblivious evaluators panics: the checks of the tree and of the inputs keep every
  index in range, so an evaluation over a backend that does not panic returns a value or an error.
\<close>

section \<open>Safe engines\<close>

definition backend_safe :: "('v, 'b) backend \<Rightarrow> bool" where
  "backend_safe be \<longleftrightarrow>
     (\<forall>s. safe (be_public_constant be s)) \<and> (\<forall>l r. safe (be_add be l r)) \<and>
     (\<forall>l r. safe (be_sub be l r)) \<and> (\<forall>l r. safe (be_mul be l r)) \<and>
     (\<forall>l r p. safe (be_compare_ge be l r p))"

lemma safe_engine [safe_intro]:
  assumes "backend_safe be"
  shows "safe_st (engine_kind be v place)" "safe_st (require_result be v want op)"
    "safe_st (engine_public be s)" "safe_st (engine_add be l r)" "safe_st (engine_sub be l r)"
    "safe_st (engine_mul be l r)" "safe_st (engine_compare_ge be l r p)"
proof -
  show k: "safe_st (engine_kind be v place)" "safe_st (require_result be v want op)" for v place want op
    by (simp_all add: engine_kind_def require_result_def Let_def safe_lift)
  have c: "safe r \<Longrightarrow> safe_st (backend_call op r)" for op and r :: "('b, 'x) res"
    by (simp add: backend_call_def safe_lift)
  note b = assms [unfolded backend_safe_def]
  show "safe_st (engine_public be s)" "safe_st (engine_add be l r)" "safe_st (engine_sub be l r)"
    "safe_st (engine_mul be l r)" "safe_st (engine_compare_ge be l r p)"
    unfolding engine_public_def engine_add_def engine_sub_def engine_mul_def engine_compare_ge_def
    by (intro safe_bind k c safe_modify; simp add: b)+
qed

lemma safe_map_st_nth:
  "(\<And>j. j < length xs \<Longrightarrow> safe_st (f (i + j) (xs ! j))) \<Longrightarrow> safe_st (map_st f i xs)"
proof (induction xs arbitrary: i)
  case Nil
  show ?case by (simp add: safe_lift)
next
  case (Cons x xs)
  have "safe_st (f (Suc i + j) (xs ! j))" if "j < length xs" for j
    using Cons.prems [of "Suc j"] that by simp
  then have "safe_st (map_st f (Suc i) xs)" by (rule Cons.IH)
  moreover have "safe_st (f i x)" using Cons.prems [of 0] by simp
  ultimately show ?case by (simp add: safe_bind safe_lift)
qed

lemma safe_signed_scalar: "safe (signed_scalar z w)" "safe (unsigned_scalar u w)" "safe (real_scalar r)"
  by (simp_all add: signed_scalar_def unsigned_scalar_def real_scalar_def scalar_validate_def
      Let_def safe_and_then)

lemma safe_exact_public_scalar [safe_intro]: "safe (exact_public_scalar x)"
  by (simp add: exact_public_scalar_def public_scalar_from_ordered_def safe_signed_scalar
      split: kind_class.split)

lemma safe_scalar_validate [safe_intro]: "safe (scalar_validate s)"
  by (simp add: scalar_validate_def)

lemma safe_range_validate [safe_intro]: "safe (range_validate r k w)"
  unfolding range_validate_def
  by (intro safe_intro) (auto intro!: safe_intro simp del: check_each.simps)

lemma safe_policy_validate [safe_intro]: "safe (policy_validate p)"
  by (auto simp: policy_validate_def Let_def intro!: safe_intro)

lemma safe_validate_operand [safe_intro]: "safe (validate_operand p v l)"
  by (auto simp: validate_operand_def Let_def intro!: safe_intro)

lemma safe_validate_inputs: "safe (validate_inputs backend tree features one policy)"
  by (cases backend) (auto simp: validate_inputs_def intro!: safe_intro)

definition tree_in_range :: "binary_tree \<Rightarrow> 'v list \<Rightarrow> bool" where
  "tree_in_range tree features \<longleftrightarrow> binary_wf tree \<and>
     list_all (\<lambda>s. 0 \<le> bs_feature s \<and> bs_feature s < int (length features)) (bt_splits tree)"

lemma validate_inputs_range:
  "validate_inputs (Some be) tree features one policy = Inr u \<Longrightarrow> tree_in_range tree features"
  by (auto simp: validate_inputs_def tree_in_range_def ok_iff binary_wf_def split_ok_def list_all_iff_nth
      not_le)

lemma safe_sum_values:
  assumes "backend_safe be" shows "safe_st (sum_values be vs)"
  using assms by (auto simp: sum_values_def split: list.split intro!: safe_intro)

lemma safe_select_features:
  assumes "backend_safe be" and "length splits = length weights"
    and "list_all (\<lambda>s. 0 \<le> bs_feature s \<and> bs_feature s < int (length features)) splits"
  shows "safe_st (select_features be weights splits features)"
  unfolding select_features_def
  by (intro safe_bind safe_map_st_nth safe_sum_values assms safe_lift safe_engine)
    (use assms(2,3) in \<open>auto simp: runs_iff at_ok list_all_iff_nth\<close>)

lemma safe_select_thresholds:
  assumes "backend_safe be" and "length splits = length weights"
  shows "safe_st (select_thresholds be weights splits)"
  unfolding select_thresholds_def
  by (intro safe_bind safe_map_st_nth safe_sum_values assms safe_lift safe_engine safe_exact_public_scalar)
    (use assms(2) in simp)

lemma safe_update_path_weights:
  assumes "backend_safe be"
  shows "safe_st (update_path_weights be weights branches)"
proof (cases "length weights = length branches")
  case True
  then show ?thesis unfolding update_path_weights_def
    by (simp, intro safe_bind safe_map_st_nth assms safe_lift safe_engine) simp_all
next
  case False
  then show ?thesis by (simp add: update_path_weights_def safe_lift)
qed

lemma safe_select_leaves:
  assumes "backend_safe be"
  shows "safe_st (select_leaves be weights leaves)"
proof (cases "length weights = length leaves")
  case True
  then show ?thesis unfolding select_leaves_def
    by (simp, intro safe_bind safe_map_st_nth safe_sum_values assms safe_lift safe_engine
        safe_exact_public_scalar) simp_all
next
  case False
  then show ?thesis by (simp add: select_leaves_def safe_lift)
qed

lemma update_path_weights_length:
  assumes "runs (update_path_weights be weights branches) c ws c'"
  shows "length ws = 2 * length weights"
proof -
  from assms obtain pairs where
    m: "runs (map_st (\<lambda>i weight.
        bind_st (lift_res (at branches i)) (\<lambda>branch.
        bind_st (engine_mul be weight branch) (\<lambda>right.
        bind_st (engine_sub be weight right) (\<lambda>left.
        lift_res (Inr [left, right]))))) 0 weights) c pairs c'"
    and ws: "ws = concat pairs"
    by (auto simp: update_path_weights_def runs_iff split: if_splits)
  have "list_all (\<lambda>p. length p = 2) pairs"
    by (rule map_st_runs_all [OF m]) (auto simp: runs_iff)
  then show ?thesis using map_st_runs_length [OF m] by (simp add: ws length_concat_pairs)
qed

lemma obo_level_length:
  "runs (obo_level be tree features policy d weights) c ws c' \<Longrightarrow> length ws = 2 * length weights"
  by (auto simp: obo_level_def Let_def runs_iff dest: update_path_weights_length)

lemma full_level_length:
  "runs (full_level be tree features policy d weights) c ws c' \<Longrightarrow> length ws = 2 * length weights"
  by (auto simp: full_level_def Let_def runs_iff dest: update_path_weights_length)

lemma level_bound: "d < D \<Longrightarrow> 2 ^ d - 1 + 2 ^ d \<le> (2 ^ D - 1 :: nat)"
proof -
  assume "d < D"
  then have "(2::nat) ^ Suc d \<le> 2 ^ D" by (intro power_increasing) simp_all
  then show ?thesis by simp
qed

lemma safe_obo_level:
  assumes "backend_safe be" and "tree_in_range tree features"
    and "d < nat (bt_depth tree)" and "length weights = 2 ^ d"
  shows "safe_st (obo_level be tree features policy d weights)"
proof -
  have len: "length (bt_splits tree) = 2 ^ nat (bt_depth tree) - 1"
    and all: "list_all (\<lambda>s. 0 \<le> bs_feature s \<and> bs_feature s < int (length features)) (bt_splits tree)"
    using assms(2) by (simp_all add: tree_in_range_def binary_wf_def)
  define base :: nat where "base = 2 ^ d - 1"
  define part where "part = take (2 ^ d) (drop base (bt_splits tree))"
  have bound: "base + 2 ^ d \<le> length (bt_splits tree)"
    using level_bound [OF assms(3)] by (simp add: len base_def)
  then have sl: "slice (bt_splits tree) base (base + 2 ^ d) = Inr part"
    by (simp add: slice_def part_def)
  have sub: "length part = length weights"
    "list_all (\<lambda>s. 0 \<le> bs_feature s \<and> bs_feature s < int (length features)) part"
    using bound assms(4) all by (auto simp: part_def list_all_iff dest!: in_set_takeD in_set_dropD)
  show ?thesis unfolding obo_level_def Let_def base_def [symmetric] sl
    by (intro safe_bind safe_lift safe_engine assms(1) safe_update_path_weights)
      (auto simp: runs_iff observe_live_def safe_modify
        intro!: safe_select_features [OF assms(1) sub] safe_select_thresholds [OF assms(1) sub(1)])
qed

lemma safe_full_level:
  assumes "backend_safe be" and "tree_in_range tree features"
    and "d < nat (bt_depth tree)"
  shows "safe_st (full_level be tree features policy d weights)"
proof -
  have len: "length (bt_splits tree) = 2 ^ nat (bt_depth tree) - 1"
    and all: "list_all (\<lambda>s. 0 \<le> bs_feature s \<and> bs_feature s < int (length features)) (bt_splits tree)"
    using assms(2) by (simp_all add: tree_in_range_def binary_wf_def)
  define base :: nat where "base = 2 ^ d - 1"
  have idx: "base + i < length (bt_splits tree)" if "i < 2 ^ d" for i
    using level_bound [OF assms(3)] that by (simp add: len base_def)
  have ix: "safe (at_int features (bs_feature (bt_splits tree ! (base + i))))" if "i < 2 ^ d" for i
    using idx [OF that] all by (simp add: list_all_iff_nth)
  show ?thesis unfolding full_level_def Let_def base_def [symmetric]
    by (intro safe_bind safe_map_st safe_lift safe_engine assms(1) safe_update_path_weights
        safe_exact_public_scalar)
      (auto simp: runs_iff observe_live_def safe_modify idx ix)
qed

lemma safe_fold_levels:
  assumes "\<And>d weights. d < D \<Longrightarrow> length weights = 2 ^ d \<Longrightarrow> safe_st (level d weights)"
    and "\<And>d weights c ws c'. runs (level d weights) c ws c' \<Longrightarrow> length ws = 2 * length weights"
    and "length weights = 2 ^ d"
  shows "safe_st (fold_st (\<lambda>_ d weights. level d weights) i [d..<D] weights)"
  using assms(3)
proof (induction "D - d" arbitrary: i d weights)
  case 0
  then show ?case by (simp add: safe_lift)
next
  case (Suc n)
  then have lt: "d < D" and n: "n = D - Suc d" by simp_all
  show ?case
    unfolding upt_conv_Cons [OF lt] fold_st.simps
  proof (rule safe_bind)
    show "safe_st (level d weights)" by (rule assms(1) [OF lt Suc.prems])
    fix ws c c' assume "runs (level d weights) c ws c'"
    then have "length ws = 2 ^ Suc d" using assms(2) Suc.prems by simp
    then show "safe_st (fold_st (\<lambda>_ d weights. level d weights) (Suc i) [Suc d..<D] ws)"
      by (rule Suc.hyps(1) [OF n])
  qed
qed

lemma safe_run_levels:
  assumes "\<And>d weights. d < D \<Longrightarrow> length weights = 2 ^ d \<Longrightarrow> safe_st (level d weights)"
    and "\<And>d weights c ws c'. runs (level d weights) c ws c' \<Longrightarrow> length ws = 2 * length weights"
  shows "safe_st (run_levels level D one)"
  unfolding run_levels_def
  by (intro safe_bind safe_fold_levels assms) (simp_all add: observe_live_def safe_modify)

lemma safe_finish:
  "backend_safe be \<Longrightarrow> safe_st (finish_evaluation be tree weights)"
  unfolding finish_evaluation_def
  by (intro safe_bind safe_select_leaves safe_lift safe_modify) simp_all

lemma safe_st_fst: "safe_st m \<Longrightarrow> safe (fst (m s))"
  by (simp add: safe_st_def)

lemma validated_safe:
  assumes "\<And>be. backend = Some be \<Longrightarrow>
      validate_inputs (Some be) tree features one policy = Inr () \<Longrightarrow> safe_st (f be)"
  shows "safe (fst (bind_st (lift_res (validate_inputs backend tree features one policy)) (\<lambda>_.
      bind_st (lift_res (deref backend)) f) s))"
proof (cases "validate_inputs backend tree features one policy")
  case (Inl e)
  then show ?thesis using safe_validate_inputs [of backend tree features one policy]
    by (simp add: bind_st_def lift_res_def safe_def)
next
  case (Inr u)
  then obtain be where be: "backend = Some be" by (cases backend) (auto simp: validate_inputs_def)
  show ?thesis using assms [OF be] Inr unfolding be
    by (intro safe_st_fst safe_bind safe_lift) (simp_all add: runs_iff)
qed

text \<open>C32.
  No evaluator panics: whatever the tree, the features, the initial weight and the policy, as long
  as the backend's own methods return (a value or an error), \<^verbatim>\<open>EvaluateOBO\<close> and
  \<^verbatim>\<open>EvaluateFullLevel\<close> return too, also for a nil backend. Every index into the splits, the
  features, the branches and the leaves is in range.
\<close>

theorem evaluators_never_panic:
  assumes "\<forall>be. backend = Some be \<longrightarrow> backend_safe be"
  shows "safe (fst (evaluate_obo backend tree features one policy)) \<and>
    safe (fst (evaluate_full_level backend tree features one policy))"
  unfolding evaluate_obo_def evaluate_full_level_def
  by (intro conjI validated_safe safe_bind safe_run_levels safe_finish safe_obo_level safe_full_level)
    (use assms in \<open>auto intro: validate_inputs_range dest: obo_level_length full_level_length\<close>)

end
