(* ===== verification/TreeEvalCorrect.thy ===== *)
theory TreeEvalCorrect
  imports TreeEvalSafety
begin

text \<open>
  The oblivious evaluators compute the decision tree. The locale states what they rely on in a
  backend: selector values that multiply any value by 0 or 1, sums of which at most one term is
  nonzero, and comparisons of admitted operands. Under that contract both evaluators return, and
  their value stands for the leaf that the reference routing of the tree reaches.
\<close>

section \<open>The path the routing takes\<close>

fun heap_walk :: "binary_split list \<Rightarrow> scalar list \<Rightarrow> nat \<Rightarrow> nat" where
  "heap_walk splits xs 0 = 0"
| "heap_walk splits xs (Suc d) =
     (let q = heap_walk splits xs d; s = splits ! (2 ^ d - 1 + q)
      in 2 * q + branch_of s (xs ! nat (bs_feature s)))"

lemma heap_walk_less: "heap_walk splits xs d < 2 ^ d"
proof (induction d)
  case 0
  then show ?case by simp
next
  case (Suc d)
  then show ?case
    using child_prefix_bound [OF Suc branch_of_le] by (simp add: Let_def del: power_Suc)
qed

lemma binary_route_loop_walk:
  assumes "length splits = 2 ^ D - 1"
    and "list_all (\<lambda>s. 0 \<le> bs_feature s \<and> bs_feature s < int (length xs)) splits"
    and "d + k = D"
  shows "binary_route_loop splits xs k (2 ^ d - 1 + heap_walk splits xs d) (heap_walk splits xs d) =
    Inr (heap_walk splits xs D)"
  using assms(3)
proof (induction k arbitrary: d)
  case 0
  then show ?case by simp
next
  case (Suc k)
  define q where "q = heap_walk splits xs d"
  define node where "node = 2 ^ d - 1 + q"
  define s where "s = splits ! node"
  define b where "b = branch_of s (xs ! nat (bs_feature s))"
  have node: "node < length splits"
    using heap_node_bound [of q d D] Suc.prems heap_walk_less [of splits xs d]
    by (simp add: node_def q_def assms(1))
  then have s: "0 \<le> bs_feature s" "bs_feature s < int (length xs)"
    using assms(2) by (auto simp: s_def list_all_iff_nth)
  have w: "heap_walk splits xs (Suc d) = 2 * q + b"
    by (simp add: Let_def b_def s_def node_def q_def)
  have child: "2 * node + 1 + b = 2 ^ Suc d - 1 + (2 * q + b)"
    using heap_child [OF node_def branch_of_le] by (simp add: b_def)
  have "binary_route_loop splits xs (Suc k) node q =
      binary_route_loop splits xs k (2 * node + 1 + b) (2 * q + b)"
    using s node by (simp add: Let_def b_def flip: s_def)
  also have "\<dots> = Inr (heap_walk splits xs D)"
    using Suc.IH [of "Suc d"] Suc.prems unfolding child w by simp
  finally show ?case by (simp only: node_def q_def)
qed

lemma binary_evaluate_walk:
  assumes "binary_wf t" and "list_all finite_scalar xs"
    and "list_all (\<lambda>s. 0 \<le> bs_feature s \<and> bs_feature s < int (length xs)) (bt_splits t)"
  shows "binary_evaluate t xs = Inr (bt_leaves t ! heap_walk (bt_splits t) xs (nat (bt_depth t)))"
proof -
  define D where "D = nat (bt_depth t)"
  have v: "binary_validate t = Inr ()" "validate_finite_features xs = Inr ()"
    using assms(1,2) by (simp_all add: ok_iff)
  have "length (bt_splits t) = 2 ^ D - 1" using assms(1) by (simp add: binary_wf_def D_def)
  from binary_route_loop_walk [OF this assms(3), of 0 D]
  have "binary_route t xs = Inr (heap_walk (bt_splits t) xs D)"
    using v by (simp add: binary_route_def D_def)
  then show ?thesis
    using assms(1) heap_walk_less [of "bt_splits t" xs D] by (simp add: binary_evaluate_def binary_wf_def D_def)
qed

section \<open>The contract of a backend\<close>

definition policy_domain :: "comparison_policy \<Rightarrow> string \<times> int" where
  "policy_domain p = (cp_kind p, cp_bit_width p)"

definition number_admitted :: "comparison_policy \<Rightarrow> bool \<Rightarrow> int \<Rightarrow> bool" where
  "number_admitted p left n \<longleftrightarrow>
     cp_kind p = ScalarReal \<or> admits (if left then cp_left_range p else cp_right_range p) n"

locale selector_backend =
  fixes be :: "('v, 'b) backend"
    and reads :: "value_kind \<Rightarrow> 'v \<Rightarrow> string \<times> int \<Rightarrow> int \<Rightarrow> bool"
    and selects :: "'v \<Rightarrow> bool \<Rightarrow> bool"
  assumes kind_reads: "reads k v d n \<Longrightarrow> be_kind be v = k \<and> provenance_ok k"
    and kind_selects: "selects w a \<Longrightarrow> be_kind be w = ValueOpaque"
    and public_reads: "scalar_validate s = Inr () \<Longrightarrow>
      \<exists>v. be_public_constant be s = Inr v \<and> reads ValuePublic v (scalar_domain s) (scalar_number s)"
    and select_reads: "selects w a \<Longrightarrow> reads k v d n \<Longrightarrow>
      \<exists>r. be_mul be w v = Inr r \<and> reads ValueOpaque r d (if a then n else 0)"
    and add_reads: "reads ValueOpaque x d m \<Longrightarrow> reads ValueOpaque y d n \<Longrightarrow> m = 0 \<or> n = 0 \<Longrightarrow>
      \<exists>r. be_add be x y = Inr r \<and> reads ValueOpaque r d (m + n)"
    and mul_selects: "selects x a \<Longrightarrow> selects y b \<Longrightarrow> \<exists>r. be_mul be x y = Inr r \<and> selects r (a \<and> b)"
    and sub_selects: "selects x a \<Longrightarrow> selects y b \<Longrightarrow> b \<longrightarrow> a \<Longrightarrow>
      \<exists>r. be_sub be x y = Inr r \<and> selects r (a \<and> \<not> b)"
    and compare_selects: "policy_validate p = Inr () \<Longrightarrow>
      reads ValueOpaque x (policy_domain p) m \<Longrightarrow> reads k y (policy_domain p) n \<Longrightarrow>
      number_admitted p True m \<Longrightarrow> number_admitted p False n \<Longrightarrow>
      \<exists>r. be_compare_ge be x y p = Inr r \<and> selects r (m \<ge> n)"
begin

lemma run_public:
  "scalar_validate s = Inr () \<Longrightarrow>
     \<exists>v c'. runs (engine_public be s) c v c' \<and> reads ValuePublic v (scalar_domain s) (scalar_number s)"
  using public_reads [of s] kind_reads by (fastforce simp: runs_engine_public)

lemma run_select:
  assumes "selects w a" and "reads k v d n"
  shows "\<exists>r c'. runs (engine_mul be w v) c r c' \<and> reads ValueOpaque r d (if a then n else 0)"
proof -
  obtain r where r: "be_mul be w v = Inr r" "reads ValueOpaque r d (if a then n else 0)"
    using select_reads [OF assms] by blast
  with kind_reads [OF r(2)] kind_reads [OF assms(2)] kind_selects [OF assms(1)]
  have "runs (engine_mul be w v) c r (count_mul ValueOpaque k c)" by (simp add: runs_engine_mul)
  with r(2) show ?thesis by blast
qed

lemma run_add:
  assumes "reads ValueOpaque x d m" and "reads ValueOpaque y d n" and "m = 0 \<or> n = 0"
  shows "\<exists>r c'. runs (engine_add be x y) c r c' \<and> reads ValueOpaque r d (m + n)"
proof -
  obtain r where r: "be_add be x y = Inr r" "reads ValueOpaque r d (m + n)"
    using add_reads [OF assms] by blast
  with kind_reads [OF r(2)] kind_reads [OF assms(1)] kind_reads [OF assms(2)]
  have "runs (engine_add be x y) c r (charge 0 0 0 1 0 0 0 c)" by (simp add: runs_engine_add)
  with r(2) show ?thesis by blast
qed

lemma run_mul_selects:
  assumes "selects x a" and "selects y b"
  shows "\<exists>r c'. runs (engine_mul be x y) c r c' \<and> selects r (a \<and> b)"
proof -
  obtain r where r: "be_mul be x y = Inr r" "selects r (a \<and> b)" using mul_selects [OF assms] by blast
  with kind_selects [OF r(2)] kind_selects [OF assms(1)] kind_selects [OF assms(2)]
  have "runs (engine_mul be x y) c r (count_mul ValueOpaque ValueOpaque c)"
    by (simp add: runs_engine_mul)
  with r(2) show ?thesis by blast
qed

lemma run_sub_selects:
  assumes "selects x a" and "selects y b" and "b \<longrightarrow> a"
  shows "\<exists>r c'. runs (engine_sub be x y) c r c' \<and> selects r (a \<and> \<not> b)"
proof -
  obtain r where r: "be_sub be x y = Inr r" "selects r (a \<and> \<not> b)" using sub_selects [OF assms] by blast
  with kind_selects [OF r(2)] kind_selects [OF assms(1)] kind_selects [OF assms(2)]
  have "runs (engine_sub be x y) c r (charge 0 0 0 0 1 0 0 c)" by (simp add: runs_engine_sub)
  with r(2) show ?thesis by blast
qed

lemma run_compare:
  assumes "policy_validate p = Inr ()"
    and x: "reads ValueOpaque x (policy_domain p) m" and y: "reads k y (policy_domain p) n"
    and "number_admitted p True m" and "number_admitted p False n"
  shows "\<exists>r c'. runs (engine_compare_ge be x y p) c r c' \<and> selects r (m \<ge> n)"
proof -
  obtain r where r: "be_compare_ge be x y p = Inr r" "selects r (m \<ge> n)"
    using compare_selects [OF assms] by blast
  with kind_selects [OF r(2)] kind_reads [OF x] kind_reads [OF y]
  have "runs (engine_compare_ge be x y p) c r (count_compare ValueOpaque k c)"
    by (simp add: runs_engine_compare_ge)
  with r(2) show ?thesis by blast
qed

text \<open>The sum of values of which only the q-th may be nonzero.\<close>

lemma run_sum_from:
  assumes "\<And>j. j < length vs \<Longrightarrow> reads ValueOpaque (vs ! j) d (if i + j = q then n else 0)"
    and "reads ValueOpaque acc d (if q < i then n else 0)"
  shows "\<exists>v c'. runs (fold_st (\<lambda>_ x t. engine_add be t x) k vs acc) c v c' \<and>
    reads ValueOpaque v d (if q < i + length vs then n else 0)"
  using assms
proof (induction vs arbitrary: i k acc c)
  case Nil
  then show ?case by (auto simp: runs_iff)
next
  case (Cons x xs)
  have x: "reads ValueOpaque x d (if i = q then n else 0)" using Cons.prems(1) [of 0] by simp
  obtain r c1 where r: "runs (engine_add be acc x) c r c1"
    "reads ValueOpaque r d ((if q < i then n else 0) + (if i = q then n else 0))"
    using run_add [OF Cons.prems(2) x] by fastforce
  have "(if q < i then n else 0) + (if i = q then n else 0) = (if q < Suc i then n else 0)" by auto
  with r(2) have acc: "reads ValueOpaque r d (if q < Suc i then n else 0)" by simp
  have "reads ValueOpaque (xs ! j) d (if Suc i + j = q then n else 0)" if "j < length xs" for j
    using Cons.prems(1) [of "Suc j"] that by simp
  from Cons.IH [OF this acc, of "Suc k" c1] obtain v c' where
    "runs (fold_st (\<lambda>_ x t. engine_add be t x) (Suc k) xs r) c1 v c'"
    "reads ValueOpaque v d (if q < i + length (x # xs) then n else 0)" by auto
  with r(1) show ?case unfolding fold_st.simps by (blast intro: runs_bindI)
qed

lemma run_sum:
  assumes "\<And>j. j < length vs \<Longrightarrow> reads ValueOpaque (vs ! j) d (if j = q then n else 0)"
    and "q < length vs"
  shows "\<exists>v c'. runs (sum_values be vs) c v c' \<and> reads ValueOpaque v d n"
proof (cases vs)
  case Nil
  with assms(2) show ?thesis by simp
next
  case (Cons x xs)
  have "reads ValueOpaque (xs ! j) d (if 1 + j = q then n else 0)" if "j < length xs" for j
    using assms(1) [of "Suc j"] that Cons by simp
  moreover have "reads ValueOpaque x d (if q < 1 then n else 0)"
    using assms(1) [of 0] Cons by (cases q) simp_all
  ultimately obtain v c' where "runs (fold_st (\<lambda>_ x t. engine_add be t x) 1 xs x) c v c'"
    "reads ValueOpaque v d (if q < 1 + length xs then n else 0)"
    using run_sum_from [of xs d 1 q n x] by blast
  with Cons assms(2) show ?thesis by (auto simp: sum_values_def)
qed

text \<open>A list of weights that selects position q.\<close>

definition one_hot :: "'v list \<Rightarrow> nat \<Rightarrow> nat \<Rightarrow> bool" where
  "one_hot ws m q \<longleftrightarrow> length ws = m \<and> q < m \<and> (\<forall>j < m. selects (ws ! j) (j = q))"

text \<open>Plaintext scalars and the backend values that carry them.\<close>

definition carries :: "comparison_policy \<Rightarrow> scalar \<Rightarrow> 'v \<Rightarrow> bool" where
  "carries p x v \<longleftrightarrow> (\<exists>s. public_scalar_from_ordered x = Inr s \<and>
     validate_operand p s True = Inr () \<and> reads ValueOpaque v (scalar_domain s) (scalar_number s))"

end

text \<open>The thresholds and the features have one kind, as Go's type parameter forces.\<close>

definition one_kind :: "go_kind \<Rightarrow> binary_split list \<Rightarrow> scalar list \<Rightarrow> bool" where
  "one_kind k splits xs \<longleftrightarrow>
     list_all (\<lambda>s. scalar_kind (bs_threshold s) = k) splits \<and> list_all (\<lambda>x. scalar_kind x = k) xs"

lemma validate_operand_facts:
  assumes "validate_operand p s left = Inr ()"
  shows "policy_validate p = Inr ()" "scalar_domain s = policy_domain p"
    "number_admitted p left (scalar_number s)" "scalar_validate s = Inr ()"
proof -
  show p: "policy_validate p = Inr ()" using assms by (auto simp: validate_operand_def ok_iff)
  show "scalar_domain s = policy_domain p" "number_admitted p left (scalar_number s)"
    "scalar_validate s = Inr ()"
  proof -
    have "scalar_domain s = policy_domain p \<and> number_admitted p left (scalar_number s) \<and>
        scalar_validate s = Inr ()"
    proof (cases "cp_kind p = ScalarReal")
      case True
      then have "cp_bit_width p = 0" using p by (auto simp: policy_validate_def reject_if_ok)
      with True assms show ?thesis
        by (auto simp: validate_operand_real [OF True p] scalar_domain_def policy_domain_def
            number_admitted_def real_ok_def scalar_validate_ok)
    next
      case False
      then show ?thesis using assms policy_ranges(1) [OF p False]
        by (auto simp: validate_operand_integer [OF p False] scalar_domain_def policy_domain_def
            number_admitted_def integer_ok_kind integer_kind_def scalar_validate_ok)
    qed
    then show "scalar_domain s = policy_domain p" "number_admitted p left (scalar_number s)"
      "scalar_validate s = Inr ()" by simp_all
  qed
qed

lemma nth_concat_pairs:
  "list_all (\<lambda>p. length p = 2) ps \<Longrightarrow> i < 2 * length ps \<Longrightarrow> concat ps ! i = ps ! (i div 2) ! (i mod 2)"
proof (induction ps arbitrary: i)
  case Nil
  then show ?case by simp
next
  case (Cons p ps)
  show ?case
  proof (cases "i < 2")
    case True
    with Cons.prems show ?thesis by (simp add: nth_append)
  next
    case False
    then obtain k where k: "i = Suc (Suc k)" by (metis add_2_eq_Suc le_add_diff_inverse not_less)
    with Cons show ?thesis by (simp add: nth_append)
  qed
qed

text \<open>The branch that a split takes on the features, and the numbers that decide it.\<close>

definition takes_right :: "binary_split \<Rightarrow> scalar list \<Rightarrow> bool" where
  "takes_right s xs \<longleftrightarrow> \<not> scalar_lt (xs ! nat (bs_feature s)) (bs_threshold s)"

lemma branch_of_takes_right: "branch_of s (xs ! nat (bs_feature s)) = (if takes_right s xs then 1 else 0)"
  by (simp add: branch_of_def takes_right_def)

lemma takes_right_numbers:
  assumes "public_scalar_from_ordered (xs ! nat (bs_feature s)) = Inr x"
    and "public_scalar_from_ordered (bs_threshold s) = Inr t"
    and "scalar_kind (xs ! nat (bs_feature s)) = scalar_kind (bs_threshold s)"
  shows "takes_right s xs \<longleftrightarrow> scalar_number x \<ge> scalar_number t"
  unfolding takes_right_def scalar_lt_number [OF assms] by auto

definition thresholds_admitted :: "comparison_policy \<Rightarrow> binary_split list \<Rightarrow> bool" where
  "thresholds_admitted p splits \<longleftrightarrow> list_all (\<lambda>s. \<exists>t.
     public_scalar_from_ordered (bs_threshold s) = Inr t \<and> validate_operand p t False = Inr ()) splits"

lemma validate_inputs_thresholds:
  "validate_inputs (Some be) tree features one policy = Inr u \<Longrightarrow> thresholds_admitted policy (bt_splits tree)"
  by (auto simp: validate_inputs_def thresholds_admitted_def ok_iff list_all_iff_nth exact_public_scalar_def)

context selector_backend begin

lemma carries_nth:
  assumes "list_all2 (carries p) xs vs" and "0 \<le> z" and "z < int (length vs)"
  obtains s where "public_scalar_from_ordered (xs ! nat z) = Inr s"
    and "validate_operand p s True = Inr ()"
    and "reads ValueOpaque (vs ! nat z) (policy_domain p) (scalar_number s)"
proof -
  have "carries p (xs ! nat z) (vs ! nat z)"
    using assms(2,3) by (intro list_all2_nthD2 [OF assms(1)]) simp
  then obtain s where s: "public_scalar_from_ordered (xs ! nat z) = Inr s"
    "validate_operand p s True = Inr ()" "reads ValueOpaque (vs ! nat z) (scalar_domain s) (scalar_number s)"
    by (auto simp: carries_def)
  show thesis
    by (rule that [OF s(1,2)]) (use s(3) validate_operand_facts(2) [OF s(2)] in simp)
qed

lemma run_select_features:
  assumes "one_hot ws m q" and "length splits = m" and "list_all2 (carries p) xs vs"
    and "list_all (\<lambda>s. 0 \<le> bs_feature s \<and> bs_feature s < int (length vs)) splits"
    and "public_scalar_from_ordered (xs ! nat (bs_feature (splits ! q))) = Inr s"
  shows "\<exists>v c'. runs (select_features be ws splits vs) c v c' \<and>
    reads ValueOpaque v (policy_domain p) (scalar_number s)"
proof -
  have hot: "length ws = m" "q < m" "\<And>j. j < m \<Longrightarrow> selects (ws ! j) (j = q)"
    using assms(1) by (simp_all add: one_hot_def)
  define f where "f = (\<lambda>i w. bind_st (lift_res (at splits i)) (\<lambda>split.
       bind_st (lift_res (at_int vs (bs_feature split))) (\<lambda>feature.
       engine_mul be w feature)))"
  have step: "\<exists>y t. runs (f (0 + j) (ws ! j)) c y t \<and>
       reads ValueOpaque y (policy_domain p) (if j = q then scalar_number s else 0)"
    if "j < length ws" for j c
  proof -
    have j: "j < m" using that hot by simp
    have fe: "0 \<le> bs_feature (splits ! j)" "bs_feature (splits ! j) < int (length vs)"
      using assms(2,4) j by (simp_all add: list_all_iff_nth)
    define v where "v = vs ! nat (bs_feature (splits ! j))"
    from carries_nth [OF assms(3) fe, folded v_def] obtain x where
      v: "public_scalar_from_ordered (xs ! nat (bs_feature (splits ! j))) = Inr x"
      "reads ValueOpaque v (policy_domain p) (scalar_number x)" by metis
    obtain r t where r: "runs (engine_mul be (ws ! j) v) c r t"
      "reads ValueOpaque r (policy_domain p) (if j = q then scalar_number x else 0)"
      using run_select [OF hot(3) [OF j] v(2), of c] by blast
    have "runs (f (0 + j) (ws ! j)) c r t"
      using r(1) j assms(2) fe by (auto simp: f_def runs_iff at_int_ok v_def)
    moreover have "(if j = q then scalar_number x else 0) = (if j = q then scalar_number s else 0)"
      using v(1) assms(5) by auto
    ultimately show ?thesis using r(2) by metis
  qed
  obtain ys t where ys: "runs (map_st f 0 ws) c ys t" "length ys = length ws"
    "\<forall>j < length ws. reads ValueOpaque (ys ! j) (policy_domain p) (if j = q then scalar_number s else 0)"
    using map_st_runs [where P = "\<lambda>j y. reads ValueOpaque y (policy_domain p) (if j = q then scalar_number s else 0)"
        and f = f and i = 0] step by blast
  obtain v c' where "runs (sum_values be ys) t v c'" "reads ValueOpaque v (policy_domain p) (scalar_number s)"
    using run_sum [of ys "policy_domain p" q "scalar_number s" t] ys(2,3) hot by auto
  with ys(1) show ?thesis unfolding select_features_def f_def by (blast intro: runs_bindI)
qed

lemma run_select_thresholds:
  assumes "one_hot ws m q" and "length splits = m" and "thresholds_admitted p splits"
    and "public_scalar_from_ordered (bs_threshold (splits ! q)) = Inr s"
  shows "\<exists>v c'. runs (select_thresholds be ws splits) c v c' \<and>
    reads ValueOpaque v (policy_domain p) (scalar_number s)"
proof -
  have hot: "length ws = m" "q < m" "\<And>j. j < m \<Longrightarrow> selects (ws ! j) (j = q)"
    using assms(1) by (simp_all add: one_hot_def)
  define f where "f = (\<lambda>i w. bind_st (lift_res (at splits i)) (\<lambda>split.
       bind_st (lift_res (exact_public_scalar (bs_threshold split))) (\<lambda>scalar.
       bind_st (engine_public be scalar) (\<lambda>threshold.
       engine_mul be w threshold))))"
  have step: "\<exists>y t. runs (f (0 + j) (ws ! j)) c y t \<and>
       reads ValueOpaque y (policy_domain p) (if j = q then scalar_number s else 0)"
    if "j < length ws" for j c
  proof -
    have j: "j < m" using that hot by simp
    obtain x where x: "public_scalar_from_ordered (bs_threshold (splits ! j)) = Inr x"
      "validate_operand p x False = Inr ()"
      using assms(2,3) j by (auto simp: thresholds_admitted_def list_all_iff_nth)
    note fx = validate_operand_facts [OF x(2)]
    obtain v c1 where v: "runs (engine_public be x) c v c1"
      "reads ValuePublic v (policy_domain p) (scalar_number x)"
      using run_public [OF fx(4), of c] fx(2) by auto
    obtain r t where r: "runs (engine_mul be (ws ! j) v) c1 r t"
      "reads ValueOpaque r (policy_domain p) (if j = q then scalar_number x else 0)"
      using run_select [OF hot(3) [OF j] v(2), of c1] by blast
    have "runs (f (0 + j) (ws ! j)) c r t"
      using r(1) v(1) j assms(2) x(1)
      by (auto simp: f_def runs_iff exact_public_scalar_def)
    moreover have "(if j = q then scalar_number x else 0) = (if j = q then scalar_number s else 0)"
      using x(1) assms(4) by auto
    ultimately show ?thesis using r(2) by metis
  qed
  obtain ys t where ys: "runs (map_st f 0 ws) c ys t" "length ys = length ws"
    "\<forall>j < length ws. reads ValueOpaque (ys ! j) (policy_domain p) (if j = q then scalar_number s else 0)"
    using map_st_runs [where P = "\<lambda>j y. reads ValueOpaque y (policy_domain p) (if j = q then scalar_number s else 0)"
        and f = f and i = 0] step by blast
  obtain v c' where "runs (sum_values be ys) t v c'" "reads ValueOpaque v (policy_domain p) (scalar_number s)"
    using run_sum [of ys "policy_domain p" q "scalar_number s" t] ys(2,3) hot by auto
  with ys(1) show ?thesis unfolding select_thresholds_def f_def by (blast intro: runs_bindI)
qed

lemma run_update_path_weights:
  assumes "one_hot ws m q" and "length bs = m" and "\<And>j. j < m \<Longrightarrow> selects (bs ! j) (B j)"
  shows "\<exists>ws' c'. runs (update_path_weights be ws bs) c ws' c' \<and>
    one_hot ws' (2 * m) (2 * q + (if B q then 1 else 0))"
proof -
  have hot: "length ws = m" "q < m" "\<And>j. j < m \<Longrightarrow> selects (ws ! j) (j = q)"
    using assms(1) by (simp_all add: one_hot_def)
  define f where "f = (\<lambda>i weight. bind_st (lift_res (at bs i)) (\<lambda>branch.
          bind_st (engine_mul be weight branch) (\<lambda>right.
          bind_st (engine_sub be weight right) (\<lambda>left.
          lift_res (Inr [left, right] :: ('b eval_error, 'v list) res)))))"
  define P where "P j y \<longleftrightarrow> length y = 2 \<and> selects (y ! 0) (j = q \<and> \<not> B j) \<and> selects (y ! 1) (j = q \<and> B j)"
    for j and y :: "'v list"
  have step: "\<exists>y t. runs (f (0 + j) (ws ! j)) c y t \<and> P j y" if "j < length ws" for j c
  proof -
    have j: "j < m" using that hot by simp
    obtain r c1 where r: "runs (engine_mul be (ws ! j) (bs ! j)) c r c1" "selects r (j = q \<and> B j)"
      using run_mul_selects [OF hot(3) [OF j] assms(3) [OF j], of c] by blast
    obtain l t where l: "runs (engine_sub be (ws ! j) r) c1 l t" "selects l (j = q \<and> \<not> (j = q \<and> B j))"
      using run_sub_selects [OF hot(3) [OF j] r(2), of c1] by blast
    have "runs (f (0 + j) (ws ! j)) c [l, r] t"
      using r(1) l(1) j assms(2) by (auto simp: f_def runs_iff)
    moreover have "(j = q \<and> \<not> (j = q \<and> B j)) = (j = q \<and> \<not> B j)" by blast
    ultimately show ?thesis using r(2) l(2) by (auto simp: P_def)
  qed
  obtain ys c' where ys: "runs (map_st f 0 ws) c ys c'" "length ys = length ws"
    "\<forall>j < length ws. P j (ys ! j)"
    using map_st_runs [where P = P and f = f and i = 0] step by blast
  have two: "list_all (\<lambda>p. length p = 2) ys"
    using ys(2,3) by (simp add: list_all_iff_nth P_def)
  have "one_hot (concat ys) (2 * m) (2 * q + (if B q then 1 else 0))"
    unfolding one_hot_def
  proof (intro conjI allI impI)
    show "length (concat ys) = 2 * m" using length_concat_pairs [OF two] ys(2) hot by simp
    show "2 * q + (if B q then 1 else 0) < 2 * m" using hot(2) by simp
    fix j assume j: "j < 2 * m"
    have at: "concat ys ! j = ys ! (j div 2) ! (j mod 2)"
      by (rule nth_concat_pairs [OF two]) (use j ys(2) hot in simp)
    have p: "P (j div 2) (ys ! (j div 2))" using ys(3) j hot by simp
    show "selects (concat ys ! j) (j = 2 * q + (if B q then 1 else 0))"
    proof (cases "even j")
      case True
      then obtain k where k: "j = 2 * k" by blast
      have "(j = 2 * q + (if B q then 1 else 0)) = (k = q \<and> \<not> B k)"
        unfolding k by (cases "B q") (auto, presburger)
      with p k at show ?thesis by (simp add: P_def)
    next
      case False
      then obtain k where k: "j = Suc (2 * k)" by (elim oddE) simp
      have "(j = 2 * q + (if B q then 1 else 0)) = (k = q \<and> B k)"
        unfolding k by (cases "B q") (auto, presburger)
      with p k at show ?thesis by (simp add: P_def)
    qed
  qed
  moreover have "runs (update_path_weights be ws bs) c (concat ys) c'"
    using ys(1) hot(1) assms(2) by (auto simp: update_path_weights_def f_def runs_iff)
  ultimately show ?thesis by blast
qed

end

text \<open>
  The leaves have one kind and are representable: a float is finite, an integer is stored
  extended to 64 bits, as every Go value of the type is.
\<close>

definition leaves_ok :: "go_kind \<Rightarrow> scalar list \<Rightarrow> bool" where
  "leaves_ok k leaves \<longleftrightarrow>
     list_all (\<lambda>x. scalar_kind x = k \<and> is_ok (public_scalar_from_ordered x)) leaves"

context selector_backend begin

text \<open>What the inputs of an evaluation satisfy.\<close>

definition prepared :: "comparison_policy \<Rightarrow> go_kind \<Rightarrow> binary_tree \<Rightarrow> scalar list \<Rightarrow> 'v list \<Rightarrow> bool" where
  "prepared p k tree xs vs \<longleftrightarrow> policy_validate p = Inr () \<and> tree_in_range tree vs \<and>
     thresholds_admitted p (bt_splits tree) \<and> one_kind k (bt_splits tree) xs \<and>
     list_all2 (carries p) xs vs"

text \<open>The numbers a split compares.\<close>

lemma split_numbers:
  assumes "prepared p k tree xs vs" and "i < length (bt_splits tree)" and s: "s = bt_splits tree ! i"
  obtains x t where "0 \<le> bs_feature s" "bs_feature s < int (length vs)"
    "public_scalar_from_ordered (xs ! nat (bs_feature s)) = Inr x"
    "reads ValueOpaque (vs ! nat (bs_feature s)) (policy_domain p) (scalar_number x)" "number_admitted p True (scalar_number x)"
    "public_scalar_from_ordered (bs_threshold s) = Inr t" "scalar_validate t = Inr ()"
    "scalar_domain t = policy_domain p" "number_admitted p False (scalar_number t)"
    "takes_right s xs \<longleftrightarrow> scalar_number x \<ge> scalar_number t"
proof -
  have z: "0 \<le> bs_feature s" "bs_feature s < int (length vs)"
    using assms by (auto simp: prepared_def tree_in_range_def list_all_iff_nth)
  have cv: "list_all2 (carries p) xs vs" using assms(1) by (simp add: prepared_def)
  from carries_nth [OF cv z] obtain x where
    x: "public_scalar_from_ordered (xs ! nat (bs_feature s)) = Inr x" "validate_operand p x True = Inr ()"
    "reads ValueOpaque (vs ! nat (bs_feature s)) (policy_domain p) (scalar_number x)" by metis
  obtain t where t: "public_scalar_from_ordered (bs_threshold s) = Inr t" "validate_operand p t False = Inr ()"
    using assms by (auto simp: prepared_def thresholds_admitted_def list_all_iff_nth)
  have "nat (bs_feature s) < length xs" using z list_all2_lengthD [OF cv] by simp
  then have kind: "scalar_kind (xs ! nat (bs_feature s)) = scalar_kind (bs_threshold s)"
    using assms by (simp add: prepared_def one_kind_def list_all_iff_nth)
  note fx = validate_operand_facts [OF x(2)] and ft = validate_operand_facts [OF t(2)]
  show thesis
    by (rule that [OF z x(1,3) fx(3) t(1) ft(4,2,3) takes_right_numbers [OF x(1) t(1) kind]])
qed

lemma walk_step:
  "heap_walk splits xs (Suc d) = 2 * heap_walk splits xs d +
     (if takes_right (splits ! (2 ^ d - 1 + heap_walk splits xs d)) xs then 1 else 0)"
  by (simp add: Let_def branch_of_takes_right)

lemma run_obo_level:
  assumes "prepared p k tree xs vs" and "d < nat (bt_depth tree)"
    and "one_hot ws (2 ^ d) (heap_walk (bt_splits tree) xs d)"
  shows "\<exists>ws' c'. runs (obo_level be tree vs p d ws) c ws' c' \<and>
    one_hot ws' (2 ^ Suc d) (heap_walk (bt_splits tree) xs (Suc d))"
proof -
  define q where "q = heap_walk (bt_splits tree) xs d"
  define base :: nat where "base = 2 ^ d - 1"
  define part where "part = take (2 ^ d) (drop base (bt_splits tree))"
  define s where "s = bt_splits tree ! (base + q)"
  have len: "length (bt_splits tree) = 2 ^ nat (bt_depth tree) - 1"
    and all: "list_all (\<lambda>s. 0 \<le> bs_feature s \<and> bs_feature s < int (length vs)) (bt_splits tree)"
    and th: "thresholds_admitted p (bt_splits tree)" and cv: "list_all2 (carries p) xs vs"
    and pol: "policy_validate p = Inr ()"
    using assms(1) by (simp_all add: prepared_def tree_in_range_def binary_wf_def)
  have bound: "base + 2 ^ d \<le> length (bt_splits tree)"
    using level_bound [OF assms(2)] by (simp add: len base_def)
  have q: "q < 2 ^ d" by (simp add: q_def heap_walk_less)
  have part: "length part = 2 ^ d" "part ! q = s"
    "list_all (\<lambda>s. 0 \<le> bs_feature s \<and> bs_feature s < int (length vs)) part"
    "thresholds_admitted p part"
    using bound q all th
    by (auto simp: part_def s_def list_all_iff thresholds_admitted_def dest!: in_set_takeD in_set_dropD)
  have sl: "slice (bt_splits tree) base (base + 2 ^ d) = Inr part"
    using bound by (simp add: slice_def part_def)
  have "base + q < length (bt_splits tree)" using bound q by simp
  from split_numbers [OF assms(1) this s_def] obtain x t where
    n: "public_scalar_from_ordered (xs ! nat (bs_feature s)) = Inr x" "number_admitted p True (scalar_number x)"
    "public_scalar_from_ordered (bs_threshold s) = Inr t" "number_admitted p False (scalar_number t)"
    "takes_right s xs \<longleftrightarrow> scalar_number x \<ge> scalar_number t" by metis
  note hot = assms(3) [folded q_def]
  obtain f c1 where f: "runs (select_features be ws part vs) c f c1"
    "reads ValueOpaque f (policy_domain p) (scalar_number x)"
    using run_select_features [OF hot part(1) cv part(3), of x c] n(1) part(2) by auto
  obtain g c2 where g: "runs (select_thresholds be ws part) c1 g c2"
    "reads ValueOpaque g (policy_domain p) (scalar_number t)"
    using run_select_thresholds [OF hot part(1,4), of t c1] n(3) part(2) by auto
  obtain b c3 where b: "runs (engine_compare_ge be f g p) c2 b c3" "selects b (takes_right s xs)"
    using run_compare [OF pol f(2) g(2) n(2,4), of c2] n(5) by auto
  obtain ws' c4 where u: "runs (update_path_weights be ws (replicate (2 ^ d) b))
      (observed (int (length ws)) (int 1) c3) ws' c4"
    "one_hot ws' (2 * 2 ^ d) (2 * q + (if takes_right s xs then 1 else 0))"
    using run_update_path_weights [OF hot, of "replicate (2 ^ d) b" "\<lambda>_. takes_right s xs"
        "observed (int (length ws)) 1 c3"] b(2) by auto
  have "runs (obo_level be tree vs p d ws) c ws' (observed (int (length ws')) 0 c4)"
    unfolding obo_level_def Let_def base_def [symmetric] sl
    by (rule runs_bindI runs_liftI f(1) g(1) b(1) u(1) runs_observeI)+ (simp add: runs_lift)
  moreover have "heap_walk (bt_splits tree) xs (Suc d) = 2 * q + (if takes_right s xs then 1 else 0)"
    using walk_step [of "bt_splits tree" xs d] by (simp only: q_def s_def base_def)
  ultimately show ?thesis using u(2) by (metis power_Suc)
qed

lemma run_full_level:
  assumes "prepared p k tree xs vs" and "d < nat (bt_depth tree)"
    and "one_hot ws (2 ^ d) (heap_walk (bt_splits tree) xs d)"
  shows "\<exists>ws' c'. runs (full_level be tree vs p d ws) c ws' c' \<and>
    one_hot ws' (2 ^ Suc d) (heap_walk (bt_splits tree) xs (Suc d))"
proof -
  define q where "q = heap_walk (bt_splits tree) xs d"
  define base :: nat where "base = 2 ^ d - 1"
  define s where "s i = bt_splits tree ! (base + i)" for i
  have len: "length (bt_splits tree) = 2 ^ nat (bt_depth tree) - 1" and pol: "policy_validate p = Inr ()"
    using assms(1) by (simp_all add: prepared_def tree_in_range_def binary_wf_def)
  have idx: "base + i < length (bt_splits tree)" if "i < 2 ^ d" for i
    using level_bound [OF assms(2)] that by (simp add: len base_def)
  define f where "f = (\<lambda>_::nat. \<lambda>i. bind_st (lift_res (at (bt_splits tree) (base + i))) (\<lambda>split.
           bind_st (lift_res (exact_public_scalar (bs_threshold split))) (\<lambda>scalar.
           bind_st (engine_public be scalar) (\<lambda>threshold.
           bind_st (lift_res (at_int vs (bs_feature split))) (\<lambda>feature.
           engine_compare_ge be feature threshold p)))))"
  have step: "\<exists>y t. runs (f (0 + j) ([0..<2 ^ d] ! j)) c y t \<and> selects y (takes_right (s j) xs)"
    if "j < length [0..<2 ^ d :: nat]" for j c
  proof -
    have j: "j < 2 ^ d" "[0..<2 ^ d] ! j = j" using that by simp_all
    define v where "v = vs ! nat (bs_feature (s j))"
    from split_numbers [OF assms(1) idx [OF j(1)] s_def, folded v_def] obtain x t where
      z: "0 \<le> bs_feature (s j)" "bs_feature (s j) < int (length vs)" and
      n: "scalar_validate t = Inr ()" "reads ValueOpaque v (policy_domain p) (scalar_number x)"
      "number_admitted p True (scalar_number x)" "public_scalar_from_ordered (bs_threshold (s j)) = Inr t"
      "scalar_validate t = Inr ()" "scalar_domain t = policy_domain p" "number_admitted p False (scalar_number t)"
      "takes_right (s j) xs \<longleftrightarrow> scalar_number x \<ge> scalar_number t" by metis
    obtain w c1 where w: "runs (engine_public be t) c w c1"
      "reads ValuePublic w (policy_domain p) (scalar_number t)"
      using run_public [OF n(5), of c] n(6) by auto
    obtain b c2 where b: "runs (engine_compare_ge be v w p) c1 b c2" "selects b (takes_right (s j) xs)"
      using run_compare [OF pol n(2) w(2) n(3,7), of c1] n(8) by auto
    have "runs (f (0 + j) ([0..<2 ^ d] ! j)) c b c2"
      using w(1) b(1) n(4) z idx [OF j(1)]
      by (auto simp: f_def runs_iff exact_public_scalar_def at_int_ok v_def s_def j)
    with b(2) show ?thesis by blast
  qed
  obtain bs c1 where bs: "runs (map_st f 0 [0..<2 ^ d]) c bs c1" "length bs = 2 ^ d"
    "\<forall>j < 2 ^ d. selects (bs ! j) (takes_right (s j) xs)"
    using map_st_runs [where P = "\<lambda>j y. selects y (takes_right (s j) xs)" and f = f and i = 0
        and xs = "[0..<2 ^ d]" and s = c] step by auto
  note hot = assms(3) [folded q_def]
  obtain ws' c4 where u: "runs (update_path_weights be ws bs)
      (observed (int (length ws)) (int (length bs)) c1) ws' c4"
    "one_hot ws' (2 * 2 ^ d) (2 * q + (if takes_right (s q) xs then 1 else 0))"
    using run_update_path_weights [OF hot bs(2), of "\<lambda>j. takes_right (s j) xs"
        "observed (int (length ws)) (int (length bs)) c1"] bs(3) by auto
  have "runs (full_level be tree vs p d ws) c ws' (observed (int (length ws')) 0 c4)"
    using bs(1) u(1) unfolding full_level_def Let_def base_def [symmetric]
    by (auto simp: runs_iff f_def)
  moreover have "heap_walk (bt_splits tree) xs (Suc d) = 2 * q + (if takes_right (s q) xs then 1 else 0)"
    using walk_step [of "bt_splits tree" xs d] by (simp only: q_def s_def base_def)
  ultimately show ?thesis using u(2) by (metis power_Suc)
qed

lemma run_fold_levels:
  assumes "\<And>d ws c. d < D \<Longrightarrow> one_hot ws (2 ^ d) (W d) \<Longrightarrow>
      \<exists>ws' c'. runs (level d ws) c ws' c' \<and> one_hot ws' (2 ^ Suc d) (W (Suc d))"
    and "one_hot ws (2 ^ d) (W d)" and "d \<le> D"
  shows "\<exists>ws' c'. runs (fold_st (\<lambda>_ d weights. level d weights) i [d..<D] ws) c ws' c' \<and>
    one_hot ws' (2 ^ D) (W D)"
  using assms(2,3)
proof (induction "D - d" arbitrary: i d ws c)
  case 0
  then show ?case by (auto simp: runs_iff)
next
  case (Suc n)
  then have lt: "d < D" and n: "n = D - Suc d" by simp_all
  obtain ws1 c1 where l: "runs (level d ws) c ws1 c1" "one_hot ws1 (2 ^ Suc d) (W (Suc d))"
    using assms(1) [OF lt Suc.prems(1)] by blast
  from Suc.hyps(1) [OF n l(2)] lt obtain ws' c' where
    "runs (fold_st (\<lambda>_ d weights. level d weights) (Suc i) [Suc d..<D] ws1) c1 ws' c'"
    "one_hot ws' (2 ^ D) (W D)" by fastforce
  with l(1) show ?case unfolding upt_conv_Cons [OF lt] fold_st.simps by (blast intro: runs_bindI)
qed

lemma run_select_leaves:
  assumes "one_hot ws m q" and "length leaves = m" and "leaves_ok k leaves"
    and "public_scalar_from_ordered (leaves ! q) = Inr s"
  shows "\<exists>v c'. runs (select_leaves be ws leaves) c v c' \<and>
    reads ValueOpaque v (scalar_domain s) (scalar_number s)"
proof -
  have hot: "length ws = m" "q < m" "\<And>j. j < m \<Longrightarrow> selects (ws ! j) (j = q)"
    using assms(1) by (simp_all add: one_hot_def)
  define f where "f = (\<lambda>i leaf. bind_st (lift_res (exact_public_scalar leaf)) (\<lambda>scalar.
          bind_st (engine_public be scalar) (\<lambda>constant.
          bind_st (lift_res (at ws i)) (\<lambda>weight.
          engine_mul be weight constant))))"
  have step: "\<exists>y t. runs (f (0 + j) (leaves ! j)) c y t \<and>
       reads ValueOpaque y (scalar_domain s) (if j = q then scalar_number s else 0)"
    if "j < length leaves" for j c
  proof -
    have j: "j < m" using that assms(2) by simp
    obtain x where x: "public_scalar_from_ordered (leaves ! j) = Inr x"
      "scalar_kind (leaves ! j) = scalar_kind (leaves ! q)"
      using assms(2,3) j hot(2) by (auto simp: leaves_ok_def list_all_iff_nth is_ok_iff)
    have dom: "scalar_domain x = scalar_domain s"
      using x public_scalar_from_ordered_ok(2) [OF x(1)] public_scalar_from_ordered_ok(2) [OF assms(4)] by simp
    obtain v c1 where v: "runs (engine_public be x) c v c1"
      "reads ValuePublic v (scalar_domain s) (scalar_number x)"
      using run_public [OF public_scalar_from_ordered_ok(1) [OF x(1)], of c] dom by auto
    obtain r t where r: "runs (engine_mul be (ws ! j) v) c1 r t"
      "reads ValueOpaque r (scalar_domain s) (if j = q then scalar_number x else 0)"
      using run_select [OF hot(3) [OF j] v(2), of c1] by blast
    have "runs (f (0 + j) (leaves ! j)) c r t"
      using r(1) v(1) j hot(1) x(1) by (auto simp: f_def runs_iff exact_public_scalar_def)
    moreover have "(if j = q then scalar_number x else 0) = (if j = q then scalar_number s else 0)"
      using x(1) assms(4) by auto
    ultimately show ?thesis using r(2) by metis
  qed
  obtain ys t where ys: "runs (map_st f 0 leaves) c ys t" "length ys = length leaves"
    "\<forall>j < length leaves. reads ValueOpaque (ys ! j) (scalar_domain s) (if j = q then scalar_number s else 0)"
    using map_st_runs [where P = "\<lambda>j y. reads ValueOpaque y (scalar_domain s) (if j = q then scalar_number s else 0)"
        and f = f and i = 0] step by blast
  obtain v c' where "runs (sum_values be ys) t v c'" "reads ValueOpaque v (scalar_domain s) (scalar_number s)"
    using run_sum [of ys "scalar_domain s" q "scalar_number s" t] ys(2,3) hot assms(2) by auto
  with ys(1) hot(1) assms(2) show ?thesis
    by (auto simp: select_leaves_def runs_iff f_def)
qed

lemma run_evaluation:
  assumes "\<And>d ws c. d < D \<Longrightarrow> one_hot ws (2 ^ d) (heap_walk (bt_splits tree) xs d) \<Longrightarrow>
      \<exists>ws' c'. runs (level d ws) c ws' c' \<and> one_hot ws' (2 ^ Suc d) (heap_walk (bt_splits tree) xs (Suc d))"
    and "selects one True" and "D = nat (bt_depth tree)" and "binary_wf tree"
    and "leaves_ok k (bt_leaves tree)"
    and s: "public_scalar_from_ordered (bt_leaves tree ! heap_walk (bt_splits tree) xs D) = Inr s"
  shows "\<exists>ws c' v c''. runs (run_levels level D one) c ws c' \<and>
    runs (finish_evaluation be tree ws) c' v c'' \<and>
    reads ValueOpaque v (scalar_domain s) (scalar_number s)"
proof -
  have "one_hot [one] (2 ^ 0) (heap_walk (bt_splits tree) xs 0)"
    using assms(2) by (simp add: one_hot_def)
  from run_fold_levels [where W = "heap_walk (bt_splits tree) xs" and level = level and D = D
      and c = "observed 1 0 c" and i = 0, OF assms(1) this]
  obtain ws c' where ws: "runs (fold_st (\<lambda>_ d weights. level d weights) 0 [0..<D] [one]) (observed 1 0 c) ws c'"
    "one_hot ws (2 ^ D) (heap_walk (bt_splits tree) xs D)" by blast
  have "length (bt_leaves tree) = 2 ^ D" using assms(3,4) by (simp add: binary_wf_def)
  from run_select_leaves [OF ws(2) this assms(5) s, of c'] obtain v c1 where
    v: "runs (select_leaves be ws (bt_leaves tree)) c' v c1"
    "reads ValueOpaque v (scalar_domain s) (scalar_number s)" by blast
  have "runs (run_levels level D one) c ws c'" using ws(1) by (auto simp: run_levels_def runs_iff)
  moreover have "runs (finish_evaluation be tree ws) c' v (c1\<lparr>oc_final_live_states := int (length ws)\<rparr>)"
    using v kind_reads [OF v(2)] by (auto simp: finish_evaluation_def runs_iff reject_if_ok)
  ultimately show ?thesis using v(2) by blast
qed

theorem evaluators_correct:
  assumes "validate_inputs (Some be) tree vs one p = Inr ()" and "selects one True"
    and "one_kind k (bt_splits tree) xs" and "list_all2 (carries p) xs vs"
    and "leaves_ok l (bt_leaves tree)"
  shows "\<exists>leaf s v w c d. binary_evaluate tree xs = Inr leaf \<and> public_scalar_from_ordered leaf = Inr s \<and>
    evaluate_obo (Some be) tree vs one p = (Inr v, c) \<and>
    evaluate_full_level (Some be) tree vs one p = (Inr w, d) \<and>
    reads ValueOpaque v (scalar_domain s) (scalar_number s) \<and>
    reads ValueOpaque w (scalar_domain s) (scalar_number s)"
proof -
  define D where "D = nat (bt_depth tree)"
  have pol: "policy_validate p = Inr ()" using assms(1) by (auto simp: validate_inputs_def ok_iff)
  note rng = validate_inputs_range [OF assms(1)]
  have prep: "prepared p k tree xs vs"
    using assms pol rng validate_inputs_thresholds [OF assms(1)] by (simp add: prepared_def)
  have wf: "binary_wf tree" using rng by (simp add: tree_in_range_def)
  have fin: "list_all finite_scalar xs"
    using assms(4) public_scalar_from_ordered_ok(3)
    by (fastforce simp: list_all2_conv_all_nth list_all_iff_nth carries_def)
  have "list_all (\<lambda>s. 0 \<le> bs_feature s \<and> bs_feature s < int (length xs)) (bt_splits tree)"
    using rng list_all2_lengthD [OF assms(4)] by (simp add: tree_in_range_def)
  note ev = binary_evaluate_walk [OF wf fin this, folded D_def]
  have "heap_walk (bt_splits tree) xs D < length (bt_leaves tree)"
    using wf heap_walk_less by (simp add: binary_wf_def D_def)
  then obtain s where s: "public_scalar_from_ordered (bt_leaves tree ! heap_walk (bt_splits tree) xs D) = Inr s"
    using assms(5) by (auto simp: leaves_ok_def list_all_iff_nth is_ok_iff)
  have obo: "\<exists>ws c' v c''. runs (run_levels (obo_level be tree vs p) D one) zero_counts ws c' \<and>
      runs (finish_evaluation be tree ws) c' v c'' \<and> reads ValueOpaque v (scalar_domain s) (scalar_number s)"
    by (rule run_evaluation [OF _ assms(2) D_def wf assms(5) s], rule run_obo_level [OF prep])
      (simp_all only: D_def)
  have full: "\<exists>ws c' v c''. runs (run_levels (full_level be tree vs p) D one) zero_counts ws c' \<and>
      runs (finish_evaluation be tree ws) c' v c'' \<and> reads ValueOpaque v (scalar_domain s) (scalar_number s)"
    by (rule run_evaluation [OF _ assms(2) D_def wf assms(5) s], rule run_full_level [OF prep])
      (simp_all only: D_def)
  obtain v c where "evaluate_obo (Some be) tree vs one p = (Inr v, c)"
    "reads ValueOpaque v (scalar_domain s) (scalar_number s)"
    using obo assms(1) unfolding evaluate_obo_runs D_def by blast
  moreover obtain w d where "evaluate_full_level (Some be) tree vs one p = (Inr w, d)"
    "reads ValueOpaque w (scalar_domain s) (scalar_number s)"
    using full assms(1) unfolding evaluate_full_level_runs D_def by blast
  ultimately show ?thesis using ev s by blast
qed

end

end
