(* ===== verification/TreeEvalPlain.thy ===== *)
theory TreeEvalPlain
  imports TreeEvalCorrect
begin

text \<open>
  The plaintext backend satisfies the contract of the evaluators: the interpretation of the
  backend locale on \<^verbatim>\<open>PlainBackend\<close> of \<^verbatim>\<open>integer/treeeval/plain.go\<close>, and the properties that
  follow for the evaluators run on it.
\<close>

definition plain_backend :: "(plain_value, plain_error) backend" where
  "plain_backend = \<lparr>
     be_public_constant = plain_public_constant,
     be_kind = plain_kind,
     be_add = plain_add,
     be_sub = plain_sub,
     be_mul = plain_mul,
     be_compare_ge = plain_compare_ge\<rparr>"

lemma plain_backend_simps [simp]:
  "be_public_constant plain_backend = plain_public_constant"
  "be_kind plain_backend = plain_kind"
  "be_add plain_backend = plain_add"
  "be_sub plain_backend = plain_sub"
  "be_mul plain_backend = plain_mul"
  "be_compare_ge plain_backend = plain_compare_ge"
  by (simp_all add: plain_backend_def)

definition plain_reads :: "value_kind \<Rightarrow> plain_value \<Rightarrow> string \<times> int \<Rightarrow> int \<Rightarrow> bool" where
  "plain_reads k v d n \<longleftrightarrow> plain_ok v \<and> pv_provenance v = k \<and>
     scalar_domain (pv_exact v) = d \<and> scalar_number (pv_exact v) = n"

definition plain_selects :: "plain_value \<Rightarrow> bool \<Rightarrow> bool" where
  "plain_selects w a \<longleftrightarrow> plain_ok w \<and> pv_provenance w = ValueOpaque \<and>
     pv_exact w = bare_real (if a then f64_one else 0)"

section \<open>Selector arithmetic of the plaintext backend\<close>

lemma plain_reads_value:
  "scalar_validate s = Inr () \<Longrightarrow> provenance_ok k \<Longrightarrow>
     plain_reads k (plain_value_of s k) (scalar_domain s) (scalar_number s)"
  by (simp add: plain_reads_def plain_value_ok)

lemma plain_okD:
  "plain_ok v \<Longrightarrow> scalar_validate (pv_exact v) = Inr ()"
  "plain_ok v \<Longrightarrow> provenance_ok (pv_provenance v)"
  by (simp_all add: plain_ok_def)

lemma validated_pair [simp]:
  "plain_ok l \<Longrightarrow> plain_ok r \<Longrightarrow> and_then (validate_plain [l, r]) f = f ()"
  using validate_plain_ok [of "[l, r]" "()"] by simp

lemma bare_real_simps [simp]:
  "ps_kind (bare_real x) = ScalarReal" "ps_real (bare_real x) = x"
  "ps_bit_width (bare_real x) = 0" "ps_bits (bare_real x) = 0"
  by (simp_all add: bare_real_def)

lemma real_result_reads:
  assumes "f64_finite x" and "result_provenance l r = k"
  shows "\<exists>v. plain_real_result x l r = Inr v \<and>
    plain_reads k v (ScalarReal, 0) (f64_val x) \<and> pv_exact v = bare_real x"
proof -
  have "scalar_number (bare_real x) = f64_val x"
    by (simp add: scalar_number_def f64_val_def)
  moreover have "provenance_ok k" using assms(2) result_provenance_ok by blast
  ultimately show ?thesis
    using assms bare_real_valid [OF assms(1)] plain_reads_value [of "bare_real x" k]
    by (simp add: plain_real_result_ok scalar_domain_def)
qed

lemma scalar_number_bits:
  assumes "integer_kind k" and "width_ok w" and "uint b < 2 ^ nat w"
  shows "integer_ok k \<lparr>ps_kind = k, ps_real = 0, ps_bits = b, ps_bit_width = w\<rparr>"
    and "integer_ok k s \<Longrightarrow> ps_bit_width s = w \<Longrightarrow> ps_bits s = b \<Longrightarrow>
      scalar_number \<lparr>ps_kind = k, ps_real = 0, ps_bits = b, ps_bit_width = w\<rparr> = scalar_number s"
proof -
  define t where "t = \<lparr>ps_kind = k, ps_real = 0, ps_bits = b, ps_bit_width = w\<rparr>"
  show t: "integer_ok k \<lparr>ps_kind = k, ps_real = 0, ps_bits = b, ps_bit_width = w\<rparr>"
    using assms by (simp add: integer_ok_def)
  assume "integer_ok k s" "ps_bit_width s = w" "ps_bits s = b"
  with t assms(1) show "scalar_number \<lparr>ps_kind = k, ps_real = 0, ps_bits = b, ps_bit_width = w\<rparr> = scalar_number s"
    unfolding t_def [symmetric]
    by (auto simp: integer_kind_def scalar_number_unsigned scalar_number_signed) (simp_all add: t_def)
qed

lemma scalar_number_no_bits:
  assumes "integer_kind k" and "width_ok w"
  shows "scalar_number \<lparr>ps_kind = k, ps_real = 0, ps_bits = 0, ps_bit_width = w\<rparr> = 0"
proof -
  define t where "t = \<lparr>ps_kind = k, ps_real = 0, ps_bits = 0 :: 64 word, ps_bit_width = w\<rparr>"
  have "integer_ok k t" using scalar_number_bits(1) [OF assms, of 0] by (simp add: t_def)
  then show ?thesis using assms(1) unfolding t_def [symmetric]
    by (auto simp: integer_kind_def scalar_number_unsigned scalar_number_signed) (simp_all add: t_def)
qed

text \<open>An integer result whose bits are those of a valid scalar, or none.\<close>

lemma integer_result_reads:
  assumes "integer_ok k s" and "integer_kind k" and "result_provenance l r = ValueOpaque"
  shows "\<exists>v. plain_integer_result k (ps_bit_width s) (if a then ps_bits s else 0) l r = Inr v \<and>
    plain_reads ValueOpaque v (scalar_domain s) (if a then scalar_number s else 0)"
proof -
  define w where "w = ps_bit_width s"
  define b where "b = (if a then ps_bits s else 0)"
  have w: "width_ok w" and s: "uint (ps_bits s) < 2 ^ nat w" "ps_kind s = k"
    using assms(1) by (simp_all add: integer_ok_def w_def)
  have b: "uint b < 2 ^ nat w" using s by (simp add: b_def)
  then have tb: "take_bit (nat w) b = b"
    by (simp add: word_uint_eq_iff unsigned_take_bit_eq take_bit_int_eq_self)
  define t where "t = \<lparr>ps_kind = k, ps_real = 0, ps_bits = b, ps_bit_width = w\<rparr>"
  have t: "integer_ok k t" using scalar_number_bits(1) [OF assms(2) w b] by (simp add: t_def)
  have tv: "scalar_validate t = Inr ()" using valid_integer [OF assms(2), of t] t by (simp add: t_def)
  have n: "scalar_number t = (if a then scalar_number s else 0)"
  proof (cases a)
    case True
    then show ?thesis using scalar_number_bits(2) [OF assms(2) w b assms(1)] by (simp add: t_def b_def w_def)
  next
    case False
    then show ?thesis using scalar_number_no_bits [OF assms(2) w] by (simp add: t_def b_def)
  qed
  have "plain_integer_result k w b l r = Inr (plain_value_of t ValueOpaque)"
    using plain_integer_result_ok [OF assms(2) w, of b l r] by (simp add: tb t_def assms(3))
  moreover have "scalar_domain t = scalar_domain s" using s by (simp add: scalar_domain_def t_def w_def)
  ultimately show ?thesis
    using plain_reads_value [OF tv, of ValueOpaque] n by (simp add: w_def b_def)
qed

lemma f64_select_mul:
  assumes "f64_finite x"
  shows "f64_finite (f64_mul (if a then f64_one else 0) x)"
    and "f64_val (f64_mul (if a then f64_one else 0) x) = (if a then f64_val x else 0)"
  using assms f64_mul_one [OF assms] f64_mul_zero [OF assms] by (cases a; simp)+

lemma binary_bit_selector: "binary_bit (if a then f64_one else 0) = Some (if a then 1 else 0)"
proof -
  have one: "\<not> f64_eq f64_one 0"
  proof -
    have "f64_val f64_one \<noteq> f64_val 0" by (simp only: f64_one_val f64_zero) simp
    then show ?thesis by (simp only: f64_eq_def fp_eq_def f64_val_def simp_thms)
  qed
  have "f64_eq f64_one f64_one"
    using f64_one_finite by (simp add: f64_eq_def fp_eq_def f64_finite_def fp_finite_not_nan)
  with one show ?thesis by (simp add: binary_bit_def)
qed

lemma plain_select_law:
  assumes "plain_selects w a" and "plain_reads k v d n"
  shows "\<exists>r. plain_mul w v = Inr r \<and> plain_reads ValueOpaque r d (if a then n else 0)"
proof -
  have w: "plain_ok w" "pv_provenance w = ValueOpaque" "pv_exact w = bare_real (if a then f64_one else 0)"
    and v: "plain_ok v" "scalar_domain (pv_exact v) = d" "scalar_number (pv_exact v) = n"
    using assms by (simp_all add: plain_selects_def plain_reads_def)
  have prov: "result_provenance w v = ValueOpaque" using w by (simp add: result_provenance_def)
  from plain_okD(1) [OF v(1)] show ?thesis
  proof (cases rule: scalar_validate_cases)
    case real
    then have fin: "f64_finite (ps_real (pv_exact v))" and vx: "f64_val (ps_real (pv_exact v)) = n"
      "d = (ScalarReal, 0)"
      using v by (auto simp: real_ok_def scalar_number_def f64_val_def scalar_domain_def)
    have "plain_mul w v = plain_real_result (f64_mul (if a then f64_one else 0) (ps_real (pv_exact v))) w v"
      using w v(1) real(1) by (simp add: plain_mul_def)
    with real_result_reads [OF f64_select_mul(1) [OF fin, of a] prov] f64_select_mul(2) [OF fin, of a] vx
    show ?thesis by auto
  next
    case integer
    define s where "s = pv_exact v"
    have "plain_mul w v = plain_integer_result (ps_kind s) (ps_bit_width s) (if a then ps_bits s else 0) w v"
      using w v(1) integer(3) binary_bit_selector [of a]
      by (simp add: plain_mul_def matching_integers_def integer_and_binary_real_def s_def Let_def)
    with integer_result_reads [OF integer(2,1) prov, of a] v(2,3) show ?thesis
      by (cases a) (simp_all add: s_def)
  qed
qed

lemma plain_add_law:
  assumes "plain_reads ValueOpaque x d m" and "plain_reads ValueOpaque y d n" and "m = 0 \<or> n = 0"
  shows "\<exists>r. plain_add x y = Inr r \<and> plain_reads ValueOpaque r d (m + n)"
proof -
  have x: "plain_ok x" "pv_provenance x = ValueOpaque" "scalar_domain (pv_exact x) = d" "scalar_number (pv_exact x) = m"
    and y: "plain_ok y" "pv_provenance y = ValueOpaque" "scalar_domain (pv_exact y) = d" "scalar_number (pv_exact y) = n"
    using assms by (simp_all add: plain_reads_def)
  have prov: "result_provenance x y = ValueOpaque" using x by (simp add: result_provenance_def)
  from plain_okD(1) [OF x(1)] show ?thesis
  proof (cases rule: scalar_validate_cases)
    case real
    define a where "a = ps_real (pv_exact x)"
    define b where "b = ps_real (pv_exact y)"
    have ky: "ps_kind (pv_exact y) = ScalarReal" and d: "d = (ScalarReal, 0)"
      using x(3) y(3) real by (auto simp: scalar_domain_def real_ok_def)
    then have yr: "real_ok (pv_exact y)"
      using plain_okD(1) [OF y(1)] by (auto simp: scalar_validate_ok integer_ok_def)
    have fa: "f64_finite a" "f64_val a = m" and fb: "f64_finite b" "f64_val b = n"
      using real yr x(4) y(4)
      by (simp_all add: a_def b_def real_ok_def scalar_number_def f64_val_def)
    obtain c where c: "f64_finite c" "f64_val c = m + n"
      using fa fb assms(3) by (metis add.right_neutral add_0)
    note sum = f64_add_exact [OF fa(1) fb(1) c(1)]
    have "plain_add x y = plain_real_result (f64_add a b) x y"
      using x(1) y(1) real(1) ky by (simp add: plain_add_def a_def b_def)
    with real_result_reads [OF sum(1) prov] sum(2) fa fb c d show ?thesis by auto
  next
    case integer
    define s where "s = pv_exact x"
    define t where "t = pv_exact y"
    define k where "k = ps_kind s"
    have kind: "ps_kind t = k" "ps_bit_width t = ps_bit_width s"
      using x(3) y(3) by (auto simp: scalar_domain_def s_def t_def k_def)
    have ki: "integer_kind k" "integer_ok k s" "k \<noteq> ScalarReal"
      using integer by (simp_all add: s_def k_def)
    have t: "integer_ok k t" using valid_integer [OF ki(1) kind(1)] plain_okD(1) [OF y(1)] by (simp add: t_def)
    have kk: "k = ScalarUnsigned \<or> k = ScalarSigned" using ki(1) by (simp add: integer_kind_def)
    have add: "plain_add x y = plain_integer_result k (ps_bit_width s) (ps_bits s + ps_bits t) x y"
      using x(1) y(1) ki(3) kind by (simp add: plain_add_def matching_integers_def flip: s_def t_def k_def)
    show ?thesis
    proof (cases "m = 0")
      case True
      then have "ps_bits s = 0" using scalar_number_zero_bits [OF ki(2) kk] x(4) by (simp add: s_def)
      then show ?thesis using add integer_result_reads [OF t ki(1) prov, of True] y(3,4) True kind
        by (simp add: t_def)
    next
      case False
      then have "ps_bits t = 0" using assms(3) scalar_number_zero_bits [OF t kk] y(4) by (simp add: t_def)
      then show ?thesis using add integer_result_reads [OF ki(2,1) prov, of True] x(3,4) False assms(3)
        by (simp add: s_def)
    qed
  qed
qed

lemma plain_selects_result:
  assumes "result_provenance l r = ValueOpaque"
  shows "\<exists>v. plain_real_result (if a then f64_one else 0) l r = Inr v \<and> plain_selects v a"
proof -
  have "f64_finite (if a then f64_one else 0)" by (simp add: f64_one_finite f64_zero)
  from real_result_reads [OF this assms] show ?thesis
    by (auto simp: plain_selects_def plain_reads_def)
qed

lemma plain_selector_ops:
  assumes "plain_selects x a" and "plain_selects y b"
  shows "\<exists>r. plain_mul x y = Inr r \<and> plain_selects r (a \<and> b)"
    and "b \<longrightarrow> a \<Longrightarrow> \<exists>r. plain_sub x y = Inr r \<and> plain_selects r (a \<and> \<not> b)"
proof -
  have x: "plain_ok x" "pv_exact x = bare_real (if a then f64_one else 0)"
    and y: "plain_ok y" "pv_exact y = bare_real (if b then f64_one else 0)"
    and prov: "result_provenance x y = ValueOpaque"
    using assms by (simp_all add: plain_selects_def result_provenance_def)
  have "f64_mul (if a then f64_one else 0) (if b then f64_one else 0) = (if a \<and> b then f64_one else 0)"
    using f64_mul_one [OF f64_one_finite] f64_mul_zero [OF f64_one_finite] by simp
  then have "plain_mul x y = plain_real_result (if a \<and> b then f64_one else 0) x y"
    using x y by (simp add: plain_mul_def)
  with plain_selects_result [OF prov, of "a \<and> b"]
  show "\<exists>r. plain_mul x y = Inr r \<and> plain_selects r (a \<and> b)" by simp
  assume ba: "b \<longrightarrow> a"
  then have "f64_sub (if a then f64_one else 0) (if b then f64_one else 0) = (if a \<and> \<not> b then f64_one else 0)"
    using f64_sub_selectors by simp
  then have "plain_sub x y = plain_real_result (if a \<and> \<not> b then f64_one else 0) x y"
    using x y by (simp add: plain_sub_def)
  with plain_selects_result [OF prov, of "a \<and> \<not> b"]
  show "\<exists>r. plain_sub x y = Inr r \<and> plain_selects r (a \<and> \<not> b)" by simp
qed

lemma plain_ge_number:
  assumes "policy_validate p = Inr ()" and "scalar_validate s = Inr ()" and "scalar_validate t = Inr ()"
    and "scalar_domain s = policy_domain p" and "scalar_domain t = policy_domain p"
  shows "plain_ge p s t \<longleftrightarrow> scalar_number s \<ge> scalar_number t"
proof -
  have k: "ps_kind s = cp_kind p" "ps_kind t = cp_kind p"
    using assms(4,5) by (auto simp: scalar_domain_def policy_domain_def)
  from assms(2) show ?thesis
  proof (cases rule: scalar_validate_cases)
    case real
    then have "real_ok t" using assms(3) k by (auto simp: scalar_validate_ok integer_ok_def)
    with real k show ?thesis
      by (simp add: plain_ge_def f64_ge_def fp_ge_def scalar_number_def real_ok_def f64_finite_def
          fp_finite_not_nan)
  next
    case integer
    then have t: "integer_ok (cp_kind p) t" and s: "integer_ok (cp_kind p) s"
      using assms(3) k valid_integer [of "cp_kind p" t] by simp_all
    consider "cp_kind p = ScalarUnsigned" | "cp_kind p = ScalarSigned"
      using integer(1) k by (auto simp: integer_kind_def)
    then show ?thesis
    proof cases
      case 1
      with s t show ?thesis by (simp add: plain_ge_def scalar_number_unsigned word_le_def)
    next
      case 2
      with s t show ?thesis by (simp add: plain_ge_def signed_value_eq scalar_number_signed)
    qed
  qed
qed

lemma validate_operand_number:
  assumes "policy_validate p = Inr ()" and "scalar_validate s = Inr ()"
    and "scalar_domain s = policy_domain p" and "number_admitted p left (scalar_number s)"
  shows "validate_operand p s left = Inr ()"
proof (cases "cp_kind p = ScalarReal")
  case True
  then have "real_ok s" using assms(2,3) by (auto simp: scalar_validate_ok integer_ok_def scalar_domain_def policy_domain_def)
  then show ?thesis by (simp add: validate_operand_real [OF True assms(1)])
next
  case False
  have k: "integer_kind (cp_kind p)" by (rule policy_ranges(1) [OF assms(1) False])
  have "ps_kind s = cp_kind p" using assms(3) by (simp add: scalar_domain_def policy_domain_def)
  with k assms(2) have "integer_ok (cp_kind p) s" by (simp add: valid_integer)
  with assms(3,4) False show ?thesis
    by (simp add: validate_operand_integer [OF assms(1) False] scalar_domain_def policy_domain_def
        number_admitted_def)
qed

lemma plain_compare_law:
  assumes "policy_validate p = Inr ()"
    and "plain_reads ValueOpaque x (policy_domain p) m" and "plain_reads k y (policy_domain p) n"
    and "number_admitted p True m" and "number_admitted p False n"
  shows "\<exists>r. plain_compare_ge x y p = Inr r \<and> plain_selects r (m \<ge> n)"
proof -
  have x: "plain_ok x" "scalar_domain (pv_exact x) = policy_domain p" "scalar_number (pv_exact x) = m"
    and y: "plain_ok y" "scalar_domain (pv_exact y) = policy_domain p" "scalar_number (pv_exact y) = n"
    and prov: "result_provenance x y = ValueOpaque"
    using assms(2,3) by (simp_all add: plain_reads_def result_provenance_def)
  note vx = plain_okD(1) [OF x(1)] and vy = plain_okD(1) [OF y(1)]
  have "validate_operand p (pv_exact x) True = Inr ()" "validate_operand p (pv_exact y) False = Inr ()"
    using assms(4,5) x(3) y(3)
    by (auto intro: validate_operand_number [OF assms(1) vx x(2)] validate_operand_number [OF assms(1) vy y(2)])
  moreover have "plain_ge p (pv_exact x) (pv_exact y) \<longleftrightarrow> m \<ge> n"
    using plain_ge_number [OF assms(1) vx vy x(2) y(2)] x(3) y(3) by simp
  ultimately have "plain_compare_ge x y p = plain_real_result (if m \<ge> n then f64_one else 0) x y"
    using x(1) y(1) assms(1) by (simp add: plain_compare_ge_def)
  with plain_selects_result [OF prov, of "m \<ge> n"] show ?thesis by simp
qed

interpretation plain: selector_backend plain_backend plain_reads plain_selects
proof
  show "plain_reads k v d n \<Longrightarrow> be_kind plain_backend v = k \<and> provenance_ok k" for k v d n
    by (auto simp: plain_reads_def plain_kind_eq plain_ok_def)
  show "plain_selects w a \<Longrightarrow> be_kind plain_backend w = ValueOpaque" for w a
    by (simp add: plain_selects_def plain_kind_eq)
  show "\<exists>v. be_public_constant plain_backend s = Inr v \<and> plain_reads ValuePublic v (scalar_domain s) (scalar_number s)"
    if "scalar_validate s = Inr ()" for s
    using that plain_reads_value [OF that, of ValuePublic] by (simp add: plain_public_constant_def)
  show "\<exists>r. be_mul plain_backend w v = Inr r \<and> plain_reads ValueOpaque r d (if a then n else 0)"
    if "plain_selects w a" "plain_reads k v d n" for w a k v d n
    using plain_select_law [OF that] by simp
  show "\<exists>r. be_add plain_backend x y = Inr r \<and> plain_reads ValueOpaque r d (m + n)"
    if "plain_reads ValueOpaque x d m" "plain_reads ValueOpaque y d n" "m = 0 \<or> n = 0" for x y d m n
    using plain_add_law [OF that] by simp
  show "\<exists>r. be_mul plain_backend x y = Inr r \<and> plain_selects r (a \<and> b)"
    if "plain_selects x a" "plain_selects y b" for x y a b
    using plain_selector_ops(1) [OF that] by simp
  show "\<exists>r. be_sub plain_backend x y = Inr r \<and> plain_selects r (a \<and> \<not> b)"
    if "plain_selects x a" "plain_selects y b" "b \<longrightarrow> a" for x y a b
    using plain_selector_ops(2) [OF that] by simp
  show "\<exists>r. be_compare_ge plain_backend x y p = Inr r \<and> plain_selects r (m \<ge> n)"
    if "policy_validate p = Inr ()" "plain_reads ValueOpaque x (policy_domain p) m"
      "plain_reads k y (policy_domain p) n" "number_admitted p True m" "number_admitted p False n"
    for p x y k m n
    using plain_compare_law [OF that] by simp
qed

section \<open>A sample evaluation\<close>

text \<open>A tree of depth 2 over int8 features, with uint16 leaves, under a no-overflow policy.\<close>

definition int8 :: "int \<Rightarrow> scalar" where
  "int8 z = Num KInt8 (word_of_int z)"

definition sample_int_tree :: binary_tree where
  "sample_int_tree = \<lparr>
     bt_depth = 2,
     bt_splits = [
       \<lparr>bs_feature = 0, bs_threshold = int8 5\<rparr>,
       \<lparr>bs_feature = 1, bs_threshold = int8 (- 3)\<rparr>,
       \<lparr>bs_feature = 1, bs_threshold = int8 20\<rparr>],
     bt_leaves = map (Num KUint16) [100, 200, 300, 65535]\<rparr>"

definition signed8 :: "int \<Rightarrow> public_scalar" where
  "signed8 z = \<lparr>ps_kind = ScalarSigned, ps_real = 0, ps_bits = word_of_int z AND 255, ps_bit_width = 8\<rparr>"

definition sample_policy :: comparison_policy where
  "sample_policy = \<lparr>
     cp_kind = ScalarSigned, cp_bit_width = 8, cp_comparator = ComparatorSignedNoOverflow,
     cp_overflow = OverflowSignedDifferenceInRange,
     cp_left_range = \<lparr>ir_min = signed8 (- 60), ir_max = signed8 60\<rparr>,
     cp_right_range = \<lparr>ir_min = signed8 (- 60), ir_max = signed8 60\<rparr>\<rparr>"

definition sample_inputs :: "scalar list" where
  "sample_inputs = [int8 7, int8 (- 9)]"

definition sample_values :: "plain_value list" where
  "sample_values = [plain_value_of (signed8 7) ValueOpaque, plain_value_of (signed8 (- 9)) ValueOpaque]"

definition sample_one :: plain_value where
  "sample_one = opaque_real f64_one"

lemma signed8: "- 128 \<le> z \<Longrightarrow> z < 128 \<Longrightarrow> integer_ok ScalarSigned (signed8 z)"
    "- 128 \<le> z \<Longrightarrow> z < 128 \<Longrightarrow> scalar_number (signed8 z) = z"
  using signed_scalar_number [of 8 z "signed8 z"]
  by (simp_all add: signed8_def bit_mask_def width_ok_def)

lemma signed8_width [simp]: "ps_bit_width (signed8 z) = 8" "ps_kind (signed8 z) = ScalarSigned"
  by (simp_all add: signed8_def)

lemma int8_scalar: "- 128 \<le> z \<Longrightarrow> z < 128 \<Longrightarrow> public_scalar_from_ordered (int8 z) = Inr (signed8 z)"
  by (simp add: public_scalar_from_ordered_def int8_def signed_scalar_def signed8_def bit_mask_def
      sint_sbintrunc' signed_take_bit_int_eq_self)

lemma sample_policy_valid: "policy_validate sample_policy = Inr ()"
proof -
  have k: "integer_kind ScalarSigned" by (simp add: integer_kind_def)
  note b = signed8 [of "- 60"] signed8 [of 60]
  have r: "range_validate \<lparr>ir_min = signed8 (- 60), ir_max = signed8 60\<rparr> ScalarSigned 8 = Inr ()"
    using b by (simp add: range_validate_ok [OF k] range_ok_def)
  have n: "scalar_big_int (signed8 (- 60)) = - 60" "scalar_big_int (signed8 60) = 60"
    using b big_int_ok [OF k, of "signed8 60"] big_int_ok [OF k, of "signed8 (- 60)"] by simp_all
  show ?thesis
    by (simp add: policy_validate_def sample_policy_def r n Let_def)
qed

lemma sample_policy_admits:
  assumes "- 60 \<le> z" and "z \<le> 60"
  shows "validate_operand sample_policy (signed8 z) left = Inr ()"
proof -
  have k: "cp_kind sample_policy \<noteq> ScalarReal" by (simp add: sample_policy_def)
  show ?thesis
    using assms signed8 [of z] signed8 [of 60] signed8 [of "- 60"]
    unfolding validate_operand_integer [OF sample_policy_valid k]
    by (simp add: sample_policy_def admits_def)
qed

lemma plain_ok_signed8: "- 128 \<le> z \<Longrightarrow> z < 128 \<Longrightarrow> plain_ok (plain_value_of (signed8 z) ValueOpaque)"
  using signed8(1) [of z] by (intro plain_value_ok) (simp_all add: scalar_validate_ok)

lemma sample_tree_valid: "binary_validate sample_int_tree = Inr ()"
  by (simp add: binary_validate_ok binary_wf_def sample_int_tree_def split_ok_def finite_scalar_def int8_def)

lemma sample_one_ok: "plain_ok sample_one" "pv_provenance sample_one = ValueOpaque"
    "pv_exact sample_one = bare_real f64_one"
  using bare_real_valid [OF f64_one_finite]
  by (simp_all add: plain_ok_def sample_one_def opaque_real_def)

lemma sample_validated:
  "validate_inputs (Some plain_backend) sample_int_tree sample_values sample_one sample_policy = Inr ()"
proof -
  have t: "exact_public_scalar (int8 5) = Inr (signed8 5)"
    "exact_public_scalar (int8 (- 3)) = Inr (signed8 (- 3))"
    "exact_public_scalar (int8 20) = Inr (signed8 20)"
    by (simp_all add: exact_public_scalar_def int8_scalar)
  show ?thesis
    using sample_tree_valid sample_one_ok plain_ok_signed8 [of 7] plain_ok_signed8 [of "- 9"]
    by (simp add: validate_inputs_def sample_policy_valid plain_kind_eq sample_values_def)
       (simp add: sample_int_tree_def t sample_policy_admits)
qed

text \<open>A plain value that carries a feature: the exact scalar of the feature, opaque and admitted.\<close>

definition plain_carries :: "comparison_policy \<Rightarrow> scalar \<Rightarrow> plain_value \<Rightarrow> bool" where
  "plain_carries p x v \<longleftrightarrow> plain_ok v \<and> pv_provenance v = ValueOpaque \<and>
     public_scalar_from_ordered x = Inr (pv_exact v) \<and> validate_operand p (pv_exact v) True = Inr ()"

lemma plain_carries: "plain_carries p x v \<Longrightarrow> plain.carries p x v"
  by (auto simp: plain_carries_def plain.carries_def plain_reads_def)

lemma plain_evaluation:
  assumes "validate_inputs (Some plain_backend) tree vs one p = Inr ()"
    and "pv_exact one = bare_real f64_one"
    and "one_kind k (bt_splits tree) xs" and "list_all2 (plain_carries p) xs vs"
    and "leaves_ok l (bt_leaves tree)"
  shows "\<exists>leaf s v w c d. binary_evaluate tree xs = Inr leaf \<and> public_scalar_from_ordered leaf = Inr s \<and>
    evaluate_obo (Some plain_backend) tree vs one p = (Inr v, c) \<and>
    evaluate_full_level (Some plain_backend) tree vs one p = (Inr w, d) \<and>
    plain_reads ValueOpaque v (scalar_domain s) (scalar_number s) \<and>
    plain_reads ValueOpaque w (scalar_domain s) (scalar_number s)"
proof -
  have "be_kind plain_backend one = ValueOpaque" by (rule validate_inputs_kinds(1) [OF assms(1)])
  then have "plain_selects one True"
    using assms(2) by (simp add: plain_selects_def plain_kind_eq split: if_splits)
  moreover have "list_all2 (plain.carries p) xs vs"
    using assms(4) plain_carries by (rule list_all2_mono)
  ultimately show ?thesis using plain.evaluators_correct [OF assms(1)] assms(3,5) by blast
qed

lemma sample_side_conditions:
  "one_kind KInt8 (bt_splits sample_int_tree) sample_inputs"
  "list_all2 (plain_carries sample_policy) sample_inputs sample_values"
  "leaves_ok KUint16 (bt_leaves sample_int_tree)"
proof -
  show "one_kind KInt8 (bt_splits sample_int_tree) sample_inputs"
    by (simp add: one_kind_def sample_int_tree_def sample_inputs_def int8_def)
  show "list_all2 (plain_carries sample_policy) sample_inputs sample_values"
    by (simp add: sample_inputs_def sample_values_def plain_carries_def plain_ok_signed8 int8_scalar
        sample_policy_admits)
  show "leaves_ok KUint16 (bt_leaves sample_int_tree)"
    by (simp add: leaves_ok_def sample_int_tree_def public_scalar_from_ordered_def unsigned_scalar_def
        bit_mask_def)
qed

lemma sample_runs:
  "\<exists>v w c d. evaluate_obo (Some plain_backend) sample_int_tree sample_values sample_one sample_policy = (Inr v, c) \<and>
    evaluate_full_level (Some plain_backend) sample_int_tree sample_values sample_one sample_policy = (Inr w, d)"
  using plain_evaluation [OF sample_validated sample_one_ok(3) sample_side_conditions] by blast

lemma plain_backend_safe: "backend_safe plain_backend"
proof -
  have i: "safe (plain_integer_result k w b l r)" "safe (plain_real_result x l r)" for k w b l r x
    by (auto simp: plain_integer_result_def plain_real_result_def Let_def safe_signed_scalar intro!: safe_intro)
  have v: "safe (validate_plain vs)" for vs
    by (auto simp: validate_plain_def intro!: safe_intro)
  show ?thesis
    by (auto simp: backend_safe_def plain_public_constant_def plain_add_def plain_sub_def plain_mul_def
        plain_compare_ge_def Let_def i v split: option.splits intro!: safe_intro)
qed

section \<open>Properties\<close>

text \<open>C2.
  On the plaintext backend both oblivious evaluators always return, and what they return is the
  decision tree's prediction: for a validated tree, a public initial weight 1 that is opaque, and
  opaque features that carry the plaintext features exactly and lie in the policy's range, the
  opaque results of \<^verbatim>\<open>EvaluateOBO\<close> and of \<^verbatim>\<open>EvaluateFullLevel\<close> have the numeric domain and
  the exact number of the leaf that \<^verbatim>\<open>BinaryTree.Evaluate\<close> reaches on the plaintext features.
\<close>

theorem plain_evaluators_correct:
  assumes "validate_inputs (Some plain_backend) tree vs one p = Inr ()"
    and "pv_exact one = bare_real f64_one"
    and "one_kind k (bt_splits tree) xs" and "list_all2 (plain_carries p) xs vs"
    and "leaves_ok l (bt_leaves tree)"
  shows "\<exists>leaf s v w c d. binary_evaluate tree xs = Inr leaf \<and> public_scalar_from_ordered leaf = Inr s \<and>
    evaluate_obo (Some plain_backend) tree vs one p = (Inr v, c) \<and>
    evaluate_full_level (Some plain_backend) tree vs one p = (Inr w, d) \<and>
    plain_kind v = ValueOpaque \<and> plain_kind w = ValueOpaque \<and>
    scalar_domain (pv_exact v) = scalar_domain s \<and> scalar_number (pv_exact v) = scalar_number s \<and>
    scalar_domain (pv_exact w) = scalar_domain s \<and> scalar_number (pv_exact w) = scalar_number s"
proof -
  from plain_evaluation [OF assms] obtain leaf s v w c d where
    "binary_evaluate tree xs = Inr leaf" "public_scalar_from_ordered leaf = Inr s"
    "evaluate_obo (Some plain_backend) tree vs one p = (Inr v, c)"
    "evaluate_full_level (Some plain_backend) tree vs one p = (Inr w, d)"
    "plain_reads ValueOpaque v (scalar_domain s) (scalar_number s)"
    "plain_reads ValueOpaque w (scalar_domain s) (scalar_number s)" by blast
  then show ?thesis by (auto simp: plain_reads_def plain_kind_eq)
qed

theorem plain_evaluators_correct_witness:
  "validate_inputs (Some plain_backend) sample_int_tree sample_values sample_one sample_policy = Inr () \<and>
   (\<exists>leaf s v w c d. binary_evaluate sample_int_tree sample_inputs = Inr leaf \<and>
     public_scalar_from_ordered leaf = Inr s \<and>
     evaluate_obo (Some plain_backend) sample_int_tree sample_values sample_one sample_policy = (Inr v, c) \<and>
     evaluate_full_level (Some plain_backend) sample_int_tree sample_values sample_one sample_policy = (Inr w, d) \<and>
     scalar_number (pv_exact v) = scalar_number s \<and> scalar_number (pv_exact w) = scalar_number s)"
  using sample_validated
    plain_evaluators_correct [OF sample_validated sample_one_ok(3) sample_side_conditions]
  by blast

text \<open>C4.
  The operation counts are exact and do not depend on the data, on the model or on the backend:
  whenever \<^verbatim>\<open>EvaluateOBO\<close> returns a value on a tree of depth D with L = 2^D leaves, it has
  issued 2L - 1 constants, 2(L - 1) CT-CT and 2L - 1 CT-public multiplications, 3L - 3 - 2D
  additions, L - 1 subtractions and D comparisons, all CT-CT, 10L - 8 - D calls in all, and its
  peaks are L path states and one comparison state; \<^verbatim>\<open>EvaluateFullLevel\<close> issues 7L - 5 calls, of
  which L - 1 are CT-public comparisons. Both results are opaque.
\<close>

theorem evaluator_counts_exact:
  "let L = 2 ^ nat (bt_depth tree); D = int (nat (bt_depth tree)) in
    (evaluate_obo (Some be) tree vs one p = (Inr v, c) \<longrightarrow>
      be_kind be v = ValueOpaque \<and>
      oc_public_constants c = 2 * L - 1 \<and> oc_ctct_multiplications c = 2 * (L - 1) \<and>
      oc_ctpublic_multiplications c = 2 * L - 1 \<and> oc_publicpublic_multiplications c = 0 \<and>
      oc_additions c = 3 * L - 3 - 2 * D \<and> oc_subtractions c = L - 1 \<and>
      oc_comparisons c = D \<and> oc_ctct_comparisons c = D \<and> oc_ctpublic_comparisons c = 0 \<and>
      total_backend_calls c = 10 * L - 8 - D \<and> oc_peak_live_path_states c = L \<and>
      oc_peak_live_comparison_states c = min D 1 \<and> oc_peak_live_states c = L \<and> oc_final_live_states c = L) \<and>
    (evaluate_full_level (Some be) tree vs one p = (Inr w, d) \<longrightarrow>
      be_kind be w = ValueOpaque \<and>
      oc_ctct_multiplications d = L - 1 \<and> oc_ctpublic_multiplications d = L \<and>
      oc_comparisons d = L - 1 \<and> oc_ctct_comparisons d = 0 \<and> oc_ctpublic_comparisons d = L - 1 \<and>
      total_backend_calls d = 7 * L - 5 \<and> oc_final_live_states d = L)"
proof -
  have "be_kind be v = ValueOpaque \<and> c = obo_counts (nat (bt_depth tree))"
    if "evaluate_obo (Some be) tree vs one p = (Inr v, c)"
    using that by (rule evaluate_obo_counts)
  moreover have "be_kind be w = ValueOpaque \<and> d = full_counts (nat (bt_depth tree))"
    if "evaluate_full_level (Some be) tree vs one p = (Inr w, d)"
    using that by (rule evaluate_full_level_counts)
  ultimately show ?thesis
    unfolding Let_def
    by (intro conjI impI)
      (simp_all add: Let_def obo_counts_def full_counts_def with_leaf_counts_def obo_level_counts_def
        full_level_counts_def charge_def zero_counts_def total_backend_calls_def)
qed

theorem evaluator_counts_exact_witness:
  "\<exists>v w c d. evaluate_obo (Some plain_backend) sample_int_tree sample_values sample_one sample_policy = (Inr v, c) \<and>
     evaluate_full_level (Some plain_backend) sample_int_tree sample_values sample_one sample_policy = (Inr w, d) \<and>
     total_backend_calls c = 30 \<and> total_backend_calls d = 23 \<and> oc_ctct_comparisons c = 2"
proof -
  obtain v w c d where
    o: "evaluate_obo (Some plain_backend) sample_int_tree sample_values sample_one sample_policy = (Inr v, c)"
    and f: "evaluate_full_level (Some plain_backend) sample_int_tree sample_values sample_one sample_policy = (Inr w, d)"
    using sample_runs by blast
  have "nat (bt_depth sample_int_tree) = 2" by (simp add: sample_int_tree_def)
  with evaluator_counts_exact [of sample_int_tree plain_backend sample_values sample_one sample_policy v c w d] o f
  have "total_backend_calls c = 30 \<and> total_backend_calls d = 23 \<and> oc_ctct_comparisons c = 2"
    by (simp add: Let_def)
  with o f show ?thesis by blast
qed

theorem evaluators_never_panic_witness:
  "backend_safe plain_backend \<and>
   safe (fst (evaluate_obo (Some plain_backend) sample_int_tree [] sample_one sample_policy)) \<and>
   safe (fst (evaluate_full_level (Some plain_backend) sample_int_tree [] sample_one sample_policy))"
  using plain_backend_safe evaluators_never_panic [of "Some plain_backend" sample_int_tree "[]"] by simp

lemma real_result_typed:
  "plain_real_result x l r = Inr v \<Longrightarrow> plain_ok v \<and> pv_provenance v = result_provenance l r"
  by (auto simp: plain_real_result_ok intro!: plain_value_ok bare_real_valid)

lemma integer_result_typed:
  "plain_integer_result k w b l r = Inr v \<Longrightarrow> plain_ok v \<and> pv_provenance v = result_provenance l r"
  by (auto simp: plain_integer_result_def Let_def and_then_ok map_err_ok intro!: plain_value_ok)

lemma joined_result:
  "plain_ok l \<Longrightarrow> plain_ok r \<Longrightarrow> result_provenance l r = joined_kind (plain_kind l) (plain_kind r)"
  by (simp add: result_provenance_def joined_kind_def plain_kind_eq)

text \<open>C31.
  The provenance typing of the plaintext backend: when an addition, subtraction, multiplication or
  comparison returns a value, both operands were valid, the result is valid (its exact scalar
  passes \<^verbatim>\<open>Validate\<close> and its real view agrees with it), and its kind is the join of the kinds of
  the operands, opaque as soon as one operand is. So the engine's provenance check never rejects
  a result of this backend.
\<close>

theorem plain_operations_typed:
  assumes "plain_add l r = Inr v \<or> plain_sub l r = Inr v \<or> plain_mul l r = Inr v \<or>
    plain_compare_ge l r p = Inr v"
  shows "validate_plain [l, r] = Inr () \<and> validate_plain [v] = Inr () \<and>
    plain_kind v = joined_kind (plain_kind l) (plain_kind r)"
proof -
  have ops: "plain_ok l \<and> plain_ok r \<and> ((\<exists>x. plain_real_result x l r = Inr v) \<or>
      (\<exists>k w b. plain_integer_result k w b l r = Inr v))"
    using assms
    by (auto simp: plain_add_def plain_sub_def plain_mul_def plain_compare_ge_def Let_def and_then_ok
        validate_plain_ok split: if_splits option.splits)
  then have "plain_ok v \<and> pv_provenance v = result_provenance l r"
    using real_result_typed integer_result_typed by blast
  with ops show ?thesis using joined_result [of l r]
    by (simp add: validate_plain_ok) (simp add: plain_kind_eq)
qed

theorem plain_operations_typed_witness:
  "\<exists>v. plain_mul sample_one (plain_value_of (signed8 7) ValuePublic) = Inr v \<and> plain_kind v = ValueOpaque"
proof -
  have "plain_selects sample_one True" using sample_one_ok by (simp add: plain_selects_def)
  moreover have "plain_reads ValuePublic (plain_value_of (signed8 7) ValuePublic) (scalar_domain (signed8 7)) 7"
    using plain_reads_value [of "signed8 7" ValuePublic] signed8 [of 7] by (simp add: scalar_validate_ok)
  ultimately obtain v where v: "plain_mul sample_one (plain_value_of (signed8 7) ValuePublic) = Inr v"
    using plain_select_law by blast
  moreover have "plain_kind sample_one = ValueOpaque" using sample_one_ok by (simp add: plain_kind_eq)
  ultimately show ?thesis using plain_operations_typed [of sample_one "plain_value_of (signed8 7) ValuePublic" v] by simp
qed

text \<open>C22.
  Integer arithmetic of the plaintext backend is arithmetic modulo 2^w: on two valid integers of
  one kind and one width w, addition, subtraction and multiplication never fail, stay in that
  kind and width, and their bits are the sum, difference and product of the bits modulo 2^w.
\<close>

theorem plain_integer_arithmetic:
  assumes "validate_plain [l, r] = Inr ()" and "ps_kind (pv_exact l) \<noteq> ScalarReal"
    and "scalar_domain (pv_exact l) = scalar_domain (pv_exact r)"
  defines "w \<equiv> nat (ps_bit_width (pv_exact l))"
  shows "\<exists>a s m. plain_add l r = Inr a \<and> plain_sub l r = Inr s \<and> plain_mul l r = Inr m \<and>
    scalar_domain (pv_exact a) = scalar_domain (pv_exact l) \<and>
    scalar_domain (pv_exact s) = scalar_domain (pv_exact l) \<and>
    scalar_domain (pv_exact m) = scalar_domain (pv_exact l) \<and>
    uint (ps_bits (pv_exact a)) = (uint (ps_bits (pv_exact l)) + uint (ps_bits (pv_exact r))) mod 2 ^ w \<and>
    uint (ps_bits (pv_exact s)) = (uint (ps_bits (pv_exact l)) - uint (ps_bits (pv_exact r))) mod 2 ^ w \<and>
    uint (ps_bits (pv_exact m)) = uint (ps_bits (pv_exact l)) * uint (ps_bits (pv_exact r)) mod 2 ^ w"
proof -
  have ok: "plain_ok l" "plain_ok r" using assms(1) by (simp_all add: validate_plain_ok)
  define k where "k = ps_kind (pv_exact l)"
  define n where "n = ps_bit_width (pv_exact l)"
  have match: "matching_integers (pv_exact l) (pv_exact r)"
    using assms(2,3) by (simp add: matching_integers_def scalar_domain_def)
  from plain_okD(1) [OF ok(1)] have ki: "integer_kind k" "width_ok n"
    using assms(2) by (auto simp: k_def n_def integer_ok_def elim!: scalar_validate_cases)
  then have "w \<le> 64" by (auto simp: assms(4) n_def width_ok_def)
  then have min: "min w 64 = w" by simp
  define res where "res b = plain_value_of \<lparr>ps_kind = k, ps_real = 0, ps_bits = take_bit w b, ps_bit_width = n\<rparr>
      (result_provenance l r)" for b
  have r: "plain_integer_result k n b l r = Inr (res b)" for b
    using plain_integer_result_ok [OF ki, of b l r] by (simp add: res_def assms(4) n_def)
  have ops: "plain_add l r = Inr (res (ps_bits (pv_exact l) + ps_bits (pv_exact r)))"
    "plain_sub l r = Inr (res (ps_bits (pv_exact l) - ps_bits (pv_exact r)))"
    "plain_mul l r = Inr (res (ps_bits (pv_exact l) * ps_bits (pv_exact r)))"
    using ok assms(2) match r
    by (simp_all add: plain_add_def plain_sub_def plain_mul_def Let_def k_def n_def)
  have bits: "uint (take_bit w (a + b)) = (uint a + uint b) mod 2 ^ w"
    "uint (take_bit w (a - b)) = (uint a - uint b) mod 2 ^ w"
    "uint (take_bit w (a * b)) = uint a * uint b mod 2 ^ w" for a b :: "64 word"
    using min by (simp_all add: unsigned_take_bit_eq uint_word_arith_bintrs take_bit_eq_mod [symmetric])
  show ?thesis
    using ops bits
    by (intro exI [of _ "res (ps_bits (pv_exact l) + ps_bits (pv_exact r))"]
        exI [of _ "res (ps_bits (pv_exact l) - ps_bits (pv_exact r))"]
        exI [of _ "res (ps_bits (pv_exact l) * ps_bits (pv_exact r))"])
      (simp add: res_def scalar_domain_def k_def n_def)
qed

theorem plain_integer_arithmetic_witness:
  "\<exists>v. plain_add (plain_value_of (signed8 100) ValuePublic) (plain_value_of (signed8 100) ValueOpaque) = Inr v \<and>
     uint (ps_bits (pv_exact v)) = 200"
proof -
  have ok: "plain_ok (plain_value_of (signed8 100) k)" if "provenance_ok k" for k
    using signed8 [of 100] that by (intro plain_value_ok) (simp_all add: scalar_validate_ok)
  have "validate_plain [plain_value_of (signed8 100) ValuePublic, plain_value_of (signed8 100) ValueOpaque] = Inr ()"
    using ok by (simp add: validate_plain_ok)
  from plain_integer_arithmetic [OF this] show ?thesis
    by (auto simp: signed8_def)
qed

theorem no_overflow_policy_sound_witness:
  "policy_validate sample_policy = Inr () \<and> validate_operand sample_policy (signed8 (- 60)) True = Inr () \<and>
   validate_operand sample_policy (signed8 60) False = Inr () \<and>
   signed_value (scalar_difference (signed8 (- 60)) (signed8 60)) = Some (- 120)"
proof -
  have "signed_value (scalar_difference (signed8 (- 60)) (signed8 60)) = Some (- 120)"
    using no_overflow_policy_sound [OF sample_policy_valid _ _ sample_policy_admits [of "- 60"] sample_policy_admits [of 60]]
      signed8(2) [of 60] signed8(2) [of "- 60"]
    by (simp add: sample_policy_def)
  then show ?thesis by (simp add: sample_policy_valid sample_policy_admits)
qed

end
