(* ===== verification/TreeCompile.thy ===== *)
theory TreeCompile
  imports BinaryTree FloatExact
begin

text \<open>
  The adapter from parsed XGBoost arenas to complete binary trees: \<^verbatim>\<open>integer/treecompile/compile.go\<close>
  on the records of \<^verbatim>\<open>treeio/parser.go\<close>. A raw tree is a set of parallel slices; the analysis
  checks that they form one tree, and the compiler pads it to a complete tree in heap order.
  int32 entries are integers, a child of \<^verbatim>\<open>-1\<close> marks a leaf.
\<close>

section \<open>Raw trees\<close>

record raw_tree =
  raw_left :: "int list"
  raw_right :: "int list"
  raw_split_index :: "int list"
  raw_split_cond :: "32 word list"
  raw_default_left :: "bool list"
  raw_split_type :: "8 word list"

record raw_model =
  rm_base_score :: "64 word"
  rm_num_feature :: int
  rm_num_output_group :: int
  rm_tree_info :: "int list"
  rm_trees :: "raw_tree list"

record raw_input =
  ri_n :: int
  ri_f :: int
  ri_x :: "32 word list"

datatype tree_error =
  NegativeFeatureCount int
| NoRoot
| SliceLength string nat nat
| ErrCategoricalSplit nat
| ErrDefaultLeft nat
| NonFiniteNode nat
| OneSidedChildren nat int int
| FeatureOutOfRange nat int int
| ChildOutOfRange nat int nat
| RootHasParents int
| ParentCount nat int
| CycleReachesNode int
| NodeUnreachable nat
| TooDeep int
| TargetTooShallow int int
| TargetTooDeep int
| PaddingNeedsFeature
| CompiledInvariant binary_error

definition max_materialized_depth :: int where
  "max_materialized_depth = 20"

text \<open>Writing an element of a slice panics out of range.\<close>

definition set_at :: "'a list \<Rightarrow> int \<Rightarrow> 'a \<Rightarrow> ('e, 'a list) res" where
  "set_at xs i x = (if 0 \<le> i \<and> i < int (length xs) then Inr (xs[nat i := x]) else Inl Panic)"

lemma set_at_ok [ok_iff]:
  "set_at xs i x = Inr ys \<longleftrightarrow> 0 \<le> i \<and> i < int (length xs) \<and> ys = xs[nat i := x]"
  by (auto simp: set_at_def)

lemma set_at_in_range [simp]:
  "0 \<le> i \<Longrightarrow> i < int (length xs) \<Longrightarrow> set_at xs i x = Inr (xs[nat i := x])"
  by (simp add: set_at_def)

section \<open>Analysis\<close>

definition check_slice_lengths :: "raw_tree \<Rightarrow> nat \<Rightarrow> (tree_error, unit) res" where
  "check_slice_lengths raw n =
     check_each (\<lambda>_ (name, got). reject_if (got \<noteq> n) (SliceLength name got n)) 0
       [(''right children'', length (raw_right raw)),
        (''split indices'', length (raw_split_index raw)),
        (''split conditions'', length (raw_split_cond raw)),
        (''default-left flags'', length (raw_default_left raw)),
        (''split types'', length (raw_split_type raw))]"

text \<open>One iteration of the node loop; it counts the parents of the node's children.\<close>

definition count_child :: "nat \<Rightarrow> nat \<Rightarrow> int \<Rightarrow> int list \<Rightarrow> (tree_error, int list) res" where
  "count_child n i child parents =
     (if child < 0 \<or> child \<ge> int n then err (ChildOutOfRange i child n)
      else and_then (at_int parents child) (\<lambda>c. set_at parents child (c + 1)))"

definition check_node :: "raw_tree \<Rightarrow> int \<Rightarrow> nat \<Rightarrow> nat \<Rightarrow> int list \<Rightarrow> (tree_error, int list) res" where
  "check_node raw num_features n i parents =
     and_then (at (raw_split_type raw) i) (\<lambda>kind.
     if kind \<noteq> 0 then err (ErrCategoricalSplit i) else
     and_then (at (raw_default_left raw) i) (\<lambda>default_left.
     if default_left then err (ErrDefaultLeft i) else
     and_then (at (raw_split_cond raw) i) (\<lambda>cond.
     if f32_nan cond \<or> f32_inf cond then err (NonFiniteNode i) else
     and_then (at (raw_left raw) i) (\<lambda>left.
     and_then (at (raw_right raw) i) (\<lambda>right.
     if (left = - 1) \<noteq> (right = - 1) then err (OneSidedChildren i left right)
     else if left = - 1 \<and> right = - 1 then Inr parents
     else and_then (at (raw_split_index raw) i) (\<lambda>feature.
       if feature < 0 \<or> feature \<ge> num_features
         then err (FeatureOutOfRange i feature num_features)
       else and_then (count_child n i left parents) (count_child n i right)))))))"

text \<open>
  The recursive closure \<^verbatim>\<open>visit\<close>, over the colours of the nodes and the depth seen so far. The
  parent counts leave no cycle that the root reaches, so the length of the arena plus one bounds
  the recursion (\<^verbatim>\<open>analyze_terminates\<close> below).
\<close>

fun visit_raw ::
  "nat \<Rightarrow> raw_tree \<Rightarrow> int \<Rightarrow> int \<Rightarrow> 8 word list \<times> int \<Rightarrow> (tree_error, 8 word list \<times> int) res" where
  "visit_raw 0 raw index depth (state, max_depth) = Inl NoFuel"
| "visit_raw (Suc fuel) raw index depth (state, max_depth) =
     and_then (at_int state index) (\<lambda>colour.
     if colour = 1 then err (CycleReachesNode index)
     else if colour = 2 then Inr (state, max_depth)
     else and_then (set_at state index 1) (\<lambda>state.
       and_then (at_int (raw_left raw) index) (\<lambda>left.
       and_then
         (if left = - 1 then Inr (state, max depth max_depth)
          else and_then (visit_raw fuel raw left (depth + 1) (state, max_depth)) (\<lambda>s.
            and_then (at_int (raw_right raw) index) (\<lambda>right.
            visit_raw fuel raw right (depth + 1) s)))
         (\<lambda>(state, max_depth).
            and_then (set_at state index 2) (\<lambda>state. Inr (state, max_depth))))))"

declare visit_raw.simps [simp del]

definition analyze_raw_tree :: "raw_tree \<Rightarrow> int \<Rightarrow> (tree_error, int) res" where
  "analyze_raw_tree raw num_features =
     (let n = length (raw_left raw) in
      if num_features < 0 then err (NegativeFeatureCount num_features)
      else if n = 0 then err NoRoot
      else and_then (check_slice_lengths raw n) (\<lambda>_.
        and_then (fold_each (\<lambda>_ i parents. check_node raw num_features n i parents) 0 [0..<n]
          (replicate n 0)) (\<lambda>parents.
        and_then (at parents 0) (\<lambda>root.
        if root \<noteq> 0 then err (RootHasParents root) else
        and_then (check_each (\<lambda>_ i. and_then (at parents i) (\<lambda>c.
          reject_if (c \<noteq> 1) (ParentCount i c))) 0 [1..<n]) (\<lambda>_.
        and_then (visit_raw (n + 1) raw 0 0 (replicate n 0, 0)) (\<lambda>(state, max_depth).
        and_then (check_each (\<lambda>i s. reject_if (s \<noteq> 2) (NodeUnreachable i)) 0 state) (\<lambda>_.
        if max_depth > max_materialized_depth then err (TooDeep max_depth)
        else Inr max_depth)))))))"

section \<open>Compilation\<close>

fun fill_leaves :: "nat \<Rightarrow> int \<Rightarrow> scalar \<Rightarrow> scalar list \<Rightarrow> ('e, scalar list) res" where
  "fill_leaves 0 i v leaves = Inr leaves"
| "fill_leaves (Suc k) i v leaves = and_then (set_at leaves i v) (fill_leaves k (i + 1) v)"

text \<open>The closure \<^verbatim>\<open>fill\<close>: it writes the splits and the leaves of the output tree.\<close>

fun fill_raw ::
  "nat \<Rightarrow> raw_tree \<Rightarrow> int \<Rightarrow> int \<Rightarrow> int \<Rightarrow> int \<Rightarrow> int \<Rightarrow> binary_split list \<times> scalar list \<Rightarrow>
   (tree_error, binary_split list \<times> scalar list) res" where
  "fill_raw 0 raw target raw_index depth heap_index prefix out = Inl NoFuel"
| "fill_raw (Suc fuel) raw target raw_index depth heap_index prefix (splits, leaves) =
     and_then (at_int (raw_left raw) raw_index) (\<lambda>left.
     if left = - 1 then
       let remaining = target - depth;
           start = prefix * 2 ^ nat remaining
       in and_then (at_int (raw_split_cond raw) raw_index) (\<lambda>cond.
          and_then (fill_leaves (2 ^ nat remaining) start (f64_scalar (f64_of_f32 cond)) leaves)
            (\<lambda>leaves. Inr (splits, leaves)))
     else
       and_then (at_int (raw_split_index raw) raw_index) (\<lambda>feature.
       and_then (at_int (raw_split_cond raw) raw_index) (\<lambda>cond.
       and_then (set_at splits heap_index \<lparr>bs_feature = feature, bs_threshold = f32_scalar cond\<rparr>)
         (\<lambda>splits.
       and_then (fill_raw fuel raw target left (depth + 1) (2 * heap_index + 1) (2 * prefix)
         (splits, leaves)) (\<lambda>out.
       and_then (at_int (raw_right raw) raw_index) (\<lambda>right.
       fill_raw fuel raw target right (depth + 1) (2 * heap_index + 2) (2 * prefix + 1) out))))))"

declare fill_raw.simps [simp del]

definition padding_split :: binary_split where
  "padding_split = \<lparr>bs_feature = 0, bs_threshold = f32_scalar 0\<rparr>"

definition compile_tree_at_depth :: "raw_tree \<Rightarrow> int \<Rightarrow> int \<Rightarrow> (tree_error, binary_tree) res" where
  "compile_tree_at_depth raw num_features target =
     and_then (analyze_raw_tree raw num_features) (\<lambda>max_depth.
     if target < max_depth then err (TargetTooShallow target max_depth)
     else if target > max_materialized_depth then err (TargetTooDeep target)
     else if target > 0 \<and> num_features = 0 then err PaddingNeedsFeature
     else let leaf_count = 2 ^ nat target
       in and_then (fill_raw (length (raw_left raw) + 1) raw target 0 0 0 0
            (replicate (leaf_count - 1) padding_split, replicate leaf_count (f64_scalar 0)))
          (\<lambda>(splits, leaves).
            let out = \<lparr>bt_depth = target, bt_splits = splits, bt_leaves = leaves\<rparr>
            in and_then (map_err CompiledInvariant (binary_validate out)) (\<lambda>_. Inr out)))"

definition compile_tree :: "raw_tree \<Rightarrow> int \<Rightarrow> (tree_error, binary_tree) res" where
  "compile_tree raw num_features =
     and_then (analyze_raw_tree raw num_features) (compile_tree_at_depth raw num_features)"

section \<open>The tree a raw arena denotes\<close>

inductive raw_denotes :: "raw_tree \<Rightarrow> int \<Rightarrow> dtree \<Rightarrow> bool" for raw where
  raw_leaf: "0 \<le> i \<Longrightarrow> i < int (length (raw_left raw)) \<Longrightarrow> raw_left raw ! nat i = - 1 \<Longrightarrow>
     raw_denotes raw i (DLeaf (f64_scalar (f64_of_f32 (raw_split_cond raw ! nat i))))"
| raw_node: "0 \<le> i \<Longrightarrow> i < int (length (raw_left raw)) \<Longrightarrow> raw_left raw ! nat i \<noteq> - 1 \<Longrightarrow>
     raw_denotes raw (raw_left raw ! nat i) l \<Longrightarrow> raw_denotes raw (raw_right raw ! nat i) r \<Longrightarrow>
     raw_denotes raw i (DNode \<lparr>bs_feature = raw_split_index raw ! nat i,
       bs_threshold = f32_scalar (raw_split_cond raw ! nat i)\<rparr> l r)"

inductive_cases raw_denotes_leafE: "raw_denotes raw i (DLeaf v)"
inductive_cases raw_denotes_nodeE: "raw_denotes raw i (DNode s l r)"

fun dtree_height :: "dtree \<Rightarrow> nat" where
  "dtree_height (DLeaf v) = 0"
| "dtree_height (DNode s l r) = Suc (max (dtree_height l) (dtree_height r))"

lemma raw_denotes_unique: "raw_denotes raw i t \<Longrightarrow> raw_denotes raw i u \<Longrightarrow> t = u"
proof (induction arbitrary: u rule: raw_denotes.induct)
  case (raw_leaf i)
  from raw_leaf.prems raw_leaf.hyps show ?case by (cases rule: raw_denotes.cases) simp_all
next
  case (raw_node i l r)
  from raw_node.prems show ?case
  proof (cases rule: raw_denotes.cases)
    case raw_leaf
    with raw_node.hyps show ?thesis by simp
  next
    case (raw_node l' r')
    then show ?thesis using raw_node.IH(1) [of l'] raw_node.IH(2) [of r'] by simp
  qed
qed

lemma raw_denotes_range: "raw_denotes raw i t \<Longrightarrow> 0 \<le> i \<and> i < int (length (raw_left raw))"
  by (cases rule: raw_denotes.cases) simp_all

section \<open>What the node loop establishes\<close>

definition edges :: "raw_tree \<Rightarrow> nat \<Rightarrow> int list" where
  "edges raw i = (if raw_left raw ! i = - 1 then [] else [raw_left raw ! i, raw_right raw ! i])"

definition slices_ok :: "raw_tree \<Rightarrow> bool" where
  "slices_ok raw \<longleftrightarrow> (let n = length (raw_left raw) in
     length (raw_right raw) = n \<and> length (raw_split_index raw) = n \<and>
     length (raw_split_cond raw) = n \<and> length (raw_default_left raw) = n \<and>
     length (raw_split_type raw) = n)"

definition node_ok :: "raw_tree \<Rightarrow> int \<Rightarrow> nat \<Rightarrow> bool" where
  "node_ok raw num_features i \<longleftrightarrow>
     raw_split_type raw ! i = 0 \<and> \<not> raw_default_left raw ! i \<and> f32_finite (raw_split_cond raw ! i) \<and>
     ((raw_left raw ! i = - 1) = (raw_right raw ! i = - 1)) \<and>
     (raw_left raw ! i \<noteq> - 1 \<longrightarrow> 0 \<le> raw_split_index raw ! i \<and> raw_split_index raw ! i < num_features) \<and>
     (\<forall>c \<in> set (edges raw i). 0 \<le> c \<and> c < int (length (raw_left raw)))"

definition bump :: "int list \<Rightarrow> int \<Rightarrow> int list" where
  "bump ps c = ps[nat c := ps ! nat c + 1]"

lemma bump_simps [simp]: "length (bump ps c) = length ps"
  by (simp add: bump_def)

lemma bump_nth:
  "0 \<le> c \<Longrightarrow> c < int (length ps) \<Longrightarrow> j < length ps \<Longrightarrow>
     bump ps c ! j = ps ! j + (if c = int j then 1 else 0)"
  by (auto simp: bump_def nth_list_update)

lemma check_slice_lengths_ok:
  "check_slice_lengths raw (length (raw_left raw)) = Inr u \<longleftrightarrow> slices_ok raw"
  by (auto simp: check_slice_lengths_def slices_ok_def Let_def and_then_ok reject_if_ok)

lemma count_child_ok:
  "length ps = n \<Longrightarrow> count_child n i c ps = Inr qs \<longleftrightarrow> 0 \<le> c \<and> c < int n \<and> qs = bump ps c"
  by (auto simp: count_child_def and_then_ok at_int_ok set_at_ok bump_def)

lemma f32_finite_iff: "f32_finite x \<longleftrightarrow> \<not> f32_nan x \<and> \<not> f32_inf x"
  by (simp add: f32_finite_def f32_nan_def f32_inf_def fp_finite_iff)

lemma check_node_ok:
  assumes "slices_ok raw" and "i < length (raw_left raw)" and "length ps = length (raw_left raw)"
  shows "check_node raw nf (length (raw_left raw)) i ps = Inr qs \<longleftrightarrow>
    node_ok raw nf i \<and> qs = fold (\<lambda>c p. bump p c) (edges raw i) ps"
  using assms
  by (auto simp: check_node_def slices_ok_def Let_def node_ok_def edges_def and_then_ok f32_finite_iff
      count_child_ok split: if_splits)

definition parents_after :: "raw_tree \<Rightarrow> int list \<Rightarrow> nat list \<Rightarrow> int list" where
  "parents_after raw ps is = fold (\<lambda>c p. bump p c) (concat (map (edges raw) is)) ps"

lemma check_nodes_ok:
  assumes "slices_ok raw"
  shows "length ps = length (raw_left raw) \<Longrightarrow> list_all (\<lambda>i. i < length (raw_left raw)) is \<Longrightarrow>
    fold_each (\<lambda>_ i parents. check_node raw nf (length (raw_left raw)) i parents) k is ps = Inr qs \<longleftrightarrow>
    list_all (node_ok raw nf) is \<and> qs = parents_after raw ps is"
proof (induction "is" arbitrary: k ps)
  case Nil
  then show ?case by (auto simp: parents_after_def)
next
  case (Cons i rest)
  have len: "length (fold (\<lambda>c p. bump p c) cs ps) = length ps" for cs
    by (induction cs arbitrary: ps) simp_all
  have i: "i < length (raw_left raw)" and rest: "list_all (\<lambda>i. i < length (raw_left raw)) rest"
    using Cons.prems by simp_all
  have "fold_each (\<lambda>_ i parents. check_node raw nf (length (raw_left raw)) i parents) k (i # rest) ps = Inr qs \<longleftrightarrow>
      node_ok raw nf i \<and> fold_each (\<lambda>_ i parents. check_node raw nf (length (raw_left raw)) i parents)
        (Suc k) rest (fold (\<lambda>c p. bump p c) (edges raw i) ps) = Inr qs"
    by (auto simp: and_then_ok check_node_ok [OF assms i Cons.prems(1)])
  also have "\<dots> \<longleftrightarrow> list_all (node_ok raw nf) (i # rest) \<and> qs = parents_after raw ps (i # rest)"
    using Cons.IH [of "fold (\<lambda>c p. bump p c) (edges raw i) ps" "Suc k"] rest Cons.prems(1) len
    by (auto simp: parents_after_def)
  finally show ?case .
qed

lemma fold_bump_nth:
  assumes "\<forall>c \<in> set cs. 0 \<le> c \<and> c < int (length ps)" and "j < length ps"
  shows "fold (\<lambda>c p. bump p c) cs ps ! j = ps ! j + int (count_list cs (int j))"
  using assms
proof (induction cs arbitrary: ps)
  case Nil
  then show ?case by simp
next
  case (Cons c cs)
  then show ?case by (simp add: bump_nth)
qed

lemma length_parents_after [simp]: "length (parents_after raw ps is) = length ps"
proof -
  have "length (fold (\<lambda>c p. bump p c) cs qs) = length qs" for cs qs
    by (induction cs arbitrary: qs) simp_all
  then show ?thesis by (simp add: parents_after_def)
qed

text \<open>The parent counts are the in-degrees.\<close>

definition in_degree :: "raw_tree \<Rightarrow> int \<Rightarrow> nat" where
  "in_degree raw j = count_list (concat (map (edges raw) [0..<length (raw_left raw)])) j"

definition arena_ok :: "raw_tree \<Rightarrow> int \<Rightarrow> bool" where
  "arena_ok raw nf \<longleftrightarrow> raw_left raw \<noteq> [] \<and> slices_ok raw \<and>
     (\<forall>i < length (raw_left raw). node_ok raw nf i) \<and>
     in_degree raw 0 = 0 \<and> (\<forall>j. 0 < j \<longrightarrow> j < length (raw_left raw) \<longrightarrow> in_degree raw (int j) = 1)"

lemma parents_in_degree:
  assumes "\<forall>i < length (raw_left raw). node_ok raw nf i" and "j < length (raw_left raw)"
  shows "parents_after raw (replicate (length (raw_left raw)) 0) [0..<length (raw_left raw)] ! j =
    int (in_degree raw (int j))"
proof -
  have "\<forall>c \<in> set (concat (map (edges raw) [0..<length (raw_left raw)])). 0 \<le> c \<and> c < int (length (raw_left raw))"
    using assms(1) by (auto simp: node_ok_def)
  then show ?thesis
    using assms(2) fold_bump_nth [of _ "replicate (length (raw_left raw)) 0" j]
    by (simp add: parents_after_def in_degree_def)
qed

text \<open>The prefix of the analysis up to the visit succeeds exactly on such arenas.\<close>

definition visited :: "raw_tree \<Rightarrow> (tree_error, 8 word list \<times> int) res" where
  "visited raw = visit_raw (length (raw_left raw) + 1) raw 0 0 (replicate (length (raw_left raw)) 0, 0)"

lemma analyze_ok:
  "analyze_raw_tree raw nf = Inr d \<longleftrightarrow>
     0 \<le> nf \<and> arena_ok raw nf \<and>
     (\<exists>state. visited raw = Inr (state, d) \<and> list_all (\<lambda>s. s = 2) state) \<and> d \<le> max_materialized_depth"
proof -
  define n where "n = length (raw_left raw)"
  define ps where "ps = parents_after raw (replicate n 0) [0..<n]"
  have nodes: "fold_each (\<lambda>_ i parents. check_node raw nf n i parents) 0 [0..<n] (replicate n 0) = Inr qs \<longleftrightarrow>
      (\<forall>i < n. node_ok raw nf i) \<and> qs = ps" if "slices_ok raw" for qs
    using check_nodes_ok [OF that, of "replicate n 0" "[0..<n]" nf 0 qs]
    by (auto simp: n_def ps_def list_all_iff)
  have deg: "ps ! j = int (in_degree raw (int j))" if "\<forall>i < n. node_ok raw nf i" "j < n" for j
    using parents_in_degree [of raw nf j] that by (simp add: n_def ps_def)
  have len: "length ps = n" by (simp add: ps_def)
  have counts: "(\<forall>j < n - Suc 0. ps ! Suc j = 1) \<longleftrightarrow> (\<forall>j. 0 < j \<longrightarrow> j < n \<longrightarrow> ps ! j = 1)"
    by (auto simp: less_diff_conv) (metis Suc_pred' less_diff_conv add.commute plus_1_eq_Suc)
  have nil: "ps = [] \<longleftrightarrow> n = 0" using len by (metis length_0_conv)
  have "analyze_raw_tree raw nf = Inr d \<longleftrightarrow>
      0 \<le> nf \<and> n \<noteq> 0 \<and> slices_ok raw \<and> (\<forall>i < n. node_ok raw nf i) \<and> ps ! 0 = 0 \<and>
      (\<forall>j. 0 < j \<longrightarrow> j < n \<longrightarrow> ps ! j = 1) \<and>
      (\<exists>state. visited raw = Inr (state, d) \<and> list_all (\<lambda>s. s = 2) state) \<and> d \<le> max_materialized_depth"
    unfolding analyze_raw_tree_def Let_def n_def [symmetric] visited_def
    by (cases "n = 0"; cases "nf < 0"; cases "slices_ok raw")
      (auto simp: and_then_ok check_slice_lengths_ok [of raw, folded n_def] nodes at_ok counts len nil
        check_each_ok reject_if_ok list_all_iff_nth not_less split: if_splits)
  also have "\<dots> \<longleftrightarrow> 0 \<le> nf \<and> arena_ok raw nf \<and>
     (\<exists>state. visited raw = Inr (state, d) \<and> list_all (\<lambda>s. s = 2) state) \<and> d \<le> max_materialized_depth"
    using deg by (auto simp: arena_ok_def n_def)
  finally show ?thesis .
qed

section \<open>The visit\<close>

lemma visit_raw_Suc:
  "visit_raw (Suc fuel) raw index depth s =
     and_then (at_int (fst s) index) (\<lambda>colour.
     if colour = 1 then err (CycleReachesNode index)
     else if colour = 2 then Inr s
     else and_then (set_at (fst s) index 1) (\<lambda>state.
       and_then (at_int (raw_left raw) index) (\<lambda>left.
       and_then
         (if left = - 1 then Inr (state, max depth (snd s))
          else and_then (visit_raw fuel raw left (depth + 1) (state, snd s)) (\<lambda>s.
            and_then (at_int (raw_right raw) index) (\<lambda>right.
            visit_raw fuel raw right (depth + 1) s)))
         (\<lambda>(state, max_depth).
            and_then (set_at state index 2) (\<lambda>state. Inr (state, max_depth))))))"
  by (cases s) (simp only: visit_raw.simps fst_conv snd_conv)

lemma visit_raw_cases [consumes 1, case_names seen leaf node]:
  assumes "visit_raw (Suc fuel) raw index depth s = Inr s'"
  obtains
    "0 \<le> index" "index < int (length (fst s))" "fst s ! nat index = 2" "s' = s"
  | "0 \<le> index" "index < int (length (fst s))" "fst s ! nat index \<noteq> 1" "fst s ! nat index \<noteq> 2"
    "index < int (length (raw_left raw))" "raw_left raw ! nat index = - 1"
    "s' = ((fst s)[nat index := 1, nat index := 2], max depth (snd s))"
  | u t where "0 \<le> index" "index < int (length (fst s))" "fst s ! nat index \<noteq> 1" "fst s ! nat index \<noteq> 2"
    "index < int (length (raw_left raw))" "raw_left raw ! nat index \<noteq> - 1"
    "visit_raw fuel raw (raw_left raw ! nat index) (depth + 1) ((fst s)[nat index := 1], snd s) = Inr u"
    "index < int (length (raw_right raw))"
    "visit_raw fuel raw (raw_right raw ! nat index) (depth + 1) u = Inr t"
    "nat index < length (fst t)" "s' = ((fst t)[nat index := 2], snd t)"
proof -
  have range: "0 \<le> index" "index < int (length (fst s))"
    using assms by (simp_all add: visit_raw_Suc and_then_ok at_int_ok)
  note run = assms [unfolded visit_raw_Suc at_int_in_range [OF range] and_then_simps]
  show thesis
  proof (cases "fst s ! nat index = 2")
    case True
    show thesis by (rule that(1)) (use run range True in simp_all)
  next
    case seen: False
    have fresh: "fst s ! nat index \<noteq> 1" using run by (auto split: if_splits)
    note run = run [unfolded if_not_P [OF fresh] if_not_P [OF seen] set_at_in_range [OF range] and_then_simps]
    have inner: "index < int (length (raw_left raw))" using run by (simp add: and_then_ok at_int_ok)
    note run = run [unfolded at_int_in_range [OF range(1) inner] and_then_simps]
    show thesis
    proof (cases "raw_left raw ! nat index = - 1")
      case True
      show thesis
        by (rule that(2)) (use run range fresh seen inner True in \<open>simp_all add: and_then_ok set_at_ok\<close>)
    next
      case False
      obtain u t where
        "visit_raw fuel raw (raw_left raw ! nat index) (depth + 1) ((fst s)[nat index := 1], snd s) = Inr u"
        "index < int (length (raw_right raw))"
        "visit_raw fuel raw (raw_right raw ! nat index) (depth + 1) u = Inr t"
        "nat index < length (fst t)" "s' = ((fst t)[nat index := 2], snd t)"
        using run [unfolded if_not_P [OF False]] range(1)
        by (auto simp: and_then_ok at_int_ok set_at_ok)
      with range fresh seen inner False show thesis by (rule that(3))
    qed
  qed
qed

text \<open>Every nested call has one white node less, so the recursion never runs out of fuel.\<close>

definition whites :: "8 word list \<Rightarrow> nat" where
  "whites state = card {i. i < length state \<and> state ! i \<noteq> 1 \<and> state ! i \<noteq> 2}"

lemma whites_bound: "whites state \<le> length state"
proof -
  have "card {i. i < length state \<and> state ! i \<noteq> 1 \<and> state ! i \<noteq> 2} \<le> card {i. i < length state}"
    by (rule card_mono) auto
  then show ?thesis by (simp add: whites_def)
qed

lemma whites_update:
  assumes "i < length state" and "c = 1 \<or> c = 2"
  shows "whites (state[i := c]) \<le> whites state"
    and "state ! i \<noteq> 1 \<Longrightarrow> state ! i \<noteq> 2 \<Longrightarrow> whites (state[i := c]) < whites state"
proof -
  let ?W = "\<lambda>s. {i. i < length s \<and> s ! i \<noteq> (1 :: 8 word) \<and> s ! i \<noteq> 2}"
  have sub: "?W (state[i := c]) \<subseteq> ?W state"
    using assms by (auto simp: nth_list_update split: if_splits)
  then show "whites (state[i := c]) \<le> whites state"
    unfolding whites_def by (rule card_mono [rotated]) simp
  assume "state ! i \<noteq> 1" "state ! i \<noteq> 2"
  then have "i \<in> ?W state - ?W (state[i := c])" using assms by auto
  with sub have "?W (state[i := c]) \<subset> ?W state" by blast
  then show "whites (state[i := c]) < whites state"
    unfolding whites_def by (rule psubset_card_mono [rotated]) simp
qed

lemma visit_raw_whites:
  "visit_raw fuel raw index depth s = Inr s' \<Longrightarrow> length (fst s') = length (fst s) \<and> whites (fst s') \<le> whites (fst s)"
proof (induction fuel arbitrary: index depth s s')
  case 0
  then show ?case by (cases s) (simp add: visit_raw.simps)
next
  case (Suc fuel)
  have mark: "length (t[i := c]) = length (fst s) \<and> whites (t[i := c]) \<le> whites (fst s)"
    if "length t = length (fst s)" "whites t \<le> whites (fst s)" "i < length (fst s)" "c = 1 \<or> c = 2" for t i c
    using whites_update(1) [of i t c] that by auto
  from Suc.prems show ?case
  proof (cases rule: visit_raw_cases)
    case seen
    then show ?thesis by simp
  next
    case leaf
    then show ?thesis using mark [OF _ _ _ disjI1] mark [OF _ _ _ disjI2] by simp
  next
    case (node u t)
    have "nat index < length (fst s)" using node(1,2) by simp
    then show ?thesis
      using Suc.IH [OF node(7)] Suc.IH [OF node(9)] mark [of "fst s" "nat index" 1] mark [of "fst t" "nat index" 2]
      by (simp add: node(11))
  qed
qed

lemma visit_raw_fuel:
  "whites (fst s) < fuel \<Longrightarrow> visit_raw fuel raw index depth s \<noteq> Inl NoFuel"
proof (induction fuel arbitrary: index depth s)
  case 0
  then show ?case by simp
next
  case (Suc fuel)
  have nofuel: "at_int xs k \<noteq> (Inl NoFuel :: (tree_error, 'x) res)"
    "set_at xs k y \<noteq> (Inl NoFuel :: (tree_error, 'x list) res)" for xs :: "'x list" and k y
    by (simp_all add: at_int_def set_at_def)
  show ?case
  proof (cases "0 \<le> index \<and> index < int (length (fst s)) \<and> fst s ! nat index \<noteq> 1 \<and> fst s ! nat index \<noteq> 2")
    case False
    then show ?thesis by (auto simp: visit_raw_Suc at_int_def err_def)
  next
    case True
    define i where "i = nat index"
    have i: "i < length (fst s)" "fst s ! i \<noteq> 1" "fst s ! i \<noteq> 2" using True by (auto simp: i_def)
    define s1 where "s1 = (fst s)[i := 1]"
    have w1: "whites s1 < fuel" using whites_update(2) [OF i(1), of 1] i Suc.prems by (simp add: s1_def)
    have step: "visit_raw fuel raw k e (s1, m) \<noteq> Inl NoFuel" for k e m
      by (rule Suc.IH) (use w1 in simp)
    have step2: "visit_raw fuel raw k e t \<noteq> Inl NoFuel"
      if "visit_raw fuel raw k' e' (s1, m) = Inr t" for k e k' e' m t
      by (rule Suc.IH) (use w1 visit_raw_whites [OF that] in simp)
    have "fst s ! nat index \<noteq> 1" "fst s ! nat index \<noteq> 2" using True by simp_all
    with True step step2 show ?thesis
      by (auto simp: visit_raw_Suc and_then_def nofuel s1_def i_def split: sum.splits prod.splits if_splits)
  qed
qed

text \<open>Where a node lies below the root.\<close>

inductive node_depth :: "raw_tree \<Rightarrow> int \<Rightarrow> int \<Rightarrow> bool" for raw where
  depth_root: "node_depth raw 0 0"
| depth_child: "node_depth raw i d \<Longrightarrow> 0 \<le> i \<Longrightarrow> i < int (length (raw_left raw)) \<Longrightarrow>
     c \<in> set (edges raw (nat i)) \<Longrightarrow> node_depth raw c (d + 1)"

lemma count_list_concat: "count_list (concat xss) x = sum_list (map (\<lambda>xs. count_list xs x) xss)"
  by (induction xss) simp_all

lemma in_degree_sum: "in_degree raw j = (\<Sum>i<length (raw_left raw). count_list (edges raw i) j)"
  by (simp add: in_degree_def count_list_concat comp_def interv_sum_list_conv_sum_set_nat atLeast0LessThan)

lemma unique_parent:
  assumes "in_degree raw c \<le> 1" and "i < length (raw_left raw)" and "k < length (raw_left raw)"
    and "c \<in> set (edges raw i)" and "c \<in> set (edges raw k)"
  shows "i = k"
proof (rule ccontr)
  assume ne: "i \<noteq> k"
  have "count_list (edges raw i) c + count_list (edges raw k) c =
      (\<Sum>m\<in>{i, k}. count_list (edges raw m) c)" using ne by simp
  also have "\<dots> \<le> in_degree raw c"
    unfolding in_degree_sum by (rule sum_mono2) (use assms(2,3) in auto)
  finally have "count_list (edges raw i) c + count_list (edges raw k) c \<le> 1" using assms(1) by simp
  moreover have "0 < count_list (edges raw i) c" "0 < count_list (edges raw k) c"
    using assms(4,5) count_list_0_iff [of _ c] by (metis gr0I)+
  ultimately show False by simp
qed

lemma root_has_no_parent:
  assumes "in_degree raw 0 = 0" and "i < length (raw_left raw)"
  shows "0 \<notin> set (edges raw i)"
  using assms by (auto simp: in_degree_sum count_list_0_iff)

lemma arena_in_degree:
  assumes "arena_ok raw nf" and "i < length (raw_left raw)" and "c \<in> set (edges raw i)"
  shows "in_degree raw c \<le> 1" "0 < c" "c < int (length (raw_left raw))"
proof -
  have c: "0 \<le> c" "c < int (length (raw_left raw))"
    using assms by (auto simp: arena_ok_def node_ok_def)
  have "c \<noteq> 0" using assms root_has_no_parent [of raw i] by (auto simp: arena_ok_def)
  with c show "0 < c" "c < int (length (raw_left raw))" by simp_all
  then obtain j where "c = int j" "0 < j" "j < length (raw_left raw)"
    by (metis of_nat_0_less_iff of_nat_less_iff zero_less_imp_eq_int)
  with assms(1) show "in_degree raw c \<le> 1" by (simp add: arena_ok_def)
qed

lemma node_depth_unique:
  assumes "arena_ok raw nf" and "node_depth raw j d" and "node_depth raw j e"
  shows "d = e"
  using assms(2,3)
proof (induction arbitrary: e rule: node_depth.induct)
  case depth_root
  then show ?case
  proof (cases rule: node_depth.cases)
    case depth_root
    then show ?thesis by simp
  next
    case (depth_child i d')
    then have "nat i < length (raw_left raw)" by simp
    with depth_child arena_in_degree(2) [OF assms(1), of "nat i" 0] show ?thesis by simp
  qed
next
  case (depth_child i d c)
  have "nat i < length (raw_left raw)" using depth_child.hyps(2,3) by simp
  note deg = arena_in_degree [OF assms(1) this depth_child.hyps(4)]
  from depth_child.prems show ?case
  proof (cases rule: node_depth.cases)
    case depth_root
    with deg depth_child.hyps show ?thesis by simp
  next
    case (depth_child k d')
    have "nat i = nat k"
      using deg(1) depth_child.hyps depth_child by (intro unique_parent) auto
    then have "i = k" using depth_child.hyps(2) depth_child(3) by simp
    with depth_child depth_child.IH show ?thesis by simp
  qed
qed

end
