(* ===== verification/TreeCompileCorrect.thy ===== *)
theory TreeCompileCorrect
  imports TreeCompile
begin

text \<open>
  The adapter of \<^verbatim>\<open>integer/treecompile/compile.go\<close> is correct: the analysis ends on every arena,
  an arena it accepts denotes one tree of the reported height, and the padded tree predicts what
  that tree predicts.
\<close>

section \<open>The analysis ends and never panics\<close>

lemma visit_raw_safe:
  assumes "slices_ok raw" and "\<forall>i < length (raw_left raw). node_ok raw nf i"
  shows "length (fst s) = length (raw_left raw) \<Longrightarrow> whites (fst s) < fuel \<Longrightarrow>
    0 \<le> index \<Longrightarrow> index < int (length (raw_left raw)) \<Longrightarrow> safe (visit_raw fuel raw index depth s)"
proof (induction fuel arbitrary: index depth s)
  case 0
  then show ?case by simp
next
  case (Suc fuel)
  define i where "i = nat index"
  have i: "i < length (raw_left raw)" using Suc.prems by (simp add: i_def)
  have right_len: "length (raw_right raw) = length (raw_left raw)"
    using assms(1) by (simp add: slices_ok_def Let_def)
  have range: "index < int (length (fst s))" "index < int (length (raw_left raw))"
    "index < int (length (raw_right raw))"
    using Suc.prems right_len by simp_all
  have child: "0 \<le> c" "c < int (length (raw_left raw))" if "c \<in> set (edges raw i)" for c
    using assms(2) i that by (auto simp: node_ok_def)
  let ?s1 = "((fst s)[i := 1], snd s)"
  show ?case
  proof (cases "fst s ! i = 1 \<or> fst s ! i = 2")
    case True
    then show ?thesis using Suc.prems range by (auto simp: visit_raw_Suc i_def)
  next
    case False
    have w: "whites (fst ?s1) < fuel" "length (fst ?s1) = length (raw_left raw)"
      using whites_update(2) [of i "fst s" 1] False Suc.prems i by simp_all
    have kept: "length (fst t) = length (raw_left raw) \<and> whites (fst t) < fuel"
      if "visit_raw fuel raw k e u = Inr t" "length (fst u) = length (raw_left raw)" "whites (fst u) < fuel"
      for k e u t
      using visit_raw_whites [OF that(1)] that(2,3) by simp
    have "safe (visit_raw fuel raw (raw_left raw ! i) (depth + 1) ?s1)" if "raw_left raw ! i \<noteq> - 1"
      by (rule Suc.IH) (use w child [of "raw_left raw ! i"] that in \<open>simp_all add: edges_def\<close>)
    moreover have "safe (visit_raw fuel raw (raw_right raw ! i) (depth + 1) u)"
      if "raw_left raw ! i \<noteq> - 1" "visit_raw fuel raw (raw_left raw ! i) (depth + 1) ?s1 = Inr u" for u
      by (rule Suc.IH) (use w kept [OF that(2)] child [of "raw_right raw ! i"] that(1) in
          \<open>simp_all add: edges_def\<close>)
    ultimately show ?thesis
      using False Suc.prems range w kept
      by (auto simp: visit_raw_Suc i_def and_then_ok intro!: safe_and_then split: if_splits)
  qed
qed

lemma analyze_raw_tree_safe: "safe (analyze_raw_tree raw nf)"
proof (cases "raw_left raw \<noteq> [] \<and> slices_ok raw \<and> (\<forall>i < length (raw_left raw). node_ok raw nf i)")
  case True
  define n where "n = length (raw_left raw)"
  define ps where "ps = parents_after raw (replicate n 0) [0..<n]"
  have n: "0 < n" "length ps = n" using True by (simp_all add: n_def ps_def)
  have slices: "check_slice_lengths raw n = Inr ()"
    using True by (simp add: n_def check_slice_lengths_ok)
  have nodes: "fold_each (\<lambda>_ i parents. check_node raw nf n i parents) 0 [0..<n] (replicate n 0) = Inr ps"
    using check_nodes_ok [of raw "replicate n 0" "[0..<n]" nf 0 ps] True
    by (auto simp: n_def ps_def list_all_iff)
  have "safe (visit_raw (n + 1) raw 0 0 (replicate n 0, 0))"
    by (rule visit_raw_safe [where nf = nf]) (use True n whites_bound [of "replicate n 0"] in \<open>simp_all add: n_def\<close>)
  then show ?thesis
    unfolding analyze_raw_tree_def Let_def n_def [symmetric] slices nodes and_then_simps
    using n by (auto intro!: safe_intro split: prod.splits)
next
  case False
  define n where "n = length (raw_left raw)"
  have slices: "safe (check_slice_lengths raw n)"
    by (auto simp: check_slice_lengths_def intro!: safe_intro split: prod.splits)
  have nodes: "safe (fold_each (\<lambda>_ i parents. check_node raw nf n i parents) k is ps)"
    if "slices_ok raw" "length ps = n" "list_all (\<lambda>i. i < n) is" for k "is" ps
    using that(2,3)
  proof (induction "is" arbitrary: k ps)
    case Nil
    then show ?case by simp
  next
    case (Cons i rest)
    have step: "safe (check_node raw nf n i ps)"
      using that(1) Cons.prems
      by (auto simp: check_node_def count_child_def slices_ok_def Let_def n_def intro!: safe_and_then
          simp: and_then_ok set_at_ok split: if_splits)
    have "length qs = n" if "check_node raw nf n i ps = Inr qs" for qs
      using check_node_ok [OF \<open>slices_ok raw\<close>, of i ps nf qs] that Cons.prems
      by (auto simp: n_def edges_def)
    with step Cons show ?case by (auto intro!: safe_and_then)
  qed
  have fails: "fold_each (\<lambda>_ i parents. check_node raw nf n i parents) 0 [0..<n] (replicate n 0) \<noteq> Inr ps"
    if "slices_ok raw" "n \<noteq> 0" for ps
    using check_nodes_ok [OF that(1), of "replicate n 0" "[0..<n]" nf 0 ps] False that
    by (auto simp: n_def list_all_iff)
  show ?thesis
    unfolding analyze_raw_tree_def Let_def n_def [symmetric]
    using slices nodes [of "replicate n 0" "[0..<n]" 0] fails check_slice_lengths_ok [of raw, folded n_def]
    by (auto intro!: safe_and_then simp: list_all_iff)
qed

section \<open>An accepted arena denotes one tree\<close>

definition node_known :: "raw_tree \<Rightarrow> int \<Rightarrow> int \<Rightarrow> bool" where
  "node_known raw md j \<longleftrightarrow> (\<exists>T. raw_denotes raw j T \<and>
     (\<forall>d. node_depth raw j d \<longrightarrow> d + int (dtree_height T) \<le> md))"

lemma node_known_mono: "node_known raw md j \<Longrightarrow> md \<le> md' \<Longrightarrow> node_known raw md' j"
  unfolding node_known_def by (meson order_trans)

definition known_nodes :: "raw_tree \<Rightarrow> 8 word list \<times> int \<Rightarrow> bool" where
  "known_nodes raw s \<longleftrightarrow> (\<forall>j < length (fst s). fst s ! j = 2 \<longrightarrow> node_known raw (snd s) (int j))"

lemma known_nodes_mark:
  "known_nodes raw s \<Longrightarrow> snd s \<le> md \<Longrightarrow> (c = 2 \<longrightarrow> node_known raw md (int i)) \<Longrightarrow>
     known_nodes raw ((fst s)[i := c], md)"
  unfolding known_nodes_def fst_conv snd_conv length_list_update
  by (metis node_known_mono nth_list_update_eq nth_list_update_neq)

text \<open>
  The visit records the greatest depth of a leaf it has seen: it bounds the height of every
  finished node from below, and it never exceeds the height of the visited node or the fuel.
\<close>

lemma visit_raw_sound:
  assumes arena: "arena_ok raw nf"
  shows "visit_raw fuel raw index depth s = Inr s' \<Longrightarrow> length (fst s) = length (raw_left raw) \<Longrightarrow>
    known_nodes raw s \<Longrightarrow> node_depth raw index depth \<Longrightarrow>
    known_nodes raw s' \<and> snd s \<le> snd s' \<and> node_known raw (snd s') index \<and>
    snd s' \<le> max (snd s) (depth + int fuel - 1) \<and>
    (\<forall>T. raw_denotes raw index T \<longrightarrow> snd s' \<le> max (snd s) (depth + int (dtree_height T)))"
proof (induction fuel arbitrary: index depth s s')
  case 0
  then show ?case by (cases s) (simp add: visit_raw.simps)
next
  case (Suc fuel)
  have only: "d = depth" if "node_depth raw index d" for d
    using node_depth_unique [OF arena Suc.prems(4) that] by simp
  from Suc.prems(1) show ?case
  proof (cases rule: visit_raw_cases)
    case seen
    then have "node_known raw (snd s) index"
      using Suc.prems(3) [unfolded known_nodes_def, rule_format, of "nat index"] by simp
    with seen Suc.prems(3) show ?thesis by simp
  next
    case leaf
    let ?T = "DLeaf (f64_scalar (f64_of_f32 (raw_split_cond raw ! nat index)))"
    have T: "raw_denotes raw index ?T" using leaf by (intro raw_denotes.raw_leaf)
    have known: "node_known raw (max depth (snd s)) index"
      unfolding node_known_def using T only by (intro exI [of _ ?T]) auto
    have "known_nodes raw ((fst s)[nat index := 1], max depth (snd s))"
      by (rule known_nodes_mark [OF Suc.prems(3)]) simp_all
    then have "known_nodes raw s'"
      using known_nodes_mark [of raw "((fst s)[nat index := 1], max depth (snd s))" _ 2 "nat index"] known leaf
      by simp
    moreover have "U = ?T" if "raw_denotes raw index U" for U by (rule raw_denotes_unique [OF that T])
    ultimately show ?thesis using known leaf(7) by auto
  next
    case (node u t)
    define i where "i = nat index"
    have i: "0 \<le> index" "index < int (length (raw_left raw))" "raw_left raw ! i \<noteq> - 1" using node by (simp_all add: i_def)
    have child: "node_depth raw c (depth + 1)" if "c \<in> set (edges raw i)" for c
      using depth_child [OF Suc.prems(4) i(1,2)] that by (simp add: i_def)
    have start: "known_nodes raw ((fst s)[i := 1], snd s)"
      by (rule known_nodes_mark [OF Suc.prems(3)]) simp_all
    note L = Suc.IH [OF node(7) _ start [unfolded i_def]]
    have l: "known_nodes raw u" "snd s \<le> snd u" "node_known raw (snd u) (raw_left raw ! i)"
      "snd u \<le> max (snd s) (depth + 1 + int fuel - 1)"
      "\<And>T. raw_denotes raw (raw_left raw ! i) T \<Longrightarrow> snd u \<le> max (snd s) (depth + 1 + int (dtree_height T))"
      using L Suc.prems(2) child [of "raw_left raw ! i"] i(3) by (auto simp: edges_def i_def)
    have ulen: "length (fst u) = length (raw_left raw)"
      using visit_raw_whites [OF node(7)] Suc.prems(2) by simp
    have r: "known_nodes raw t" "snd u \<le> snd t" "node_known raw (snd t) (raw_right raw ! i)"
      "snd t \<le> max (snd u) (depth + 1 + int fuel - 1)"
      "\<And>T. raw_denotes raw (raw_right raw ! i) T \<Longrightarrow> snd t \<le> max (snd u) (depth + 1 + int (dtree_height T))"
      using Suc.IH [OF node(9) ulen l(1)] child [of "raw_right raw ! i"] i(3) by (auto simp: edges_def i_def)
    obtain l' r' where T: "raw_denotes raw (raw_left raw ! i) l'" "raw_denotes raw (raw_right raw ! i) r'"
      and h: "depth + 1 + int (dtree_height l') \<le> snd u" "depth + 1 + int (dtree_height r') \<le> snd t"
      using l(3) r(3) child [of "raw_left raw ! i"] child [of "raw_right raw ! i"] i(3)
      by (auto simp: node_known_def edges_def)
    let ?T = "DNode \<lparr>bs_feature = raw_split_index raw ! i, bs_threshold = f32_scalar (raw_split_cond raw ! i)\<rparr> l' r'"
    have whole: "raw_denotes raw index ?T" using raw_denotes.raw_node [OF i(1,2)] i(3) T by (simp add: i_def)
    have known: "node_known raw (snd t) index"
      unfolding node_known_def using whole h r(2) only by (intro exI [of _ ?T]) auto
    have "known_nodes raw s'"
      using known_nodes_mark [OF r(1) order_refl, of 2 i] known i(1) node(11) by (simp add: i_def)
    moreover have "snd t \<le> max (snd s) (depth + int (dtree_height ?T))"
      using l(5) [OF T(1)] r(5) [OF T(2)] by simp
    then have "snd s' \<le> max (snd s) (depth + int (dtree_height U))" if "raw_denotes raw index U" for U
      using raw_denotes_unique [OF that whole] node(11) by simp
    ultimately show ?thesis using known node(11) l(2,4) r(2,4) by auto
  qed
qed

lemma analyze_denotes:
  assumes "analyze_raw_tree raw nf = Inr d"
  obtains T where "raw_denotes raw 0 T" "d = int (dtree_height T)" "dtree_height T \<le> length (raw_left raw)"
    "arena_ok raw nf" "0 \<le> nf" "d \<le> max_materialized_depth"
    "\<forall>j < length (raw_left raw). \<exists>U. raw_denotes raw (int j) U"
proof -
  let ?n = "length (raw_left raw)"
  from assms obtain state where a: "arena_ok raw nf" "0 \<le> nf" "d \<le> max_materialized_depth"
    and v: "visit_raw (?n + 1) raw 0 0 (replicate ?n 0, 0) = Inr (state, d)"
    and finished: "list_all (\<lambda>s. s = 2) state"
    by (auto simp: analyze_ok visited_def)
  have len: "length state = ?n" using visit_raw_whites [OF v] by simp
  have sound: "known_nodes raw (state, d) \<and> 0 \<le> d \<and> node_known raw d 0 \<and> d \<le> max 0 (int ?n) \<and>
    (\<forall>T. raw_denotes raw 0 T \<longrightarrow> d \<le> max 0 (int (dtree_height T)))"
    using visit_raw_sound [OF a(1) v] depth_root by (simp add: known_nodes_def)
  then obtain T where T: "raw_denotes raw 0 T" "int (dtree_height T) \<le> d"
    using depth_root [of raw] by (auto simp: node_known_def)
  have "\<exists>U. raw_denotes raw (int j) U" if "j < ?n" for j
    using sound finished that len by (auto simp: known_nodes_def node_known_def list_all_iff_nth)
  with T sound a show thesis by (intro that [of T]) auto
qed

section \<open>Regions of the heap\<close>

text \<open>
  Counted from one, the node of prefix \<^verbatim>\<open>q\<close> at level \<^verbatim>\<open>k\<close> is \<^verbatim>\<open>2 ^ k + q\<close>, and dividing a position
  by two climbs one level.
\<close>

definition heap_below :: "nat \<Rightarrow> nat \<Rightarrow> bool" where
  "heap_below h i \<longleftrightarrow> (\<exists>j. Suc i div 2 ^ j = h)"

lemma leaf_child: "(i::nat) div 2 ^ d = 2 * q + b \<Longrightarrow> b \<le> 1 \<Longrightarrow> i div 2 ^ Suc d = q"
  by (simp add: power_Suc2 div_mult2_eq del: power_Suc)

lemma heap_below_self: "heap_below (Suc i) i"
  unfolding heap_below_def by (intro exI [of _ 0]) simp

lemma heap_below_child: "heap_below (2 * h + b) i \<Longrightarrow> b \<le> 1 \<Longrightarrow> heap_below h i"
  unfolding heap_below_def
proof (elim exE)
  fix j assume "Suc i div 2 ^ j = 2 * h + b" "b \<le> 1"
  then have "Suc i div 2 ^ Suc j = h" by (rule leaf_child)
  then show "\<exists>j. Suc i div 2 ^ j = h" by blast
qed

lemma div_power_half: "0 < (j::nat) \<Longrightarrow> (m::nat) div 2 ^ j \<le> m div 2"
  by (cases j) (simp_all add: div_mult2_eq)

lemma heap_below_strict: "0 < h \<Longrightarrow> i < 2 * h - 1 \<Longrightarrow> \<not> heap_below (2 * h + b) i"
  unfolding heap_below_def
proof (intro notI, elim exE)
  fix j assume "0 < h" "i < 2 * h - 1" "Suc i div 2 ^ j = 2 * h + b"
  moreover have "Suc i div 2 ^ j \<le> Suc i" by (rule div_le_dividend)
  ultimately show False by simp
qed

lemma heap_below_disjoint: "0 < h \<Longrightarrow> heap_below (2 * h) i \<Longrightarrow> \<not> heap_below (2 * h + 1) i"
  unfolding heap_below_def
proof (intro notI, elim exE)
  fix j l assume h: "0 < h" and a: "Suc i div 2 ^ j = 2 * h" and b: "Suc i div 2 ^ l = 2 * h + 1"
  consider "j = l" | "j < l" | "l < j" by linarith
  then show False
  proof cases
    case 1
    with a b show False by simp
  next
    case 2
    then obtain m where m: "l = j + m" "0 < m" by (metis less_imp_add_positive)
    then have "Suc i div 2 ^ l = 2 * h div 2 ^ m" using a by (simp add: power_add div_mult2_eq)
    with b h div_power_half [OF m(2), of "2 * h"] show False by simp
  next
    case 3
    then obtain m where m: "j = l + m" "0 < m" by (metis less_imp_add_positive)
    then have "Suc i div 2 ^ j = (2 * h + 1) div 2 ^ m" using b by (simp add: power_add div_mult2_eq)
    with a h div_power_half [OF m(2), of "2 * h + 1"] show False by simp
  qed
qed

lemma heap_dtree_cong:
  "(\<And>i. heap_below (Suc node) i \<Longrightarrow> splits ! i = splits' ! i) \<Longrightarrow>
   (\<And>i. i div 2 ^ d = leaf \<Longrightarrow> leaves ! i = leaves' ! i) \<Longrightarrow>
   heap_dtree splits leaves d node leaf = heap_dtree splits' leaves' d node leaf"
proof (induction d arbitrary: node leaf)
  case 0
  then show ?case by simp
next
  case (Suc d)
  have "heap_dtree splits leaves d (2 * node + 1 + b) (2 * leaf + b) =
      heap_dtree splits' leaves' d (2 * node + 1 + b) (2 * leaf + b)" if "b \<le> 1" for b
  proof (rule Suc.IH)
    show "splits ! i = splits' ! i" if "heap_below (Suc (2 * node + 1 + b)) i" for i
      by (rule Suc.prems(1), rule heap_below_child [of _ b]) (use that \<open>b \<le> 1\<close> in simp_all)
    show "leaves ! i = leaves' ! i" if "i div 2 ^ d = 2 * leaf + b" for i
      by (rule Suc.prems(2), rule leaf_child [OF that \<open>b \<le> 1\<close>])
  qed
  from this [of 0] this [of 1] show ?case using Suc.prems(1) [OF heap_below_self] by simp
qed

lemma heap_dtree_constant:
  "(\<And>i. i div 2 ^ d = leaf \<Longrightarrow> leaves ! i = v) \<Longrightarrow> dtree_eval (heap_dtree splits leaves d node leaf) fs = v"
proof (induction d arbitrary: node leaf)
  case 0
  then show ?case by simp
next
  case (Suc d)
  have "dtree_eval (heap_dtree splits leaves d node' (2 * leaf + b)) fs = v" if "b \<le> 1" for b node'
    by (rule Suc.IH, rule Suc.prems, rule leaf_child [OF _ that])
  from this [of 0] this [of 1] show ?case by simp
qed

section \<open>Filling the complete tree\<close>

lemma fill_leaves_spec:
  "0 \<le> i \<Longrightarrow> i + int k \<le> int (length leaves) \<Longrightarrow>
   \<exists>leaves'. fill_leaves k i v leaves = (Inr leaves' :: ('e, scalar list) res) \<and> length leaves' = length leaves \<and>
     (\<forall>j. leaves' ! j = (if i \<le> int j \<and> int j < i + int k then v else leaves ! j))"
proof (induction k arbitrary: i leaves)
  case 0
  then show ?case by auto
next
  case (Suc k)
  have range: "0 \<le> i" "i < int (length leaves)" using Suc.prems by simp_all
  let ?L = "leaves[nat i := v]"
  obtain leaves' where l: "fill_leaves k (i + 1) v ?L = (Inr leaves' :: ('e, scalar list) res)" "length leaves' = length leaves"
    "\<forall>j. leaves' ! j = (if i + 1 \<le> int j \<and> int j < i + 1 + int k then v else ?L ! j)"
    using Suc.IH [of "i + 1" ?L] Suc.prems by auto
  have "leaves' ! j = (if i \<le> int j \<and> int j < i + int (Suc k) then v else leaves ! j)" for j
    using l(3) [rule_format, of j] range by (cases "j = nat i") (auto simp: nth_list_update_neq)
  then show ?case using l range by auto
qed

lemma list_all_update: "list_all P xs \<Longrightarrow> P x \<Longrightarrow> list_all P (xs[i := x])"
  using set_update_subset_insert [of xs i x] by (auto simp: list_all_iff)

lemma fill_leaves_all:
  "fill_leaves k i v leaves = Inr leaves' \<Longrightarrow> list_all P leaves \<Longrightarrow> P v \<Longrightarrow> list_all P leaves'"
  by (induction k arbitrary: i leaves) (auto simp: and_then_ok set_at_ok list_all_update)

lemma int_block: "int q * 2 ^ m = int (q * 2 ^ m)"
  by simp

lemma div_eq_block: "0 < m \<Longrightarrow> j div m = q \<longleftrightarrow> q * m \<le> j \<and> j < q * m + (m :: nat)"
  by (metis add.commute div_nat_eqI div_times_less_eq_dividend dividend_less_div_times mult.commute mult_Suc_right)

definition split_fits :: "int \<Rightarrow> binary_split \<Rightarrow> bool" where
  "split_fits nf s \<longleftrightarrow> split_ok s \<and> bs_feature s < nf"

lemma finite_scalar_f32: "finite_scalar (f32_scalar c) \<longleftrightarrow> f32_finite c"
  by (simp add: finite_scalar_def f32_scalar_def f32_finite_iff f32_nan_def f32_inf_def)

lemma finite_scalar_f64: "finite_scalar (f64_scalar c) \<longleftrightarrow> f64_finite c"
  by (simp add: finite_scalar_def f64_scalar_def f64_finite_def fp_finite_iff)

lemma arena_lengths:
  assumes "arena_ok raw nf"
  shows "length (raw_right raw) = length (raw_left raw)" "length (raw_split_index raw) = length (raw_left raw)"
    "length (raw_split_cond raw) = length (raw_left raw)"
  using assms by (simp_all add: arena_ok_def slices_ok_def Let_def)

lemma arena_node: "arena_ok raw nf \<Longrightarrow> 0 \<le> i \<Longrightarrow> i < int (length (raw_left raw)) \<Longrightarrow> node_ok raw nf (nat i)"
  by (simp add: arena_ok_def)

lemma fill_raw_spec:
  assumes arena: "arena_ok raw nf"
  shows "raw_denotes raw index T \<Longrightarrow> dtree_height T < fuel \<Longrightarrow> k + dtree_height T \<le> D \<Longrightarrow> q < 2 ^ k \<Longrightarrow>
    length splits = 2 ^ D - 1 \<Longrightarrow> length leaves = 2 ^ D \<Longrightarrow>
    \<exists>splits' leaves'.
      fill_raw fuel raw (int D) index (int k) (int (2 ^ k - 1 + q)) (int q) (splits, leaves) = Inr (splits', leaves') \<and>
      length splits' = 2 ^ D - 1 \<and> length leaves' = 2 ^ D \<and>
      (\<forall>fs. dtree_eval (heap_dtree splits' leaves' (D - k) (2 ^ k - 1 + q) q) fs = dtree_eval T fs) \<and>
      (\<forall>i. \<not> heap_below (2 ^ k + q) i \<longrightarrow> splits' ! i = splits ! i) \<and>
      (\<forall>i. i div 2 ^ (D - k) \<noteq> q \<longrightarrow> leaves' ! i = leaves ! i) \<and>
      (list_all (split_fits nf) splits \<longrightarrow> list_all (split_fits nf) splits') \<and>
      (list_all finite_scalar leaves \<longrightarrow> list_all finite_scalar leaves')"
proof (induction arbitrary: fuel k q splits leaves rule: raw_denotes.induct)
  case (raw_leaf i)
  obtain f where f: "fuel = Suc f" using raw_leaf.prems by (cases fuel) simp_all
  let ?c = "raw_split_cond raw ! nat i"
  let ?v = "f64_scalar (f64_of_f32 ?c)"
  have kD: "k \<le> D" using raw_leaf.prems by simp
  have rem: "nat (int D - int k) = D - k" by simp
  have bound: "int q * 2 ^ (D - k) + int (2 ^ (D - k)) \<le> int (length leaves)"
  proof -
    have "(q + 1) * 2 ^ (D - k) \<le> 2 ^ k * 2 ^ (D - k)"
      by (rule mult_right_mono) (use raw_leaf.prems in simp_all)
    also have "\<dots> = 2 ^ D" using kD by (simp flip: power_add)
    finally have "int ((q + 1) * 2 ^ (D - k)) \<le> int (2 ^ D)" by (rule of_nat_mono)
    then show ?thesis using raw_leaf.prems by (simp add: algebra_simps)
  qed
  obtain leaves' where l:
    "fill_leaves (2 ^ (D - k)) (int q * 2 ^ (D - k)) ?v leaves = (Inr leaves' :: (tree_error, scalar list) res)"
    "length leaves' = length leaves"
    "\<forall>j. leaves' ! j = (if int q * 2 ^ (D - k) \<le> int j \<and> int j < int q * 2 ^ (D - k) + int (2 ^ (D - k))
       then ?v else leaves ! j)"
    using fill_leaves_spec [OF _ bound, of ?v] by auto
  have at_leaf: "leaves' ! j = (if j div 2 ^ (D - k) = q then ?v else leaves ! j)" for j
  proof -
    have "int q * 2 ^ (D - k) \<le> int j \<longleftrightarrow> q * 2 ^ (D - k) \<le> j"
      and "int j < int q * 2 ^ (D - k) + int (2 ^ (D - k)) \<longleftrightarrow> j < q * 2 ^ (D - k) + 2 ^ (D - k)"
      unfolding int_block by (simp_all only: of_nat_add [symmetric] of_nat_le_iff of_nat_less_iff)
    then show ?thesis using l(3) div_eq_block [of "2 ^ (D - k)" j q] by simp
  qed
  have fin: "f32_finite ?c" using arena_node [OF arena raw_leaf.hyps(1,2)] by (simp add: node_ok_def)
  have run: "fill_raw fuel raw (int D) i (int k) (int (2 ^ k - 1 + q)) (int q) (splits, leaves) = Inr (splits, leaves')"
    using raw_leaf.hyps arena_lengths [OF arena] l(1)
    by (simp add: f fill_raw.simps Let_def rem del: of_nat_diff)
  have "list_all finite_scalar leaves'" if "list_all finite_scalar leaves"
    by (rule fill_leaves_all [OF l(1) that]) (simp add: finite_scalar_f64 f64_of_f32_val(2) [OF fin])
  then show ?case
    using run raw_leaf.prems l(2) at_leaf heap_dtree_constant [of "D - k" q leaves' ?v] by auto
next
  case (raw_node i l r)
  let ?s = "\<lparr>bs_feature = raw_split_index raw ! nat i, bs_threshold = f32_scalar (raw_split_cond raw ! nat i)\<rparr>"
  obtain f where f: "fuel = Suc f" using raw_node.prems by (cases fuel) simp_all
  define h where "h = 2 ^ k + q"
  define node where "node = 2 ^ k - 1 + q"
  define d where "d = D - Suc k"
  have h: "0 < h" "Suc node = h" by (simp_all add: h_def node_def)
  have kD: "k < D" "D - k = Suc d" using raw_node.prems by (simp_all add: d_def)
  have node: "node < 2 ^ D - 1"
    unfolding node_def by (rule heap_node_bound [OF raw_node.prems(3) kD(1)])
  have child: "2 * node + 1 + b = 2 ^ Suc k - 1 + (2 * q + b)" "2 ^ Suc k + (2 * q + b) = 2 * h + b"
    if "b \<le> 1" for b
    using heap_child [OF node_def that] by (simp_all add: h_def)
  have sub: "dtree_height l < f" "Suc k + dtree_height l \<le> D" "dtree_height r < f" "Suc k + dtree_height r \<le> D"
    using raw_node.prems by (simp_all add: f)
  obtain s2 l2 where L:
    "fill_raw f raw (int D) (raw_left raw ! nat i) (int (Suc k)) (int (2 * node + 1 + 0)) (int (2 * q + 0))
      (splits[node := ?s], leaves) = Inr (s2, l2)"
    "length s2 = 2 ^ D - 1" "length l2 = 2 ^ D"
    "\<forall>fs. dtree_eval (heap_dtree s2 l2 d (2 * node + 1 + 0) (2 * q + 0)) fs = dtree_eval l fs"
    "\<forall>j. \<not> heap_below (2 * h + 0) j \<longrightarrow> s2 ! j = splits[node := ?s] ! j"
    "\<forall>j. j div 2 ^ d \<noteq> 2 * q + 0 \<longrightarrow> l2 ! j = leaves ! j"
    "list_all (split_fits nf) (splits[node := ?s]) \<longrightarrow> list_all (split_fits nf) s2"
    "list_all finite_scalar leaves \<longrightarrow> list_all finite_scalar l2"
    using raw_node.IH(1) [OF sub(1,2), of "2 * q + 0" "splits[node := ?s]" leaves] raw_node.prems
    unfolding child(1) [of 0, OF zero_le] child(2) [of 0, OF zero_le, symmetric] d_def by auto
  obtain s3 l3 where R:
    "fill_raw f raw (int D) (raw_right raw ! nat i) (int (Suc k)) (int (2 * node + 1 + 1)) (int (2 * q + 1))
      (s2, l2) = Inr (s3, l3)"
    "length s3 = 2 ^ D - 1" "length l3 = 2 ^ D"
    "\<forall>fs. dtree_eval (heap_dtree s3 l3 d (2 * node + 1 + 1) (2 * q + 1)) fs = dtree_eval r fs"
    "\<forall>j. \<not> heap_below (2 * h + 1) j \<longrightarrow> s3 ! j = s2 ! j"
    "\<forall>j. j div 2 ^ d \<noteq> 2 * q + 1 \<longrightarrow> l3 ! j = l2 ! j"
    "list_all (split_fits nf) s2 \<longrightarrow> list_all (split_fits nf) s3"
    "list_all finite_scalar l2 \<longrightarrow> list_all finite_scalar l3"
    using raw_node.IH(2) [OF sub(3,4), of "2 * q + 1" s2 l2] raw_node.prems L(2,3)
    unfolding child(1) [of 1, OF order_refl] child(2) [of 1, OF order_refl, symmetric] d_def by auto
  have stored: "set_at splits (int node) x = (Inr (splits[node := x]) :: (tree_error, binary_split list) res)" for x
  proof -
    have "node < length splits" using node raw_node.prems(4) by simp
    then show ?thesis
      by (simp only: set_at_def nat_int of_nat_less_iff of_nat_0_le_iff simp_thms if_True)
  qed
  have run: "fill_raw fuel raw (int D) i (int k) (int node) (int q) (splits, leaves) = Inr (s3, l3)"
    using raw_node.hyps arena_lengths [OF arena] L(1) R(1) stored
    by (simp add: f fill_raw.simps add.commute)
  have root: "s3 ! node = ?s"
  proof -
    have "node < 2 * h - 1" using h by simp
    note above = heap_below_strict [OF h(1) this]
    have "s3 ! node = splits[node := ?s] ! node" using R(5) L(5) above [of 1] above [of 0] by simp
    then show ?thesis using node raw_node.prems(4) by simp
  qed
  have left: "heap_dtree s3 l3 d (2 * node + 1) (2 * q) = heap_dtree s2 l2 d (2 * node + 1) (2 * q)"
  proof (rule heap_dtree_cong)
    show "s3 ! j = s2 ! j" if "heap_below (Suc (2 * node + 1)) j" for j
      using that h(2) heap_below_disjoint [OF h(1)] R(5) by auto
  qed (use R(6) in simp)
  have "split_fits nf ?s"
    using arena_node [OF arena raw_node.hyps(1,2)] raw_node.hyps(3)
    by (simp add: node_ok_def split_fits_def split_ok_def finite_scalar_f32)
  then have fits: "list_all (split_fits nf) splits \<longrightarrow> list_all (split_fits nf) s3"
    using L(7) R(7) by (simp add: list_all_update)
  have frame: "s3 ! j = splits ! j" if "\<not> heap_below h j" for j
  proof -
    have "node \<noteq> j" using that heap_below_self [of j] h(2) by auto
    moreover have "\<not> heap_below (2 * h + b) j" if "b \<le> 1" for b
      using \<open>\<not> heap_below h j\<close> heap_below_child [OF _ that] by blast
    from this [of 0] this [of 1] have "s3 ! j = splits[node := ?s] ! j" using L(5) R(5) by simp
    ultimately show ?thesis by (simp add: nth_list_update_neq)
  qed
  have leaf_frame: "l3 ! j = leaves ! j" if "j div 2 ^ Suc d \<noteq> q" for j
  proof -
    have "j div 2 ^ d \<noteq> 2 * q + b" if "b \<le> 1" for b
      using \<open>j div 2 ^ Suc d \<noteq> q\<close> leaf_child [OF _ that] by blast
    from this [of 0] this [of 1] show ?thesis using L(6) R(6) by simp
  qed
  have eval: "dtree_eval (heap_dtree s3 l3 (Suc d) node q) fs = dtree_eval (DNode ?s l r) fs" for fs
    using L(4) R(4) root left by simp
  show ?case
    unfolding kD(2) node_def [symmetric] h_def [symmetric]
    using run R(2,3,8) L(8) fits frame leaf_frame eval by blast
qed

section \<open>The compiled tree\<close>

lemma compile_at_depth_result:
  assumes a: "analyze_raw_tree raw nf = Inr d" and "d \<le> target" and "target \<le> max_materialized_depth"
    and feat: "target = 0 \<or> nf \<noteq> 0"
  shows "\<exists>t T. compile_tree_at_depth raw nf target = Inr t \<and> bt_depth t = target \<and> binary_wf t \<and>
    list_all (split_fits nf) (bt_splits t) \<and> raw_denotes raw 0 T \<and> int (dtree_height T) = d \<and>
    (\<forall>fs. dtree_eval (binary_dtree t) fs = dtree_eval T fs)"
proof -
  from a obtain T where T: "raw_denotes raw 0 T" "d = int (dtree_height T)" "dtree_height T \<le> length (raw_left raw)"
    and arena: "arena_ok raw nf" and nf: "0 \<le> nf"
    by (rule analyze_denotes)
  define D where "D = nat target"
  have D: "target = int D" "dtree_height T \<le> D" "D \<le> 20"
    using assms(2,3) T(2) by (simp_all add: D_def max_materialized_depth_def)
  have pad: "list_all (split_fits nf) (replicate (2 ^ D - 1) padding_split)"
  proof (cases "D = 0")
    case False
    then have "0 < nf" using feat nf D(1) by simp
    then have "split_fits nf padding_split"
      by (simp add: split_fits_def split_ok_def padding_split_def finite_scalar_f32 f32_finite_def fp_finite_def
          fp_exp_def fp_abs_def)
    then show ?thesis by (simp add: list_all_iff)
  qed simp
  have zero: "list_all finite_scalar (replicate (2 ^ D) (f64_scalar 0))"
    by (simp add: list_all_iff finite_scalar_f64 f64_zero)
  obtain splits leaves where F:
    "fill_raw (length (raw_left raw) + 1) raw (int D) 0 0 0 0
      (replicate (2 ^ D - 1) padding_split, replicate (2 ^ D) (f64_scalar 0)) = Inr (splits, leaves)"
    "length splits = 2 ^ D - 1" "length leaves = 2 ^ D"
    "\<forall>fs. dtree_eval (heap_dtree splits leaves D 0 0) fs = dtree_eval T fs"
    "list_all (split_fits nf) splits" "list_all finite_scalar leaves"
    using fill_raw_spec [OF arena T(1), of "length (raw_left raw) + 1" 0 D 0
        "replicate (2 ^ D - 1) padding_split" "replicate (2 ^ D) (f64_scalar 0)"] T(3) D(2) pad zero
    by auto
  let ?t = "\<lparr>bt_depth = target, bt_splits = splits, bt_leaves = leaves\<rparr>"
  have wf: "binary_wf ?t"
    using F(2,3,5,6) D by (auto simp: binary_wf_def list_all_iff split_fits_def)
  have "compile_tree_at_depth raw nf target = Inr ?t"
    using assms F(1) D wf
    by (auto simp: compile_tree_at_depth_def Let_def ok_iff and_then_okI [of "binary_validate ?t"])
  with wf F(4,5) T(1,2) D(1) show ?thesis by (intro exI [of _ ?t] exI [of _ T]) (simp add: binary_dtree_def)
qed

lemma compile_at_depth_guards:
  "compile_tree_at_depth raw nf target = Inr t \<Longrightarrow>
   \<exists>d. analyze_raw_tree raw nf = Inr d \<and> d \<le> target \<and> target \<le> max_materialized_depth \<and> (target = 0 \<or> nf \<noteq> 0)"
proof -
  assume ok: "compile_tree_at_depth raw nf target = Inr t"
  then obtain d where d: "analyze_raw_tree raw nf = Inr d" "d \<le> target" "target \<le> max_materialized_depth"
    "\<not> (target > 0 \<and> nf = 0)"
    by (auto simp: compile_tree_at_depth_def and_then_ok not_less split: if_splits)
  moreover obtain T where "d = int (dtree_height T)" by (rule analyze_denotes [OF d(1)])
  ultimately show ?thesis by auto
qed

lemma compile_at_depth_sound:
  assumes "compile_tree_at_depth raw nf target = Inr t"
  shows "bt_depth t = target \<and> binary_wf t \<and> list_all (split_fits nf) (bt_splits t) \<and>
    (\<exists>T. raw_denotes raw 0 T \<and> int (dtree_height T) \<le> target \<and>
      (\<forall>fs. dtree_eval (binary_dtree t) fs = dtree_eval T fs))"
proof -
  obtain d where d: "analyze_raw_tree raw nf = Inr d" "d \<le> target" "target \<le> max_materialized_depth"
    "target = 0 \<or> nf \<noteq> 0"
    using compile_at_depth_guards [OF assms] by blast
  from compile_at_depth_result [OF d] assms d(2) show ?thesis by auto
qed

lemma compile_at_depth_safe: "safe (compile_tree_at_depth raw nf target)"
proof (cases "\<exists>t. compile_tree_at_depth raw nf target = Inr t")
  case True
  then show ?thesis by (auto simp: safe_def)
next
  case False
  show ?thesis
  proof (cases "analyze_raw_tree raw nf")
    case (Inl f)
    then show ?thesis using analyze_raw_tree_safe [of raw nf] by (simp add: compile_tree_at_depth_def safe_def)
  next
    case (Inr d)
    obtain T where "d = int (dtree_height T)" by (rule analyze_denotes [OF Inr])
    then have "target = 0" if "target \<le> 0" "d \<le> target" using that by simp
    with Inr False compile_at_depth_result [OF Inr, of target]
    show ?thesis by (auto simp: compile_tree_at_depth_def not_le not_less)
  qed
qed

lemma evaluate_wf:
  assumes "binary_wf t" and "list_all finite_scalar fs" and "list_all (split_fits (int (length fs))) (bt_splits t)"
  shows "binary_evaluate t fs = Inr (dtree_eval (binary_dtree t) fs)"
proof -
  have "features_cover (bt_splits t) fs"
    using assms(3) by (auto simp: features_cover_def split_fits_def list_all_iff)
  with binary_route_wf [OF assms(1,2)]
  obtain i where "binary_route t fs = Inr i" "i < 2 ^ nat (bt_depth t)"
    "dtree_eval (binary_dtree t) fs = bt_leaves t ! i"
    by (auto simp: route_outcome_def split: sum.splits)
  with assms(1) show ?thesis by (simp add: binary_evaluate_def binary_wf_def)
qed

section \<open>Properties\<close>

text \<open>
  C36. The compiler ends: the analysis of an arena, with its recursive visit, and both
  compilations return a value or an error for every arena, well formed or not; no index is out of
  range and the recursion is never deeper than the arena is long.
\<close>

theorem compile_tree_ends:
  "safe (analyze_raw_tree raw nf) \<and> safe (compile_tree_at_depth raw nf target) \<and> safe (compile_tree raw nf)"
  by (auto simp: compile_tree_def analyze_raw_tree_safe compile_at_depth_safe intro!: safe_intro)

text \<open>
  An arena the analysis accepts is a tree: its root denotes a decision tree, every node
  denotes one too, and the reported depth is the height of the root's tree.
\<close>

theorem analyze_raw_tree_sound:
  assumes "analyze_raw_tree raw nf = Inr d"
  shows "\<exists>T. raw_denotes raw 0 T \<and> d = int (dtree_height T) \<and> d \<le> max_materialized_depth \<and>
    (\<forall>j < length (raw_left raw). \<exists>U. raw_denotes raw (int j) U)"
  using assms by (rule analyze_denotes) blast

text \<open>
  CompileTreeAtDepth succeeds exactly when the analysis accepts the arena and the target
  depth can hold it; the final check of the compiled tree never fails.
\<close>

theorem compile_tree_at_depth_iff:
  "(\<exists>t. compile_tree_at_depth raw nf target = Inr t) =
   (\<exists>d. analyze_raw_tree raw nf = Inr d \<and> d \<le> target \<and> target \<le> max_materialized_depth \<and>
      (target = 0 \<or> nf \<noteq> 0))"
  using compile_at_depth_guards compile_at_depth_result by blast

text \<open>
  C35. Padding preserves the model: on finite features of the declared count, the compiled complete
  tree evaluates to the leaf that the raw arena selects.
\<close>

theorem compile_tree_preserves:
  assumes "compile_tree_at_depth raw nf target = Inr t"
    and "list_all finite_scalar fs" and "int (length fs) = nf"
  shows "bt_depth t = target \<and> binary_validate t = Inr () \<and>
    (\<exists>T. raw_denotes raw 0 T \<and> int (dtree_height T) \<le> target \<and>
      binary_evaluate t fs = Inr (dtree_eval T fs))"
  using compile_at_depth_sound [OF assms(1)] assms(2,3) evaluate_wf [of t fs]
  by (auto simp: binary_validate_ok)

section \<open>A concrete arena\<close>

text \<open>Two splits and three leaves; the left leaf lies one level above the others.\<close>

definition sample_arena :: raw_tree where
  "sample_arena = \<lparr>raw_left = [1, - 1, 3, - 1, - 1], raw_right = [2, - 1, 4, - 1, - 1],
     raw_split_index = [0, 0, 1, 0, 0],
     raw_split_cond = [0x3f800000, 0x40000000, 0x3f000000, 0x40400000, 0x40800000],
     raw_default_left = [False, False, False, False, False], raw_split_type = [0, 0, 0, 0, 0]\<rparr>"

lemma sample_arena_fields [simp]:
  "raw_left sample_arena = [1, - 1, 3, - 1, - 1]" "raw_right sample_arena = [2, - 1, 4, - 1, - 1]"
  "raw_split_index sample_arena = [0, 0, 1, 0, 0]"
  "raw_split_cond sample_arena = [0x3f800000, 0x40000000, 0x3f000000, 0x40400000, 0x40800000]"
  "raw_default_left sample_arena = [False, False, False, False, False]"
  "raw_split_type sample_arena = [0, 0, 0, 0, 0]"
  by (simp_all add: sample_arena_def)

lemma below_5: "(\<forall>i < (5 :: nat). P i) \<longleftrightarrow> P 0 \<and> P 1 \<and> P 2 \<and> P 3 \<and> P 4"
  by (auto simp: eval_nat_numeral less_Suc_eq)

lemma sample_conds_finite:
  "f32_finite 0x3f800000" "f32_finite 0x40000000" "f32_finite 0x3f000000" "f32_finite 0x40400000"
  "f32_finite 0x40800000"
  by (simp_all add: f32_finite_def fp_finite_def fp_exp_def fp_abs_def)

lemma sample_arena_nodes: "\<forall>i < 5. node_ok sample_arena 2 i"
  unfolding below_5 by (simp add: node_ok_def edges_def sample_conds_finite)

lemma sample_arena_degrees:
  "in_degree sample_arena 0 = 0" "0 < j \<Longrightarrow> j < 5 \<Longrightarrow> in_degree sample_arena (int j) = 1"
  by (auto simp: in_degree_def eval_nat_numeral less_Suc_eq edges_def)

lemma sample_arena_analysis: "analyze_raw_tree sample_arena 2 = Inr 2"
proof -
  have "visited sample_arena = Inr ([2, 2, 2, 2, 2], 2)"
    by (simp add: visited_def visit_raw.simps eval_nat_numeral at_int_def set_at_def)
  then show ?thesis
    using sample_arena_nodes sample_arena_degrees
    by (simp add: analyze_ok arena_ok_def slices_ok_def max_materialized_depth_def)
qed

definition sample_dtree :: dtree where
  "sample_dtree = DNode \<lparr>bs_feature = 0, bs_threshold = f32_scalar 0x3f800000\<rparr>
     (DLeaf (f64_scalar (f64_of_f32 0x40000000)))
     (DNode \<lparr>bs_feature = 1, bs_threshold = f32_scalar 0x3f000000\<rparr>
       (DLeaf (f64_scalar (f64_of_f32 0x40400000))) (DLeaf (f64_scalar (f64_of_f32 0x40800000))))"

lemma sample_arena_denotes: "raw_denotes sample_arena 0 sample_dtree"
proof -
  have leaf: "raw_denotes sample_arena i (DLeaf (f64_scalar (f64_of_f32 (raw_split_cond sample_arena ! nat i))))"
    if "i \<in> {1, 3, 4}" for i
    by (rule raw_denotes.raw_leaf) (use that in auto)
  have "raw_denotes sample_arena 2 (DNode \<lparr>bs_feature = 1, bs_threshold = f32_scalar 0x3f000000\<rparr>
       (DLeaf (f64_scalar (f64_of_f32 0x40400000))) (DLeaf (f64_scalar (f64_of_f32 0x40800000))))"
    using raw_denotes.raw_node [of 2 sample_arena] leaf [of 3] leaf [of 4] by simp
  then show ?thesis
    using raw_denotes.raw_node [of 0 sample_arena] leaf [of 1] by (simp add: sample_dtree_def)
qed

lemma analyze_raw_tree_sound_witness:
  "\<exists>T. raw_denotes sample_arena 0 T \<and> (2 :: int) = int (dtree_height T) \<and> 2 \<le> max_materialized_depth \<and>
    (\<forall>j < length (raw_left sample_arena). \<exists>U. raw_denotes sample_arena (int j) U)"
  by (rule analyze_raw_tree_sound [OF sample_arena_analysis])

text \<open>Padded to depth 3, the sample still predicts its middle leaf on the features 1.0 and 0.0.\<close>

definition sample_arena_features :: "scalar list" where
  "sample_arena_features = [f32_scalar 0x3f800000, f32_scalar 0]"

lemma sample_arena_eval: "dtree_eval sample_dtree sample_arena_features = f64_scalar (f64_of_f32 0x40400000)"
  by (simp add: sample_dtree_def sample_arena_features_def scalar_lt_def f32_scalar_def fp_lt_def fp_nan_def
      fp_val_def fp_neg_def fp_mag_def fp_abs_def fp_exp_def fp_frac_def mag_of_def)

theorem compile_tree_preserves_witness:
  "\<exists>t. compile_tree_at_depth sample_arena 2 3 = Inr t \<and> bt_depth t = 3 \<and>
    binary_evaluate t sample_arena_features = Inr (f64_scalar (f64_of_f32 0x40400000))"
proof -
  obtain t where t: "compile_tree_at_depth sample_arena 2 3 = Inr t"
    using compile_at_depth_result [OF sample_arena_analysis, of 3] by (auto simp: max_materialized_depth_def)
  have "f32_finite 0" by (simp add: f32_finite_def fp_finite_def fp_exp_def fp_abs_def)
  then have "list_all finite_scalar sample_arena_features" "int (length sample_arena_features) = 2"
    by (simp_all add: sample_arena_features_def finite_scalar_f32 sample_conds_finite)
  from compile_tree_preserves [OF t this] obtain T where
    "bt_depth t = 3" "raw_denotes sample_arena 0 T"
    "binary_evaluate t sample_arena_features = Inr (dtree_eval T sample_arena_features)"
    by auto
  moreover from this(2) have "T = sample_dtree" by (rule raw_denotes_unique [OF _ sample_arena_denotes])
  ultimately show ?thesis using t sample_arena_eval by auto
qed

end
