(* ===== verification/Forest.thy ===== *)
theory Forest
  imports TreeCompileCorrect
begin

text \<open>
  Complete common-depth forests: \<^verbatim>\<open>integer/treecompile/forest.go\<close>. A forest is compiled from a raw
  model, validated before every evaluation, and summed in source tree order in float64 or, for the
  regression oracle, in float32. \<^verbatim>\<open>math.Log\<close> and \<^verbatim>\<open>math.Exp\<close> are parameters.
\<close>

section \<open>Data\<close>

type_synonym base_score_encoding = string
type_synonym output_transform = string

definition base_score_probability :: base_score_encoding where
  "base_score_probability = ''probability_logit''"

definition base_score_raw_margin :: base_score_encoding where
  "base_score_raw_margin = ''raw_margin''"

definition output_raw_margin :: output_transform where
  "output_raw_margin = ''raw_margin''"

definition output_logistic_probability :: output_transform where
  "output_logistic_probability = ''logistic_probability''"

record model_semantics =
  ms_base_score :: base_score_encoding
  ms_output :: output_transform

record forest =
  fo_num_features :: int
  fo_depth :: int
  fo_source_base_score :: "64 word"
  fo_base_margin :: "64 word"
  fo_semantics :: model_semantics
  fo_trees :: "binary_tree list"

datatype forest_error =
  ForestFeatureCount int
| UnknownBaseScore base_score_encoding
| UnknownOutput output_transform
| ErrOutputGroup int
| TreeInfoLength nat nat
| TreeOutputGroup nat int
| ProbabilityOutOfRange "64 word"
| RawMarginNonFinite
| ForestTree nat tree_error
| CommonDepth int
| SourceBaseScoreNonFinite
| BaseMarginNonFinite
| ForestTreeDepth nat int int
| ForestTreeInvalid nat binary_error
| ForestSplitFeature nat nat int int
| FeatureCountMismatch nat int
| ErrMissingValue nat
| FeatureNonFinite nat
| TreeEvaluation nat binary_error
| MarginNonFinite nat
| BaseMarginNotFloat32
| InputShape int int nat int
| RowFailed nat forest_error

section \<open>Compilation\<close>

definition known_base_score :: "base_score_encoding \<Rightarrow> bool" where
  "known_base_score s \<longleftrightarrow> s = base_score_probability \<or> s = base_score_raw_margin"

definition known_output :: "output_transform \<Rightarrow> bool" where
  "known_output s \<longleftrightarrow> s = output_raw_margin \<or> s = output_logistic_probability"

definition base_margin_of ::
  "(64 word \<Rightarrow> 64 word) \<Rightarrow> 64 word \<Rightarrow> base_score_encoding \<Rightarrow> (forest_error, 64 word) res" where
  "base_margin_of log_fn base enc =
     (if enc = base_score_probability then
        if \<not> (f64_lt 0 base \<and> f64_lt base f64_one) \<or> f64_nan base then err (ProbabilityOutOfRange base)
        else Inr (log_fn (f64_div base (f64_sub f64_one base)))
      else if enc = base_score_raw_margin then
        if f64_nan base \<or> f64_inf base then err RawMarginNonFinite else Inr base
      else Inr base)"

definition common_depth_of :: "raw_model \<Rightarrow> (forest_error, int) res" where
  "common_depth_of raw =
     fold_each (\<lambda>i tree depth.
       and_then (map_err (ForestTree i) (analyze_raw_tree tree (rm_num_feature raw)))
         (\<lambda>max_depth. Inr (if max_depth > depth then max_depth else depth)))
       0 (rm_trees raw) 0"

definition compile_model ::
  "(64 word \<Rightarrow> 64 word) \<Rightarrow> raw_model \<Rightarrow> model_semantics \<Rightarrow> (forest_error, forest) res" where
  "compile_model log_fn raw sem =
     (if rm_num_feature raw < 0 then err (ForestFeatureCount (rm_num_feature raw))
      else if \<not> known_base_score (ms_base_score sem) then err (UnknownBaseScore (ms_base_score sem))
      else if \<not> known_output (ms_output sem) then err (UnknownOutput (ms_output sem))
      else if rm_num_output_group raw < 0 \<or> rm_num_output_group raw > 1
        then err (ErrOutputGroup (rm_num_output_group raw))
      else if length (rm_tree_info raw) \<noteq> 0 \<and> length (rm_tree_info raw) \<noteq> length (rm_trees raw)
        then err (TreeInfoLength (length (rm_tree_info raw)) (length (rm_trees raw)))
      else and_then (check_each (\<lambda>i group. reject_if (group \<noteq> 0) (TreeOutputGroup i group)) 0 (rm_tree_info raw))
        (\<lambda>_. and_then (base_margin_of log_fn (rm_base_score raw) (ms_base_score sem)) (\<lambda>margin.
        and_then (common_depth_of raw) (\<lambda>depth.
        and_then (map_each (\<lambda>i tree.
            map_err (ForestTree i) (compile_tree_at_depth tree (rm_num_feature raw) depth)) 0 (rm_trees raw))
          (\<lambda>trees. Inr \<lparr>fo_num_features = rm_num_feature raw, fo_depth = depth,
             fo_source_base_score = rm_base_score raw, fo_base_margin = margin,
             fo_semantics = sem, fo_trees = trees\<rparr>)))))"

section \<open>Validation\<close>

definition forest_tree_check :: "forest \<Rightarrow> nat \<Rightarrow> binary_tree \<Rightarrow> (forest_error, unit) res" where
  "forest_tree_check f i tree =
     (if bt_depth tree \<noteq> fo_depth f then err (ForestTreeDepth i (bt_depth tree) (fo_depth f))
      else and_then (map_err (ForestTreeInvalid i) (binary_validate tree)) (\<lambda>_.
        check_each (\<lambda>j split. reject_if (bs_feature split \<ge> fo_num_features f)
          (ForestSplitFeature i j (bs_feature split) (fo_num_features f))) 0 (bt_splits tree)))"

definition forest_validate :: "forest \<Rightarrow> (forest_error, unit) res" where
  "forest_validate f =
     (if fo_num_features f < 0 then err (ForestFeatureCount (fo_num_features f))
      else if fo_depth f < 0 \<or> fo_depth f > max_materialized_depth then err (CommonDepth (fo_depth f))
      else if f64_nan (fo_source_base_score f) \<or> f64_inf (fo_source_base_score f)
        then err SourceBaseScoreNonFinite
      else if f64_nan (fo_base_margin f) \<or> f64_inf (fo_base_margin f) then err BaseMarginNonFinite
      else if \<not> known_base_score (ms_base_score (fo_semantics f))
        then err (UnknownBaseScore (ms_base_score (fo_semantics f)))
      else if \<not> known_output (ms_output (fo_semantics f)) then err (UnknownOutput (ms_output (fo_semantics f)))
      else check_each (forest_tree_check f) 0 (fo_trees f))"

definition forest_validate_features :: "forest \<Rightarrow> 32 word list \<Rightarrow> (forest_error, unit) res" where
  "forest_validate_features f features =
     (if int (length features) \<noteq> fo_num_features f
        then err (FeatureCountMismatch (length features) (fo_num_features f))
      else check_each (\<lambda>i v. if f32_nan v then err (ErrMissingValue i)
             else if f32_inf v then err (FeatureNonFinite i) else Inr ()) 0 features)"

section \<open>Evaluation\<close>

text \<open>The trees read float32 features; their leaves are float64 values.\<close>

definition tree_leaf :: "nat \<Rightarrow> binary_tree \<Rightarrow> 32 word list \<Rightarrow> (forest_error, 64 word) res" where
  "tree_leaf i tree features =
     and_then (map_err (TreeEvaluation i) (binary_evaluate tree (map f32_scalar features)))
       (\<lambda>leaf. Inr (scalar_bits leaf))"

definition raw_margin :: "forest \<Rightarrow> 32 word list \<Rightarrow> (forest_error, 64 word) res" where
  "raw_margin f features =
     and_then (forest_validate f) (\<lambda>_.
     and_then (forest_validate_features f features) (\<lambda>_.
     fold_each (\<lambda>i tree sum. and_then (tree_leaf i tree features) (\<lambda>leaf.
       let sum = f64_add sum leaf
       in if f64_nan sum \<or> f64_inf sum then err (MarginNonFinite i) else Inr sum))
       0 (fo_trees f) (fo_base_margin f)))"

definition raw_margin_float32 :: "forest \<Rightarrow> 32 word list \<Rightarrow> (forest_error, 32 word) res" where
  "raw_margin_float32 f features =
     and_then (forest_validate f) (\<lambda>_.
     and_then (forest_validate_features f features) (\<lambda>_.
     let sum = f32_of_f64 (fo_base_margin f)
     in if f32_nan sum \<or> f32_inf sum then err BaseMarginNotFloat32
     else fold_each (\<lambda>i tree sum. and_then (tree_leaf i tree features) (\<lambda>leaf.
       let sum = f32_add sum (f32_of_f64 leaf)
       in if f32_nan sum \<or> f32_inf sum then err (MarginNonFinite i) else Inr sum))
       0 (fo_trees f) sum))"

definition sigmoid :: "(64 word \<Rightarrow> 64 word) \<Rightarrow> 64 word \<Rightarrow> 64 word" where
  "sigmoid exp_fn margin =
     (if f64_ge margin 0 then f64_div f64_one (f64_add f64_one (exp_fn (f64_negate margin)))
      else let e = exp_fn margin in f64_div e (f64_add f64_one e))"

definition predict :: "(64 word \<Rightarrow> 64 word) \<Rightarrow> forest \<Rightarrow> 32 word list \<Rightarrow> (forest_error, 64 word) res" where
  "predict exp_fn f features =
     and_then (raw_margin f features) (\<lambda>margin.
       if ms_output (fo_semantics f) = output_raw_margin then Inr margin
       else if ms_output (fo_semantics f) = output_logistic_probability then Inr (sigmoid exp_fn margin)
       else err (UnknownOutput (ms_output (fo_semantics f))))"

text \<open>
  A slice expression panics when its bounds are not ordered or exceed the slice (whose capacity
  is taken to be its length). The two products are int, so they wrap.
\<close>

definition slice_of :: "'a list \<Rightarrow> int \<Rightarrow> int \<Rightarrow> ('e, 'a list) res" where
  "slice_of xs lo hi =
     (if 0 \<le> lo \<and> lo \<le> hi \<and> hi \<le> int (length xs) then Inr (take (nat (hi - lo)) (drop (nat lo) xs))
      else Inl Panic)"

definition predict_rows ::
  "(64 word \<Rightarrow> 64 word) \<Rightarrow> forest \<Rightarrow> raw_input \<Rightarrow> (forest_error, 64 word list) res" where
  "predict_rows exp_fn f input =
     (if ri_n input < 0 \<or> ri_f input \<noteq> fo_num_features f \<or>
         int (length (ri_x input)) \<noteq> wrap64 (ri_n input * ri_f input)
        then err (InputShape (ri_n input) (ri_f input) (length (ri_x input)) (fo_num_features f))
      else map_each (\<lambda>_ row.
        and_then (slice_of (ri_x input) (wrap64 (int row * ri_f input)) (wrap64 ((int row + 1) * ri_f input)))
          (\<lambda>features. map_err (RowFailed row) (predict exp_fn f features)))
        0 [0..<nat (ri_n input)])"

section \<open>Valid forests\<close>

definition forest_wf :: "forest \<Rightarrow> bool" where
  "forest_wf f \<longleftrightarrow> 0 \<le> fo_num_features f \<and> 0 \<le> fo_depth f \<and> fo_depth f \<le> max_materialized_depth \<and>
     f64_finite (fo_source_base_score f) \<and> f64_finite (fo_base_margin f) \<and>
     known_base_score (ms_base_score (fo_semantics f)) \<and> known_output (ms_output (fo_semantics f)) \<and>
     list_all (\<lambda>t. bt_depth t = fo_depth f \<and> binary_wf t \<and> list_all (split_fits (fo_num_features f)) (bt_splits t))
       (fo_trees f)"

lemma f64_finite_iff: "f64_finite x \<longleftrightarrow> \<not> (f64_nan x \<or> f64_inf x)"
  by (simp add: f64_finite_def f64_nan_def f64_inf_def fp_finite_iff)

lemma forest_tree_check_ok [ok_iff]:
  "forest_tree_check f i t = Inr u \<longleftrightarrow>
     bt_depth t = fo_depth f \<and> binary_wf t \<and> list_all (split_fits (fo_num_features f)) (bt_splits t)"
  by (auto simp: forest_tree_check_def ok_iff list_all_iff_nth split_fits_def binary_wf_def not_le)

lemma forest_validate_ok [ok_iff]: "forest_validate f = Inr u \<longleftrightarrow> forest_wf f"
  by (auto simp: forest_validate_def forest_wf_def f64_finite_iff check_each_ok forest_tree_check_ok
      list_all_iff_nth)

lemma forest_validate_features_ok [ok_iff]:
  "forest_validate_features f fs = Inr u \<longleftrightarrow> int (length fs) = fo_num_features f \<and> list_all f32_finite fs"
  by (auto simp: forest_validate_features_def check_each_ok list_all_iff_nth f32_finite_iff)

lemma forest_validate_safe [simp]: "safe (forest_validate f)"
  by (auto simp: forest_validate_def forest_tree_check_def intro!: safe_intro)

lemma forest_validate_features_safe [simp]: "safe (forest_validate_features f fs)"
  by (auto simp: forest_validate_features_def intro!: safe_intro)

section \<open>Compiled forests\<close>

lemma fold_max_depth:
  assumes "fold_each (\<lambda>i tree depth.
       and_then (map_err (ForestTree i) (analyze_raw_tree tree nf))
         (\<lambda>max_depth. Inr (if max_depth > depth then max_depth else depth))) k trees d = Inr depth"
  shows "d \<le> depth \<and> (\<forall>t \<in> set trees. \<exists>e. analyze_raw_tree t nf = Inr e \<and> e \<le> depth) \<and>
    (depth = d \<or> (\<exists>t \<in> set trees. analyze_raw_tree t nf = Inr depth))"
  using assms
proof (induction trees arbitrary: k d)
  case Nil
  then show ?case by simp
next
  case (Cons t trees)
  then obtain e where e: "analyze_raw_tree t nf = Inr e"
    and rest: "fold_each (\<lambda>i tree depth.
       and_then (map_err (ForestTree i) (analyze_raw_tree tree nf))
         (\<lambda>max_depth. Inr (if max_depth > depth then max_depth else depth))) (Suc k) trees (max d e) = Inr depth"
    by (auto simp: ok_iff max_def split: if_splits)
  from Cons.IH [OF rest] e show ?case by (auto simp: max_def split: if_splits)
qed

lemma common_depth_ok:
  assumes "common_depth_of raw = Inr depth"
  shows "0 \<le> depth \<and> depth \<le> max_materialized_depth \<and>
    (\<forall>t \<in> set (rm_trees raw). \<exists>e. analyze_raw_tree t (rm_num_feature raw) = Inr e \<and> e \<le> depth)"
proof -
  note depth = fold_max_depth [OF assms [unfolded common_depth_of_def]]
  moreover have "depth \<le> max_materialized_depth"
  proof (cases "depth = 0")
    case True
    then show ?thesis by (simp add: max_materialized_depth_def)
  next
    case False
    with depth obtain t where "analyze_raw_tree t (rm_num_feature raw) = Inr depth" by auto
    then show ?thesis by (simp add: analyze_ok)
  qed
  ultimately show ?thesis by simp
qed

lemma f64_below_one_finite:
  assumes "f64_lt 0 x" and "f64_lt x f64_one"
  shows "f64_finite x"
proof -
  have nan: "\<not> fp_nan 11 52 (unat x)" and pos: "0 < fp_val 11 52 (unat x)"
    and below: "fp_val 11 52 (unat x) < fp_val 11 52 (unat f64_one)"
    using assms f64_zero(1) by (auto simp: f64_lt_def fp_lt_def f64_val_def)
  have sign: "\<not> fp_neg 11 52 (unat x)" using pos by (auto simp: fp_val_def)
  then have "fp_mag 11 52 (unat x) < fp_mag 11 52 (unat f64_one)"
    using below f64_one_abs(2) by (simp add: fp_val_def)
  then have "fp_abs 11 52 (unat x) < 1023 * 2 ^ 52"
    using f64_one_abs(1) by (simp only: fp_mag_def mag_of_less_iff)
  then have "fp_abs 11 52 (unat x) < fp_inf_pattern 11 52" by (simp add: fp_inf_pattern_def)
  then show ?thesis by (simp add: f64_finite_abs)
qed

lemma base_margin_source:
  "base_margin_of log_fn base enc = Inr m \<Longrightarrow> known_base_score enc \<Longrightarrow> f64_finite base"
  by (auto simp: base_margin_of_def known_base_score_def f64_below_one_finite split: if_splits)
    (simp_all add: f64_finite_iff)

lemma compile_model_result:
  assumes "compile_model log_fn raw sem = Inr f"
  shows "fo_num_features f = rm_num_feature raw" "fo_semantics f = sem"
    "fo_source_base_score f = rm_base_score raw"
    "f64_finite (fo_base_margin f) \<Longrightarrow> forest_wf f"
    "list_all2 (\<lambda>r t. compile_tree_at_depth r (rm_num_feature raw) (fo_depth f) = Inr t) (rm_trees raw) (fo_trees f)"
proof -
  obtain trees where g: "\<not> rm_num_feature raw < 0" "known_base_score (ms_base_score sem)" "known_output (ms_output sem)"
    and m: "base_margin_of log_fn (rm_base_score raw) (ms_base_score sem) = Inr (fo_base_margin f)"
    and d: "common_depth_of raw = Inr (fo_depth f)"
    and t: "map_each (\<lambda>i tree.
            map_err (ForestTree i) (compile_tree_at_depth tree (rm_num_feature raw) (fo_depth f))) 0 (rm_trees raw) = Inr trees"
    and f: "fo_num_features f = rm_num_feature raw" "fo_semantics f = sem"
      "fo_source_base_score f = rm_base_score raw" "fo_trees f = trees"
    using assms by (auto simp: compile_model_def and_then_ok split: if_splits)
  show "fo_num_features f = rm_num_feature raw" "fo_semantics f = sem" "fo_source_base_score f = rm_base_score raw"
    by (fact f)+
  show all: "list_all2 (\<lambda>r t. compile_tree_at_depth r (rm_num_feature raw) (fo_depth f) = Inr t) (rm_trees raw) (fo_trees f)"
    using t by (auto simp: map_each_ok map_err_ok f(4) list_all2_conv_all_nth)
  have "list_all (\<lambda>t. bt_depth t = fo_depth f \<and> binary_wf t \<and> list_all (split_fits (fo_num_features f)) (bt_splits t))
      (fo_trees f)"
    using all compile_at_depth_sound by (fastforce simp: list_all2_conv_all_nth list_all_iff_nth f(1))
  then show "forest_wf f" if "f64_finite (fo_base_margin f)"
    using that g common_depth_ok [OF d] base_margin_source [OF m g(2)] f by (simp add: forest_wf_def)
qed

section \<open>Margins\<close>

text \<open>The specification of both accumulations: leaves added one by one, each sum checked.\<close>

fun sum_margins ::
  "('a \<Rightarrow> 64 word \<Rightarrow> 'a) \<Rightarrow> ('a \<Rightarrow> bool) \<Rightarrow> nat \<Rightarrow> 64 word list \<Rightarrow> 'a \<Rightarrow> (forest_error, 'a) res" where
  "sum_margins add good i [] m = Inr m"
| "sum_margins add good i (v # vs) m =
     (if good (add m v) then sum_margins add good (Suc i) vs (add m v) else err (MarginNonFinite i))"

lemma sum_margins_good: "sum_margins add good i vs m = Inr m' \<Longrightarrow> good m \<Longrightarrow> good m'"
  by (induction vs arbitrary: i m) (auto split: if_splits)

definition wf_tree_for :: "int \<Rightarrow> binary_tree \<Rightarrow> bool" where
  "wf_tree_for nf t \<longleftrightarrow> binary_wf t \<and> list_all (split_fits nf) (bt_splits t)"

lemma tree_leaf_wf:
  assumes "wf_tree_for (int (length fs)) t" and "list_all f32_finite fs"
  shows "tree_leaf i t fs = Inr (scalar_bits (dtree_eval (binary_dtree t) (map f32_scalar fs)))"
proof -
  have "list_all finite_scalar (map f32_scalar fs)"
    using assms(2) by (simp add: list_all_iff finite_scalar_f32)
  with evaluate_wf [of t "map f32_scalar fs"] assms(1) show ?thesis
    by (simp add: tree_leaf_def wf_tree_for_def)
qed

lemma fold_margins:
  assumes "list_all f32_finite fs"
  shows "list_all (wf_tree_for (int (length fs))) ts \<Longrightarrow>
    fold_each (\<lambda>i tree sum. and_then (tree_leaf i tree fs) (\<lambda>leaf.
       let sum = add sum leaf in if \<not> good sum then err (MarginNonFinite i) else Inr sum)) k ts m =
    sum_margins add good k (map (\<lambda>t. scalar_bits (dtree_eval (binary_dtree t) (map f32_scalar fs))) ts) m"
  by (induction ts arbitrary: k m) (simp_all add: tree_leaf_wf [OF _ assms] Let_def)

lemma forest_wf_trees: "forest_wf f \<Longrightarrow> list_all (wf_tree_for (fo_num_features f)) (fo_trees f)"
  by (auto simp: forest_wf_def wf_tree_for_def list_all_iff)

definition forest_leaves :: "forest \<Rightarrow> 32 word list \<Rightarrow> 64 word list" where
  "forest_leaves f fs = map (\<lambda>t. scalar_bits (dtree_eval (binary_dtree t) (map f32_scalar fs))) (fo_trees f)"

lemma raw_margin_wf:
  assumes "forest_wf f" and "int (length fs) = fo_num_features f" and "list_all f32_finite fs"
  shows "raw_margin f fs = sum_margins f64_add f64_finite 0 (forest_leaves f fs) (fo_base_margin f)"
    and "raw_margin_float32 f fs =
      (let m = f32_of_f64 (fo_base_margin f)
       in if f32_finite m then sum_margins (\<lambda>m v. f32_add m (f32_of_f64 v)) f32_finite 0 (forest_leaves f fs) m
          else err BaseMarginNotFloat32)"
proof -
  have v: "forest_validate f = Inr ()" "forest_validate_features f fs = Inr ()"
    using assms by (simp_all add: ok_iff)
  have t: "list_all (wf_tree_for (int (length fs))) (fo_trees f)"
    using forest_wf_trees [OF assms(1)] assms(2) by simp
  show "raw_margin f fs = sum_margins f64_add f64_finite 0 (forest_leaves f fs) (fo_base_margin f)"
    using fold_margins [OF assms(3) t, of f64_add f64_finite]
    by (simp add: raw_margin_def v forest_leaves_def f64_finite_iff)
  show "raw_margin_float32 f fs =
      (let m = f32_of_f64 (fo_base_margin f)
       in if f32_finite m then sum_margins (\<lambda>m v. f32_add m (f32_of_f64 v)) f32_finite 0 (forest_leaves f fs) m
          else err BaseMarginNotFloat32)"
    using fold_margins [OF assms(3) t, of "\<lambda>m v. f32_add m (f32_of_f64 v)" f32_finite]
    by (simp add: raw_margin_float32_def v forest_leaves_def f32_finite_iff Let_def)
qed

lemma raw_margin_guards: "raw_margin f fs = Inr m \<Longrightarrow> forest_wf f \<and> int (length fs) = fo_num_features f \<and> list_all f32_finite fs"
  by (auto simp: raw_margin_def ok_iff)

lemma raw_margin_float32_guards:
  "raw_margin_float32 f fs = Inr m \<Longrightarrow> forest_wf f \<and> int (length fs) = fo_num_features f \<and> list_all f32_finite fs"
  by (auto simp: raw_margin_float32_def ok_iff)

lemma raw_margin_finite: "raw_margin f fs = Inr m \<Longrightarrow> f64_finite m"
  using raw_margin_guards [of f fs m] raw_margin_wf(1) [of f fs] sum_margins_good
  by (fastforce simp: forest_wf_def)

lemma raw_margin_float32_finite: "raw_margin_float32 f fs = Inr m \<Longrightarrow> f32_finite m"
  using raw_margin_float32_guards [of f fs m] raw_margin_wf(2) [of f fs] sum_margins_good
  by (fastforce simp: Let_def split: if_splits)

lemma sum_margins_safe: "safe (sum_margins add good i vs m)"
  by (induction vs arbitrary: i m) simp_all

lemma raw_margin_safe: "safe (raw_margin f fs)"
proof (cases "forest_wf f \<and> int (length fs) = fo_num_features f \<and> list_all f32_finite fs")
  case True
  then show ?thesis by (simp add: raw_margin_wf sum_margins_safe)
next
  case False
  then show ?thesis by (auto simp: raw_margin_def ok_iff intro!: safe_and_then)
qed

lemma predict_safe: "safe (predict exp_fn f fs)"
  by (auto simp: predict_def raw_margin_safe intro!: safe_and_then)

section \<open>Rows\<close>

lemma row_bounds:
  assumes "0 \<le> width" and "n * width \<le> max_int64" and "0 \<le> k" and "k \<le> n"
  shows "wrap64 (k * width) = k * width" and "0 \<le> k * width" and "k * width \<le> n * width"
proof -
  show ge: "0 \<le> k * width" using assms by simp
  show le: "k * width \<le> n * width" using assms by (intro mult_right_mono)
  show "wrap64 (k * width) = k * width"
    by (rule wrap64_id) (use ge order_trans [OF le assms(2)] order_trans [OF _ ge, of "- (2 ^ 63)"] in auto)
qed

definition row_of :: "raw_input \<Rightarrow> nat \<Rightarrow> 32 word list" where
  "row_of input row = take (nat (ri_f input)) (drop (row * nat (ri_f input)) (ri_x input))"

lemma predict_rows_no_wrap:
  assumes "0 \<le> ri_n input" and "0 \<le> ri_f input" and "ri_n input * ri_f input \<le> max_int64"
  shows "predict_rows exp_fn f input =
     (if ri_f input \<noteq> fo_num_features f \<or> int (length (ri_x input)) \<noteq> ri_n input * ri_f input
        then err (InputShape (ri_n input) (ri_f input) (length (ri_x input)) (fo_num_features f))
      else map_each (\<lambda>_ row. map_err (RowFailed row) (predict exp_fn f (row_of input row))) 0 [0..<nat (ri_n input)])"
proof (cases "ri_f input \<noteq> fo_num_features f \<or> int (length (ri_x input)) \<noteq> ri_n input * ri_f input")
  case True
  then show ?thesis
    using assms row_bounds [OF assms(2,3) assms(1) order_refl] by (auto simp: predict_rows_def)
next
  case False
  have slice: "slice_of (ri_x input) (wrap64 (int row * ri_f input)) (wrap64 ((int row + 1) * ri_f input)) =
      Inr (row_of input row)" if "row < nat (ri_n input)" for row
  proof -
    note lo = row_bounds [OF assms(2,3), of "int row"] and hi = row_bounds [OF assms(2,3), of "int row + 1"]
    have "nat (int row * ri_f input) = row * nat (ri_f input)" by (simp add: nat_mult_distrib)
    moreover have "(int row + 1) * ri_f input - int row * ri_f input = ri_f input" by (simp add: algebra_simps)
    moreover have "int row * ri_f input \<le> (int row + 1) * ri_f input"
      using assms(2) by (intro mult_right_mono) simp_all
    ultimately show ?thesis using lo hi that False by (simp add: slice_of_def row_of_def)
  qed
  have "map_each (\<lambda>_ row. and_then (slice_of (ri_x input) (wrap64 (int row * ri_f input)) (wrap64 ((int row + 1) * ri_f input)))
          (\<lambda>features. map_err (RowFailed row) (predict exp_fn f features))) k rows =
        map_each (\<lambda>_ row. map_err (RowFailed row) (predict exp_fn f (row_of input row))) k rows"
    if "list_all (\<lambda>r. r < nat (ri_n input)) rows" for k rows
    using that by (induction rows arbitrary: k) (simp_all add: slice)
  from this [of "[0..<nat (ri_n input)]" 0] show ?thesis
    using False assms row_bounds [OF assms(2,3) assms(1) order_refl]
    by (simp add: predict_rows_def list_all_iff)
qed

section \<open>Properties\<close>

text \<open>
  A forest CompileModel returns passes its own validation, whatever the raw model, as soon as
  its base margin is finite, and carries the source's feature count, base score and semantics.
\<close>

theorem compile_model_validates:
  assumes "compile_model log_fn raw sem = Inr f" and "f64_finite (fo_base_margin f)"
  shows "forest_validate f = Inr () \<and> fo_num_features f = rm_num_feature raw \<and>
    fo_source_base_score f = rm_base_score raw \<and> fo_semantics f = sem \<and>
    length (fo_trees f) = length (rm_trees raw)"
  using compile_model_result [OF assms(1)] assms(2) by (auto simp: forest_validate_ok list_all2_lengthD)

text \<open>
  C37. The float64 oracle of a compiled model predicts what the raw arenas predict: each arena
  denotes a decision tree, and the margin is the base margin plus their leaves, added in source
  order, or the error of the first sum that overflows.
\<close>

theorem raw_margin_of_model:
  assumes "compile_model log_fn raw sem = Inr f" and "f64_finite (fo_base_margin f)"
    and "int (length fs) = rm_num_feature raw" and "list_all f32_finite fs"
  shows "\<exists>Ts. list_all2 (\<lambda>r T. raw_denotes r 0 T) (rm_trees raw) Ts \<and>
    raw_margin f fs = sum_margins f64_add f64_finite 0
      (map (\<lambda>T. scalar_bits (dtree_eval T (map f32_scalar fs))) Ts) (fo_base_margin f)"
proof -
  note res = compile_model_result [OF assms(1)]
  have "\<exists>T. raw_denotes (rm_trees raw ! i) 0 T \<and> (\<forall>xs. dtree_eval (binary_dtree (fo_trees f ! i)) xs = dtree_eval T xs)"
    if "i < length (rm_trees raw)" for i
    using compile_at_depth_sound res(5) that by (meson list_all2_nthD)
  then obtain T where T: "\<And>i. i < length (rm_trees raw) \<Longrightarrow> raw_denotes (rm_trees raw ! i) 0 (T i) \<and>
      (\<forall>xs. dtree_eval (binary_dtree (fo_trees f ! i)) xs = dtree_eval (T i) xs)"
    by metis
  let ?Ts = "map T [0..<length (rm_trees raw)]"
  have len: "length (fo_trees f) = length (rm_trees raw)" using list_all2_lengthD [OF res(5)] by simp
  have "forest_leaves f fs = map (\<lambda>T. scalar_bits (dtree_eval T (map f32_scalar fs))) ?Ts"
    unfolding forest_leaves_def by (rule nth_equalityI) (simp_all add: len T)
  moreover have "list_all2 (\<lambda>r T. raw_denotes r 0 T) (rm_trees raw) ?Ts"
    by (simp add: list_all2_conv_all_nth T)
  ultimately show ?thesis using raw_margin_wf(1) [of f fs] res(1,4) assms by auto
qed

text \<open>
  Both margin oracles end with a value or an error, and a margin they return is finite.
\<close>

theorem margins_finite:
  "safe (raw_margin f fs) \<and> (\<forall>m. raw_margin f fs = Inr m \<longrightarrow> f64_finite m) \<and>
   (\<forall>m. raw_margin_float32 f fs = Inr m \<longrightarrow> f32_finite m)"
  using raw_margin_safe raw_margin_finite raw_margin_float32_finite by blast

text \<open>
  PredictRows is Predict on every row: when the shape does not overflow an int, it returns
  values exactly for an input of the forest's width whose rows all predict, in row order, and it
  never panics.
\<close>

theorem predict_rows_iff:
  assumes "0 \<le> ri_n input" and "0 \<le> ri_f input" and "ri_n input * ri_f input \<le> max_int64"
  shows "safe (predict_rows exp_fn f input) \<and>
    (predict_rows exp_fn f input = Inr out \<longleftrightarrow>
       ri_f input = fo_num_features f \<and> int (length (ri_x input)) = ri_n input * ri_f input \<and>
       int (length out) = ri_n input \<and>
       (\<forall>row < length out. predict exp_fn f (row_of input row) = Inr (out ! row)))"
proof (intro conjI)
  show "safe (predict_rows exp_fn f input)"
    by (auto simp: predict_rows_no_wrap [OF assms] predict_safe intro!: safe_intro)
  show "predict_rows exp_fn f input = Inr out \<longleftrightarrow>
       ri_f input = fo_num_features f \<and> int (length (ri_x input)) = ri_n input * ri_f input \<and>
       int (length out) = ri_n input \<and>
       (\<forall>row < length out. predict exp_fn f (row_of input row) = Inr (out ! row))"
    using assms(1) by (auto simp: predict_rows_no_wrap [OF assms] map_each_ok map_err_ok)
qed

section \<open>A concrete model\<close>

definition sample_semantics :: model_semantics where
  "sample_semantics = \<lparr>ms_base_score = base_score_raw_margin, ms_output = output_raw_margin\<rparr>"

definition sample_model :: raw_model where
  "sample_model = \<lparr>rm_base_score = 0, rm_num_feature = 2, rm_num_output_group = 1, rm_tree_info = [0],
     rm_trees = [sample_arena]\<rparr>"

lemma encodings_differ [simp]: "base_score_raw_margin \<noteq> base_score_probability"
  by (simp add: base_score_raw_margin_def base_score_probability_def)

lemma sample_model_compiles: "\<exists>f. compile_model id sample_model sample_semantics = Inr f \<and> f64_finite (fo_base_margin f)"
proof -
  obtain t where "compile_tree_at_depth sample_arena 2 2 = Inr t"
    using compile_at_depth_result [OF sample_arena_analysis, of 2] by (auto simp: max_materialized_depth_def)
  moreover have "f64_finite 0" by (rule f64_zero)
  ultimately show ?thesis
    by (simp add: compile_model_def sample_model_def sample_semantics_def known_base_score_def known_output_def
        base_margin_of_def common_depth_of_def sample_arena_analysis f64_finite_iff)
qed

theorem compile_model_validates_witness:
  "\<exists>f. compile_model id sample_model sample_semantics = Inr f \<and> forest_validate f = Inr () \<and>
    fo_num_features f = 2 \<and> length (fo_trees f) = 1"
proof -
  obtain f where f: "compile_model id sample_model sample_semantics = Inr f" "f64_finite (fo_base_margin f)"
    using sample_model_compiles by blast
  from compile_model_validates [OF f] f(1) show ?thesis by (auto simp: sample_model_def)
qed

theorem raw_margin_of_model_witness:
  "\<exists>f. compile_model id sample_model sample_semantics = Inr f \<and>
    raw_margin f [0x3f800000, 0] =
      sum_margins f64_add f64_finite 0 [f64_of_f32 0x40400000] (fo_base_margin f)"
proof -
  obtain f where f: "compile_model id sample_model sample_semantics = Inr f" "f64_finite (fo_base_margin f)"
    using sample_model_compiles by blast
  have "f32_finite 0" by (simp add: f32_finite_def fp_finite_def fp_exp_def fp_abs_def)
  then have "int (length [0x3f800000, 0 :: 32 word]) = rm_num_feature sample_model"
    "list_all f32_finite [0x3f800000, 0]"
    by (simp_all add: sample_model_def sample_conds_finite)
  from raw_margin_of_model [OF f this] obtain T where "raw_denotes sample_arena 0 T"
    "raw_margin f [0x3f800000, 0] = sum_margins f64_add f64_finite 0
      [scalar_bits (dtree_eval T sample_arena_features)] (fo_base_margin f)"
    by (auto simp: sample_model_def list_all2_Cons1 sample_arena_features_def)
  moreover from this(1) have "T = sample_dtree" by (rule raw_denotes_unique [OF _ sample_arena_denotes])
  ultimately show ?thesis using f(1) by (auto simp: sample_arena_eval f64_scalar_def)
qed

definition empty_forest :: "int \<Rightarrow> forest" where
  "empty_forest nf = \<lparr>fo_num_features = nf, fo_depth = 0, fo_source_base_score = 0, fo_base_margin = 0,
     fo_semantics = sample_semantics, fo_trees = []\<rparr>"

lemma empty_forest_wf: "0 \<le> nf \<Longrightarrow> forest_wf (empty_forest nf)"
  by (simp add: forest_wf_def empty_forest_def f64_zero sample_semantics_def known_base_score_def known_output_def
      max_materialized_depth_def)

lemma empty_forest_predict:
  "0 \<le> nf \<Longrightarrow> int (length fs) = nf \<Longrightarrow> list_all f32_finite fs \<Longrightarrow> predict id (empty_forest nf) fs = Inr 0"
  using raw_margin_wf(1) [OF empty_forest_wf, of nf fs]
  by (simp add: predict_def empty_forest_def sample_semantics_def forest_leaves_def)

lemma margins_finite_witness:
  "f64_finite 0 \<and> f32_finite (f32_of_f64 0)"
proof -
  have "raw_margin (empty_forest 0) [] = Inr 0"
    using raw_margin_wf(1) [OF empty_forest_wf, of 0 "[]"] by (simp add: empty_forest_def forest_leaves_def)
  moreover have "raw_margin_float32 (empty_forest 0) [] = Inr (f32_of_f64 0)"
    using raw_margin_wf(2) [OF empty_forest_wf, of 0 "[]"]
    by (simp add: empty_forest_def forest_leaves_def f32_of_f64_def fp_nan_def fp_inf_def fp_exp_def fp_abs_def
        fp_mag_def fp_round_def fp_neg_def f32_finite_def fp_finite_def pack_mag_def rne_shift_def
        fp_sign_bit_def fp_scale_def)
  ultimately show ?thesis using margins_finite [of "empty_forest 0" "[]"] by blast
qed

definition two_rows :: raw_input where
  "two_rows = \<lparr>ri_n = 2, ri_f = 2, ri_x = [0, 0, 0, 0]\<rparr>"

theorem predict_rows_iff_witness: "predict_rows id (empty_forest 2) two_rows = Inr [0, 0]"
proof -
  have z: "f32_finite 0" by (simp add: f32_finite_def fp_finite_def fp_exp_def fp_abs_def)
  have "row_of two_rows row = [0, 0]" if "row < 2" for row
    using that by (cases row) (auto simp: row_of_def two_rows_def)
  then have "\<forall>row < 2. predict id (empty_forest 2) (row_of two_rows row) = Inr ([0, 0] ! row)"
    using empty_forest_predict [of 2 "[0, 0]"] z by (auto simp: less_2_cases_iff)
  then show ?thesis
    using predict_rows_iff [of two_rows id "empty_forest 2" "[0, 0]"]
    by (simp add: two_rows_def max_int64_def empty_forest_def)
qed

text \<open>
  C40. The shape check multiplies in int: a row count of \<^verbatim>\<open>2 ^ 62\<close> times four features wraps to zero, so
  an empty input passes, and the first row's slice panics.
\<close>

theorem predict_rows_shape_wraps:
  "predict_rows exp_fn (empty_forest 4) \<lparr>ri_n = 2 ^ 62, ri_f = 4, ri_x = []\<rparr> = Inl Panic"
proof -
  have rows: "[0..<2 ^ 62] = 0 # [Suc 0..<2 ^ 62]" by (rule upt_conv_Cons) simp
  have "wrap64 (2 ^ 62 * 4) = 0" "wrap64 4 = 4" "wrap64 0 = 0" by (simp_all add: wrap64_def signed_take_bit_int_eq_self)
  then show ?thesis
    by (simp add: predict_rows_def empty_forest_def nat_power_eq rows slice_of_def del: power_numeral upt_rec_numeral)
qed

end
