(* ===== verification/OrderedForest.thy ===== *)
theory OrderedForest
  imports Forest
begin

unbundle bit_operations_syntax

text \<open>
  The integer comparator view of a forest: \<^verbatim>\<open>integer/treecompile/ordered_float32.go\<close>. Every float32
  threshold is replaced by a uint32 key; the keys are ordered as the floats are, so every route is
  unchanged.
\<close>

section \<open>Keys\<close>

type_synonym ordered_forest_view = string

definition ordered_float32_view :: ordered_forest_view where
  "ordered_float32_view = ''r0_ordered_float32_comparator''"

datatype ordered_error =
  NonFiniteKey "32 word"
| OrderedSource forest_error
| OrderedThreshold nat nat ordered_error

definition ordered_float32_key :: "32 word \<Rightarrow> (ordered_error, 32 word) res" where
  "ordered_float32_key bits =
     (if bits AND 0x7f800000 = 0x7f800000 then err (NonFiniteKey bits)
      else if bits AND 0x7fffffff = 0 then Inr 0x80000000
      else if bits AND 0x80000000 \<noteq> 0 then Inr (NOT bits)
      else Inr (bits XOR 0x80000000))"

section \<open>The ordered forest\<close>

record ordered_forest =
  of_view :: ordered_forest_view
  of_num_features :: int
  of_depth :: int
  of_source_base_score :: "64 word"
  of_base_margin :: "64 word"
  of_semantics :: model_semantics
  of_trees :: "binary_tree list"

definition ordered_split :: "nat \<Rightarrow> nat \<Rightarrow> binary_split \<Rightarrow> (ordered_error, binary_split) res" where
  "ordered_split i j s =
     and_then (map_err (OrderedThreshold i j) (ordered_float32_key (ucast (scalar_bits (bs_threshold s)))))
       (\<lambda>threshold. Inr \<lparr>bs_feature = bs_feature s, bs_threshold = u32_scalar threshold\<rparr>)"

definition ordered_tree :: "nat \<Rightarrow> binary_tree \<Rightarrow> (ordered_error, binary_tree) res" where
  "ordered_tree i t =
     and_then (map_each (ordered_split i) 0 (bt_splits t)) (\<lambda>splits.
       Inr \<lparr>bt_depth = bt_depth t, bt_splits = splits, bt_leaves = bt_leaves t\<rparr>)"

definition compile_ordered_forest :: "forest \<Rightarrow> (ordered_error, ordered_forest) res" where
  "compile_ordered_forest source =
     and_then (map_err OrderedSource (forest_validate source)) (\<lambda>_.
     and_then (map_each ordered_tree 0 (fo_trees source)) (\<lambda>trees.
     Inr \<lparr>of_view = ordered_float32_view, of_num_features = fo_num_features source,
       of_depth = fo_depth source, of_source_base_score = fo_source_base_score source,
       of_base_margin = fo_base_margin source, of_semantics = fo_semantics source, of_trees = trees\<rparr>))"

section \<open>The fields of a pattern as masks\<close>

lemma unat_exponent_mask: "unat ((bits :: 32 word) AND 0x7f800000) = (unat bits mod 2 ^ 31 div 2 ^ 23) * 2 ^ 23"
proof -
  have mask: "(0x7f800000 :: nat) = push_bit 23 (mask 8)" by (simp add: mask_eq_exp_minus_1 push_bit_eq_mult)
  have "unat bits AND 0x7f800000 = push_bit 23 (take_bit 8 (drop_bit 23 (unat bits)))"
    unfolding mask by (auto simp: bit_eq_iff bit_simps)
  also have "\<dots> = (unat bits div 2 ^ 23 mod 2 ^ 8) * 2 ^ 23"
    by (simp add: push_bit_eq_mult take_bit_eq_mod drop_bit_eq_div)
  also have "unat bits div 2 ^ 23 mod 2 ^ 8 = unat bits mod 2 ^ 31 div 2 ^ 23"
    using mod_mult2_eq [of "unat bits" "2 ^ 23" "2 ^ 8"] by simp
  finally show ?thesis by (simp add: unsigned_and_eq)
qed

lemma exponent_mask_iff: "bits AND 0x7f800000 = 0x7f800000 \<longleftrightarrow> \<not> f32_finite bits"
proof -
  have "bits AND 0x7f800000 = 0x7f800000 \<longleftrightarrow> unat (bits AND 0x7f800000) = 0x7f800000"
    by (simp add: word_unat_eq_iff)
  also have "\<dots> \<longleftrightarrow> unat bits mod 2 ^ 31 div 2 ^ 23 = 255"
    unfolding unat_exponent_mask by simp
  finally show ?thesis by (simp add: f32_finite_def fp_finite_def fp_exp_def fp_abs_def)
qed

lemma magnitude_mask_iff: "(bits :: 32 word) AND 0x7fffffff = 0 \<longleftrightarrow> fp_abs 8 23 (unat bits) = 0"
proof -
  have mask: "(0x7fffffff :: nat) = mask 31" by (simp add: mask_eq_exp_minus_1)
  have "unat (bits AND 0x7fffffff) = take_bit 31 (unat bits)"
    by (simp add: unsigned_and_eq mask [symmetric]) (simp add: mask take_bit_eq_mask)
  then have "unat (bits AND 0x7fffffff) = fp_abs 8 23 (unat bits)"
    by (simp add: fp_abs_def take_bit_eq_mod)
  then show ?thesis by (metis unat_eq_zero)
qed

lemma sign_mask_iff: "(bits :: 32 word) AND 0x80000000 \<noteq> 0 \<longleftrightarrow> fp_neg 8 23 (unat bits)"
proof -
  have "bits AND 0x80000000 \<noteq> 0 \<longleftrightarrow> bit bits 31"
    using and_exp_eq_0_iff_not_bit [of bits 31] by simp
  also have "\<dots> \<longleftrightarrow> bit (unat bits) 31" by (simp add: bit_unsigned_iff)
  finally show ?thesis by (simp add: fp_neg_def bit_iff_odd)
qed

lemma f32_split: "unat (bits :: 32 word) = (if fp_neg 8 23 (unat bits) then 2 ^ 31 else 0) + fp_abs 8 23 (unat bits)"
proof -
  have "unat bits < 2 ^ 32" using unsigned_less [of bits] by simp
  then have "unat bits div 2 ^ 31 < 2" by (simp add: less_mult_imp_div_less)
  then have "unat bits div 2 ^ 31 = (if fp_neg 8 23 (unat bits) then 1 else 0)"
    by (auto simp: fp_neg_def less_2_cases_iff)
  then show ?thesis using div_mult_mod_eq [of "unat bits" "2 ^ 31"] by (simp add: fp_abs_def split: if_splits)
qed

lemma unat_not_32: "unat (NOT bits :: 32 word) = 2 ^ 32 - 1 - unat bits"
proof -
  have "NOT bits = - 1 - bits" by (simp add: not_eq_complement)
  moreover have "unat (- 1 - bits) = unat (- 1 :: 32 word) - unat bits" by (rule unat_sub) simp
  ultimately show ?thesis by (simp add: unsigned_minus_1_eq_mask mask_eq_exp_minus_1)
qed

lemma unat_xor_sign:
  assumes "unat (bits :: 32 word) < 2 ^ 31"
  shows "unat (bits XOR 0x80000000) = unat bits + 2 ^ 31"
proof -
  have "bits AND 0x80000000 = 0"
    using sign_mask_iff [of bits] assms by (simp add: fp_neg_def)
  then have "bits XOR 0x80000000 = bits + 0x80000000" by (simp add: disjunctive_xor_eq_or disjunctive_add_eq_or)
  then show ?thesis using assms by (simp add: unat_word_ariths)
qed

text \<open>The key as a number: the sign-magnitude key of the pattern, shifted, with the negatives one lower.\<close>

definition key_number :: "32 word \<Rightarrow> int" where
  "key_number bits = 2 ^ 31 + fp_key 8 23 (unat bits) - (if fp_key 8 23 (unat bits) < 0 then 1 else 0)"

lemma ordered_float32_key_finite:
  assumes "f32_finite bits"
  shows "\<exists>k. ordered_float32_key bits = Inr k \<and> uint k = key_number bits"
proof (cases "fp_abs 8 23 (unat bits) = 0")
  case True
  then show ?thesis
    using assms
    by (simp add: ordered_float32_key_def exponent_mask_iff magnitude_mask_iff key_number_def fp_key_def)
next
  case nz: False
  show ?thesis
  proof (cases "fp_neg 8 23 (unat bits)")
    case True
    have "unat (NOT bits) = 2 ^ 31 - 1 - fp_abs 8 23 (unat bits)"
      using f32_split [of bits] True by (simp add: unat_not_32)
    moreover have "fp_abs 8 23 (unat bits) < 2 ^ 31" by (simp add: fp_abs_def)
    ultimately have "uint (NOT bits) = key_number bits"
      using nz True by (simp add: key_number_def fp_key_def uint_nat)
    then show ?thesis
      using assms nz True sign_mask_iff [of bits]
      by (simp add: ordered_float32_key_def exponent_mask_iff magnitude_mask_iff)
  next
    case False
    then have abs: "fp_abs 8 23 (unat bits) = unat bits" using f32_split [of bits] by simp
    moreover have "fp_abs 8 23 (unat bits) < 2 ^ 31" by (simp add: fp_abs_def)
    ultimately have "unat (bits XOR 0x80000000) = unat bits + 2 ^ 31" using unat_xor_sign [of bits] by simp
    then have "uint (bits XOR 0x80000000) = 2 ^ 31 + int (unat bits)" by (simp only: uint_nat) simp
    moreover have "key_number bits = 2 ^ 31 + int (unat bits)"
      using False abs by (simp only: key_number_def fp_key_def) simp
    ultimately have "uint (bits XOR 0x80000000) = key_number bits" by (simp only:)
    then show ?thesis
      using assms nz False sign_mask_iff [of bits]
      by (simp add: ordered_float32_key_def exponent_mask_iff magnitude_mask_iff)
  qed
qed

lemma ordered_float32_key_ok: "(\<exists>k. ordered_float32_key bits = Inr k) \<longleftrightarrow> f32_finite bits"
  using ordered_float32_key_finite [of bits]
  by (auto simp: ordered_float32_key_def exponent_mask_iff split: if_splits)

lemma ordered_float32_key_less:
  assumes "ordered_float32_key a = Inr ka" and "ordered_float32_key b = Inr kb"
  shows "ka < kb \<longleftrightarrow> f32_lt a b"
proof -
  have fin: "f32_finite a" "f32_finite b" using assms ordered_float32_key_ok by blast+
  have "uint ka = key_number a" "uint kb = key_number b"
    using ordered_float32_key_finite [OF fin(1)] ordered_float32_key_finite [OF fin(2)] assms by auto
  then have "ka < kb \<longleftrightarrow> fp_key 8 23 (unat a) < fp_key 8 23 (unat b)"
    by (auto simp: word_less_def key_number_def split: if_splits)
  moreover have "\<not> fp_nan 8 23 (unat a)" "\<not> fp_nan 8 23 (unat b)"
    using fin by (simp_all add: f32_finite_def fp_finite_iff)
  ultimately show ?thesis by (simp add: f32_lt_def fp_lt_def fp_val_less_iff)
qed

section \<open>Float32 forests\<close>

text \<open>Go types the thresholds as float32 and the leaves as float64.\<close>

definition float32_tree :: "binary_tree \<Rightarrow> bool" where
  "float32_tree t \<longleftrightarrow> list_all (\<lambda>s. \<exists>c. bs_threshold s = f32_scalar c) (bt_splits t) \<and>
     list_all (\<lambda>v. \<exists>c. v = f64_scalar c) (bt_leaves t)"

lemma ucast_f32_bits: "ucast (scalar_bits (f32_scalar c)) = (c :: 32 word)"
  unfolding f32_scalar_def scalar.sel by transfer simp

lemma f32_scalar_lt: "scalar_lt (f32_scalar a) (f32_scalar b) = f32_lt a b"
  by (simp add: scalar_lt_def f32_scalar_def f32_lt_def)

lemma u32_scalar_lt: "scalar_lt (u32_scalar a) (u32_scalar b) = (a < b)"
  by (simp add: scalar_lt_def u32_scalar_def word_less_nat_alt)

lemma finite_u32: "finite_scalar (u32_scalar a)"
  by (simp add: finite_scalar_def u32_scalar_def)

definition split_keyed :: "binary_split \<Rightarrow> binary_split \<Rightarrow> bool" where
  "split_keyed s u \<longleftrightarrow> bs_feature u = bs_feature s \<and>
     (\<exists>c k. bs_threshold s = f32_scalar c \<and> bs_threshold u = u32_scalar k \<and> ordered_float32_key c = Inr k)"

lemma ordered_split_keyed:
  assumes "bs_threshold s = f32_scalar c" and "f32_finite c"
  shows "\<exists>u. ordered_split i j s = Inr u \<and> split_keyed s u"
proof -
  obtain k where "ordered_float32_key c = Inr k" using assms(2) ordered_float32_key_ok by blast
  then show ?thesis using assms(1) by (auto simp: ordered_split_def ucast_f32_bits split_keyed_def)
qed

lemma split_keyed_ok: "split_keyed s u \<Longrightarrow> split_ok s \<Longrightarrow> split_ok u"
  by (auto simp: split_keyed_def split_ok_def finite_u32)

definition tree_keyed :: "binary_tree \<Rightarrow> binary_tree \<Rightarrow> bool" where
  "tree_keyed t u \<longleftrightarrow> bt_depth u = bt_depth t \<and> bt_leaves u = bt_leaves t \<and>
     list_all2 split_keyed (bt_splits t) (bt_splits u)"

lemma ordered_tree_keyed:
  assumes "binary_wf t" and "float32_tree t"
  shows "\<exists>u. ordered_tree i t = Inr u \<and> tree_keyed t u"
proof -
  have "\<exists>u. ordered_split i j (bt_splits t ! j) = Inr u \<and> split_keyed (bt_splits t ! j) u"
    if j: "j < length (bt_splits t)" for j
  proof -
    obtain c where c: "bs_threshold (bt_splits t ! j) = f32_scalar c"
      using assms(2) j unfolding float32_tree_def list_all_iff_nth by blast
    have "split_ok (bt_splits t ! j)" using assms(1) j by (auto simp: binary_wf_def list_all_iff_nth)
    then have "f32_finite c" using c by (simp add: split_ok_def finite_scalar_f32)
    with c show ?thesis by (rule ordered_split_keyed)
  qed
  then obtain g where g: "\<And>j. j < length (bt_splits t) \<Longrightarrow>
      ordered_split i j (bt_splits t ! j) = Inr (g j) \<and> split_keyed (bt_splits t ! j) (g j)"
    by metis
  let ?us = "map g [0..<length (bt_splits t)]"
  have "map_each (ordered_split i) 0 (bt_splits t) = Inr ?us"
    using g by (simp add: map_each_ok)
  then show ?thesis
    using g by (intro exI [of _ "\<lparr>bt_depth = bt_depth t, bt_splits = ?us, bt_leaves = bt_leaves t\<rparr>"])
      (simp add: ordered_tree_def tree_keyed_def list_all2_conv_all_nth)
qed

lemma tree_keyed_wf: "tree_keyed t u \<Longrightarrow> binary_wf t \<Longrightarrow> binary_wf u"
  unfolding binary_wf_def tree_keyed_def list_all2_conv_all_nth list_all_iff_nth by (metis split_keyed_ok)

text \<open>Both walks take the same branches, or stop at the same split that lacks its feature.\<close>

lemma keyed_route_loop:
  assumes "list_all2 split_keyed splits osplits" and "list_all2 (\<lambda>v k. ordered_float32_key v = Inr k) fs ks"
  shows "binary_route_loop osplits (map u32_scalar ks) d node leaf =
    binary_route_loop splits (map f32_scalar fs) d node leaf"
proof (induction d arbitrary: node leaf)
  case 0
  then show ?case by simp
next
  case (Suc d)
  have len: "length osplits = length splits" "length ks = length fs"
    using assms by (simp_all add: list_all2_lengthD)
  show ?case
  proof (cases "node < length splits")
    case False
    then show ?thesis by (simp add: at_def len)
  next
    case True
    define s u where "s = splits ! node" and "u = osplits ! node"
    from True assms(1) obtain c k where keyed: "bs_feature u = bs_feature s"
      "bs_threshold s = f32_scalar c" "bs_threshold u = u32_scalar k" "ordered_float32_key c = Inr k"
      by (auto simp: list_all2_conv_all_nth split_keyed_def s_def u_def)
    have "branch_of u (map u32_scalar ks ! nat (bs_feature s)) = branch_of s (map f32_scalar fs ! nat (bs_feature s))"
      if "nat (bs_feature s) < length fs"
    proof -
      have "ordered_float32_key (fs ! nat (bs_feature s)) = Inr (ks ! nat (bs_feature s))"
        using assms(2) that by (simp add: list_all2_conv_all_nth)
      from ordered_float32_key_less [OF this keyed(4)] show ?thesis
        using that keyed(2,3) len by (simp add: branch_of_def u32_scalar_lt f32_scalar_lt)
    qed
    then show ?thesis
      using True keyed Suc.IH len
      by (auto simp: s_def [symmetric] u_def [symmetric] at_int_def Let_def)
  qed
qed

lemma keyed_features:
  assumes "list_all2 (\<lambda>v k. ordered_float32_key v = Inr k) fs ks"
  shows "list_all finite_scalar (map f32_scalar fs)" and "list_all finite_scalar (map u32_scalar ks)"
  using assms
  by (auto simp: list_all2_conv_all_nth list_all_iff_nth finite_scalar_f32 finite_u32
      ordered_float32_key_ok [symmetric])

lemma keyed_route:
  assumes "tree_keyed t u" and "binary_wf t" and "list_all2 (\<lambda>v k. ordered_float32_key v = Inr k) fs ks"
  shows "binary_route u (map u32_scalar ks) = binary_route t (map f32_scalar fs)"
proof -
  have "binary_validate t = Inr ()" "binary_validate u = Inr ()"
    using assms(2) tree_keyed_wf [OF assms(1,2)] by (simp_all add: ok_iff)
  moreover have "validate_finite_features (map f32_scalar fs) = Inr ()"
    "validate_finite_features (map u32_scalar ks) = Inr ()"
    using keyed_features [OF assms(3)] by (simp_all add: ok_iff)
  ultimately show ?thesis
    using assms(1) keyed_route_loop [OF _ assms(3)] by (simp add: binary_route_def tree_keyed_def)
qed

lemma compile_ordered_result:
  assumes "forest_wf f" and "list_all float32_tree (fo_trees f)"
  shows "\<exists>us. compile_ordered_forest f = Inr \<lparr>of_view = ordered_float32_view,
       of_num_features = fo_num_features f, of_depth = fo_depth f, of_source_base_score = fo_source_base_score f,
       of_base_margin = fo_base_margin f, of_semantics = fo_semantics f, of_trees = us\<rparr> \<and>
     list_all2 tree_keyed (fo_trees f) us"
proof -
  have "\<exists>u. ordered_tree i (fo_trees f ! i) = Inr u \<and> tree_keyed (fo_trees f ! i) u"
    if "i < length (fo_trees f)" for i
    by (rule ordered_tree_keyed) (use assms that in \<open>auto simp: forest_wf_def list_all_iff_nth\<close>)
  then obtain g where g: "\<And>i. i < length (fo_trees f) \<Longrightarrow>
      ordered_tree i (fo_trees f ! i) = Inr (g i) \<and> tree_keyed (fo_trees f ! i) (g i)"
    by metis
  let ?us = "map g [0..<length (fo_trees f)]"
  have "map_each ordered_tree 0 (fo_trees f) = Inr ?us" using g by (simp add: map_each_ok)
  moreover have "forest_validate f = Inr ()" using assms(1) by (simp add: ok_iff)
  ultimately show ?thesis
    using g by (intro exI [of _ ?us]) (simp add: compile_ordered_forest_def list_all2_conv_all_nth)
qed

section \<open>Compiled trees are typed\<close>

lemma fill_raw_typed:
  "fill_raw fuel raw target index depth heap prefix out = Inr out' \<Longrightarrow>
   list_all (\<lambda>s. \<exists>c. bs_threshold s = f32_scalar c) (fst out) \<Longrightarrow>
   list_all (\<lambda>v. \<exists>c. v = f64_scalar c) (snd out) \<Longrightarrow>
   list_all (\<lambda>s. \<exists>c. bs_threshold s = f32_scalar c) (fst out') \<and>
   list_all (\<lambda>v. \<exists>c. v = f64_scalar c) (snd out')"
proof (induction fuel arbitrary: index depth heap prefix out out')
  case 0
  then show ?case by (cases out) (simp add: fill_raw.simps)
next
  case (Suc fuel)
  obtain splits leaves where out: "out = (splits, leaves)" by (cases out)
  show ?case
  proof (cases "raw_left raw ! nat index = - 1")
    case True
    with Suc.prems show ?thesis
      by (auto simp: out fill_raw.simps Let_def and_then_ok at_int_ok dest: fill_leaves_all [rotated 1])
  next
    case False
    then obtain mid where run:
      "fill_raw fuel raw target (raw_left raw ! nat index) (depth + 1) (2 * heap + 1) (2 * prefix)
        (splits[nat heap := \<lparr>bs_feature = raw_split_index raw ! nat index,
          bs_threshold = f32_scalar (raw_split_cond raw ! nat index)\<rparr>], leaves) = Inr mid"
      "fill_raw fuel raw target (raw_right raw ! nat index) (depth + 1) (2 * heap + 2) (2 * prefix + 1) mid = Inr out'"
      using Suc.prems(1) by (auto simp: out fill_raw.simps and_then_ok at_int_ok set_at_ok)
    have typed: "list_all (\<lambda>s. \<exists>c. bs_threshold s = f32_scalar c)
        (splits[nat heap := \<lparr>bs_feature = raw_split_index raw ! nat index,
          bs_threshold = f32_scalar (raw_split_cond raw ! nat index)\<rparr>])"
      by (rule list_all_update) (use Suc.prems(2) out in auto)
    show ?thesis
      using Suc.IH [OF run(2)] Suc.IH [OF run(1), unfolded fst_conv, OF typed] Suc.prems(3) by (simp add: out)
  qed
qed

lemma compile_at_depth_typed:
  assumes "compile_tree_at_depth raw nf target = Inr t"
  shows "float32_tree t"
proof -
  obtain splits leaves where "fill_raw (length (raw_left raw) + 1) raw target 0 0 0 0
        (replicate (2 ^ nat target - 1) padding_split, replicate (2 ^ nat target) (f64_scalar 0)) = Inr (splits, leaves)"
    and t: "bt_splits t = splits" "bt_leaves t = leaves"
    using assms by (auto simp: compile_tree_at_depth_def Let_def and_then_ok split: if_splits)
  from fill_raw_typed [OF this(1)] show ?thesis
    by (auto simp: float32_tree_def t padding_split_def list_all_iff)
qed

lemma compile_model_typed_trees: "compile_model log_fn raw sem = Inr f \<Longrightarrow> list_all float32_tree (fo_trees f)"
  using compile_model_result(5) [of log_fn raw sem f] compile_at_depth_typed
  by (fastforce simp: list_all2_conv_all_nth list_all_iff_nth)

section \<open>Properties\<close>

text \<open>
  C38. OrderedFloat32Key preserves the order: any two finite float32 values have keys, and the
  unsigned keys compare as the values do, under both the strict and the reflexive comparison.
\<close>

theorem ordered_float32_key_order:
  assumes "f32_finite a" and "f32_finite b"
  shows "\<exists>ka kb. ordered_float32_key a = Inr ka \<and> ordered_float32_key b = Inr kb \<and>
    (ka < kb \<longleftrightarrow> f32_lt a b) \<and> (kb \<le> ka \<longleftrightarrow> fp_ge 8 23 (unat a) (unat b))"
proof -
  obtain ka kb where k: "ordered_float32_key a = Inr ka" "ordered_float32_key b = Inr kb"
    using assms ordered_float32_key_ok by blast
  have "\<not> fp_nan 8 23 (unat a)" "\<not> fp_nan 8 23 (unat b)"
    using assms by (simp_all add: f32_finite_def fp_finite_iff)
  then have "fp_ge 8 23 (unat a) (unat b) \<longleftrightarrow> \<not> f32_lt a b"
    by (auto simp: f32_lt_def fp_lt_def fp_ge_def)
  with k ordered_float32_key_less [OF k] show ?thesis by auto
qed

text \<open>
  C39. CompileOrderedForest keeps every route: on a valid float32 forest it succeeds, copies the
  metadata and the leaves, and each of its trees routes the keys of any features to the leaf
  (or to the same error) that the source tree routes the features to.
\<close>

theorem ordered_forest_routes:
  assumes "forest_validate f = Inr ()" and "list_all float32_tree (fo_trees f)"
  shows "\<exists>g. compile_ordered_forest f = Inr g \<and> of_num_features g = fo_num_features f \<and>
    of_depth g = fo_depth f \<and> of_base_margin g = fo_base_margin f \<and> of_semantics g = fo_semantics f \<and>
    length (of_trees g) = length (fo_trees f) \<and>
    (\<forall>i < length (fo_trees f). bt_leaves (of_trees g ! i) = bt_leaves (fo_trees f ! i) \<and>
      (\<forall>fs ks. list_all2 (\<lambda>v k. ordered_float32_key v = Inr k) fs ks \<longrightarrow>
        binary_route (of_trees g ! i) (map u32_scalar ks) = binary_route (fo_trees f ! i) (map f32_scalar fs)))"
proof -
  have wf: "forest_wf f" using assms(1) by (simp add: ok_iff)
  obtain us where us: "compile_ordered_forest f = Inr \<lparr>of_view = ordered_float32_view,
       of_num_features = fo_num_features f, of_depth = fo_depth f, of_source_base_score = fo_source_base_score f,
       of_base_margin = fo_base_margin f, of_semantics = fo_semantics f, of_trees = us\<rparr>"
    and keyed: "list_all2 tree_keyed (fo_trees f) us"
    using compile_ordered_result [OF wf assms(2)] by blast
  have tree: "tree_keyed (fo_trees f ! i) (us ! i)" "binary_wf (fo_trees f ! i)" if "i < length (fo_trees f)" for i
    using keyed wf that by (auto simp: list_all2_conv_all_nth forest_wf_def list_all_iff_nth)
  have "bt_leaves (us ! i) = bt_leaves (fo_trees f ! i)" if "i < length (fo_trees f)" for i
    using tree(1) [OF that] by (simp add: tree_keyed_def)
  then show ?thesis
    using us keyed keyed_route tree by (auto dest: list_all2_lengthD)
qed

section \<open>Witnesses\<close>

theorem ordered_float32_key_order_witness:
  "\<exists>ka kb. ordered_float32_key 0xbf800000 = Inr ka \<and> ordered_float32_key 0x3f800000 = Inr kb \<and> ka < kb"
proof -
  have "f32_finite 0xbf800000" "f32_finite 0x3f800000" "f32_lt 0xbf800000 0x3f800000"
    by (simp_all add: f32_finite_def fp_finite_def f32_lt_def fp_lt_def fp_nan_def fp_val_def fp_neg_def fp_mag_def
        fp_abs_def fp_exp_def fp_frac_def mag_of_def)
  with ordered_float32_key_order [of "0xbf800000" "0x3f800000"] show ?thesis by auto
qed

theorem ordered_forest_routes_witness:
  "\<exists>f g. compile_model id sample_model sample_semantics = Inr f \<and> compile_ordered_forest f = Inr g \<and>
    length (of_trees g) = 1 \<and>
    binary_route (of_trees g ! 0) (map u32_scalar [0xbf800000, 0x80000000]) =
      binary_route (fo_trees f ! 0) (map f32_scalar [0x3f800000, 0])"
proof -
  obtain f where f: "compile_model id sample_model sample_semantics = Inr f" "f64_finite (fo_base_margin f)"
    using sample_model_compiles by blast
  note res = compile_model_result [OF f(1)]
  have len: "length (fo_trees f) = 1" using list_all2_lengthD [OF res(5)] by (simp add: sample_model_def)
  have "forest_validate f = Inr ()" using res(4) f(2) by (simp add: ok_iff)
  from ordered_forest_routes [OF this compile_model_typed_trees [OF f(1)]] obtain g where
    g: "compile_ordered_forest f = Inr g" "length (of_trees g) = 1"
    "\<And>fs ks. list_all2 (\<lambda>v k. ordered_float32_key v = Inr k) fs ks \<Longrightarrow>
        binary_route (of_trees g ! 0) (map u32_scalar ks) = binary_route (fo_trees f ! 0) (map f32_scalar fs)"
    using len by auto
  have "list_all2 (\<lambda>v k. ordered_float32_key v = Inr k) [0x3f800000, 0] [0xbf800000, 0x80000000]"
    by (simp add: ordered_float32_key_def)
  from g(3) [OF this] g f(1) show ?thesis by blast
qed

end
