(* ===== verification/BigFloat.thy ===== *)
theory BigFloat
  imports Complex_Main GoFloat
begin

text \<open>
  \<^verbatim>\<open>big.Float\<close> of Go's \<^verbatim>\<open>math/big\<close>, as \<^verbatim>\<open>integer/z2n\<close> uses it: finite values are rational numbers, and
  every operation rounds its exact result to the precision of the receiver, to nearest with ties
  to even. The exponent range of the library (32 bits) is not bounded here.
\<close>

section \<open>Rounding to a precision\<close>

definition two_power :: "int \<Rightarrow> rat" where
  "two_power e = (if 0 \<le> e then 2 ^ nat e else 1 / 2 ^ nat (- e))"

text \<open>The exponent of the leading bit of a positive rational.\<close>

definition leading_exponent :: "rat \<Rightarrow> int" where
  "leading_exponent x =
     (let (a, b) = quotient_of x; d = int (bitlen (nat a)) - int (bitlen (nat b))
      in if two_power d \<le> x then d else d - 1)"

definition round_half_even :: "rat \<Rightarrow> int" where
  "round_half_even x =
     (let q = \<lfloor>x\<rfloor>; r = x - of_int q
      in if r < 1 / 2 \<or> (r = 1 / 2 \<and> even q) then q else q + 1)"

text \<open>\<^verbatim>\<open>SetPrec\<close> clamps the precision of a float to \<^verbatim>\<open>MaxPrec\<close>.\<close>

definition max_prec :: nat where
  "max_prec = 4294967295"

definition set_prec :: "nat \<Rightarrow> nat" where
  "set_prec p = min p max_prec"

definition bf_round :: "nat \<Rightarrow> rat \<Rightarrow> rat" where
  "bf_round p x =
     (if x = 0 then 0
      else let unit = two_power (leading_exponent \<bar>x\<bar> - int (set_prec p) + 1); m = of_int (round_half_even (\<bar>x\<bar> / unit)) * unit
           in if x < 0 then - m else m)"

definition bf_add :: "nat \<Rightarrow> rat \<Rightarrow> rat \<Rightarrow> rat" where
  "bf_add p x y = bf_round p (x + y)"

definition bf_sub :: "nat \<Rightarrow> rat \<Rightarrow> rat \<Rightarrow> rat" where
  "bf_sub p x y = bf_round p (x - y)"

definition bf_mul :: "nat \<Rightarrow> rat \<Rightarrow> rat \<Rightarrow> rat" where
  "bf_mul p x y = bf_round p (x * y)"

text \<open>A division by zero does not arise on the values the package divides by; it is left at zero.\<close>

definition bf_quo :: "nat \<Rightarrow> rat \<Rightarrow> rat \<Rightarrow> rat" where
  "bf_quo p x y = bf_round p (x / y)"

text \<open>\<^verbatim>\<open>x.Int(nil)\<close> truncates toward zero; the package derives floor and ceiling from it.\<close>

definition bf_trunc :: "rat \<Rightarrow> int" where
  "bf_trunc x = (if 0 \<le> x then \<lfloor>x\<rfloor> else \<lceil>x\<rceil>)"

section \<open>Powers of two\<close>

lemma two_power_pos [simp]: "0 < two_power e"
  by (simp add: two_power_def)

lemma two_power_nonzero [simp]: "two_power e \<noteq> 0"
  using two_power_pos [of e] by linarith

lemma two_power_of_nat [simp]: "two_power (int n) = 2 ^ n"
  by (simp add: two_power_def)

lemma two_power_add: "two_power (a + b) = two_power a * two_power b"
proof -
  have *: "two_power (a + b) = two_power a * two_power b" if "0 \<le> a" for a b :: int
  proof (cases "0 \<le> b")
    case True
    then show ?thesis using that by (simp add: two_power_def nat_add_distrib power_add)
  next
    case False
    show ?thesis
    proof (cases "0 \<le> a + b")
      case True
      have "nat a = nat (a + b) + nat (- b)" using False that True by simp
      then have "(2::rat) ^ nat a = 2 ^ nat (a + b) * 2 ^ nat (- b)" by (simp add: power_add)
      then show ?thesis using False that True by (simp add: two_power_def)
    next
      case neg: False
      have "nat (- b) = nat (- (a + b)) + nat a" using False that neg by simp
      then have "(2::rat) ^ nat (- b) = 2 ^ nat (- (a + b)) * 2 ^ nat a" by (simp add: power_add)
      then show ?thesis using False that neg by (simp add: two_power_def)
    qed
  qed
  show ?thesis
  proof (cases "0 \<le> a \<or> 0 \<le> b")
    case True
    then show ?thesis using * [of a b] * [of b a] by (auto simp: add.commute mult.commute)
  next
    case False
    then have "nat (- (a + b)) = nat (- a) + nat (- b)" by linarith
    with False show ?thesis by (simp add: two_power_def power_add)
  qed
qed

lemma two_power_minus: "two_power (- e) = 1 / two_power e"
proof -
  have "two_power (- e) * two_power e = 1" using two_power_add [of "- e" e] by (simp add: two_power_def)
  then show ?thesis by (simp add: field_simps less_imp_neq [OF two_power_pos, symmetric])
qed

lemma two_power_le: "a \<le> b \<Longrightarrow> two_power a \<le> two_power b"
proof -
  assume "a \<le> b"
  then have "two_power b = two_power a * 2 ^ nat (b - a)"
    using two_power_add [of a "b - a"] by (simp add: two_power_def)
  moreover have "(1::rat) \<le> 2 ^ nat (b - a)" by simp
  ultimately show ?thesis using two_power_pos [of a] by (simp add: mult_le_cancel_left1 not_less [symmetric] less_imp_le)
qed

lemma two_power_less_imp: "two_power a < two_power b \<Longrightarrow> a < b"
  using two_power_le [of b a] by (meson not_less)

lemma leading_exponent_le:
  assumes "0 < x"
  shows "two_power (leading_exponent x) \<le> x"
proof -
  obtain a b where q: "quotient_of x = (a, b)" by (cases "quotient_of x")
  have x: "x = of_int a / of_int b" and b: "0 < b" using quotient_of_div [OF q] quotient_of_denom_pos [OF q] by simp_all
  then have a: "0 < a" using assms by (simp add: zero_less_divide_iff)
  define la lb where "la = bitlen (nat a)" and "lb = bitlen (nat b)"
  have la: "2 ^ (la - 1) \<le> nat a" and lb: "nat b < 2 ^ lb" "0 < la"
    using bitlen_bounds [of "nat a"] bitlen_bounds [of "nat b"] a b by (auto simp: la_def lb_def bitlen.simps)
  show ?thesis
  proof (cases "two_power (int la - int lb) \<le> x")
    case True
    then show ?thesis by (simp add: leading_exponent_def q Let_def la_def lb_def)
  next
    case False
    have "(2::rat) ^ (la - 1) \<le> of_int a"
    proof -
      have "(2::int) ^ (la - 1) \<le> a" using la a by (simp add: nat_le_iff le_nat_iff)
      then have "of_int (2 ^ (la - 1)) \<le> (of_int a :: rat)" by (rule of_int_le_iff [THEN iffD2])
      then show ?thesis by simp
    qed
    moreover have "of_int b \<le> (2::rat) ^ lb"
    proof -
      have "b \<le> 2 ^ lb" using lb(1) b by (simp add: nat_less_iff)
      then have "of_int b \<le> (of_int (2 ^ lb) :: rat)" by (rule of_int_le_iff [THEN iffD2])
      then show ?thesis by simp
    qed
    ultimately have "(2::rat) ^ (la - 1) / 2 ^ lb \<le> of_int a / of_int b"
      using a b by (intro frac_le) simp_all
    moreover have "two_power (int la - int lb - 1) = 2 ^ (la - 1) / 2 ^ lb"
    proof -
      have "int la - int lb - 1 = int (la - 1) + - int lb" using lb(2) by simp
      then show ?thesis by (simp only: two_power_add two_power_minus two_power_of_nat) simp
    qed
    moreover have "leading_exponent x = int la - int lb - 1"
      using False by (simp add: leading_exponent_def q Let_def la_def lb_def)
    ultimately show ?thesis by (simp add: x [symmetric])
  qed
qed

lemma round_half_even_int [simp]: "round_half_even (of_int k) = k"
  by (simp add: round_half_even_def)

lemma set_prec_id [simp]: "p \<le> max_prec \<Longrightarrow> set_prec p = p"
  by (simp add: set_prec_def)

text \<open>A multiple of \<^verbatim>\<open>2 ^ e\<close> of less than \<^verbatim>\<open>2 ^ p\<close> units is not changed by rounding to \<^verbatim>\<open>p\<close> bits.\<close>

lemma bf_round_exact:
  assumes x: "x = of_int k * two_power e" and small: "\<bar>x\<bar> < two_power (int (set_prec p) + e)"
  shows "bf_round p x = x"
proof (cases "x = 0")
  case True
  then show ?thesis by (simp add: bf_round_def)
next
  case False
  define s where "s = leading_exponent \<bar>x\<bar> - int (set_prec p) + 1"
  have "two_power (leading_exponent \<bar>x\<bar>) < two_power (int (set_prec p) + e)"
    using leading_exponent_le [of "\<bar>x\<bar>"] False small by simp
  then have s: "s \<le> e" using two_power_less_imp by (force simp: s_def)
  have "\<bar>x\<bar> / two_power s = of_int (\<bar>k\<bar> * 2 ^ nat (e - s))"
  proof -
    have "\<bar>x\<bar> = of_int \<bar>k\<bar> * two_power e" by (simp add: x abs_mult abs_of_pos)
    also have "two_power e = two_power s * 2 ^ nat (e - s)"
      using two_power_add [of s "e - s"] s by (simp add: two_power_def)
    finally show ?thesis using two_power_pos [of s] by simp
  qed
  then have "of_int (round_half_even (\<bar>x\<bar> / two_power s)) * two_power s = \<bar>x\<bar>"
    using two_power_pos [of s] by (metis round_half_even_int nonzero_divide_eq_eq less_irrefl)
  then show ?thesis
    using False unfolding bf_round_def Let_def s_def [symmetric] by (simp only: if_False) simp
qed

end
