(* ===== verification/Z2nConstants.thy ===== *)
theory Z2nConstants
  imports Prelude
begin

text \<open>
  The published roots of \<^verbatim>\<open>X^n - X + 2\<close> in the upper half plane, as exact signed magnitudes over
  \<^verbatim>\<open>2^128\<close>: \<^verbatim>\<open>integer/z2n/constants.go\<close>. The magnitudes are decimal strings, as in the source.
\<close>

definition root_fraction_bits :: nat where
  "root_fraction_bits = 128"

record fixed_point_constant =
  fc_magnitude :: string
  fc_negative :: bool
  fc_fraction_bits :: nat

record root_constant =
  rk_real :: fixed_point_constant
  rk_imag :: fixed_point_constant

definition root :: "string \<Rightarrow> bool \<Rightarrow> string \<Rightarrow> bool \<Rightarrow> root_constant" where
  "root real_magnitude real_negative imag_magnitude imag_negative = \<lparr>
     rk_real = \<lparr>fc_magnitude = real_magnitude, fc_negative = real_negative, fc_fraction_bits = root_fraction_bits\<rparr>,
     rk_imag = \<lparr>fc_magnitude = imag_magnitude, fc_negative = imag_negative, fc_fraction_bits = root_fraction_bits\<rparr>\<rparr>"

definition roots_n8 :: "root_constant list" where
  "roots_n8 = [
     root ''359124072811535186610690853057402903661'' True ''156682980275126563459473712549117854603'' False,
     root ''127942916012362888167921749339779666051'' True ''361530722988969544481784436970553558351'' False,
     root ''163650965418420061481525854130989829121'' False ''327582167183704011019777000705434796086'' False,
     root ''323416023405478013297086748266192740590'' False ''118974601821943721998364824569673250474'' False]"

definition roots_n16 :: "root_constant list" where
  "roots_n16 = [
     root ''357580614754354758148531447970617000661'' True ''72754167196966292104314199782731506654'' False,
     root ''300047663324999516624210886330771269624'' True ''206155599878541348717138407546612184696'' False,
     root ''194911227399247327269977016223988976357'' True ''305382816964920193167762588519087191920'' False,
     root ''60282570591716603101266424038243067083'' True ''354456894667915792617878701713209385694'' False,
     root ''80784262001292603479136660970669486879'' False ''346445020591532988638702568080557856406'' False,
     root ''204637768854078910624306365031060162530'' False ''284972432336483361176802995403837422402'' False,
     root ''292276954111974733171082649947546090607'' False ''183819236581063928453505381579739081840'' False,
     root ''335123091102971957869460098614344573710'' False ''62755734557348253032878164961445143012'' False]"

definition roots_n32 :: "root_constant list" where
  "roots_n32 = [
     root ''350551088990192644005587638168552186653'' True ''34900550222895179714397787198203513173'' False,
     root ''336695400736306456376811924693546769860'' True ''103299331694394466680808556291558998110'' False,
     root ''309551080397728457701091292115470551977'' True ''167549268673586454371916803328721791984'' False,
     root ''270228898653084472294462899074132324165'' True ''225075857771326758427915586988199792655'' False,
     root ''220337572168790987178561844883347289138'' True ''273583686243471418078046036292938539652'' False,
     root ''161917343781254382163963077301550563567'' True ''311152443074692736824352186014335408156'' False,
     root ''97355433476106157288077219655957918362'' True ''336318161343136424694695901841775800828'' False,
     root ''29286437520563535328487200882786010496'' True ''348136658982339264967867138036106806354'' False,
     root ''39518997925195344591398501225959432883'' False ''346226947218601574485487145087988588362'' False,
     root ''106274150951931075782750588501284147648'' False ''330793168550893306693876614221731825723'' False,
     root ''168302822651450193478236284374557061220'' False ''302624017298379579243622911980893710731'' False,
     root ''223172712788269601050257487780680679410'' False ''263067441411603613475403140531675225854'' False,
     root ''268838277499134743505006047266580888328'' False ''213972753153500930100328268852044496823'' False,
     root ''303792157693636518457724129356882969974'' False ''157576849671356512677734982596091307782'' False,
     root ''327191119747388911900252417088460946142'' False ''96289389574348118233366899415301954126'' False,
     root ''338833016467020703571417641180937488614'' False ''32362949412358133459608716350368962602'' False]"

definition roots_n64 :: "root_constant list" where
  "roots_n64 = [
     root ''345782382768622893681963401448427898029'' True ''17077306551372370810130247289563054112'' False,
     root ''342405286167006616104272679186613693604'' True ''51063768767812853759267517276440925613'' False,
     root ''335684653456421547424442279525308350202'' True ''84547459685791750395322149498754820193'' False,
     root ''325687271314630161660208052480672211255'' True ''117198786494194762481512155704845056237'' False,
     root ''312512487251139019726072948662562208179'' True ''148696480955218424558925142747080310379'' False,
     root ''296291219693069351048069937932644278857'' True ''178730814836784585934091041688973274301'' False,
     root ''277184653141781729064681383692073336510'' True ''207006702389922155776633147023636044372'' False,
     root ''255382631061828761393939614760687633559'' True ''233246659645471238489308812049612276822'' False,
     root ''231101762036653735641835465279513483112'' True ''257193591817794269088334104944013154924'' False,
     root ''204583257397787532099692355691355637319'' True ''278613381928043479536542640077085181602'' False,
     root ''176090520958796792151684077165811983531'' True ''297297255880365950935670182123312539677'' False,
     root ''145906513608118335885148193446290158527'' True ''313063901621348585261744602459211782193'' False,
     root ''114330917272280526697576002156849896742'' True ''325761322659738478048112596752588245545'' False,
     root ''81677124073488505954567391490098805922'' True ''335268409083212843063340500613138477897'' False,
     root ''48269077270658794175472468304454533424'' True ''341496212226481724524825912030575708205'' False,
     root ''14437990654826877108730547908067699438'' True ''344388912231851359245712019344600207568'' False,
     root ''19481027713614270916657575720640649881'' False ''343924470750769753248434163202513630816'' False,
     root ''53152423427826865766671048674191534627'' False ''340114963704569587556699087847313256291'' False,
     root ''86243694617983255476829546911083929198'' False ''333006590899766137860699657198694469622'' False,
     root ''118428926139984546657028007091204146214'' False ''322679359576025494049286154563749908809'' False,
     root ''149392350458552483266058810791615997253'' False ''309246436256479502314147527923531273152'' False,
     root ''178831935497824401290979186243808163315'' False ''292853153202281558238070494053709348994'' False,
     root ''206463009072511083318194837251997731372'' False ''273675638529907370012373951271030073982'' False,
     root ''232021934933830847250170168915294584786'' False ''251919007047156328029803905526024276684'' False,
     root ''255269846174124869224583281394161026572'' False ''227814995517252565325099776446496832246'' False,
     root ''275996395032360381148372509665527184202'' False ''201618848130921411989812718440959519845'' False,
     root ''294023353999451160759043762351241867415'' False ''173605168679034640797811756741931171060'' False,
     root ''309207649510494193856307686851957832063'' False ''144062413573597809304023039687362531072'' False,
     root ''321443006846364342033233440671515137220'' False ''113285847977699889107009096636872826161'' False,
     root ''330658968359936235109335002810174947792'' False ''81569354560965542887680311904837222556'' False,
     root ''336816073143344975132084641642573087165'' False ''49197604931280020061491849020858663676'' False,
     root ''339897153198907268612807292144443989133'' False ''16441351304266807328870060951377273088'' False]"

text \<open>Reading a key that the map does not hold gives the empty slice.\<close>

definition root_constant_table :: "nat \<Rightarrow> root_constant list" where
  "root_constant_table bits =
     (if bits = 8 then roots_n8 else if bits = 16 then roots_n16 else if bits = 32 then roots_n32
      else if bits = 64 then roots_n64 else [])"

lemma roots_length:
  "length roots_n8 = 4" "length roots_n16 = 8" "length roots_n32 = 16" "length roots_n64 = 32"
  by (simp_all add: roots_n8_def roots_n16_def roots_n32_def roots_n64_def)

end
