(* ===== verification/Z2nRing.thy ===== *)
theory Z2nRing
  imports BigFloat Z2nConstants
begin

text \<open>
  The ring \<^verbatim>\<open>R[X]/(X^n - X + 2)\<close> of the triangle representation of \<^verbatim>\<open>Z/(2^n)\<close>: \<^verbatim>\<open>ring.go\<close>,
  \<^verbatim>\<open>polynomial.go\<close>, \<^verbatim>\<open>transform.go\<close> and \<^verbatim>\<open>encoding.go\<close> of \<^verbatim>\<open>integer/z2n\<close>. The coefficient slice of a
  polynomial is private and every function of the package fills it with finite floats made by
  \<^verbatim>\<open>SetPrec\<close> at the polynomial's own precision, which clamps it to \<^verbatim>\<open>MaxPrec\<close>, so it is a list of
  rationals; what a caller hands to NewPolynomial
  or FromRootSlots may still be nil or infinite.
\<close>

section \<open>Rings and polynomials\<close>

definition default_precision :: nat where
  "default_precision = 256"

definition root_source_commit :: string where
  "root_source_commit = ''08f1eb87434e7be072cba889270a8400bbffc08e''"

definition root_source_path :: string where
  "root_source_path = ''src/core/include/math/z-constants.h''"

type_synonym bf_complex = "rat \<times> rat"

record linear_transform =
  lt_roots :: "bf_complex list"
  lt_forward :: "bf_complex list list"
  lt_inverse :: "bf_complex list list"

record z2n_ring =
  zr_bits :: nat
  zr_prec :: nat
  zr_transform :: linear_transform

record z2n_metadata =
  zm_word_bits :: nat
  zm_precision_bits :: nat
  zm_polynomial_modulus :: string
  zm_tau :: string
  zm_root_count :: nat
  zm_root_fraction_bits :: nat
  zm_root_source :: string
  zm_root_source_commit :: string

record polynomial =
  po_bits :: nat
  po_precision :: nat
  po_coefficients :: "rat list"

datatype big_float = Finite rat | Infinite bool

datatype z2n_error =
  UnsupportedWordSize nat
| PrecisionTooLow nat
| InvalidMagnitude string
| RootParse nat nat z2n_error
| RootPart string z2n_error
| CoefficientCount nat nat
| NilCoefficient nat
| ImportPolynomial z2n_error
| ForeignPolynomial nat nat
| PrecisionMismatch nat nat
| CoefficientPrecision nat nat nat
| UnresolvedEpsilon nat nat nat
| SlotCount nat nat
| NilSlot nat

definition word_supported :: "nat \<Rightarrow> bool" where
  "word_supported bits \<longleftrightarrow> bits = 8 \<or> bits = 16 \<or> bits = 32 \<or> bits = 64"

definition z2n_metadata_of :: "z2n_ring \<Rightarrow> z2n_metadata" where
  "z2n_metadata_of r = \<lparr>zm_word_bits = zr_bits r, zm_precision_bits = zr_prec r,
     zm_polynomial_modulus = ''X^n-X+2'', zm_tau = ''X-2'', zm_root_count = zr_bits r div 2,
     zm_root_fraction_bits = root_fraction_bits, zm_root_source = root_source_path,
     zm_root_source_commit = root_source_commit\<rparr>"

section \<open>Validation\<close>

definition canonical_epsilon :: "z2n_ring \<Rightarrow> rat" where
  "canonical_epsilon r = two_power (- int (zr_bits r) - 1)"

definition ring_validate :: "z2n_ring \<Rightarrow> polynomial \<Rightarrow> (z2n_error, unit) res" where
  "ring_validate r value =
     (if po_bits value \<noteq> zr_bits r \<or> length (po_coefficients value) \<noteq> zr_bits r
        then err (ForeignPolynomial (po_bits value) (zr_bits r))
      else if po_precision value \<noteq> zr_prec r
        then err (PrecisionMismatch (po_precision value) (zr_prec r))
      else check_each (\<lambda>i c.
             if set_prec (po_precision value) \<noteq> zr_prec r
               then err (CoefficientPrecision i (set_prec (po_precision value)) (zr_prec r))
             else reject_if (bf_sub (zr_prec r) c (canonical_epsilon r) = c)
               (UnresolvedEpsilon i (zr_bits r + 1) (zr_prec r))) 0 (po_coefficients value))"

definition validate_pair :: "z2n_ring \<Rightarrow> polynomial \<Rightarrow> polynomial \<Rightarrow> (z2n_error, unit) res" where
  "validate_pair r lhs rhs = and_then (ring_validate r lhs) (\<lambda>_. ring_validate r rhs)"

definition ring_polynomial :: "z2n_ring \<Rightarrow> rat list \<Rightarrow> polynomial" where
  "ring_polynomial r cs = \<lparr>po_bits = zr_bits r, po_precision = zr_prec r, po_coefficients = cs\<rparr>"

definition zero_polynomial :: "z2n_ring \<Rightarrow> polynomial" where
  "zero_polynomial r = ring_polynomial r (replicate (zr_bits r) 0)"

text \<open>
  \<^verbatim>\<open>Set\<close> rounds a finite value to the ring's precision. An infinity is kept and then fails the
  epsilon test of the validation, because subtracting epsilon leaves it unchanged.
\<close>

definition import_coefficient :: "nat \<Rightarrow> nat \<Rightarrow> big_float option \<Rightarrow> (z2n_error, big_float) res" where
  "import_coefficient prec i c =
     (case c of None \<Rightarrow> err (NilCoefficient i)
      | Some (Finite x) \<Rightarrow> Inr (Finite (bf_round prec x))
      | Some (Infinite s) \<Rightarrow> Inr (Infinite s))"

definition resolve_coefficient :: "z2n_ring \<Rightarrow> nat \<Rightarrow> big_float \<Rightarrow> (z2n_error, rat) res" where
  "resolve_coefficient r i c =
     (if set_prec (zr_prec r) \<noteq> zr_prec r
        then err (CoefficientPrecision i (set_prec (zr_prec r)) (zr_prec r))
      else case c of Infinite _ \<Rightarrow> err (UnresolvedEpsilon i (zr_bits r + 1) (zr_prec r))
      | Finite x \<Rightarrow>
          if bf_sub (zr_prec r) x (canonical_epsilon r) = x
          then err (UnresolvedEpsilon i (zr_bits r + 1) (zr_prec r)) else Inr x)"

definition new_polynomial :: "z2n_ring \<Rightarrow> big_float option list \<Rightarrow> (z2n_error, polynomial) res" where
  "new_polynomial r coefficients =
     (if length coefficients \<noteq> zr_bits r then err (CoefficientCount (length coefficients) (zr_bits r))
      else and_then (map_each (import_coefficient (zr_prec r)) 0 coefficients) (\<lambda>cs.
        and_then (map_err ImportPolynomial (map_each (resolve_coefficient r) 0 cs)) (\<lambda>xs.
        Inr (ring_polynomial r xs))))"

section \<open>Arithmetic\<close>

definition one_polynomial :: "z2n_ring \<Rightarrow> polynomial" where
  "one_polynomial r = ring_polynomial r ((replicate (zr_bits r) 0)[0 := 1])"

definition tau_polynomial :: "z2n_ring \<Rightarrow> polynomial" where
  "tau_polynomial r = ring_polynomial r ((replicate (zr_bits r) 0)[0 := - 2, 1 := 1])"

definition tau_inverse :: "z2n_ring \<Rightarrow> polynomial" where
  "tau_inverse r =
     (let n = zr_bits r; p = zr_prec r; denominator = (2::int) ^ n in
      ring_polynomial r (map (\<lambda>i.
        let numerator = (if i = 0 then 1 - 2 ^ (n - 1) else - (2 ^ (n - 1 - i)))
        in bf_quo p (bf_round p (of_int numerator)) (bf_round p (of_int denominator))) [0..<n]))"

definition ring_add :: "z2n_ring \<Rightarrow> polynomial \<Rightarrow> polynomial \<Rightarrow> (z2n_error, polynomial) res" where
  "ring_add r lhs rhs = and_then (validate_pair r lhs rhs) (\<lambda>_.
     Inr (ring_polynomial r (map2 (bf_add (zr_prec r)) (po_coefficients lhs) (po_coefficients rhs))))"

definition ring_sub :: "z2n_ring \<Rightarrow> polynomial \<Rightarrow> polynomial \<Rightarrow> (z2n_error, polynomial) res" where
  "ring_sub r lhs rhs = and_then (validate_pair r lhs rhs) (\<lambda>_.
     Inr (ring_polynomial r (map2 (bf_sub (zr_prec r)) (po_coefficients lhs) (po_coefficients rhs))))"

text \<open>The two nested loops of the product, over the 2n - 1 temporaries.\<close>

definition accumulate_product :: "nat \<Rightarrow> nat \<Rightarrow> rat list \<Rightarrow> rat list \<Rightarrow> rat list" where
  "accumulate_product p n lhs rhs =
     fold (\<lambda>i temporary. fold (\<lambda>j temporary.
         temporary[i + j := bf_add p (temporary ! (i + j)) (bf_mul p (lhs ! i) (rhs ! j))])
       [0..<n] temporary) [0..<n] (replicate (2 * n - 1) 0)"

definition reduce_degree :: "nat \<Rightarrow> nat \<Rightarrow> nat \<Rightarrow> rat list \<Rightarrow> rat list" where
  "reduce_degree p n degree temporary =
     (let temporary = temporary[degree - n + 1 := bf_add p (temporary ! (degree - n + 1)) (temporary ! degree)];
          twice = bf_mul p (temporary ! degree) 2
      in temporary[degree - n := bf_sub p (temporary ! (degree - n)) twice])"

definition ring_mul :: "z2n_ring \<Rightarrow> polynomial \<Rightarrow> polynomial \<Rightarrow> (z2n_error, polynomial) res" where
  "ring_mul r lhs rhs = and_then (validate_pair r lhs rhs) (\<lambda>_.
     let n = zr_bits r; p = zr_prec r;
         temporary = accumulate_product p n (po_coefficients lhs) (po_coefficients rhs);
         temporary = fold (reduce_degree p n) (rev [n..<2 * n - 1]) temporary
     in Inr (ring_polynomial r (take n temporary)))"

definition mul_tau :: "z2n_ring \<Rightarrow> polynomial \<Rightarrow> (z2n_error, polynomial) res" where
  "mul_tau r value = ring_mul r value (tau_polynomial r)"

section \<open>Encoding\<close>

definition word_mask :: "z2n_ring \<Rightarrow> 64 word" where
  "word_mask r = (if zr_bits r = 64 then - 1 else 2 ^ zr_bits r - 1)"

definition binary_encode :: "z2n_ring \<Rightarrow> 64 word \<Rightarrow> polynomial" where
  "binary_encode r w =
     (let w = and w (word_mask r) in
      ring_polynomial r (map (\<lambda>i. if and (drop_bit i w) 1 = 1 then 1 else 0) [0..<zr_bits r]))"

text \<open>The multiplication of an encoding cannot fail; a failure is a panic.\<close>

definition arithmetic_encode :: "z2n_ring \<Rightarrow> 64 word \<Rightarrow> (z2n_error, polynomial) res" where
  "arithmetic_encode r w =
     (case ring_mul r (binary_encode r w) (tau_inverse r) of Inl _ \<Rightarrow> Inl Panic | Inr p \<Rightarrow> Inr p)"

definition floor_to_int :: "nat \<Rightarrow> rat \<Rightarrow> int" where
  "floor_to_int p x =
     (let i = bf_trunc x in if x < bf_round p (of_int i) then i - 1 else i)"

definition ceil_to_int :: "nat \<Rightarrow> rat \<Rightarrow> int" where
  "ceil_to_int p x =
     (let i = bf_trunc x in if x > bf_round p (of_int i) then i + 1 else i)"

definition round_to_int :: "nat \<Rightarrow> rat \<Rightarrow> int" where
  "round_to_int p x =
     (let floor = floor_to_int p x;
          fraction = bf_sub p x (bf_round p (of_int floor))
      in if fraction \<ge> 1 / 2 then floor + 1 else floor)"

fun horner :: "int list \<Rightarrow> int \<Rightarrow> int" where
  "horner [] acc = acc"
| "horner (x # xs) acc = horner xs (acc * 2 + x)"

text \<open>The rounded coefficients are evaluated at 2 from the highest degree down.\<close>

definition decode_arithmetic :: "z2n_ring \<Rightarrow> polynomial \<Rightarrow> (z2n_error, 64 word) res" where
  "decode_arithmetic r encoded =
     and_then (ring_validate r encoded) (\<lambda>_.
     and_then (mul_tau r encoded) (\<lambda>times_tau.
     let rounded = map (round_to_int (zr_prec r)) (po_coefficients times_tau);
         value = horner (rev (butlast rounded)) (last rounded)
     in Inr (word_of_int (value mod 2 ^ zr_bits r))))"

definition canonical_coefficient :: "nat \<Rightarrow> rat \<Rightarrow> rat \<Rightarrow> rat" where
  "canonical_coefficient p epsilon c =
     (let shifted = bf_sub p c epsilon; ceiling = bf_round p (of_int (ceil_to_int p shifted))
      in bf_add p (bf_sub p shifted ceiling) epsilon)"

definition canonicalize_arithmetic :: "z2n_ring \<Rightarrow> polynomial \<Rightarrow> (z2n_error, polynomial) res" where
  "canonicalize_arithmetic r value =
     and_then (ring_validate r value) (\<lambda>_.
     Inr (ring_polynomial r
       (map (canonical_coefficient (zr_prec r) (canonical_epsilon r)) (po_coefficients value))))"

definition add_arithmetic :: "z2n_ring \<Rightarrow> polynomial \<Rightarrow> polynomial \<Rightarrow> (z2n_error, polynomial) res" where
  "add_arithmetic r lhs rhs = and_then (ring_add r lhs rhs) (canonicalize_arithmetic r)"

definition sub_arithmetic :: "z2n_ring \<Rightarrow> polynomial \<Rightarrow> polynomial \<Rightarrow> (z2n_error, polynomial) res" where
  "sub_arithmetic r lhs rhs = and_then (ring_sub r lhs rhs) (canonicalize_arithmetic r)"

definition mul_arithmetic :: "z2n_ring \<Rightarrow> polynomial \<Rightarrow> polynomial \<Rightarrow> (z2n_error, polynomial) res" where
  "mul_arithmetic r lhs rhs =
     and_then (ring_mul r lhs rhs) (\<lambda>product.
     and_then (mul_tau r product) (canonicalize_arithmetic r))"

end
