(* ===== verification/Z2nOracle.thy ===== *)
theory Z2nOracle
  imports Z2nRing
begin

text \<open>
  The plaintext oracles of the arithmetic and Boolean representations: \<^verbatim>\<open>boolean_oracle.go\<close> of
  \<^verbatim>\<open>integer/z2n\<close>. Go's \<^verbatim>\<open>uint\<close> widths are naturals, a bit is a \<^verbatim>\<open>uint8\<close>.
\<close>

section \<open>Values and errors\<close>

record a2b_two_lut_value =
  tl_id :: rat
  tl_msb :: "8 word"

record boolean_halves =
  bh_low :: "8 word list"
  bh_high :: "8 word list"

type_synonym a2b_packing_mode = string

definition a2b_full_packing :: a2b_packing_mode where
  "a2b_full_packing = ''full''"

definition a2b_sparse_packing :: a2b_packing_mode where
  "a2b_sparse_packing = ''sparse''"

record a2b_config =
  ac_word_bits :: nat
  ac_chunk_width :: nat
  ac_packing :: a2b_packing_mode

datatype boolean_half_kind = LowHalf | HighHalf

record ba2b_output_ref =
  br_input_index :: int
  br_half :: boolean_half_kind

datatype oracle_error =
  ChunkWidthRange nat nat
| LutCodeRange "64 word" nat
| OracleWordSize nat
| WordRange "64 word" nat
| HalvesLength nat nat nat nat
| NotABit boolean_half_kind nat "8 word"
| ChunkDoesNotDivide nat nat
| UnknownPackingMode string
| NotFullPacking a2b_packing_mode
| OddDigitCount nat
| InputCount nat nat
| DirectInput nat oracle_error

section \<open>The paired lookup tables\<close>

definition a2b_two_lut_oracle :: "64 word \<Rightarrow> nat \<Rightarrow> (oracle_error, a2b_two_lut_value) res" where
  "a2b_two_lut_oracle code chunk_width =
     (if chunk_width = 0 \<or> chunk_width > 64 then err (ChunkWidthRange chunk_width 64)
      else if chunk_width < 64 \<and> code \<ge> push_bit chunk_width 1 then err (LutCodeRange code chunk_width)
      else Inr \<lparr>
        tl_id = (if code \<noteq> 0 then of_int (int (unat code) - 2 ^ chunk_width) / of_int (2 ^ chunk_width) else 0),
        tl_msb = (if code \<noteq> 0 \<and> code \<le> push_bit (chunk_width - 1) 1 then 1 else 0)\<rparr>)"

section \<open>Boolean halves\<close>

definition bit8 :: "64 word \<Rightarrow> nat \<Rightarrow> 8 word" where
  "bit8 word i = ucast (and (drop_bit i word) 1)"

definition a2b_boolean_halves_oracle :: "64 word \<Rightarrow> nat \<Rightarrow> (oracle_error, boolean_halves) res" where
  "a2b_boolean_halves_oracle word bits =
     (if \<not> word_supported bits then err (OracleWordSize bits)
      else if bits < 64 \<and> word \<ge> push_bit bits 1 then err (WordRange word bits)
      else let half_length = bits div 2 in
        Inr \<lparr>bh_low = map (\<lambda>i. bit8 word i) [0..<half_length],
             bh_high = map (\<lambda>i. bit8 word (i + half_length)) [0..<half_length]\<rparr>)"

definition b2a_step ::
  "nat \<Rightarrow> nat \<Rightarrow> 8 word \<times> 8 word \<Rightarrow> 64 word \<Rightarrow> (oracle_error, 64 word) res" where
  "b2a_step half_length i pair word =
     (let (low, high) = pair in
      if low > 1 then err (NotABit LowHalf i low)
      else if high > 1 then err (NotABit HighHalf i high)
      else Inr (or (or word (push_bit i (ucast low))) (push_bit (i + half_length) (ucast high))))"

definition b2a_oracle :: "nat \<Rightarrow> boolean_halves \<Rightarrow> (oracle_error, 64 word) res" where
  "b2a_oracle bits halves =
     (if \<not> word_supported bits then err (OracleWordSize bits)
      else let half_length = bits div 2 in
        if length (bh_low halves) \<noteq> half_length \<or> length (bh_high halves) \<noteq> half_length
        then err (HalvesLength (length (bh_low halves)) (length (bh_high halves)) half_length bits)
        else fold_each (b2a_step half_length) 0 (zip (bh_low halves) (bh_high halves)) 0)"

section \<open>The direct batch conversion\<close>

definition a2b_config_validate :: "a2b_config \<Rightarrow> (oracle_error, unit) res" where
  "a2b_config_validate c =
     (if \<not> word_supported (ac_word_bits c) then err (OracleWordSize (ac_word_bits c))
      else if ac_chunk_width c = 0 \<or> ac_chunk_width c > ac_word_bits c
        then err (ChunkWidthRange (ac_chunk_width c) (ac_word_bits c))
      else if ac_word_bits c mod ac_chunk_width c \<noteq> 0
        then err (ChunkDoesNotDivide (ac_chunk_width c) (ac_word_bits c))
      else if ac_packing c \<noteq> a2b_full_packing \<and> ac_packing c \<noteq> a2b_sparse_packing
        then err (UnknownPackingMode (ac_packing c))
      else Inr ())"

definition digit_count :: "a2b_config \<Rightarrow> (oracle_error, nat) res" where
  "digit_count c = and_then (a2b_config_validate c) (\<lambda>_. Inr (ac_word_bits c div ac_chunk_width c))"

definition ba2b_output_order :: "int \<Rightarrow> ba2b_output_ref list" where
  "ba2b_output_order input_count =
     (if input_count \<le> 0 then []
      else concat (map (\<lambda>i. [\<lparr>br_input_index = i, br_half = LowHalf\<rparr>, \<lparr>br_input_index = i, br_half = HighHalf\<rparr>])
             [0..input_count - 1]))"

definition direct_ba2b_oracle :: "a2b_config \<Rightarrow> 64 word list \<Rightarrow> (oracle_error, 8 word list list) res" where
  "direct_ba2b_oracle config ws =
     and_then (digit_count config) (\<lambda>d.
     if ac_packing config \<noteq> a2b_full_packing then err (NotFullPacking (ac_packing config))
     else if d mod 2 \<noteq> 0 then err (OddDigitCount d)
     else if length ws \<noteq> d then err (InputCount (length ws) d)
     else and_then (map_each (\<lambda>i word. map_err (DirectInput i)
              (a2b_boolean_halves_oracle word (ac_word_bits config))) 0 ws) (\<lambda>halves.
       Inr (concat (map (\<lambda>h. [bh_low h, bh_high h]) halves))))"

section \<open>Bits of a word\<close>

lemma bit8_bit: "bit8 w i = (if bit w i then 1 else 0)"
  by (simp add: bit8_def and_one_eq bit_iff_odd_drop_bit mod_2_eq_odd)

lemma bit8_le: "bit8 w i \<le> 1"
  by (simp add: bit8_bit)

lemma small_bit: "(b :: 8 word) \<le> 1 \<longleftrightarrow> b = 0 \<or> b = 1"
proof -
  have "b \<le> 1 \<longleftrightarrow> unat b \<le> 1" by (simp add: word_le_nat_alt)
  also have "\<dots> \<longleftrightarrow> unat b = 0 \<or> unat b = 1" by linarith
  also have "\<dots> \<longleftrightarrow> b = 0 \<or> b = 1" by (simp add: word_unat_eq_iff)
  finally show ?thesis .
qed

definition assembled :: "nat \<Rightarrow> 8 word list \<Rightarrow> 8 word list \<Rightarrow> nat \<Rightarrow> 64 word \<Rightarrow> bool" where
  "assembled h low high k w \<longleftrightarrow>
     (\<forall>i. bit w i \<longleftrightarrow> i < k \<and> low ! i = 1 \<or> h \<le> i \<and> i < h + k \<and> high ! (i - h) = 1)"

lemma b2a_assembles:
  assumes bits: "h \<le> 32" and len: "length low = h" "length high = h"
    and small: "\<forall>i < h. low ! i \<le> 1 \<and> high ! i \<le> 1" and k: "k \<le> h"
  shows "\<exists>w. fold_each (b2a_step h) 0 (take k (zip low high)) 0 = Inr w \<and> assembled h low high k w"
  using k
proof (induction k)
  case 0
  then show ?case by (simp add: assembled_def)
next
  case (Suc k)
  then obtain w where w: "fold_each (b2a_step h) 0 (take k (zip low high)) 0 = Inr w" "assembled h low high k w"
    by auto
  have kh: "k < h" using Suc.prems by simp
  have split: "take (Suc k) (zip low high) = take k (zip low high) @ [(low ! k, high ! k)]"
    using kh len by (simp add: take_Suc_conv_app_nth)
  have step: "b2a_step h k (low ! k, high ! k) w =
      Inr (or (or w (push_bit k (ucast (low ! k)))) (push_bit (k + h) (ucast (high ! k))))"
    using small kh by (auto simp: b2a_step_def not_less)
  have bit01: "bit (push_bit m (ucast b) :: 64 word) i \<longleftrightarrow> i = m \<and> b = 1" if "b \<le> 1" "m < 64" for b :: "8 word" and m i
    using that by (auto simp: small_bit bit_simps)
  have "assembled h low high (Suc k)
      (or (or w (push_bit k (ucast (low ! k)))) (push_bit (k + h) (ucast (high ! k))))"
    unfolding assembled_def bit_or_iff
  proof (intro allI)
    fix i
    have b: "bit (push_bit k (ucast (low ! k)) :: 64 word) i \<longleftrightarrow> i = k \<and> low ! k = 1"
      "bit (push_bit (k + h) (ucast (high ! k)) :: 64 word) i \<longleftrightarrow> i = k + h \<and> high ! k = 1"
      using small kh bits by (auto intro!: bit01)
    have wi: "bit w i \<longleftrightarrow> i < k \<and> low ! i = 1 \<or> h \<le> i \<and> i < h + k \<and> high ! (i - h) = 1"
      using w(2) by (simp add: assembled_def)
    have succ: "i < Suc k \<longleftrightarrow> i < k \<or> i = k" "h \<le> i \<and> i < h + Suc k \<longleftrightarrow> h \<le> i \<and> i < h + k \<or> i = k + h"
      by linarith+
    show "(bit w i \<or> bit (push_bit k (ucast (low ! k)) :: 64 word) i) \<or>
        bit (push_bit (k + h) (ucast (high ! k)) :: 64 word) i \<longleftrightarrow>
        i < Suc k \<and> low ! i = 1 \<or> h \<le> i \<and> i < h + Suc k \<and> high ! (i - h) = 1"
      unfolding b wi conj_assoc [symmetric] succ by auto
  qed
  then show ?case
    using w(1) step kh len by (simp add: split fold_each_append)
qed


lemma b2a_bits_from:
  "fold_each (b2a_step h) i pairs v = Inr w \<Longrightarrow> \<forall>pair \<in> set pairs. fst pair \<le> 1 \<and> snd pair \<le> 1"
proof (induction pairs arbitrary: i v)
  case (Cons pair pairs)
  then show ?case
    by (cases pair) (auto simp: b2a_step_def and_then_ok not_less split: if_splits)
qed simp

lemma b2a_bits:
  "fold_each (b2a_step h) i pairs v = Inr w \<Longrightarrow> \<forall>j < length pairs. fst (pairs ! j) \<le> 1 \<and> snd (pairs ! j) \<le> 1"
  using b2a_bits_from nth_mem by blast

lemma b2a_oracle_ok:
  assumes "word_supported bits"
  shows "b2a_oracle bits halves = Inr w \<longleftrightarrow>
    length (bh_low halves) = bits div 2 \<and> length (bh_high halves) = bits div 2 \<and>
    (\<forall>i < bits div 2. bh_low halves ! i \<le> 1 \<and> bh_high halves ! i \<le> 1) \<and>
    assembled (bits div 2) (bh_low halves) (bh_high halves) (bits div 2) w"
    (is "?run \<longleftrightarrow> ?len1 \<and> ?len2 \<and> ?small \<and> ?asm w")
proof (cases "?len1 \<and> ?len2")
  case False
  then show ?thesis using assms by (auto simp: b2a_oracle_def Let_def)
next
  case len: True
  let ?h = "bits div 2" and ?pairs = "zip (bh_low halves) (bh_high halves)"
  have run: "b2a_oracle bits halves = fold_each (b2a_step ?h) 0 ?pairs 0"
    using assms len by (simp add: b2a_oracle_def)
  have h: "?h \<le> 32" using assms by (auto simp: word_supported_def)
  have unique: "v = w" if "?asm v" "?asm w" for v
    using that by (auto simp: assembled_def intro: bit_word_eqI)
  show ?thesis
  proof (cases ?small)
    case True
    then obtain v where "fold_each (b2a_step ?h) 0 ?pairs 0 = Inr v" "?asm v"
      using b2a_assembles [OF h, of "bh_low halves" "bh_high halves" ?h] len by auto
    with True len unique show ?thesis by (auto simp: run)
  next
    case False
    have "?small" if "fold_each (b2a_step ?h) 0 ?pairs 0 = Inr w"
    proof -
      have "\<forall>j < length ?pairs. fst (?pairs ! j) \<le> 1 \<and> snd (?pairs ! j) \<le> 1"
        using that by (rule b2a_bits)
      then show ?thesis using len by simp
    qed
    with False show ?thesis by (auto simp: run)
  qed
qed

section \<open>The oracles are inverse\<close>

lemma unat_push_bit_one: "n < 64 \<Longrightarrow> unat (push_bit n 1 :: 64 word) = 2 ^ n"
  proof -
  assume "n < 64"
  then have "(2::nat) ^ n < 2 ^ 64" by (intro power_strict_increasing) simp_all
  then have "(2::nat) ^ n mod 2 ^ 64 = 2 ^ n" by (rule mod_less)
  moreover have "unat (word_of_nat (2 ^ n) :: 64 word) = 2 ^ n mod 2 ^ LENGTH(64)" by (rule unat_of_nat)
  moreover have "push_bit n 1 = (word_of_nat (2 ^ n) :: 64 word)" by (simp add: push_bit_of_1)
  ultimately show ?thesis by simp
qed

lemma push_bit_one_le:
  "n < 64 \<Longrightarrow> push_bit n 1 \<le> w \<longleftrightarrow> 2 ^ n \<le> unat w" "n < 64 \<Longrightarrow> w \<le> push_bit n 1 \<longleftrightarrow> unat w \<le> 2 ^ n"
  for w :: "64 word"
  by (simp_all only: word_le_nat_alt unat_push_bit_one)

lemma no_high_bits: "(\<forall>i \<ge> n. \<not> bit (w :: 64 word) i) \<longleftrightarrow> \<not> (n < 64 \<and> push_bit n 1 \<le> w)"
proof -
  have "(\<forall>i \<ge> n. \<not> bit w i) \<longleftrightarrow> take_bit n w = w"
  proof
    assume "\<forall>i \<ge> n. \<not> bit w i"
    then have "i < n" if "bit w i" for i using that not_le by blast
    then show "take_bit n w = w" by (intro bit_word_eqI) (auto simp: bit_take_bit_iff)
  next
    assume "take_bit n w = w"
    then have "bit w i \<longleftrightarrow> i < n \<and> bit w i" for i by (metis bit_take_bit_iff)
    then show "\<forall>i \<ge> n. \<not> bit w i" using not_le by blast
  qed
  also have "\<dots> \<longleftrightarrow> unat w < 2 ^ n"
    by (simp add: word_unat_eq_iff unsigned_take_bit_eq take_bit_nat_eq_self_iff)
  also have "\<dots> \<longleftrightarrow> \<not> (n < 64 \<and> push_bit n 1 \<le> w)"
  proof (cases "n < 64")
    case True
    then show ?thesis using push_bit_one_le(1) [OF True, of w] by (metis not_le)
  next
    case False
    have "unat w < 2 ^ 64" using unsigned_less [of w] by simp
    also have "(2::nat) ^ 64 \<le> 2 ^ n" using False by (intro power_increasing) simp_all
    finally show ?thesis using False by simp
  qed
  finally show ?thesis .
qed

lemma a2b_halves_ok:
  "a2b_boolean_halves_oracle w bits = Inr h \<longleftrightarrow>
    word_supported bits \<and> (\<forall>i \<ge> bits. \<not> bit w i) \<and>
    bh_low h = map (\<lambda>i. bit8 w i) [0..<bits div 2] \<and>
    bh_high h = map (\<lambda>i. bit8 w (i + bits div 2)) [0..<bits div 2]"
  unfolding no_high_bits by (auto simp: a2b_boolean_halves_oracle_def Let_def)

lemma halves_assembled:
  assumes h: "h \<le> 32" and len: "length low = h" "length high = h"
    and small: "\<forall>i < h. low ! i \<le> 1 \<and> high ! i \<le> 1"
  shows "assembled h low high h w \<longleftrightarrow>
    (\<forall>i \<ge> 2 * h. \<not> bit w i) \<and> low = map (\<lambda>i. bit8 w i) [0..<h] \<and> high = map (\<lambda>i. bit8 w (i + h)) [0..<h]"
proof -
  have one: "b = (if c then 1 else 0) \<longleftrightarrow> (b = 1 \<longleftrightarrow> c)" if "b \<le> 1" for b :: "8 word" and c
    using that by (auto simp: small_bit)
  have lows: "low = map (\<lambda>i. bit8 w i) [0..<h] \<longleftrightarrow> (\<forall>i < h. bit w i \<longleftrightarrow> low ! i = 1)"
    using small by (auto simp: list_eq_iff_nth_eq len bit8_bit one)
  have highs: "high = map (\<lambda>i. bit8 w (i + h)) [0..<h] \<longleftrightarrow> (\<forall>i < h. bit w (i + h) \<longleftrightarrow> high ! i = 1)"
    using small by (auto simp: list_eq_iff_nth_eq len bit8_bit one)
  have cover: "(\<forall>i. P i) \<longleftrightarrow> (\<forall>i < h. P i) \<and> (\<forall>i < h. P (i + h)) \<and> (\<forall>i \<ge> 2 * h. P i)" for P
  proof -
    have "i < h \<or> (\<exists>j < h. i = j + h) \<or> 2 * h \<le> i" for i
      by (cases "i < h"; cases "i < 2 * h") (auto intro: exI [of _ "i - h"])
    then show ?thesis by metis
  qed
  define Q where "Q i \<longleftrightarrow> i < h \<and> low ! i = 1 \<or> h \<le> i \<and> i < h + h \<and> high ! (i - h) = 1" for i
  have Q: "i < h \<Longrightarrow> Q i \<longleftrightarrow> low ! i = 1" "i < h \<Longrightarrow> Q (i + h) \<longleftrightarrow> high ! i = 1" "2 * h \<le> i \<Longrightarrow> \<not> Q i" for i
    by (auto simp: Q_def)
  have "assembled h low high h w \<longleftrightarrow> (\<forall>i. bit w i \<longleftrightarrow> Q i)" by (simp add: assembled_def Q_def)
  also have "\<dots> \<longleftrightarrow>
      (\<forall>i < h. bit w i \<longleftrightarrow> low ! i = 1) \<and> (\<forall>i < h. bit w (i + h) \<longleftrightarrow> high ! i = 1) \<and> (\<forall>i \<ge> 2 * h. \<not> bit w i)"
    unfolding cover [of "\<lambda>i. bit w i \<longleftrightarrow> Q i"] by (simp add: Q)
  finally have "assembled h low high h w \<longleftrightarrow>
      (\<forall>i < h. bit w i \<longleftrightarrow> low ! i = 1) \<and> (\<forall>i < h. bit w (i + h) \<longleftrightarrow> high ! i = 1) \<and> (\<forall>i \<ge> 2 * h. \<not> bit w i)" .
  then show ?thesis unfolding lows highs by blast
qed

text \<open>
  C28. The Boolean halves oracle and the arithmetic reconstruction are inverse: an n-bit word has
  halves \<^verbatim>\<open>h\<close> exactly when \<^verbatim>\<open>h\<close> reconstructs to that word; both reject everything else.
\<close>

theorem a2b_b2a_inverse:
  "a2b_boolean_halves_oracle w bits = Inr h \<longleftrightarrow> b2a_oracle bits h = Inr w"
proof (cases "word_supported bits")
  case True
  then have n: "bits div 2 \<le> 32" "2 * (bits div 2) = bits" by (auto simp: word_supported_def)
  show ?thesis
  proof (cases "length (bh_low h) = bits div 2 \<and> length (bh_high h) = bits div 2 \<and>
      (\<forall>i < bits div 2. bh_low h ! i \<le> 1 \<and> bh_high h ! i \<le> 1)")
    case shape: True
    then show ?thesis
      using True halves_assembled [OF n(1), of "bh_low h" "bh_high h" w]
      unfolding a2b_halves_ok b2a_oracle_ok [OF True] n(2) by blast
  next
    case False
    then show ?thesis
      unfolding a2b_halves_ok b2a_oracle_ok [OF True] by (auto simp: bit8_le)
  qed
qed (simp add: a2b_boolean_halves_oracle_def b2a_oracle_def)

text \<open>
  The lookup tables of A2B work on the negated residue: on a code of the chunk width, ID is
  minus the residue of -code as a fraction of the modulus and MSB is its top bit.
\<close>

theorem two_lut_negation:
  assumes "a2b_two_lut_oracle code w = Inr v"
  shows "tl_id v = - (of_int ((- int (unat code)) mod 2 ^ w) / 2 ^ w) \<and>
    (tl_msb v = 1 \<longleftrightarrow> 2 ^ (w - 1) \<le> (- int (unat code)) mod 2 ^ w)"
proof (cases "code = 0")
  case True
  then show ?thesis using assms by (auto simp: a2b_two_lut_oracle_def split: if_splits)
next
  case False
  let ?c = "int (unat code)"
  from assms have w: "0 < w" "w \<le> 64" and range: "w < 64 \<Longrightarrow> \<not> push_bit w 1 \<le> code"
    and v: "tl_id v = of_int (?c - 2 ^ w) / of_int (2 ^ w)" "tl_msb v = (if code \<le> push_bit (w - 1) 1 then 1 else 0)"
    using False by (auto simp: a2b_two_lut_oracle_def split: if_splits)
  have pos: "0 < ?c" using False by (metis gr0I of_nat_0_less_iff unat_eq_0)
  have less: "unat code < 2 ^ w"
    using range w unsigned_less [of code] push_bit_one_le(1) [of w code] by (cases "w = 64") (auto simp: not_le)
  then have "?c < 2 ^ w" by (metis of_nat_less_iff of_nat_numeral of_nat_power)
  then have neg: "(- ?c) mod 2 ^ w = 2 ^ w - ?c"
    using pos by (simp add: zmod_zminus1_eq_if)
  have "code \<le> push_bit (w - 1) 1 \<longleftrightarrow> unat code \<le> 2 ^ (w - 1)" using w by (intro push_bit_one_le) simp
  also have "\<dots> \<longleftrightarrow> ?c \<le> 2 ^ (w - 1)" by (metis of_nat_le_iff of_nat_numeral of_nat_power)
  also have "\<dots> \<longleftrightarrow> 2 ^ (w - 1) \<le> 2 ^ w - ?c" using w by (cases w) auto
  finally show ?thesis unfolding v neg by (simp add: field_simps)
qed

lemma two_lut_negation_witness:
  "a2b_two_lut_oracle 3 2 = Inr \<lparr>tl_id = - (1 / 4), tl_msb = 0\<rparr> \<and> (- int (unat (3 :: 64 word))) mod 2 ^ 2 = 1 \<and>
   - (1 / 4 :: rat) = - (of_int ((- int (unat (3 :: 64 word))) mod 2 ^ 2) / 2 ^ 2)"
proof -
  have run: "a2b_two_lut_oracle 3 2 = Inr \<lparr>tl_id = - (1 / 4), tl_msb = 0\<rparr>"
    by (simp add: a2b_two_lut_oracle_def)
  from two_lut_negation [OF run] run show ?thesis by simp
qed

lemma list_all2_concat: "list_all2 (list_all2 P) xss yss \<Longrightarrow> list_all2 P (concat xss) (concat yss)"
  by (induction rule: list_all2_induct) (auto intro: list_all2_appendI)

lemma digit_count_pos: "digit_count config = Inr d \<Longrightarrow> d \<noteq> 0"
  by (auto simp: digit_count_def a2b_config_validate_def and_then_ok word_supported_def div_greater_zero_iff split: if_splits)

lemma direct_ba2b_ok:
  assumes "direct_ba2b_oracle config ws = Inr outs"
  shows "ws \<noteq> [] \<and> (\<exists>halves. length halves = length ws \<and>
    (\<forall>i < length ws. a2b_boolean_halves_oracle (ws ! i) (ac_word_bits config) = Inr (halves ! i)) \<and>
    outs = concat (map (\<lambda>h. [bh_low h, bh_high h]) halves))"
  using assms digit_count_pos [of config "length ws"]
  by (fastforce simp: direct_ba2b_oracle_def and_then_ok map_err_ok map_each_ok split: if_splits)

text \<open>
  DirectBA2BOracle returns the halves of its words in the order BA2BOutputOrder announces.
\<close>

theorem direct_ba2b_order:
  assumes "direct_ba2b_oracle config ws = Inr outs"
  shows "list_all2 (\<lambda>ref out. \<exists>h. a2b_boolean_halves_oracle (ws ! nat (br_input_index ref)) (ac_word_bits config) = Inr h \<and>
      out = (case br_half ref of LowHalf \<Rightarrow> bh_low h | HighHalf \<Rightarrow> bh_high h))
    (ba2b_output_order (int (length ws))) outs"
proof -
  from direct_ba2b_ok [OF assms] obtain halves where halves: "length halves = length ws"
    "\<forall>i < length ws. a2b_boolean_halves_oracle (ws ! i) (ac_word_bits config) = Inr (halves ! i)"
    and outs: "outs = concat (map (\<lambda>h. [bh_low h, bh_high h]) halves)" and "ws \<noteq> []"
    by blast
  then have "\<not> int (length ws) \<le> 0" by simp
  then show ?thesis
    unfolding outs ba2b_output_order_def if_not_P [OF \<open>\<not> int (length ws) \<le> 0\<close>]
    by (intro list_all2_concat) (auto simp: list_all2_conv_all_nth halves less_Suc_eq)
qed

lemma direct_ba2b_order_witness:
  "ba2b_output_order 2 = [\<lparr>br_input_index = 0, br_half = LowHalf\<rparr>, \<lparr>br_input_index = 0, br_half = HighHalf\<rparr>,
     \<lparr>br_input_index = 1, br_half = LowHalf\<rparr>, \<lparr>br_input_index = 1, br_half = HighHalf\<rparr>] \<and>
   (\<exists>h. a2b_boolean_halves_oracle 5 8 = Inr h \<and> [1, 0, 1, 0] = bh_low h)"
proof -
  let ?c = "\<lparr>ac_word_bits = 8, ac_chunk_width = 4, ac_packing = a2b_full_packing\<rparr>"
  have order: "ba2b_output_order 2 = [\<lparr>br_input_index = 0, br_half = LowHalf\<rparr>, \<lparr>br_input_index = 0, br_half = HighHalf\<rparr>,
     \<lparr>br_input_index = 1, br_half = LowHalf\<rparr>, \<lparr>br_input_index = 1, br_half = HighHalf\<rparr>]"
    by code_simp
  have run: "direct_ba2b_oracle ?c [5, 0] = Inr [[1, 0, 1, 0], [0, 0, 0, 0], [0, 0, 0, 0], [0, 0, 0, 0]]"
    by code_simp
  from direct_ba2b_order [OF run] order show ?thesis by simp
qed

end
