(* ===== verification/Signed8Range.thy ===== *)
theory Signed8Range
  imports Digest
begin

text \<open>
  The range certificate of the signed eight-bit comparator: the first part of
  \<^verbatim>\<open>integer/homchain/signed_comparator.go\<close>. An \<^verbatim>\<open>int64\<close> endpoint is an integer; the derived
  endpoints are computed with big.Int, so no step wraps.
\<close>

section \<open>Decimal text\<close>

text \<open>The verb \<^verbatim>\<open>%d\<close> of \<^verbatim>\<open>fmt\<close>.\<close>

fun show_nat :: "nat \<Rightarrow> string" where
  "show_nat n = (if n < 10 then [''0123456789'' ! n] else show_nat (n div 10) @ [''0123456789'' ! (n mod 10)])"

declare show_nat.simps [simp del]

definition show_int :: "int \<Rightarrow> string" where
  "show_int z = (if z < 0 then CHR ''-'' # show_nat (nat (- z)) else show_nat (nat z))"

section \<open>Certificates\<close>

record signed8_range =
  sr_x_min :: int
  sr_x_max :: int
  sr_t_min :: int
  sr_t_max :: int
  sr_difference_min :: int
  sr_difference_max :: int
  sr_word_bits :: nat
  sr_signedness :: string
  sr_predicate :: string
  sr_children :: string
  sr_proof_status :: string
  sr_overflow :: string
  sr_digest :: string

datatype signed8_endpoint = FeatureMinimum | FeatureMaximum | ThresholdMinimum | ThresholdMaximum

datatype signed8_error =
  FeatureReversed int int
| ThresholdReversed int int
| EndpointOutside signed8_endpoint int
| SubtractionOutside int int
| InvalidRangeEvidence signed8_error
| RangeEvidenceMismatch

definition twos_complement :: string where
  "twos_complement = ''twos_complement''"

definition greater_than_or_equal :: string where
  "greater_than_or_equal = ''ge''"

definition zero_lt_one_ge :: string where
  "zero_lt_one_ge = ''0=lt,1=ge''"

definition internally_derived_endpoint_interval :: string where
  "internally_derived_endpoint_interval = ''internally_derived_endpoint_interval''"

definition same_width_subtraction_no_overflow :: string where
  "same_width_subtraction_no_overflow = ''same_width_subtraction_no_overflow''"

definition range_digest_schema :: string where
  "range_digest_schema = ''signed8-no-overflow-range-v1''"

definition digest_signed8_range :: "signed8_range \<Rightarrow> string" where
  "digest_signed8_range r = hex_string (sha256 (ascii (concat
     [range_digest_schema,
      ''|x_min='', show_int (sr_x_min r), ''|x_max='', show_int (sr_x_max r),
      ''|t_min='', show_int (sr_t_min r), ''|t_max='', show_int (sr_t_max r),
      ''|difference_min='', show_int (sr_difference_min r), ''|difference_max='', show_int (sr_difference_max r),
      ''|word_bits='', show_nat (sr_word_bits r), ''|signedness='', sr_signedness r,
      ''|predicate='', sr_predicate r, ''|child_convention='', sr_children r,
      ''|proof_status='', sr_proof_status r, ''|overflow_contract='', sr_overflow r])))"

definition new_signed8_range :: "int \<Rightarrow> int \<Rightarrow> int \<Rightarrow> int \<Rightarrow> (signed8_error, signed8_range) res" where
  "new_signed8_range x_min x_max t_min t_max =
     (if x_min > x_max then err (FeatureReversed x_min x_max)
      else if t_min > t_max then err (ThresholdReversed t_min t_max)
      else and_then
        (check_each (\<lambda>_ (label, endpoint). reject_if (endpoint < -128 \<or> endpoint > 127) (EndpointOutside label endpoint)) 0
           [(FeatureMinimum, x_min), (FeatureMaximum, x_max), (ThresholdMinimum, t_min), (ThresholdMaximum, t_max)]) (\<lambda>_.
      let difference_min = x_min - t_max; difference_max = x_max - t_min in
      if difference_min < -128 \<or> difference_max > 127 then err (SubtractionOutside difference_min difference_max)
      else let certificate = \<lparr>sr_x_min = x_min, sr_x_max = x_max, sr_t_min = t_min, sr_t_max = t_max,
             sr_difference_min = difference_min, sr_difference_max = difference_max,
             sr_word_bits = 8, sr_signedness = twos_complement, sr_predicate = greater_than_or_equal,
             sr_children = zero_lt_one_ge, sr_proof_status = internally_derived_endpoint_interval,
             sr_overflow = same_width_subtraction_no_overflow, sr_digest = []\<rparr>
        in Inr (certificate\<lparr>sr_digest := digest_signed8_range certificate\<rparr>)))"

definition validate_signed8_range :: "signed8_range \<Rightarrow> (signed8_error, unit) res" where
  "validate_signed8_range r =
     and_then (map_err InvalidRangeEvidence
       (new_signed8_range (sr_x_min r) (sr_x_max r) (sr_t_min r) (sr_t_max r))) (\<lambda>expected.
     reject_if (r \<noteq> expected) RangeEvidenceMismatch)"

section \<open>What a certificate certifies\<close>

definition range_admissible :: "int \<Rightarrow> int \<Rightarrow> int \<Rightarrow> int \<Rightarrow> bool" where
  "range_admissible x_min x_max t_min t_max \<longleftrightarrow>
     -128 \<le> x_min \<and> x_min \<le> x_max \<and> x_max \<le> 127 \<and> -128 \<le> t_min \<and> t_min \<le> t_max \<and> t_max \<le> 127 \<and>
     -128 \<le> x_min - t_max \<and> x_max - t_min \<le> 127"

lemma new_signed8_range_ok:
  "is_ok (new_signed8_range x_min x_max t_min t_max) \<longleftrightarrow> range_admissible x_min x_max t_min t_max"
  by (auto simp: new_signed8_range_def range_admissible_def Let_def reject_if_def)

lemma new_signed8_range_fields:
  assumes "new_signed8_range x_min x_max t_min t_max = Inr r"
  shows "range_admissible x_min x_max t_min t_max" "sr_x_min r = x_min" "sr_x_max r = x_max"
    "sr_t_min r = t_min" "sr_t_max r = t_max" "sr_digest r \<noteq> []"
    "sr_difference_min r = x_min - t_max" "sr_difference_max r = x_max - t_min"
proof -
  show "range_admissible x_min x_max t_min t_max"
    using assms new_signed8_range_ok [of x_min x_max t_min t_max] by (auto simp: is_ok_iff)
  have "length (sr_digest r) = 64"
    using assms by (auto simp: new_signed8_range_def Let_def and_then_ok digest_signed8_range_def split: if_splits)
  then show "sr_digest r \<noteq> []" by auto
  show "sr_x_min r = x_min" "sr_x_max r = x_max" "sr_t_min r = t_min" "sr_t_max r = t_max"
    "sr_difference_min r = x_min - t_max" "sr_difference_max r = x_max - t_min"
    using assms by (auto simp: new_signed8_range_def Let_def and_then_ok split: if_splits)
qed

lemma validate_signed8_range_ok:
  "validate_signed8_range r = Inr () \<longleftrightarrow>
     new_signed8_range (sr_x_min r) (sr_x_max r) (sr_t_min r) (sr_t_max r) = Inr r"
  by (auto simp: validate_signed8_range_def ok_iff)

text \<open>
  C17. A valid certificate makes the eight-bit subtraction of any admitted feature and threshold
  exact, so the top bit of the wrapped difference is the comparison.
\<close>

theorem signed8_certificate_sound:
  assumes "validate_signed8_range r = Inr ()"
    and "sr_x_min r \<le> x" "x \<le> sr_x_max r" and "sr_t_min r \<le> t" "t \<le> sr_t_max r"
  shows "sint (word_of_int x - word_of_int t :: 8 word) = x - t \<and>
    (bit (word_of_int x - word_of_int t :: 8 word) 7 \<longleftrightarrow> x < t)"
proof -
  let ?d = "word_of_int x - word_of_int t :: 8 word"
  have "range_admissible (sr_x_min r) (sr_x_max r) (sr_t_min r) (sr_t_max r)"
    using assms(1) new_signed8_range_fields(1) by (simp add: validate_signed8_range_ok)
  then have range: "- (2 ^ 7) \<le> x - t" "x - t < 2 ^ 7"
    using assms(2-5) by (simp_all add: range_admissible_def)
  have "sint (word_of_int (x - t) :: 8 word) = signed_take_bit 7 (x - t)"
    unfolding sint_sbintrunc' by simp
  also have "\<dots> = x - t" using range by (rule signed_take_bit_int_eq_self)
  finally have exact: "sint ?d = x - t" by simp
  have "bit ?d 7 \<longleftrightarrow> sint ?d < 0"
    by (simp add: sint_uint bit_uint_iff)
  then show ?thesis unfolding exact by simp
qed

lemma signed8_certificate_sound_witness:
  "\<exists>r. new_signed8_range (- 96) 95 (- 32) 32 = Inr r \<and> sint (word_of_int (- 96) - word_of_int 32 :: 8 word) = - 128"
proof -
  obtain r where r: "new_signed8_range (- 96) 95 (- 32) 32 = Inr r"
    using new_signed8_range_ok [of "- 96" 95 "- 32" 32] by (auto simp: is_ok_iff range_admissible_def)
  have v: "validate_signed8_range r = Inr ()"
    using r new_signed8_range_fields(2-5) [OF r] by (simp add: validate_signed8_range_ok)
  have "sint (word_of_int (- 96) - word_of_int 32 :: 8 word) = - 96 - 32"
    by (rule conjunct1 [OF signed8_certificate_sound [OF v]]) (use new_signed8_range_fields(2-5) [OF r] in simp_all)
  then show ?thesis using r by simp
qed

end
