(* ===== verification/Z2nAlgebra.thy ===== *)
theory Z2nAlgebra
  imports Complex_Main
begin

text \<open>
  The abstract ring behind \<^verbatim>\<open>integer/z2n\<close>: coefficient functions modulo \<^verbatim>\<open>X^n - X + 2\<close>, for any
  \<^verbatim>\<open>n \<ge> 2\<close>. The powers of X reduce through the shift, the product is bilinear in the reduced powers,
  and evaluation at 2 is a ring homomorphism from the integer polynomials to \<^verbatim>\<open>Z/(2^n)\<close>.
\<close>

section \<open>Powers of X\<close>

definition unit_coeff :: "nat \<Rightarrow> nat \<Rightarrow> rat" where
  "unit_coeff i k = (if k = i then 1 else 0)"

text \<open>Multiplication by X, with \<^verbatim>\<open>X^n = X - 2\<close>.\<close>

definition shift :: "nat \<Rightarrow> (nat \<Rightarrow> rat) \<Rightarrow> nat \<Rightarrow> rat" where
  "shift n v k =
     (if k = 0 then - 2 * v (n - 1) else if k = 1 then v 0 + v (n - 1) else if k < n then v (k - 1) else 0)"

definition x_power :: "nat \<Rightarrow> nat \<Rightarrow> nat \<Rightarrow> rat" where
  "x_power n p = (shift n ^^ p) (unit_coeff 0)"

definition mul_mod :: "nat \<Rightarrow> (nat \<Rightarrow> rat) \<Rightarrow> (nat \<Rightarrow> rat) \<Rightarrow> nat \<Rightarrow> rat" where
  "mul_mod n f g k = (\<Sum>i<n. \<Sum>j<n. f i * g j * x_power n (i + j) k)"

definition tau_coeff :: "nat \<Rightarrow> rat" where
  "tau_coeff k = (if k = 0 then - 2 else if k = 1 then 1 else 0)"

definition tau_inv_coeff :: "nat \<Rightarrow> nat \<Rightarrow> rat" where
  "tau_inv_coeff n k =
     (if k = 0 then (1 - 2 ^ (n - 1)) / 2 ^ n else if k < n then - (2 ^ (n - 1 - k) / 2 ^ n) else 0)"

definition eval_two :: "nat \<Rightarrow> (nat \<Rightarrow> rat) \<Rightarrow> rat" where
  "eval_two n v = (\<Sum>k<n. v k * 2 ^ k)"

lemma x_power_0 [simp]: "x_power n 0 = unit_coeff 0"
  by (simp add: x_power_def)

lemma x_power_Suc: "x_power n (Suc p) = shift n (x_power n p)"
  by (simp add: x_power_def)

lemma shift_unit: "Suc i < n \<Longrightarrow> shift n (unit_coeff i) = unit_coeff (Suc i)"
  by (auto simp: shift_def unit_coeff_def fun_eq_iff)

lemma x_power_small: "p < n \<Longrightarrow> x_power n p = unit_coeff p"
  by (induction p) (simp_all add: x_power_Suc shift_unit)

text \<open>The first \<^verbatim>\<open>n - 1\<close> reduced powers are \<^verbatim>\<open>X^(q+1) - 2 X^q\<close>.\<close>

lemma x_power_reduced:
  assumes "2 \<le> n"
  shows "Suc q < n \<Longrightarrow> x_power n (n + q) k = unit_coeff (Suc q) k - 2 * unit_coeff q k"
proof (induction q arbitrary: k)
  case 0
  have "x_power n (Suc (n - 1)) = shift n (unit_coeff (n - 1))"
    using assms by (simp only: x_power_Suc) (simp add: x_power_small)
  then show ?case using assms by (auto simp: shift_def unit_coeff_def)
next
  case (Suc q)
  have "x_power n (n + q) = (\<lambda>k. unit_coeff (Suc q) k - 2 * unit_coeff q k)"
    by (rule ext, rule Suc.IH) (use Suc.prems in simp)
  then have "x_power n (n + Suc q) k = shift n (\<lambda>k. unit_coeff (Suc q) k - 2 * unit_coeff q k) k"
    by (simp add: x_power_Suc)
  also have "\<dots> = unit_coeff (Suc (Suc q)) k - 2 * unit_coeff (Suc q) k"
    using Suc.prems by (auto simp: shift_def unit_coeff_def)
  finally show ?case .
qed

lemma shift_sum: "shift n (\<lambda>k. \<Sum>i\<in>I. c i * w i k) = (\<lambda>k. \<Sum>i\<in>I. c i * shift n (w i) k)"
proof (rule ext)
  fix k
  have scale: "- 2 * (\<Sum>i\<in>I. c i * w i j) = (\<Sum>i\<in>I. c i * (- 2 * w i j))" for j
    unfolding sum_distrib_left by (rule sum.cong) simp_all
  show "shift n (\<lambda>k. \<Sum>i\<in>I. c i * w i k) k = (\<Sum>i\<in>I. c i * shift n (w i) k)"
    unfolding shift_def scale by (simp add: sum.distrib distrib_left del: mult_minus_left mult_minus_right)
qed

lemma x_power_outside: "2 \<le> n \<Longrightarrow> n \<le> k \<Longrightarrow> x_power n p k = 0"
  by (cases p) (auto simp: x_power_Suc shift_def unit_coeff_def)

text \<open>Multiplying a reduced polynomial by a power of X reduces each of its terms.\<close>

lemma shift_power_expand:
  assumes "2 \<le> n" and "\<And>k. n \<le> k \<Longrightarrow> v k = 0"
  shows "(shift n ^^ l) v = (\<lambda>k. \<Sum>m<n. v m * x_power n (m + l) k)"
proof (induction l)
  case 0
  have expand: "v k = (\<Sum>m<n. v m * unit_coeff m k)" for k
  proof (cases "k < n")
    case True
    have "(\<Sum>m<n. v m * unit_coeff m k) = (\<Sum>m\<in>{k}. v m * unit_coeff m k)"
      by (rule sum.mono_neutral_right) (use True in \<open>auto simp: unit_coeff_def\<close>)
    then show ?thesis by (simp add: unit_coeff_def)
  next
    case False
    then show ?thesis using assms(2) [of k] by (simp add: unit_coeff_def)
  qed
  have "(\<Sum>m<n. v m * x_power n (m + 0) k) = v k" for k
    unfolding expand [of k] by (rule sum.cong) (simp_all add: x_power_small)
  then show ?case by (simp add: fun_eq_iff)
next
  case (Suc l)
  then show ?case by (simp add: shift_sum x_power_Suc)
qed

lemma x_power_mult:
  assumes "2 \<le> n"
  shows "(\<Sum>m<n. x_power n p m * x_power n (m + l) k) = x_power n (p + l) k"
proof -
  have "(shift n ^^ l) (x_power n p) k = (\<Sum>m<n. x_power n p m * x_power n (m + l) k)"
    by (subst shift_power_expand [OF assms]) (simp_all add: x_power_outside [OF assms])
  moreover have "(shift n ^^ l) (x_power n p) = x_power n (p + l)"
    by (simp add: x_power_def funpow_add add.commute [of p])
  ultimately show ?thesis by simp
qed

section \<open>The product\<close>

lemma mul_mod_commute: "mul_mod n f g = mul_mod n g f"
proof
  fix k
  have "mul_mod n f g k = (\<Sum>j<n. \<Sum>i<n. f i * g j * x_power n (i + j) k)"
    unfolding mul_mod_def by (rule sum.swap)
  then show "mul_mod n f g k = mul_mod n g f k" by (simp add: mul_mod_def add.commute mult.commute)
qed

lemma mul_mod_assoc:
  assumes "2 \<le> n"
  shows "mul_mod n (mul_mod n f g) h = mul_mod n f (mul_mod n g h)"
proof -
  have left: "mul_mod n (mul_mod n f g) h k =
      (\<Sum>l<n. \<Sum>i<n. \<Sum>j<n. f i * g j * h l * x_power n (i + j + l) k)" for f g h k
  proof -
    have "mul_mod n (mul_mod n f g) h k =
        (\<Sum>m<n. \<Sum>l<n. \<Sum>i<n. \<Sum>j<n. f i * g j * h l * (x_power n (i + j) m * x_power n (m + l) k))"
      by (simp add: mul_mod_def sum_distrib_left sum_distrib_right mult_ac)
    also have "\<dots> = (\<Sum>l<n. \<Sum>m<n. \<Sum>i<n. \<Sum>j<n. f i * g j * h l * (x_power n (i + j) m * x_power n (m + l) k))"
      by (rule sum.swap)
    also have "\<dots> = (\<Sum>l<n. \<Sum>i<n. \<Sum>m<n. \<Sum>j<n. f i * g j * h l * (x_power n (i + j) m * x_power n (m + l) k))"
      by (rule sum.cong [OF refl], rule sum.swap)
    also have "\<dots> = (\<Sum>l<n. \<Sum>i<n. \<Sum>j<n. \<Sum>m<n. f i * g j * h l * (x_power n (i + j) m * x_power n (m + l) k))"
      by (rule sum.cong [OF refl], rule sum.cong [OF refl], rule sum.swap)
    also have "\<dots> = (\<Sum>l<n. \<Sum>i<n. \<Sum>j<n. f i * g j * h l * x_power n (i + j + l) k)"
      by (simp add: sum_distrib_left [symmetric] x_power_mult [OF assms])
    finally show ?thesis .
  qed
  have "mul_mod n f (mul_mod n g h) k = mul_mod n (mul_mod n f g) h k" for k
  proof -
    have "mul_mod n f (mul_mod n g h) k = (\<Sum>i<n. \<Sum>j<n. \<Sum>l<n. g j * h l * f i * x_power n (j + l + i) k)"
      by (simp add: mul_mod_commute [of n f] left)
    also have "\<dots> = (\<Sum>i<n. \<Sum>l<n. \<Sum>j<n. g j * h l * f i * x_power n (j + l + i) k)"
      by (rule sum.cong [OF refl], rule sum.swap)
    also have "\<dots> = (\<Sum>l<n. \<Sum>i<n. \<Sum>j<n. g j * h l * f i * x_power n (j + l + i) k)"
      by (rule sum.swap)
    also have "\<dots> = (\<Sum>l<n. \<Sum>i<n. \<Sum>j<n. f i * g j * h l * x_power n (i + j + l) k)"
      by (intro sum.cong refl) (simp add: mult_ac add_ac)
    finally show ?thesis by (simp add: left)
  qed
  then show ?thesis by (simp add: fun_eq_iff)
qed

lemma mul_mod_outside: "2 \<le> n \<Longrightarrow> n \<le> k \<Longrightarrow> mul_mod n f g k = 0"
  by (simp add: mul_mod_def x_power_outside)

lemma mul_mod_cong: "(\<And>k. k < n \<Longrightarrow> f k = f' k) \<Longrightarrow> (\<And>k. k < n \<Longrightarrow> g k = g' k) \<Longrightarrow> mul_mod n f g = mul_mod n f' g'"
  by (simp add: mul_mod_def fun_eq_iff)

lemma mul_mod_one:
  assumes "2 \<le> n" and "\<And>k. n \<le> k \<Longrightarrow> f k = 0"
  shows "mul_mod n f (unit_coeff 0) = f"
proof
  fix k
  have "(\<Sum>j<n. f i * unit_coeff 0 j * x_power n (i + j) k) = f i * x_power n i k" for i
  proof -
    have "(\<Sum>j<n. f i * unit_coeff 0 j * x_power n (i + j) k) =
        (\<Sum>j\<in>{0}. f i * unit_coeff 0 j * x_power n (i + j) k)"
      by (rule sum.mono_neutral_right) (use assms(1) in \<open>auto simp: unit_coeff_def\<close>)
    then show ?thesis by (simp add: unit_coeff_def)
  qed
  then have "mul_mod n f (unit_coeff 0) k = (\<Sum>i<n. f i * x_power n (i + 0) k)" by (simp add: mul_mod_def)
  also have "\<dots> = (shift n ^^ 0) f k" by (simp only: shift_power_expand [OF assms])
  finally show "mul_mod n f (unit_coeff 0) k = f k" by simp
qed

text \<open>Multiplying by \<^verbatim>\<open>tau = X - 2\<close> is a shift and a subtraction.\<close>

lemma mul_mod_tau:
  assumes "2 \<le> n" and "\<And>k. n \<le> k \<Longrightarrow> f k = 0"
  shows "mul_mod n f tau_coeff k = shift n f k - 2 * f k"
proof -
  have "(\<Sum>j<n. f i * tau_coeff j * x_power n (i + j) k) = f i * x_power n (i + 1) k - 2 * (f i * x_power n (i + 0) k)" for i
  proof -
    have "(\<Sum>j<n. f i * tau_coeff j * x_power n (i + j) k) = (\<Sum>j\<in>{0, 1}. f i * tau_coeff j * x_power n (i + j) k)"
      by (rule sum.mono_neutral_right) (use assms(1) in \<open>auto simp: tau_coeff_def\<close>)
    then show ?thesis by (simp add: tau_coeff_def)
  qed
  then have "mul_mod n f tau_coeff k = (\<Sum>i<n. f i * x_power n (i + 1) k) - 2 * (\<Sum>i<n. f i * x_power n (i + 0) k)"
    by (simp add: mul_mod_def sum_subtractf sum_distrib_left)
  also have "\<dots> = (shift n ^^ 1) f k - 2 * (shift n ^^ 0) f k"
    by (simp only: shift_power_expand [OF assms])
  finally show ?thesis by simp
qed

lemma tau_inv_outside: "n \<le> k \<Longrightarrow> 0 < n \<Longrightarrow> tau_inv_coeff n k = 0"
  by (simp add: tau_inv_coeff_def)

theorem tau_inverse_tau:
  assumes "2 \<le> n"
  shows "mul_mod n (tau_inv_coeff n) tau_coeff = unit_coeff 0"
proof
  fix k
  obtain m where n: "n = Suc (Suc m)" using assms by (metis add_2_eq_Suc le_Suc_ex)
  have "mul_mod n (tau_inv_coeff n) tau_coeff k = shift n (tau_inv_coeff n) k - 2 * tau_inv_coeff n k"
    by (rule mul_mod_tau [OF assms tau_inv_outside]) (use assms in simp_all)
  also have "\<dots> = unit_coeff 0 k"
  proof (cases "k < 2 \<or> n \<le> k")
    case True
    then show ?thesis
      by (auto simp: shift_def tau_inv_coeff_def unit_coeff_def n field_simps less_2_cases_iff)
  next
    case False
    then have "n - 1 - (k - 1) = Suc (n - 1 - k)" by arith
    with False show ?thesis by (simp add: shift_def tau_inv_coeff_def unit_coeff_def)
  qed
  finally show "mul_mod n (tau_inv_coeff n) tau_coeff k = unit_coeff 0 k" .
qed

section \<open>Evaluation at 2\<close>

definition int_coeffs :: "nat \<Rightarrow> (nat \<Rightarrow> rat) \<Rightarrow> bool" where
  "int_coeffs n v \<longleftrightarrow> (\<forall>k<n. v k \<in> \<int>)"

text \<open>Two rationals agree modulo \<^verbatim>\<open>2 ^ n\<close>.\<close>

definition cong_word :: "nat \<Rightarrow> rat \<Rightarrow> rat \<Rightarrow> bool" where
  "cong_word n x y \<longleftrightarrow> (\<exists>z. x - y = of_int z * 2 ^ n)"

lemma cong_word_refl [simp]: "cong_word n x x"
  by (auto simp: cong_word_def intro: exI [of _ 0])

lemma cong_word_sym: "cong_word n x y \<Longrightarrow> cong_word n y x"
  unfolding cong_word_def by (metis minus_diff_eq mult_minus_left of_int_minus)

lemma cong_word_trans [trans]: "cong_word n x y \<Longrightarrow> cong_word n y z \<Longrightarrow> cong_word n x z"
proof -
  assume "cong_word n x y" "cong_word n y z"
  then obtain a b where "x - y = of_int a * 2 ^ n" "y - z = of_int b * 2 ^ n" by (auto simp: cong_word_def)
  then have "x - z = of_int (a + b) * 2 ^ n" by (simp add: algebra_simps)
  then show ?thesis unfolding cong_word_def by blast
qed

lemma cong_word_add: "cong_word n x y \<Longrightarrow> cong_word n u v \<Longrightarrow> cong_word n (x + u) (y + v)"
proof -
  assume "cong_word n x y" "cong_word n u v"
  then obtain a b where "x - y = of_int a * 2 ^ n" "u - v = of_int b * 2 ^ n" by (auto simp: cong_word_def)
  then have "x + u - (y + v) = of_int (a + b) * 2 ^ n" by (simp add: algebra_simps)
  then show ?thesis unfolding cong_word_def by blast
qed

lemma cong_word_mult: "cong_word n x y \<Longrightarrow> c \<in> \<int> \<Longrightarrow> cong_word n (c * x) (c * y)"
proof -
  assume "cong_word n x y" "c \<in> \<int>"
  then obtain a k where "x - y = of_int a * 2 ^ n" "c = of_int k" by (auto simp: cong_word_def elim: Ints_cases)
  then have "c * x - c * y = of_int (k * a) * 2 ^ n" by (simp add: algebra_simps)
  then show ?thesis unfolding cong_word_def by blast
qed

lemma cong_word_minus: "cong_word n x y \<Longrightarrow> cong_word n (- x) (- y)"
  using cong_word_mult [of n x y "- 1"] by simp

lemma cong_word_sum: "finite I \<Longrightarrow> (\<And>i. i \<in> I \<Longrightarrow> cong_word n (f i) (g i)) \<Longrightarrow> cong_word n (sum f I) (sum g I)"
  by (induction I rule: finite_induct) (simp_all add: cong_word_add)

lemma eval_two_shift:
  assumes "2 \<le> n"
  shows "eval_two n (shift n v) = 2 * eval_two n v - 2 ^ n * v (n - 1)"
proof -
  obtain m where n: "n = Suc (Suc m)" using assms by (metis add_2_eq_Suc le_Suc_ex)
  have "eval_two n (shift n v) = - 2 * v (n - 1) + 2 * (v 0 + v (n - 1)) + (\<Sum>k<m. v (Suc k) * 2 ^ Suc (Suc k))"
    unfolding eval_two_def n by (subst sum.lessThan_Suc_shift, subst sum.lessThan_Suc_shift) (simp add: shift_def algebra_simps)
  also have "\<dots> = 2 * (v 0 + (\<Sum>k<m. v (Suc k) * 2 ^ Suc k))"
    by (simp add: sum_distrib_left algebra_simps)
  also have "v 0 + (\<Sum>k<m. v (Suc k) * 2 ^ Suc k) = (\<Sum>k<Suc m. v k * 2 ^ k)"
    by (subst sum.lessThan_Suc_shift) simp
  also have "2 * (\<Sum>k<Suc m. v k * 2 ^ k) = 2 * eval_two n v - 2 ^ n * v (n - 1)"
    by (simp add: eval_two_def n algebra_simps)
  finally show ?thesis .
qed

lemma x_power_int: "2 \<le> n \<Longrightarrow> x_power n p k \<in> \<int>"
proof (induction p arbitrary: k)
  case 0
  then show ?case by (simp add: unit_coeff_def)
next
  case (Suc p)
  then show ?case by (auto simp: x_power_Suc shift_def)
qed

lemma eval_two_x_power: "2 \<le> n \<Longrightarrow> cong_word n (eval_two n (x_power n p)) (2 ^ p)"
proof (induction p)
  case 0
  have "eval_two n (unit_coeff 0) = (\<Sum>k\<in>{0}. unit_coeff 0 k * 2 ^ k)"
    unfolding eval_two_def by (rule sum.mono_neutral_right) (use 0 in \<open>auto simp: unit_coeff_def\<close>)
  also have "\<dots> = 1" by (simp add: unit_coeff_def)
  finally show ?case by simp
next
  case (Suc p)
  have "cong_word n (2 * eval_two n (x_power n p)) (2 * 2 ^ p)"
    by (rule cong_word_mult) (use Suc in simp_all)
  moreover obtain z where "x_power n p (n - 1) = of_int z"
    using x_power_int [OF Suc.prems] by (blast elim: Ints_cases)
  then have "cong_word n (eval_two n (x_power n (Suc p))) (2 * eval_two n (x_power n p))"
    unfolding cong_word_def x_power_Suc eval_two_shift [OF Suc.prems] by (intro exI [of _ "- z"]) simp
  ultimately show ?case using cong_word_trans by auto
qed

lemma mul_mod_int: "2 \<le> n \<Longrightarrow> int_coeffs n f \<Longrightarrow> int_coeffs n g \<Longrightarrow> int_coeffs n (mul_mod n f g)"
  by (auto simp: int_coeffs_def mul_mod_def intro!: Ints_sum Ints_mult x_power_int)

theorem eval_two_mul:
  assumes "2 \<le> n" and "int_coeffs n f" and "int_coeffs n g"
  shows "cong_word n (eval_two n (mul_mod n f g)) (eval_two n f * eval_two n g)"
proof -
  have "eval_two n (mul_mod n f g) = (\<Sum>k<n. \<Sum>i<n. \<Sum>j<n. f i * g j * (x_power n (i + j) k * 2 ^ k))"
    by (simp add: eval_two_def mul_mod_def sum_distrib_right mult.assoc)
  also have "\<dots> = (\<Sum>i<n. \<Sum>k<n. \<Sum>j<n. f i * g j * (x_power n (i + j) k * 2 ^ k))"
    by (rule sum.swap)
  also have "\<dots> = (\<Sum>i<n. \<Sum>j<n. \<Sum>k<n. f i * g j * (x_power n (i + j) k * 2 ^ k))"
    by (rule sum.cong [OF refl], rule sum.swap)
  also have "\<dots> = (\<Sum>i<n. \<Sum>j<n. f i * g j * eval_two n (x_power n (i + j)))"
    by (simp add: eval_two_def sum_distrib_left)
  finally have eq: "eval_two n (mul_mod n f g) = (\<Sum>i<n. \<Sum>j<n. f i * g j * eval_two n (x_power n (i + j)))" .
  have "cong_word n (\<Sum>i<n. \<Sum>j<n. f i * g j * eval_two n (x_power n (i + j))) (\<Sum>i<n. \<Sum>j<n. f i * g j * 2 ^ (i + j))"
    by (intro cong_word_sum cong_word_mult eval_two_x_power assms(1) finite_lessThan)
      (use assms in \<open>auto simp: int_coeffs_def\<close>)
  moreover have "(\<Sum>i<n. \<Sum>j<n. f i * g j * 2 ^ (i + j)) = eval_two n f * eval_two n g"
    by (simp add: eval_two_def sum_product power_add mult_ac)
  ultimately show ?thesis by (simp add: eq)
qed

end
