(* ===== verification/Z2nExact.thy ===== *)
theory Z2nExact
  imports Z2nRing Z2nAlgebra
begin

text \<open>
  Where the floating-point ring of \<^verbatim>\<open>integer/z2n\<close> is exact: on coefficients that are multiples of a
  power of two and small enough for the precision, no operation rounds, and the product of the
  code is the product modulo \<^verbatim>\<open>X^n - X + 2\<close>.
\<close>

section \<open>Dyadic grids\<close>

definition grid :: "nat \<Rightarrow> rat \<Rightarrow> bool" where
  "grid m x \<longleftrightarrow> (\<exists>k. x = of_int k * two_power (- int m))"

lemma grid_0 [simp]: "grid m 0"
  by (auto simp: grid_def intro: exI [of _ 0])

lemma grid_add [intro]: "grid m x \<Longrightarrow> grid m y \<Longrightarrow> grid m (x + y)"
  unfolding grid_def by (metis distrib_right of_int_add)

lemma grid_minus [intro]: "grid m x \<Longrightarrow> grid m (- x)"
  unfolding grid_def by (metis mult_minus_left of_int_minus)

lemma grid_diff [intro]: "grid m x \<Longrightarrow> grid m y \<Longrightarrow> grid m (x - y)"
  using grid_add [of m x "- y"] grid_minus [of m y] by simp

lemma grid_mult: "grid a x \<Longrightarrow> grid b y \<Longrightarrow> grid (a + b) (x * y)"
proof -
  assume "grid a x" "grid b y"
  then obtain k l where "x = of_int k * two_power (- int a)" "y = of_int l * two_power (- int b)"
    by (auto simp: grid_def)
  then have "x * y = of_int (k * l) * (two_power (- int a) * two_power (- int b))" by simp
  also have "two_power (- int a) * two_power (- int b) = two_power (- int (a + b))"
    using two_power_add [of "- int a" "- int b"] by simp
  finally show ?thesis unfolding grid_def by blast
qed

lemma grid_mono: "grid a x \<Longrightarrow> a \<le> b \<Longrightarrow> grid b x"
proof -
  assume "grid a x" "a \<le> b"
  then obtain k where x: "x = of_int k * two_power (- int a)" by (auto simp: grid_def)
  have "- int a = int (b - a) + - int b" using \<open>a \<le> b\<close> by simp
  then have "two_power (- int a) = of_int (2 ^ (b - a)) * two_power (- int b)"
    by (simp only: two_power_add two_power_of_nat) simp
  then have "x = of_int (k * 2 ^ (b - a)) * two_power (- int b)" by (simp add: x)
  then show ?thesis unfolding grid_def by blast
qed

lemma grid_of_int [simp]: "grid 0 (of_int k)"
  by (auto simp: grid_def two_power_def)

lemma grid_int: "grid m (of_int k)"
  by (rule grid_mono [of 0]) simp_all

lemma grid_sum: "(\<And>i. i \<in> I \<Longrightarrow> grid m (f i)) \<Longrightarrow> grid m (sum f I)"
  by (induction I rule: infinite_finite_induct) auto

text \<open>\<^verbatim>\<open>limit p m\<close> is the first magnitude of the grid that needs more than p bits.\<close>

definition limit :: "nat \<Rightarrow> nat \<Rightarrow> rat" where
  "limit p m = two_power (int (set_prec p) - int m)"

lemma round_on_grid: "grid m x \<Longrightarrow> \<bar>x\<bar> < limit p m \<Longrightarrow> bf_round p x = x"
proof -
  assume "grid m x" and small: "\<bar>x\<bar> < limit p m"
  then obtain k where k: "x = of_int k * two_power (- int m)" by (auto simp: grid_def)
  from small have "\<bar>x\<bar> < two_power (int (set_prec p) + - int m)" by (simp only: limit_def diff_conv_add_uminus)
  with k show ?thesis by (rule bf_round_exact)
qed

section \<open>Accumulation\<close>

text \<open>Both loops of the product add values into the temporaries.\<close>

definition add_at :: "nat \<Rightarrow> nat \<times> rat \<Rightarrow> rat list \<Rightarrow> rat list" where
  "add_at p = (\<lambda>(k, v) t. t[k := bf_add p (t ! k) v])"

definition total_at :: "(nat \<times> rat) list \<Rightarrow> nat \<Rightarrow> rat" where
  "total_at ops k = (\<Sum>(i, v)\<leftarrow>ops. if i = k then v else 0)"

definition weight :: "(nat \<times> rat) list \<Rightarrow> rat" where
  "weight ops = (\<Sum>(i, v)\<leftarrow>ops. \<bar>v\<bar>)"

lemma weight_nonneg: "0 \<le> weight ops"
  by (induction ops) (auto simp: weight_def)

lemma fold_add_at:
  assumes "\<forall>(k, v) \<in> set ops. grid m v" and "\<forall>k < length t. grid m (t ! k) \<and> \<bar>t ! k\<bar> + weight ops < limit p m"
  shows "length (fold (add_at p) ops t) = length t \<and>
    (\<forall>k < length t. fold (add_at p) ops t ! k = t ! k + total_at ops k)"
  using assms
proof (induction ops arbitrary: t)
  case Nil
  then show ?case by (simp add: total_at_def)
next
  case (Cons kv ops)
  obtain k v where kv: "kv = (k, v)" by (cases kv)
  have w: "weight (kv # ops) = \<bar>v\<bar> + weight ops" by (simp add: kv weight_def)
  have v: "grid m v" using Cons.prems(1) by (simp add: kv)
  have step: "add_at p kv t = t[k := t ! k + v]"
  proof (cases "k < length t")
    case True
    have "\<bar>t ! k + v\<bar> < limit p m"
      using Cons.prems(2) True w weight_nonneg [of ops] abs_triangle_ineq [of "t ! k" v] by fastforce
    moreover have "grid m (t ! k + v)" using Cons.prems(2) True v by (intro grid_add) simp_all
    ultimately show ?thesis by (simp add: add_at_def kv bf_add_def round_on_grid)
  next
    case False
    then show ?thesis by (simp add: add_at_def kv list_update_beyond)
  qed
  have kept: "grid m (t[k := t ! k + v] ! j) \<and> \<bar>t[k := t ! k + v] ! j\<bar> + weight ops < limit p m"
    if "j < length t" for j
  proof (cases "j = k")
    case True
    have "\<bar>t ! k\<bar> + weight (kv # ops) < limit p m" "grid m (t ! k)" using Cons.prems(2) that True by auto
    then show ?thesis using True that v w abs_triangle_ineq [of "t ! k" v] by (auto intro: grid_add)
  next
    case False
    have "\<bar>t ! j\<bar> + weight (kv # ops) < limit p m" "grid m (t ! j)" using Cons.prems(2) that by auto
    then show ?thesis using False w by simp
  qed
  have "length (fold (add_at p) ops (t[k := t ! k + v])) = length t \<and>
    (\<forall>j < length t. fold (add_at p) ops (t[k := t ! k + v]) ! j = t[k := t ! k + v] ! j + total_at ops j)"
    using Cons.IH [of "t[k := t ! k + v]"] Cons.prems(1) kept by (simp add: kv)
  moreover have "t[k := t ! k + v] ! j + total_at ops j = t ! j + total_at (kv # ops) j" if "j < length t" for j
    using that by (cases "j = k") (simp_all add: kv total_at_def)
  ultimately show ?case by (simp add: step)
qed

section \<open>The product\<close>

definition coeff :: "rat list \<Rightarrow> nat \<Rightarrow> rat" where
  "coeff xs k = (if k < length xs then xs ! k else 0)"

definition operand :: "nat \<Rightarrow> nat \<Rightarrow> rat \<Rightarrow> rat list \<Rightarrow> bool" where
  "operand n m bound xs \<longleftrightarrow> length xs = n \<and> (\<forall>i < n. grid m (xs ! i) \<and> \<bar>xs ! i\<bar> \<le> bound)"

lemma operandD:
  assumes "operand n m bound xs"
  shows "length xs = n" "i < n \<Longrightarrow> grid m (xs ! i)" "i < n \<Longrightarrow> \<bar>xs ! i\<bar> \<le> bound"
  using assms by (simp_all add: operand_def)

definition product_ops :: "nat \<Rightarrow> rat list \<Rightarrow> rat list \<Rightarrow> (nat \<times> rat) list" where
  "product_ops n lhs rhs = concat (map (\<lambda>i. map (\<lambda>j. (i + j, lhs ! i * rhs ! j)) [0..<n]) [0..<n])"

lemma sum_list_upt: "(\<Sum>i\<leftarrow>[a..<b]. f i) = (\<Sum>i\<in>{a..<b}. f i)"
  by (simp add: interv_sum_list_conv_sum_set_nat)

lemma weight_concat: "weight (concat xss) = (\<Sum>xs\<leftarrow>xss. weight xs)"
  by (induction xss) (simp_all add: weight_def)

lemma total_at_concat: "total_at (concat xss) k = (\<Sum>xs\<leftarrow>xss. total_at xs k)"
  by (induction xss) (simp_all add: total_at_def)

lemma fold_nested: "fold (\<lambda>i t. fold (f i) (g i) t) is t = fold (\<lambda>(i, j). f i j) (concat (map (\<lambda>i. map (Pair i) (g i)) is)) t"
  by (induction "is" arbitrary: t) (simp_all add: fold_map comp_def)

lemma total_at_product:
  "total_at (product_ops n lhs rhs) k = (\<Sum>i<n. \<Sum>j<n. if i + j = k then lhs ! i * rhs ! j else 0)"
proof -
  have "total_at (map (\<lambda>j. (i + j, lhs ! i * rhs ! j)) [0..<n]) k =
      (\<Sum>j<n. if i + j = k then lhs ! i * rhs ! j else 0)" for i
    by (simp add: total_at_def comp_def sum_list_upt atLeast0LessThan)
  then show ?thesis
    by (simp add: product_ops_def total_at_concat comp_def sum_list_upt atLeast0LessThan)
qed

lemma weight_product:
  assumes "operand n ma A lhs" and "operand n mb B rhs" and "0 \<le> A"
  shows "weight (product_ops n lhs rhs) \<le> of_nat n * of_nat n * (A * B)"
proof -
  have "weight (product_ops n lhs rhs) = (\<Sum>i<n. \<Sum>j<n. \<bar>lhs ! i\<bar> * \<bar>rhs ! j\<bar>)"
  proof -
    have "weight (map (\<lambda>j. (i + j, lhs ! i * rhs ! j)) [0..<n]) = (\<Sum>j<n. \<bar>lhs ! i\<bar> * \<bar>rhs ! j\<bar>)" for i
      by (simp add: weight_def comp_def sum_list_upt atLeast0LessThan abs_mult)
    then show ?thesis by (simp add: product_ops_def weight_concat comp_def sum_list_upt atLeast0LessThan)
  qed
  also have "\<dots> \<le> (\<Sum>i<n. \<Sum>j<n. A * B)"
    by (intro sum_mono mult_mono) (use assms in \<open>auto simp: operand_def\<close>)
  finally show ?thesis by simp
qed

lemma accumulate_product_exact:
  assumes a: "operand n ma A lhs" and b: "operand n mb B rhs" and pos: "0 \<le> A" "0 \<le> B" "0 < n"
    and room: "of_nat n * of_nat n * (A * B) < limit p (ma + mb)"
  shows "length (accumulate_product p n lhs rhs) = 2 * n - 1"
    and "k < 2 * n - 1 \<Longrightarrow> accumulate_product p n lhs rhs ! k = total_at (product_ops n lhs rhs) k"
proof -
  have one: "1 \<le> (of_nat n :: rat)" using pos(3) by simp
  have prod: "grid (ma + mb) (lhs ! i * rhs ! j) \<and> \<bar>lhs ! i * rhs ! j\<bar> < limit p (ma + mb)"
    if "i < n" "j < n" for i j
  proof
    show "grid (ma + mb) (lhs ! i * rhs ! j)" using that a b by (auto simp: operand_def intro: grid_mult)
    have "\<bar>lhs ! i * rhs ! j\<bar> \<le> A * B"
      unfolding abs_mult by (rule mult_mono) (use that a b pos in \<open>auto simp: operand_def\<close>)
    also have "\<dots> \<le> (of_nat n * of_nat n) * (A * B)"
      using mult_right_mono [OF mult_mono [OF one one], of "A * B"] pos by simp
    finally show "\<bar>lhs ! i * rhs ! j\<bar> < limit p (ma + mb)" using room by simp
  qed
  have mul: "bf_mul p (lhs ! i) (rhs ! j) = lhs ! i * rhs ! j" if "i < n" "j < n" for i j
    using prod [OF that] by (simp add: bf_mul_def round_on_grid [of "ma + mb"])
  have flat: "accumulate_product p n lhs rhs = fold (add_at p) (product_ops n lhs rhs) (replicate (2 * n - 1) 0)"
  proof -
    have "fold (\<lambda>(i, j) t. t[i + j := bf_add p (t ! (i + j)) (bf_mul p (lhs ! i) (rhs ! j))]) ijs t =
        fold (add_at p) (map (\<lambda>(i, j). (i + j, lhs ! i * rhs ! j)) ijs) t"
      if "\<forall>(i, j) \<in> set ijs. i < n \<and> j < n" for ijs t
      using that
      by (induction ijs arbitrary: t) (auto simp: add_at_def mul)
    from this [of "concat (map (\<lambda>i. map (Pair i) [0..<n]) [0..<n])"] show ?thesis
      unfolding accumulate_product_def fold_nested
      by (simp add: product_ops_def map_concat comp_def)
  qed
  have "\<forall>(k, v) \<in> set (product_ops n lhs rhs). grid (ma + mb) v"
    using prod by (auto simp: product_ops_def)
  moreover have "weight (product_ops n lhs rhs) < limit p (ma + mb)"
    using weight_product [OF a b pos(1)] room by simp
  ultimately have "length (accumulate_product p n lhs rhs) = 2 * n - 1 \<and>
      (\<forall>k < 2 * n - 1. accumulate_product p n lhs rhs ! k = total_at (product_ops n lhs rhs) k)"
    unfolding flat using fold_add_at [of "product_ops n lhs rhs" "ma + mb" "replicate (2 * n - 1) 0" p] by simp
  then show "length (accumulate_product p n lhs rhs) = 2 * n - 1"
    and "k < 2 * n - 1 \<Longrightarrow> accumulate_product p n lhs rhs ! k = total_at (product_ops n lhs rhs) k"
    by simp_all
qed

text \<open>The reduction: every high degree is folded into two low ones.\<close>

definition reduce_ops :: "nat \<Rightarrow> nat list \<Rightarrow> rat list \<Rightarrow> (nat \<times> rat) list" where
  "reduce_ops n ds t = concat (map (\<lambda>d. [(d - n + 1, t ! d), (d - n, - (2 * t ! d))]) ds)"

lemma fold_reduce:
  assumes "\<forall>d \<in> set ds. n \<le> d \<and> d - n + 1 < n \<and> d < length t" and "\<forall>d \<in> set ds. bf_mul p (t ! d) 2 = 2 * t ! d"
    and "length u = length t" and "\<forall>d. n \<le> d \<longrightarrow> u ! d = t ! d" and "2 \<le> n"
  shows "fold (reduce_degree p n) ds u = fold (add_at p) (reduce_ops n ds t) u"
  using assms
proof (induction ds arbitrary: u)
  case Nil
  then show ?case by (simp add: reduce_ops_def)
next
  case (Cons d ds)
  let ?u = "fold (add_at p) [(d - n + 1, t ! d), (d - n, - (2 * t ! d))] u"
  have ud: "u ! d = t ! d" using Cons.prems by simp
  have "reduce_degree p n d u = ?u"
    using Cons.prems
    by (simp add: reduce_degree_def Let_def add_at_def ud bf_sub_def bf_add_def nth_list_update_neq)
  moreover have "fold (reduce_degree p n) ds ?u = fold (add_at p) (reduce_ops n ds t) ?u"
    by (rule Cons.IH) (use Cons.prems in \<open>simp_all add: add_at_def nth_list_update_neq\<close>)
  ultimately show ?case by (simp add: reduce_ops_def)
qed

lemma sum_at_index: "(\<Sum>d<n. if d = (q::nat) then f d else 0) = (if q < n then f q else (0::rat))"
  by simp

lemma total_at_reduce:
  assumes "2 \<le> n" and "k < n" and "length t = 2 * n - 1"
  shows "t ! k + total_at (reduce_ops n (rev [n..<2 * n - 1]) t) k = (\<Sum>d<2 * n - 1. t ! d * x_power n d k)"
proof -
  have "total_at (reduce_ops n ds t) k =
      (\<Sum>d\<leftarrow>ds. (if d - n + 1 = k then t ! d else 0) - (if d - n = k then 2 * t ! d else 0))" for ds
    by (induction ds) (simp_all add: reduce_ops_def total_at_def)
  then have "total_at (reduce_ops n (rev [n..<2 * n - 1]) t) k =
      (\<Sum>d\<in>{n..<2 * n - 1}. (if d - n + 1 = k then t ! d else 0) - (if d - n = k then 2 * t ! d else 0))"
    by (simp add: rev_map [symmetric] sum_list_rev sum_list_upt)
  also have "\<dots> = (\<Sum>d\<in>{n..<2 * n - 1}. t ! d * x_power n d k)"
  proof (rule sum.cong [OF refl])
    fix d assume "d \<in> {n..<2 * n - 1}"
    then have q: "d = n + (d - n)" "Suc (d - n) < n" by auto
    define q where "q = d - n"
    have d: "d = n + q" "Suc q < n" using q by (simp_all add: q_def)
    show "(if d - n + 1 = k then t ! d else 0) - (if d - n = k then 2 * t ! d else 0) = t ! d * x_power n d k"
      unfolding d(1) x_power_reduced [OF assms(1) d(2)] by (auto simp: unit_coeff_def)
  qed
  finally have high: "total_at (reduce_ops n (rev [n..<2 * n - 1]) t) k = (\<Sum>d\<in>{n..<2 * n - 1}. t ! d * x_power n d k)" .
  have "(\<Sum>d<n. t ! d * x_power n d k) = (\<Sum>d<n. if d = k then t ! d else 0)"
    by (rule sum.cong) (auto simp: x_power_small unit_coeff_def)
  also have "\<dots> = t ! k" using assms(2) by simp
  finally have low: "(\<Sum>d<n. t ! d * x_power n d k) = t ! k" .
  have "(\<Sum>d<n. t ! d * x_power n d k) + (\<Sum>d\<in>{n..<2 * n - 1}. t ! d * x_power n d k) =
      (\<Sum>d<2 * n - 1. t ! d * x_power n d k)"
    unfolding lessThan_atLeast0 by (rule sum.atLeastLessThan_concat) (use assms(1) in simp_all)
  with high low show ?thesis by simp
qed

lemma weight_reduce:
  assumes "\<forall>d \<in> set ds. \<bar>t ! d\<bar> \<le> W"
  shows "weight (reduce_ops n ds t) \<le> of_nat (length ds) * (3 * W)"
  using assms
proof (induction ds)
  case Nil
  then show ?case by (simp add: reduce_ops_def weight_def)
next
  case (Cons d ds)
  have "weight (reduce_ops n (d # ds) t) = 3 * \<bar>t ! d\<bar> + weight (reduce_ops n ds t)"
    by (simp add: reduce_ops_def weight_def abs_mult)
  with Cons show ?case by (simp add: distrib_right)
qed

lemma sum_total_at_product:
  assumes "length lhs = n" and "length rhs = n" and "0 < n"
  shows "(\<Sum>d<2 * n - 1. total_at (product_ops n lhs rhs) d * x_power n d k) = mul_mod n (coeff lhs) (coeff rhs) k"
proof -
  have "(\<Sum>d<2 * n - 1. (if i + j = d then x else 0) * x_power n d k) = x * x_power n (i + j) k"
    if "i < n" "j < n" for i j and x :: rat
  proof -
    have "(\<Sum>d<2 * n - 1. (if i + j = d then x else 0) * x_power n d k) =
        (\<Sum>d\<in>{i + j}. (if i + j = d then x else 0) * x_power n d k)"
      by (rule sum.mono_neutral_right) (use that in auto)
    then show ?thesis by simp
  qed
  note point = this
  have "(\<Sum>d<2 * n - 1. total_at (product_ops n lhs rhs) d * x_power n d k) =
      (\<Sum>d<2 * n - 1. \<Sum>i<n. \<Sum>j<n. (if i + j = d then lhs ! i * rhs ! j else 0) * x_power n d k)"
    by (simp add: total_at_product sum_distrib_right)
  also have "\<dots> = (\<Sum>i<n. \<Sum>d<2 * n - 1. \<Sum>j<n. (if i + j = d then lhs ! i * rhs ! j else 0) * x_power n d k)"
    by (rule sum.swap)
  also have "\<dots> = (\<Sum>i<n. \<Sum>j<n. \<Sum>d<2 * n - 1. (if i + j = d then lhs ! i * rhs ! j else 0) * x_power n d k)"
    by (rule sum.cong [OF refl], rule sum.swap)
  also have "\<dots> = (\<Sum>i<n. \<Sum>j<n. coeff lhs i * coeff rhs j * x_power n (i + j) k)"
    by (intro sum.cong refl) (use assms in \<open>simp add: point coeff_def del: One_nat_def\<close>)
  finally show ?thesis by (simp add: mul_mod_def)
qed

definition product_bound :: "nat \<Rightarrow> rat \<Rightarrow> rat \<Rightarrow> rat" where
  "product_bound n A B = 4 * of_nat n ^ 3 * (A * B)"

theorem ring_mul_exact:
  assumes a: "operand n ma A lhs" and b: "operand n mb B rhs" and pos: "0 \<le> A" "0 \<le> B" "2 \<le> n"
    and room: "product_bound n A B < limit p (ma + mb)"
  defines "out \<equiv> take n (fold (reduce_degree p n) (rev [n..<2 * n - 1]) (accumulate_product p n lhs rhs))"
  shows "operand n (ma + mb) (product_bound n A B) out" and "coeff out = mul_mod n (coeff lhs) (coeff rhs)"
proof -
  define W where "W = of_nat n * of_nat n * (A * B)"
  define t where "t = accumulate_product p n lhs rhs"
  define ds where "ds = rev [n..<2 * n - 1]"
  have W: "0 \<le> W" using pos by (simp add: W_def)
  have n1: "1 \<le> (of_nat n :: rat)" using pos(3) by simp
  have bound: "product_bound n A B = 4 * of_nat n * W"
    by (simp add: product_bound_def W_def power3_eq_cube)
  have W4: "4 * W \<le> product_bound n A B"
    using mult_right_mono [OF n1 W] by (simp add: bound)
  have wW: "weight (product_ops n lhs rhs) \<le> W" unfolding W_def by (rule weight_product [OF a b pos(1)])
  have small: "of_nat n * of_nat n * (A * B) < limit p (ma + mb)"
    using W4 W room unfolding W_def [symmetric] by linarith
  have n0: "0 < n" using pos(3) by simp
  note acc = accumulate_product_exact [OF a b pos(1,2) n0 small]
  have len: "length t = 2 * n - 1" by (simp add: t_def acc(1))
  have abs_total: "\<bar>total_at ops d\<bar> \<le> weight ops" for ops d
    by (induction ops) (auto simp: total_at_def weight_def intro: order_trans [OF abs_triangle_ineq])
  have grids: "grid (ma + mb) (t ! d)" "\<bar>t ! d\<bar> \<le> W" if "d < 2 * n - 1" for d
  proof -
    show "grid (ma + mb) (t ! d)"
      using a b by (auto simp: t_def acc(2) [OF that] total_at_product operand_def intro!: grid_sum grid_mult)
    show "\<bar>t ! d\<bar> \<le> W"
      using order_trans [OF abs_total wW] by (simp add: t_def acc(2) [OF that])
  qed
  have ds: "\<forall>d \<in> set ds. n \<le> d \<and> d - n + 1 < n \<and> d < length t" by (auto simp: ds_def len)
  have twice: "\<forall>d \<in> set ds. bf_mul p (t ! d) 2 = 2 * t ! d"
  proof
    fix d assume "d \<in> set ds"
    then have d: "d < 2 * n - 1" using ds len by auto
    have "grid (ma + mb) (t ! d * 2)" using grid_add [OF grids(1) [OF d] grids(1) [OF d]] by (simp add: mult_2_right)
    moreover have "\<bar>t ! d * 2\<bar> < limit p (ma + mb)" using grids(2) [OF d] W4 room W by (simp add: abs_mult)
    ultimately show "bf_mul p (t ! d) 2 = 2 * t ! d" by (simp add: bf_mul_def round_on_grid [of "ma + mb"])
  qed
  have red: "fold (reduce_degree p n) ds t = fold (add_at p) (reduce_ops n ds t) t"
    by (rule fold_reduce [OF ds twice refl _ pos(3)]) simp
  have wr: "weight (reduce_ops n ds t) \<le> of_nat (n - 1) * (3 * W)"
    using weight_reduce [of ds t W n] grids(2) ds len by (simp add: ds_def)
  have total: "W + of_nat (n - 1) * (3 * W) \<le> product_bound n A B"
  proof -
    have "of_nat (n - 1) = (of_nat n :: rat) - 1" using n0 by (simp add: of_nat_diff)
    then have "W + of_nat (n - 1) * (3 * W) = 3 * of_nat n * W - 2 * W" by (simp add: algebra_simps)
    also have "\<dots> \<le> 4 * of_nat n * W"
    proof -
      have "0 \<le> of_nat n * W" using W by simp
      with W show ?thesis by linarith
    qed
    finally show ?thesis by (simp add: bound)
  qed
  have reduced_grid: "\<forall>(k, v) \<in> set (reduce_ops n ds t). grid (ma + mb) v"
  proof -
    have "grid (ma + mb) (t ! d)" "grid (ma + mb) (- (2 * t ! d))" if "d \<in> set ds" for d
    proof -
      have "d < 2 * n - 1" using that ds len by auto
      note g = grids(1) [OF this]
      show "grid (ma + mb) (t ! d)" by (rule g)
      show "grid (ma + mb) (- (2 * t ! d))" unfolding mult_2 by (intro grid_minus grid_add g)
    qed
    then show ?thesis by (auto simp: reduce_ops_def)
  qed
  have "length (fold (add_at p) (reduce_ops n ds t) t) = length t \<and>
    (\<forall>k < length t. fold (add_at p) (reduce_ops n ds t) t ! k = t ! k + total_at (reduce_ops n ds t) k)"
  proof (rule fold_add_at [where m = "ma + mb"])
    show "\<forall>(k, v) \<in> set (reduce_ops n ds t). grid (ma + mb) v" by (rule reduced_grid)
    show "\<forall>k < length t. grid (ma + mb) (t ! k) \<and> \<bar>t ! k\<bar> + weight (reduce_ops n ds t) < limit p (ma + mb)"
      using grids wr total room len by fastforce
  qed
  then have out: "length out = n" "\<And>k. k < n \<Longrightarrow> out ! k = t ! k + total_at (reduce_ops n ds t) k"
    using pos(3) unfolding out_def t_def [symmetric] ds_def [symmetric] red by (auto simp: len)
  have val: "out ! k = mul_mod n (coeff lhs) (coeff rhs) k" if "k < n" for k
  proof -
    have "out ! k = (\<Sum>d<2 * n - 1. t ! d * x_power n d k)"
      unfolding out(2) [OF that] ds_def by (rule total_at_reduce [OF pos(3) that len])
    also have "\<dots> = (\<Sum>d<2 * n - 1. total_at (product_ops n lhs rhs) d * x_power n d k)"
      by (rule sum.cong) (simp_all add: t_def acc(2))
    finally show ?thesis
      using sum_total_at_product [OF operandD(1) [OF a] operandD(1) [OF b] n0] by simp
  qed
  show "coeff out = mul_mod n (coeff lhs) (coeff rhs)"
    using val by (auto simp: coeff_def out(1) fun_eq_iff mul_mod_outside [OF pos(3)])
  have "grid (ma + mb) (total_at (reduce_ops n ds t) k)" for k
  proof -
    have "grid (ma + mb) (total_at ops k)" if "\<forall>(i, v) \<in> set ops. grid (ma + mb) v" for ops
      using that by (induction ops) (auto simp: total_at_def)
    from this [OF reduced_grid] show ?thesis .
  qed
  moreover have "\<bar>out ! k\<bar> \<le> product_bound n A B" if "k < n" for k
  proof -
    have "\<bar>out ! k\<bar> \<le> \<bar>t ! k\<bar> + \<bar>total_at (reduce_ops n ds t) k\<bar>"
      unfolding out(2) [OF that] by (rule abs_triangle_ineq)
    also have "\<dots> \<le> W + of_nat (n - 1) * (3 * W)"
      using grids(2) [of k] that order_trans [OF abs_total wr] by (intro add_mono) simp_all
    also note total
    finally show ?thesis .
  qed
  ultimately show "operand n (ma + mb) (product_bound n A B) out"
    using out grids(1) pos(3) by (auto simp: operand_def intro!: grid_add)
qed

end
