(* ===== verification/Z2nEncode.thy ===== *)
theory Z2nEncode
  imports Z2nExact
begin

text \<open>
  The encodings of \<^verbatim>\<open>integer/z2n/encoding.go\<close> compute in \<^verbatim>\<open>Z/(2^n)\<close>: an encoding of a word decodes to
  it, and sums, differences and products of encodings are encodings of the words' sums,
  differences and products, for every ring whose precision leaves room for the products.
\<close>

section \<open>Rings\<close>

definition ring_ok :: "z2n_ring \<Rightarrow> bool" where
  "ring_ok r \<longleftrightarrow> word_supported (zr_bits r) \<and> 128 \<le> zr_prec r \<and> zr_prec r \<le> max_prec"

text \<open>The precision at which the product of two 64-bit encodings is exact; New uses 256 bits.\<close>

definition ring_wide :: "z2n_ring \<Rightarrow> bool" where
  "ring_wide r \<longleftrightarrow> ring_ok r \<and> 2 * zr_bits r + 96 \<le> zr_prec r"

lemma ring_bits:
  assumes "ring_ok r"
  shows "2 \<le> zr_bits r" "0 < zr_bits r" "zr_bits r \<le> 64" "128 \<le> zr_prec r" "8 \<le> zr_bits r"
    "zr_prec r \<le> max_prec"
  using assms by (auto simp: ring_ok_def word_supported_def)

lemma limit_mono: "p \<le> q \<Longrightarrow> m \<le> l \<Longrightarrow> limit p l \<le> limit q m"
  unfolding limit_def by (rule two_power_le) (simp add: set_prec_def)

lemma limit_diff: "m \<le> p \<Longrightarrow> p \<le> max_prec \<Longrightarrow> limit p m = 2 ^ (p - m)"
  by (simp add: limit_def two_power_def nat_diff_distrib)

lemma limit_64: "ring_ok r \<Longrightarrow> 2 ^ 63 \<le> limit (zr_prec r) (zr_bits r + 1)"
  using limit_mono [of 128 "zr_prec r" "zr_bits r + 1" 65] limit_diff [of 65 128] ring_bits [of r] by (simp add: max_prec_def)

lemma limit_wide: "ring_wide r \<Longrightarrow> 2 ^ 96 \<le> limit (zr_prec r) (2 * zr_bits r)"
proof -
  assume w: "ring_wide r"
  have "limit (2 * zr_bits r + 96) (2 * zr_bits r) \<le> limit (zr_prec r) (2 * zr_bits r)"
    by (rule limit_mono) (use w in \<open>simp_all add: ring_wide_def\<close>)
  moreover have "2 * zr_bits r + 96 \<le> max_prec"
    using ring_bits [of r] w by (simp add: ring_wide_def)
  ultimately show ?thesis by (simp add: limit_diff)
qed

lemma limit_int: "ring_ok r \<Longrightarrow> 2 ^ 128 \<le> limit (zr_prec r) 0"
  using limit_mono [of 128 "zr_prec r" 0 0] limit_diff [of 0 128] ring_bits [of r] by (simp add: max_prec_def)

lemma round_of_int: "ring_ok r \<Longrightarrow> \<bar>x\<bar> < 2 ^ 128 \<Longrightarrow> bf_round (zr_prec r) (of_int x) = of_int x"
proof -
  assume r: "ring_ok r" and x: "\<bar>x\<bar> < 2 ^ 128"
  have "\<bar>of_int x :: rat\<bar> = of_int \<bar>x\<bar>" by simp
  also have "\<dots> < of_int (2 ^ 128)" using x by (rule of_int_less_iff [THEN iffD2])
  finally have "\<bar>of_int x :: rat\<bar> < limit (zr_prec r) 0" using limit_int [OF r] by simp
  then show ?thesis by (rule round_on_grid [OF grid_of_int])
qed

section \<open>Validation of grid polynomials\<close>

lemma epsilon_eq: "canonical_epsilon r = two_power (- int (zr_bits r + 1))"
proof -
  have "- int (zr_bits r) - 1 = - int (zr_bits r + 1)" by simp
  then show ?thesis by (simp only: canonical_epsilon_def)
qed

lemma epsilon_grid: "grid (zr_bits r + 1) (canonical_epsilon r)"
  unfolding grid_def epsilon_eq by (intro exI [of _ 1]) simp

lemma epsilon_pos: "0 < canonical_epsilon r"
  by (simp add: canonical_epsilon_def)

lemma epsilon_le: "ring_ok r \<Longrightarrow> canonical_epsilon r \<le> 1 / 4"
  using two_power_le [of "- int (zr_bits r + 1)" "- 2"] ring_bits(1) [of r]
  by (simp add: epsilon_eq two_power_def)

text \<open>Subtracting epsilon from a grid value is exact, so validation can resolve it.\<close>

lemma sub_epsilon_exact:
  assumes "ring_ok r" and "grid m c" and "zr_bits r + 1 \<le> m" and "\<bar>c\<bar> + 1 < limit (zr_prec r) m"
  shows "bf_sub (zr_prec r) c (canonical_epsilon r) = c - canonical_epsilon r"
proof -
  have "grid m (c - canonical_epsilon r)" using assms(2,3) epsilon_grid by (auto intro: grid_mono)
  moreover have "\<bar>c - canonical_epsilon r\<bar> < limit (zr_prec r) m"
    using assms(4) epsilon_pos [of r] epsilon_le [OF assms(1)] by linarith
  ultimately show ?thesis unfolding bf_sub_def by (rule round_on_grid)
qed

lemma validate_operand:
  assumes "ring_ok r" and "operand (zr_bits r) m bound cs" and "zr_bits r + 1 \<le> m" and "bound + 1 < limit (zr_prec r) m"
  shows "ring_validate r (ring_polynomial r cs) = Inr ()"
proof -
  have "bf_sub (zr_prec r) (cs ! i) (canonical_epsilon r) \<noteq> cs ! i" if "i < zr_bits r" for i
    using sub_epsilon_exact [OF assms(1) operandD(2) [OF assms(2) that] assms(3)]
      operandD(3) [OF assms(2) that] assms(4) epsilon_pos [of r] by simp
  then show ?thesis
    using operandD(1) [OF assms(2)] ring_bits(6) [OF assms(1)]
    by (simp add: ring_validate_def ring_polynomial_def check_each_ok reject_if_ok)
qed

lemma operand_mono: "operand n m b cs \<Longrightarrow> m \<le> m' \<Longrightarrow> b \<le> b' \<Longrightarrow> operand n m' b' cs"
  unfolding operand_def by (meson grid_mono order_trans)

text \<open>The product of two grid polynomials, as the code computes it.\<close>

lemma ring_mul_operands:
  assumes r: "ring_ok r" and a: "operand (zr_bits r) ma A lhs" and b: "operand (zr_bits r) mb B rhs"
    and pos: "0 \<le> A" "0 \<le> B" and room: "product_bound (zr_bits r) A B < limit (zr_prec r) (ma + mb)"
    and resolve: "A + 1 < limit (zr_prec r) (max ma (zr_bits r + 1))" "B + 1 < limit (zr_prec r) (max mb (zr_bits r + 1))"
  obtains out where "ring_mul r (ring_polynomial r lhs) (ring_polynomial r rhs) = Inr (ring_polynomial r out)"
    "operand (zr_bits r) (ma + mb) (product_bound (zr_bits r) A B) out"
    "coeff out = mul_mod (zr_bits r) (coeff lhs) (coeff rhs)"
proof
  let ?n = "zr_bits r"
  let ?out = "take ?n (fold (reduce_degree (zr_prec r) ?n) (rev [?n..<2 * ?n - 1]) (accumulate_product (zr_prec r) ?n lhs rhs))"
  have "validate_pair r (ring_polynomial r lhs) (ring_polynomial r rhs) = Inr ()"
    using validate_operand [OF r operand_mono [OF a, of "max ma (?n + 1)" A] _ resolve(1)]
      validate_operand [OF r operand_mono [OF b, of "max mb (?n + 1)" B] _ resolve(2)]
    by (simp add: validate_pair_def)
  then show "ring_mul r (ring_polynomial r lhs) (ring_polynomial r rhs) = Inr (ring_polynomial r ?out)"
    by (simp add: ring_mul_def ring_polynomial_def Let_def)
  show "operand ?n (ma + mb) (product_bound ?n A B) ?out" "coeff ?out = mul_mod ?n (coeff lhs) (coeff rhs)"
    by (rule ring_mul_exact [OF a b pos ring_bits(1) [OF r] room])+
qed

lemma product_bound_le:
  assumes "ring_ok r" and "0 \<le> A" and "0 \<le> B"
  shows "product_bound (zr_bits r) A B \<le> 2 ^ 20 * (A * B)"
proof -
  have "(of_nat (zr_bits r) :: rat) \<le> of_nat 64" using ring_bits(3) [OF assms(1)] by (rule of_nat_mono)
  then have "(of_nat (zr_bits r) :: rat) ^ 3 \<le> 64 ^ 3" by (intro power_mono) simp_all
  then have "4 * of_nat (zr_bits r) ^ 3 * (A * B) \<le> 2 ^ 20 * (A * B)"
    using assms by (intro mult_right_mono) simp_all
  then show ?thesis by (simp add: product_bound_def)
qed

section \<open>The constant polynomials\<close>

definition tau_list :: "nat \<Rightarrow> rat list" where
  "tau_list n = (replicate n 0)[0 := - 2, 1 := 1]"

lemma tau_operand: "2 \<le> n \<Longrightarrow> operand n 0 2 (tau_list n)"
proof -
  have "grid 0 (- 2)" "grid 0 1" using grid_of_int [of "- 2"] grid_of_int [of 1] by simp_all
  moreover assume "2 \<le> n"
  ultimately have "grid 0 (tau_list n ! i) \<and> \<bar>tau_list n ! i\<bar> \<le> 2" if "i < n" for i
    using that by (cases "i = 0"; cases "i = 1") (simp_all add: tau_list_def)
  then show ?thesis by (simp add: operand_def tau_list_def)
qed

lemma tau_coeff_list: "2 \<le> n \<Longrightarrow> coeff (tau_list n) = tau_coeff"
  by (auto simp: coeff_def tau_list_def tau_coeff_def fun_eq_iff nth_list_update)

lemma tau_polynomial_list: "tau_polynomial r = ring_polynomial r (tau_list (zr_bits r))"
  by (simp add: tau_polynomial_def tau_list_def)

lemma tau_inverse_coeffs:
  assumes "ring_ok r"
  obtains cs where "tau_inverse r = ring_polynomial r cs" "operand (zr_bits r) (zr_bits r) 1 cs"
    "coeff cs = tau_inv_coeff (zr_bits r)"
proof
  let ?n = "zr_bits r" and ?p = "zr_prec r"
  let ?num = "\<lambda>i. if i = 0 then 1 - 2 ^ (?n - 1) else - (2 ^ (?n - 1 - i)) :: int"
  let ?cs = "map (tau_inv_coeff ?n) [0..<?n]"
  have pow: "(2::int) ^ k < 2 ^ 128" if "k \<le> 64" for k
    using that by (intro power_strict_increasing) simp_all
  have num: "bf_round ?p (of_int (?num i)) = of_int (?num i)" for i
  proof (rule round_of_int [OF assms])
    have "2 ^ (?n - 1 - i) < (2::int) ^ 128" "2 ^ (?n - 1) < (2::int) ^ 128"
      by (intro pow, use ring_bits(3) [OF assms] in simp)+
    moreover have "(1::int) \<le> 2 ^ (?n - 1)" "(0::int) < 2 ^ (?n - 1 - i)" by simp_all
    ultimately show "\<bar>?num i\<bar> < 2 ^ 128" unfolding abs_less_iff by (auto simp del: one_le_power zero_less_power)
  qed
  have den: "bf_round ?p (of_int (2 ^ ?n)) = of_int (2 ^ ?n)"
    by (rule round_of_int [OF assms]) (use pow [OF ring_bits(3) [OF assms]] in simp)
  have quot: "of_int (?num i) / of_int (2 ^ ?n) = tau_inv_coeff ?n i" if "i < ?n" for i
    using that by (simp add: tau_inv_coeff_def)
  have grid: "grid ?n (tau_inv_coeff ?n i)" if "i < ?n" for i
  proof -
    have "of_int (?num i) / of_int (2 ^ ?n) = of_int (?num i) * two_power (- int ?n)"
      by (simp add: two_power_minus)
    then show ?thesis unfolding quot [OF that, symmetric] grid_def by blast
  qed
  have one: "\<bar>tau_inv_coeff ?n i\<bar> \<le> 1" if "i < ?n" for i
  proof -
    have "\<bar>?num i\<bar> \<le> 2 ^ ?n"
    proof -
      have "2 ^ (?n - 1 - i) \<le> (2::int) ^ ?n" "2 ^ (?n - 1) \<le> (2::int) ^ ?n"
        by (intro power_increasing; simp)+
      moreover have "(1::int) \<le> 2 ^ (?n - 1)" "(0::int) < 2 ^ (?n - 1 - i)" by simp_all
      ultimately show ?thesis unfolding abs_le_iff by (cases "i = 0") (simp_all only: simp_thms if_True if_False, linarith+)
    qed
    then have "of_int \<bar>?num i\<bar> \<le> (of_int (2 ^ ?n) :: rat)" by (rule of_int_le_iff [THEN iffD2])
    moreover have pos: "(0::rat) < of_int (2 ^ ?n)" and abs: "\<bar>2 ^ ?n :: int\<bar> = 2 ^ ?n" by simp_all
    ultimately show ?thesis
      unfolding quot [OF that, symmetric] abs_divide of_int_abs [symmetric] abs
      using divide_le_eq_1_pos [OF pos] by blast
  qed
  have quo: "bf_quo ?p (bf_round ?p (of_int (?num i))) (bf_round ?p (of_int (2 ^ ?n))) = tau_inv_coeff ?n i"
    if "i < ?n" for i
  proof -
    have "limit ?p ?n > 1"
    proof -
      have "limit ?p (?n + 1) \<le> limit ?p ?n" by (rule limit_mono) simp_all
      then show ?thesis using limit_64 [OF assms] by simp
    qed
    then have "\<bar>tau_inv_coeff ?n i\<bar> < limit ?p ?n" using one [OF that] by simp
    then show ?thesis
      unfolding num den bf_quo_def quot [OF that] by (rule round_on_grid [OF grid [OF that]])
  qed
  show "tau_inverse r = ring_polynomial r ?cs"
  proof -
    have "map (\<lambda>i. bf_quo ?p (bf_round ?p (of_int (?num i))) (bf_round ?p (of_int (2 ^ ?n)))) [0..<?n] = ?cs"
      by (intro map_cong refl quo) simp
    then show ?thesis by (simp only: tau_inverse_def Let_def)
  qed
  show "operand ?n ?n 1 ?cs" using grid one by (simp add: operand_def)
  show "coeff ?cs = tau_inv_coeff ?n" by (auto simp: coeff_def fun_eq_iff tau_inv_outside ring_bits(2) [OF assms])
qed

section \<open>Encoding\<close>

definition bit_list :: "nat \<Rightarrow> 64 word \<Rightarrow> rat list" where
  "bit_list n w = map (\<lambda>i. if bit w i then 1 else 0) [0..<n]"

lemma bit_word_mask: "ring_ok r \<Longrightarrow> i < zr_bits r \<Longrightarrow> bit (word_mask r) i"
proof -
  assume "ring_ok r" "i < zr_bits r"
  have "word_mask r = mask (zr_bits r)"
  proof (cases "zr_bits r = 64")
    case True
    have "mask 64 = (- 1 :: 64 word)" by (simp add: mask_eq_exp_minus_1)
    with True show ?thesis by (simp add: word_mask_def)
  next
    case False
    then show ?thesis by (simp add: word_mask_def mask_eq_exp_minus_1)
  qed
  with \<open>i < zr_bits r\<close> ring_bits(3) [OF \<open>ring_ok r\<close>] show ?thesis by (simp add: bit_simps)
qed

lemma binary_encode_list: "ring_ok r \<Longrightarrow> binary_encode r w = ring_polynomial r (bit_list (zr_bits r) w)"
proof -
  assume r: "ring_ok r"
  have "and (drop_bit i (and w (word_mask r))) 1 = 1 \<longleftrightarrow> bit w i" if "i < zr_bits r" for i
  proof -
    have "and (drop_bit i (and w (word_mask r))) 1 = 1 \<longleftrightarrow> odd (drop_bit i (and w (word_mask r)))"
      by (simp only: and_one_eq odd_iff_mod_2_eq_one)
    also have "\<dots> \<longleftrightarrow> bit w i"
      using bit_word_mask [OF r that] by (simp only: bit_iff_odd_drop_bit [symmetric] bit_and_iff simp_thms)
    finally show ?thesis .
  qed
  then have "map (\<lambda>i. if and (drop_bit i (and w (word_mask r))) 1 = 1 then 1 else 0) [0..<zr_bits r] =
      bit_list (zr_bits r) w"
    unfolding bit_list_def by (intro map_cong refl) (simp del: drop_bit_and)
  then show ?thesis by (simp only: binary_encode_def Let_def)
qed

lemma bit_operand: "operand n 0 1 (bit_list n w)"
proof -
  have "grid 0 1" using grid_of_int [of 1] by simp
  then show ?thesis by (simp add: operand_def bit_list_def)
qed

lemma bit_list_int: "int_coeffs n (coeff (bit_list n w))"
  by (auto simp: int_coeffs_def coeff_def bit_list_def)

lemma bit_list_outside: "n \<le> k \<Longrightarrow> coeff (bit_list n w) k = 0"
  by (simp add: coeff_def bit_list_def)

lemma eval_two_bits: "n \<le> 64 \<Longrightarrow> eval_two n (coeff (bit_list n w)) = of_nat (take_bit n (unat w))"
proof (induction n)
  case 0
  then show ?case by (simp add: eval_two_def)
next
  case (Suc n)
  have "take_bit (Suc n) (unat w) = take_bit n (unat w) + (if bit w n then 2 ^ n else 0)"
    using Suc.prems by (simp add: take_bit_Suc_from_most bit_unsigned_iff)
  moreover have "eval_two (Suc n) (coeff (bit_list (Suc n) w)) =
      eval_two n (coeff (bit_list n w)) + (if bit w n then 2 ^ n else 0)"
    by (simp add: eval_two_def coeff_def bit_list_def nth_append)
  ultimately show ?case using Suc by simp
qed

section \<open>What an encoding represents\<close>

text \<open>
  A polynomial represents a word when its coefficients lie on the word's grid and multiplying it
  by \<^verbatim>\<open>tau\<close> gives an integer polynomial whose value at 2 is the word modulo \<^verbatim>\<open>2 ^ n\<close>.
\<close>

definition represents :: "z2n_ring \<Rightarrow> polynomial \<Rightarrow> 64 word \<Rightarrow> bool" where
  "represents r q w \<longleftrightarrow> ring_ok r \<and> (\<exists>cs. q = ring_polynomial r cs \<and>
     operand (zr_bits r) (zr_bits r) (2 ^ 20) cs \<and>
     int_coeffs (zr_bits r) (mul_mod (zr_bits r) (coeff cs) tau_coeff) \<and>
     cong_word (zr_bits r) (eval_two (zr_bits r) (mul_mod (zr_bits r) (coeff cs) tau_coeff)) (of_nat (unat w)))"

lemma cong_take_bit: "cong_word n (of_nat (take_bit n m)) (of_nat m)"
proof -
  have "m = take_bit n m + m div 2 ^ n * 2 ^ n"
    by (simp only: take_bit_eq_mod mod_div_mult_eq)
  then have "(of_nat m :: rat) = of_nat (take_bit n m) + of_nat (m div 2 ^ n) * 2 ^ n"
    by (metis of_nat_add of_nat_mult of_nat_numeral of_nat_power)
  then have "of_nat (take_bit n m) - of_nat m = of_int (- int (m div 2 ^ n)) * (2 ^ n :: rat)" by simp
  then show ?thesis unfolding cong_word_def by blast
qed

lemma room: "ring_ok r \<Longrightarrow> x \<le> 2 ^ 62 \<Longrightarrow> m \<le> zr_bits r + 1 \<Longrightarrow> x + 1 < limit (zr_prec r) m"
proof -
  assume r: "ring_ok r" and x: "x \<le> 2 ^ 62" and m: "m \<le> zr_bits r + 1"
  have "limit (zr_prec r) (zr_bits r + 1) \<le> limit (zr_prec r) m" using m by (intro limit_mono) simp_all
  with limit_64 [OF r] x show ?thesis by simp
qed

lemma arithmetic_encode_represents:
  assumes r: "ring_ok r"
  shows "\<exists>q. arithmetic_encode r w = Inr q \<and> represents r q w"
proof -
  let ?n = "zr_bits r"
  obtain cs where inv: "tau_inverse r = ring_polynomial r cs" "operand ?n ?n 1 cs" "coeff cs = tau_inv_coeff ?n"
    by (rule tau_inverse_coeffs [OF r])
  have bound: "product_bound ?n 1 1 \<le> 2 ^ 20" using product_bound_le [OF r, of 1 1] by simp
  have "product_bound ?n 1 1 < limit (zr_prec r) (0 + ?n)"
    using room [OF r, of "2 ^ 20" ?n] bound by simp
  moreover have "1 + 1 < limit (zr_prec r) (max 0 (?n + 1))" "1 + 1 < limit (zr_prec r) (max ?n (?n + 1))"
    using room [OF r, of 1 "?n + 1"] by simp_all
  ultimately obtain out where mul: "ring_mul r (ring_polynomial r (bit_list ?n w)) (ring_polynomial r cs) = Inr (ring_polynomial r out)"
    and out: "operand ?n (0 + ?n) (product_bound ?n 1 1) out"
    and val: "coeff out = mul_mod ?n (coeff (bit_list ?n w)) (coeff cs)"
    by (rule ring_mul_operands [OF r bit_operand inv(2) zero_le_one zero_le_one])
  have enc: "arithmetic_encode r w = Inr (ring_polynomial r out)"
    using mul by (simp add: arithmetic_encode_def binary_encode_list [OF r] inv(1))
  have n: "2 \<le> ?n" by (rule ring_bits(1) [OF r])
  have "mul_mod ?n (coeff out) tau_coeff = mul_mod ?n (coeff (bit_list ?n w)) (mul_mod ?n (tau_inv_coeff ?n) tau_coeff)"
    by (simp only: val inv(3) mul_mod_assoc [OF n])
  also have "\<dots> = coeff (bit_list ?n w)"
    unfolding tau_inverse_tau [OF n] by (rule mul_mod_one [OF n]) (rule bit_list_outside)
  finally have tau: "mul_mod ?n (coeff out) tau_coeff = coeff (bit_list ?n w)" .
  have "represents r (ring_polynomial r out) w"
    unfolding represents_def
  proof (intro conjI r exI [of _ out] refl)
    show "operand ?n ?n (2 ^ 20) out" using operand_mono [OF out _ bound, of ?n] by simp
    show "int_coeffs ?n (mul_mod ?n (coeff out) tau_coeff)" unfolding tau by (rule bit_list_int)
    show "cong_word ?n (eval_two ?n (mul_mod ?n (coeff out) tau_coeff)) (of_nat (unat w))"
      unfolding tau eval_two_bits [OF ring_bits(3) [OF r]] by (rule cong_take_bit)
  qed
  with enc show ?thesis by blast
qed

section \<open>Decoding\<close>

lemma round_to_int_exact:
  assumes "ring_ok r" and "\<bar>k\<bar> < 2 ^ 128"
  shows "round_to_int (zr_prec r) (of_int k) = k"
proof -
  have "floor_to_int (zr_prec r) (of_int k) = k"
    by (simp add: floor_to_int_def bf_trunc_def Let_def round_of_int [OF assms])
  moreover have "bf_sub (zr_prec r) (of_int k) (of_int k) = 0" by (simp add: bf_sub_def bf_round_def)
  ultimately show ?thesis by (simp add: round_to_int_def Let_def round_of_int [OF assms])
qed

lemma horner_rev: "horner (rev xs) acc = (\<Sum>i<length xs. xs ! i * 2 ^ i) + acc * 2 ^ length xs"
proof (induction xs arbitrary: acc rule: rev_induct)
  case Nil
  then show ?case by simp
next
  case (snoc x xs)
  then show ?case by (simp add: nth_append algebra_simps)
qed

lemma horner_eval:
  assumes "xs \<noteq> []"
  shows "horner (rev (butlast xs)) (last xs) = (\<Sum>i<length xs. xs ! i * 2 ^ i)"
proof -
  obtain ys y where xs: "xs = ys @ [y]" using assms by (metis append_butlast_last_id)
  then show ?thesis by (simp add: horner_rev nth_append)
qed

lemma cong_word_int_mod:
  assumes "cong_word n (of_int x) (of_nat m)"
  shows "x mod 2 ^ n = int (take_bit n m)"
proof -
  obtain z where "of_int x - of_nat m = (of_int z * 2 ^ n :: rat)" using assms by (auto simp: cong_word_def)
  then have "(of_int x :: rat) = of_int (int m + z * 2 ^ n)" by simp
  then have "x = int m + z * 2 ^ n" by (simp only: of_int_eq_iff)
  then show ?thesis by (simp add: take_bit_eq_mod zmod_int)
qed

lemma decode_represents:
  assumes "represents r q w"
  shows "decode_arithmetic r q = Inr (take_bit (zr_bits r) w)"
proof -
  let ?n = "zr_bits r"
  from assms obtain cs where r: "ring_ok r" and q: "q = ring_polynomial r cs" and op: "operand ?n ?n (2 ^ 20) cs"
    and ints: "int_coeffs ?n (mul_mod ?n (coeff cs) tau_coeff)"
    and cong: "cong_word ?n (eval_two ?n (mul_mod ?n (coeff cs) tau_coeff)) (of_nat (unat w))"
    by (auto simp: represents_def)
  have n: "2 \<le> ?n" by (rule ring_bits(1) [OF r])
  have pos: "0 \<le> (2 ^ 20 :: rat)" "0 \<le> (2 :: rat)" by simp_all
  have bound: "product_bound ?n (2 ^ 20) 2 \<le> 2 ^ 41" using product_bound_le [OF r, of "2 ^ 20" 2] by simp
  have "product_bound ?n (2 ^ 20) 2 < limit (zr_prec r) (?n + 0)"
    using room [OF r, of "2 ^ 41" ?n] bound by simp
  moreover have "2 ^ 20 + 1 < limit (zr_prec r) (max ?n (?n + 1))" "2 + 1 < limit (zr_prec r) (max 0 (?n + 1))"
    using room [OF r, of "2 ^ 20" "?n + 1"] room [OF r, of 2 "?n + 1"] by simp_all
  ultimately obtain out where mul: "ring_mul r (ring_polynomial r cs) (ring_polynomial r (tau_list ?n)) = Inr (ring_polynomial r out)"
    and out: "operand ?n (?n + 0) (product_bound ?n (2 ^ 20) 2) out"
    and val: "coeff out = mul_mod ?n (coeff cs) (coeff (tau_list ?n))"
    by (rule ring_mul_operands [OF r op tau_operand [OF n] pos])
  have tau: "coeff out = mul_mod ?n (coeff cs) tau_coeff" by (simp only: val tau_coeff_list [OF n])
  have len: "length out = ?n" by (rule operandD(1) [OF out])
  have "\<exists>z. out ! i = of_int z" if "i < ?n" for i
    using ints that len unfolding tau [symmetric] int_coeffs_def coeff_def by (auto elim!: Ints_cases)
  then obtain z where z: "\<And>i. i < ?n \<Longrightarrow> out ! i = of_int (z i)" by metis
  have small: "\<bar>z i\<bar> < 2 ^ 128" if "i < ?n" for i
  proof -
    have "of_int \<bar>z i\<bar> \<le> (2 ^ 41 :: rat)" using operandD(3) [OF out that] bound z [OF that] by simp
    then have "of_int \<bar>z i\<bar> \<le> (of_int (2 ^ 41) :: rat)" by simp
    then have "\<bar>z i\<bar> \<le> 2 ^ 41" by (simp only: of_int_le_iff)
    then show ?thesis by simp
  qed
  have rounded: "map (round_to_int (zr_prec r)) out = map z [0..<?n]"
    by (rule nth_equalityI) (simp_all add: len z round_to_int_exact [OF r small])
  have horner: "horner (rev (butlast (map z [0..<?n]))) (last (map z [0..<?n])) = (\<Sum>i<?n. z i * 2 ^ i)"
    using horner_eval [of "map z [0..<?n]"] ring_bits(2) [OF r] by simp
  have "eval_two ?n (coeff out) = of_int (\<Sum>i<?n. z i * 2 ^ i)"
    by (simp add: eval_two_def coeff_def len z)
  then have "(\<Sum>i<?n. z i * 2 ^ i) mod 2 ^ ?n = int (take_bit ?n (unat w))"
    using cong cong_word_int_mod by (simp only: tau)
  moreover have "word_of_int (int (take_bit ?n (unat w))) = (take_bit ?n w :: 64 word)"
    by (simp add: unsigned_take_bit_eq [symmetric])
  moreover have "ring_validate r q = Inr ()"
    unfolding q by (rule validate_operand [OF r operand_mono [OF op, of "?n + 1" "2 ^ 20"]])
      (use room [OF r, of "2 ^ 20" "?n + 1"] in simp_all)
  ultimately show ?thesis
    using mul rounded horner
    by (simp add: decode_arithmetic_def mul_tau_def q tau_polynomial_list ring_polynomial_def Let_def)
qed

section \<open>The represented word under ring operations\<close>

definition encodes :: "nat \<Rightarrow> (nat \<Rightarrow> rat) \<Rightarrow> rat \<Rightarrow> bool" where
  "encodes n f x \<longleftrightarrow> int_coeffs n (mul_mod n f tau_coeff) \<and> cong_word n (eval_two n (mul_mod n f tau_coeff)) x"

lemma represents_encodes:
  "represents r q w \<longleftrightarrow> ring_ok r \<and> (\<exists>cs. q = ring_polynomial r cs \<and>
     operand (zr_bits r) (zr_bits r) (2 ^ 20) cs \<and> encodes (zr_bits r) (coeff cs) (of_nat (unat w)))"
  by (auto simp: represents_def encodes_def)

lemma mul_mod_add: "mul_mod n (\<lambda>k. f k + g k) h k = mul_mod n f h k + mul_mod n g h k"
  by (simp add: mul_mod_def distrib_right sum.distrib)

lemma mul_mod_diff: "mul_mod n (\<lambda>k. f k - g k) h k = mul_mod n f h k - mul_mod n g h k"
  by (simp add: mul_mod_def left_diff_distrib sum_subtractf)

lemma eval_two_add: "eval_two n (\<lambda>k. f k + g k) = eval_two n f + eval_two n g"
  by (simp add: eval_two_def distrib_right sum.distrib)

lemma eval_two_diff: "eval_two n (\<lambda>k. f k - g k) = eval_two n f - eval_two n g"
  by (simp add: eval_two_def left_diff_distrib sum_subtractf)

lemma encodes_add: "encodes n f x \<Longrightarrow> encodes n g y \<Longrightarrow> encodes n (\<lambda>k. f k + g k) (x + y)"
  by (auto simp: encodes_def int_coeffs_def mul_mod_add [abs_def] eval_two_add cong_word_add)

lemma encodes_diff:
  assumes "encodes n f x" and "encodes n g y"
  shows "encodes n (\<lambda>k. f k - g k) (x - y)"
proof -
  have "cong_word n (eval_two n (mul_mod n f tau_coeff) + - eval_two n (mul_mod n g tau_coeff)) (x + - y)"
    using assms by (intro cong_word_add cong_word_minus) (simp_all add: encodes_def)
  then show ?thesis
    using assms by (auto simp: encodes_def int_coeffs_def mul_mod_diff [abs_def] eval_two_diff)
qed

lemma tau_int: "int_coeffs n tau_coeff"
  by (simp add: int_coeffs_def tau_coeff_def)

lemma eval_two_tau: "2 \<le> n \<Longrightarrow> eval_two n tau_coeff = 0"
proof -
  assume "2 \<le> n"
  then have "eval_two n tau_coeff = (\<Sum>k\<in>{0, 1}. tau_coeff k * 2 ^ k)"
    unfolding eval_two_def by (intro sum.mono_neutral_right) (auto simp: tau_coeff_def)
  then show ?thesis by (simp add: tau_coeff_def)
qed

text \<open>An integer polynomial represents zero, which is why coefficients may be reduced modulo one.\<close>

lemma encodes_int: "2 \<le> n \<Longrightarrow> int_coeffs n f \<Longrightarrow> encodes n f 0"
  using eval_two_mul [of n f tau_coeff] mul_mod_int [of n f tau_coeff] tau_int
  by (simp add: encodes_def eval_two_tau)

lemma cong_word_mult2:
  assumes "cong_word n x u" and "cong_word n y v" and "x \<in> \<int>" and "v \<in> \<int>"
  shows "cong_word n (x * y) (u * v)"
  using cong_word_mult [OF assms(2,3)] cong_word_mult [OF assms(1,4)]
  by (metis cong_word_trans mult.commute)

lemma encodes_mul:
  assumes n: "2 \<le> n" and f: "encodes n f x" and g: "encodes n g y" and "y \<in> \<int>"
  shows "encodes n (mul_mod n (mul_mod n f g) tau_coeff) (x * y)"
proof -
  let ?t = tau_coeff
  have "mul_mod n (mul_mod n (mul_mod n f g) ?t) ?t = mul_mod n (mul_mod n f ?t) (mul_mod n g ?t)"
    by (metis mul_mod_assoc [OF n] mul_mod_commute)
  moreover have "eval_two n (mul_mod n f ?t) \<in> \<int>"
    using f by (auto simp: encodes_def int_coeffs_def eval_two_def intro!: Ints_sum Ints_mult)
  then have "cong_word n (eval_two n (mul_mod n f ?t) * eval_two n (mul_mod n g ?t)) (x * y)"
    using f g assms(4) by (intro cong_word_mult2) (simp_all add: encodes_def)
  moreover have ints: "int_coeffs n (mul_mod n f ?t)" "int_coeffs n (mul_mod n g ?t)"
    using f g by (simp_all add: encodes_def)
  ultimately show ?thesis
    using cong_word_trans [OF eval_two_mul [OF n ints]] mul_mod_int [OF n ints] by (simp add: encodes_def)
qed

lemma encodes_cong: "encodes n f x \<Longrightarrow> cong_word n x y \<Longrightarrow> encodes n f y"
  by (auto simp: encodes_def intro: cong_word_trans)

lemma cong_word_nat_mod:
  assumes "n \<le> 64" and "int a mod 2 ^ 64 = x mod 2 ^ 64"
  shows "cong_word n (of_int x) (of_nat a)"
proof -
  have "(2::int) ^ 64 dvd x - int a" using assms(2) by (metis mod_eq_dvd_iff)
  moreover have "(2::int) ^ n dvd 2 ^ 64" using assms(1) by (rule le_imp_power_dvd)
  ultimately have "2 ^ n dvd x - int a" by (rule dvd_trans [rotated])
  then obtain z where "x - int a = 2 ^ n * z" by (elim dvdE)
  then have "(of_int (x - int a) :: rat) = of_int (2 ^ n * z)" by simp
  then have "of_int x - of_nat a = (of_int z * 2 ^ n :: rat)" by simp
  then show ?thesis unfolding cong_word_def by blast
qed

lemma cong_word_ops:
  assumes "n \<le> 64"
  shows "cong_word n (of_nat (unat a) + of_nat (unat b)) (of_nat (unat (a + b :: 64 word)))"
    and "cong_word n (of_nat (unat a) - of_nat (unat b)) (of_nat (unat (a - b :: 64 word)))"
    and "cong_word n (of_nat (unat a) * of_nat (unat b)) (of_nat (unat (a * b :: 64 word)))"
proof -
  have i: "int (unat x) = uint x" for x :: "64 word" by simp
  have "int (unat (a + b)) mod 2 ^ 64 = (uint a + uint b) mod 2 ^ 64" by (simp add: i uint_word_ariths)
  from cong_word_nat_mod [OF assms this]
  show "cong_word n (of_nat (unat a) + of_nat (unat b)) (of_nat (unat (a + b)))" by simp
  have "int (unat (a - b)) mod 2 ^ 64 = (uint a - uint b) mod 2 ^ 64" by (simp add: i uint_word_ariths)
  from cong_word_nat_mod [OF assms this]
  show "cong_word n (of_nat (unat a) - of_nat (unat b)) (of_nat (unat (a - b)))" by simp
  have "int (unat (a * b)) mod 2 ^ 64 = (uint a * uint b) mod 2 ^ 64" by (simp add: i uint_word_ariths)
  from cong_word_nat_mod [OF assms this]
  show "cong_word n (of_nat (unat a) * of_nat (unat b)) (of_nat (unat (a * b)))" by simp
qed

section \<open>Canonical coefficients\<close>

lemma ceil_to_int_exact:
  assumes "\<bar>s\<bar> < limit p 0"
  shows "ceil_to_int p s = \<lceil>s\<rceil>"
proof -
  have "\<bar>of_int (bf_trunc s)\<bar> \<le> \<bar>s\<bar>"
  proof (cases "0 \<le> s")
    case True
    then have "0 \<le> \<lfloor>s\<rfloor>" by simp
    with True show ?thesis by (simp add: bf_trunc_def)
  next
    case False
    then have "\<lceil>s\<rceil> \<le> 0" by (simp add: ceiling_le_zero)
    with False show ?thesis by (simp add: bf_trunc_def)
  qed
  then have "bf_round p (of_int (bf_trunc s)) = of_int (bf_trunc s)"
    using assms by (intro round_on_grid [OF grid_of_int]) simp
  then show ?thesis
    by (auto simp: ceil_to_int_def Let_def bf_trunc_def) linarith+
qed

lemma canonical_coefficient_exact:
  assumes r: "ring_ok r" and c: "grid m c" and m: "zr_bits r + 1 \<le> m" and room: "\<bar>c\<bar> + 2 < limit (zr_prec r) m"
  defines "e \<equiv> canonical_epsilon r"
  shows "canonical_coefficient (zr_prec r) e c = c - of_int \<lceil>c - e\<rceil>"
proof -
  let ?p = "zr_prec r"
  have e: "0 < e" "e \<le> 1 / 4" "grid m e"
    using epsilon_pos epsilon_le [OF r] grid_mono [OF epsilon_grid m] by (simp_all add: e_def)
  have wide: "limit ?p m \<le> limit ?p 0" by (rule limit_mono) simp_all
  have s: "bf_sub ?p c e = c - e"
    unfolding e_def by (rule sub_epsilon_exact [OF r c m]) (use room in simp)
  have ceil: "ceil_to_int ?p (c - e) = \<lceil>c - e\<rceil>" by (rule ceil_to_int_exact) (use room wide e in linarith)
  have "\<bar>of_int \<lceil>c - e\<rceil> :: rat\<bar> < limit ?p 0" using room wide e by linarith
  then have cf: "bf_round ?p (of_int \<lceil>c - e\<rceil>) = of_int \<lceil>c - e\<rceil>" by (rule round_on_grid [OF grid_of_int])
  have two: "2 < limit ?p m" using room by linarith
  have "bf_sub ?p (c - e) (of_int \<lceil>c - e\<rceil>) = c - e - of_int \<lceil>c - e\<rceil>"
    unfolding bf_sub_def
    by (rule round_on_grid [of m]) (intro grid_diff c e grid_int, use two in linarith)
  moreover have "bf_add ?p (c - e - of_int \<lceil>c - e\<rceil>) e = c - e - of_int \<lceil>c - e\<rceil> + e"
    unfolding bf_add_def
    by (rule round_on_grid [of m]) (intro grid_diff grid_add c e grid_int, use two e in linarith)
  ultimately show ?thesis by (simp add: canonical_coefficient_def Let_def s ceil cf)
qed

text \<open>The interval of the paper's canonical representatives.\<close>

definition canonical :: "z2n_ring \<Rightarrow> polynomial \<Rightarrow> bool" where
  "canonical r q \<longleftrightarrow> list_all (\<lambda>c. canonical_epsilon r - 1 < c \<and> c \<le> canonical_epsilon r) (po_coefficients q)"

lemma canonicalize_represents:
  assumes r: "ring_ok r" and op: "operand (zr_bits r) m bound cs" and m: "zr_bits r + 1 \<le> m"
    and room: "bound + 2 < limit (zr_prec r) m"
    and grid: "\<And>i. i < zr_bits r \<Longrightarrow> grid (zr_bits r) (cs ! i)"
    and enc: "encodes (zr_bits r) (coeff cs) (of_nat (unat w))"
  shows "\<exists>q. canonicalize_arithmetic r (ring_polynomial r cs) = Inr q \<and> represents r q w \<and> canonical r q"
proof -
  let ?n = "zr_bits r" and ?e = "canonical_epsilon r"
  define z where "z i = \<lceil>cs ! i - ?e\<rceil>" for i
  define ds where "ds = map (\<lambda>c. c - of_int \<lceil>c - ?e\<rceil>) cs"
  have len: "length cs = ?n" "length ds = ?n" using operandD(1) [OF op] by (simp_all add: ds_def)
  have ds: "ds ! i = cs ! i - of_int (z i)" if "i < ?n" for i using that by (simp add: ds_def z_def len)
  have "canonical_coefficient (zr_prec r) ?e c = c - of_int \<lceil>c - ?e\<rceil>" if "c \<in> set cs" for c
  proof -
    from that obtain i where "i < ?n" "c = cs ! i" by (auto simp: in_set_conv_nth len)
    then show ?thesis
      using operandD(2,3) [OF op] room by (intro canonical_coefficient_exact [OF r _ m]) fastforce+
  qed
  then have "map (canonical_coefficient (zr_prec r) ?e) cs = ds" by (simp add: ds_def)
  moreover have "ring_validate r (ring_polynomial r cs) = Inr ()"
    by (rule validate_operand [OF r op m]) (use room in simp)
  ultimately have run: "canonicalize_arithmetic r (ring_polynomial r cs) = Inr (ring_polynomial r ds)"
    by (simp add: canonicalize_arithmetic_def ring_polynomial_def)
  have range: "?e - 1 < c - of_int \<lceil>c - ?e\<rceil> \<and> c - of_int \<lceil>c - ?e\<rceil> \<le> ?e" for c
    by linarith
  have "operand ?n ?n (2 ^ 20) ds"
  proof -
    have "\<bar>ds ! i\<bar> \<le> 2 ^ 20" if "i < ?n" for i
      using range [of "cs ! i"] epsilon_pos [of r] epsilon_le [OF r] unfolding ds [OF that] z_def by (simp add: abs_le_iff)
    then show ?thesis using grid by (auto simp: operand_def len ds intro!: grid_diff grid_int)
  qed
  moreover have "encodes ?n (coeff ds) (of_nat (unat w))"
  proof -
    let ?f = "\<lambda>k. if k < ?n then of_int (z k) else 0"
    have "encodes ?n ?f 0" by (rule encodes_int [OF ring_bits(1) [OF r]]) (simp add: int_coeffs_def)
    from encodes_diff [OF enc this] have "encodes ?n (\<lambda>k. coeff cs k - ?f k) (of_nat (unat w))" by simp
    moreover have "coeff ds = (\<lambda>k. coeff cs k - ?f k)" by (auto simp: coeff_def len ds fun_eq_iff)
    ultimately show ?thesis by simp
  qed
  ultimately have "represents r (ring_polynomial r ds) w" using r by (auto simp: represents_encodes)
  moreover have "canonical r (ring_polynomial r ds)"
    using range by (simp add: canonical_def ring_polynomial_def ds_def list_all_iff)
  ultimately show ?thesis using run by blast
qed

section \<open>Arithmetic on encodings\<close>

lemma add_sub_coeffs:
  assumes r: "ring_ok r" and a: "operand (zr_bits r) (zr_bits r) (2 ^ 20) cs"
    and b: "operand (zr_bits r) (zr_bits r) (2 ^ 20) ds"
  obtains es fs where "ring_add r (ring_polynomial r cs) (ring_polynomial r ds) = Inr (ring_polynomial r es)"
    "operand (zr_bits r) (zr_bits r) (2 ^ 21) es" "coeff es = (\<lambda>k. coeff cs k + coeff ds k)"
    "ring_sub r (ring_polynomial r cs) (ring_polynomial r ds) = Inr (ring_polynomial r fs)"
    "operand (zr_bits r) (zr_bits r) (2 ^ 21) fs" "coeff fs = (\<lambda>k. coeff cs k - coeff ds k)"
proof
  let ?n = "zr_bits r" and ?p = "zr_prec r"
  let ?es = "map2 (bf_add ?p) cs ds" and ?fs = "map2 (bf_sub ?p) cs ds"
  have valid: "ring_validate r (ring_polynomial r xs) = Inr ()" if "operand ?n ?n (2 ^ 20) xs" for xs
    by (rule validate_operand [OF r operand_mono [OF that, of "?n + 1" "2 ^ 20"]])
      (use room [OF r, of "2 ^ 20" "?n + 1"] in simp_all)
  then have pair: "validate_pair r (ring_polynomial r cs) (ring_polynomial r ds) = Inr ()"
    using a b by (simp add: validate_pair_def)
  show "ring_add r (ring_polynomial r cs) (ring_polynomial r ds) = Inr (ring_polynomial r ?es)"
    "ring_sub r (ring_polynomial r cs) (ring_polynomial r ds) = Inr (ring_polynomial r ?fs)"
    using pair by (simp_all add: ring_add_def ring_sub_def) (simp_all add: ring_polynomial_def)
  have len: "length cs = ?n" "length ds = ?n" using operandD(1) [OF a] operandD(1) [OF b] by simp_all
  have lim: "2 ^ 21 < limit ?p ?n" using room [OF r, of "2 ^ 21" ?n] by simp
  have sums: "grid ?n (cs ! i + ds ! i)" "\<bar>cs ! i + ds ! i\<bar> \<le> 2 ^ 21"
    "grid ?n (cs ! i - ds ! i)" "\<bar>cs ! i - ds ! i\<bar> \<le> 2 ^ 21" if "i < ?n" for i
    using operandD(2,3) [OF a that] operandD(2,3) [OF b that] by (auto intro: grid_add grid_diff)
  have add: "bf_add ?p (cs ! i) (ds ! i) = cs ! i + ds ! i" and sub: "bf_sub ?p (cs ! i) (ds ! i) = cs ! i - ds ! i"
    if "i < ?n" for i
    using sums [OF that] lim by (simp_all add: bf_add_def bf_sub_def round_on_grid [of ?n])
  show "operand ?n ?n (2 ^ 21) ?es" "operand ?n ?n (2 ^ 21) ?fs"
    using sums by (simp_all add: operand_def len add sub)
  show "coeff ?es = (\<lambda>k. coeff cs k + coeff ds k)" "coeff ?fs = (\<lambda>k. coeff cs k - coeff ds k)"
    by (auto simp: coeff_def fun_eq_iff len add sub)
qed

lemma add_sub_represents:
  assumes "represents r p a" and "represents r q b"
  shows "\<exists>s. add_arithmetic r p q = Inr s \<and> represents r s (a + b) \<and> canonical r s"
    and "\<exists>s. sub_arithmetic r p q = Inr s \<and> represents r s (a - b) \<and> canonical r s"
proof -
  let ?n = "zr_bits r"
  from assms obtain cs ds where r: "ring_ok r" and pq: "p = ring_polynomial r cs" "q = ring_polynomial r ds"
    and ops: "operand ?n ?n (2 ^ 20) cs" "operand ?n ?n (2 ^ 20) ds"
    and enc: "encodes ?n (coeff cs) (of_nat (unat a))" "encodes ?n (coeff ds) (of_nat (unat b))"
    by (auto simp: represents_encodes)
  obtain es fs where add: "ring_add r p q = Inr (ring_polynomial r es)" "operand ?n ?n (2 ^ 21) es"
      "coeff es = (\<lambda>k. coeff cs k + coeff ds k)"
    and sub: "ring_sub r p q = Inr (ring_polynomial r fs)" "operand ?n ?n (2 ^ 21) fs"
      "coeff fs = (\<lambda>k. coeff cs k - coeff ds k)"
    unfolding pq by (rule add_sub_coeffs [OF r ops])
  have canon: "\<exists>s. canonicalize_arithmetic r (ring_polynomial r xs) = Inr s \<and> represents r s w \<and> canonical r s"
    if "operand ?n ?n (2 ^ 21) xs" "encodes ?n (coeff xs) (of_nat (unat w))" for xs w
    by (rule canonicalize_represents [OF r operand_mono [OF that(1), of "?n + 1" "2 ^ 21"] _ _ _ that(2)])
      (use room [OF r, of "2 ^ 21 + 1" "?n + 1"] operandD(2) [OF that(1)] in simp_all)
  note cong = cong_word_ops [OF ring_bits(3) [OF r]]
  have "encodes ?n (coeff es) (of_nat (unat (a + b)))" "encodes ?n (coeff fs) (of_nat (unat (a - b)))"
    unfolding add(3) sub(3)
    by (rule encodes_cong [OF encodes_add [OF enc] cong(1)], rule encodes_cong [OF encodes_diff [OF enc] cong(2)])
  then show "\<exists>s. add_arithmetic r p q = Inr s \<and> represents r s (a + b) \<and> canonical r s"
    and "\<exists>s. sub_arithmetic r p q = Inr s \<and> represents r s (a - b) \<and> canonical r s"
    using canon add sub by (simp_all add: add_arithmetic_def sub_arithmetic_def)
qed

lemma encoded_grid:
  assumes n: "2 \<le> n" and cs: "length cs = n" and int: "int_coeffs n (mul_mod n (coeff cs) tau_coeff)"
    and inv: "\<And>k. k < n \<Longrightarrow> grid n (tau_inv_coeff n k)" and "i < n"
  shows "grid n (cs ! i)"
proof -
  have "mul_mod n (mul_mod n (coeff cs) tau_coeff) (tau_inv_coeff n) = coeff cs"
  proof -
    have "mul_mod n (mul_mod n (coeff cs) tau_coeff) (tau_inv_coeff n) =
        mul_mod n (coeff cs) (mul_mod n (tau_inv_coeff n) tau_coeff)"
      by (simp only: mul_mod_assoc [OF n] mul_mod_commute [of n tau_coeff])
    also have "\<dots> = coeff cs"
      unfolding tau_inverse_tau [OF n] by (rule mul_mod_one [OF n]) (simp add: coeff_def cs)
    finally show ?thesis .
  qed
  moreover have "grid n (mul_mod n (mul_mod n (coeff cs) tau_coeff) (tau_inv_coeff n) i)"
    unfolding mul_mod_def [of n "mul_mod n (coeff cs) tau_coeff"]
  proof (intro grid_sum)
    fix k j assume "k \<in> {..<n}" "j \<in> {..<n}"
    then have kj: "k < n" "j < n" by simp_all
    obtain z where z: "mul_mod n (coeff cs) tau_coeff k = of_int z"
      using int kj(1) by (auto simp: int_coeffs_def elim: Ints_cases)
    obtain y where y: "x_power n (k + j) i = of_int y" using x_power_int [OF n] by (blast elim: Ints_cases)
    have "grid (0 + n + 0) (of_int z * tau_inv_coeff n j * of_int y)"
      by (intro grid_mult grid_of_int inv kj)
    then show "grid n (mul_mod n (coeff cs) tau_coeff k * tau_inv_coeff n j * x_power n (k + j) i)"
      by (simp add: z y)
  qed
  ultimately have "grid n (coeff cs i)" by simp
  then show ?thesis using assms(5) by (simp add: coeff_def cs)
qed

lemma mul_represents:
  assumes w: "ring_wide r" and "represents r p a" and "represents r q b"
  shows "\<exists>s. mul_arithmetic r p q = Inr s \<and> represents r s (a * b) \<and> canonical r s"
proof -
  let ?n = "zr_bits r" and ?p = "zr_prec r"
  from assms obtain cs ds where r: "ring_ok r" and pq: "p = ring_polynomial r cs" "q = ring_polynomial r ds"
    and ops: "operand ?n ?n (2 ^ 20) cs" "operand ?n ?n (2 ^ 20) ds"
    and enc: "encodes ?n (coeff cs) (of_nat (unat a))" "encodes ?n (coeff ds) (of_nat (unat b))"
    by (auto simp: represents_encodes)
  have n: "2 \<le> ?n" by (rule ring_bits(1) [OF r])
  have wide: "x < limit ?p m" if "x \<le> 2 ^ 95" "m \<le> 2 * ?n" for x m
  proof -
    have "limit ?p (2 * ?n) \<le> limit ?p m" using that(2) by (intro limit_mono) simp_all
    with limit_wide [OF w] that(1) show ?thesis by simp
  qed
  have b1: "product_bound ?n (2 ^ 20) (2 ^ 20) \<le> 2 ^ 60"
    using product_bound_le [OF r, of "2 ^ 20" "2 ^ 20"] by simp
  have nonneg: "(0::rat) \<le> 2 ^ 20" "(0::rat) \<le> 2 ^ 60" "(0::rat) \<le> 2" by simp_all
  have "product_bound ?n (2 ^ 20) (2 ^ 20) < limit ?p (?n + ?n)"
    "2 ^ 20 + 1 < limit ?p (max ?n (?n + 1))" "2 ^ 20 + 1 < limit ?p (max ?n (?n + 1))"
    using wide [of "product_bound ?n (2 ^ 20) (2 ^ 20)" "?n + ?n"] wide [of "2 ^ 20 + 1" "?n + 1"] b1 n by simp_all
  then obtain es where e: "ring_mul r (ring_polynomial r cs) (ring_polynomial r ds) = Inr (ring_polynomial r es)"
    "operand ?n (?n + ?n) (product_bound ?n (2 ^ 20) (2 ^ 20)) es" "coeff es = mul_mod ?n (coeff cs) (coeff ds)"
    by (rule ring_mul_operands [OF r ops nonneg(1) nonneg(1)])
  have e60: "operand ?n (?n + ?n) (2 ^ 60) es" by (rule operand_mono [OF e(2) order_refl b1])
  have b2: "product_bound ?n (2 ^ 60) 2 \<le> 2 ^ 81" using product_bound_le [OF r, of "2 ^ 60" 2] by simp
  have "product_bound ?n (2 ^ 60) 2 < limit ?p (?n + ?n + 0)"
    "2 ^ 60 + 1 < limit ?p (max (?n + ?n) (?n + 1))" "2 + 1 < limit ?p (max 0 (?n + 1))"
    using wide [of "product_bound ?n (2 ^ 60) 2" "?n + ?n"] wide [of "2 ^ 60 + 1" "max (?n + ?n) (?n + 1)"]
      wide [of 3 "?n + 1"] b2 n by simp_all
  then obtain fs where f: "ring_mul r (ring_polynomial r es) (ring_polynomial r (tau_list ?n)) = Inr (ring_polynomial r fs)"
    "operand ?n (?n + ?n + 0) (product_bound ?n (2 ^ 60) 2) fs" "coeff fs = mul_mod ?n (coeff es) (coeff (tau_list ?n))"
    by (rule ring_mul_operands [OF r e60 tau_operand [OF n] nonneg(2,3)])
  have f81: "operand ?n (?n + ?n) (2 ^ 81) fs" using operand_mono [OF f(2) _ b2, of "?n + ?n"] by simp
  have "encodes ?n (coeff fs) (of_nat (unat a) * of_nat (unat b))"
    unfolding f(3) e(3) tau_coeff_list [OF n] by (rule encodes_mul [OF n enc]) (rule Ints_of_nat)
  then have enc_f: "encodes ?n (coeff fs) (of_nat (unat (a * b)))"
    by (rule encodes_cong [OF _ cong_word_ops(3) [OF ring_bits(3) [OF r]]])
  obtain ts where inv: "operand ?n ?n 1 ts" "coeff ts = tau_inv_coeff ?n"
    by (rule tau_inverse_coeffs [OF r]) blast
  have "grid ?n (tau_inv_coeff ?n k)" if "k < ?n" for k
    using operandD(1,2) [OF inv(1)] that unfolding inv(2) [symmetric] coeff_def by simp
  then have grid: "grid ?n (fs ! i)" if "i < ?n" for i
    using encoded_grid [OF n operandD(1) [OF f(2)]] enc_f that by (auto simp: encodes_def)
  have "\<exists>s. canonicalize_arithmetic r (ring_polynomial r fs) = Inr s \<and> represents r s (a * b) \<and> canonical r s"
    by (rule canonicalize_represents [OF r f81 _ _ grid enc_f]) (use wide [of "2 ^ 81 + 2" "?n + ?n"] n in simp_all)
  then show ?thesis
    using e(1) f(1) by (simp add: mul_arithmetic_def mul_tau_def pq tau_polynomial_list)
qed

section \<open>Computing with encoded words\<close>

text \<open>
  What a client of an encrypted word relies on: encodings that represent words, operations that
  follow the machine's operations modulo the word size, and a decoder.
\<close>

datatype word_expr =
  Constant "64 word"
| Plus word_expr word_expr
| Minus word_expr word_expr
| Times word_expr word_expr

primrec word_value :: "word_expr \<Rightarrow> 64 word" where
  "word_value (Constant w) = w"
| "word_value (Plus e f) = word_value e + word_value f"
| "word_value (Minus e f) = word_value e - word_value f"
| "word_value (Times e f) = word_value e * word_value f"

type_synonym ('e, 'p) binary_op = "'p \<Rightarrow> 'p \<Rightarrow> ('e, 'p) res"

definition lift_op :: "('e, 'p) binary_op \<Rightarrow> ('e, 'p) res \<Rightarrow> ('e, 'p) res \<Rightarrow> ('e, 'p) res" where
  "lift_op f x y = and_then x (\<lambda>p. and_then y (f p))"

primrec run_expr ::
  "(64 word \<Rightarrow> ('e, 'p) res) \<Rightarrow> ('e, 'p) binary_op \<Rightarrow> ('e, 'p) binary_op \<Rightarrow> ('e, 'p) binary_op \<Rightarrow>
   word_expr \<Rightarrow> ('e, 'p) res" where
  "run_expr encode add sub mul (Constant w) = encode w"
| "run_expr encode add sub mul (Plus e f) =
     lift_op add (run_expr encode add sub mul e) (run_expr encode add sub mul f)"
| "run_expr encode add sub mul (Minus e f) =
     lift_op sub (run_expr encode add sub mul e) (run_expr encode add sub mul f)"
| "run_expr encode add sub mul (Times e f) =
     lift_op mul (run_expr encode add sub mul e) (run_expr encode add sub mul f)"

locale word_arithmetic =
  fixes ok :: "'r \<Rightarrow> bool" and bits :: "'r \<Rightarrow> nat" and rep :: "'r \<Rightarrow> 'p \<Rightarrow> 64 word \<Rightarrow> bool"
    and encode :: "'r \<Rightarrow> 64 word \<Rightarrow> ('e, 'p) res"
    and add sub mul :: "'r \<Rightarrow> ('e, 'p) binary_op"
    and decode :: "'r \<Rightarrow> 'p \<Rightarrow> ('e, 64 word) res"
  assumes encode_rep: "ok r \<Longrightarrow> \<exists>p. encode r w = Inr p \<and> rep r p w"
    and add_rep: "ok r \<Longrightarrow> rep r p a \<Longrightarrow> rep r q b \<Longrightarrow> \<exists>s. add r p q = Inr s \<and> rep r s (a + b)"
    and sub_rep: "ok r \<Longrightarrow> rep r p a \<Longrightarrow> rep r q b \<Longrightarrow> \<exists>s. sub r p q = Inr s \<and> rep r s (a - b)"
    and mul_rep: "ok r \<Longrightarrow> rep r p a \<Longrightarrow> rep r q b \<Longrightarrow> \<exists>s. mul r p q = Inr s \<and> rep r s (a * b)"
    and decode_rep: "ok r \<Longrightarrow> rep r p w \<Longrightarrow> decode r p = Inr (take_bit (bits r) w)"
begin

lemma run_expr_rep:
  "ok r \<Longrightarrow> \<exists>p. run_expr (encode r) (add r) (sub r) (mul r) e = Inr p \<and> rep r p (word_value e)"
proof (induction e)
  case (Constant w)
  then show ?case using encode_rep by simp
next
  case (Plus e f)
  then show ?case using add_rep by (fastforce simp: lift_op_def)
next
  case (Minus e f)
  then show ?case using sub_rep by (fastforce simp: lift_op_def)
next
  case (Times e f)
  then show ?case using mul_rep by (fastforce simp: lift_op_def)
qed

lemma run_expr_decode:
  assumes "ok r"
  shows "and_then (run_expr (encode r) (add r) (sub r) (mul r) e) (decode r) = Inr (take_bit (bits r) (word_value e))"
  using run_expr_rep [OF assms, of e] decode_rep [OF assms] by fastforce

lemma encode_decode: "ok r \<Longrightarrow> and_then (encode r w) (decode r) = Inr (take_bit (bits r) w)"
  using run_expr_decode [of r "Constant w"] by simp

end

lemma wide_ok: "ring_wide r \<Longrightarrow> ring_ok r"
  by (simp add: ring_wide_def)

interpretation z2n: word_arithmetic ring_wide zr_bits represents arithmetic_encode
  add_arithmetic sub_arithmetic mul_arithmetic decode_arithmetic
proof
  fix r :: z2n_ring and w a b p q
  assume "ring_wide r"
  then show "\<exists>p. arithmetic_encode r w = Inr p \<and> represents r p w"
    using arithmetic_encode_represents wide_ok by blast
  assume "represents r p a"
  then show "decode_arithmetic r p = Inr (take_bit (zr_bits r) a)" by (rule decode_represents)
  assume "represents r q b"
  with \<open>represents r p a\<close> \<open>ring_wide r\<close> show "\<exists>s. add_arithmetic r p q = Inr s \<and> represents r s (a + b)"
    "\<exists>s. sub_arithmetic r p q = Inr s \<and> represents r s (a - b)"
    "\<exists>s. mul_arithmetic r p q = Inr s \<and> represents r s (a * b)"
    using add_sub_represents mul_represents by blast+
qed

end
