(* ===== verification/Z2nTransform.thy ===== *)
theory Z2nTransform
  imports Z2nEncode
begin

text \<open>
  The root-slot transform of \<^verbatim>\<open>integer/z2n/transform.go\<close> and the constructors of \<^verbatim>\<open>ring.go\<close>, which
  build its matrices from the published roots. A slot that is not nil holds finite floats.
\<close>

section \<open>Complex arithmetic\<close>

definition complex_one :: bf_complex where
  "complex_one = (1, 0)"

definition complex_real_int :: "nat \<Rightarrow> int \<Rightarrow> bf_complex" where
  "complex_real_int p value = (bf_round p (of_int value), 0)"

definition complex_add :: "nat \<Rightarrow> bf_complex \<Rightarrow> bf_complex \<Rightarrow> bf_complex" where
  "complex_add p lhs rhs = (bf_add p (fst lhs) (fst rhs), bf_add p (snd lhs) (snd rhs))"

definition complex_sub :: "nat \<Rightarrow> bf_complex \<Rightarrow> bf_complex \<Rightarrow> bf_complex" where
  "complex_sub p lhs rhs = (bf_sub p (fst lhs) (fst rhs), bf_sub p (snd lhs) (snd rhs))"

definition complex_mul :: "nat \<Rightarrow> bf_complex \<Rightarrow> bf_complex \<Rightarrow> bf_complex" where
  "complex_mul p lhs rhs =
     (let ac = bf_mul p (fst lhs) (fst rhs); bd = bf_mul p (snd lhs) (snd rhs);
          ad = bf_mul p (fst lhs) (snd rhs); bc = bf_mul p (snd lhs) (fst rhs)
      in (bf_sub p ac bd, bf_add p ad bc))"

definition complex_mul_real :: "nat \<Rightarrow> bf_complex \<Rightarrow> rat \<Rightarrow> bf_complex" where
  "complex_mul_real p lhs rhs = (bf_mul p (fst lhs) rhs, bf_mul p (snd lhs) rhs)"

definition complex_quo :: "nat \<Rightarrow> bf_complex \<Rightarrow> bf_complex \<Rightarrow> bf_complex" where
  "complex_quo p numerator denominator =
     (let ac = bf_mul p (fst numerator) (fst denominator); bd = bf_mul p (snd numerator) (snd denominator);
          bc = bf_mul p (snd numerator) (fst denominator); ad = bf_mul p (fst numerator) (snd denominator);
          c2 = bf_mul p (fst denominator) (fst denominator); d2 = bf_mul p (snd denominator) (snd denominator);
          norm = bf_add p c2 d2
      in (bf_quo p (bf_add p ac bd) norm, bf_quo p (bf_sub p bc ad) norm))"

section \<open>The published roots\<close>

text \<open>\<^verbatim>\<open>SetString(s, 10)\<close> of math/big: an optional sign and at least one decimal digit.\<close>

definition decimal_digit :: "char \<Rightarrow> bool" where
  "decimal_digit c \<longleftrightarrow> of_char c \<ge> (48::nat) \<and> of_char c \<le> (57::nat)"

definition decimal_value :: "string \<Rightarrow> int" where
  "decimal_value digits = fold (\<lambda>c acc. acc * 10 + (of_char c - 48)) digits 0"

definition set_string_10 :: "string \<Rightarrow> int option" where
  "set_string_10 s =
     (let signed = (s \<noteq> [] \<and> (hd s = CHR ''+'' \<or> hd s = CHR ''-'')); digits = (if signed then tl s else s)
      in if digits = [] \<or> \<not> list_all decimal_digit digits then None
         else Some (if signed \<and> hd s = CHR ''-'' then - decimal_value digits else decimal_value digits))"

definition float_from_constant :: "nat \<Rightarrow> fixed_point_constant \<Rightarrow> (z2n_error, rat) res" where
  "float_from_constant p value =
     (case set_string_10 (fc_magnitude value) of
        None \<Rightarrow> err (InvalidMagnitude (fc_magnitude value))
      | Some magnitude \<Rightarrow>
          let x = bf_round p (of_int magnitude) * two_power (- int (fc_fraction_bits value))
          in Inr (if fc_negative value then - x else x))"

definition complex_from_constant :: "nat \<Rightarrow> root_constant \<Rightarrow> (z2n_error, bf_complex) res" where
  "complex_from_constant p value =
     and_then (map_err (RootPart ''real'') (float_from_constant p (rk_real value))) (\<lambda>real_part.
     and_then (map_err (RootPart ''imaginary'') (float_from_constant p (rk_imag value))) (\<lambda>imag_part.
     Inr (real_part, imag_part)))"

section \<open>The matrices\<close>

text \<open>The powers \<^verbatim>\<open>xi^0 .. xi^(n-1)\<close>, each the rounded product of the previous one with the root.\<close>

fun complex_powers :: "nat \<Rightarrow> bf_complex \<Rightarrow> nat \<Rightarrow> bf_complex \<Rightarrow> bf_complex list" where
  "complex_powers p xi 0 current = []"
| "complex_powers p xi (Suc n) current = current # complex_powers p xi n (complex_mul p current xi)"

definition forward_row :: "nat \<Rightarrow> nat \<Rightarrow> bf_complex \<Rightarrow> bf_complex list" where
  "forward_row p n xi = complex_powers p xi n complex_one"

definition inverse_column :: "nat \<Rightarrow> nat \<Rightarrow> bf_complex \<Rightarrow> bf_complex list" where
  "inverse_column p n xi =
     (let powers = complex_powers p xi n complex_one;
          derivative = complex_sub p (complex_mul p (complex_real_int p (int n)) (powers ! (n - 1))) complex_one
      in map (\<lambda>row. complex_quo p
           (if row = 0 then complex_sub p (powers ! (n - 1)) complex_one else powers ! (n - 1 - row))
           derivative) [0..<n])"

definition build_linear_transform :: "nat \<Rightarrow> nat \<Rightarrow> (z2n_error, linear_transform) res" where
  "build_linear_transform n p =
     and_then (map_each (\<lambda>i constant. map_err (RootParse i n) (complex_from_constant p constant)) 0
         (root_constant_table n)) (\<lambda>roots.
     Inr \<lparr>lt_roots = roots, lt_forward = map (forward_row p n) roots,
          lt_inverse = map (\<lambda>row. map (\<lambda>xi. inverse_column p n xi ! row) roots) [0..<n]\<rparr>)"

definition new_with_precision :: "nat \<Rightarrow> nat \<Rightarrow> (z2n_error, z2n_ring) res" where
  "new_with_precision bits precision =
     (if \<not> word_supported bits then err (UnsupportedWordSize bits)
      else if precision < root_fraction_bits then err (PrecisionTooLow precision)
      else and_then (build_linear_transform bits precision) (\<lambda>transform.
        Inr \<lparr>zr_bits = bits, zr_prec = precision, zr_transform = transform\<rparr>))"

definition new_ring :: "nat \<Rightarrow> (z2n_error, z2n_ring) res" where
  "new_ring bits = new_with_precision bits default_precision"

definition root_constants :: "z2n_ring \<Rightarrow> root_constant list" where
  "root_constants r = root_constant_table (zr_bits r)"

section \<open>Root slots\<close>

definition to_root_slots :: "z2n_ring \<Rightarrow> polynomial \<Rightarrow> (z2n_error, bf_complex list) res" where
  "to_root_slots r value =
     and_then (ring_validate r value) (\<lambda>_.
     Inr (map (\<lambda>row. fold (\<lambda>(entry, c) sum.
           complex_add (zr_prec r) sum (complex_mul_real (zr_prec r) entry c))
         (zip row (po_coefficients value)) (0, 0)) (lt_forward (zr_transform r))))"

type_synonym root_slot = "(rat option \<times> rat option) option"

definition slot_value :: "nat \<Rightarrow> root_slot \<Rightarrow> (z2n_error, bf_complex) res" where
  "slot_value i slot =
     (case slot of Some (Some x, Some y) \<Rightarrow> Inr (x, y) | _ \<Rightarrow> err (NilSlot i))"

definition from_root_slots :: "z2n_ring \<Rightarrow> root_slot list \<Rightarrow> (z2n_error, polynomial) res" where
  "from_root_slots r slots =
     (if length slots \<noteq> zr_bits r div 2 then err (SlotCount (length slots) (zr_bits r div 2))
      else and_then (map_each slot_value 0 slots) (\<lambda>values.
        Inr (ring_polynomial r (map (\<lambda>row. bf_mul (zr_prec r) 2 (fst (fold (\<lambda>(entry, s) sum.
              complex_add (zr_prec r) sum (complex_mul (zr_prec r) entry s)) (zip row values) (0, 0))))
            (lt_inverse (zr_transform r))))))"

text \<open>The transform of the ring's own encoding cannot fail; a failure is a panic.\<close>

definition arithmetic_root_slots :: "z2n_ring \<Rightarrow> 64 word \<Rightarrow> (z2n_error, bf_complex list) res" where
  "arithmetic_root_slots r w =
     and_then (arithmetic_encode r w) (\<lambda>p.
       case to_root_slots r p of Inl _ \<Rightarrow> Inl Panic | Inr slots \<Rightarrow> Inr slots)"

definition recover_word :: "z2n_ring \<Rightarrow> root_slot list \<Rightarrow> (z2n_error, 64 word) res" where
  "recover_word r slots = and_then (from_root_slots r slots) (decode_arithmetic r)"

section \<open>Construction\<close>

definition decimal :: "root_constant \<Rightarrow> bool" where
  "decimal k \<longleftrightarrow> set_string_10 (fc_magnitude (rk_real k)) \<noteq> None \<and> set_string_10 (fc_magnitude (rk_imag k)) \<noteq> None"

lemma decimal_tables:
  "list_all decimal roots_n8" "list_all decimal roots_n16" "list_all decimal roots_n32" "list_all decimal roots_n64"
  by code_simp+

lemma table_decimal: "list_all decimal (root_constant_table bits)"
  by (simp add: root_constant_table_def decimal_tables)

lemma table_length: "word_supported bits \<Longrightarrow> length (root_constant_table bits) = bits div 2"
  by (auto simp: word_supported_def root_constant_table_def roots_length)

lemma complex_from_decimal: "decimal k \<Longrightarrow> is_ok (complex_from_constant p k)"
  by (auto simp: decimal_def complex_from_constant_def float_from_constant_def is_ok_iff Let_def)

lemma complex_powers_length [simp]: "length (complex_powers p xi n c) = n"
  by (induction n arbitrary: c) simp_all

definition transform_shape :: "nat \<Rightarrow> linear_transform \<Rightarrow> bool" where
  "transform_shape n t \<longleftrightarrow> length (lt_roots t) = n div 2 \<and>
     length (lt_forward t) = n div 2 \<and> list_all (\<lambda>row. length row = n) (lt_forward t) \<and>
     length (lt_inverse t) = n \<and> list_all (\<lambda>row. length row = n div 2) (lt_inverse t)"

lemma build_ok:
  assumes "word_supported n"
  shows "\<exists>t. build_linear_transform n p = Inr t \<and> transform_shape n t"
proof -
  let ?parse = "\<lambda>i constant. map_err (RootParse i n) (complex_from_constant p constant)"
  obtain g where g: "\<And>k. decimal k \<Longrightarrow> complex_from_constant p k = Inr (g k)"
    using complex_from_decimal [of _ p] unfolding is_ok_iff by metis
  have "\<forall>k \<in> set (root_constant_table n). decimal k" using table_decimal by (simp add: list_all_iff)
  then have "map_each ?parse 0 (root_constant_table n) = Inr (map g (root_constant_table n))"
    by (intro map_each_all_ok) (simp add: g)
  then obtain roots where roots: "map_each ?parse 0 (root_constant_table n) = Inr roots" by blast
  then have "length roots = n div 2" by (simp add: map_each_ok table_length [OF assms])
  then show ?thesis
    using roots by (simp add: build_linear_transform_def transform_shape_def list_all_iff forward_row_def)
qed

text \<open>
  New and NewWithPrecision succeed exactly on the supported word sizes and at least 128 bits of
  precision, with the transform matrices of the announced dimensions.
\<close>

lemma new_with_precision_iff:
  "((\<exists>t. transform_shape bits t \<and>
       new_with_precision bits precision = Inr \<lparr>zr_bits = bits, zr_prec = precision, zr_transform = t\<rparr>) \<longleftrightarrow>
     word_supported bits \<and> 128 \<le> precision) \<and>
   (is_ok (new_with_precision bits precision) \<longleftrightarrow> word_supported bits \<and> 128 \<le> precision)"
  using build_ok [of bits precision]
  by (auto simp: new_with_precision_def root_fraction_bits_def)

lemma new_ring_parts:
  assumes "new_with_precision bits precision = Inr r"
  shows "zr_bits r = bits" "zr_prec r = precision" "word_supported bits" "128 \<le> precision"
    "transform_shape bits (zr_transform r)" "precision \<le> max_prec \<Longrightarrow> ring_ok r"
  using assms build_ok [of bits precision]
  by (auto simp: new_with_precision_def root_fraction_bits_def ring_ok_def ok_iff split: if_splits)

lemma new_ring_wide: "new_ring bits = Inr r \<Longrightarrow> ring_wide r"
  using new_ring_parts [of bits default_precision r]
  by (auto simp: new_ring_def ring_wide_def default_precision_def word_supported_def max_prec_def)

lemma new_ring_exists: "word_supported bits \<Longrightarrow> \<exists>r. new_ring bits = Inr r"
  using build_ok [of bits default_precision]
  by (auto simp: new_ring_def new_with_precision_def default_precision_def root_fraction_bits_def)

lemma represents_valid: "represents r p w \<Longrightarrow> ring_validate r p = Inr ()"
proof -
  assume "represents r p w"
  then obtain cs where r: "ring_ok r" and p: "p = ring_polynomial r cs" and op: "operand (zr_bits r) (zr_bits r) (2 ^ 20) cs"
    by (auto simp: represents_def)
  show "ring_validate r p = Inr ()"
    unfolding p by (rule validate_operand [OF r operand_mono [OF op, of "zr_bits r + 1" "2 ^ 20"]])
      (use room [OF r, of "2 ^ 20" "zr_bits r + 1"] in simp_all)
qed

text \<open>
  Above the largest precision the floats of a ring are narrower than the ring's own precision.
\<close>

lemma validate_clamped:
  assumes "max_prec < zr_prec r" and "0 < zr_bits r"
  shows "\<not> is_ok (ring_validate r p)"
proof (cases "po_coefficients p")
  case Nil
  then show ?thesis using assms by (simp add: ring_validate_def)
next
  case (Cons c cs)
  then show ?thesis using assms by (simp add: ring_validate_def set_prec_def)
qed

lemma encode_clamped_panics:
  assumes "max_prec < zr_prec r" and "0 < zr_bits r"
  shows "arithmetic_encode r w = Inl Panic"
proof -
  obtain f where "ring_validate r (binary_encode r w) = Inl f"
    using validate_clamped [OF assms, of "binary_encode r w"] by (cases "ring_validate r (binary_encode r w)") auto
  then show ?thesis by (simp add: arithmetic_encode_def ring_mul_def validate_pair_def)
qed

text \<open>The transform accepts every encoding and fills the n/2 slots of a word.\<close>

lemma encoded_root_slots:
  assumes "new_with_precision bits precision = Inr r" and "precision \<le> max_prec"
  shows "\<exists>slots. and_then (arithmetic_encode r w) (to_root_slots r) = Inr slots \<and> length slots = bits div 2"
    and "\<exists>slots. arithmetic_root_slots r w = Inr slots \<and> length slots = bits div 2"
proof -
  obtain p where p: "arithmetic_encode r w = Inr p" "represents r p w"
    using arithmetic_encode_represents [OF new_ring_parts(6) [OF assms]] by blast
  have "ring_validate r p = Inr ()" by (rule represents_valid [OF p(2)])
  then show "\<exists>slots. and_then (arithmetic_encode r w) (to_root_slots r) = Inr slots \<and> length slots = bits div 2"
    "\<exists>slots. arithmetic_root_slots r w = Inr slots \<and> length slots = bits div 2"
    using p(1) new_ring_parts(5) [OF assms(1)] by (simp_all add: to_root_slots_def arithmetic_root_slots_def transform_shape_def)
qed

section \<open>Computing with the rings of New\<close>

text \<open>
  C3. Computation with encodings is computation modulo 2^n: evaluating any expression over words
  with the encoder and the Add, Sub and MulArithmetic of a ring from New and decoding the result
  never fails and gives the expression's machine value modulo the word size.
\<close>

theorem arithmetic_expressions_exact:
  assumes "new_ring bits = Inr r"
  shows "and_then (run_expr (arithmetic_encode r) (add_arithmetic r) (sub_arithmetic r) (mul_arithmetic r) e)
           (decode_arithmetic r) = Inr (take_bit bits (word_value e))"
  using z2n.run_expr_decode [OF new_ring_wide [OF assms]] new_ring_parts(1) assms
  by (auto simp: new_ring_def)

lemma arithmetic_expressions_exact_witness:
  "\<exists>r. new_ring 64 = Inr r \<and>
     and_then (run_expr (arithmetic_encode r) (add_arithmetic r) (sub_arithmetic r) (mul_arithmetic r)
         (Times (Minus (Constant 3) (Constant 5)) (Constant 7)))
       (decode_arithmetic r) = Inr (take_bit 64 (- 14))"
proof -
  obtain r where r: "new_ring 64 = Inr r" using new_ring_exists [of 64] by (auto simp: word_supported_def)
  from arithmetic_expressions_exact [OF r, of "Times (Minus (Constant 3) (Constant 5)) (Constant 7)"] r
  show ?thesis by simp
qed

text \<open>
  C21. The arithmetic encoding of a word decodes to the word reduced to the ring's size, at every
  supported size and every precision from the 128 bits of the root table to the largest precision of
  a float. NewWithPrecision also admits larger precisions; there the encoder panics, because the
  floats of the ring have a clamped precision that its own validation rejects.
\<close>

theorem arithmetic_roundtrip:
  assumes "new_with_precision bits precision = Inr r"
  shows "and_then (arithmetic_encode r w) (decode_arithmetic r) =
    (if precision \<le> max_prec then Inr (take_bit bits w) else Inl Panic)"
proof (cases "precision \<le> max_prec")
  case True
  then show ?thesis
    using arithmetic_encode_represents [OF new_ring_parts(6) [OF assms True], of w] decode_represents
      new_ring_parts(1) [OF assms] by auto
next
  case False
  have "arithmetic_encode r w = Inl Panic"
    by (rule encode_clamped_panics)
      (use False new_ring_parts(2,3) [OF assms] new_ring_parts(1) [OF assms] in \<open>auto simp: word_supported_def\<close>)
  then show ?thesis using False by simp
qed

lemma arithmetic_roundtrip_witness:
  "\<exists>r s. new_with_precision 8 128 = Inr r \<and>
     and_then (arithmetic_encode r 300) (decode_arithmetic r) = Inr 44 \<and>
     new_with_precision 64 (2 ^ 32) = Inr s \<and>
     and_then (arithmetic_encode s 300) (decode_arithmetic s) = Inl Panic"
proof -
  obtain r where r: "new_with_precision 8 128 = Inr r"
    using new_with_precision_iff [of 8 128] by (auto simp: word_supported_def)
  obtain s where s: "new_with_precision 64 (2 ^ 32) = Inr s"
    using new_with_precision_iff [of 64 "2 ^ 32"] by (auto simp: word_supported_def)
  from arithmetic_roundtrip [OF r, of 300] arithmetic_roundtrip [OF s, of 300] r s show ?thesis
    by (simp add: max_prec_def)
qed

text \<open>
  The sums, differences and products of encodings that CanonicalizeArithmetic returns lie in
  the half-open interval (epsilon - 1, epsilon] of the canonical representatives.
\<close>

theorem arithmetic_results_canonical:
  assumes "new_ring bits = Inr r" and "arithmetic_encode r a = Inr p" and "arithmetic_encode r b = Inr q"
    and "f \<in> {add_arithmetic, sub_arithmetic, mul_arithmetic}"
  shows "\<exists>s. f r p q = Inr s \<and> canonical r s"
proof -
  have wide: "ring_wide r" by (rule new_ring_wide [OF assms(1)])
  then have "represents r p a" "represents r q b"
    using arithmetic_encode_represents [OF wide_ok, of r a] arithmetic_encode_represents [OF wide_ok, of r b]
      assms(2,3) by simp_all
  then show ?thesis
    using add_sub_represents mul_represents [OF wide] assms(4) by fast
qed

lemma arithmetic_results_canonical_witness:
  "\<exists>r p q s. new_ring 16 = Inr r \<and> arithmetic_encode r 40000 = Inr p \<and> arithmetic_encode r 7 = Inr q \<and>
     mul_arithmetic r p q = Inr s \<and> canonical r s"
proof -
  obtain r where r: "new_ring 16 = Inr r" using new_ring_exists [of 16] by (auto simp: word_supported_def)
  obtain p q where pq: "arithmetic_encode r 40000 = Inr p" "arithmetic_encode r 7 = Inr q"
    using arithmetic_encode_represents [OF wide_ok [OF new_ring_wide [OF r]]] by blast
  from arithmetic_results_canonical [OF r pq, of mul_arithmetic] r pq show ?thesis by auto
qed

end
