(* ===== verification/Signed8Models.thy ===== *)
theory Signed8Models
  imports Signed8Range Z2nTransform TreeEvalCorrect
begin

text \<open>
  The public models of the secure evaluation slices and their plaintext oracles:
  \<^verbatim>\<open>route_b_signed8_root_tree_model.go\<close>, \<^verbatim>\<open>route_b_signed8_depth2_node_batch_model.go\<close>,
  \<^verbatim>\<open>route_b_signed8_radix4_model.go\<close>, \<^verbatim>\<open>route_b_signed8_depth2_selected_child_model.go\<close> and the
  equivalence proof of \<^verbatim>\<open>route_b_signed8_radix4.go\<close> in \<^verbatim>\<open>integer/secureeval\<close>. A \<^verbatim>\<open>float64\<close> is its
  bit pattern; Go's arrays of three and four are tuples.
\<close>

section \<open>Arrays, floats and bytes\<close>

type_synonym 'a array3 = "'a \<times> 'a \<times> 'a"
type_synonym 'a array4 = "'a \<times> 'a \<times> 'a \<times> 'a"

fun list3 :: "'a array3 \<Rightarrow> 'a list" where
  "list3 (a, b, c) = [a, b, c]"

fun list4 :: "'a array4 \<Rightarrow> 'a list" where
  "list4 (a, b, c, d) = [a, b, c, d]"

definition f64_abs :: "64 word \<Rightarrow> 64 word" where
  "f64_abs x = x AND 0x7FFFFFFFFFFFFFFF"

text \<open>The float64 constants \<^verbatim>\<open>1 << 20\<close>, \<^verbatim>\<open>1 << 21\<close> and \<^verbatim>\<open>1 << 22\<close>.\<close>

definition max_leaf_magnitude :: "64 word" where
  "max_leaf_magnitude = 0x4130000000000000"

definition max_delta_magnitude :: "64 word" where
  "max_delta_magnitude = 0x4140000000000000"

definition max_coefficient_magnitude :: "64 word" where
  "max_coefficient_magnitude = 0x4150000000000000"

definition f64_unbounded :: "64 word \<Rightarrow> 64 word \<Rightarrow> bool" where
  "f64_unbounded bound x \<longleftrightarrow> f64_nan x \<or> f64_inf x \<or> f64_lt bound (f64_abs x)"

definition le64 :: "64 word \<Rightarrow> byte list" where
  "le64 w = rev (be64 w)"

definition le32 :: "32 word \<Rightarrow> byte list" where
  "le32 w = rev (be32 w)"

section \<open>Errors\<close>

datatype model_error =
  RootThreshold int
| RootLeaf string
| RootLeafDelta
| RootIdentity
| RootRange signed8_error
| RootRangeChanged
| RootThresholdNotFixed
| RootInput int
| Depth2Threshold int nat
| Depth2Leaf nat
| Depth2LeafDelta
| Depth2Identity
| Depth2LeafIdentity
| Depth2Range nat signed8_error
| Depth2RangeChanged nat
| Depth2ThresholdNotFixed nat
| Depth2Feature int nat
| Depth2AlignmentSlots nat
| Radix4Threshold int nat
| Radix4NotIncreasing
| Radix4Leaf nat
| Radix4LeafDelta
| Radix4Identity
| Radix4LeafIdentity
| Radix4RangeError signed8_error
| Radix4Range nat
| Radix4Feature
| Radix4UnaryCode
| Radix4ForeignModel
| Radix4Differ int
| Radix4ThresholdEncoding z2n_error
| Radix4ThresholdWord nat z2n_error
| Radix4ThresholdSlots
| SelectedThreshold int nat
| SelectedLeaf nat
| SelectedCoefficient
| SelectedIdentity
| SelectedLeafIdentity
| SelectedRange nat signed8_error
| SelectedRangeChanged nat
| SelectedFeatureAbsent "32 word"
| SelectedFeatureRange "32 word" nat

section \<open>The root tree\<close>

record root_model =
  rm_threshold :: int
  rm_left_leaf :: "64 word"
  rm_right_leaf :: "64 word"
  rm_digest :: string

definition root_model_schema :: string where
  "root_model_schema = ''lcpdte-route-b-signed8-root-tree-model-v1''"

definition digest_root_model :: "root_model \<Rightarrow> string" where
  "digest_root_model m = hex_string (sha256 (ascii root_model_schema @ [0] @
     le64 (word_of_int (rm_threshold m)) @ le64 (rm_left_leaf m) @ le64 (rm_right_leaf m)))"

text \<open>The two leaves are checked in the order of a Go map; left first is one of its orders.\<close>

definition new_root_model :: "int \<Rightarrow> 64 word \<Rightarrow> 64 word \<Rightarrow> (model_error, root_model) res" where
  "new_root_model threshold left_leaf right_leaf =
     (if threshold < -128 \<or> threshold > 127 then err (RootThreshold threshold)
      else and_then (check_each (\<lambda>_ (name, value). reject_if (f64_unbounded max_leaf_magnitude value) (RootLeaf name)) 0
             [(''left'', left_leaf), (''right'', right_leaf)]) (\<lambda>_.
      let delta = f64_sub right_leaf left_leaf in
      if f64_unbounded max_delta_magnitude delta then err RootLeafDelta
      else let model = \<lparr>rm_threshold = threshold, rm_left_leaf = left_leaf, rm_right_leaf = right_leaf, rm_digest = []\<rparr>
        in Inr (model\<lparr>rm_digest := digest_root_model model\<rparr>)))"

definition validate_root_model :: "root_model \<Rightarrow> (model_error, unit) res" where
  "validate_root_model m =
     and_then (new_root_model (rm_threshold m) (rm_left_leaf m) (rm_right_leaf m)) (\<lambda>expected.
     reject_if (rm_digest m = [] \<or> rm_digest m \<noteq> rm_digest expected \<or>
       rm_left_leaf m \<noteq> rm_left_leaf expected \<or> rm_right_leaf m \<noteq> rm_right_leaf expected) RootIdentity)"

text \<open>The comparison of a certificate with the one its endpoints reconstruct.\<close>

definition range_fields_changed :: "signed8_range \<Rightarrow> bool" where
  "range_fields_changed r \<longleftrightarrow> sr_word_bits r \<noteq> 8 \<or> sr_signedness r \<noteq> twos_complement \<or>
     sr_predicate r \<noteq> greater_than_or_equal \<or> sr_children r \<noteq> zero_lt_one_ge \<or>
     sr_proof_status r \<noteq> internally_derived_endpoint_interval \<or>
     sr_overflow r \<noteq> same_width_subtraction_no_overflow"

definition reconstruct_range :: "signed8_range \<Rightarrow> (signed8_error, signed8_range) res" where
  "reconstruct_range r = new_signed8_range (sr_x_min r) (sr_x_max r) (sr_t_min r) (sr_t_max r)"

definition validate_root_inputs :: "signed8_range \<Rightarrow> root_model \<Rightarrow> (model_error, unit) res" where
  "validate_root_inputs r m =
     and_then (validate_root_model m) (\<lambda>_.
     and_then (map_err RootRange (reconstruct_range r)) (\<lambda>reconstructed.
     if sr_digest r = [] \<or> sr_digest r \<noteq> sr_digest reconstructed \<or> range_fields_changed r \<or>
        sr_difference_min r \<noteq> sr_difference_min reconstructed \<or> sr_difference_max r \<noteq> sr_difference_max reconstructed
     then err RootRangeChanged
     else reject_if (sr_t_min r \<noteq> rm_threshold m \<or> sr_t_max r \<noteq> rm_threshold m) RootThresholdNotFixed))"

definition root_oracle :: "int \<Rightarrow> signed8_range \<Rightarrow> root_model \<Rightarrow> (model_error, 64 word \<times> int) res" where
  "root_oracle value r m =
     and_then (validate_root_inputs r m) (\<lambda>_.
     if value < sr_x_min r \<or> value > sr_x_max r then err (RootInput value)
     else if value \<ge> rm_threshold m then Inr (rm_right_leaf m, 1) else Inr (rm_left_leaf m, 0))"

definition broadcast_oracle :: "64 word array4 \<Rightarrow> 64 word array4" where
  "broadcast_oracle input = (let v = list4 input ! 3 in (v, v, v, v))"

section \<open>The node batch of depth two\<close>

record depth2_model =
  dm_thresholds :: "int array3"
  dm_leaves :: "64 word array4"
  dm_digest :: string

definition depth2_model_schema :: string where
  "depth2_model_schema = ''lcpdte-route-b-signed8-depth2-node-batch-model-v1''"

definition digest_thresholds_leaves :: "string \<Rightarrow> int array3 \<Rightarrow> 64 word array4 \<Rightarrow> byte list" where
  "digest_thresholds_leaves schema ts ls = ascii schema @ [0] @
     concat (map (\<lambda>t. le64 (word_of_int t)) (list3 ts)) @ concat (map le64 (list4 ls))"

definition digest_depth2_model :: "depth2_model \<Rightarrow> string" where
  "digest_depth2_model m =
     hex_string (sha256 (digest_thresholds_leaves depth2_model_schema (dm_thresholds m) (dm_leaves m)))"

definition new_depth2_model :: "int array3 \<Rightarrow> 64 word array4 \<Rightarrow> (model_error, depth2_model) res" where
  "new_depth2_model thresholds leaves =
     and_then (check_each (\<lambda>index threshold. reject_if (threshold < -128 \<or> threshold > 127)
         (Depth2Threshold threshold index)) 0 (list3 thresholds)) (\<lambda>_.
     and_then (check_each (\<lambda>index leaf. reject_if (f64_unbounded max_leaf_magnitude leaf) (Depth2Leaf index)) 0
         (list4 leaves)) (\<lambda>_.
     and_then (check_each (\<lambda>_ (i, j). reject_if (f64_unbounded max_delta_magnitude
         (f64_sub (list4 leaves ! i) (list4 leaves ! j))) Depth2LeafDelta) 0 [(1, 0), (2, 0), (3, 2)]) (\<lambda>_.
     let model = \<lparr>dm_thresholds = thresholds, dm_leaves = leaves, dm_digest = []\<rparr>
     in Inr (model\<lparr>dm_digest := digest_depth2_model model\<rparr>))))"

definition validate_depth2_model :: "depth2_model \<Rightarrow> (model_error, unit) res" where
  "validate_depth2_model m =
     and_then (new_depth2_model (dm_thresholds m) (dm_leaves m)) (\<lambda>expected.
     if dm_digest m = [] \<or> dm_digest m \<noteq> dm_digest expected \<or> dm_thresholds m \<noteq> dm_thresholds expected
     then err Depth2Identity
     else reject_if (dm_leaves m \<noteq> dm_leaves expected) Depth2LeafIdentity)"

definition validate_depth2_inputs :: "signed8_range array3 \<Rightarrow> depth2_model \<Rightarrow> (model_error, unit) res" where
  "validate_depth2_inputs ranges m =
     and_then (validate_depth2_model m) (\<lambda>_.
     check_each (\<lambda>index admitted.
       and_then (map_err (Depth2Range index) (reconstruct_range admitted)) (\<lambda>reconstructed.
       if sr_digest admitted = [] \<or> sr_digest admitted \<noteq> sr_digest reconstructed \<or> range_fields_changed admitted \<or>
          sr_difference_min admitted \<noteq> sr_difference_min reconstructed \<or>
          sr_difference_max admitted \<noteq> sr_difference_max reconstructed
       then err (Depth2RangeChanged index)
       else let threshold = list3 (dm_thresholds m) ! index in
         reject_if (sr_t_min admitted \<noteq> threshold \<or> sr_t_max admitted \<noteq> threshold) (Depth2ThresholdNotFixed index)))
       0 (list3 ranges))"

definition depth2_oracle ::
  "int array3 \<Rightarrow> signed8_range array3 \<Rightarrow> depth2_model \<Rightarrow> (model_error, 64 word \<times> 8 word \<times> 8 word list) res" where
  "depth2_oracle features ranges m =
     and_then (validate_depth2_inputs ranges m) (\<lambda>_.
     and_then (map_each (\<lambda>index feature.
         let range = list3 ranges ! index in
         if feature < sr_x_min range \<or> feature > sr_x_max range then err (Depth2Feature feature index)
         else Inr (if feature \<ge> list3 (dm_thresholds m) ! index then 1 else 0 :: 8 word)) 0 (list3 features)) (\<lambda>branches.
     let path = 2 * branches ! 0 + (if branches ! 0 = 0 then branches ! 1 else branches ! 2)
     in Inr (list4 (dm_leaves m) ! unat path, path, branches)))"

definition batch_slots :: nat where
  "batch_slots = 2048"

definition batch_queries :: nat where
  "batch_queries = 170"

definition words_per_query :: nat where
  "words_per_query = 3"

definition align_target ::
  "64 word list \<Rightarrow> nat \<Rightarrow> 64 word list array3 \<Rightarrow> 64 word list array3" where
  "align_target ge target = (\<lambda>(xs, ys, zs).
     (xs[target := ge ! target], ys[target := ge ! (target + 4)], zs[target := ge ! (target + 8)]))"

definition align_oracle :: "64 word list \<Rightarrow> (model_error, 64 word list array3) res" where
  "align_oracle ge =
     (if length ge \<noteq> batch_slots then err (Depth2AlignmentSlots (length ge))
      else let zeros = replicate (length ge) 0 in
        Inr (fold (\<lambda>query. let root_word = words_per_query * query in
               fold (\<lambda>slot. align_target ge (4 * root_word + slot)) [0..<4]) [0..<batch_queries] (zeros, zeros, zeros)))"

section \<open>The radix-4 node\<close>

record radix4_model =
  r4_thresholds :: "int array3"
  r4_leaves :: "64 word array4"
  r4_digest :: string

definition radix4_model_schema :: string where
  "radix4_model_schema = ''lcpdte-route-b-signed8-radix4-model-v1''"

definition digest_radix4_model :: "radix4_model \<Rightarrow> string" where
  "digest_radix4_model m =
     hex_string (sha256 (digest_thresholds_leaves radix4_model_schema (r4_thresholds m) (r4_leaves m)))"

definition new_radix4_model :: "int array3 \<Rightarrow> 64 word array4 \<Rightarrow> (model_error, radix4_model) res" where
  "new_radix4_model thresholds leaves =
     and_then (check_each (\<lambda>index threshold.
         if threshold < -128 \<or> threshold > 127 then err (Radix4Threshold threshold index)
         else reject_if (index > 0 \<and> list3 thresholds ! (index - 1) \<ge> threshold) Radix4NotIncreasing) 0
         (list3 thresholds)) (\<lambda>_.
     and_then (check_each (\<lambda>index leaf.
         if f64_unbounded max_leaf_magnitude leaf then err (Radix4Leaf index)
         else reject_if (index > 0 \<and> f64_unbounded max_delta_magnitude (f64_sub leaf (list4 leaves ! (index - 1))))
           Radix4LeafDelta) 0 (list4 leaves)) (\<lambda>_.
     let model = \<lparr>r4_thresholds = thresholds, r4_leaves = leaves, r4_digest = []\<rparr>
     in Inr (model\<lparr>r4_digest := digest_radix4_model model\<rparr>)))"

definition validate_radix4_model :: "radix4_model \<Rightarrow> (model_error, unit) res" where
  "validate_radix4_model m =
     and_then (new_radix4_model (r4_thresholds m) (r4_leaves m)) (\<lambda>expected.
     if r4_digest m = [] \<or> r4_digest m \<noteq> r4_digest expected \<or> r4_thresholds m \<noteq> r4_thresholds expected
     then err Radix4Identity
     else reject_if (r4_leaves m \<noteq> r4_leaves expected) Radix4LeafIdentity)"

definition validate_radix4_inputs :: "signed8_range array3 \<Rightarrow> radix4_model \<Rightarrow> (model_error, unit) res" where
  "validate_radix4_inputs ranges m =
     and_then (validate_radix4_model m) (\<lambda>_.
     check_each (\<lambda>index admitted.
       and_then (map_err Radix4RangeError (reconstruct_range admitted)) (\<lambda>reconstructed.
       let threshold = list3 (r4_thresholds m) ! index in
       reject_if (sr_digest admitted = [] \<or> sr_digest admitted \<noteq> sr_digest reconstructed \<or>
         sr_t_min admitted \<noteq> threshold \<or> sr_t_max admitted \<noteq> threshold \<or>
         sr_x_min admitted \<noteq> -96 \<or> sr_x_max admitted \<noteq> 95) (Radix4Range index)))
       0 (list3 ranges))"

definition radix4_oracle ::
  "int \<Rightarrow> signed8_range array3 \<Rightarrow> radix4_model \<Rightarrow> (model_error, 64 word \<times> 8 word \<times> 8 word list) res" where
  "radix4_oracle feature ranges m =
     and_then (validate_radix4_inputs ranges m) (\<lambda>_.
     if feature < -96 \<or> feature > 95 then err Radix4Feature
     else let predicates = map (\<lambda>threshold. if feature \<ge> threshold then 1 else 0) (list3 (r4_thresholds m));
              path = sum_list predicates
       in if predicates ! 0 < predicates ! 1 \<or> predicates ! 1 < predicates ! 2 \<or> path > 3 then err Radix4UnaryCode
          else Inr (list4 (r4_leaves m) ! unat path, path, predicates))"

definition canonical_thresholds :: "int array3" where
  "canonical_thresholds = (-32, 0, 32)"

text \<open>The float64 patterns of -3.25, -0.75, 2.5 and 5.125.\<close>

definition canonical_leaves :: "64 word array4" where
  "canonical_leaves = (0xC00A000000000000, 0xBFE8000000000000, 0x4004000000000000, 0x4014800000000000)"

definition canonical_models ::
  "(model_error, radix4_model \<times> signed8_range array3 \<times> depth2_model \<times> signed8_range array3) res" where
  "canonical_models =
     and_then (new_radix4_model canonical_thresholds canonical_leaves) (\<lambda>m.
     and_then (map_each (\<lambda>_ threshold. map_err Radix4RangeError (new_signed8_range (-96) 95 threshold threshold)) 0
       (list3 (r4_thresholds m))) (\<lambda>ranges.
     let ts = list3 (r4_thresholds m) in
     and_then (new_depth2_model (ts ! 1, ts ! 0, ts ! 2) (r4_leaves m)) (\<lambda>binary_model.
     Inr (m, (ranges ! 0, ranges ! 1, ranges ! 2), binary_model, (ranges ! 1, ranges ! 0, ranges ! 2)))))"

definition radix4_input_values :: "int list" where
  "radix4_input_values =
     (let values = map (\<lambda>index. -96 + int ((37 * index) mod 192)) [0..<170];
          edges = [-96, -32, -31, -1, 0, 1, 31, 32, 33, 95]
      in edges @ drop (length edges) values)"

definition radix4_input_words :: "int list" where
  "radix4_input_words =
     (let ws = concat (map (\<lambda>value. [value, value, value]) radix4_input_values)
      in ws @ replicate (512 - length ws) 0)"

definition radix4_input_schema :: string where
  "radix4_input_schema = ''lcpdte-route-b-signed8-radix4-input-v1''"

definition radix4_input_digest :: string where
  "radix4_input_digest = hex_string (sha256 (ascii radix4_input_schema @ [0] @
     concat (map (\<lambda>(index, value). le64 (word_of_nat index) @ le64 (word_of_int value))
       (enumerate 0 radix4_input_words))))"

text \<open>The threshold operand: the root slots of 512 arithmetic encodings.\<close>

definition radix4_threshold_slots :: "radix4_model \<Rightarrow> (model_error, bf_complex list) res" where
  "radix4_threshold_slots m =
     and_then (map_err Radix4ThresholdEncoding (new_with_precision 8 256)) (\<lambda>ring.
     and_then (map_each (\<lambda>word _.
         let threshold = (if word < 170 * 3 then list3 (r4_thresholds m) ! (word mod 3) else 0)
         in map_err (Radix4ThresholdWord word) (and_then
              (arithmetic_encode ring (ucast (word_of_int threshold :: 8 word))) (to_root_slots ring)))
       0 (replicate 512 ())) (\<lambda>blocks.
     let values = concat blocks in
     if length values \<noteq> 2048 then err Radix4ThresholdSlots else Inr values))"

text \<open>
  The exhaustive comparison of the two oracles over the certified domain, whose rows the source
  then digests as JSON: an object of two strings and two integers and an array of arrays.
\<close>

definition equivalence_row ::
  "signed8_range array3 \<Rightarrow> radix4_model \<Rightarrow> signed8_range array3 \<Rightarrow> depth2_model \<Rightarrow> int \<Rightarrow> (model_error, 64 word list) res" where
  "equivalence_row ranges m binary_ranges binary_model value =
     and_then (radix4_oracle value ranges m) (\<lambda>(leaf, path, predicates).
     and_then (depth2_oracle (value, value, value) binary_ranges binary_model) (\<lambda>(binary_leaf, binary_path, branches).
     if path \<noteq> binary_path \<or> leaf \<noteq> binary_leaf then err (Radix4Differ value)
     else Inr [word_of_int value, ucast path, leaf, ucast (predicates ! 0), ucast (predicates ! 1), ucast (predicates ! 2),
       ucast (4 * branches ! 0 + 2 * branches ! 1 + branches ! 2)]))"

definition equivalence_rows :: "radix4_model \<Rightarrow> (model_error, 64 word list list) res" where
  "equivalence_rows m =
     and_then canonical_models (\<lambda>(canonical, ranges, binary_model, binary_ranges).
     if r4_digest m \<noteq> r4_digest canonical then err Radix4ForeignModel
     else map_each (\<lambda>_. equivalence_row ranges m binary_ranges binary_model) 0 [-96..95])"

definition json_string :: "string \<Rightarrow> string" where
  "json_string s = CHR 0x22 # s @ [CHR 0x22]"

definition json_field :: "string \<Rightarrow> string \<Rightarrow> string" where
  "json_field name v = json_string name @ '':'' @ v"

fun comma_separated :: "string list \<Rightarrow> string" where
  "comma_separated [] = []"
| "comma_separated [x] = x"
| "comma_separated (x # y # xs) = x @ '','' @ comma_separated (y # xs)"

definition json_array :: "string list \<Rightarrow> string" where
  "json_array xs = ''['' @ comma_separated xs @ '']''"

definition equivalence_json :: "string \<Rightarrow> string \<Rightarrow> 64 word list list \<Rightarrow> string" where
  "equivalence_json radix_digest binary_digest rows =
     ''{'' @ comma_separated
       [json_field ''Schema'' (json_string ''lcpdte-route-b-signed8-radix4-equivalence-proof-v1''),
        json_field ''RadixDigest'' (json_string radix_digest), json_field ''BinaryDigest'' (json_string binary_digest),
        json_field ''Minimum'' (show_int (-96)), json_field ''Maximum'' (show_int 95),
        json_field ''Rows'' (json_array (map (\<lambda>row. json_array (map (\<lambda>v. show_nat (unat v)) row)) rows))] @ ''}''"

definition equivalence_proof_digest :: "radix4_model \<Rightarrow> (model_error, string) res" where
  "equivalence_proof_digest m =
     and_then (equivalence_rows m) (\<lambda>rows.
     and_then canonical_models (\<lambda>(_, _, binary_model, _).
     Inr (hex_string (sha256 (ascii (equivalence_json (r4_digest m) (dm_digest binary_model) rows))))))"

section \<open>The selected child\<close>

record selected_model =
  sm_feature_ids :: "32 word array3"
  sm_thresholds :: "int array3"
  sm_leaves :: "64 word array4"
  sm_digest :: string

definition selected_model_schema :: string where
  "selected_model_schema = ''lcpdte-route-b-signed8-depth2-selected-child-model-v1''"

definition digest_selected_model :: "selected_model \<Rightarrow> string" where
  "digest_selected_model m = hex_string (sha256 (ascii selected_model_schema @ [0] @
     concat (map le32 (list3 (sm_feature_ids m))) @
     concat (map (\<lambda>t. le64 (word_of_int t)) (list3 (sm_thresholds m))) @ concat (map le64 (list4 (sm_leaves m)))))"

definition leaf_coefficients :: "64 word array4 \<Rightarrow> 64 word array3" where
  "leaf_coefficients leaves = (let l = list4 leaves in
     (f64_sub (l ! 2) (l ! 0), f64_sub (l ! 1) (l ! 0),
      f64_add (f64_sub (f64_sub (l ! 3) (l ! 2)) (l ! 1)) (l ! 0)))"

definition new_selected_model ::
  "32 word array3 \<Rightarrow> int array3 \<Rightarrow> 64 word array4 \<Rightarrow> (model_error, selected_model) res" where
  "new_selected_model feature_ids thresholds leaves =
     and_then (check_each (\<lambda>index threshold. reject_if (threshold < -128 \<or> threshold > 127)
         (SelectedThreshold threshold index)) 0 (list3 thresholds)) (\<lambda>_.
     and_then (check_each (\<lambda>index leaf. reject_if (f64_unbounded max_leaf_magnitude leaf) (SelectedLeaf index)) 0
         (list4 leaves)) (\<lambda>_.
     and_then (check_each (\<lambda>_ v. reject_if (f64_unbounded max_coefficient_magnitude v) SelectedCoefficient) 0
         (list3 (leaf_coefficients leaves))) (\<lambda>_.
     let model = \<lparr>sm_feature_ids = feature_ids, sm_thresholds = thresholds, sm_leaves = leaves, sm_digest = []\<rparr>
     in Inr (model\<lparr>sm_digest := digest_selected_model model\<rparr>))))"

definition validate_selected_model :: "selected_model \<Rightarrow> (model_error, unit) res" where
  "validate_selected_model m =
     and_then (new_selected_model (sm_feature_ids m) (sm_thresholds m) (sm_leaves m)) (\<lambda>expected.
     if sm_digest m = [] \<or> sm_digest m \<noteq> sm_digest expected \<or> sm_feature_ids m \<noteq> sm_feature_ids expected \<or>
        sm_thresholds m \<noteq> sm_thresholds expected
     then err SelectedIdentity
     else reject_if (sm_leaves m \<noteq> sm_leaves expected) SelectedLeafIdentity)"

definition validate_selected_ranges :: "signed8_range array3 \<Rightarrow> selected_model \<Rightarrow> (model_error, unit) res" where
  "validate_selected_ranges ranges m =
     and_then (validate_selected_model m) (\<lambda>_.
     check_each (\<lambda>index admitted.
       and_then (map_err (SelectedRange index) (reconstruct_range admitted)) (\<lambda>reconstructed.
       let threshold = list3 (sm_thresholds m) ! index in
       reject_if (sr_digest admitted = [] \<or> sr_digest admitted \<noteq> sr_digest reconstructed \<or> range_fields_changed admitted \<or>
         sr_t_min admitted \<noteq> threshold \<or> sr_t_max admitted \<noteq> threshold) (SelectedRangeChanged index)))
       0 (list3 ranges))"

definition selected_oracle ::
  "(32 word \<Rightarrow> int option) \<Rightarrow> signed8_range array3 \<Rightarrow> selected_model \<Rightarrow>
   (model_error, 64 word \<times> 8 word \<times> 8 word \<times> 8 word) res" where
  "selected_oracle features ranges m =
     and_then (validate_selected_ranges ranges m) (\<lambda>_.
     and_then (map_each (\<lambda>role feature_id.
         case features feature_id of None \<Rightarrow> err (SelectedFeatureAbsent feature_id)
         | Some value \<Rightarrow> let range = list3 ranges ! role in
             if value < sr_x_min range \<or> value > sr_x_max range then err (SelectedFeatureRange feature_id role)
             else Inr value) 0 (list3 (sm_feature_ids m))) (\<lambda>values.
     let ts = list3 (sm_thresholds m);
         root_branch = (if values ! 0 \<ge> ts ! 0 then 1 else 0 :: 8 word);
         child_role = 1 + unat root_branch;
         child_branch = (if values ! child_role \<ge> ts ! child_role then 1 else 0);
         path = 2 * root_branch + child_branch
     in Inr (list4 (sm_leaves m) ! unat path, path, root_branch, child_branch)))"

section \<open>Models and certificates the constructors issue\<close>

lemma new_range_valid:
  assumes "new_signed8_range x_min x_max t_min t_max = Inr r"
  shows "reconstruct_range r = Inr r" "\<not> range_fields_changed r"
  using assms
  by (auto simp: reconstruct_range_def range_fields_changed_def new_signed8_range_def Let_def and_then_ok split: if_splits)

lemma hex_digest_nonempty: "hex_string (sha256 bs) \<noteq> []"
proof -
  have "length (hex_string (sha256 bs)) = 64" by simp
  then show ?thesis by (metis list.size(3) zero_neq_numeral)
qed

lemma new_radix4_model_fields:
  assumes "new_radix4_model ts ls = Inr m"
  shows "r4_thresholds m = ts" "r4_leaves m = ls" "validate_radix4_model m = Inr ()" "r4_digest m \<noteq> []"
proof -
  show f: "r4_thresholds m = ts" "r4_leaves m = ls" and d: "r4_digest m \<noteq> []"
    using assms by (auto simp: new_radix4_model_def Let_def and_then_ok digest_radix4_model_def hex_digest_nonempty)
  have "new_radix4_model (r4_thresholds m) (r4_leaves m) = Inr m" using assms f by simp
  then show "validate_radix4_model m = Inr ()" using d by (simp add: validate_radix4_model_def)
qed

lemma new_radix4_model_increasing:
  assumes "new_radix4_model (t0, t1, t2) ls = Inr m"
  shows "t0 < t1" "t1 < t2" "-128 \<le> t0" "t2 \<le> 127"
proof -
  let ?check = "\<lambda>index threshold. if threshold < -128 \<or> threshold > 127 then err (Radix4Threshold threshold index)
    else reject_if (index > 0 \<and> list3 (t0, t1, t2) ! (index - 1) \<ge> threshold) Radix4NotIncreasing"
  have "check_each ?check 0 [t0, t1, t2] = Inr ()"
    using assms unfolding new_radix4_model_def and_then_ok
    by (simp only: list3.simps) (blast dest: unit_res_ok [THEN iffD1])
  then show "t0 < t1" "t1 < t2" "-128 \<le> t0" "t2 \<le> 127"
    by (auto simp: and_then_ok reject_if_ok split: if_splits)
qed

lemma new_depth2_model_fields:
  assumes "new_depth2_model ts ls = Inr m"
  shows "dm_thresholds m = ts" "dm_leaves m = ls" "validate_depth2_model m = Inr ()" "dm_digest m \<noteq> []"
proof -
  show f: "dm_thresholds m = ts" "dm_leaves m = ls" and d: "dm_digest m \<noteq> []"
    using assms by (auto simp: new_depth2_model_def Let_def and_then_ok digest_depth2_model_def hex_digest_nonempty)
  have "new_depth2_model (dm_thresholds m) (dm_leaves m) = Inr m" using assms f by simp
  then show "validate_depth2_model m = Inr ()" using d by (simp add: validate_depth2_model_def)
qed

lemma new_selected_model_fields:
  assumes "new_selected_model ids ts ls = Inr m"
  shows "sm_feature_ids m = ids" "sm_thresholds m = ts" "sm_leaves m = ls" "validate_selected_model m = Inr ()" "sm_digest m \<noteq> []"
proof -
  show f: "sm_feature_ids m = ids" "sm_thresholds m = ts" "sm_leaves m = ls" and d: "sm_digest m \<noteq> []"
    using assms by (auto simp: new_selected_model_def Let_def and_then_ok digest_selected_model_def hex_digest_nonempty)
  have "new_selected_model (sm_feature_ids m) (sm_thresholds m) (sm_leaves m) = Inr m" using assms f by simp
  then show "validate_selected_model m = Inr ()" using d by (simp add: validate_selected_model_def)
qed

definition issued_range :: "int \<Rightarrow> int \<Rightarrow> int \<Rightarrow> signed8_range \<Rightarrow> bool" where
  "issued_range x_min x_max t r \<longleftrightarrow> new_signed8_range x_min x_max t t = Inr r"

lemma issued_rangeD:
  assumes "issued_range x_min x_max t r"
  shows "reconstruct_range r = Inr r" "\<not> range_fields_changed r" "sr_digest r \<noteq> []"
    "sr_x_min r = x_min" "sr_x_max r = x_max" "sr_t_min r = t" "sr_t_max r = t"
  using assms new_range_valid [of x_min x_max t t r] new_signed8_range_fields [of x_min x_max t t r]
  by (simp_all add: issued_range_def)

lemma radix4_inputs_valid:
  assumes "new_radix4_model (t0, t1, t2) ls = Inr m"
    and "issued_range (-96) 95 t0 r0" "issued_range (-96) 95 t1 r1" "issued_range (-96) 95 t2 r2"
  shows "validate_radix4_inputs (r0, r1, r2) m = Inr ()"
  using new_radix4_model_fields [OF assms(1)] issued_rangeD [OF assms(2)] issued_rangeD [OF assms(3)]
    issued_rangeD [OF assms(4)]
  by (simp add: validate_radix4_inputs_def)

lemma depth2_inputs_valid:
  assumes "new_depth2_model (t0, t1, t2) ls = Inr m"
    and "issued_range a0 b0 t0 r0" "issued_range a1 b1 t1 r1" "issued_range a2 b2 t2 r2"
  shows "validate_depth2_inputs (r0, r1, r2) m = Inr ()"
  using new_depth2_model_fields [OF assms(1)] issued_rangeD [OF assms(2)] issued_rangeD [OF assms(3)]
    issued_rangeD [OF assms(4)]
  by (simp add: validate_depth2_inputs_def)

lemma selected_inputs_valid:
  assumes "new_selected_model ids (t0, t1, t2) ls = Inr m"
    and "issued_range a0 b0 t0 r0" "issued_range a1 b1 t1 r1" "issued_range a2 b2 t2 r2"
  shows "validate_selected_ranges (r0, r1, r2) m = Inr ()"
  using new_selected_model_fields [OF assms(1)] issued_rangeD [OF assms(2)] issued_rangeD [OF assms(3)]
    issued_rangeD [OF assms(4)]
  by (simp add: validate_selected_ranges_def)

section \<open>The oracles in closed form\<close>

definition branch_bit :: "int \<Rightarrow> int \<Rightarrow> 8 word" where
  "branch_bit x t = (if x \<ge> t then 1 else 0)"

lemma radix4_oracle_value:
  assumes m: "new_radix4_model (t0, t1, t2) (l0, l1, l2, l3) = Inr m"
    and r: "issued_range (-96) 95 t0 r0" "issued_range (-96) 95 t1 r1" "issued_range (-96) 95 t2 r2"
    and x: "-96 \<le> x" "x \<le> 95"
  shows "radix4_oracle x (r0, r1, r2) m =
    Inr (if x < t0 then l0 else if x < t1 then l1 else if x < t2 then l2 else l3,
      if x < t0 then 0 else if x < t1 then 1 else if x < t2 then 2 else 3,
      [branch_bit x t0, branch_bit x t1, branch_bit x t2])"
  using radix4_inputs_valid [OF m r] new_radix4_model_fields [OF m] new_radix4_model_increasing [OF m] x
  by (simp add: radix4_oracle_def branch_bit_def not_less)

lemma depth2_oracle_value:
  assumes m: "new_depth2_model (t0, t1, t2) (l0, l1, l2, l3) = Inr m"
    and r: "issued_range a0 b0 t0 r0" "issued_range a1 b1 t1 r1" "issued_range a2 b2 t2 r2"
    and x: "a0 \<le> x0" "x0 \<le> b0" "a1 \<le> x1" "x1 \<le> b1" "a2 \<le> x2" "x2 \<le> b2"
  shows "depth2_oracle (x0, x1, x2) (r0, r1, r2) m =
    Inr (if x0 < t0 then (if x1 < t1 then l0 else l1) else (if x2 < t2 then l2 else l3),
      if x0 < t0 then (if x1 < t1 then 0 else 1) else (if x2 < t2 then 2 else 3),
      [branch_bit x0 t0, branch_bit x1 t1, branch_bit x2 t2])"
  using depth2_inputs_valid [OF m r] new_depth2_model_fields [OF m] x issued_rangeD(4,5) [OF r(1)]
    issued_rangeD(4,5) [OF r(2)] issued_rangeD(4,5) [OF r(3)]
  by (simp add: depth2_oracle_def branch_bit_def not_less)

section \<open>The oracles and the reference trees\<close>

text \<open>The signed value of a feature or threshold, and the complete tree of a node batch.\<close>

definition int64_scalar :: "int \<Rightarrow> scalar" where
  "int64_scalar x = Num KInt64 (word_of_int x)"

definition batch_tree :: "int array3 \<Rightarrow> 64 word array4 \<Rightarrow> binary_tree" where
  "batch_tree ts ls = \<lparr>bt_depth = 2,
     bt_splits = map2 (\<lambda>feature t. \<lparr>bs_feature = feature, bs_threshold = int64_scalar t\<rparr>) [0, 1, 2] (list3 ts),
     bt_leaves = map f64_scalar (list4 ls)\<rparr>"

lemma bounded_leaf_finite: "\<not> f64_unbounded bound x \<Longrightarrow> finite_scalar (f64_scalar x)"
  by (simp add: f64_unbounded_def f64_scalar_def finite_scalar_def f64_finite_def f64_nan_def f64_inf_def fp_finite_iff)

lemma int64_scalar_lt:
  assumes "go_int x" "go_int t"
  shows "scalar_lt (int64_scalar x) (int64_scalar t) \<longleftrightarrow> x < t"
proof -
  have "sint (word_of_int z :: 64 word) = z" if "go_int z" for z
    using that unfolding sint_sbintrunc' by (simp add: go_int_def signed_take_bit_int_eq_self)
  then show ?thesis using assms by (simp add: int64_scalar_def scalar_lt_def word_sless_alt)
qed

lemma new_depth2_model_bounds:
  assumes "new_depth2_model (t0, t1, t2) (l0, l1, l2, l3) = Inr m"
  shows "go_int t0" "go_int t1" "go_int t2"
    "list_all (\<lambda>l. finite_scalar (f64_scalar l)) [l0, l1, l2, l3]"
  using assms bounded_leaf_finite
  by (auto simp: new_depth2_model_def Let_def and_then_ok reject_if_ok go_int_def)

lemma batch_tree_evaluates:
  assumes m: "new_depth2_model (t0, t1, t2) (l0, l1, l2, l3) = Inr m" and x: "go_int x0" "go_int x1" "go_int x2"
  shows "binary_evaluate (batch_tree (t0, t1, t2) (l0, l1, l2, l3)) (map int64_scalar [x0, x1, x2]) =
    Inr (f64_scalar (if x0 < t0 then (if x1 < t1 then l0 else l1) else (if x2 < t2 then l2 else l3)))"
proof -
  let ?t = "batch_tree (t0, t1, t2) (l0, l1, l2, l3)" and ?xs = "map int64_scalar [x0, x1, x2]"
  note b = new_depth2_model_bounds [OF m]
  have "finite_scalar (int64_scalar z)" for z by (simp add: finite_scalar_def int64_scalar_def)
  then have "binary_wf ?t" "list_all finite_scalar ?xs"
    using b(4) by (simp_all add: binary_wf_def batch_tree_def split_ok_def)
  then have "binary_evaluate ?t ?xs = Inr (bt_leaves ?t ! heap_walk (bt_splits ?t) ?xs 2)"
    using binary_evaluate_walk [of ?t ?xs] by (simp add: batch_tree_def)
  also have "heap_walk (bt_splits ?t) ?xs 2 =
      (if x0 < t0 then (if x1 < t1 then 0 else 1) else (if x2 < t2 then 2 else 3))"
    using x b(1-3) by (simp add: batch_tree_def numeral_2_eq_2 branch_of_def int64_scalar_lt)
  finally show ?thesis by (simp add: batch_tree_def)
qed

text \<open>
  C5. The radix-4 node, the binary node batch compiled from it and BinaryTree.Evaluate on the same
  tree agree: on every feature of the certified domain both oracles succeed with the leaf the
  reference tree selects and with the same path, whatever increasing thresholds the node has. The
  source establishes this by running through the 192 features of one model.
\<close>

theorem radix4_equals_binary:
  assumes "new_radix4_model (t0, t1, t2) ls = Inr m" and "new_depth2_model (t1, t0, t2) ls = Inr b"
    and "new_signed8_range (-96) 95 t0 t0 = Inr r0" "new_signed8_range (-96) 95 t1 t1 = Inr r1"
      "new_signed8_range (-96) 95 t2 t2 = Inr r2"
    and "-96 \<le> x" "x \<le> 95"
  shows "\<exists>leaf path predicates branches.
    radix4_oracle x (r0, r1, r2) m = Inr (leaf, path, predicates) \<and>
    depth2_oracle (x, x, x) (r1, r0, r2) b = Inr (leaf, path, branches) \<and>
    binary_evaluate (batch_tree (t1, t0, t2) ls) (replicate 3 (int64_scalar x)) = Inr (f64_scalar leaf)"
proof -
  obtain l0 l1 l2 l3 where ls: "ls = (l0, l1, l2, l3)" by (cases ls)
  note models = assms(1,2) [unfolded ls]
  note ranges = assms(3-5) [folded issued_range_def]
  have x: "go_int x" using assms(6,7) by (simp add: go_int_def)
  have "replicate 3 (int64_scalar x) = map int64_scalar [x, x, x]" by (simp add: numeral_3_eq_3)
  then show ?thesis
    using radix4_oracle_value [OF models(1) ranges assms(6,7)]
      depth2_oracle_value [OF models(2) ranges(2,1,3) assms(6,7,6,7,6,7)]
      batch_tree_evaluates [OF models(2) x x x] new_radix4_model_increasing [OF models(1)]
    by (simp add: ls)
qed

text \<open>
  C15. The selected-child oracle compares one child only, yet returns the leaf and path of the node
  batch, which compares all three nodes.
\<close>

theorem selected_child_equals_batch:
  assumes "new_selected_model (i0, i1, i2) (t0, t1, t2) ls = Inr s" and "new_depth2_model (t0, t1, t2) ls = Inr b"
    and "new_signed8_range a0 b0 t0 t0 = Inr r0" "new_signed8_range a1 b1 t1 t1 = Inr r1"
      "new_signed8_range a2 b2 t2 t2 = Inr r2"
    and "features i0 = Some x0" "features i1 = Some x1" "features i2 = Some x2"
    and "x0 \<in> {a0..b0}" "x1 \<in> {a1..b1}" "x2 \<in> {a2..b2}"
  shows "\<exists>leaf path root_branch child_branch branches.
    selected_oracle features (r0, r1, r2) s = Inr (leaf, path, root_branch, child_branch) \<and>
    depth2_oracle (x0, x1, x2) (r0, r1, r2) b = Inr (leaf, path, branches) \<and>
    binary_evaluate (batch_tree (t0, t1, t2) ls) (map int64_scalar [x0, x1, x2]) = Inr (f64_scalar leaf)"
proof -
  obtain l0 l1 l2 l3 where ls: "ls = (l0, l1, l2, l3)" by (cases ls)
  note models = assms(1,2) [unfolded ls]
  note ranges = assms(3-5) [folded issued_range_def]
  have x: "go_int x0" "go_int x1" "go_int x2"
    using assms(9-11) new_signed8_range_fields(1) [OF assms(3)] new_signed8_range_fields(1) [OF assms(4)]
      new_signed8_range_fields(1) [OF assms(5)] by (simp_all add: go_int_def range_admissible_def)
  have "selected_oracle features (r0, r1, r2) s =
      Inr (if x0 < t0 then (if x1 < t1 then l0 else l1) else (if x2 < t2 then l2 else l3),
        if x0 < t0 then (if x1 < t1 then 0 else 1) else (if x2 < t2 then 2 else 3),
        branch_bit x0 t0, if x0 < t0 then branch_bit x1 t1 else branch_bit x2 t2)"
    using selected_inputs_valid [OF models(1) ranges] new_selected_model_fields [OF models(1)] assms(6-11)
      issued_rangeD(4,5) [OF ranges(1)] issued_rangeD(4,5) [OF ranges(2)] issued_rangeD(4,5) [OF ranges(3)]
    by (simp add: selected_oracle_def branch_bit_def not_less)
  then show ?thesis
    using depth2_oracle_value [OF models(2) ranges, of x0 x1 x2] assms(9-11)
      batch_tree_evaluates [OF models(2) x] by (simp add: ls)
qed

section \<open>Samples\<close>

definition sample_leaves :: "64 word array4" where
  "sample_leaves = (0, 0, f64_one, f64_one)"

lemma sample_leaf_bounds:
  "\<not> f64_unbounded max_leaf_magnitude 0" "\<not> f64_unbounded max_leaf_magnitude f64_one"
  "\<not> f64_unbounded max_delta_magnitude 0" "\<not> f64_unbounded max_delta_magnitude f64_one"
  "\<not> f64_unbounded max_coefficient_magnitude 0" "\<not> f64_unbounded max_coefficient_magnitude f64_one"
  by (simp_all add: f64_unbounded_def f64_nan_def f64_inf_def f64_lt_def f64_abs_def fp_lt_key fp_nan_def fp_inf_def
      fp_exp_def fp_abs_def fp_frac_def fp_key_def fp_neg_def f64_one_def max_leaf_magnitude_def
      max_delta_magnitude_def max_coefficient_magnitude_def)

lemma f64_add_zero_zero: "f64_add 0 0 = 0"
  by (simp add: f64_add_def fp_add_def fp_nan_def fp_inf_def fp_exp_def fp_abs_def fp_frac_def fp_val_def fp_neg_def
      fp_mag_def fp_sign_bit_def)

lemma sample_models:
  "\<exists>m. new_radix4_model (-32, 0, 32) sample_leaves = Inr m"
  "\<exists>b. new_depth2_model (0, -32, 32) sample_leaves = Inr b"
  "\<exists>s. new_selected_model (7, 8, 9) (0, -32, 32) sample_leaves = Inr s"
  using sample_leaf_bounds f64_sub_selectors f64_add_zero_zero
  by (simp_all add: new_radix4_model_def new_depth2_model_def new_selected_model_def sample_leaves_def
      leaf_coefficients_def Let_def)

lemma sample_ranges: "- 32 \<le> t \<Longrightarrow> t \<le> 32 \<Longrightarrow> \<exists>r. new_signed8_range (-96) 95 t t = Inr r"
  using new_signed8_range_ok [of "-96" 95 t t] by (auto simp: is_ok_iff range_admissible_def)

lemma radix4_equals_binary_witness:
  "\<exists>m b r0 r1 r2 leaf path predicates branches.
     new_radix4_model (-32, 0, 32) sample_leaves = Inr m \<and> new_depth2_model (0, -32, 32) sample_leaves = Inr b \<and>
     radix4_oracle 17 (r0, r1, r2) m = Inr (leaf, path, predicates) \<and>
     depth2_oracle (17, 17, 17) (r1, r0, r2) b = Inr (leaf, path, branches)"
proof -
  obtain m b where mb: "new_radix4_model (-32, 0, 32) sample_leaves = Inr m"
    "new_depth2_model (0, -32, 32) sample_leaves = Inr b" using sample_models by blast
  obtain r0 r1 r2 where "new_signed8_range (-96) 95 (-32) (-32) = Inr r0" "new_signed8_range (-96) 95 0 0 = Inr r1"
    "new_signed8_range (-96) 95 32 32 = Inr r2" using sample_ranges [of 0] sample_ranges [of "- 32"] sample_ranges [of 32] by auto
  from radix4_equals_binary [OF mb this, of 17] mb show ?thesis by force
qed

lemma selected_child_equals_batch_witness:
  "\<exists>s b r0 r1 r2 leaf path root_branch child_branch branches.
     new_selected_model (7, 8, 9) (0, -32, 32) sample_leaves = Inr s \<and>
     new_depth2_model (0, -32, 32) sample_leaves = Inr b \<and>
     selected_oracle [7 \<mapsto> 5, 8 \<mapsto> -40, 9 \<mapsto> 60] (r0, r1, r2) s = Inr (leaf, path, root_branch, child_branch) \<and>
     depth2_oracle (5, -40, 60) (r0, r1, r2) b = Inr (leaf, path, branches)"
proof -
  obtain s b where sb: "new_selected_model (7, 8, 9) (0, -32, 32) sample_leaves = Inr s"
    "new_depth2_model (0, -32, 32) sample_leaves = Inr b" using sample_models by blast
  obtain r0 r1 r2 where "new_signed8_range (-96) 95 0 0 = Inr r0" "new_signed8_range (-96) 95 (-32) (-32) = Inr r1"
    "new_signed8_range (-96) 95 32 32 = Inr r2" using sample_ranges [of 0] sample_ranges [of "- 32"] sample_ranges [of 32] by auto
  from selected_child_equals_batch [OF sb this, of "[7 \<mapsto> 5, 8 \<mapsto> -40, 9 \<mapsto> 60]" 5 "-40" 60] sb
  show ?thesis by force
qed

section \<open>Alignment as masking and rotation\<close>

definition mask_role :: "nat \<Rightarrow> 64 word list \<Rightarrow> 64 word list" where
  "mask_role role ge = map (\<lambda>i. if i < 4 * words_per_query * batch_queries \<and> i div 4 mod words_per_query = role
     then ge ! i else 0) [0..<length ge]"

definition align_targets :: "nat list" where
  "align_targets = concat (map (\<lambda>query. map (\<lambda>slot. 4 * (words_per_query * query) + slot) [0..<4]) [0..<batch_queries])"

lemma twelve: "4 * (3 * q) = 12 * (q :: nat)"
  by simp

lemma align_targets_set: "i \<in> set align_targets \<longleftrightarrow> i < 2040 \<and> i div 4 mod 3 = 0"
proof -
  have "i \<in> set align_targets \<longleftrightarrow> (\<exists>q \<in> {0..<170}. \<exists>s \<in> {0..<4}. i = 4 * (3 * q) + s)"
    unfolding align_targets_def words_per_query_def batch_queries_def set_concat set_map set_upt image_image by blast
  also have "\<dots> \<longleftrightarrow> (\<exists>q < 170. \<exists>s < 4. i = 12 * q + s)"
    unfolding Bex_def atLeastLessThan_iff twelve by blast
  also have "\<dots> \<longleftrightarrow> i < 2040 \<and> i div 4 mod 3 = 0"
  proof
    assume i: "i < 2040 \<and> i div 4 mod 3 = 0"
    then obtain m where "i div 4 = 3 * m" by blast
    then have "i = 12 * m + i mod 4" using div_mult_mod_eq [of i 4] by linarith
    moreover have "i mod 4 < 4" by simp
    moreover have "m < 170" using \<open>i = 12 * m + i mod 4\<close> i by linarith
    ultimately show "\<exists>q < 170. \<exists>s < 4. i = 12 * q + s" by blast
  next
    assume "\<exists>q < 170. \<exists>s < 4. i = 12 * q + s"
    then obtain q s where qs: "q < 170" "s < 4" "i = 12 * q + s" by blast
    then have "i div 4 = 3 * q" by simp
    then show "i < 2040 \<and> i div 4 mod 3 = 0" using qs by simp
  qed
  finally show ?thesis .
qed

lemma fold_concat: "fold f (concat xss) = fold (fold f) xss"
  by (induction xss) simp_all

lemma fold_align:
  "fold (align_target ge) ts (xs, ys, zs) =
    (fold (\<lambda>t xs. xs[t := ge ! t]) ts xs, fold (\<lambda>t xs. xs[t := ge ! (t + 4)]) ts ys,
     fold (\<lambda>t xs. xs[t := ge ! (t + 8)]) ts zs)"
  by (induction ts arbitrary: xs ys zs) (simp_all add: align_target_def)

lemma fold_updates_length: "length (fold (\<lambda>t xs. xs[t := f t]) ts xs) = length xs"
  by (induction ts arbitrary: xs) simp_all

lemma fold_updates_nth:
  "i < length xs \<Longrightarrow> fold (\<lambda>t xs. xs[t := f t]) ts xs ! i = (if i \<in> set ts then f i else xs ! i)"
proof (induction ts arbitrary: xs)
  case (Cons t ts)
  then show ?case by (cases "i = t") simp_all
qed simp

lemma fold_updates_zeros:
  "fold (\<lambda>t xs. xs[t := f t]) align_targets (replicate 2048 0) =
     map (\<lambda>i. if i < 2040 \<and> i div 4 mod 3 = 0 then f i else 0) [0..<2048]"
  by (rule nth_equalityI) (simp_all add: fold_updates_length fold_updates_nth align_targets_set)

lemma less_3_cases: "k < 3 \<Longrightarrow> k = 0 \<or> k = 1 \<or> k = (2::nat)"
  by linarith

lemma align_step:
  fixes k i :: nat
  assumes "k < 3"
  shows "4 * k + i < 2040 \<and> (4 * k + i) div 4 mod 3 = k \<longleftrightarrow> i < 2040 \<and> i div 4 mod 3 = 0"
proof -
  define q where "q = i div 4"
  have q: "(4 * k + i) div 4 = k + q" "i < 2040 \<longleftrightarrow> q < 510" "4 * k + i < 2040 \<longleftrightarrow> k + q < 510"
    by (auto simp: q_def)
  have "(k + q) mod 3 = k \<longleftrightarrow> q mod 3 = 0" using less_3_cases [OF assms] by presburger
  moreover have "k + q < 510 \<longleftrightarrow> q < 510" if "q mod 3 = 0"
  proof -
    obtain m where "q = 3 * m" using \<open>q mod 3 = 0\<close> by blast
    then show ?thesis using assms by auto
  qed
  ultimately show ?thesis unfolding q(1) q_def [symmetric] q(2,3) by (cases "q mod 3 = 0") simp_all
qed

text \<open>
  The alignment oracle is what its comment says the circuit does: mask the words of one role
  and rotate left by four slots for the left child and eight for the right one.
\<close>

theorem align_is_mask_rotate:
  assumes "length ge = batch_slots"
  shows "align_oracle ge = Inr (mask_role 0 ge, rotate 4 (mask_role 1 ge), rotate 8 (mask_role 2 ge))"
proof -
  have len: "length ge = 2048" using assms by (simp add: batch_slots_def)
  have "align_oracle ge = Inr (fold (align_target ge) align_targets
      (replicate 2048 0, replicate 2048 0, replicate 2048 0))"
    by (simp add: align_oracle_def batch_slots_def len align_targets_def fold_concat fold_map comp_def Let_def)
  moreover have role: "map (\<lambda>i. if i < 2040 \<and> i div 4 mod 3 = 0 then ge ! (i + d) else 0) [0..<2048] =
      rotate d (mask_role k ge)" if k: "k < 3" and d: "d = 4 * k" for k d
    unfolding d
  proof (rule nth_equalityI)
    fix i assume "i < length (map (\<lambda>i. if i < 2040 \<and> i div 4 mod 3 = 0 then ge ! (i + 4 * k) else 0) [0..<2048])"
    then have i: "i < 2048" by simp
    have "rotate (4 * k) (mask_role k ge) ! i = mask_role k ge ! ((4 * k + i) mod 2048)"
      using i len by (simp add: nth_rotate mask_role_def)
    also have "\<dots> = (if (4 * k + i) mod 2048 < 2040 \<and> (4 * k + i) mod 2048 div 4 mod 3 = k
        then ge ! ((4 * k + i) mod 2048) else 0)"
      using len by (simp add: mask_role_def words_per_query_def batch_queries_def)
    also have "\<dots> = (if i < 2040 \<and> i div 4 mod 3 = 0 then ge ! (i + 4 * k) else 0)"
    proof (cases "4 * k + i < 2048")
      case True
      then have wrap: "(4 * k + i) mod 2048 = 4 * k + i" by simp
      show ?thesis unfolding wrap align_step [OF k] by (simp only: add.commute [of "4 * k" i])
    next
      case False
      then have wrap: "(4 * k + i) mod 2048 = 4 * k + i - 2048" using i k by (simp add: mod_if)
      have "i div 4 = 510 \<or> i div 4 = 511" using False i k by auto
      then have "(4 * k + i - 2048) div 4 mod 3 \<noteq> k" "\<not> i < 2040"
        using False less_3_cases [OF k] by auto
      then show ?thesis unfolding wrap by simp
    qed
    finally show "map (\<lambda>i. if i < 2040 \<and> i div 4 mod 3 = 0 then ge ! (i + 4 * k) else 0) [0..<2048] ! i =
        rotate (4 * k) (mask_role k ge) ! i" using i by simp
  qed (simp add: mask_role_def len)
  ultimately show ?thesis
    using role [of 0 0, unfolded add_0_right] role [of 1 4] role [of 2 8] by (simp add: fold_align fold_updates_zeros)
qed

lemma align_is_mask_rotate_witness:
  "align_oracle (replicate 2048 f64_one) = Inr (mask_role 0 (replicate 2048 f64_one),
     rotate 4 (mask_role 1 (replicate 2048 f64_one)), rotate 8 (mask_role 2 (replicate 2048 f64_one)))"
  by (rule align_is_mask_rotate) (simp add: batch_slots_def)

section \<open>The canonical model\<close>

lemma map_each_const_length: "map_each f i xs = Inr ys \<Longrightarrow> length ys = length xs"
  using map_each_ok_from [of f i xs ys] by simp

lemma canonical_models_parts:
  assumes "canonical_models = Inr (m, ranges, b, binary_ranges)"
  obtains r0 r1 r2 where "new_radix4_model (-32, 0, 32) canonical_leaves = Inr m"
    "new_depth2_model (0, -32, 32) canonical_leaves = Inr b"
    "ranges = (r0, r1, r2)" "binary_ranges = (r1, r0, r2)"
    "issued_range (-96) 95 (-32) r0" "issued_range (-96) 95 0 r1" "issued_range (-96) 95 32 r2"
  using assms new_radix4_model_fields [of canonical_thresholds canonical_leaves m]
  by (auto simp: canonical_models_def canonical_thresholds_def and_then_ok map_err_ok Let_def issued_range_def)

text \<open>
  The equivalence proof of the source runs to its end on the canonical model: one row for each of
  the 192 features, none of them a difference.
\<close>

lemma equivalence_rows_complete:
  assumes "canonical_models = Inr (m, ranges, b, binary_ranges)"
  shows "\<exists>rows. equivalence_rows m = Inr rows \<and> length rows = 192"
proof -
  obtain r0 r1 r2 where m: "new_radix4_model (-32, 0, 32) canonical_leaves = Inr m"
    and b: "new_depth2_model (0, -32, 32) canonical_leaves = Inr b"
    and rs: "ranges = (r0, r1, r2)" "binary_ranges = (r1, r0, r2)"
    and i: "issued_range (-96) 95 (-32) r0" "issued_range (-96) 95 0 r1" "issued_range (-96) 95 32 r2"
    by (rule canonical_models_parts [OF assms])
  obtain l0 l1 l2 l3 where ls: "canonical_leaves = (l0, l1, l2, l3)" by (simp add: canonical_leaves_def)
  let ?row = "\<lambda>x. [word_of_int x, ucast (if x < -32 then 0 else if x < 0 then 1 else if x < 32 then 2 else 3 :: 8 word),
     if x < -32 then l0 else if x < 0 then l1 else if x < 32 then l2 else l3,
     ucast (branch_bit x (-32)), ucast (branch_bit x 0), ucast (branch_bit x 32),
     ucast (4 * branch_bit x 0 + 2 * branch_bit x (-32) + branch_bit x 32)] :: 64 word list"
  have "equivalence_row ranges m binary_ranges b x = Inr (?row x)" if "x \<in> set [-96..95]" for x
  proof -
    have x: "-96 \<le> x" "x \<le> 95" using that unfolding set_upto atLeastAtMost_iff by blast+
    show ?thesis
      unfolding equivalence_row_def rs radix4_oracle_value [OF m [unfolded ls] i x]
        depth2_oracle_value [OF b [unfolded ls] i(2,1,3) x x x] and_then_simps
      by simp
  qed
  then have "map_each (\<lambda>_. equivalence_row ranges m binary_ranges b) 0 [-96..95] = Inr (map ?row [-96..95])"
    by (rule map_each_all_ok)
  then show ?thesis by (simp add: equivalence_rows_def assms)
qed

text \<open>The threshold operand is a full vector of root slots, whatever the model.\<close>

lemma threshold_slots_complete: "\<exists>values. radix4_threshold_slots m = Inr values \<and> length values = 2048"
proof -
  obtain r where r: "new_with_precision 8 256 = Inr r"
    using new_with_precision_iff [of 8 256] by (auto simp: word_supported_def)
  define block where "block word (u :: unit) = map_err (Radix4ThresholdWord word) (and_then (arithmetic_encode r
    (ucast (word_of_int (if word < 170 * 3 then list3 (r4_thresholds m) ! (word mod 3) else 0) :: 8 word)))
    (to_root_slots r))" for word u
  have slots: "radix4_threshold_slots m = and_then (map_each block 0 (replicate 512 ())) (\<lambda>blocks.
      if length (concat blocks) \<noteq> 2048 then err Radix4ThresholdSlots else Inr (concat blocks))"
    by (simp add: radix4_threshold_slots_def r block_def [abs_def] Let_def)
  have "\<exists>slots. block word () = Inr slots \<and> length slots = 4" for word
    using encoded_root_slots(1) [OF r] unfolding block_def by (fastforce simp: map_err_ok max_prec_def)
  then obtain g where g: "\<And>word. block word () = Inr (g word)" "\<And>word. length (g word) = 4" by metis
  have "map_each block i (replicate k ()) = Inr (map g [i..<i + k])" for i k
    by (induction k arbitrary: i) (simp_all add: g(1) upt_conv_Cons del: upt_Suc)
  from this [of 0 512] have run: "map_each block 0 (replicate 512 ()) = Inr (map g [0..<512])" by simp
  have "length (concat (map g ws)) = 4 * length ws" for ws by (induction ws) (simp_all add: g(2))
  then have "length (concat (map g [0..<512])) = 2048" by simp
  then show ?thesis unfolding slots run by simp
qed

end
