(* ===== verification/Signed8Reports.thy ===== *)
theory Signed8Reports
  imports Signed8Models
begin

text \<open>
  What a radix-4 report records of its inputs and of the exhaustive equivalence proof, and how
  Validate rebuilds the certificates and the model from it: the last part of
  \<^verbatim>\<open>integer/secureeval/route_b_signed8_radix4.go\<close> and the range report of
  \<^verbatim>\<open>route_b_signed8_root_tree.go\<close>. Formatted error texts are constructors.
\<close>

section \<open>Reports of the inputs\<close>

record range_report =
  rr_x_minimum :: int
  rr_x_maximum :: int
  rr_threshold_minimum :: int
  rr_threshold_maximum :: int
  rr_difference_minimum :: int
  rr_difference_maximum :: int
  rr_digest :: string

definition new_range_report :: "signed8_range \<Rightarrow> range_report" where
  "new_range_report r = \<lparr>rr_x_minimum = sr_x_min r, rr_x_maximum = sr_x_max r,
     rr_threshold_minimum = sr_t_min r, rr_threshold_maximum = sr_t_max r,
     rr_difference_minimum = sr_difference_min r, rr_difference_maximum = sr_difference_max r,
     rr_digest = sr_digest r\<rparr>"

record radix4_model_report =
  mr_thresholds :: "int array3"
  mr_leaves :: "64 word array4"
  mr_leaf_bits :: "64 word array4"
  mr_digest :: string

fun map_array3 :: "('a \<Rightarrow> 'b) \<Rightarrow> 'a array3 \<Rightarrow> 'b array3" where
  "map_array3 f (a, b, c) = (f a, f b, f c)"

definition new_radix4_range_reports :: "signed8_range array3 \<Rightarrow> range_report array3" where
  "new_radix4_range_reports ranges = map_array3 new_range_report ranges"

definition new_radix4_model_report :: "radix4_model \<Rightarrow> radix4_model_report" where
  "new_radix4_model_report m = \<lparr>mr_thresholds = r4_thresholds m, mr_leaves = r4_leaves m,
     mr_leaf_bits = r4_leaves m, mr_digest = r4_digest m\<rparr>"

datatype report_error =
  ReportRange signed8_error
| RangeReportChanged nat
| LeafSnapshotChanged nat
| ReportModel model_error
| ModelReportChanged
| AblationForeignModel
| AblationProofChanged

definition reconstruct_report_range :: "nat \<Rightarrow> range_report \<Rightarrow> (report_error, signed8_range) res" where
  "reconstruct_report_range index report =
     and_then (map_err ReportRange (new_signed8_range (rr_x_minimum report) (rr_x_maximum report)
         (rr_threshold_minimum report) (rr_threshold_maximum report))) (\<lambda>range.
     if sr_difference_min range \<noteq> rr_difference_minimum report \<or>
        sr_difference_max range \<noteq> rr_difference_maximum report \<or> sr_digest range \<noteq> rr_digest report
     then err (RangeReportChanged index) else Inr range)"

definition reconstruct_radix4_inputs ::
  "range_report array3 \<Rightarrow> radix4_model_report \<Rightarrow> (report_error, signed8_range array3 \<times> radix4_model) res" where
  "reconstruct_radix4_inputs range_reports model_report =
     and_then (map_each reconstruct_report_range 0 (list3 range_reports)) (\<lambda>ranges.
     and_then (check_each (\<lambda>index leaf. reject_if (leaf \<noteq> list4 (mr_leaf_bits model_report) ! index)
         (LeafSnapshotChanged index)) 0 (list4 (mr_leaves model_report))) (\<lambda>_.
     and_then (map_err ReportModel (new_radix4_model (mr_thresholds model_report) (mr_leaves model_report))) (\<lambda>m.
     if r4_digest m \<noteq> mr_digest model_report then err ModelReportChanged
     else Inr ((ranges ! 0, ranges ! 1, ranges ! 2), m))))"

section \<open>The ablation ledger\<close>

record ablation_ledger =
  al_binary_digest :: string
  al_proof_digest :: string
  al_domain_minimum :: int
  al_domain_maximum :: int
  al_binary_products :: int
  al_radix_products :: int
  al_removed_products :: int
  al_binary_relinearizations :: int
  al_radix_relinearizations :: int
  al_removed_relinearizations :: int
  al_binary_rescales :: int
  al_radix_rescales :: int
  al_removed_rescales :: int
  al_binary_level :: int
  al_radix_level :: int
  al_levels_saved :: int

definition expected_model_digest :: string where
  "expected_model_digest = ''7f10d686835d5e1c351a6641956cf259e8f23d445e7b5e819e93822064ab9c2d''"

definition expected_proof_digest :: string where
  "expected_proof_digest = ''8b0f5a894f5dee94afd061395a4b70282f628e751b7ddaaea7b0e7259dbd937e''"

definition expected_ablation :: "radix4_model \<Rightarrow> (report_error, ablation_ledger) res" where
  "expected_ablation m =
     and_then (map_err ReportModel canonical_models) (\<lambda>(canonical, _, binary_model, _).
     and_then (map_err ReportModel (validate_radix4_model m)) (\<lambda>_.
     if r4_digest m \<noteq> r4_digest canonical \<or> r4_digest m \<noteq> expected_model_digest then err AblationForeignModel
     else and_then (map_err ReportModel (equivalence_proof_digest m)) (\<lambda>proof_digest.
       if proof_digest \<noteq> expected_proof_digest then err AblationProofChanged
       else Inr \<lparr>al_binary_digest = dm_digest binary_model, al_proof_digest = proof_digest,
         al_domain_minimum = -96, al_domain_maximum = 95,
         al_binary_products = 3, al_radix_products = 0, al_removed_products = 3,
         al_binary_relinearizations = 3, al_radix_relinearizations = 0, al_removed_relinearizations = 3,
         al_binary_rescales = 3, al_radix_rescales = 0, al_removed_rescales = 3,
         al_binary_level = 0, al_radix_level = 1, al_levels_saved = 1\<rparr>)))"

section \<open>Reports determine their inputs\<close>

lemma reconstruct_report_range_issued:
  assumes "new_signed8_range a b c d = Inr r"
  shows "reconstruct_report_range i (new_range_report r) = Inr r"
  using assms new_signed8_range_fields [OF assms] by (simp add: reconstruct_report_range_def new_range_report_def)

text \<open>
  A report loses nothing of its inputs: from the reports of three issued certificates and a
  model the reconstruction returns exactly those certificates and that model.
\<close>

theorem reports_reconstruct:
  assumes "new_radix4_model ts ls = Inr m" and "new_signed8_range a0 b0 c0 d0 = Inr r0"
    and "new_signed8_range a1 b1 c1 d1 = Inr r1" and "new_signed8_range a2 b2 c2 d2 = Inr r2"
  shows "reconstruct_radix4_inputs (new_radix4_range_reports (r0, r1, r2)) (new_radix4_model_report m) =
    Inr ((r0, r1, r2), m)"
proof -
  note rs = assms(2-4) [THEN reconstruct_report_range_issued]
  have "check_each (\<lambda>index leaf. reject_if (leaf \<noteq> list4 ls ! index) (LeafSnapshotChanged index)) 0 (list4 ls) = Inr ()"
    by (cases ls) simp
  then show ?thesis
    using assms(1) new_radix4_model_fields [OF assms(1)]
    by (simp add: reconstruct_radix4_inputs_def new_radix4_range_reports_def new_radix4_model_report_def rs)
qed

lemma reports_reconstruct_witness:
  "\<exists>m r0 r1 r2. new_radix4_model (-32, 0, 32) sample_leaves = Inr m \<and>
     reconstruct_radix4_inputs (new_radix4_range_reports (r0, r1, r2)) (new_radix4_model_report m) = Inr ((r0, r1, r2), m)"
proof -
  obtain m where m: "new_radix4_model (-32, 0, 32) sample_leaves = Inr m" using sample_models(1) by blast
  obtain r where r: "new_signed8_range (-96) 95 0 0 = Inr r" using sample_ranges [of 0] by auto
  from reports_reconstruct [OF m r r r] m show ?thesis by blast
qed

text \<open>
  What the ledger says was saved is what the two columns of costs leave, and the proof it cites is
  the registered one.
\<close>

lemma ablation_consistent:
  assumes "expected_ablation m = Inr a"
  shows "al_removed_products a = al_binary_products a - al_radix_products a"
    "al_removed_relinearizations a = al_binary_relinearizations a - al_radix_relinearizations a"
    "al_removed_rescales a = al_binary_rescales a - al_radix_rescales a"
    "al_levels_saved a = al_radix_level a - al_binary_level a"
    "al_proof_digest a = expected_proof_digest" "r4_digest m = expected_model_digest"
  using assms by (auto simp: expected_ablation_def and_then_ok split: prod.splits if_splits)

end
