(* ===== verification/TransformSpec.thy ===== *)
theory TransformSpec
  imports Z2nTransform
begin

text \<open>
  The linear-transform layer of the homomorphic conversions: \<^verbatim>\<open>matrix.go\<close>, \<^verbatim>\<open>spec.go\<close> and
  \<^verbatim>\<open>z2n_adapter.go\<close> of \<^verbatim>\<open>integer/homchain\<close>. A finite big.Float is its precision with its value; a
  complex cell, and either part of it, may be nil in the matrices a caller passes. A Go map of
  diagonals is a partial map; where the source ranges over it, the order of its keys is an argument.
\<close>

section \<open>Complex cells\<close>

type_synonym pfloat = "nat \<times> rat"
type_synonym hp_complex = "pfloat \<times> pfloat"
type_synonym cell = "(pfloat option \<times> pfloat option) option"

definition hp_prec :: "hp_complex \<Rightarrow> nat" where
  "hp_prec c = max (fst (fst c)) (fst (snd c))"

definition hp_value :: "hp_complex \<Rightarrow> bf_complex" where
  "hp_value c = (snd (fst c), snd (snd c))"

definition hp_complex_of :: "nat \<Rightarrow> bf_complex \<Rightarrow> hp_complex" where
  "hp_complex_of p v = ((p, fst v), (p, snd v))"

definition cell_of :: "hp_complex \<Rightarrow> cell" where
  "cell_of c = Some (Some (fst c), Some (snd c))"

definition new_complex :: "nat \<Rightarrow> hp_complex" where
  "new_complex p = ((p, 0), (p, 0))"

definition real_complex :: "int \<Rightarrow> nat \<Rightarrow> hp_complex" where
  "real_complex v p = ((p, bf_round p (of_int v)), (p, 0))"

definition multiply_complex :: "hp_complex \<Rightarrow> hp_complex \<Rightarrow> hp_complex" where
  "multiply_complex lhs rhs =
     (let p = max (hp_prec lhs) (hp_prec rhs) in hp_complex_of p (complex_mul p (hp_value lhs) (hp_value rhs)))"

definition hp_add_complex :: "hp_complex \<Rightarrow> hp_complex \<Rightarrow> hp_complex" where
  "hp_add_complex lhs rhs =
     (let p = max (hp_prec lhs) (hp_prec rhs) in hp_complex_of p (complex_add p (hp_value lhs) (hp_value rhs)))"

definition is_zero :: "hp_complex \<Rightarrow> bool" where
  "is_zero c \<longleftrightarrow> snd (fst c) = 0 \<and> snd (snd c) = 0"

definition is_power_of_two :: "int \<Rightarrow> bool" where
  "is_power_of_two v \<longleftrightarrow> v > 0 \<and> and v (v - 1) = 0"

section \<open>Matrices\<close>

datatype spec_error =
  MatrixRows string nat nat
| MatrixColumns string nat nat nat
| MatrixCellNil string nat nat
| URows nat
| RowFactors nat nat
| RowFactorNil nat
| ColumnFactors nat nat
| ColumnFactorNil nat
| SpecialB0Rows
| WordCount int
| Dimension string nat
| FullSlotShape string int int
| PlaintextCount string nat int
| PlaintextNil string nat
| VectorLengths nat nat
| VectorNil nat
| Fuse string spec_error
| NilRing
| TauSlots z2n_error
| TauInverseSlots z2n_error

type_synonym hp_matrix = "hp_complex list list"
type_synonym raw_matrix = "cell list list"

fun cell_value :: "spec_error \<Rightarrow> cell \<Rightarrow> (spec_error, hp_complex) res" where
  "cell_value e (Some (Some x, Some y)) = Inr (x, y)"
| "cell_value e _ = err e"

definition raw_of :: "hp_matrix \<Rightarrow> raw_matrix" where
  "raw_of m = map (map cell_of) m"

text \<open>The validation; the accepted cells are the matrix every later step works on.\<close>

definition validate_matrix :: "raw_matrix \<Rightarrow> nat \<Rightarrow> nat \<Rightarrow> string \<Rightarrow> (spec_error, hp_matrix) res" where
  "validate_matrix m rows columns name =
     (if length m \<noteq> rows then err (MatrixRows name (length m) rows)
      else map_each (\<lambda>row cells.
        if length cells \<noteq> columns then err (MatrixColumns name row (length cells) columns)
        else map_each (\<lambda>column. cell_value (MatrixCellNil name row column)) 0 cells) 0 m)"

definition matrix_precision :: "hp_matrix \<Rightarrow> nat" where
  "matrix_precision m = fold (\<lambda>row p. fold (\<lambda>c p. if hp_prec c > p then hp_prec c else p) row p) m 53"

record matrix_set =
  ms_u0 :: raw_matrix
  ms_u1 :: raw_matrix
  ms_v0 :: raw_matrix
  ms_v1 :: raw_matrix

definition new_matrix_set :: "raw_matrix \<Rightarrow> raw_matrix \<Rightarrow> (spec_error, matrix_set) res" where
  "new_matrix_set u v =
     (let h = length u in
      if h < 2 \<or> \<not> is_power_of_two (int h) then err (URows h)
      else and_then (validate_matrix u h (2 * h) ''U'') (\<lambda>u.
        and_then (validate_matrix v (2 * h) h ''V'') (\<lambda>v.
        Inr \<lparr>ms_u0 = raw_of (map (take h) u), ms_u1 = raw_of (map (drop h) u),
             ms_v0 = raw_of (take h v), ms_v1 = raw_of (drop h v)\<rparr>)))"

definition scale_rows :: "hp_matrix \<Rightarrow> cell list \<Rightarrow> (spec_error, hp_matrix) res" where
  "scale_rows m factors =
     (if length m \<noteq> length factors then err (RowFactors (length factors) (length m))
      else map_each (\<lambda>row (cells, factor).
        and_then (cell_value (RowFactorNil row) factor) (\<lambda>f. Inr (map (multiply_complex f) cells)))
        0 (zip m factors))"

text \<open>The length error of an empty matrix would itself index its first row.\<close>

definition scale_columns :: "hp_matrix \<Rightarrow> cell list \<Rightarrow> (spec_error, hp_matrix) res" where
  "scale_columns m factors =
     (if m = [] then Inl Panic
      else if length (hd m) \<noteq> length factors then err (ColumnFactors (length factors) (length (hd m)))
      else map_each (\<lambda>_ cells. map_each (\<lambda>column (c, factor).
        and_then (cell_value (ColumnFactorNil column) factor) (\<lambda>f. Inr (multiply_complex c f)))
        0 (zip cells factors)) 0 m)"

definition special_b0 :: "hp_matrix \<Rightarrow> (spec_error, hp_matrix) res" where
  "special_b0 m =
     (if length m < 2 then err SpecialB0Rows
      else Inr (m[0 := map (multiply_complex (real_complex 2 (matrix_precision m))) (m ! 1)]))"

section \<open>Transform specifications\<close>

datatype transform_layout = RepeatedRowLayout | FullSlotBlockDiagonalLayout

type_synonym diagonals = "nat \<Rightarrow> hp_complex list option"

record transform_spec =
  ts_name :: string
  ts_layout :: transform_layout
  ts_log_rows :: int
  ts_log_cols :: int
  ts_diagonals :: diagonals
  ts_matrix :: hp_matrix
  ts_precision :: nat
  ts_word_count :: int
  ts_half_width :: int

text \<open>\<^verbatim>\<open>bits.Len(uint(v)) - 1\<close>.\<close>

definition log_dimension :: "int \<Rightarrow> int" where
  "log_dimension v = int (bitlen (nat v)) - 1"

definition spec_words :: "transform_spec \<Rightarrow> int" where
  "spec_words s = (if ts_word_count s \<noteq> 0 then ts_word_count s else 2 ^ nat (ts_log_rows s))"

definition spec_half_width :: "transform_spec \<Rightarrow> int" where
  "spec_half_width s = (if ts_half_width s \<noteq> 0 then ts_half_width s else 2 ^ nat (ts_log_cols s))"

definition repeated_diagonal :: "hp_matrix \<Rightarrow> nat \<Rightarrow> nat \<Rightarrow> nat \<Rightarrow> hp_complex list" where
  "repeated_diagonal m h words d =
     concat (map (\<lambda>word. map (\<lambda>row. m ! row ! (and (row + d) (h - 1))) [0..<h]) [0..<words])"

definition new_transform_spec :: "string \<Rightarrow> raw_matrix \<Rightarrow> int \<Rightarrow> (spec_error, transform_spec) res" where
  "new_transform_spec name m words =
     (let h = length m in
      if h = 0 \<or> \<not> is_power_of_two (int h) then err (Dimension name h)
      else and_then (validate_matrix m h h name) (\<lambda>m.
        if \<not> is_power_of_two words then err (WordCount words)
        else Inr \<lparr>ts_name = name, ts_layout = RepeatedRowLayout,
          ts_log_rows = log_dimension words, ts_log_cols = log_dimension (int h),
          ts_diagonals = (\<lambda>d. if d < h \<and> \<not> list_all is_zero (repeated_diagonal m h (nat words) d)
            then Some (repeated_diagonal m h (nat words) d) else None),
          ts_matrix = m, ts_precision = matrix_precision m, ts_word_count = words, ts_half_width = int h\<rparr>))"

text \<open>
  One offset of the flattening. The diagonal it writes to may exist already, when a positive and a
  negative offset of a single word collide.
\<close>

definition offset_index :: "nat \<Rightarrow> int \<Rightarrow> nat" where
  "offset_index slots offset = nat (if offset < 0 then offset + int slots else offset)"

definition offset_cells :: "hp_matrix \<Rightarrow> nat \<Rightarrow> nat \<Rightarrow> int \<Rightarrow> (nat \<times> hp_complex) list" where
  "offset_cells m h words offset =
     concat (map (\<lambda>word. concat (map (\<lambda>output_column.
       let input_column = int output_column + offset in
       if input_column < 0 \<or> input_column \<ge> int h then []
       else [(word * h + output_column, m ! output_column ! nat input_column)]) [0..<h])) [0..<words])"

definition full_slot_offset :: "hp_matrix \<Rightarrow> nat \<Rightarrow> nat \<Rightarrow> nat \<Rightarrow> int \<Rightarrow> diagonals \<Rightarrow> diagonals" where
  "full_slot_offset m precision h words offset ds =
     (let slots = words * h; index = offset_index slots offset;
          existing = ds index;
          start = (case existing of None \<Rightarrow> replicate slots (new_complex precision) | Some d \<Rightarrow> d);
          cells = offset_cells m h words offset;
          diagonal = fold (\<lambda>(i, c) d. d[i := c]) cells start
      in if list_ex (\<lambda>(i, c). \<not> is_zero c) cells \<or> existing \<noteq> None then ds(index \<mapsto> diagonal) else ds)"

definition diagonal_is_zero :: "hp_complex list \<Rightarrow> bool" where
  "diagonal_is_zero d = list_all is_zero d"

definition drop_zero_diagonals :: "diagonals \<Rightarrow> diagonals" where
  "drop_zero_diagonals ds = (\<lambda>i. case ds i of None \<Rightarrow> None | Some d \<Rightarrow> if diagonal_is_zero d then None else Some d)"

definition full_slot :: "transform_spec \<Rightarrow> (spec_error, transform_spec) res" where
  "full_slot s =
     (if ts_layout s = FullSlotBlockDiagonalLayout then Inr s
      else let words = spec_words s; h = spec_half_width s in
        if \<not> is_power_of_two words \<or> \<not> is_power_of_two h then err (FullSlotShape (ts_name s) words h)
        else and_then (validate_matrix (raw_of (ts_matrix s)) (nat h) (nat h) (ts_name s)) (\<lambda>_.
          Inr (s\<lparr>ts_layout := FullSlotBlockDiagonalLayout, ts_log_rows := 0,
            ts_log_cols := log_dimension (words * h),
            ts_diagonals := drop_zero_diagonals (fold (full_slot_offset (ts_matrix s) (ts_precision s) (nat h) (nat words))
              [-(h - 1)..h - 1] (\<lambda>_. None)),
            ts_word_count := words, ts_half_width := h\<rparr>)))"

section \<open>Plaintext evaluation\<close>

definition source_slot :: "transform_spec \<Rightarrow> nat \<Rightarrow> nat \<Rightarrow> nat" where
  "source_slot s k i =
     (let columns = nat (spec_half_width s); slots = nat (spec_words s * spec_half_width s) in
      if ts_layout s = FullSlotBlockDiagonalLayout then and (i + and k (slots - 1)) (slots - 1)
      else i - i mod columns + and (i mod columns + and k (columns - 1)) (columns - 1))"

definition evaluate_plaintext :: "nat list \<Rightarrow> transform_spec \<Rightarrow> cell list \<Rightarrow> (spec_error, hp_complex list) res" where
  "evaluate_plaintext keys s input =
     (let rows = spec_words s; columns = spec_half_width s in
      if int (length input) \<noteq> rows * columns then err (PlaintextCount (ts_name s) (length input) (rows * columns))
      else and_then (map_each (\<lambda>index. cell_value (PlaintextNil (ts_name s) index)) 0 input) (\<lambda>input.
        let slots = nat (rows * columns);
            step = (\<lambda>k result. case ts_diagonals s k of None \<Rightarrow> result
              | Some d \<Rightarrow> map (\<lambda>i. hp_add_complex (result ! i) (multiply_complex (d ! i) (input ! source_slot s k i))) [0..<slots])
        in Inr (fold step keys (replicate slots (new_complex (ts_precision s))))))"

definition project_real_plaintext :: "hp_complex list \<Rightarrow> hp_complex list" where
  "project_real_plaintext input = map (\<lambda>v. let p = hp_prec v in
     ((p, bf_mul p (snd (fst v)) (bf_round p 2)), (p, 0))) input"

definition add_plaintext :: "cell list \<Rightarrow> cell list \<Rightarrow> (spec_error, hp_complex list) res" where
  "add_plaintext lhs rhs =
     (if length lhs \<noteq> length rhs then err (VectorLengths (length lhs) (length rhs))
      else map_each (\<lambda>i (a, b). if a = None \<or> b = None then err (VectorNil i)
        else case (a, b) of (Some (Some x, Some y), Some (Some x', Some y')) \<Rightarrow> Inr (hp_add_complex (x, y) (x', y'))
          | _ \<Rightarrow> Inl Panic) 0 (zip lhs rhs))"

section \<open>The nine variants\<close>

record specifications =
  sp_u0 :: transform_spec
  sp_u1 :: transform_spec
  sp_v0 :: transform_spec
  sp_v1 :: transform_spec
  sp_v0_special_b0 :: transform_spec
  sp_u0_fused_t_inv :: transform_spec
  sp_u1_fused_t_inv :: transform_spec
  sp_v0_fused_t :: transform_spec
  sp_v1_fused_t :: transform_spec

text \<open>The four input matrices are validated in the order of a Go map; U0 first is one of its orders.\<close>

definition new_specifications ::
  "matrix_set \<Rightarrow> int \<Rightarrow> cell list \<Rightarrow> cell list \<Rightarrow> (spec_error, specifications) res" where
  "new_specifications ms words t_slots t_inv_slots =
     (if \<not> is_power_of_two words then err (WordCount words)
      else let h = length (ms_u0 ms) in
        and_then (validate_matrix (ms_u0 ms) h h ''U0'') (\<lambda>u0.
        and_then (validate_matrix (ms_u1 ms) h h ''U1'') (\<lambda>u1.
        and_then (validate_matrix (ms_v0 ms) h h ''V0'') (\<lambda>v0.
        and_then (validate_matrix (ms_v1 ms) h h ''V1'') (\<lambda>v1.
        and_then (special_b0 v0) (\<lambda>v0_b0.
        and_then (map_err (Fuse ''tInv into U0'') (scale_rows u0 t_inv_slots)) (\<lambda>u0_t_inv.
        and_then (map_err (Fuse ''tInv into U1'') (scale_rows u1 t_inv_slots)) (\<lambda>u1_t_inv.
        and_then (map_err (Fuse ''t into V0'') (scale_columns v0 t_slots)) (\<lambda>v0_t.
        and_then (map_err (Fuse ''t into V1'') (scale_columns v1 t_slots)) (\<lambda>v1_t.
        let build = (\<lambda>name m. new_transform_spec name (raw_of m) words) in
        and_then (build ''U0'' u0) (\<lambda>s_u0.
        and_then (build ''U1'' u1) (\<lambda>s_u1.
        and_then (build ''V0'' v0) (\<lambda>s_v0.
        and_then (build ''V1'' v1) (\<lambda>s_v1.
        and_then (build ''V0-special-b0'' v0_b0) (\<lambda>s_v0_b0.
        and_then (build ''U0-fused-tInv'' u0_t_inv) (\<lambda>s_u0_t.
        and_then (build ''U1-fused-tInv'' u1_t_inv) (\<lambda>s_u1_t.
        and_then (build ''V0-fused-t'' v0_t) (\<lambda>s_v0_t.
        and_then (build ''V1-fused-t'' v1_t) (\<lambda>s_v1_t.
        Inr \<lparr>sp_u0 = s_u0, sp_u1 = s_u1, sp_v0 = s_v0, sp_v1 = s_v1, sp_v0_special_b0 = s_v0_b0,
          sp_u0_fused_t_inv = s_u0_t, sp_u1_fused_t_inv = s_u1_t, sp_v0_fused_t = s_v0_t,
          sp_v1_fused_t = s_v1_t\<rparr>)))))))))))))))))))"

text \<open>The matrices and slots of a ring carry the precision of its floats.\<close>

definition ring_cells :: "z2n_ring \<Rightarrow> bf_complex list \<Rightarrow> cell list" where
  "ring_cells r = map (\<lambda>v. cell_of (hp_complex_of (set_prec (zr_prec r)) v))"

definition new_specifications_from_ring :: "z2n_ring option \<Rightarrow> int \<Rightarrow> (spec_error, specifications) res" where
  "new_specifications_from_ring ring_z words =
     (case ring_z of None \<Rightarrow> err NilRing
      | Some r \<Rightarrow>
        and_then (new_matrix_set (map (ring_cells r) (lt_forward (zr_transform r)))
            (map (ring_cells r) (lt_inverse (zr_transform r)))) (\<lambda>matrices.
        and_then (map_err TauSlots (to_root_slots r (tau_polynomial r))) (\<lambda>t_slots.
        and_then (map_err TauInverseSlots (to_root_slots r (tau_inverse r))) (\<lambda>t_inv_slots.
        new_specifications matrices words (ring_cells r t_slots) (ring_cells r t_inv_slots)))))"

end
