(* ===== verification/TransformSpecProps.thy ===== *)
theory TransformSpecProps
  imports TransformSpec
begin

text \<open>
  What the diagonal representations of a transform denote: the compact one the square matrix in
  every word row, the flattened one the block-diagonal matrix, and which inputs the constructors
  accept.
\<close>

section \<open>Powers of two\<close>

lemma power_of_two_and: "0 < n \<Longrightarrow> and n (n - 1) = 0 \<Longrightarrow> \<exists>k. n = 2 ^ k" for n :: int
proof (induction "nat n" arbitrary: n rule: less_induct)
  case less
  show ?case
  proof (cases "even n")
    case True
    then obtain w where w: "n = 2 * w" by blast
    then have "(n - 1) div 2 = w - 1" using less.prems(1) by simp
    then have "and n (n - 1) = 2 * and w (w - 1)"
      using w less.prems(1) by (subst and_int_rec) simp
    then have "and w (w - 1) = 0" using less.prems(2) by simp
    then obtain k where "w = 2 ^ k" using less.hyps [of w] w less.prems(1) by auto
    then show ?thesis using w by (auto intro!: exI [of _ "Suc k"])
  next
    case False
    then obtain w where w: "n = 2 * w + 1" by (blast elim: oddE)
    then have "and n (n - 1) = 2 * w" by (subst and_int_rec) simp
    then have "n = 2 ^ 0" using w less.prems(2) by simp
    then show ?thesis by blast
  qed
qed

lemma is_power_of_two_imp: "is_power_of_two v \<Longrightarrow> \<exists>k. v = 2 ^ k"
  unfolding is_power_of_two_def by (blast intro: power_of_two_and)

lemma power_of_two_is: "is_power_of_two (2 ^ k)"
proof (induction k)
  case 0
  show ?case by (simp add: is_power_of_two_def)
next
  case (Suc k)
  have "(2 * 2 ^ k - 1) div 2 = (2 ^ k - 1 :: int)" by simp
  then show ?case using Suc by (subst (asm) (1) is_power_of_two_def, subst is_power_of_two_def, subst and_int_rec) simp
qed

lemma and_pred_mod: "is_power_of_two (int h) \<Longrightarrow> and x (h - 1) = x mod h"
proof -
  assume "is_power_of_two (int h)"
  then obtain k where "int h = 2 ^ k" using is_power_of_two_imp by blast
  then have "h = 2 ^ k" by (metis of_nat_eq_iff of_nat_numeral of_nat_power)
  moreover have "x mod 2 ^ k = and x (2 ^ k - 1)"
    unfolding take_bit_eq_mod [symmetric] take_bit_eq_mask mask_eq_exp_minus_1 by (rule refl)
  ultimately show ?thesis by (simp only:)
qed

lemmas and_pred_mod_Suc = and_pred_mod [unfolded One_nat_def]

section \<open>Shapes\<close>

definition matrix_shape :: "nat \<Rightarrow> nat \<Rightarrow> hp_matrix \<Rightarrow> bool" where
  "matrix_shape rows columns m \<longleftrightarrow> length m = rows \<and> list_all (\<lambda>row. length row = columns) m"

lemma cell_value_cell [simp]: "cell_value e (cell_of c) = Inr c"
  by (cases c) (simp add: cell_of_def)

lemma cell_value_ok: "cell_value e c = Inr v \<longleftrightarrow> c = cell_of v"
  by (cases "(e, c)" rule: cell_value.cases) (auto simp: cell_of_def)

lemma map_each_cells: "map_each (\<lambda>column. cell_value (e column)) k cells = Inr row \<longleftrightarrow> cells = map cell_of row"
proof (induction cells arbitrary: k row)
  case (Cons c cells)
  then show ?case by (cases row) (auto simp: and_then_ok cell_value_ok)
qed auto

lemma map_each_rows:
  "map_each (\<lambda>row cells. if length cells \<noteq> columns then err (e row cells)
     else map_each (\<lambda>column. cell_value (e' row column)) 0 cells) k m = Inr v \<longleftrightarrow>
   list_all (\<lambda>row. length row = columns) v \<and> m = raw_of v"
proof (induction m arbitrary: k v)
  case Nil
  show ?case by (cases v) (simp_all add: raw_of_def)
next
  case (Cons cells m)
  show ?case
    by (cases v) (auto simp: raw_of_def and_then_ok map_each_cells Cons.IH)
qed

lemma validate_matrix_ok:
  "validate_matrix m rows columns name = Inr v \<longleftrightarrow> matrix_shape rows columns v \<and> m = raw_of v"
  by (auto simp: validate_matrix_def map_each_rows matrix_shape_def raw_of_def)

lemma validate_raw: "matrix_shape rows columns v \<Longrightarrow> validate_matrix (raw_of v) rows columns name = Inr v"
  by (simp add: validate_matrix_ok)

lemma raw_of_inj: "raw_of v = raw_of w \<longleftrightarrow> v = w"
proof -
  have "inj cell_of" by (rule injI) (auto simp: cell_of_def prod_eq_iff)
  then show ?thesis by (simp add: raw_of_def inj_map_eq_map)
qed

lemma length_raw_of [simp]: "length (raw_of v) = length v"
  by (simp add: raw_of_def)

section \<open>The compact diagonals\<close>

definition diagonal_value :: "diagonals \<Rightarrow> nat \<Rightarrow> nat \<Rightarrow> bf_complex" where
  "diagonal_value ds k i = (case ds k of None \<Rightarrow> (0, 0) | Some d \<Rightarrow> hp_value (d ! i))"

lemma hp_value_zero: "is_zero c \<longleftrightarrow> hp_value c = (0, 0)"
  by (simp add: is_zero_def hp_value_def)

lemma new_transform_spec_ok:
  assumes "new_transform_spec name raw words = Inr s"
  shows "raw = raw_of (ts_matrix s)" "matrix_shape (length raw) (length raw) (ts_matrix s)"
    "is_power_of_two (int (length raw))" "is_power_of_two words"
    "ts_layout s = RepeatedRowLayout" "ts_word_count s = words" "ts_half_width s = int (length raw)"
    "ts_log_rows s = log_dimension words" "ts_log_cols s = log_dimension (int (length raw))"
    "ts_name s = name" "ts_precision s = matrix_precision (ts_matrix s)"
    "ts_diagonals s = (\<lambda>d. if d < length raw \<and> \<not> list_all is_zero (repeated_diagonal (ts_matrix s) (length raw) (nat words) d)
            then Some (repeated_diagonal (ts_matrix s) (length raw) (nat words) d) else None)"
  using assms by (auto simp: new_transform_spec_def Let_def and_then_ok validate_matrix_ok split: if_splits)

lemma concat_blocks_nth:
  assumes "\<And>w. w < words \<Longrightarrow> length (f w) = h" and "i < words * h"
  shows "concat (map f [0..<words]) ! i = f (i div h) ! (i mod h)" and "length (concat (map f [0..<words])) = words * h"
proof -
  have len: "length (concat (map f [0..<k])) = k * h" if "k \<le> words" for k
    using that assms(1) by (induction k) auto
  show "length (concat (map f [0..<words])) = words * h" by (rule len) simp
  have "i < k * h \<Longrightarrow> concat (map f [0..<k]) ! i = f (i div h) ! (i mod h)" if "k \<le> words" for k
    using that
  proof (induction k)
    case (Suc k)
    show ?case
    proof (cases "i < k * h")
      case True
      then show ?thesis using Suc len [of k] by (simp add: nth_append)
    next
      case False
      then have "i div h = k" using Suc.prems(1) by (intro div_nat_eqI) (simp_all add: mult.commute)
      moreover from this have "i - k * h = i mod h" by (metis minus_div_mult_eq_mod)
      ultimately show ?thesis using False len [of k] Suc.prems(2) by (simp add: nth_append)
    qed
  qed simp
  from this [of words] assms(2) show "concat (map f [0..<words]) ! i = f (i div h) ! (i mod h)" by simp
qed

lemma compact_diagonals:
  assumes s: "new_transform_spec name raw words = Inr s" and d: "d < length raw" and i: "i < nat words * length raw"
  shows "diagonal_value (ts_diagonals s) d i =
    hp_value (ts_matrix s ! (i mod length raw) ! ((i mod length raw + d) mod length raw))"
proof -
  let ?h = "length raw"
  note ok = new_transform_spec_ok [OF s]
  have "0 < ?h" using d by linarith
  then have r: "i mod ?h < ?h" by (rule mod_less_divisor)
  have "repeated_diagonal (ts_matrix s) ?h (nat words) d ! i =
      map (\<lambda>row. ts_matrix s ! row ! (and (row + d) (?h - 1))) [0..<?h] ! (i mod ?h)"
    unfolding repeated_diagonal_def by (rule concat_blocks_nth(1)) (use i in simp_all)
  also have "\<dots> = ts_matrix s ! (i mod ?h) ! ((i mod ?h + d) mod ?h)"
    using r by (simp add: and_pred_mod_Suc [OF ok(3)])
  finally have nth: "repeated_diagonal (ts_matrix s) ?h (nat words) d ! i = \<dots>" .
  have "length (repeated_diagonal (ts_matrix s) ?h (nat words) d) = nat words * ?h"
    unfolding repeated_diagonal_def by (rule concat_blocks_nth(2)) (use i in simp_all)
  then show ?thesis
    using d i nth by (auto simp: diagonal_value_def ok(12) list_all_length hp_value_zero)
qed


section \<open>The flattened diagonals\<close>

lemma set_offset_cells:
  assumes "0 < h"
  shows "(i, c) \<in> set (offset_cells m h words offset) \<longleftrightarrow>
    i < words * h \<and> 0 \<le> int (i mod h) + offset \<and> int (i mod h) + offset < int h \<and>
    c = m ! (i mod h) ! nat (int (i mod h) + offset)"  (is "?L \<longleftrightarrow> ?R")
proof
  assume ?L
  then obtain word column where "word < words" "column < h" "i = word * h + column"
      "0 \<le> int column + offset" "int column + offset < int h" "c = m ! column ! nat (int column + offset)"
    by (auto simp: offset_cells_def Let_def split: if_splits)
  moreover from this have "i < words * h"
    by (metis add_less_cancel_left less_le_trans mult_Suc add.commute Suc_leI mult_le_mono1)
  ultimately show ?R by simp
next
  assume R: ?R
  then have "i div h < words" by (simp add: less_mult_imp_div_less)
  moreover have "i mod h < h" using assms by simp
  moreover have "i = i div h * h + i mod h" by simp
  ultimately show ?L using R unfolding offset_cells_def Let_def set_concat set_map
    by simp (rule bexI [of _ "i div h"], rule bexI [of _ "i mod h"], simp_all)
qed

lemma fold_update_length [simp]: "length (fold (\<lambda>(i, c) d. d[i := c]) cells d) = length d"
  by (induction cells arbitrary: d) auto

lemma fold_update_nth:
  assumes "\<And>i c. (i, c) \<in> set cells \<Longrightarrow> c = f i" and "i < length d"
  shows "fold (\<lambda>(i, c) d. d[i := c]) cells d ! i = (if i \<in> fst ` set cells then f i else d ! i)"
  using assms
proof (induction cells arbitrary: d)
  case (Cons a cells)
  obtain k c where a: "a = (k, c)" by (cases a)
  have "c = f k" using Cons.prems(1) [of k c] a by simp
  then show ?case using Cons.IH [of "d[k := c]"] Cons.prems a by (auto simp: nth_list_update)
qed simp

definition diagonals_sized :: "nat \<Rightarrow> diagonals \<Rightarrow> bool" where
  "diagonals_sized slots ds \<longleftrightarrow> (\<forall>k d. ds k = Some d \<longrightarrow> length d = slots)"

lemma full_slot_offset_sized:
  "diagonals_sized (words * h) ds \<Longrightarrow> diagonals_sized (words * h) (full_slot_offset m p h words offset ds)"
  by (auto simp: diagonals_sized_def full_slot_offset_def Let_def split: option.split)

lemma full_slot_offset_value:
  assumes h: "0 < h" and sized: "diagonals_sized (words * h) ds" and i: "i < words * h"
  shows "diagonal_value (full_slot_offset m p h words offset ds) k i =
    (if k = offset_index (words * h) offset \<and> 0 \<le> int (i mod h) + offset \<and> int (i mod h) + offset < int h
     then hp_value (m ! (i mod h) ! nat (int (i mod h) + offset)) else diagonal_value ds k i)"
proof -
  let ?cells = "offset_cells m h words offset" and ?k = "offset_index (words * h) offset"
  let ?f = "\<lambda>i. m ! (i mod h) ! nat (int (i mod h) + offset)"
  let ?start = "case ds ?k of None \<Rightarrow> replicate (words * h) (new_complex p) | Some d \<Rightarrow> d"
  have mem: "i \<in> fst ` set ?cells \<longleftrightarrow> 0 \<le> int (i mod h) + offset \<and> int (i mod h) + offset < int h"
  proof -
    have "i \<in> fst ` set ?cells \<longleftrightarrow> (\<exists>c. (i, c) \<in> set ?cells)" by force
    then show ?thesis using i unfolding set_offset_cells [OF h] by blast
  qed
  have start: "length ?start = words * h" "hp_value (?start ! i) = diagonal_value ds ?k i"
    using sized i by (auto simp: diagonals_sized_def diagonal_value_def new_complex_def hp_value_def split: option.split)
  have upd: "fold (\<lambda>(i, c) d. d[i := c]) ?cells ?start ! i = (if i \<in> fst ` set ?cells then ?f i else ?start ! i)"
    by (rule fold_update_nth) (use i start in \<open>auto simp: set_offset_cells [OF h]\<close>)
  show ?thesis
  proof (cases "k = ?k")
    case False
    then show ?thesis by (simp add: full_slot_offset_def Let_def diagonal_value_def)
  next
    case k: True
    show ?thesis
    proof (cases "list_ex (\<lambda>(i, c). \<not> is_zero c) ?cells \<or> ds ?k \<noteq> None")
      case True
      then have "diagonal_value (full_slot_offset m p h words offset ds) k i =
          hp_value (fold (\<lambda>(i, c) d. d[i := c]) ?cells ?start ! i)"
        unfolding full_slot_offset_def Let_def k by (simp add: diagonal_value_def)
      then show ?thesis using k mem start(2) unfolding upd by simp
    next
      case False
      then have same: "full_slot_offset m p h words offset ds = ds" and none: "ds ?k = None"
        by (auto simp: full_slot_offset_def Let_def)
      have "is_zero (?f i)" if "i \<in> fst ` set ?cells"
        using False that by (auto simp: list_ex_iff set_offset_cells [OF h])
      then show ?thesis using mem none unfolding same k by (auto simp: hp_value_zero diagonal_value_def)
    qed
  qed
qed


text \<open>Output slot \<^verbatim>\<open>i\<close> of diagonal \<^verbatim>\<open>k\<close> meets input slot \<^verbatim>\<open>i + k\<close> modulo the slot count.\<close>

lemma offset_index_negative: "offset < 0 \<Longrightarrow> - offset \<le> int slots \<Longrightarrow> int (offset_index slots offset) = offset + int slots"
  by (simp add: offset_index_def)

lemma offset_index_wrapped: "offset = int k - int slots \<Longrightarrow> k < slots \<Longrightarrow> offset_index slots offset = k"
  by (simp add: offset_index_def)

lemma offset_source:
  assumes h: "0 < h" and i: "i < words * h" and o1: "0 \<le> int (i mod h) + offset" and o2: "int (i mod h) + offset < int h"
  shows "(i + offset_index (words * h) offset) mod (words * h) = i div h * h + nat (int (i mod h) + offset)"
proof -
  let ?L = "words * h" and ?j = "i div h * h + nat (int (i mod h) + offset)"
  have "i div h < words" using i by (simp add: less_mult_imp_div_less)
  then have le: "i div h * h + h \<le> ?L" by (metis Suc_leI add.commute mult_Suc mult_le_mono1)
  then have j: "?j < ?L" using o1 o2 by linarith
  have i_eq: "int i = int (i div h * h) + int (i mod h)" by (metis div_mult_mod_eq of_nat_add)
  then have ij: "int ?j = int i + offset" using o1 by simp
  show ?thesis
  proof (cases "offset < 0")
    case True
    have "i div h * h + i mod h = i" by simp
    moreover have "i mod h < h" using h by simp
    ultimately have "- offset \<le> int ?L" using True o1 i by linarith
    then have "int (offset_index ?L offset) = offset + int ?L"
      using True by (intro offset_index_negative)
    then have "i + offset_index ?L offset = ?j + ?L" using ij by linarith
    then show ?thesis using j by simp
  next
    case False
    then have "int (offset_index ?L offset) = offset" by (simp add: offset_index_def)
    then have "i + offset_index ?L offset = ?j" using ij by linarith
    then show ?thesis using j by simp
  qed
qed

lemma same_block_offset:
  assumes h: "0 < h" and i: "i < words * h" and k: "k < words * h"
    and block: "(i + k) mod (words * h) div h = i div h"
  obtains offset where "offset \<in> set [-(int h - 1)..int h - 1]" "offset_index (words * h) offset = k"
    "0 \<le> int (i mod h) + offset" "int (i mod h) + offset < int h"
proof -
  let ?L = "words * h" and ?j = "(i + k) mod (words * h)"
  let ?o = "int (?j mod h) - int (i mod h)"
  have b: "i mod h < h" "?j mod h < h" using h by simp_all
  have ij: "int ?j - int i = ?o"
  proof -
    have "int i = int (i div h) * int h + int (i mod h)" by (metis div_mult_mod_eq of_nat_add of_nat_mult)
    moreover have "int ?j = int (i div h) * int h + int (?j mod h)"
      by (metis block div_mult_mod_eq of_nat_add of_nat_mult)
    ultimately show ?thesis by linarith
  qed
  have "offset_index ?L ?o = k"
  proof (cases "i + k < ?L")
    case True
    then have "?j = i + k" by simp
    then have "?o = int k" using ij by simp
    then show ?thesis by (simp add: offset_index_def)
  next
    case False
    then have "?j = i + k - ?L" using i k by (simp add: mod_if)
    then have "?o = int k - int ?L" using ij False by linarith
    then show ?thesis using k by (rule offset_index_wrapped)
  qed
  moreover have "?o \<in> set [-(int h - 1)..int h - 1]"
    unfolding set_upto atLeastAtMost_iff using b by linarith
  moreover have "0 \<le> int (i mod h) + ?o" "int (i mod h) + ?o < int h" using b by linarith+
  ultimately show thesis using that by blast
qed

lemma fold_offsets_sized:
  "diagonals_sized (words * h) ds \<Longrightarrow> diagonals_sized (words * h) (fold (full_slot_offset m p h words) os ds)"
  by (induction os arbitrary: ds) (simp_all add: full_slot_offset_sized)

lemma fold_offsets_value:
  assumes h: "0 < h" and i: "i < words * h" and sized: "diagonals_sized (words * h) ds"
  shows "diagonal_value (fold (full_slot_offset m p h words) os ds) k i =
    (if \<exists>offset \<in> set os. k = offset_index (words * h) offset \<and> 0 \<le> int (i mod h) + offset \<and> int (i mod h) + offset < int h
     then hp_value (m ! (i mod h) ! ((i + k) mod (words * h) mod h)) else diagonal_value ds k i)"
  using sized
proof (induction os arbitrary: ds)
  case (Cons offset os)
  have src: "(i + offset_index (words * h) offset) mod (words * h) mod h = nat (int (i mod h) + offset)"
    if "0 \<le> int (i mod h) + offset" "int (i mod h) + offset < int h"
    unfolding offset_source [OF h i that] using that by (simp add: nat_less_iff)
  show ?case
    using Cons.IH [OF full_slot_offset_sized [OF Cons.prems]] src
    by (auto simp: full_slot_offset_value [OF h Cons.prems i])
qed simp

lemma drop_zero_value:
  assumes "diagonals_sized slots ds" and "i < slots"
  shows "diagonal_value (drop_zero_diagonals ds) k i = diagonal_value ds k i"
  using assms
  by (auto simp: diagonal_value_def drop_zero_diagonals_def diagonals_sized_def diagonal_is_zero_def list_all_length
    hp_value_zero split: option.split)


section \<open>The linear map a specification denotes\<close>

definition exact_value :: "bf_complex \<Rightarrow> complex" where
  "exact_value v = Complex (of_rat (fst v)) (of_rat (snd v))"

definition exact_output :: "transform_spec \<Rightarrow> (nat \<Rightarrow> complex) \<Rightarrow> nat \<Rightarrow> complex" where
  "exact_output s x i =
     (\<Sum>k\<in>dom (ts_diagonals s). exact_value (diagonal_value (ts_diagonals s) k i) * x (source_slot s k i))"

definition word_output :: "hp_matrix \<Rightarrow> (nat \<Rightarrow> complex) \<Rightarrow> nat \<Rightarrow> complex" where
  "word_output m x i =
     (\<Sum>c<length m. exact_value (hp_value (m ! (i mod length m) ! c)) * x (i div length m * length m + c))"

lemma exact_value_zero [simp]: "exact_value (0, 0) = 0"
  by (simp add: exact_value_def complex_eq_iff)

lemma exact_output_bounded:
  assumes "dom (ts_diagonals s) \<subseteq> {..<n}"
  shows "exact_output s x i = (\<Sum>k<n. exact_value (diagonal_value (ts_diagonals s) k i) * x (source_slot s k i))"
proof -
  have "exact_value (diagonal_value (ts_diagonals s) k i) * x (source_slot s k i) = 0" if "k \<notin> dom (ts_diagonals s)" for k
    using that by (simp add: diagonal_value_def domIff)
  then show ?thesis unfolding exact_output_def using assms by (intro sum.mono_neutral_left) auto
qed

lemma sum_rotate:
  fixes f :: "nat \<Rightarrow> complex"
  assumes "0 < n"
  shows "(\<Sum>k<n. f ((r + k) mod n)) = (\<Sum>k<n. f k)"
proof -
  have "inj_on (\<lambda>k. (r + k) mod n) {..<n}"
  proof (rule inj_onI)
    fix a b assume ab: "a \<in> {..<n}" "b \<in> {..<n}" "(r + a) mod n = (r + b) mod n"
    then obtain p q where "r + a + n * p = r + b + n * q" unfolding nat_mod_eq_iff by blast
    then have "a + n * p = b + n * q" by linarith
    then have "a mod n = b mod n" unfolding nat_mod_eq_iff by blast
    then show "a = b" using ab by simp
  qed
  moreover from this have "(\<lambda>k. (r + k) mod n) ` {..<n} = {..<n}"
    using assms by (intro card_subset_eq) (auto simp: card_image)
  ultimately show ?thesis by (metis (no_types, lifting) sum.reindex_cong)
qed

lemma sum_block:
  fixes f :: "nat \<Rightarrow> complex"
  assumes "w < words" and "0 < h"
  shows "(\<Sum>j<words * h. if j div h = w then f j else 0) = (\<Sum>c<h. f (w * h + c))"
proof -
  have "w * h + h \<le> words * h" using assms by (metis Suc_leI add.commute mult_Suc mult_le_mono1)
  moreover have "j \<in> (\<lambda>c. j div h * h + c) ` {..<h}" for j
    by (rule image_eqI [of _ _ "j mod h"]) (use assms(2) in simp_all)
  ultimately have "{j \<in> {..<words * h}. j div h = w} = (\<lambda>c. w * h + c) ` {..<h}"
    using assms(2) by auto
  then have "(\<Sum>j<words * h. if j div h = w then f j else 0) = sum f ((\<lambda>c. w * h + c) ` {..<h})"
    by (simp add: sum.inter_filter [symmetric])
  then show ?thesis by (simp add: sum.reindex)
qed


lemma new_transform_spec_shape:
  assumes "new_transform_spec name raw words = Inr s"
  shows "spec_words s = words" "spec_half_width s = int (length raw)" "0 < words" "0 < length raw"
    "length (ts_matrix s) = length raw"
  using new_transform_spec_ok [OF assms]
  by (auto simp: spec_words_def spec_half_width_def is_power_of_two_def matrix_shape_def)

lemma new_transform_spec_exists:
  assumes "matrix_shape h h m" "0 < h" "is_power_of_two (int h)" "is_power_of_two words"
  shows "\<exists>s. new_transform_spec name (raw_of m) words = Inr s \<and> ts_matrix s = m \<and> ts_layout s = RepeatedRowLayout \<and>
    spec_words s = words \<and> spec_half_width s = int h"
proof -
  have "length (raw_of m) = h" using assms(1) by (simp add: matrix_shape_def)
  then obtain s where s: "new_transform_spec name (raw_of m) words = Inr s" "ts_matrix s = m"
    using assms(2-4) unfolding new_transform_spec_def Let_def \<open>length (raw_of m) = h\<close> validate_raw [OF assms(1)] by simp
  show ?thesis
    using s new_transform_spec_ok(5) [OF s(1)] new_transform_spec_shape(1,2) [OF s(1)] \<open>length (raw_of m) = h\<close> by simp
qed

definition sample_matrix :: hp_matrix where
  "sample_matrix = [[((53, 1), (53, 0)), ((53, 2), (53, 0))], [((53, 0), (53, 3)), ((53, 0), (53, 0))]]"

lemma sample_spec: "\<exists>s. new_transform_spec ''W'' (raw_of sample_matrix) 4 = Inr s \<and> ts_matrix s = sample_matrix"
proof -
  have "matrix_shape 2 2 sample_matrix" by (simp add: matrix_shape_def sample_matrix_def)
  then show ?thesis
    using new_transform_spec_exists [of 2 sample_matrix 4 "''W''"] power_of_two_is [of 1] power_of_two_is [of 2] by auto
qed

lemma sample_length: "length sample_matrix = 2"
  by (simp add: sample_matrix_def)

text \<open>
  C26. A specification accepted by newTransformSpec denotes, by its compact diagonals, the matrix
  it was given applied to every word: the sum over the stored diagonals of the diagonal entry
  times the input slot it meets is the matrix-vector product of that word, in exact arithmetic.
\<close>

theorem compact_represents_blocks:
  assumes "new_transform_spec name raw words = Inr s" and "i < nat words * length raw"
  shows "exact_output s x i = word_output (ts_matrix s) x i"
proof -
  let ?h = "length raw"
  note ok = new_transform_spec_ok [OF assms(1)] and shape = new_transform_spec_shape [OF assms(1)]
  have mod: "i mod ?h < ?h" using shape(4) by simp
  have source: "source_slot s k i = i div ?h * ?h + (i mod ?h + k) mod ?h" for k
  proof -
    have "and (i mod ?h + and k (?h - 1)) (?h - 1) = (i mod ?h + k) mod ?h"
      unfolding and_pred_mod [OF ok(3)] by (rule mod_add_right_eq)
    then show ?thesis
      by (simp add: source_slot_def Let_def ok(5) shape minus_mod_eq_div_mult)
  qed
  have "exact_output s x i = (\<Sum>k<?h. exact_value (diagonal_value (ts_diagonals s) k i) * x (source_slot s k i))"
    by (rule exact_output_bounded) (auto simp: ok(12) split: if_splits)
  also have "\<dots> = (\<Sum>k<?h. exact_value (hp_value (ts_matrix s ! (i mod ?h) ! ((i mod ?h + k) mod ?h))) *
      x (i div ?h * ?h + (i mod ?h + k) mod ?h))"
    by (rule sum.cong) (simp_all add: source compact_diagonals [OF assms(1) _ assms(2)])
  also have "\<dots> = word_output (ts_matrix s) x i"
    unfolding word_output_def shape(5) by (rule sum_rotate [OF shape(4)])
  finally show ?thesis .
qed

lemma compact_represents_blocks_witness:
  "\<exists>s. new_transform_spec ''W'' (raw_of sample_matrix) 4 = Inr s \<and>
    exact_output s of_nat 7 = word_output sample_matrix of_nat 7"
proof -
  obtain s where s: "new_transform_spec ''W'' (raw_of sample_matrix) 4 = Inr s" "ts_matrix s = sample_matrix"
    using sample_spec by blast
  from compact_represents_blocks [OF s(1), of 7 of_nat] s show ?thesis by (auto simp: sample_length)
qed


lemma full_slot_ok:
  assumes "new_transform_spec name raw words = Inr s"
  obtains s' where "full_slot s = Inr s'" "ts_layout s' = FullSlotBlockDiagonalLayout"
    "spec_words s' = words" "spec_half_width s' = int (length raw)"
    "ts_diagonals s' = drop_zero_diagonals (fold (full_slot_offset (ts_matrix s) (ts_precision s) (length raw) (nat words))
        [-(int (length raw) - 1)..int (length raw) - 1] (\<lambda>_. None))"
proof -
  note ok = new_transform_spec_ok [OF assms] and shape = new_transform_spec_shape [OF assms]
  show thesis
  proof (rule that)
    show "full_slot s = Inr (s\<lparr>ts_layout := FullSlotBlockDiagonalLayout, ts_log_rows := 0,
      ts_log_cols := log_dimension (words * int (length raw)),
      ts_diagonals := drop_zero_diagonals (fold (full_slot_offset (ts_matrix s) (ts_precision s) (length raw) (nat words))
        [-(int (length raw) - 1)..int (length raw) - 1] (\<lambda>_. None)),
      ts_word_count := words, ts_half_width := int (length raw)\<rparr>)"
      using ok(3,4) by (simp add: full_slot_def Let_def ok(5) shape validate_raw [OF ok(2)])
  qed (use shape in \<open>simp_all add: spec_words_def spec_half_width_def\<close>)
qed

lemma flattened_value:
  assumes h: "0 < h" and i: "i < words * h" and k: "k < words * h"
  shows "diagonal_value (drop_zero_diagonals (fold (full_slot_offset m p h words) [-(int h - 1)..int h - 1] (\<lambda>_. None))) k i =
    (if (i + k) mod (words * h) div h = i div h then hp_value (m ! (i mod h) ! ((i + k) mod (words * h) mod h)) else (0, 0))"
proof -
  let ?os = "[-(int h - 1)..int h - 1]"
  have empty: "diagonals_sized (words * h) (\<lambda>_. None)" by (simp add: diagonals_sized_def)
  have "(\<exists>offset \<in> set ?os. k = offset_index (words * h) offset \<and> 0 \<le> int (i mod h) + offset \<and> int (i mod h) + offset < int h)
      \<longleftrightarrow> (i + k) mod (words * h) div h = i div h" (is "?L \<longleftrightarrow> ?R")
  proof
    assume ?L
    then obtain offset where o: "k = offset_index (words * h) offset" "0 \<le> int (i mod h) + offset" "int (i mod h) + offset < int h"
      by blast
    show ?R unfolding o(1) offset_source [OF h i o(2,3)] using o(2,3) h by (simp add: nat_less_iff)
  next
    assume ?R
    then show ?L using same_block_offset [OF h i k] by metis
  qed
  then show ?thesis
    unfolding drop_zero_value [OF fold_offsets_sized [OF empty] i] fold_offsets_value [OF h i empty]
    by (simp add: diagonal_value_def)
qed

lemma fold_offsets_dom: "dom (fold (full_slot_offset m p h words) os ds) \<subseteq> dom ds \<union> offset_index (words * h) ` set os"
proof (induction os arbitrary: ds)
  case (Cons offset os)
  let ?ds = "full_slot_offset m p h words offset ds"
  have "dom ?ds \<subseteq> insert (offset_index (words * h) offset) (dom ds)"
    by (auto simp: full_slot_offset_def Let_def)
  then have "dom ?ds \<union> offset_index (words * h) ` set os \<subseteq> dom ds \<union> offset_index (words * h) ` set (offset # os)"
    by auto
  with Cons [of ?ds] show ?case unfolding fold_simps by (rule subset_trans)
qed simp

lemma offset_index_bounded:
  assumes "- int h < offset" "offset < int h" "h \<le> slots"
  shows "offset_index slots offset < slots"
  using assms by (simp add: offset_index_def nat_less_iff)

lemma flattened_bounded:
  assumes h: "0 < h" and words: "0 < words"
  shows "dom (drop_zero_diagonals (fold (full_slot_offset m p h words) [-(int h - 1)..int h - 1] (\<lambda>_. None))) \<subseteq> {..<words * h}"
proof -
  let ?ds = "fold (full_slot_offset m p h words) [-(int h - 1)..int h - 1] (\<lambda>_. None)"
  have "offset_index (words * h) ` set [-(int h - 1)..int h - 1] \<subseteq> {..<words * h}"
    using words unfolding set_upto by (auto intro!: offset_index_bounded)
  with fold_offsets_dom have "dom ?ds \<subseteq> dom (\<lambda>_ :: nat. None :: hp_complex list option) \<union> {..<words * h}"
    by (rule order_trans [OF _ Un_mono [OF order_refl]])
  moreover have "dom (drop_zero_diagonals ?ds) \<subseteq> dom ?ds"
    unfolding drop_zero_diagonals_def dom_def by (auto split: option.splits)
  ultimately show ?thesis by (simp only: dom_empty Un_empty_left)
qed

lemma power_of_two_product: "is_power_of_two a \<Longrightarrow> is_power_of_two b \<Longrightarrow> is_power_of_two (a * b)"
  using is_power_of_two_imp power_of_two_is by (metis power_add)

lemma source_slot_full:
  assumes "ts_layout s = FullSlotBlockDiagonalLayout" "spec_words s = words" "spec_half_width s = int h"
    and "is_power_of_two (words * int h)"
  shows "source_slot s k i = (i + k) mod (nat words * h)"
proof -
  have n: "nat (words * int h) = nat words * h" 
    by (cases "0 \<le> words") (simp_all add: nat_mult_distrib mult_nonpos_nonneg)
  have "is_power_of_two (int (nat words * h))"
    using assms(4) unfolding n [symmetric] by (simp add: is_power_of_two_def)
  from and_pred_mod [OF this] show ?thesis
    unfolding source_slot_def assms(1-3) n Let_def by (simp add: mod_add_right_eq)
qed

text \<open>
  C6. FullSlot never fails on a specification of newTransformSpec, and the diagonals of its flattened
  layout, where input slots wrap around the whole vector instead of the word, denote the same
  linear map: the matrix applied to every word and no product across words.
\<close>

theorem full_slot_same_map:
  assumes "new_transform_spec name raw words = Inr s"
  shows "\<exists>s'. full_slot s = Inr s' \<and> (\<forall>x. \<forall>i < nat words * length raw. exact_output s' x i = word_output (ts_matrix s) x i)"
proof -
  let ?h = "length raw" and ?L = "nat words * length raw" and ?m = "ts_matrix s"
  note ok = new_transform_spec_ok [OF assms] and shape = new_transform_spec_shape [OF assms]
  obtain s' where s': "full_slot s = Inr s'" "ts_layout s' = FullSlotBlockDiagonalLayout"
      "spec_words s' = words" "spec_half_width s' = int ?h"
    and ds: "ts_diagonals s' = drop_zero_diagonals (fold (full_slot_offset ?m (ts_precision s) ?h (nat words))
        [-(int ?h - 1)..int ?h - 1] (\<lambda>_. None))" by (rule full_slot_ok [OF assms])
  have "exact_output s' x i = word_output ?m x i" if i: "i < ?L" for x i
  proof -
    let ?j = "\<lambda>k. (i + k) mod ?L"
    have diagonal: "diagonal_value (ts_diagonals s') k i =
        (if ?j k div ?h = i div ?h then hp_value (?m ! (i mod ?h) ! (?j k mod ?h)) else (0, 0))" if "k < ?L" for k
      unfolding ds by (rule flattened_value [OF shape(4) i that])
    have source: "source_slot s' k i = ?j k" for k
      using source_slot_full [OF s'(2-4)] power_of_two_product [OF ok(4,3)] shape(3) by simp
    have "exact_output s' x i = (\<Sum>k<?L. exact_value (diagonal_value (ts_diagonals s') k i) * x (source_slot s' k i))"
      by (rule exact_output_bounded) (use flattened_bounded [OF shape(4)] shape(3) in \<open>simp add: ds\<close>)
    also have "\<dots> = (\<Sum>k<?L. if ?j k div ?h = i div ?h then exact_value (hp_value (?m ! (i mod ?h) ! (?j k mod ?h))) * x (?j k) else 0)"
      by (rule sum.cong) (simp_all add: source diagonal)
    also have "\<dots> = (\<Sum>j<?L. if j div ?h = i div ?h then exact_value (hp_value (?m ! (i mod ?h) ! (j mod ?h))) * x j else 0)"
      by (rule sum_rotate) (use i in linarith)
    also have "\<dots> = word_output ?m x i"
      unfolding word_output_def shape(5)
      by (subst sum_block) (use i shape(4) in \<open>simp_all add: less_mult_imp_div_less\<close>)
    finally show ?thesis .
  qed
  then show ?thesis using s'(1) by blast
qed

lemma full_slot_same_map_witness:
  "\<exists>s s'. new_transform_spec ''W'' (raw_of sample_matrix) 4 = Inr s \<and> full_slot s = Inr s' \<and>
    exact_output s' of_nat 7 = word_output sample_matrix of_nat 7"
proof -
  obtain s where s: "new_transform_spec ''W'' (raw_of sample_matrix) 4 = Inr s" "ts_matrix s = sample_matrix"
    using sample_spec by blast
  from full_slot_same_map [OF s(1)] obtain s' where "full_slot s = Inr s'"
    "\<And>x i. i < nat 4 * length (raw_of sample_matrix) \<Longrightarrow> exact_output s' x i = word_output (ts_matrix s) x i" by blast
  then show ?thesis using s by (auto simp: sample_length)
qed


section \<open>The specifications of a ring\<close>

lemma matrix_shape_halves:
  "matrix_shape h (2 * h) m \<Longrightarrow> matrix_shape h h (map (take h) m) \<and> matrix_shape h h (map (drop h) m)"
  "matrix_shape (2 * h) h m \<Longrightarrow> matrix_shape h h (take h m) \<and> matrix_shape h h (drop h m)"
  by (auto simp: matrix_shape_def list_all_iff dest: in_set_takeD in_set_dropD)

lemma new_matrix_set_ok:
  assumes "matrix_shape h (2 * h) u" "matrix_shape (2 * h) h v" "2 \<le> h" "is_power_of_two (int h)"
  shows "new_matrix_set (raw_of u) (raw_of v) =
    Inr \<lparr>ms_u0 = raw_of (map (take h) u), ms_u1 = raw_of (map (drop h) u), ms_v0 = raw_of (take h v), ms_v1 = raw_of (drop h v)\<rparr>"
  using assms by (simp add: new_matrix_set_def matrix_shape_def validate_raw [unfolded matrix_shape_def])

lemma scale_rows_ok:
  assumes "matrix_shape h h m" "length factors = h"
  shows "scale_rows m (map cell_of factors) = Inr (map (\<lambda>(cells, f). map (multiply_complex f) cells) (zip m factors))"
    and "matrix_shape h h (map (\<lambda>(cells, f). map (multiply_complex f) cells) (zip m factors))"
  using assms
  by (auto simp: scale_rows_def matrix_shape_def map_each_ok list_all_length)

lemma scale_columns_ok:
  assumes "matrix_shape h h m" "length factors = h" "0 < h"
  shows "scale_columns m (map cell_of factors) = Inr (map (\<lambda>cells. map (\<lambda>(c, f). multiply_complex c f) (zip cells factors)) m)"
    and "matrix_shape h h (map (\<lambda>cells. map (\<lambda>(c, f). multiply_complex c f) (zip cells factors)) m)"
proof -
  have "m \<noteq> []" "length (hd m) = h" using assms by (cases m, auto simp: matrix_shape_def)+
  then show "scale_columns m (map cell_of factors) = Inr (map (\<lambda>cells. map (\<lambda>(c, f). multiply_complex c f) (zip cells factors)) m)"
    using assms by (auto simp: scale_columns_def matrix_shape_def map_each_ok list_all_length)
qed (use assms in \<open>auto simp: matrix_shape_def list_all_length\<close>)

lemma special_b0_ok:
  assumes "matrix_shape h h m" "2 \<le> h"
  obtains m' where "special_b0 m = Inr m'" "matrix_shape h h m'"
  using assms by (auto simp: special_b0_def matrix_shape_def list_all_length nth_list_update)

lemma ring_cells_raw: "map (ring_cells r) rows = raw_of (map (map (hp_complex_of (set_prec (zr_prec r)))) rows)"
  by (simp add: ring_cells_def raw_of_def)

lemma tau_slots_exist:
  assumes "new_with_precision bits precision = Inr r" and "precision \<le> max_prec"
  obtains t t_inv where "to_root_slots r (tau_polynomial r) = Inr t" "length t = bits div 2"
    "to_root_slots r (tau_inverse r) = Inr t_inv" "length t_inv = bits div 2"
proof -
  note parts = new_ring_parts(1-5) [OF assms(1)] new_ring_parts(6) [OF assms]
  have n: "2 \<le> zr_bits r" using ring_bits(2,3) [OF parts(6)] parts(1,3) by (auto simp: word_supported_def)
  obtain cs where inv: "tau_inverse r = ring_polynomial r cs" "operand (zr_bits r) (zr_bits r) 1 cs"
    by (rule tau_inverse_coeffs [OF parts(6)])
  have "ring_validate r (tau_polynomial r) = Inr ()"
    unfolding tau_polynomial_list by (rule validate_operand [OF parts(6) operand_mono [OF tau_operand [OF n], of "zr_bits r + 1" "2 ^ 20"]])
      (use room [OF parts(6), of "2 ^ 20" "zr_bits r + 1"] in simp_all)
  moreover have "ring_validate r (tau_inverse r) = Inr ()"
    unfolding inv(1) by (rule validate_operand [OF parts(6) operand_mono [OF inv(2), of "zr_bits r + 1" "2 ^ 20"]])
      (use room [OF parts(6), of "2 ^ 20" "zr_bits r + 1"] in simp_all)
  ultimately show thesis
    using that parts(1,5) by (simp add: to_root_slots_def transform_shape_def)
qed

definition quadrants :: "z2n_ring \<Rightarrow> raw_matrix list" where
  "quadrants r = (let h = zr_bits r div 2; u = map (ring_cells r) (lt_forward (zr_transform r));
      v = map (ring_cells r) (lt_inverse (zr_transform r))
    in [map (take h) u, map (drop h) u, take h v, drop h v])"

text \<open>
  NewSpecificationsFromRing succeeds for every ring of NewWithPrecision of at most \<^verbatim>\<open>MaxPrec\<close> bits and every power-of-two
  word count: the four plain transforms hold the quadrants of the ring's forward and inverse matrices,
  and all nine specifications have the compact layout with the requested words and half the word size.
\<close>

theorem ring_specifications:
  assumes "new_with_precision bits precision = Inr r" and "is_power_of_two words" and "precision \<le> max_prec"
  shows "\<exists>sp. new_specifications_from_ring (Some r) words = Inr sp \<and>
    map (\<lambda>f. raw_of (ts_matrix (f sp))) [sp_u0, sp_u1, sp_v0, sp_v1] = quadrants r \<and>
    list_all (\<lambda>f. spec_words (f sp) = words \<and> spec_half_width (f sp) = int (bits div 2) \<and> ts_layout (f sp) = RepeatedRowLayout)
      [sp_u0, sp_u1, sp_v0, sp_v1, sp_v0_special_b0, sp_u0_fused_t_inv, sp_u1_fused_t_inv, sp_v0_fused_t, sp_v1_fused_t]"
proof -
  let ?h = "bits div 2" and ?c = "hp_complex_of (set_prec (zr_prec r))" and ?t = "zr_transform r"
  note parts = new_ring_parts(1-5) [OF assms(1)]
  have h: "2 \<le> ?h" "0 < ?h" using parts(3) by (auto simp: word_supported_def)
  have pow: "is_power_of_two (int ?h)" using parts(3) power_of_two_is [of 2] power_of_two_is [of 3] power_of_two_is [of 4] power_of_two_is [of 5]
    by (auto simp: word_supported_def)
  have even: "2 * ?h = bits" using parts(3) by (auto simp: word_supported_def)
  obtain t t_inv where t: "to_root_slots r (tau_polynomial r) = Inr t" "length t = ?h"
    and t_inv: "to_root_slots r (tau_inverse r) = Inr t_inv" "length t_inv = ?h"
    by (rule tau_slots_exist [OF assms(1,3)])
  have cells: "ring_cells r slots = map cell_of (map ?c slots)" for slots
    by (simp add: ring_cells_def)
  define u where "u = map (map ?c) (lt_forward ?t)"
  define v where "v = map (map ?c) (lt_inverse ?t)"
  have u: "matrix_shape ?h (2 * ?h) u" and v: "matrix_shape (2 * ?h) ?h v"
    using parts(5) unfolding even by (auto simp: transform_shape_def matrix_shape_def u_def v_def list_all_iff)
  note halves = matrix_shape_halves(1) [OF u, THEN conjunct1] matrix_shape_halves(1) [OF u, THEN conjunct2]
    matrix_shape_halves(2) [OF v, THEN conjunct1] matrix_shape_halves(2) [OF v, THEN conjunct2]
  have len: "length (map ?c t) = ?h" "length (map ?c t_inv) = ?h" using t(2) t_inv(2) by simp_all
  obtain b0 where b0: "special_b0 (take ?h v) = Inr b0" "matrix_shape ?h ?h b0"
    by (rule special_b0_ok [OF halves(3) h(1)])
  note rows0 = scale_rows_ok [OF halves(1) len(2)] and rows1 = scale_rows_ok [OF halves(2) len(2)]
    and cols0 = scale_columns_ok [OF halves(3) len(1) h(2)] and cols1 = scale_columns_ok [OF halves(4) len(1) h(2)]
  let ?m6 = "map (\<lambda>(cells, f). map (multiply_complex f) cells) (zip (map (take ?h) u) (map ?c t_inv))"
  let ?m7 = "map (\<lambda>(cells, f). map (multiply_complex f) cells) (zip (map (drop ?h) u) (map ?c t_inv))"
  let ?m8 = "map (\<lambda>cells. map (\<lambda>(c, f). multiply_complex c f) (zip cells (map ?c t))) (take ?h v)"
  let ?m9 = "map (\<lambda>cells. map (\<lambda>(c, f). multiply_complex c f) (zip cells (map ?c t))) (drop ?h v)"
  note exists = new_transform_spec_exists [OF _ h(2) pow assms(2)]
  obtain s1 where s1: "new_transform_spec ''U0'' (raw_of (map (take ?h) u)) words = Inr s1" "ts_matrix s1 = map (take ?h) u"
    "ts_layout s1 = RepeatedRowLayout" "spec_words s1 = words" "spec_half_width s1 = int ?h"
    using exists [OF halves(1)] by blast
  obtain s2 where s2: "new_transform_spec ''U1'' (raw_of (map (drop ?h) u)) words = Inr s2" "ts_matrix s2 = map (drop ?h) u"
    "ts_layout s2 = RepeatedRowLayout" "spec_words s2 = words" "spec_half_width s2 = int ?h"
    using exists [OF halves(2)] by blast
  obtain s3 where s3: "new_transform_spec ''V0'' (raw_of (take ?h v)) words = Inr s3" "ts_matrix s3 = take ?h v"
    "ts_layout s3 = RepeatedRowLayout" "spec_words s3 = words" "spec_half_width s3 = int ?h"
    using exists [OF halves(3)] by blast
  obtain s4 where s4: "new_transform_spec ''V1'' (raw_of (drop ?h v)) words = Inr s4" "ts_matrix s4 = drop ?h v"
    "ts_layout s4 = RepeatedRowLayout" "spec_words s4 = words" "spec_half_width s4 = int ?h"
    using exists [OF halves(4)] by blast
  obtain s5 where s5: "new_transform_spec ''V0-special-b0'' (raw_of (b0)) words = Inr s5" "ts_matrix s5 = b0"
    "ts_layout s5 = RepeatedRowLayout" "spec_words s5 = words" "spec_half_width s5 = int ?h"
    using exists [OF b0(2)] by blast
  obtain s6 where s6: "new_transform_spec ''U0-fused-tInv'' (raw_of (?m6)) words = Inr s6" "ts_matrix s6 = ?m6"
    "ts_layout s6 = RepeatedRowLayout" "spec_words s6 = words" "spec_half_width s6 = int ?h"
    using exists [OF rows0(2)] by blast
  obtain s7 where s7: "new_transform_spec ''U1-fused-tInv'' (raw_of (?m7)) words = Inr s7" "ts_matrix s7 = ?m7"
    "ts_layout s7 = RepeatedRowLayout" "spec_words s7 = words" "spec_half_width s7 = int ?h"
    using exists [OF rows1(2)] by blast
  obtain s8 where s8: "new_transform_spec ''V0-fused-t'' (raw_of (?m8)) words = Inr s8" "ts_matrix s8 = ?m8"
    "ts_layout s8 = RepeatedRowLayout" "spec_words s8 = words" "spec_half_width s8 = int ?h"
    using exists [OF cols0(2)] by blast
  obtain s9 where s9: "new_transform_spec ''V1-fused-t'' (raw_of (?m9)) words = Inr s9" "ts_matrix s9 = ?m9"
    "ts_layout s9 = RepeatedRowLayout" "spec_words s9 = words" "spec_half_width s9 = int ?h"
    using exists [OF cols1(2)] by blast
  have lens: "length (raw_of (map (take ?h) u)) = ?h" using halves(1) by (simp add: matrix_shape_def)
  have "new_specifications_from_ring (Some r) words = Inr \<lparr>sp_u0 = s1, sp_u1 = s2, sp_v0 = s3, sp_v1 = s4, sp_v0_special_b0 = s5,
      sp_u0_fused_t_inv = s6, sp_u1_fused_t_inv = s7, sp_v0_fused_t = s8, sp_v1_fused_t = s9\<rparr>"
    unfolding new_specifications_from_ring_def option.case ring_cells_raw u_def [symmetric] v_def [symmetric]
      new_matrix_set_ok [OF u v h(1) pow] t(1) t_inv(1) map_err_simps and_then_simps cells
      new_specifications_def matrix_set.simps Let_def lens validate_raw [OF halves(1)] validate_raw [OF halves(2)]
      validate_raw [OF halves(3)] validate_raw [OF halves(4)] b0(1) rows0(1) rows1(1) cols0(1) cols1(1)
      s1(1) s2(1) s3(1) s4(1) s5(1) s6(1) s7(1) s8(1) s9(1)
    using assms(2) by simp
  moreover have "[raw_of (map (take ?h) u), raw_of (map (drop ?h) u), raw_of (take ?h v), raw_of (drop ?h v)] = quadrants r"
    unfolding quadrants_def Let_def ring_cells_raw u_def v_def parts(1) by (simp add: raw_of_def take_map drop_map)
  ultimately show ?thesis
    by (simp add: s1(2-) s2(2-) s3(2-) s4(2-) s5(2-) s6(2-) s7(2-) s8(2-) s9(2-))
qed

lemma ring_specifications_witness:
  "\<exists>r sp. new_with_precision 16 200 = Inr r \<and> new_specifications_from_ring (Some r) 8 = Inr sp \<and>
    spec_half_width (sp_v1_fused_t sp) = 8"
proof -
  obtain r where r: "new_with_precision 16 200 = Inr r"
    using new_with_precision_iff [of 16 200] by (auto simp: word_supported_def)
  have "is_power_of_two 8" using power_of_two_is [of 3] by simp
  moreover have "200 \<le> max_prec" by (simp add: max_prec_def)
  ultimately show ?thesis using ring_specifications [OF r] r by fastforce
qed

end
