(* ===== verification/Wire.thy ===== *)
theory Wire
  imports Digest GoString
begin

unbundle bit_operations_syntax

text \<open>
  The byte-level writers and readers of the authorization and build records
  (\<^verbatim>\<open>wireWriter\<close>, \<^verbatim>\<open>wireReader\<close> of \<^verbatim>\<open>integer/secureeval/route_b_auth_wire.go\<close>, and their copies
  \<^verbatim>\<open>rbdftWriter\<close>, \<^verbatim>\<open>rbdftReader\<close> of \<^verbatim>\<open>route_b_rbdft_wire.go\<close>). A writer method is the list of bytes it
  appends. A reader is a function of the bytes from its offset on, which the source never moves
  back, to a value and the bytes left. The two copies differ in the sentinel of their errors,
  which is the argument \<^verbatim>\<open>mal\<close>. A \<^verbatim>\<open>[32]byte\<close> array is the 256-bit word whose byte i is entry i.
\<close>

section \<open>Little-endian words\<close>

definition le_bytes :: "nat \<Rightarrow> 'a::len word \<Rightarrow> byte list" where
  "le_bytes n w = map (\<lambda>i. ucast (drop_bit (8 * i) w)) [0..<n]"

fun of_le_bytes :: "byte list \<Rightarrow> 'a::len word" where
  "of_le_bytes [] = 0"
| "of_le_bytes (b # bs) = ucast b OR push_bit 8 (of_le_bytes bs)"

lemma length_le_bytes [simp]: "length (le_bytes n w) = n"
  by (simp add: le_bytes_def)

lemma bit_of_le_bytes:
  "bit (of_le_bytes bs :: 'a::len word) k \<longleftrightarrow>
     k < LENGTH('a) \<and> k div 8 < length bs \<and> bit (bs ! (k div 8)) (k mod 8)"
proof (induction bs arbitrary: k)
  case (Cons b bs)
  show ?case
  proof (cases "k < 8")
    case True
    then show ?thesis by (simp add: bit_or_iff bit_ucast_iff bit_push_bit_iff)
  next
    case False
    then have "k div 8 = Suc ((k - 8) div 8)" "(k - 8) mod 8 = k mod 8" by (simp_all add: le_div_geq le_mod_geq)
    moreover have "\<not> bit b k" using False by (auto dest: bit_imp_le_length)
    ultimately show ?thesis using False
      by (auto simp: bit_or_iff bit_ucast_iff bit_push_bit_iff Cons.IH)
  qed
qed simp

lemma of_le_le:
  assumes "LENGTH('a::len) = 8 * n"
  shows "of_le_bytes (le_bytes n w) = (w :: 'a word)"
proof (rule bit_word_eqI)
  fix k assume k: "k < LENGTH('a)"
  then have "k div 8 < n" using assms by (simp add: less_mult_imp_div_less mult.commute)
  then show "bit (of_le_bytes (le_bytes n w) :: 'a word) k \<longleftrightarrow> bit w k"
    using k by (simp add: bit_of_le_bytes) (simp add: le_bytes_def bit_ucast_iff bit_drop_bit_eq)
qed

lemma le_of_le:
  assumes "LENGTH('a::len) = 8 * n" and "length bs = n"
  shows "le_bytes n (of_le_bytes bs :: 'a word) = bs"
proof (rule nth_equalityI)
  fix i assume "i < length (le_bytes n (of_le_bytes bs :: 'a word))"
  then have i: "i < n" by simp
  show "le_bytes n (of_le_bytes bs :: 'a word) ! i = bs ! i"
  proof (rule bit_word_eqI)
    fix k assume k: "k < LENGTH(8)"
    then have "8 * i + k < 8 * n" using i by simp
    moreover have "(8 * i + k) div 8 = i" "(8 * i + k) mod 8 = k" using k by simp_all
    ultimately show "bit (le_bytes n (of_le_bytes bs :: 'a word) ! i) k \<longleftrightarrow> bit (bs ! i) k"
      using i k assms by (simp add: le_bytes_def bit_ucast_iff bit_drop_bit_eq bit_of_le_bytes)
  qed
qed (simp add: assms)

lemma le_bytes_eq:
  assumes "LENGTH('a::len) = 8 * n"
  shows "le_bytes n (v :: 'a word) = le_bytes n w \<longleftrightarrow> v = w"
  by (metis of_le_le [OF assms])

lemma take_le_bytes:
  assumes "LENGTH('a::len) = 8 * n"
  shows "n \<le> length bs \<and> v = (of_le_bytes (take n bs) :: 'a word) \<and> rest = drop n bs \<longleftrightarrow> bs = le_bytes n v @ rest"
proof
  assume "n \<le> length bs \<and> v = of_le_bytes (take n bs) \<and> rest = drop n bs"
  then show "bs = le_bytes n v @ rest" by (simp add: le_of_le [OF assms])
next
  assume "bs = le_bytes n v @ rest"
  then show "n \<le> length bs \<and> v = of_le_bytes (take n bs) \<and> rest = drop n bs"
    by (simp add: of_le_le [OF assms])
qed

section \<open>Errors, digests, strings\<close>

datatype record_error =
  AuthMalformed string | AuthBlocked string | AuthLineage string | DftMalformed string | DftBlocked string
| PlainError string

type_synonym digest = "256 word"

definition sum256 :: "byte list \<Rightarrow> digest" where
  "sum256 m = of_le_bytes (sha256 m)"

lemma sum256_bytes [simp]: "le_bytes 32 (sum256 m) = sha256 m"
  unfolding sum256_def by (rule le_of_le) simp_all

lemma sum256_eq: "sum256 m = sum256 n \<longleftrightarrow> sha256 m = sha256 n"
proof
  assume "sum256 m = sum256 n"
  then have "le_bytes 32 (sum256 m) = le_bytes 32 (sum256 n)" by (rule arg_cong)
  then show "sha256 m = sha256 n" by simp
qed (simp add: sum256_def)

definition is_zero_digest :: "digest \<Rightarrow> bool" where
  "is_zero_digest d \<longleftrightarrow> d = 0"

definition go_string :: "byte list \<Rightarrow> string" where
  "go_string bs = map (\<lambda>b. char_of (unat b)) bs"

lemma ascii_go_string [simp]: "ascii (go_string bs) = bs"
proof -
  have "word_of_nat (of_char (char_of (unat b) :: char)) = b" for b :: byte
  proof -
    have "unat b < 256" using unsigned_less [of b] by simp
    then show ?thesis by simp
  qed
  then show ?thesis by (simp add: ascii_def go_string_def map_idI)
qed

lemma go_string_ascii [simp]: "go_string (ascii s) = s"
proof -
  have "unat (word_of_nat (of_char c) :: byte) = of_char c" for c
    by (simp add: unat_of_nat)
  then show ?thesis by (induction s) (simp_all add: ascii_def go_string_def)
qed

lemma length_ascii [simp]: "length (ascii s) = length s"
  by (simp add: ascii_def)


section \<open>Readers\<close>

type_synonym 'a reader = "byte list \<Rightarrow> (record_error, 'a \<times> byte list) res"

definition rd_return :: "'a \<Rightarrow> 'a reader" where
  "rd_return x bs = Inr (x, bs)"

definition rd_fail :: "record_error \<Rightarrow> 'a reader" where
  "rd_fail e bs = err e"

definition rd_bind :: "'a reader \<Rightarrow> ('a \<Rightarrow> 'b reader) \<Rightarrow> 'b reader" where
  "rd_bind p f bs = and_then (p bs) (\<lambda>(x, rest). f x rest)"

definition rd_lift :: "(record_error, 'a) res \<Rightarrow> 'a reader" where
  "rd_lift m bs = and_then m (\<lambda>x. Inr (x, bs))"

text \<open>A loop that reads one entry after the other.\<close>

fun rd_list :: "nat \<Rightarrow> 'a reader \<Rightarrow> 'a list reader" where
  "rd_list 0 p = rd_return []"
| "rd_list (Suc n) p = rd_bind p (\<lambda>x. rd_bind (rd_list n p) (\<lambda>xs. rd_return (x # xs)))"

definition rd_take :: "(string \<Rightarrow> record_error) \<Rightarrow> nat \<Rightarrow> byte list reader" where
  "rd_take mal n bs =
     (if n > length bs then err (mal ''record is truncated or length overflowed'')
      else Inr (take n bs, drop n bs))"

definition rd_u8 :: "(string \<Rightarrow> record_error) \<Rightarrow> byte reader" where
  "rd_u8 mal = rd_bind (rd_take mal 1) (\<lambda>v. rd_return (v ! 0))"

definition rd_bool :: "(string \<Rightarrow> record_error) \<Rightarrow> bool reader" where
  "rd_bool mal = rd_bind (rd_u8 mal) (\<lambda>v.
     if v > 1 then rd_fail (mal ''Boolean is not zero or one'') else rd_return (v = 1))"

definition rd_u32 :: "(string \<Rightarrow> record_error) \<Rightarrow> 32 word reader" where
  "rd_u32 mal = rd_bind (rd_take mal 4) (\<lambda>v. rd_return (of_le_bytes v))"

definition rd_u64 :: "(string \<Rightarrow> record_error) \<Rightarrow> 64 word reader" where
  "rd_u64 mal = rd_bind (rd_take mal 8) (\<lambda>v. rd_return (of_le_bytes v))"

definition rd_string :: "(string \<Rightarrow> record_error) \<Rightarrow> string reader" where
  "rd_string mal = rd_bind (rd_u32 mal) (\<lambda>n.
     if n = 0 \<or> n > 256 then rd_fail (mal ''string length is outside [1,256]'')
     else rd_bind (rd_take mal (unat n)) (\<lambda>v.
       if \<not> utf8_valid v then rd_fail (mal ''string is not valid UTF-8'') else rd_return (go_string v)))"

definition rd_any_digest :: "(string \<Rightarrow> record_error) \<Rightarrow> digest reader" where
  "rd_any_digest mal = rd_bind (rd_take mal 32) (\<lambda>v. rd_return (of_le_bytes v))"

definition rd_digest :: "(string \<Rightarrow> record_error) \<Rightarrow> digest reader" where
  "rd_digest mal = rd_bind (rd_any_digest mal) (\<lambda>d.
     if is_zero_digest d then rd_fail (mal ''digest is all zero'') else rd_return d)"

definition rd_finish :: "(string \<Rightarrow> record_error) \<Rightarrow> byte list \<Rightarrow> (record_error, unit) res" where
  "rd_finish mal bs = reject_if (bs \<noteq> []) (mal ''record has trailing or unknown body data'')"

section \<open>Writers\<close>

definition wr_bool :: "bool \<Rightarrow> byte list" where
  "wr_bool b = [if b then 1 else 0]"

definition wr_u32 :: "32 word \<Rightarrow> byte list" where
  "wr_u32 w = le_bytes 4 w"

definition wr_u64 :: "64 word \<Rightarrow> byte list" where
  "wr_u64 w = le_bytes 8 w"

definition wr_string :: "string \<Rightarrow> byte list" where
  "wr_string s = wr_u32 (word_of_nat (length s)) @ ascii s"

definition wr_digest :: "digest \<Rightarrow> byte list" where
  "wr_digest d = le_bytes 32 d"

lemma wr_lengths [simp]:
  "length (wr_bool b) = 1" "length (wr_u32 v) = 4" "length (wr_u64 w) = 8" "length (wr_digest d) = 32"
  "length (wr_string s) = 4 + length s"
  by (simp_all add: wr_bool_def wr_u32_def wr_u64_def wr_digest_def wr_string_def)

definition string_ok :: "string \<Rightarrow> bool" where
  "string_ok s \<longleftrightarrow> 0 < length s \<and> length s \<le> 256 \<and> utf8_valid (ascii s)"

section \<open>Codecs\<close>

text \<open>
  A reader that succeeds exactly on the bytes a writer appends for an admissible value, with the
  rest untouched. This one law gives the round trip, the canonicity of the accepted bytes and that
  no encoding is a prefix of another, and it is closed under sequence and repetition.
\<close>

named_theorems wire_reads \<open>what a reader accepts\<close>

locale wire_codec =
  fixes enc :: "'a \<Rightarrow> byte list" and dec :: "'a reader" and ok :: "'a \<Rightarrow> bool"
  assumes reads: "dec bs = Inr (v, rest) \<longleftrightarrow> ok v \<and> bs = enc v @ rest"
begin

lemma reads_back: "ok v \<Longrightarrow> dec (enc v @ rest) = Inr (v, rest)"
  by (simp add: reads)

lemma prefix_free: "ok v \<Longrightarrow> ok w \<Longrightarrow> enc v @ r = enc w @ s \<longleftrightarrow> v = w \<and> r = s"
proof
  assume *: "ok v" "ok w" "enc v @ r = enc w @ s"
  have "dec (enc v @ r) = Inr (v, r)" using *(1) by (rule reads_back)
  moreover have "dec (enc v @ r) = Inr (w, s)" unfolding *(3) using *(2) by (rule reads_back)
  ultimately show "v = w \<and> r = s" by simp
qed simp

lemma reads_list:
  "rd_list n dec bs = Inr (vs, rest) \<longleftrightarrow> length vs = n \<and> list_all ok vs \<and> bs = concat (map enc vs) @ rest"
proof (induction n arbitrary: bs vs)
  case 0
  show ?case by (auto simp: rd_return_def)
next
  case (Suc n)
  then show ?case
    by (cases vs) (auto simp: rd_bind_def rd_return_def and_then_ok reads)
qed

lemma whole: "and_then (dec bs) (\<lambda>(v, rest). and_then (rd_finish mal rest) (\<lambda>_. Inr v)) = Inr v \<longleftrightarrow> ok v \<and> bs = enc v"
  by (auto simp: and_then_ok reads rd_finish_def reject_if_def split: if_splits)

end


lemma rd_bind_reads [wire_reads]:
  "rd_bind p f bs = Inr (v, rest) \<longleftrightarrow> (\<exists>x r. p bs = Inr (x, r) \<and> f x r = Inr (v, rest))"
  by (auto simp: rd_bind_def and_then_ok)

lemma rd_return_reads [wire_reads]: "rd_return x bs = Inr (v, rest) \<longleftrightarrow> v = x \<and> bs = rest"
  by (auto simp: rd_return_def)

lemma rd_fail_reads [wire_reads]: "\<not> rd_fail e bs = Inr (v, rest)"
  by (simp add: rd_fail_def)

lemma rd_lift_reads [wire_reads]: "rd_lift m bs = Inr (v, rest) \<longleftrightarrow> m = Inr v \<and> bs = rest"
  by (auto simp: rd_lift_def and_then_ok)

lemma rd_take_reads [wire_reads]: "rd_take mal n bs = Inr (v, rest) \<longleftrightarrow> length v = n \<and> bs = v @ rest"
  by (auto simp: rd_take_def)

lemma singleton_byte: "length v = Suc 0 \<longleftrightarrow> v = [v ! 0]"
  by (cases v) auto

lemma u8_reads: "rd_u8 mal bs = Inr (v, rest) \<longleftrightarrow> True \<and> bs = [v] @ rest"
  by (auto simp: rd_u8_def wire_reads singleton_byte)

interpretation u8: wire_codec "\<lambda>v. [v]" "rd_u8 mal" "\<lambda>_. True" for mal
  by unfold_locales (rule u8_reads)

lemma byte_bool: "v \<le> 1 \<longleftrightarrow> v = 0 \<or> v = 1" for v :: byte
proof
  assume "v \<le> 1"
  then have "unat v \<le> 1" by (simp add: word_le_nat_alt)
  then have "unat v = 0 \<or> unat v = 1" by linarith
  then show "v = 0 \<or> v = 1" by (auto simp: word_unat_eq_iff)
qed auto

interpretation boolean: wire_codec wr_bool "rd_bool mal" "\<lambda>_. True" for mal
proof
  show "rd_bool mal bs = Inr (v, rest) \<longleftrightarrow> True \<and> bs = wr_bool v @ rest" for bs v rest
  proof -
    have bit: "(if x > 1 then rd_fail e else rd_return (x = 1)) r = Inr (v, rest) \<longleftrightarrow> x \<le> 1 \<and> v = (x = 1) \<and> r = rest"
      for x :: byte and e r by (cases "1 < x") (auto simp: wire_reads not_less)
    have "rd_bool mal bs = Inr (v, rest) \<longleftrightarrow> (\<exists>x. bs = x # rest \<and> x \<le> 1 \<and> v = (x = 1))"
      unfolding rd_bool_def rd_bind_reads u8_reads bit by simp
    also have "\<dots> \<longleftrightarrow> True \<and> bs = wr_bool v @ rest"
      unfolding byte_bool wr_bool_def using zero_neq_one [where 'a = byte] by (metis (full_types) append_Cons append_Nil)
    finally show ?thesis .
  qed
qed

lemma of_le_reads:
  assumes "LENGTH('a::len) = 8 * n"
  shows "rd_bind (rd_take mal n) (\<lambda>v. rd_return (of_le_bytes v)) bs = Inr (v :: 'a word, rest) \<longleftrightarrow> True \<and> bs = le_bytes n v @ rest"
proof -
  have "rd_bind (rd_take mal n) (\<lambda>v. rd_return (of_le_bytes v)) bs = Inr (v, rest) \<longleftrightarrow>
      (\<exists>x. length x = n \<and> bs = x @ rest \<and> v = of_le_bytes x)"
    by (auto simp: wire_reads)
  also have "\<dots> \<longleftrightarrow> True \<and> bs = le_bytes n v @ rest"
    using le_of_le [OF assms] of_le_le [OF assms, of v] length_le_bytes [of n v] by metis
  finally show ?thesis .
qed

interpretation u32: wire_codec wr_u32 "rd_u32 mal" "\<lambda>_. True" for mal
  by unfold_locales (unfold rd_u32_def wr_u32_def, rule of_le_reads, simp)

interpretation u64: wire_codec wr_u64 "rd_u64 mal" "\<lambda>_. True" for mal
  by unfold_locales (unfold rd_u64_def wr_u64_def, rule of_le_reads, simp)

interpretation any_digest: wire_codec wr_digest "rd_any_digest mal" "\<lambda>_. True" for mal
  by unfold_locales (unfold rd_any_digest_def wr_digest_def, rule of_le_reads, simp)

interpretation digest: wire_codec wr_digest "rd_digest mal" "\<lambda>d. d \<noteq> 0" for mal
proof
  show "rd_digest mal bs = Inr (v, rest) \<longleftrightarrow> v \<noteq> 0 \<and> bs = wr_digest v @ rest" for bs v rest
    by (auto simp: rd_digest_def wire_reads any_digest.reads is_zero_digest_def split: if_splits)
qed

interpretation str: wire_codec wr_string "rd_string mal" string_ok for mal
proof
  show "rd_string mal bs = Inr (v, rest) \<longleftrightarrow> string_ok v \<and> bs = wr_string v @ rest" for bs v rest
  proof
    assume "rd_string mal bs = Inr (v, rest)"
    then obtain n x where n: "n \<noteq> 0" "n \<le> 256" and bs: "bs = wr_u32 n @ x @ rest" "length x = unat n"
        and v: "utf8_valid x" "v = go_string x"
      by (auto simp: rd_string_def wire_reads u32.reads not_less split: if_splits)
    have len: "length v = unat n" by (simp add: v(2) go_string_def bs(2))
    have "string_ok v"
    proof -
      have "0 < unat n" "unat n \<le> 256" using n by (simp_all add: unat_gt_0 word_le_nat_alt)
      then show ?thesis using len v by (simp only: string_ok_def ascii_go_string simp_thms)
    qed
    moreover have "wr_string v = wr_u32 n @ x" using len by (simp add: wr_string_def v(2) bs(2))
    ultimately show "string_ok v \<and> bs = wr_string v @ rest" using bs(1) by simp
  next
    assume v: "string_ok v \<and> bs = wr_string v @ rest"
    let ?n = "word_of_nat (length v) :: 32 word"
    have n: "unat ?n = length v" using v by (simp add: string_ok_def unat_of_nat)
    then have "?n \<noteq> 0" "\<not> ?n > 256" using v by (auto simp: string_ok_def word_less_nat_alt word_unat_eq_iff)
    moreover have "rd_u32 mal bs = Inr (?n, ascii v @ rest)"
      using v by (simp add: u32.reads wr_string_def)
    moreover have "rd_take mal (unat ?n) (ascii v @ rest) = Inr (ascii v, rest)"
      unfolding rd_take_reads n by simp
    moreover have "utf8_valid (ascii v)" using v by (simp add: string_ok_def)
    ultimately show "rd_string mal bs = Inr (v, rest)"
      unfolding rd_string_def rd_bind_def rd_return_def
      by (simp only: and_then_simps prod.case simp_thms if_False go_string_ascii)
  qed
qed

lemmas wire_primitives [wire_reads] = u8.reads boolean.reads u32.reads u64.reads any_digest.reads digest.reads str.reads

end
