(* ===== verification/AuthWire.thy ===== *)
theory AuthWire
  imports Wire
begin

unbundle bit_operations_syntax

text \<open>
  The authorization records of \<^verbatim>\<open>integer/secureeval/route_b_auth_wire.go\<close>: the build and ready
  specifications and permits with their framing checks, their binary form with its magic, type
  byte and SHA-256 seal, their identities and links, the frozen constants they are compared with,
  and the memory-peak ledger.
\<close>

section \<open>Constants\<close>

definition rbauth_magic :: string where "rbauth_magic = ''LCPDTE-RBAUTH-v1''"

definition artifact_build_spec_type :: byte where "artifact_build_spec_type = 1"
definition artifact_build_permit_type :: byte where "artifact_build_permit_type = 2"
definition ready_spec_type :: byte where "ready_spec_type = 3"
definition ready_permit_type :: byte where "ready_permit_type = 4"

definition scratch_digest_domain :: byte where "scratch_digest_domain = 0x83"
definition peak_digest_domain :: byte where "peak_digest_domain = 0x84"

definition build_spec_max_bytes :: nat where "build_spec_max_bytes = 3212"
definition build_permit_max_bytes :: nat where "build_permit_max_bytes = 3244"
definition ready_spec_max_bytes :: nat where "ready_spec_max_bytes = 1943"
definition ready_permit_max_bytes :: nat where "ready_permit_max_bytes = 1975"

definition full_artifact_peak_bytes :: "64 word" where "full_artifact_peak_bytes = 2968063744"
definition pre_guard_incremental_peak_bytes :: "64 word" where "pre_guard_incremental_peak_bytes = 7129861888"
definition guarded_requirement_bytes :: "64 word" where "guarded_requirement_bytes = 7842848076"
definition duplicate_default_bytes :: "64 word" where "duplicate_default_bytes = 2641362944"

definition adaptation_label :: string where "adaptation_label = ''lattigo_packing_adaptation_r1''"
definition build_evidence_scope :: string where "build_evidence_scope = ''route_b_artifact_build_authorization_only''"
definition ready_evidence_scope :: string where "ready_evidence_scope = ''route_b_artifact_ready_authorization_only''"
definition rbauth_maturity :: string where "rbauth_maturity = ''route_b_construction_contract_only_unverified''"
definition builder_id :: string where "builder_id = ''lattigo-route-b-prebuilt-dft-streaming-builder-v1''"
definition digest_id :: string where "digest_id = ''sha256-canonical-streaming-binary-v1''"
definition allocation_id :: string where "allocation_id = ''stc-then-cts-single-factor-v1''"
definition release_id :: string where "release_id = ''logical-reference-drop-v1''"
definition ownership_id :: string where "ownership_id = ''private-exclusive-transfer-v1''"
definition private_uninstalled_state :: string where "private_uninstalled_state = ''private-uninstalled''"
definition construction_order_stc_drop_cts :: byte where "construction_order_stc_drop_cts = 1"

section \<open>Records\<close>

record classification =
  cl_adaptation_label :: string
  cl_evidence_scope :: string
  cl_maturity :: string
  cl_source_faithful :: bool
  cl_full_packed :: bool

record capacity_binding =
  cb_snapshot_id :: string
  cb_total :: "64 word"
  cb_available :: "64 word"
  cb_plan :: digest
  cb_probe :: digest
  cb_report :: digest
  cb_permit :: digest
  cb_parameter :: digest
  cb_profile :: digest
  cb_shape :: digest
  cb_policy :: digest

record transform_digests =
  td_raw_stc_literal :: digest
  td_raw_stc_scaling :: digest
  td_effective_stc_literal :: digest
  td_effective_stc_scaling :: digest
  td_raw_cts_literal :: digest
  td_raw_cts_scaling :: digest
  td_effective_cts_literal :: digest
  td_effective_cts_scaling :: digest

record scratch_ledger =
  sl_roots :: "64 word"
  sl_pow5 :: "64 word"
  sl_abc_layer :: "64 word"
  sl_largest_stc_factor :: "64 word"
  sl_largest_cts_factor :: "64 word"
  sl_stc_phase_maximum :: "64 word"
  sl_cts_phase_maximum :: "64 word"
  sl_artifact_envelope :: "64 word"
  sl_remaining_envelope :: "64 word"
  sl_digest :: digest

record peak_contract =
  pk_full_artifact :: "64 word"
  pk_pre_guard :: "64 word"
  pk_guarded :: "64 word"
  pk_remaining :: "64 word"
  pk_duplicate_default :: "64 word"
  pk_duplicate_excess :: "64 word"
  pk_digest :: digest

record build_spec =
  bp_classification :: classification
  bp_capacity :: capacity_binding
  bp_prepared :: digest
  bp_transforms :: transform_digests
  bp_generator_precision :: "32 word"
  bp_encoder_precision :: "32 word"
  bp_builder_id :: string
  bp_digest_id :: string
  bp_allocation_id :: string
  bp_release_id :: string
  bp_ownership_id :: string
  bp_construction_order :: byte
  bp_stc_factor_count :: "32 word"
  bp_stc_diagonals :: "32 word \<times> 32 word"
  bp_cts_factor_count :: "32 word"
  bp_cts_diagonals :: "32 word \<times> 32 word \<times> 32 word"
  bp_default_delta :: "64 word"
  bp_explicit_delta :: "64 word"
  bp_raw_numeric_delta :: "64 word"
  bp_observed_delta :: "64 word"
  bp_scratch :: scratch_ledger
  bp_peak :: peak_contract

record build_permit_report =
  bm_spec_digest :: digest
  bm_spec :: build_spec

record payload_tuple =
  pt_digest :: digest
  pt_bytes :: "64 word"

record actual_payload =
  ap_stc_numeric :: payload_tuple
  ap_stc_encoded :: payload_tuple
  ap_cts_numeric :: payload_tuple
  ap_cts_encoded :: payload_tuple

record ready_spec =
  rs_classification :: classification
  rs_capacity :: capacity_binding
  rs_prepared :: digest
  rs_build_spec :: digest
  rs_build_permit :: digest
  rs_build_receipt :: digest
  rs_pair_manifest :: digest
  rs_payload :: actual_payload
  rs_artifact_state :: string

record ready_permit_report =
  rm_spec_digest :: digest
  rm_spec :: ready_spec

section \<open>Framing checks\<close>

definition capacity_digests :: "capacity_binding \<Rightarrow> digest list" where
  "capacity_digests v = [cb_plan v, cb_probe v, cb_report v, cb_permit v, cb_parameter v, cb_profile v, cb_shape v, cb_policy v]"

definition transform_digest_list :: "transform_digests \<Rightarrow> digest list" where
  "transform_digest_list v =
     [td_raw_stc_literal v, td_raw_stc_scaling v, td_effective_stc_literal v, td_effective_stc_scaling v,
      td_raw_cts_literal v, td_raw_cts_scaling v, td_effective_cts_literal v, td_effective_cts_scaling v]"

definition payload_tuples :: "actual_payload \<Rightarrow> payload_tuple list" where
  "payload_tuples v = [ap_stc_numeric v, ap_stc_encoded v, ap_cts_numeric v, ap_cts_encoded v]"

definition validate_string :: "string \<Rightarrow> (record_error, unit) res" where
  "validate_string s = reject_if (length s = 0 \<or> length s > 256 \<or> \<not> utf8_valid (ascii s))
     (AuthMalformed ''string length or UTF-8 is invalid'')"

definition validate_classification :: "classification \<Rightarrow> (record_error, unit) res" where
  "validate_classification v = check_each (\<lambda>_. validate_string) 0
     [cl_adaptation_label v, cl_evidence_scope v, cl_maturity v]"

definition validate_capacity :: "capacity_binding \<Rightarrow> (record_error, unit) res" where
  "validate_capacity v =
     and_then (validate_string (cb_snapshot_id v)) (\<lambda>_.
     if trim_space (cb_snapshot_id v) = '''' \<or> cb_total v = 0 \<or> cb_available v > cb_total v
     then err (AuthMalformed ''invalid physical-memory snapshot'')
     else check_each (\<lambda>_ d. reject_if (is_zero_digest d) (AuthMalformed ''zero capacity digest'')) 0 (capacity_digests v))"

definition validate_build_spec_framing :: "build_spec \<Rightarrow> (record_error, unit) res" where
  "validate_build_spec_framing v =
     and_then (validate_classification (bp_classification v)) (\<lambda>_.
     and_then (validate_capacity (bp_capacity v)) (\<lambda>_.
     and_then (check_each (\<lambda>_ d. reject_if (is_zero_digest d) (AuthMalformed ''zero build digest'')) 0
       (bp_prepared v # transform_digest_list (bp_transforms v))) (\<lambda>_.
     and_then (check_each (\<lambda>_. validate_string) 0
       [bp_builder_id v, bp_digest_id v, bp_allocation_id v, bp_release_id v, bp_ownership_id v]) (\<lambda>_.
     reject_if (is_zero_digest (sl_digest (bp_scratch v)) \<or> is_zero_digest (pk_digest (bp_peak v)))
       (AuthMalformed ''zero scratch or peak digest'')))))"

definition validate_ready_spec_framing :: "ready_spec \<Rightarrow> (record_error, unit) res" where
  "validate_ready_spec_framing v =
     and_then (validate_classification (rs_classification v)) (\<lambda>_.
     and_then (validate_capacity (rs_capacity v)) (\<lambda>_.
     and_then (check_each (\<lambda>_ d. reject_if (is_zero_digest d) (AuthMalformed ''zero ready digest'')) 0
       ([rs_prepared v, rs_build_spec v, rs_build_permit v, rs_build_receipt v, rs_pair_manifest v] @
        map pt_digest (payload_tuples (rs_payload v)))) (\<lambda>_.
     validate_string (rs_artifact_state v))))"

section \<open>Writing and reading the bodies\<close>

definition wr_classification :: "classification \<Rightarrow> byte list" where
  "wr_classification v =
     wr_string (cl_adaptation_label v) @ wr_string (cl_evidence_scope v) @ wr_string (cl_maturity v) @
     wr_bool (cl_source_faithful v) @ wr_bool (cl_full_packed v)"

definition rd_classification :: "classification reader" where
  "rd_classification =
     rd_bind (rd_string AuthMalformed) (\<lambda>label. rd_bind (rd_string AuthMalformed) (\<lambda>scope.
     rd_bind (rd_string AuthMalformed) (\<lambda>maturity. rd_bind (rd_bool AuthMalformed) (\<lambda>faithful.
     rd_bind (rd_bool AuthMalformed) (\<lambda>packed.
     rd_return \<lparr>cl_adaptation_label = label, cl_evidence_scope = scope, cl_maturity = maturity,
       cl_source_faithful = faithful, cl_full_packed = packed\<rparr>)))))"

definition wr_capacity :: "capacity_binding \<Rightarrow> byte list" where
  "wr_capacity v = wr_string (cb_snapshot_id v) @ wr_u64 (cb_total v) @ wr_u64 (cb_available v) @
     concat (map wr_digest (capacity_digests v))"

definition rd_capacity :: "capacity_binding reader" where
  "rd_capacity =
     rd_bind (rd_string AuthMalformed) (\<lambda>snapshot. rd_bind (rd_u64 AuthMalformed) (\<lambda>total.
     rd_bind (rd_u64 AuthMalformed) (\<lambda>available. rd_bind (rd_list 8 (rd_digest AuthMalformed)) (\<lambda>ds.
     let v = \<lparr>cb_snapshot_id = snapshot, cb_total = total, cb_available = available,
       cb_plan = ds ! 0, cb_probe = ds ! 1, cb_report = ds ! 2, cb_permit = ds ! 3,
       cb_parameter = ds ! 4, cb_profile = ds ! 5, cb_shape = ds ! 6, cb_policy = ds ! 7\<rparr>
     in rd_bind (rd_lift (validate_capacity v)) (\<lambda>_. rd_return v)))))"

definition scratch_fields :: "scratch_ledger \<Rightarrow> 64 word list" where
  "scratch_fields v = [sl_roots v, sl_pow5 v, sl_abc_layer v, sl_largest_stc_factor v, sl_largest_cts_factor v,
     sl_stc_phase_maximum v, sl_cts_phase_maximum v, sl_artifact_envelope v, sl_remaining_envelope v]"

definition wr_scratch_fields :: "scratch_ledger \<Rightarrow> byte list" where
  "wr_scratch_fields v = concat (map wr_u64 (scratch_fields v))"

definition rd_scratch :: "scratch_ledger reader" where
  "rd_scratch =
     rd_bind (rd_list 9 (rd_u64 AuthMalformed)) (\<lambda>fs. rd_bind (rd_digest AuthMalformed) (\<lambda>d.
     rd_return \<lparr>sl_roots = fs ! 0, sl_pow5 = fs ! 1, sl_abc_layer = fs ! 2, sl_largest_stc_factor = fs ! 3,
       sl_largest_cts_factor = fs ! 4, sl_stc_phase_maximum = fs ! 5, sl_cts_phase_maximum = fs ! 6,
       sl_artifact_envelope = fs ! 7, sl_remaining_envelope = fs ! 8, sl_digest = d\<rparr>))"

definition peak_fields :: "peak_contract \<Rightarrow> 64 word list" where
  "peak_fields v = [pk_full_artifact v, pk_pre_guard v, pk_guarded v, pk_remaining v, pk_duplicate_default v, pk_duplicate_excess v]"

definition wr_peak_fields :: "peak_contract \<Rightarrow> byte list" where
  "wr_peak_fields v = concat (map wr_u64 (peak_fields v))"

definition rd_peak :: "peak_contract reader" where
  "rd_peak =
     rd_bind (rd_list 6 (rd_u64 AuthMalformed)) (\<lambda>fs. rd_bind (rd_digest AuthMalformed) (\<lambda>d.
     rd_return \<lparr>pk_full_artifact = fs ! 0, pk_pre_guard = fs ! 1, pk_guarded = fs ! 2, pk_remaining = fs ! 3,
       pk_duplicate_default = fs ! 4, pk_duplicate_excess = fs ! 5, pk_digest = d\<rparr>))"


definition wr_build_spec :: "build_spec \<Rightarrow> byte list" where
  "wr_build_spec v =
     wr_classification (bp_classification v) @ wr_capacity (bp_capacity v) @ wr_digest (bp_prepared v) @
     concat (map wr_digest (transform_digest_list (bp_transforms v))) @
     wr_u32 (bp_generator_precision v) @ wr_u32 (bp_encoder_precision v) @
     wr_string (bp_builder_id v) @ wr_string (bp_digest_id v) @ wr_string (bp_allocation_id v) @
     wr_string (bp_release_id v) @ wr_string (bp_ownership_id v) @ [bp_construction_order v] @
     wr_u32 (bp_stc_factor_count v) @ wr_u32 2 @
     (case bp_stc_diagonals v of (a, b) \<Rightarrow> wr_u32 a @ wr_u32 b) @
     wr_u32 (bp_cts_factor_count v) @ wr_u32 3 @
     (case bp_cts_diagonals v of (a, b, c) \<Rightarrow> wr_u32 a @ wr_u32 b @ wr_u32 c) @
     wr_u64 (bp_default_delta v) @ wr_u64 (bp_explicit_delta v) @ wr_u64 (bp_raw_numeric_delta v) @
     wr_u64 (bp_observed_delta v) @
     wr_scratch_fields (bp_scratch v) @ wr_digest (sl_digest (bp_scratch v)) @
     wr_peak_fields (bp_peak v) @ wr_digest (pk_digest (bp_peak v))"

definition rd_count :: "nat \<Rightarrow> string \<Rightarrow> 32 word list reader" where
  "rd_count n msg = rd_bind (rd_u32 AuthMalformed) (\<lambda>count.
     if count \<noteq> word_of_nat n then rd_fail (AuthMalformed msg) else rd_list n (rd_u32 AuthMalformed))"

definition rd_build_spec :: "build_spec reader" where
  "rd_build_spec =
     rd_bind rd_classification (\<lambda>cl. rd_bind rd_capacity (\<lambda>capacity.
     rd_bind (rd_digest AuthMalformed) (\<lambda>prepared. rd_bind (rd_list 8 (rd_digest AuthMalformed)) (\<lambda>ds.
     rd_bind (rd_u32 AuthMalformed) (\<lambda>generator. rd_bind (rd_u32 AuthMalformed) (\<lambda>encoder.
     rd_bind (rd_list 5 (rd_string AuthMalformed)) (\<lambda>ids. rd_bind (rd_u8 AuthMalformed) (\<lambda>order.
     rd_bind (rd_u32 AuthMalformed) (\<lambda>stc. rd_bind (rd_count 2 ''invalid STC diagonal list count'') (\<lambda>sds.
     rd_bind (rd_u32 AuthMalformed) (\<lambda>cts. rd_bind (rd_count 3 ''invalid CTS diagonal list count'') (\<lambda>cds.
     rd_bind (rd_u64 AuthMalformed) (\<lambda>default. rd_bind (rd_u64 AuthMalformed) (\<lambda>explicit.
     rd_bind (rd_u64 AuthMalformed) (\<lambda>raw. rd_bind (rd_u64 AuthMalformed) (\<lambda>observed.
     rd_bind rd_scratch (\<lambda>scratch. rd_bind rd_peak (\<lambda>peak.
     let v = \<lparr>bp_classification = cl, bp_capacity = capacity, bp_prepared = prepared,
       bp_transforms = \<lparr>td_raw_stc_literal = ds ! 0, td_raw_stc_scaling = ds ! 1,
         td_effective_stc_literal = ds ! 2, td_effective_stc_scaling = ds ! 3, td_raw_cts_literal = ds ! 4,
         td_raw_cts_scaling = ds ! 5, td_effective_cts_literal = ds ! 6, td_effective_cts_scaling = ds ! 7\<rparr>,
       bp_generator_precision = generator, bp_encoder_precision = encoder,
       bp_builder_id = ids ! 0, bp_digest_id = ids ! 1, bp_allocation_id = ids ! 2, bp_release_id = ids ! 3,
       bp_ownership_id = ids ! 4, bp_construction_order = order,
       bp_stc_factor_count = stc, bp_stc_diagonals = (sds ! 0, sds ! 1),
       bp_cts_factor_count = cts, bp_cts_diagonals = (cds ! 0, cds ! 1, cds ! 2),
       bp_default_delta = default, bp_explicit_delta = explicit, bp_raw_numeric_delta = raw,
       bp_observed_delta = observed, bp_scratch = scratch, bp_peak = peak\<rparr>
     in rd_bind (rd_lift (validate_build_spec_framing v)) (\<lambda>_. rd_return v)))))))))))))))))))"

definition wr_payload :: "payload_tuple \<Rightarrow> byte list" where
  "wr_payload t = wr_digest (pt_digest t) @ wr_u64 (pt_bytes t)"

definition rd_payload :: "payload_tuple reader" where
  "rd_payload = rd_bind (rd_digest AuthMalformed) (\<lambda>d. rd_bind (rd_u64 AuthMalformed) (\<lambda>n.
     rd_return \<lparr>pt_digest = d, pt_bytes = n\<rparr>))"

definition payload_of :: "payload_tuple list \<Rightarrow> actual_payload" where
  "payload_of ts = \<lparr>ap_stc_numeric = ts ! 0, ap_stc_encoded = ts ! 1, ap_cts_numeric = ts ! 2, ap_cts_encoded = ts ! 3\<rparr>"

definition wr_ready_spec :: "ready_spec \<Rightarrow> byte list" where
  "wr_ready_spec v =
     wr_classification (rs_classification v) @ wr_capacity (rs_capacity v) @ wr_digest (rs_prepared v) @
     wr_digest (rs_build_spec v) @ wr_digest (rs_build_permit v) @ wr_digest (rs_build_receipt v) @
     wr_digest (rs_pair_manifest v) @ concat (map wr_payload (payload_tuples (rs_payload v))) @
     wr_string (rs_artifact_state v)"

definition rd_ready_spec :: "ready_spec reader" where
  "rd_ready_spec =
     rd_bind rd_classification (\<lambda>cl. rd_bind rd_capacity (\<lambda>capacity.
     rd_bind (rd_digest AuthMalformed) (\<lambda>prepared. rd_bind (rd_digest AuthMalformed) (\<lambda>spec.
     rd_bind (rd_digest AuthMalformed) (\<lambda>permit. rd_bind (rd_digest AuthMalformed) (\<lambda>receipt.
     rd_bind (rd_digest AuthMalformed) (\<lambda>manifest. rd_bind (rd_list 4 rd_payload) (\<lambda>ts.
     rd_bind (rd_string AuthMalformed) (\<lambda>artifact.
     let v = \<lparr>rs_classification = cl, rs_capacity = capacity, rs_prepared = prepared, rs_build_spec = spec,
       rs_build_permit = permit, rs_build_receipt = receipt, rs_pair_manifest = manifest,
       rs_payload = payload_of ts, rs_artifact_state = artifact\<rparr>
     in rd_bind (rd_lift (validate_ready_spec_framing v)) (\<lambda>_. rd_return v))))))))))"

section \<open>Sealed records\<close>

definition marshal_record :: "byte \<Rightarrow> nat \<Rightarrow> byte list \<Rightarrow> (record_error, byte list) res" where
  "marshal_record record_type maximum body =
     (let buffer = ascii rbauth_magic @ [record_type] @ body in
      if length buffer + 32 > maximum then err (AuthMalformed ''record exceeds its type-specific maximum'')
      else Inr (buffer @ sha256 buffer))"

definition parse_envelope :: "byte list \<Rightarrow> byte \<Rightarrow> nat \<Rightarrow> (record_error, byte list) res" where
  "parse_envelope encoded record_type maximum =
     (let magic = ascii rbauth_magic; body_end = length encoded - 32 in
      if length encoded > maximum then err (AuthMalformed ''record exceeds its type-specific maximum'')
      else if length encoded < length magic + 1 + 32 then err (AuthMalformed ''record is truncated'')
      else if take (length magic) encoded \<noteq> magic \<or> encoded ! length magic \<noteq> record_type
        then err (AuthMalformed ''record magic or type changed'')
      else if sha256 (take body_end encoded) \<noteq> drop body_end encoded then err (AuthMalformed ''record seal changed'')
      else Inr (drop (length magic + 1) (take body_end encoded)))"

definition parse_record :: "byte \<Rightarrow> nat \<Rightarrow> 'a reader \<Rightarrow> byte list \<Rightarrow> (record_error, 'a) res" where
  "parse_record record_type maximum body encoded =
     and_then (parse_envelope encoded record_type maximum) (\<lambda>data.
     and_then (body data) (\<lambda>(v, rest). and_then (rd_finish AuthMalformed rest) (\<lambda>_. Inr v)))"

definition marshal_build_spec :: "build_spec \<Rightarrow> (record_error, byte list) res" where
  "marshal_build_spec v = and_then (validate_build_spec_framing v) (\<lambda>_.
     marshal_record artifact_build_spec_type build_spec_max_bytes (wr_build_spec v))"

definition parse_build_spec :: "byte list \<Rightarrow> (record_error, build_spec) res" where
  "parse_build_spec = parse_record artifact_build_spec_type build_spec_max_bytes rd_build_spec"

definition wr_build_permit :: "build_permit_report \<Rightarrow> byte list" where
  "wr_build_permit v = wr_digest (bm_spec_digest v) @ wr_build_spec (bm_spec v)"

definition rd_build_permit :: "build_permit_report reader" where
  "rd_build_permit = rd_bind (rd_digest AuthMalformed) (\<lambda>d. rd_bind rd_build_spec (\<lambda>spec.
     rd_return \<lparr>bm_spec_digest = d, bm_spec = spec\<rparr>))"

definition marshal_build_permit :: "build_permit_report \<Rightarrow> (record_error, byte list) res" where
  "marshal_build_permit v =
     (if is_zero_digest (bm_spec_digest v) then err (AuthMalformed ''zero build-spec digest'')
      else and_then (validate_build_spec_framing (bm_spec v)) (\<lambda>_.
        marshal_record artifact_build_permit_type build_permit_max_bytes (wr_build_permit v)))"

definition parse_build_permit :: "byte list \<Rightarrow> (record_error, build_permit_report) res" where
  "parse_build_permit = parse_record artifact_build_permit_type build_permit_max_bytes rd_build_permit"

definition marshal_ready_spec :: "ready_spec \<Rightarrow> (record_error, byte list) res" where
  "marshal_ready_spec v = and_then (validate_ready_spec_framing v) (\<lambda>_.
     marshal_record ready_spec_type ready_spec_max_bytes (wr_ready_spec v))"

definition parse_ready_spec :: "byte list \<Rightarrow> (record_error, ready_spec) res" where
  "parse_ready_spec = parse_record ready_spec_type ready_spec_max_bytes rd_ready_spec"

definition wr_ready_permit :: "ready_permit_report \<Rightarrow> byte list" where
  "wr_ready_permit v = wr_digest (rm_spec_digest v) @ wr_ready_spec (rm_spec v)"

definition rd_ready_permit :: "ready_permit_report reader" where
  "rd_ready_permit = rd_bind (rd_digest AuthMalformed) (\<lambda>d. rd_bind rd_ready_spec (\<lambda>spec.
     rd_return \<lparr>rm_spec_digest = d, rm_spec = spec\<rparr>))"

definition marshal_ready_permit :: "ready_permit_report \<Rightarrow> (record_error, byte list) res" where
  "marshal_ready_permit v =
     (if is_zero_digest (rm_spec_digest v) then err (AuthMalformed ''zero ready-spec digest'')
      else and_then (validate_ready_spec_framing (rm_spec v)) (\<lambda>_.
        marshal_record ready_permit_type ready_permit_max_bytes (wr_ready_permit v)))"

definition parse_ready_permit :: "byte list \<Rightarrow> (record_error, ready_permit_report) res" where
  "parse_ready_permit = parse_record ready_permit_type ready_permit_max_bytes rd_ready_permit"


section \<open>Identities and links\<close>

definition record_identity :: "byte list \<Rightarrow> (record_error, digest) res" where
  "record_identity encoded =
     (let magic = ascii rbauth_magic in
      if length encoded < length magic + 1 + 32 \<or> take (length magic) encoded \<noteq> magic
      then err (AuthMalformed ''invalid record identity input'')
      else and_then
        (if encoded ! length magic = artifact_build_spec_type then and_then (parse_build_spec encoded) (\<lambda>_. Inr ())
         else if encoded ! length magic = artifact_build_permit_type then and_then (parse_build_permit encoded) (\<lambda>_. Inr ())
         else if encoded ! length magic = ready_spec_type then and_then (parse_ready_spec encoded) (\<lambda>_. Inr ())
         else if encoded ! length magic = ready_permit_type then and_then (parse_ready_permit encoded) (\<lambda>_. Inr ())
         else err (AuthMalformed ''unknown RBAUTH-v1 record type''))
        (\<lambda>_. Inr (of_le_bytes (drop (length encoded - 32) encoded))))"

definition build_permit_embedded :: "build_permit_report \<Rightarrow> (record_error, unit) res" where
  "build_permit_embedded v =
     and_then (marshal_build_spec (bm_spec v)) (\<lambda>record.
     and_then (record_identity record) (\<lambda>identity.
     reject_if (bm_spec_digest v \<noteq> identity) (AuthBlocked ''build permit does not bind its embedded build spec'')))"

definition ready_permit_embedded :: "ready_permit_report \<Rightarrow> (record_error, unit) res" where
  "ready_permit_embedded v =
     and_then (marshal_ready_spec (rm_spec v)) (\<lambda>record.
     and_then (record_identity record) (\<lambda>identity.
     reject_if (rm_spec_digest v \<noteq> identity) (AuthBlocked ''ready permit does not bind its embedded ready spec'')))"

definition rbdft_magic :: string where
  "rbdft_magic = ''LCPDTE-RBDFT-v1'' @ [char_of (0 :: nat)]"

definition validate_rbdft_header :: "byte list \<Rightarrow> byte \<Rightarrow> (record_error, unit) res" where
  "validate_rbdft_header encoded record_type =
     (let magic = ascii rbdft_magic in
      reject_if (length encoded < length magic + 2 \<or> take (length magic) encoded \<noteq> magic \<or>
          encoded ! length magic \<noteq> record_type \<or> encoded ! (length magic + 1) \<noteq> 0)
        (AuthMalformed ''invalid RBDFT-v1 linked record''))"

definition validate_links ::
  "ready_spec \<Rightarrow> byte list \<Rightarrow> byte list \<Rightarrow> byte list \<Rightarrow> byte list \<Rightarrow> (record_error, unit) res" where
  "validate_links v build_spec_record build_permit_record build_receipt_record pair_manifest_record =
     and_then (parse_build_spec build_spec_record) (\<lambda>_.
     and_then (record_identity build_spec_record) (\<lambda>spec_identity.
     and_then (parse_build_permit build_permit_record) (\<lambda>permit.
     and_then (build_permit_embedded permit) (\<lambda>_.
     and_then (record_identity build_permit_record) (\<lambda>permit_identity.
     and_then (validate_rbdft_header build_receipt_record 7) (\<lambda>_.
     and_then (validate_rbdft_header pair_manifest_record 5) (\<lambda>_.
     reject_if (rs_build_spec v \<noteq> spec_identity \<or> bm_spec_digest permit \<noteq> spec_identity \<or>
         rs_build_permit v \<noteq> permit_identity \<or> rs_build_receipt v \<noteq> sum256 build_receipt_record \<or>
         rs_pair_manifest v \<noteq> sum256 pair_manifest_record)
       (AuthBlocked ''ready cross-record identity changed''))))))))"

section \<open>Ledgers and frozen constants\<close>

definition scratch_identity :: "scratch_ledger \<Rightarrow> digest" where
  "scratch_identity v = sum256 (ascii rbauth_magic @ [scratch_digest_domain] @ wr_scratch_fields v)"

definition peak_identity :: "peak_contract \<Rightarrow> digest" where
  "peak_identity v = sum256 (ascii rbauth_magic @ [peak_digest_domain] @ wr_peak_fields v)"

definition default_scratch_ledger :: scratch_ledger where
  "default_scratch_ledger =
     (let v = \<lparr>sl_roots = 2097408, sl_pow5 = 32776, sl_abc_layer = 1572864, sl_largest_stc_factor = 33554432,
        sl_largest_cts_factor = 16252928, sl_stc_phase_maximum = 70811912, sl_cts_phase_maximum = 36208904,
        sl_artifact_envelope = 81264640, sl_remaining_envelope = 10452728, sl_digest = 0\<rparr>
      in v\<lparr>sl_digest := scratch_identity v\<rparr>)"

definition default_peak_contract :: peak_contract where
  "default_peak_contract =
     (let v = \<lparr>pk_full_artifact = full_artifact_peak_bytes, pk_pre_guard = pre_guard_incremental_peak_bytes,
        pk_guarded = guarded_requirement_bytes, pk_remaining = 2585547267,
        pk_duplicate_default = duplicate_default_bytes, pk_duplicate_excess = 55815677, pk_digest = 0\<rparr>
      in v\<lparr>pk_digest := peak_identity v\<rparr>)"

definition peak_contract_for_requirement ::
  "64 word \<Rightarrow> 64 word \<Rightarrow> 64 word \<Rightarrow> (record_error, peak_contract) res" where
  "peak_contract_for_requirement total_bytes available_bytes pre_guard =
     (if total_bytes = 0 \<or> available_bytes > total_bytes then err (AuthBlocked ''physical-memory sample is invalid'')
      else if pre_guard = 0 then err (AuthBlocked ''incremental peak requirement is zero'')
      else if total_bytes > (NOT 0) div 4 then err (AuthBlocked ''physical-memory policy limit overflowed'')
      else let limit = (total_bytes * 4) div 5; used = total_bytes - available_bytes; guard = pre_guard div 10;
               guard = (if guard < 536870912 then 536870912 else guard) in
        if pre_guard > (NOT 0) - guard then err (AuthBlocked ''guarded incremental peak overflowed'')
        else let guarded = pre_guard + guard in
          if used > (NOT 0) - guarded then err (AuthBlocked ''projected physical-memory use overflowed'')
          else let projected = used + guarded in
            if projected \<ge> limit then err (AuthBlocked ''projected physical-memory use is not below the strict limit'')
            else let remaining = limit - projected;
                excess = (if remaining < duplicate_default_bytes then duplicate_default_bytes - remaining else 0);
                v = \<lparr>pk_full_artifact = full_artifact_peak_bytes, pk_pre_guard = pre_guard, pk_guarded = guarded,
                  pk_remaining = remaining, pk_duplicate_default = duplicate_default_bytes,
                  pk_duplicate_excess = excess, pk_digest = 0\<rparr>
              in Inr (v\<lparr>pk_digest := peak_identity v\<rparr>))"

definition peak_contract_for_capacity :: "64 word \<Rightarrow> 64 word \<Rightarrow> (record_error, peak_contract) res" where
  "peak_contract_for_capacity total_bytes available_bytes =
     peak_contract_for_requirement total_bytes available_bytes pre_guard_incremental_peak_bytes"

definition build_spec_frozen :: "build_spec \<Rightarrow> (record_error, unit) res" where
  "build_spec_frozen v =
     and_then (peak_contract_for_capacity (cb_total (bp_capacity v)) (cb_available (bp_capacity v))) (\<lambda>expected_peak.
     reject_if (bp_classification v \<noteq> \<lparr>cl_adaptation_label = adaptation_label, cl_evidence_scope = build_evidence_scope,
           cl_maturity = rbauth_maturity, cl_source_faithful = False, cl_full_packed = False\<rparr> \<or>
         bp_generator_precision v \<noteq> 256 \<or> bp_encoder_precision v \<noteq> 256 \<or>
         bp_builder_id v \<noteq> builder_id \<or> bp_digest_id v \<noteq> digest_id \<or> bp_allocation_id v \<noteq> allocation_id \<or>
         bp_release_id v \<noteq> release_id \<or> bp_ownership_id v \<noteq> ownership_id \<or>
         bp_construction_order v \<noteq> construction_order_stc_drop_cts \<or>
         bp_stc_factor_count v \<noteq> 2 \<or> bp_stc_diagonals v \<noteq> (63, 64) \<or>
         bp_cts_factor_count v \<noteq> 3 \<or> bp_cts_diagonals v \<noteq> (16, 31, 15) \<or>
         bp_default_delta v \<noteq> 0 \<or> bp_explicit_delta v \<noteq> 0 \<or> bp_raw_numeric_delta v \<noteq> 0 \<or> bp_observed_delta v \<noteq> 2 \<or>
         bp_scratch v \<noteq> default_scratch_ledger \<or> bp_peak v \<noteq> expected_peak)
       (AuthBlocked ''build wire semantics differ from the frozen Route-B contract''))"

definition build_permit_frozen :: "build_permit_report \<Rightarrow> (record_error, unit) res" where
  "build_permit_frozen v = and_then (build_permit_embedded v) (\<lambda>_. build_spec_frozen (bm_spec v))"

definition ready_spec_frozen :: "ready_spec \<Rightarrow> (record_error, unit) res" where
  "ready_spec_frozen v =
     (if rs_classification v \<noteq> \<lparr>cl_adaptation_label = adaptation_label, cl_evidence_scope = ready_evidence_scope,
           cl_maturity = rbauth_maturity, cl_source_faithful = False, cl_full_packed = False\<rparr> \<or>
         rs_artifact_state v \<noteq> private_uninstalled_state
      then err (AuthBlocked ''ready wire semantics differ from the frozen Route-B contract'')
      else check_each (\<lambda>_ t. reject_if (pt_bytes t = 0) (AuthBlocked ''ready payload byte count is zero'')) 0
        (payload_tuples (rs_payload v)))"

definition ready_permit_frozen :: "ready_permit_report \<Rightarrow> (record_error, unit) res" where
  "ready_permit_frozen v = and_then (ready_permit_embedded v) (\<lambda>_. ready_spec_frozen (rm_spec v))"

end
