(* ===== verification/DftWire.thy ===== *)
theory DftWire
  imports AuthWire
begin

text \<open>
  The build records of \<^verbatim>\<open>integer/secureeval/route_b_rbdft_wire.go\<close>: transform aggregates, the
  artifact pair, the lifecycle of a build and its receipt, with their validators, their binary form
  and the links between the seven records of a build. The fixed arrays of the Go reports are lists
  of the array's length; a parser leaves the entries beyond the count zero. An \<^verbatim>\<open>int32\<close> factor
  index is the word with the same bits.
\<close>

section \<open>Constants\<close>

definition numeric_aggregate_type :: byte where "numeric_aggregate_type = 3"
definition encoded_aggregate_type :: byte where "encoded_aggregate_type = 4"
definition artifact_pair_type :: byte where "artifact_pair_type = 5"
definition lifecycle_type :: byte where "lifecycle_type = 6"
definition build_receipt_type :: byte where "build_receipt_type = 7"

definition role_none :: byte where "role_none = 0"
definition role_stc :: byte where "role_stc = 1"
definition role_cts :: byte where "role_cts = 2"

definition lifecycle_success :: byte where "lifecycle_success = 1"
definition lifecycle_failure :: byte where "lifecycle_failure = 2"

definition failure_none :: byte where "failure_none = 0"
definition failure_prepare :: byte where "failure_prepare = 1"
definition failure_encoder :: byte where "failure_encoder = 2"
definition failure_stc_factor :: byte where "failure_stc_factor = 3"
definition failure_stc_return :: byte where "failure_stc_return = 4"
definition failure_cts_factor :: byte where "failure_cts_factor = 5"
definition failure_cts_return :: byte where "failure_cts_return = 6"
definition failure_seal :: byte where "failure_seal = 7"
definition failure_encoder_drop :: byte where "failure_encoder_drop = 8"

definition source_secure_eval :: byte where "source_secure_eval = 1"
definition source_vendor :: byte where "source_vendor = 2"

definition event_prepare_complete :: byte where "event_prepare_complete = 1"
definition event_encoder_created :: byte where "event_encoder_created = 2"
definition event_transform_start :: byte where "event_transform_start = 3"
definition event_factor_generated :: byte where "event_factor_generated = 4"
definition event_numeric_digested :: byte where "event_numeric_digested = 5"
definition event_factor_encoded :: byte where "event_factor_encoded = 6"
definition event_encoded_digested :: byte where "event_encoded_digested = 7"
definition event_numeric_dropped :: byte where "event_numeric_dropped = 8"
definition event_transform_end :: byte where "event_transform_end = 9"
definition event_generator_returned :: byte where "event_generator_returned = 0xa"
definition event_artifact_sealed :: byte where "event_artifact_sealed = 0xb"
definition event_encoder_dropped :: byte where "event_encoder_dropped = 0xc"

definition payload_none :: byte where "payload_none = 0"
definition payload_numeric_factor :: byte where "payload_numeric_factor = 1"
definition payload_encoded_factor :: byte where "payload_encoded_factor = 2"
definition payload_artifact_pair :: byte where "payload_artifact_pair = 3"
definition payload_precision :: byte where "payload_precision = 4"

definition dft_header_bytes :: nat where "dft_header_bytes = length rbdft_magic + 2"
definition factor_reference_bytes :: nat where "factor_reference_bytes = 4 + 32 + 8"
definition aggregate_fixed_bytes :: nat where "aggregate_fixed_bytes = dft_header_bytes + 4 + 8"
definition max_transform_aggregate_bytes :: nat where
  "max_transform_aggregate_bytes = aggregate_fixed_bytes + 3 * factor_reference_bytes"
definition payload_tuple_bytes :: nat where "payload_tuple_bytes = 32 + 8"
definition artifact_pair_record_bytes :: nat where
  "artifact_pair_record_bytes = dft_header_bytes + 32 + 4 * payload_tuple_bytes"
definition lifecycle_prefix_bytes :: nat where "lifecycle_prefix_bytes = dft_header_bytes + 1 + 4 + 4 + 1"
definition lifecycle_event_bytes :: nat where "lifecycle_event_bytes = 4 + 1 + 1 + 1 + 4 + 1 + 32 + 8"
definition success_event_count :: nat where "success_event_count = 35"
definition lifecycle_max_record_bytes :: nat where
  "lifecycle_max_record_bytes = lifecycle_prefix_bytes + success_event_count * lifecycle_event_bytes"
definition build_receipt_max_record_bytes :: nat where "build_receipt_max_record_bytes = 1934"

section \<open>Reports\<close>

record factor_ref =
  fr_index :: "32 word"
  fr_digest :: digest
  fr_bytes :: "64 word"

record transform_aggregate =
  ag_type :: byte
  ag_role :: byte
  ag_count :: "32 word"
  ag_factors :: "factor_ref list"
  ag_bytes :: "64 word"

record artifact_pair =
  pr_permit :: digest
  pr_payload :: actual_payload

record lifecycle_event =
  ev_sequence :: "32 word"
  ev_source :: byte
  ev_code :: byte
  ev_role :: byte
  ev_factor :: "32 word"
  ev_kind :: byte
  ev_digest :: digest
  ev_value :: "64 word"

record lifecycle =
  lc_status :: byte
  lc_count :: "32 word"
  lc_attempted :: "32 word"
  lc_stage :: byte
  lc_events :: "lifecycle_event list"

record build_receipt =
  br_permit :: digest
  br_prepared :: digest
  br_builder_id :: string
  br_digest_id :: string
  br_allocation_id :: string
  br_release_id :: string
  br_ownership_id :: string
  br_generator_precision :: "32 word"
  br_encoder_precision :: "32 word"
  br_default_delta :: "64 word"
  br_explicit_delta :: "64 word"
  br_raw_numeric_delta :: "64 word"
  br_observed_delta :: "64 word"
  br_lifecycle :: digest
  br_max_live :: "32 word"
  br_stc_factors :: "32 word"
  br_cts_factors :: "32 word"
  br_payload :: actual_payload
  br_wall :: "64 word"
  br_peak_rss :: "64 word"
  br_state :: string
  br_manifest :: digest

record build_record_set =
  bs_stc_numeric :: "byte list"
  bs_stc_encoded :: "byte list"
  bs_cts_numeric :: "byte list"
  bs_cts_encoded :: "byte list"
  bs_pair :: "byte list"
  bs_lifecycle :: "byte list"
  bs_receipt :: "byte list"

definition zero_factor :: factor_ref where
  "zero_factor = \<lparr>fr_index = 0, fr_digest = 0, fr_bytes = 0\<rparr>"

definition zero_event :: lifecycle_event where
  "zero_event = \<lparr>ev_sequence = 0, ev_source = 0, ev_code = 0, ev_role = 0, ev_factor = 0, ev_kind = 0,
     ev_digest = 0, ev_value = 0\<rparr>"

text \<open>The first entries of a zeroed array of length n.\<close>

definition into_array :: "nat \<Rightarrow> 'a \<Rightarrow> 'a list \<Rightarrow> 'a list" where
  "into_array n z xs = xs @ replicate (n - length xs) z"

definition events_of :: "lifecycle \<Rightarrow> lifecycle_event list" where
  "events_of v = (if unat (lc_count v) > success_event_count then [] else take (unat (lc_count v)) (lc_events v))"

section \<open>Envelope\<close>

definition wr_header :: "byte \<Rightarrow> byte \<Rightarrow> byte list" where
  "wr_header record_type role = ascii rbdft_magic @ [record_type] @ [role]"

definition parse_rbdft_envelope :: "byte list \<Rightarrow> byte \<Rightarrow> nat \<Rightarrow> (record_error, byte \<times> byte list) res" where
  "parse_rbdft_envelope encoded record_type maximum =
     (let magic = ascii rbdft_magic in
      if length encoded > maximum then err (DftMalformed ''record exceeds its type-specific maximum'')
      else if length encoded < dft_header_bytes then err (DftMalformed ''record is truncated'')
      else if take (length magic) encoded \<noteq> magic \<or> encoded ! length magic \<noteq> record_type
        then err (DftMalformed ''record magic or type changed'')
      else Inr (encoded ! (length magic + 1), drop dft_header_bytes encoded))"

section \<open>Transform aggregates\<close>

definition expected_factor_count :: "byte \<Rightarrow> 32 word" where
  "expected_factor_count role = (if role = role_stc then 2 else if role = role_cts then 3 else 0)"

definition checked_add :: "64 word \<Rightarrow> 64 word \<Rightarrow> 64 word option" where
  "checked_add l r = (if l > NOT 0 - r then None else Some (l + r))"

fun aggregate_total :: "nat \<Rightarrow> factor_ref list \<Rightarrow> 64 word \<Rightarrow> (record_error, 64 word) res" where
  "aggregate_total i [] total_bytes = Inr total_bytes"
| "aggregate_total i (f # fs) total_bytes =
     (if fr_index f \<noteq> word_of_nat i \<or> is_zero_digest (fr_digest f) \<or> fr_bytes f = 0
      then err (DftMalformed ''transform aggregate factor identity is empty or non-contiguous'')
      else case checked_add total_bytes (fr_bytes f) of
             None \<Rightarrow> err (DftMalformed ''transform aggregate byte ledger overflowed'')
           | Some t \<Rightarrow> aggregate_total (Suc i) fs t)"

definition validate_transform_aggregate :: "transform_aggregate \<Rightarrow> (record_error, unit) res" where
  "validate_transform_aggregate v =
     (let expected = expected_factor_count (ag_role v) in
      if ag_type v \<noteq> numeric_aggregate_type \<and> ag_type v \<noteq> encoded_aggregate_type
      then err (DftMalformed ''transform aggregate record type is not numeric or encoded'')
      else if expected = 0 \<or> ag_count v \<noteq> expected
      then err (DftMalformed ''transform aggregate role or factor count differs from the frozen contract'')
      else and_then (aggregate_total 0 (take (unat (ag_count v)) (ag_factors v))
          (word_of_nat aggregate_fixed_bytes + ucast (ag_count v) * word_of_nat factor_reference_bytes))
        (\<lambda>t. reject_if (ag_bytes v \<noteq> t)
          (DftMalformed ''transform aggregate byte ledger does not equal factor bytes plus canonical framing'')))"

definition wr_factor :: "factor_ref \<Rightarrow> byte list" where
  "wr_factor f = wr_u32 (fr_index f) @ wr_digest (fr_digest f) @ wr_u64 (fr_bytes f)"

definition marshal_transform_aggregate :: "transform_aggregate \<Rightarrow> (record_error, byte list) res" where
  "marshal_transform_aggregate v = and_then (validate_transform_aggregate v) (\<lambda>_.
     Inr (wr_header (ag_type v) (ag_role v) @ wr_u32 (ag_count v) @
       concat (map wr_factor (take (unat (ag_count v)) (ag_factors v))) @ wr_u64 (ag_bytes v)))"

definition rd_factor :: "nat \<Rightarrow> factor_ref reader" where
  "rd_factor i =
     rd_bind (rd_u32 DftMalformed) (\<lambda>index.
     if index \<noteq> word_of_nat i then rd_fail (DftMalformed ''transform aggregate factor indexes are not contiguous'')
     else rd_bind (rd_digest DftMalformed) (\<lambda>d. rd_bind (rd_u64 DftMalformed) (\<lambda>n.
     if n = 0 then rd_fail (DftMalformed ''transform aggregate factor byte count is zero'')
     else rd_return \<lparr>fr_index = index, fr_digest = d, fr_bytes = n\<rparr>)))"

fun rd_factors :: "nat \<Rightarrow> nat \<Rightarrow> factor_ref list reader" where
  "rd_factors i 0 = rd_return []"
| "rd_factors i (Suc n) = rd_bind (rd_factor i) (\<lambda>f. rd_bind (rd_factors (Suc i) n) (\<lambda>fs. rd_return (f # fs)))"

definition rd_transform_aggregate :: "byte \<Rightarrow> byte \<Rightarrow> transform_aggregate reader" where
  "rd_transform_aggregate record_type role =
     rd_bind (rd_u32 DftMalformed) (\<lambda>count.
     if count \<noteq> expected_factor_count role
     then rd_fail (DftMalformed ''transform aggregate factor count differs from the frozen role'')
     else rd_bind (rd_factors 0 (unat count)) (\<lambda>fs. rd_bind (rd_u64 DftMalformed) (\<lambda>n.
     rd_return \<lparr>ag_type = record_type, ag_role = role, ag_count = count,
       ag_factors = into_array 3 zero_factor fs, ag_bytes = n\<rparr>)))"

definition parse_transform_aggregate :: "byte \<Rightarrow> byte list \<Rightarrow> (record_error, transform_aggregate) res" where
  "parse_transform_aggregate record_type encoded =
     and_then (parse_rbdft_envelope encoded record_type max_transform_aggregate_bytes) (\<lambda>(role, data).
     if role \<noteq> role_stc \<and> role \<noteq> role_cts
     then err (DftMalformed ''transform aggregate role is not STC or CTS'')
     else and_then (rd_transform_aggregate record_type role data) (\<lambda>(v, rest).
       and_then (rd_finish DftMalformed rest) (\<lambda>_.
       and_then (validate_transform_aggregate v) (\<lambda>_. Inr v))))"

definition parse_numeric_aggregate :: "byte list \<Rightarrow> (record_error, transform_aggregate) res" where
  "parse_numeric_aggregate = parse_transform_aggregate numeric_aggregate_type"

definition parse_encoded_aggregate :: "byte list \<Rightarrow> (record_error, transform_aggregate) res" where
  "parse_encoded_aggregate = parse_transform_aggregate encoded_aggregate_type"

section \<open>The artifact pair\<close>

definition rd_payload_tuple :: "payload_tuple reader" where
  "rd_payload_tuple =
     rd_bind (rd_digest DftMalformed) (\<lambda>d. rd_bind (rd_u64 DftMalformed) (\<lambda>n.
     if n = 0 then rd_fail (DftMalformed ''payload tuple byte count is zero'')
     else rd_return \<lparr>pt_digest = d, pt_bytes = n\<rparr>))"

definition rd_artifact_pair :: "artifact_pair reader" where
  "rd_artifact_pair =
     rd_bind (rd_digest DftMalformed) (\<lambda>d. rd_bind (rd_list 4 rd_payload_tuple) (\<lambda>ts.
     rd_return \<lparr>pr_permit = d, pr_payload = payload_of ts\<rparr>))"

definition parse_artifact_pair :: "byte list \<Rightarrow> (record_error, artifact_pair) res" where
  "parse_artifact_pair encoded =
     and_then (parse_rbdft_envelope encoded artifact_pair_type artifact_pair_record_bytes) (\<lambda>(role, data).
     if role \<noteq> role_none then err (DftMalformed ''artifact pair role is not zero'')
     else and_then (rd_artifact_pair data) (\<lambda>(v, rest).
       and_then (rd_finish DftMalformed rest) (\<lambda>_. Inr v)))"

definition validate_artifact_pair :: "artifact_pair \<Rightarrow> (record_error, unit) res" where
  "validate_artifact_pair v =
     (if is_zero_digest (pr_permit v) then err (DftMalformed ''artifact pair build-permit digest is zero'')
      else check_each (\<lambda>_ t. reject_if (is_zero_digest (pt_digest t) \<or> pt_bytes t = 0)
        (DftMalformed ''artifact pair payload tuple is empty'')) 0 (payload_tuples (pr_payload v)))"

definition marshal_artifact_pair :: "artifact_pair \<Rightarrow> (record_error, byte list) res" where
  "marshal_artifact_pair v = and_then (validate_artifact_pair v) (\<lambda>_.
     Inr (wr_header artifact_pair_type role_none @ wr_digest (pr_permit v) @
       concat (map wr_payload (payload_tuples (pr_payload v)))))"

section \<open>The lifecycle\<close>

record expected_event =
  xe_source :: byte
  xe_code :: byte
  xe_role :: byte
  xe_factor :: "32 word"
  xe_kind :: byte

definition expect :: "byte \<Rightarrow> byte \<Rightarrow> byte \<Rightarrow> 32 word \<Rightarrow> byte \<Rightarrow> expected_event" where
  "expect source code role factor kind =
     \<lparr>xe_source = source, xe_code = code, xe_role = role, xe_factor = factor, xe_kind = kind\<rparr>"

definition expected_factor_events :: "byte \<Rightarrow> nat \<Rightarrow> expected_event list" where
  "expected_factor_events role i =
     [expect source_vendor event_factor_generated role (word_of_nat i) payload_none,
      expect source_vendor event_numeric_digested role (word_of_nat i) payload_numeric_factor,
      expect source_vendor event_factor_encoded role (word_of_nat i) payload_none,
      expect source_vendor event_encoded_digested role (word_of_nat i) payload_encoded_factor,
      expect source_vendor event_numeric_dropped role (word_of_nat i) payload_none]"

definition expected_transform_events :: "byte \<Rightarrow> nat \<Rightarrow> expected_event list" where
  "expected_transform_events role count =
     [expect source_vendor event_transform_start role (- 1) payload_none] @
     concat (map (expected_factor_events role) [0..<count]) @
     [expect source_vendor event_transform_end role (- 1) payload_none,
      expect source_vendor event_generator_returned role (- 1) payload_none]"

definition expected_lifecycle_events :: "expected_event list" where
  "expected_lifecycle_events =
     [expect source_secure_eval event_prepare_complete role_none (- 1) payload_none,
      expect source_secure_eval event_encoder_created role_none (- 1) payload_precision] @
     concat (map (\<lambda>(role, count). expected_transform_events role count) [(role_stc, 2), (role_cts, 3)]) @
     [expect source_secure_eval event_artifact_sealed role_none (- 1) payload_artifact_pair,
      expect source_secure_eval event_encoder_dropped role_none (- 1) payload_none]"

definition validate_lifecycle_event :: "lifecycle_event \<Rightarrow> nat \<Rightarrow> expected_event \<Rightarrow> (record_error, unit) res" where
  "validate_lifecycle_event v sequence x =
     (if ev_sequence v \<noteq> word_of_nat sequence \<or> ev_source v \<noteq> xe_source x \<or> ev_code v \<noteq> xe_code x \<or>
         ev_role v \<noteq> xe_role x \<or> ev_factor v \<noteq> xe_factor x \<or> ev_kind v \<noteq> xe_kind x
      then err (DftMalformed ''lifecycle event sequence, source, code, role, index, or payload kind changed'')
      else if xe_kind x = payload_none
      then reject_if (\<not> is_zero_digest (ev_digest v) \<or> ev_value v \<noteq> 0)
        (DftMalformed ''payload-free lifecycle event carries a digest or value'')
      else if xe_kind x = payload_precision
      then reject_if (\<not> is_zero_digest (ev_digest v) \<or> ev_value v \<noteq> 256)
        (DftMalformed ''encoder-created event does not carry precision 256'')
      else if xe_kind x = payload_numeric_factor \<or> xe_kind x = payload_encoded_factor
      then reject_if (is_zero_digest (ev_digest v) \<or> ev_value v = 0)
        (DftMalformed ''factor digest event has an empty digest or byte count'')
      else if xe_kind x = payload_artifact_pair
      then reject_if (is_zero_digest (ev_digest v) \<or> ev_value v \<noteq> word_of_nat artifact_pair_record_bytes)
        (DftMalformed ''artifact-sealed event does not bind the canonical pair record size'')
      else err (DftMalformed ''lifecycle payload kind is outside the canonical grammar''))"

definition expected_failure_stage :: "32 word \<Rightarrow> byte" where
  "expected_failure_stage next_sequence =
     (if next_sequence = 0 then failure_prepare
      else if next_sequence = 1 then failure_encoder
      else if next_sequence \<ge> 2 \<and> next_sequence \<le> 13 then failure_stc_factor
      else if next_sequence = 14 then failure_stc_return
      else if next_sequence \<ge> 15 \<and> next_sequence \<le> 31 then failure_cts_factor
      else if next_sequence = 32 then failure_cts_return
      else if next_sequence = 33 then failure_seal
      else if next_sequence = 34 then failure_encoder_drop
      else failure_none)"

definition validate_lifecycle :: "lifecycle \<Rightarrow> (record_error, unit) res" where
  "validate_lifecycle v =
     (let count = lc_count v in
      and_then
        (if lc_status v = lifecycle_success
         then reject_if (count \<noteq> word_of_nat success_event_count \<or> lc_attempted v \<noteq> count \<or> lc_stage v \<noteq> failure_none)
           (DftMalformed ''success lifecycle does not have exactly 35 completed and attempted events'')
         else if lc_status v = lifecycle_failure
         then reject_if (count \<ge> word_of_nat success_event_count \<or> lc_attempted v < count \<or>
             lc_attempted v > count + 1 \<or> lc_stage v \<noteq> expected_failure_stage count)
           (DftMalformed ''failure lifecycle is not a bounded canonical success prefix'')
         else err (DftMalformed ''lifecycle terminal status is not success or failure''))
        (\<lambda>_. check_each (\<lambda>i e. validate_lifecycle_event e i (expected_lifecycle_events ! i)) 0
          (take (unat count) (lc_events v))))"

definition wr_event :: "lifecycle_event \<Rightarrow> byte list" where
  "wr_event e = wr_u32 (ev_sequence e) @ [ev_source e] @ [ev_code e] @ [ev_role e] @ wr_u32 (ev_factor e) @
     [ev_kind e] @ wr_digest (ev_digest e) @ wr_u64 (ev_value e)"

definition wr_lifecycle :: "lifecycle \<Rightarrow> byte list" where
  "wr_lifecycle v = [lc_status v] @ wr_u32 (lc_count v) @ wr_u32 (lc_attempted v) @ [lc_stage v] @
     concat (map wr_event (take (unat (lc_count v)) (lc_events v)))"

definition marshal_lifecycle :: "lifecycle \<Rightarrow> (record_error, byte list) res" where
  "marshal_lifecycle v = and_then (validate_lifecycle v) (\<lambda>_. Inr (wr_header lifecycle_type role_none @ wr_lifecycle v))"

definition rd_event :: "lifecycle_event reader" where
  "rd_event =
     rd_bind (rd_u32 DftMalformed) (\<lambda>sequence. rd_bind (rd_u8 DftMalformed) (\<lambda>source.
     rd_bind (rd_u8 DftMalformed) (\<lambda>code. rd_bind (rd_u8 DftMalformed) (\<lambda>role.
     rd_bind (rd_u32 DftMalformed) (\<lambda>factor. rd_bind (rd_u8 DftMalformed) (\<lambda>kind.
     rd_bind (rd_any_digest DftMalformed) (\<lambda>d. rd_bind (rd_u64 DftMalformed) (\<lambda>n.
     rd_return \<lparr>ev_sequence = sequence, ev_source = source, ev_code = code, ev_role = role,
       ev_factor = factor, ev_kind = kind, ev_digest = d, ev_value = n\<rparr>))))))))"

definition rd_lifecycle :: "lifecycle reader" where
  "rd_lifecycle =
     rd_bind (rd_u8 DftMalformed) (\<lambda>status. rd_bind (rd_u32 DftMalformed) (\<lambda>count.
     if count > word_of_nat success_event_count
     then rd_fail (DftMalformed ''lifecycle completed-event count exceeds the frozen sequence'')
     else rd_bind (rd_u32 DftMalformed) (\<lambda>attempted. rd_bind (rd_u8 DftMalformed) (\<lambda>stage.
     rd_bind (rd_list (unat count) rd_event) (\<lambda>es.
     rd_return \<lparr>lc_status = status, lc_count = count, lc_attempted = attempted, lc_stage = stage,
       lc_events = into_array success_event_count zero_event es\<rparr>)))))"

definition parse_lifecycle :: "byte list \<Rightarrow> (record_error, lifecycle) res" where
  "parse_lifecycle encoded =
     and_then (parse_rbdft_envelope encoded lifecycle_type lifecycle_max_record_bytes) (\<lambda>(role, data).
     if role \<noteq> role_none then err (DftMalformed ''lifecycle role is not zero'')
     else and_then (rd_lifecycle data) (\<lambda>(v, rest). and_then (rd_finish DftMalformed rest) (\<lambda>_.
       and_then (validate_lifecycle v) (\<lambda>_. Inr v))))"

section \<open>The build receipt\<close>

definition validate_build_receipt :: "build_receipt \<Rightarrow> (record_error, unit) res" where
  "validate_build_receipt v =
     (if is_zero_digest (br_permit v) \<or> is_zero_digest (br_prepared v) \<or> is_zero_digest (br_lifecycle v) \<or>
         is_zero_digest (br_manifest v)
      then err (DftMalformed ''build receipt has an empty named digest'')
      else if br_builder_id v \<noteq> builder_id \<or> br_digest_id v \<noteq> digest_id \<or> br_allocation_id v \<noteq> allocation_id \<or>
         br_release_id v \<noteq> release_id \<or> br_ownership_id v \<noteq> ownership_id
      then err (DftMalformed ''build receipt identifier or identifier order changed'')
      else if br_generator_precision v \<noteq> 256 \<or> br_encoder_precision v \<noteq> 256 \<or> br_default_delta v \<noteq> 0 \<or>
         br_explicit_delta v \<noteq> 0 \<or> br_raw_numeric_delta v \<noteq> 0 \<or> br_observed_delta v \<noteq> 2 \<or>
         br_max_live v \<noteq> 1 \<or> br_stc_factors v \<noteq> 2 \<or> br_cts_factors v \<noteq> 3
      then err (DftMalformed ''build receipt precision, counter, liveness, or factor counts changed'')
      else and_then (check_each (\<lambda>_ t. reject_if (is_zero_digest (pt_digest t) \<or> pt_bytes t = 0)
          (DftMalformed ''build receipt aggregate tuple is empty'')) 0 (payload_tuples (br_payload v)))
        (\<lambda>_. if br_wall v = 0 \<or> br_peak_rss v = 0
             then err (DftMalformed ''build receipt wall time or peak RSS is zero'')
             else reject_if (br_state v \<noteq> private_uninstalled_state)
               (DftMalformed ''build receipt artifact state is not private-uninstalled'')))"

definition wr_build_receipt :: "build_receipt \<Rightarrow> byte list" where
  "wr_build_receipt v =
     wr_digest (br_permit v) @ wr_digest (br_prepared v) @
     concat (map wr_string [br_builder_id v, br_digest_id v, br_allocation_id v, br_release_id v, br_ownership_id v]) @
     wr_u32 (br_generator_precision v) @ wr_u32 (br_encoder_precision v) @
     wr_u64 (br_default_delta v) @ wr_u64 (br_explicit_delta v) @ wr_u64 (br_raw_numeric_delta v) @
     wr_u64 (br_observed_delta v) @ wr_digest (br_lifecycle v) @
     wr_u32 (br_max_live v) @ wr_u32 (br_stc_factors v) @ wr_u32 (br_cts_factors v) @
     concat (map (\<lambda>t. wr_digest (pt_digest t)) (payload_tuples (br_payload v))) @
     concat (map (\<lambda>t. wr_u64 (pt_bytes t)) (payload_tuples (br_payload v))) @
     wr_u64 (br_wall v) @ wr_u64 (br_peak_rss v) @ wr_string (br_state v) @ wr_digest (br_manifest v)"

definition marshal_build_receipt :: "build_receipt \<Rightarrow> (record_error, byte list) res" where
  "marshal_build_receipt v = and_then (validate_build_receipt v) (\<lambda>_.
     Inr (wr_header build_receipt_type role_none @ wr_build_receipt v))"

definition rd_build_receipt :: "build_receipt reader" where
  "rd_build_receipt =
     rd_bind (rd_digest DftMalformed) (\<lambda>permit. rd_bind (rd_digest DftMalformed) (\<lambda>prepared.
     rd_bind (rd_list 5 (rd_string DftMalformed)) (\<lambda>ids. rd_bind (rd_list 2 (rd_u32 DftMalformed)) (\<lambda>precisions.
     rd_bind (rd_list 4 (rd_u64 DftMalformed)) (\<lambda>deltas. rd_bind (rd_digest DftMalformed) (\<lambda>life.
     rd_bind (rd_list 3 (rd_u32 DftMalformed)) (\<lambda>counts. rd_bind (rd_list 4 (rd_digest DftMalformed)) (\<lambda>ds.
     rd_bind (rd_list 4 (rd_u64 DftMalformed)) (\<lambda>ns. rd_bind (rd_u64 DftMalformed) (\<lambda>wall.
     rd_bind (rd_u64 DftMalformed) (\<lambda>rss. rd_bind (rd_string DftMalformed) (\<lambda>artifact.
     rd_bind (rd_digest DftMalformed) (\<lambda>manifest.
     rd_return \<lparr>br_permit = permit, br_prepared = prepared, br_builder_id = ids ! 0, br_digest_id = ids ! 1,
       br_allocation_id = ids ! 2, br_release_id = ids ! 3, br_ownership_id = ids ! 4,
       br_generator_precision = precisions ! 0, br_encoder_precision = precisions ! 1,
       br_default_delta = deltas ! 0, br_explicit_delta = deltas ! 1, br_raw_numeric_delta = deltas ! 2,
       br_observed_delta = deltas ! 3, br_lifecycle = life, br_max_live = counts ! 0,
       br_stc_factors = counts ! 1, br_cts_factors = counts ! 2,
       br_payload = payload_of (map2 (\<lambda>d n. \<lparr>pt_digest = d, pt_bytes = n\<rparr>) ds ns),
       br_wall = wall, br_peak_rss = rss, br_state = artifact, br_manifest = manifest\<rparr>)))))))))))))"

definition parse_build_receipt :: "byte list \<Rightarrow> (record_error, build_receipt) res" where
  "parse_build_receipt encoded =
     and_then (parse_rbdft_envelope encoded build_receipt_type build_receipt_max_record_bytes) (\<lambda>(role, data).
     if role \<noteq> role_none then err (DftMalformed ''build receipt role is not zero'')
     else and_then (rd_build_receipt data) (\<lambda>(v, rest). and_then (rd_finish DftMalformed rest) (\<lambda>_.
       and_then (validate_build_receipt v) (\<lambda>_. Inr v))))"

section \<open>Links\<close>

definition aggregate_tuple :: "byte list \<Rightarrow> transform_aggregate \<Rightarrow> payload_tuple" where
  "aggregate_tuple encoded v = \<lparr>pt_digest = sum256 encoded, pt_bytes = ag_bytes v\<rparr>"

definition event_aggregate ::
  "transform_aggregate \<Rightarrow> transform_aggregate \<Rightarrow> transform_aggregate \<Rightarrow> transform_aggregate \<Rightarrow>
   lifecycle_event \<Rightarrow> (record_error, transform_aggregate) res" where
  "event_aggregate stc_numeric stc_encoded cts_numeric cts_encoded e =
     (if ev_role e = role_stc \<and> ev_code e = event_numeric_digested then Inr stc_numeric
      else if ev_role e = role_stc \<and> ev_code e = event_encoded_digested then Inr stc_encoded
      else if ev_role e = role_cts \<and> ev_code e = event_numeric_digested then Inr cts_numeric
      else if ev_role e = role_cts \<and> ev_code e = event_encoded_digested then Inr cts_encoded
      else err (DftBlocked ''lifecycle factor digest role or kind changed''))"

definition validate_event_link ::
  "transform_aggregate \<Rightarrow> transform_aggregate \<Rightarrow> transform_aggregate \<Rightarrow> transform_aggregate \<Rightarrow>
   digest \<Rightarrow> lifecycle_event \<Rightarrow> (record_error, unit) res" where
  "validate_event_link stc_numeric stc_encoded cts_numeric cts_encoded pair_identity e =
     (if ev_code e = event_numeric_digested \<or> ev_code e = event_encoded_digested
      then and_then (event_aggregate stc_numeric stc_encoded cts_numeric cts_encoded e) (\<lambda>aggregate.
        if ev_factor e <s 0 \<or> ev_factor e \<ge> ag_count aggregate
        then err (DftBlocked ''lifecycle factor digest index is outside its aggregate'')
        else and_then (at (ag_factors aggregate) (unat (ev_factor e))) (\<lambda>factor.
          reject_if (ev_digest e \<noteq> fr_digest factor \<or> ev_value e \<noteq> fr_bytes factor)
            (DftBlocked ''lifecycle factor digest or byte ledger changed'')))
      else if ev_code e = event_artifact_sealed
      then reject_if (ev_digest e \<noteq> pair_identity \<or> ev_value e \<noteq> word_of_nat artifact_pair_record_bytes)
        (DftBlocked ''lifecycle artifact-sealed identity changed'')
      else Inr ())"

definition validate_lifecycle_links ::
  "lifecycle \<Rightarrow> transform_aggregate \<Rightarrow> transform_aggregate \<Rightarrow> transform_aggregate \<Rightarrow> transform_aggregate \<Rightarrow>
   digest \<Rightarrow> (record_error, unit) res" where
  "validate_lifecycle_links life stc_numeric stc_encoded cts_numeric cts_encoded pair_identity =
     check_each (\<lambda>_. validate_event_link stc_numeric stc_encoded cts_numeric cts_encoded pair_identity) 0
       (take (unat (lc_count life)) (lc_events life))"

definition validate_build_record_links :: "build_record_set \<Rightarrow> digest \<Rightarrow> digest \<Rightarrow> (record_error, unit) res" where
  "validate_build_record_links rs expected_permit expected_prepared =
     (if is_zero_digest expected_permit \<or> is_zero_digest expected_prepared
      then err (DftBlocked ''expected authorization identity is zero'')
      else and_then (parse_numeric_aggregate (bs_stc_numeric rs)) (\<lambda>stc_numeric.
      and_then (parse_encoded_aggregate (bs_stc_encoded rs)) (\<lambda>stc_encoded.
      and_then (parse_numeric_aggregate (bs_cts_numeric rs)) (\<lambda>cts_numeric.
      and_then (parse_encoded_aggregate (bs_cts_encoded rs)) (\<lambda>cts_encoded.
      if ag_role stc_numeric \<noteq> role_stc \<or> ag_role stc_encoded \<noteq> role_stc \<or>
         ag_role cts_numeric \<noteq> role_cts \<or> ag_role cts_encoded \<noteq> role_cts
      then err (DftBlocked ''aggregate record role or order changed'')
      else and_then (parse_artifact_pair (bs_pair rs)) (\<lambda>pair.
      and_then (parse_lifecycle (bs_lifecycle rs)) (\<lambda>life.
      if lc_status life \<noteq> lifecycle_success
      then err (DftBlocked ''a failure lifecycle cannot authorize a build receipt'')
      else and_then (parse_build_receipt (bs_receipt rs)) (\<lambda>receipt.
      let payload = \<lparr>ap_stc_numeric = aggregate_tuple (bs_stc_numeric rs) stc_numeric,
            ap_stc_encoded = aggregate_tuple (bs_stc_encoded rs) stc_encoded,
            ap_cts_numeric = aggregate_tuple (bs_cts_numeric rs) cts_numeric,
            ap_cts_encoded = aggregate_tuple (bs_cts_encoded rs) cts_encoded\<rparr>;
          pair_identity = sum256 (bs_pair rs); lifecycle_identity = sum256 (bs_lifecycle rs) in
      if pr_permit pair \<noteq> expected_permit \<or> br_permit receipt \<noteq> expected_permit \<or>
         br_prepared receipt \<noteq> expected_prepared
      then err (DftBlocked ''build-permit or prepared-parameter identity changed'')
      else if pr_payload pair \<noteq> payload \<or> br_payload receipt \<noteq> payload
      then err (DftBlocked ''aggregate tuple role, order, digest, or byte ledger changed'')
      else if br_lifecycle receipt \<noteq> lifecycle_identity \<or> br_manifest receipt \<noteq> pair_identity
      then err (DftBlocked ''lifecycle or artifact-pair record identity changed'')
      else if br_stc_factors receipt \<noteq> ag_count stc_numeric \<or> br_stc_factors receipt \<noteq> ag_count stc_encoded \<or>
         br_cts_factors receipt \<noteq> ag_count cts_numeric \<or> br_cts_factors receipt \<noteq> ag_count cts_encoded
      then err (DftBlocked ''receipt and aggregate factor counts changed'')
      else validate_lifecycle_links life stc_numeric stc_encoded cts_numeric cts_encoded pair_identity))))))))"

end
