(* ===== verification/ObservedStream.thy ===== *)
theory ObservedStream
  imports DftWire GoScalar
begin

unbundle bit_operations_syntax

text \<open>
  The observed construction of a DFT matrix, \<^verbatim>\<open>lattigo/circuits/ckks/dft/observed_streaming.go\<close>: the
  factor generator emits one numeric factor at a time, a consumer hashes and encodes it, and a trace
  records every event, what had to be cleaned up after a failure and the evidence of each factor.
  The consumer is an interface: its answer to the factor with a given index is the argument
  \<^verbatim>\<open>replies\<close>. An encoded transformation is a value of the type \<^verbatim>\<open>'m\<close>, and what the lattice library says
  of it and of the literal is an argument as well. Also the process-wide construction counters of
  \<^verbatim>\<open>construction_counters.go\<close>.
\<close>

section \<open>Data\<close>

definition observed_slots_to_coeffs :: byte where "observed_slots_to_coeffs = 1"
definition observed_coeffs_to_slots :: byte where "observed_coeffs_to_slots = 2"

definition stream_success :: byte where "stream_success = 1"
definition stream_failure :: byte where "stream_failure = 2"

definition stream_failure_none :: byte where "stream_failure_none = 0"
definition stream_failure_validation :: byte where "stream_failure_validation = 1"
definition stream_failure_consumer :: byte where "stream_failure_consumer = 2"
definition stream_failure_product :: byte where "stream_failure_product = 3"
definition stream_failure_generator :: byte where "stream_failure_generator = 4"
definition stream_failure_seal :: byte where "stream_failure_seal = 5"

definition observed_transform_start :: byte where "observed_transform_start = 3"
definition observed_factor_generated :: byte where "observed_factor_generated = 4"
definition observed_numeric_digested :: byte where "observed_numeric_digested = 5"
definition observed_factor_encoded :: byte where "observed_factor_encoded = 6"
definition observed_encoded_digested :: byte where "observed_encoded_digested = 7"
definition observed_numeric_dropped :: byte where "observed_numeric_dropped = 8"
definition observed_transform_end :: byte where "observed_transform_end = 9"
definition observed_generator_returned :: byte where "observed_generator_returned = 0xa"

definition observed_payload_none :: byte where "observed_payload_none = 0"
definition observed_payload_numeric :: byte where "observed_payload_numeric = 1"
definition observed_payload_encoded :: byte where "observed_payload_encoded = 2"

definition cleanup_factor_cleared :: byte where "cleanup_factor_cleared = 1"
definition cleanup_product_discarded :: byte where "cleanup_product_discarded = 2"
definition cleanup_matrix_discarded :: byte where "cleanup_matrix_discarded = 3"
definition cleanup_generator_cleared :: byte where "cleanup_generator_cleared = 4"

definition owned_by_matrix :: byte where "owned_by_matrix = 1"
definition ownership_discarded :: byte where "ownership_discarded = 2"

definition required_precision :: "64 word" where "required_precision = 256"

record observed_event =
  oe_sequence :: "32 word"
  oe_code :: byte
  oe_role :: byte
  oe_factor :: "32 word"
  oe_count :: "32 word"
  oe_kind :: byte
  oe_digest :: digest
  oe_bytes :: "64 word"

record cleanup_event =
  cu_sequence :: "32 word"
  cu_code :: byte
  cu_role :: byte
  cu_factor :: "32 word"
  cu_count :: "32 word"

record factor_evidence =
  fe_role :: byte
  fe_index :: "32 word"
  fe_count :: "32 word"
  fe_numeric_digest :: digest
  fe_numeric_bytes :: "64 word"
  fe_encoded_digest :: digest
  fe_encoded_bytes :: "64 word"
  fe_ownership :: byte

record stream_trace =
  tr_status :: byte
  tr_role :: byte
  tr_count :: "32 word"
  tr_stage :: byte
  tr_completed :: "32 word"
  tr_attempted :: "32 word"
  tr_events :: "observed_event list"
  tr_cleanup :: "cleanup_event list"
  tr_factors :: "factor_evidence list"
  tr_digest :: digest

definition append_event ::
  "byte \<Rightarrow> 32 word \<Rightarrow> byte \<Rightarrow> digest \<Rightarrow> 64 word \<Rightarrow> stream_trace \<Rightarrow> stream_trace" where
  "append_event code index kind d n t = t\<lparr>tr_events := tr_events t @
     [\<lparr>oe_sequence = word_of_nat (length (tr_events t)), oe_code = code, oe_role = tr_role t, oe_factor = index,
       oe_count = tr_count t, oe_kind = kind, oe_digest = d, oe_bytes = n\<rparr>]\<rparr>"

definition append_cleanup :: "byte \<Rightarrow> 32 word \<Rightarrow> stream_trace \<Rightarrow> stream_trace" where
  "append_cleanup code index t = t\<lparr>tr_cleanup := tr_cleanup t @
     [\<lparr>cu_sequence = word_of_nat (length (tr_cleanup t)), cu_code = code, cu_role = tr_role t, cu_factor = index,
       cu_count = tr_count t\<rparr>]\<rparr>"

section \<open>Identity of a trace\<close>

definition observed_event_bytes :: "observed_event \<Rightarrow> byte list" where
  "observed_event_bytes e = wr_u32 (oe_sequence e) @ [oe_code e] @ [oe_role e] @ wr_u32 (oe_factor e) @
     wr_u32 (oe_count e) @ [oe_kind e] @ wr_digest (oe_digest e) @ wr_u64 (oe_bytes e)"

definition cleanup_bytes :: "cleanup_event \<Rightarrow> byte list" where
  "cleanup_bytes c = wr_u32 (cu_sequence c) @ [cu_code c] @ [cu_role c] @ wr_u32 (cu_factor c) @ wr_u32 (cu_count c)"

definition evidence_bytes :: "factor_evidence \<Rightarrow> byte list" where
  "evidence_bytes f = [fe_role f] @ wr_u32 (fe_index f) @ wr_u32 (fe_count f) @ wr_digest (fe_numeric_digest f) @
     wr_u64 (fe_numeric_bytes f) @ wr_digest (fe_encoded_digest f) @ wr_u64 (fe_encoded_bytes f) @ [fe_ownership f]"

definition digest_trace :: "stream_trace \<Rightarrow> digest" where
  "digest_trace t = sum256 (ascii (''LCPDTE-DFT-OBSERVED-v3'' @ [char_of (0 :: nat)]) @
     [tr_status t] @ [tr_role t] @ wr_u32 (tr_count t) @ [tr_stage t] @ wr_u32 (tr_completed t) @ wr_u32 (tr_attempted t) @
     wr_u32 (word_of_nat (length (tr_events t))) @ concat (map observed_event_bytes (tr_events t)) @
     wr_u32 (word_of_nat (length (tr_cleanup t))) @ concat (map cleanup_bytes (tr_cleanup t)) @
     wr_u32 (word_of_nat (length (tr_factors t))) @ concat (map evidence_bytes (tr_factors t)))"

definition seal_trace :: "stream_trace \<Rightarrow> stream_trace" where
  "seal_trace t = (let t = t\<lparr>tr_completed := word_of_nat (length (tr_events t))\<rparr> in t\<lparr>tr_digest := digest_trace t\<rparr>)"

section \<open>Validation of a trace\<close>

definition role_factor_count :: "byte \<Rightarrow> 32 word \<times> bool" where
  "role_factor_count role =
     (if role = observed_slots_to_coeffs then (2, True)
      else if role = observed_coeffs_to_slots then (3, True) else (0, False))"

definition factor_prefix :: "nat \<Rightarrow> (byte \<times> 32 word \<times> byte) list" where
  "factor_prefix i =
     [(observed_factor_generated, word_of_nat i, observed_payload_none),
      (observed_numeric_digested, word_of_nat i, observed_payload_numeric),
      (observed_factor_encoded, word_of_nat i, observed_payload_none),
      (observed_encoded_digested, word_of_nat i, observed_payload_encoded),
      (observed_numeric_dropped, word_of_nat i, observed_payload_none)]"

definition observed_prefix :: "nat \<Rightarrow> (byte \<times> 32 word \<times> byte) list" where
  "observed_prefix count =
     [(observed_transform_start, - 1, observed_payload_none)] @ concat (map factor_prefix [0..<count]) @
     [(observed_transform_end, - 1, observed_payload_none), (observed_generator_returned, - 1, observed_payload_none)]"

definition validate_observed_event ::
  "byte \<Rightarrow> 32 word \<Rightarrow> nat \<Rightarrow> observed_event \<Rightarrow> byte \<times> 32 word \<times> byte \<Rightarrow> (string, unit) res" where
  "validate_observed_event role count sequence e want = (case want of (code, index, kind) \<Rightarrow>
     if oe_sequence e \<noteq> word_of_nat sequence \<or> oe_code e \<noteq> code \<or> oe_role e \<noteq> role \<or> oe_factor e \<noteq> index \<or>
        oe_count e \<noteq> count \<or> oe_kind e \<noteq> kind
     then err ''observed event is not a lifecycle prefix''
     else if kind = observed_payload_none
     then reject_if (oe_digest e \<noteq> 0 \<or> oe_bytes e \<noteq> 0) ''observed non-payload event carries a payload''
     else reject_if (oe_digest e = 0 \<or> oe_bytes e = 0) ''observed payload event is empty'')"

definition validate_event_prefix :: "byte \<Rightarrow> 32 word \<Rightarrow> observed_event list \<Rightarrow> (string, unit) res" where
  "validate_event_prefix role count events =
     (let expected = observed_prefix (unat count) in
      if length events > length expected then err ''observed event count exceeds the lifecycle''
      else check_each (\<lambda>i e. validate_observed_event role count i e (expected ! i)) 0 events)"

definition validate_cleanup :: "stream_trace \<Rightarrow> nat \<Rightarrow> cleanup_event \<Rightarrow> (string, unit) res" where
  "validate_cleanup t i c =
     (if cu_sequence c \<noteq> word_of_nat i \<or> cu_role c \<noteq> tr_role t \<or> cu_count c \<noteq> tr_count t
      then err ''observed cleanup sequence or typed identity changed''
      else if cu_code c \<in> {cleanup_factor_cleared, cleanup_product_discarded, cleanup_matrix_discarded}
      then reject_if (cu_factor c <s 0 \<or> tr_count t \<le>s cu_factor c) ''observed factor cleanup index changed''
      else if cu_code c = cleanup_generator_cleared
      then reject_if (cu_factor c \<noteq> - 1) ''observed generator cleanup has a factor index''
      else err ''observed cleanup code changed'')"

definition evidence_identity :: "stream_trace \<Rightarrow> byte \<Rightarrow> nat \<Rightarrow> factor_evidence \<Rightarrow> bool" where
  "evidence_identity t ownership i f \<longleftrightarrow>
     fe_role f = tr_role t \<and> fe_index f = word_of_nat i \<and> fe_count f = tr_count t \<and>
     fe_numeric_digest f \<noteq> 0 \<and> fe_numeric_bytes f \<noteq> 0 \<and> fe_encoded_digest f \<noteq> 0 \<and> fe_encoded_bytes f \<noteq> 0 \<and>
     fe_ownership f = ownership"

definition evidence_recorded :: "stream_trace \<Rightarrow> nat \<Rightarrow> factor_evidence \<Rightarrow> bool" where
  "evidence_recorded t i f \<longleftrightarrow>
     oe_digest (tr_events t ! (2 + 5 * i)) = fe_numeric_digest f \<and> oe_bytes (tr_events t ! (2 + 5 * i)) = fe_numeric_bytes f \<and>
     oe_digest (tr_events t ! (4 + 5 * i)) = fe_encoded_digest f \<and> oe_bytes (tr_events t ! (4 + 5 * i)) = fe_encoded_bytes f"

definition is_cleanup :: "byte \<Rightarrow> 32 word \<Rightarrow> cleanup_event \<Rightarrow> bool" where
  "is_cleanup code index c \<longleftrightarrow> cu_code c = code \<and> cu_factor c = index"

text \<open>
  The walk over the cleanup list, whose position \<^verbatim>\<open>cleanupIndex\<close> is the part of the list still to
  be read.
\<close>

fun artifact_cleanup :: "nat \<Rightarrow> nat \<Rightarrow> cleanup_event list \<Rightarrow> (string, cleanup_event list) res" where
  "artifact_cleanup i 0 cs = Inr cs"
| "artifact_cleanup i (Suc n) [] = err ''observed failure matrix-artifact cleanup changed''"
| "artifact_cleanup i (Suc n) (c # cs) =
     (if is_cleanup cleanup_matrix_discarded (word_of_nat i) c then artifact_cleanup (Suc i) n cs
      else err ''observed failure matrix-artifact cleanup changed'')"

definition consumer_cleanup :: "nat \<Rightarrow> cleanup_event list \<Rightarrow> (string, unit) res" where
  "consumer_cleanup completed_factors cs =
     and_then
       (case cs of
          [] \<Rightarrow> Inr cs
        | c # cs' \<Rightarrow>
            if cu_code c = cleanup_product_discarded
            then if cu_factor c \<noteq> word_of_nat completed_factors then err ''observed discarded product index changed'' else Inr cs'
            else Inr cs)
       (\<lambda>cs. case cs of
          [] \<Rightarrow> err ''observed failure omitted the current factor-reference clear''
        | c # cs' \<Rightarrow>
            if \<not> is_cleanup cleanup_factor_cleared (word_of_nat completed_factors) c
            then err ''observed failure omitted the current factor-reference clear''
            else and_then (artifact_cleanup 0 completed_factors cs') (\<lambda>cs.
              case cs of
                [c] \<Rightarrow> reject_if (\<not> is_cleanup cleanup_generator_cleared (- 1) c) ''observed failure generator cleanup changed''
              | _ \<Rightarrow> err ''observed failure generator cleanup changed''))"

definition discarded_cleanup :: "string \<Rightarrow> string \<Rightarrow> nat \<Rightarrow> cleanup_event list \<Rightarrow> (string, unit) res" where
  "discarded_cleanup artifact_message last_message completed_factors cs =
     and_then (check_each (\<lambda>i c. reject_if (\<not> is_cleanup cleanup_matrix_discarded (word_of_nat i) c) artifact_message) 0
       (take completed_factors cs))
       (\<lambda>_. reject_if (\<not> is_cleanup cleanup_generator_cleared (- 1) (last cs)) last_message)"

definition validate_failure_ledger :: "stream_trace \<Rightarrow> (string, unit) res" where
  "validate_failure_ledger t =
     (let completed_factors = length (tr_factors t) in
      if tr_attempted t \<noteq> tr_completed t + 1 then err ''observed failure attempted-event lower bound changed''
      else if tr_stage t = stream_failure_consumer \<or> tr_stage t = stream_failure_product
      then if completed_factors \<ge> unat (tr_count t) \<or> length (tr_events t) \<noteq> 2 + 5 * completed_factors
        then err ''observed consumer/product failure event prefix changed''
        else consumer_cleanup completed_factors (tr_cleanup t)
      else if tr_stage t = stream_failure_generator
      then if completed_factors > unat (tr_count t) \<or> length (tr_events t) \<noteq> 1 + 5 * completed_factors \<or>
          length (tr_cleanup t) \<noteq> completed_factors + 1
        then err ''observed generator failure ledger changed''
        else discarded_cleanup ''observed generator failure artifact cleanup changed''
          ''observed generator failure reference cleanup changed'' completed_factors (tr_cleanup t)
      else if tr_stage t = stream_failure_seal
      then if length (tr_events t) \<noteq> unat (5 * tr_count t + 3) \<or> completed_factors \<noteq> unat (tr_count t) \<or>
          length (tr_cleanup t) \<noteq> unat (tr_count t) + 1
        then err ''observed seal failure ledger changed''
        else discarded_cleanup ''observed seal failure artifact cleanup changed''
          ''observed seal failure reference cleanup changed'' (unat (tr_count t)) (tr_cleanup t)
      else err ''observed failure stage changed'')"

definition validate_trace :: "stream_trace \<Rightarrow> (string, unit) res" where
  "validate_trace t =
     (if tr_digest t = 0 \<or> tr_digest t \<noteq> digest_trace t then err ''observed trace digest changed''
      else let (count, ok) = role_factor_count (tr_role t) in
        if tr_status t = stream_failure \<and> tr_stage t = stream_failure_validation
        then reject_if (ok \<and> tr_count t \<noteq> count \<or> \<not> ok \<and> tr_count t \<noteq> 0 \<or> tr_completed t \<noteq> 0 \<or> tr_events t \<noteq> [] \<or>
            tr_cleanup t \<noteq> [] \<or> tr_factors t \<noteq> [] \<or> tr_attempted t \<noteq> 0)
          ''observed validation failure ledger changed''
        else if \<not> ok \<or> tr_count t \<noteq> count \<or> tr_completed t \<noteq> word_of_nat (length (tr_events t))
        then err ''observed trace role, factor count or completed count changed''
        else and_then (validate_event_prefix (tr_role t) (tr_count t) (tr_events t)) (\<lambda>_.
          and_then (check_each (validate_cleanup t) 0 (tr_cleanup t)) (\<lambda>_.
          if tr_status t = stream_success
          then if tr_stage t \<noteq> stream_failure_none \<or> length (tr_events t) \<noteq> unat (5 * tr_count t + 3) \<or>
              tr_attempted t \<noteq> tr_completed t \<or> tr_cleanup t \<noteq> [] \<or> length (tr_factors t) \<noteq> unat (tr_count t)
            then err ''observed success ledger changed''
            else check_each (\<lambda>i f.
              if \<not> evidence_identity t owned_by_matrix i f then err ''observed success factor evidence changed''
              else reject_if (\<not> evidence_recorded t i f) ''observed success factor and event evidence disagree'') 0 (tr_factors t)
          else if tr_status t \<noteq> stream_failure \<or> tr_stage t = stream_failure_none
          then err ''observed trace status changed''
          else and_then (check_each (\<lambda>i f.
              if \<not> evidence_identity t ownership_discarded i f then err ''observed failure retained an installable transformation''
              else reject_if (4 + 5 * i \<ge> length (tr_events t) \<or> \<not> evidence_recorded t i f)
                ''observed failed factor and event evidence disagree'') 0 (tr_factors t))
            (\<lambda>_. validate_failure_ledger t))))"

section \<open>Products of a consumer\<close>

text \<open>
  An invocation is identified by the index of its factor; a product of another call of the constructor
  carries none. A product is nil, has no state, or holds one. A transformation is absent when its
  metadata or vector is nil or empty.
\<close>

record invocation =
  iv_token :: nat
  iv_active :: bool
  iv_role :: byte
  iv_index :: "32 word"
  iv_count :: "32 word"
  iv_generator_precision :: "64 word"
  iv_encoder_precision :: "64 word"
  iv_has_factor :: bool

record 'm product_state =
  ps_invocation :: "nat option"
  ps_role :: byte
  ps_index :: "32 word"
  ps_count :: "32 word"
  ps_generator_precision :: "64 word"
  ps_encoder_precision :: "64 word"
  ps_numeric_digest :: digest
  ps_numeric_bytes :: "64 word"
  ps_encoded_digest :: digest
  ps_encoded_bytes :: "64 word"
  ps_transformation :: "'m option"
  ps_available :: bool

datatype 'm product = NilProduct | EmptyProduct | Product "'m product_state"

datatype 'm reply = Panicked | Replied "'m product" "string option"

definition new_observed_product ::
  "invocation \<Rightarrow> digest \<Rightarrow> 64 word \<Rightarrow> digest \<Rightarrow> 64 word \<Rightarrow> 'm option \<Rightarrow> (string, 'm product) res" where
  "new_observed_product iv numeric_digest numeric_bytes encoded_digest encoded_bytes donor =
     (if \<not> iv_active iv \<or> \<not> iv_has_factor iv then err ''cannot seal a product for an inactive observed factor''
      else if iv_generator_precision iv \<noteq> required_precision \<or> iv_encoder_precision iv \<noteq> required_precision
      then err ''observed product precision is not 256/256''
      else if numeric_digest = 0 \<or> numeric_bytes = 0 \<or> encoded_digest = 0 \<or> encoded_bytes = 0
      then err ''observed product digest or byte evidence is empty''
      else if donor = None then err ''observed product LT donor is empty''
      else Inr (Product \<lparr>ps_invocation = Some (iv_token iv), ps_role = iv_role iv, ps_index = iv_index iv,
        ps_count = iv_count iv, ps_generator_precision = iv_generator_precision iv,
        ps_encoder_precision = iv_encoder_precision iv, ps_numeric_digest = numeric_digest,
        ps_numeric_bytes = numeric_bytes, ps_encoded_digest = encoded_digest, ps_encoded_bytes = encoded_bytes,
        ps_transformation = donor, ps_available = True\<rparr>))"

definition take_product :: "invocation \<Rightarrow> 'm product \<Rightarrow> (string, 'm \<times> factor_evidence) res" where
  "take_product iv p = (case p of
     Product s \<Rightarrow>
       if \<not> ps_available s then err ''observed factor product is nil, stale or already consumed''
       else if ps_invocation s \<noteq> Some (iv_token iv) \<or> ps_role s \<noteq> iv_role iv \<or> ps_index s \<noteq> iv_index iv \<or>
         ps_count s \<noteq> iv_count iv \<or> ps_generator_precision s \<noteq> required_precision \<or>
         ps_encoder_precision s \<noteq> required_precision \<or>
         ps_generator_precision s \<noteq> iv_generator_precision iv \<or> ps_encoder_precision s \<noteq> iv_encoder_precision iv \<or>
         ps_numeric_digest s = 0 \<or> ps_numeric_bytes s = 0 \<or> ps_encoded_digest s = 0 \<or> ps_encoded_bytes s = 0
       then err ''observed factor product token, type, precision or payload changed''
       else (case ps_transformation s of
           None \<Rightarrow> err ''observed factor product token, type, precision or payload changed''
         | Some m \<Rightarrow> Inr (m, \<lparr>fe_role = ps_role s, fe_index = ps_index s, fe_count = ps_count s,
             fe_numeric_digest = ps_numeric_digest s, fe_numeric_bytes = ps_numeric_bytes s,
             fe_encoded_digest = ps_encoded_digest s, fe_encoded_bytes = ps_encoded_bytes s,
             fe_ownership = owned_by_matrix\<rparr>))
   | _ \<Rightarrow> err ''observed factor product is nil, stale or already consumed'')"

section \<open>The construction\<close>

record matrix_literal =
  ml_type :: int
  ml_log_slots :: int
  ml_level_q :: int
  ml_level_p :: int
  ml_levels :: "int list"
  ml_format :: int

record lattice_limits =
  ll_log_cols :: int
  ll_max_level_q :: int
  ll_max_level_p :: int

definition literal_depth :: "matrix_literal \<Rightarrow> int" where
  "literal_depth l = wrap64 (sum_list (ml_levels l))"

definition validate_streaming_literal ::
  "lattice_limits \<Rightarrow> byte \<Rightarrow> 32 word \<Rightarrow> matrix_literal \<Rightarrow> (string, unit) res" where
  "validate_streaming_literal limits role count l =
     (let want_type = (if role = observed_coeffs_to_slots then 0 else 1) in
      if ml_type l \<noteq> want_type \<or> literal_depth l \<noteq> int (unat count) \<or> ml_levels l = []
      then err ''observed role, DFT type and factor count disagree''
      else if ml_log_slots l \<le> 0 \<or> ml_log_slots l > ll_log_cols limits \<or>
        ml_level_q l < 0 \<or> ml_level_q l > ll_max_level_q limits \<or>
        ml_level_p l < -1 \<or> ml_level_p l > ll_max_level_p limits \<or> ml_format l < 0 \<or> ml_format l > 2
      then err ''observed literal dimensions, levels or format are invalid''
      else check_each (\<lambda>_ d. reject_if (d \<le> 0) ''observed literal contains a non-positive level group'') 0 (ml_levels l))"

text \<open>
  A call of the constructor. The last two fields are the outcomes of the lattice library's checks of
  the literal; \<^verbatim>\<open>rq_rejects\<close> is the error of its check of the transformation of the factor with a
  given index.
\<close>

record 'm stream_request =
  rq_role :: byte
  rq_has_consumer :: bool
  rq_has_encoder :: bool
  rq_generator_precision :: "64 word"
  rq_encoder_precision :: "64 word"
  rq_same_parameters :: bool
  rq_limits :: lattice_limits
  rq_literal :: matrix_literal
  rq_rejects :: "nat \<Rightarrow> 'm \<Rightarrow> string option"
  rq_expected_literal :: "(string, unit) res"
  rq_validation_plan :: "(string, unit) res"

definition check_request :: "'m stream_request \<Rightarrow> (string, unit) res" where
  "check_request r =
     (let (count, ok) = role_factor_count (rq_role r) in
      if \<not> ok then err ''invalid observed transform role''
      else if \<not> rq_has_consumer r then err ''observed factor consumer is nil''
      else if \<not> rq_has_encoder r then err ''observed encoder is nil''
      else if rq_generator_precision r \<noteq> required_precision \<or> rq_encoder_precision r \<noteq> required_precision
      then err ''observed generator/encoder precision is not 256/256''
      else if \<not> rq_same_parameters r then err ''observed encoder parameters differ from matrix parameters''
      else and_then (validate_streaming_literal (rq_limits r) (rq_role r) count (rq_literal r)) (\<lambda>_.
        and_then (rq_expected_literal r) (\<lambda>_. rq_validation_plan r)))"

record 'm stream_state =
  ss_trace :: stream_trace
  ss_matrices :: "'m list"
  ss_factor_index :: nat
  ss_pending_ok :: bool
  ss_pending_index :: "32 word"

definition on_trace :: "(stream_trace \<Rightarrow> stream_trace) \<Rightarrow> 'm stream_state \<Rightarrow> 'm stream_state" where
  "on_trace f s = s\<lparr>ss_trace := f (ss_trace s)\<rparr>"

definition fail_factor :: "byte \<Rightarrow> bool \<Rightarrow> nat \<Rightarrow> 'm stream_state \<Rightarrow> 'm stream_state" where
  "fail_factor stage discard i s =
     on_trace (\<lambda>t. let t = t\<lparr>tr_stage := stage\<rparr> in
       if discard then append_cleanup cleanup_product_discarded (word_of_nat i) t else t) s"

definition invocation_of :: "'m stream_request \<Rightarrow> 32 word \<Rightarrow> nat \<Rightarrow> invocation" where
  "invocation_of r count i =
     \<lparr>iv_token = i, iv_active = True, iv_role = rq_role r, iv_index = word_of_nat i, iv_count = count,
      iv_generator_precision = rq_generator_precision r, iv_encoder_precision = rq_encoder_precision r,
      iv_has_factor = True\<rparr>"

definition accept_factor :: "nat \<Rightarrow> 'm \<Rightarrow> factor_evidence \<Rightarrow> 'm stream_state \<Rightarrow> 'm stream_state" where
  "accept_factor i m f s =
     (let s = on_trace (append_event observed_numeric_digested (word_of_nat i) observed_payload_numeric
            (fe_numeric_digest f) (fe_numeric_bytes f)) s;
          s = on_trace (append_event observed_factor_encoded (word_of_nat i) observed_payload_none 0 0) s;
          s = on_trace (append_event observed_encoded_digested (word_of_nat i) observed_payload_encoded
            (fe_encoded_digest f) (fe_encoded_bytes f)) s;
          s = on_trace (\<lambda>t. t\<lparr>tr_factors := tr_factors t @ [f]\<rparr>) s
      in s\<lparr>ss_matrices := ss_matrices s @ [m], ss_pending_ok := True\<rparr>)"

definition message_of :: "string failure \<Rightarrow> string" where
  "message_of e = (case e of Err m \<Rightarrow> m | _ \<Rightarrow> '''')"

text \<open>The callback that receives a factor: an error, if any, and the state it leaves.\<close>

definition emit_factor ::
  "'m stream_request \<Rightarrow> 32 word \<Rightarrow> (nat \<Rightarrow> 'm reply) \<Rightarrow> 'm stream_state \<Rightarrow> string option \<times> 'm stream_state" where
  "emit_factor r count replies s =
     (let i = ss_factor_index s;
          s = s\<lparr>ss_factor_index := i + 1, ss_pending_index := word_of_nat i, ss_pending_ok := False\<rparr>;
          s = on_trace (append_event observed_factor_generated (word_of_nat i) observed_payload_none 0 0) s;
          s = on_trace (\<lambda>t. t\<lparr>tr_attempted := word_of_nat (length (tr_events t) + 1)\<rparr>) s in
      case replies i of
        Panicked \<Rightarrow> (Some ''observed factor consumer panicked'', fail_factor stream_failure_consumer False i s)
      | Replied p (Some e) \<Rightarrow> (Some e, fail_factor stream_failure_consumer (p \<noteq> NilProduct) i s)
      | Replied p None \<Rightarrow>
          (case take_product (invocation_of r count i) p of
             Inl e \<Rightarrow> (Some (message_of e), fail_factor stream_failure_product (p \<noteq> NilProduct) i s)
           | Inr (m, f) \<Rightarrow>
               (case rq_rejects r i m of
                  Some e \<Rightarrow> (Some e, fail_factor stream_failure_product True i s)
                | None \<Rightarrow> (None, accept_factor i m f s))))"

definition factor_dropped :: "nat \<Rightarrow> 'm stream_state \<Rightarrow> 'm stream_state" where
  "factor_dropped i s =
     (if ss_pending_index s \<noteq> word_of_nat i then s
      else let s' = (if ss_pending_ok s
             then on_trace (append_event observed_numeric_dropped (ss_pending_index s) observed_payload_none 0 0) s
             else on_trace (append_cleanup cleanup_factor_cleared (ss_pending_index s)) s)
        in s'\<lparr>ss_pending_index := - 1, ss_pending_ok := False\<rparr>)"

text \<open>The generator's loop over the factors: n left to emit, the next one i.\<close>

fun generate_factors ::
  "'m stream_request \<Rightarrow> 32 word \<Rightarrow> (nat \<Rightarrow> 'm reply) \<Rightarrow> nat \<Rightarrow> nat \<Rightarrow> 'm stream_state \<Rightarrow> string option \<times> 'm stream_state" where
  "generate_factors r count replies i 0 s = (None, s)"
| "generate_factors r count replies i (Suc n) s =
     (case emit_factor r count replies s of (e, s) \<Rightarrow>
        let s = factor_dropped i s in
        case e of Some e \<Rightarrow> (Some e, s) | None \<Rightarrow> generate_factors r count replies (Suc i) n s)"

fun discard_matrices :: "nat \<Rightarrow> nat \<Rightarrow> stream_trace \<Rightarrow> stream_trace" where
  "discard_matrices i 0 t = t"
| "discard_matrices i (Suc n) t =
     discard_matrices (Suc i) n (append_cleanup cleanup_matrix_discarded (word_of_nat i)
       (t\<lparr>tr_factors := (tr_factors t)[i := (tr_factors t ! i)\<lparr>fe_ownership := ownership_discarded\<rparr>]\<rparr>))"

definition generator_returned :: "32 word \<Rightarrow> string option \<Rightarrow> 'm stream_state \<Rightarrow> 'm stream_state" where
  "generator_returned count e s =
     (if e = None \<and> ss_factor_index s = unat count \<and> length (ss_matrices s) = unat count
      then on_trace (\<lambda>t. append_event observed_generator_returned (- 1) observed_payload_none 0 0
             (append_event observed_transform_end (- 1) observed_payload_none 0 0 t)) s
      else let s = (if tr_stage (ss_trace s) = stream_failure_none
               then on_trace (\<lambda>t. t\<lparr>tr_stage := stream_failure_generator,
                      tr_attempted := word_of_nat (length (tr_events t) + 1)\<rparr>) s else s);
             s = on_trace (discard_matrices 0 (length (ss_matrices s))) s;
             s = s\<lparr>ss_matrices := []\<rparr>
        in on_trace (append_cleanup cleanup_generator_cleared (- 1)) s)"

definition fresh_trace :: "byte \<Rightarrow> 32 word \<Rightarrow> stream_trace" where
  "fresh_trace role count = \<lparr>tr_status = 0, tr_role = role, tr_count = count, tr_stage = 0, tr_completed = 0,
     tr_attempted = 0, tr_events = [], tr_cleanup = [], tr_factors = [], tr_digest = 0\<rparr>"

definition seal_failure :: "nat \<Rightarrow> stream_trace \<Rightarrow> stream_trace" where
  "seal_failure n t =
     (let t = discard_matrices 0 n t;
          t = t\<lparr>tr_status := stream_failure, tr_stage := stream_failure_seal,
            tr_attempted := word_of_nat (length (tr_events t) + 1)\<rparr>
      in seal_trace (append_cleanup cleanup_generator_cleared (- 1) t))"

text \<open>The error, the matrices of the returned artifact and the trace.\<close>

definition observed_construct ::
  "'m stream_request \<Rightarrow> (nat \<Rightarrow> 'm reply) \<Rightarrow> string option \<times> 'm list \<times> stream_trace" where
  "observed_construct r replies =
     (let (count, _) = role_factor_count (rq_role r); t = fresh_trace (rq_role r) count in
      case check_request r of
        Inl e \<Rightarrow> (Some (message_of e), [], seal_trace (t\<lparr>tr_status := stream_failure, tr_stage := stream_failure_validation\<rparr>))
      | Inr _ \<Rightarrow>
          let t = append_event observed_transform_start (- 1) observed_payload_none 0 0 (t\<lparr>tr_status := stream_failure\<rparr>);
              s = \<lparr>ss_trace = t, ss_matrices = [], ss_factor_index = 0, ss_pending_ok = False, ss_pending_index = - 1\<rparr>;
              (e, s) = generate_factors r count replies 0 (nat (literal_depth (rq_literal r))) s;
              s = generator_returned count e s; t = ss_trace s in
          case e of
            Some e \<Rightarrow> (Some e, [], seal_trace (t\<lparr>tr_status := stream_failure\<rparr>))
          | None \<Rightarrow>
              if ss_factor_index s \<noteq> unat count \<or> length (ss_matrices s) \<noteq> unat count
              then (Some ''observed generator returned too few factors'', [], seal_trace (t\<lparr>tr_status := stream_failure\<rparr>))
              else let t = seal_trace (t\<lparr>tr_status := stream_success, tr_stage := stream_failure_none,
                     tr_attempted := word_of_nat (length (tr_events t))\<rparr>) in
                case validate_trace t of
                  Inl _ \<Rightarrow> (Some ''seal observed success trace'', [], seal_failure (length (ss_matrices s)) t)
                | Inr _ \<Rightarrow> (None, ss_matrices s, t))"

section \<open>Construction counters\<close>

record construction_counters =
  cc_default_whole :: "64 word"
  cc_explicit_whole :: "64 word"
  cc_raw_numeric :: "64 word"
  cc_observed_streaming :: "64 word"

definition counter_list :: "construction_counters \<Rightarrow> 64 word list" where
  "counter_list c = [cc_default_whole c, cc_explicit_whole c, cc_raw_numeric c, cc_observed_streaming c]"

definition increment_counter :: "64 word \<Rightarrow> 64 word" where
  "increment_counter c = (if c = NOT 0 then c else c + 1)"

definition note_observed_streaming :: "construction_counters \<Rightarrow> construction_counters" where
  "note_observed_streaming c = c\<lparr>cc_observed_streaming := increment_counter (cc_observed_streaming c)\<rparr>"

definition counter_delta :: "construction_counters \<Rightarrow> construction_counters \<Rightarrow> (string, construction_counters) res" where
  "counter_delta c earlier =
     (if list_ex (\<lambda>n. n = NOT 0) (counter_list c @ counter_list earlier) then err ''construction counter saturated''
      else if list_ex (\<lambda>(a, b). a < b) (zip (counter_list c) (counter_list earlier))
      then err ''construction counter snapshot is non-monotonic''
      else Inr \<lparr>cc_default_whole = cc_default_whole c - cc_default_whole earlier,
        cc_explicit_whole = cc_explicit_whole c - cc_explicit_whole earlier,
        cc_raw_numeric = cc_raw_numeric c - cc_raw_numeric earlier,
        cc_observed_streaming = cc_observed_streaming c - cc_observed_streaming earlier\<rparr>)"

end
