(* ===== verification/BuildArtifact.thy ===== *)
theory BuildArtifact
  imports ObservedStream
begin

text \<open>
  The build of the private artifact: the factor consumer of \<^verbatim>\<open>integer/secureeval/route_b_rbdft_factor.go\<close>
  with its evidence, and \<^verbatim>\<open>buildRouteBArtifactFromPlan\<close> of \<^verbatim>\<open>route_b_artifact.go\<close>, which runs the two
  observed constructions, promotes their evidence and mints the seven records. What the lattice
  library computes for one factor (its digests, its encoding) is a record of outcomes; a recovered
  panic of the library is a failed outcome.
\<close>

section \<open>The factor consumer\<close>

record payload_identity =
  pi_digest :: digest
  pi_bytes :: "64 word"

record evidence_pair =
  ep_index :: "32 word"
  ep_numeric :: payload_identity
  ep_encoded :: payload_identity

record promoted_evidence =
  pe_role :: byte
  pe_count :: "32 word"
  pe_factors :: "evidence_pair list"

record factor_profile =
  fp_role :: byte
  fp_wire_role :: byte
  fp_count :: "32 word"
  fp_diagonals :: "32 word list"
  fp_vector_length :: "32 word"
  fp_poly_bytes :: "64 word"
  fp_canonical :: bool

definition canonical_factor_profile :: "byte \<Rightarrow> (record_error, factor_profile) res" where
  "canonical_factor_profile role =
     (if role = observed_slots_to_coeffs
      then Inr \<lparr>fp_role = role, fp_wire_role = role_stc, fp_count = 2, fp_diagonals = [63, 64, 0],
        fp_vector_length = 2048, fp_poly_bytes = 13631712, fp_canonical = True\<rparr>
      else if role = observed_coeffs_to_slots
      then Inr \<lparr>fp_role = role, fp_wire_role = role_cts, fp_count = 3, fp_diagonals = [16, 31, 15],
        fp_vector_length = 2048, fp_poly_bytes = 14680304, fp_canonical = True\<rparr>
      else err (DftMalformed ''factor profile role is not STC or CTS''))"

record factor_consumer =
  co_has_encoder :: bool
  co_profile :: factor_profile
  co_tentative :: "evidence_pair list"
  co_completed :: "32 word"
  co_failed :: bool
  co_promoted :: bool
  co_fault :: byte

definition no_evidence :: evidence_pair where
  "no_evidence = \<lparr>ep_index = 0, ep_numeric = \<lparr>pi_digest = 0, pi_bytes = 0\<rparr>, ep_encoded = \<lparr>pi_digest = 0, pi_bytes = 0\<rparr>\<rparr>"

definition new_factor_consumer :: "factor_profile \<Rightarrow> factor_consumer" where
  "new_factor_consumer p = \<lparr>co_has_encoder = True, co_profile = p, co_tentative = replicate 3 no_evidence,
     co_completed = 0, co_failed = False, co_promoted = False, co_fault = 0\<rparr>"

definition abort_evidence :: "factor_consumer \<Rightarrow> factor_consumer" where
  "abort_evidence c = c\<lparr>co_tentative := replicate 3 no_evidence, co_completed := 0, co_failed := True\<rparr>"

definition drop_encoder :: "factor_consumer \<Rightarrow> factor_consumer" where
  "drop_encoder c = c\<lparr>co_has_encoder := False\<rparr>"

text \<open>What the library answers for one factor.\<close>

record 'm factor_outcome =
  fo_same_literal :: bool
  fo_numeric :: "(string, payload_identity) res"
  fo_scale :: "(string, unit) res"
  fo_encode :: "(string, unit) res"
  fo_encoded :: "(string, payload_identity) res"
  fo_transformation :: "'m option"

definition consumer_product :: "factor_consumer \<Rightarrow> invocation \<Rightarrow> 'm factor_outcome \<Rightarrow>
    (string, payload_identity \<times> payload_identity \<times> 'm product) res" where
  "consumer_product c iv out =
     (if \<not> co_has_encoder c \<or> co_failed c \<or> co_promoted c
      then err ''factor consumer is nil, closed, failed, or already promoted''
      else if iv_role iv \<noteq> fp_role (co_profile c) \<or> iv_count iv \<noteq> fp_count (co_profile c) \<or> iv_index iv <s 0 \<or>
        iv_index iv \<noteq> co_completed c \<or> iv_generator_precision iv \<noteq> 256 \<or> iv_encoder_precision iv \<noteq> 256
      then err ''observed input role, index, count, order, or precision changed''
      else if \<not> fo_same_literal out then err ''observed input effective literal changed''
      else if \<not> iv_active iv \<or> \<not> iv_has_factor iv then err ''observed input numeric factor is inactive''
      else and_then (fo_numeric out) (\<lambda>numeric. and_then (fo_scale out) (\<lambda>_. and_then (fo_encode out) (\<lambda>_.
        and_then (fo_encoded out) (\<lambda>encoded.
        and_then (new_observed_product iv (pi_digest numeric) (pi_bytes numeric) (pi_digest encoded) (pi_bytes encoded)
          (fo_transformation out)) (\<lambda>p. Inr (numeric, encoded, p)))))))"

definition consume_factor :: "factor_consumer \<Rightarrow> invocation \<Rightarrow> 'm factor_outcome \<Rightarrow> 'm reply \<times> factor_consumer" where
  "consume_factor c iv out =
     (case consumer_product c iv out of
        Inl e \<Rightarrow> (Replied NilProduct (Some (message_of e)), abort_evidence c)
      | Inr (numeric, encoded, p) \<Rightarrow>
          if co_fault c \<noteq> 0 then (Replied p (Some ''injected consumer fault''), abort_evidence c)
          else if unat (co_completed c) \<ge> 3 then (Replied p (Some ''RBDFT factor consumer panicked''), abort_evidence c)
          else (Replied p None, c\<lparr>co_tentative := (co_tentative c)[unat (co_completed c) :=
              \<lparr>ep_index = iv_index iv, ep_numeric = numeric, ep_encoded = encoded\<rparr>],
            co_completed := co_completed c + 1\<rparr>))"

text \<open>The consumer before the factor i of a construction, and its answers.\<close>

fun consumer_at :: "'m stream_request \<Rightarrow> 32 word \<Rightarrow> (nat \<Rightarrow> 'm factor_outcome) \<Rightarrow> factor_consumer \<Rightarrow> nat \<Rightarrow> factor_consumer" where
  "consumer_at r count outcomes c 0 = c"
| "consumer_at r count outcomes c (Suc i) =
     snd (consume_factor (consumer_at r count outcomes c i) (invocation_of r count i) (outcomes i))"

definition consumer_replies ::
  "'m stream_request \<Rightarrow> 32 word \<Rightarrow> (nat \<Rightarrow> 'm factor_outcome) \<Rightarrow> factor_consumer \<Rightarrow> nat \<Rightarrow> 'm reply" where
  "consumer_replies r count outcomes c i =
     fst (consume_factor (consumer_at r count outcomes c i) (invocation_of r count i) (outcomes i))"

definition consumed :: "stream_trace \<Rightarrow> nat" where
  "consumed t = length (filter (\<lambda>e. oe_code e = observed_factor_generated) (tr_events t))"

definition matches_tentative :: "factor_consumer \<Rightarrow> nat \<Rightarrow> factor_evidence \<Rightarrow> bool" where
  "matches_tentative c i f \<longleftrightarrow>
     fe_role f = fp_role (co_profile c) \<and> fe_index f = word_of_nat i \<and> fe_count f = fp_count (co_profile c) \<and>
     fe_numeric_digest f = pi_digest (ep_numeric (co_tentative c ! i)) \<and>
     fe_numeric_bytes f = pi_bytes (ep_numeric (co_tentative c ! i)) \<and>
     fe_encoded_digest f = pi_digest (ep_encoded (co_tentative c ! i)) \<and>
     fe_encoded_bytes f = pi_bytes (ep_encoded (co_tentative c ! i)) \<and> fe_ownership f = owned_by_matrix"

datatype build_error = RecordError record_error | LibraryError string

definition promote ::
  "factor_consumer \<Rightarrow> (string, unit) res \<Rightarrow> stream_trace \<Rightarrow> (build_error, promoted_evidence) res \<times> factor_consumer" where
  "promote c matrix_valid t =
     (let checks =
        (if co_failed c \<or> co_promoted c \<or> co_completed c \<noteq> fp_count (co_profile c)
         then err (RecordError (DftMalformed ''factor evidence is incomplete, failed, or already promoted''))
         else and_then (map_err LibraryError (validate_trace t)) (\<lambda>_.
           if tr_status t \<noteq> stream_success \<or> tr_role t \<noteq> fp_role (co_profile c) \<or> tr_count t \<noteq> fp_count (co_profile c)
           then err (RecordError (DftMalformed ''observed factor trace status, role, or count changed''))
           else and_then (map_err LibraryError matrix_valid) (\<lambda>_.
             if length (tr_factors t) \<noteq> unat (fp_count (co_profile c))
             then err (RecordError (DftMalformed ''observed trace factor evidence count changed''))
             else check_each (\<lambda>i f. reject_if (\<not> matches_tentative c i f)
               (RecordError (DftMalformed ''observed trace factor identity or ownership changed''))) 0 (tr_factors t))))
      in case checks of
        Inl e \<Rightarrow> (Inl e, abort_evidence c)
      | Inr _ \<Rightarrow> (Inr \<lparr>pe_role = fp_role (co_profile c), pe_count = fp_count (co_profile c), pe_factors = co_tentative c\<rparr>,
          c\<lparr>co_tentative := replicate 3 no_evidence, co_completed := 0, co_promoted := True\<rparr>))"

section \<open>Aggregates and the pair\<close>

definition evidence_identity_of :: "byte \<Rightarrow> evidence_pair \<Rightarrow> (record_error, payload_identity) res" where
  "evidence_identity_of record_type f =
     (if record_type = encoded_aggregate_type then Inr (ep_encoded f)
      else if record_type \<noteq> numeric_aggregate_type then err (DftMalformed ''aggregate record type is invalid'')
      else Inr (ep_numeric f))"

fun collect_factors ::
  "byte \<Rightarrow> nat \<Rightarrow> evidence_pair list \<Rightarrow> 64 word \<Rightarrow> (record_error, factor_ref list \<times> 64 word) res" where
  "collect_factors record_type i [] t = Inr ([], t)"
| "collect_factors record_type i (f # fs) t =
     and_then (evidence_identity_of record_type f) (\<lambda>identity.
     if ep_index f \<noteq> word_of_nat i \<or> is_zero_digest (pi_digest identity) \<or> pi_bytes identity = 0
     then err (DftMalformed ''promoted factor evidence is empty or non-contiguous'')
     else case checked_add t (pi_bytes identity) of
       None \<Rightarrow> err (DftMalformed ''aggregate byte ledger overflowed'')
     | Some t \<Rightarrow> and_then (collect_factors record_type (Suc i) fs t) (\<lambda>(rs, t).
         Inr (\<lparr>fr_index = word_of_nat i, fr_digest = pi_digest identity, fr_bytes = pi_bytes identity\<rparr> # rs, t)))"

definition build_transform_aggregate ::
  "byte \<Rightarrow> promoted_evidence \<Rightarrow> (record_error, byte list \<times> transform_aggregate) res" where
  "build_transform_aggregate record_type e =
     (if pe_count e = 0 \<or> unat (pe_count e) > length (pe_factors e)
      then err (DftMalformed ''promoted aggregate evidence count is invalid'')
      else if pe_role e \<noteq> observed_slots_to_coeffs \<and> pe_role e \<noteq> observed_coeffs_to_slots
      then err (DftMalformed ''promoted aggregate evidence role is invalid'')
      else let wire_role = (if pe_role e = observed_slots_to_coeffs then role_stc else role_cts) in
        and_then (collect_factors record_type 0 (take (unat (pe_count e)) (pe_factors e))
          (word_of_nat aggregate_fixed_bytes + ucast (pe_count e) * word_of_nat factor_reference_bytes)) (\<lambda>(rs, t).
        let report = \<lparr>ag_type = record_type, ag_role = wire_role, ag_count = pe_count e,
          ag_factors = into_array 3 zero_factor rs, ag_bytes = t\<rparr> in
        and_then (marshal_transform_aggregate report) (\<lambda>encoded. Inr (encoded, report))))"

definition build_payload_records ::
  "digest \<Rightarrow> promoted_evidence \<Rightarrow> promoted_evidence \<Rightarrow> (record_error, build_record_set \<times> actual_payload \<times> digest) res" where
  "build_payload_records permit stc cts =
     and_then (build_transform_aggregate numeric_aggregate_type stc) (\<lambda>(sn, snr).
     and_then (build_transform_aggregate encoded_aggregate_type stc) (\<lambda>(se, ser).
     and_then (build_transform_aggregate numeric_aggregate_type cts) (\<lambda>(cn, cnr).
     and_then (build_transform_aggregate encoded_aggregate_type cts) (\<lambda>(ce, cer).
     let payload = \<lparr>ap_stc_numeric = aggregate_tuple sn snr, ap_stc_encoded = aggregate_tuple se ser,
       ap_cts_numeric = aggregate_tuple cn cnr, ap_cts_encoded = aggregate_tuple ce cer\<rparr> in
     and_then (marshal_artifact_pair \<lparr>pr_permit = permit, pr_payload = payload\<rparr>) (\<lambda>pair.
     Inr (\<lparr>bs_stc_numeric = sn, bs_stc_encoded = se, bs_cts_numeric = cn, bs_cts_encoded = ce, bs_pair = pair,
       bs_lifecycle = [], bs_receipt = []\<rparr>, payload, sum256 pair))))))"

section \<open>The lifecycle of a success\<close>

definition wire_lifecycle_event :: "observed_event \<Rightarrow> (record_error, lifecycle_event) res" where
  "wire_lifecycle_event e =
     (if oe_role e \<noteq> observed_slots_to_coeffs \<and> oe_role e \<noteq> observed_coeffs_to_slots
      then err (DftMalformed ''observed lifecycle role is invalid'')
      else if oe_code e \<notin> {observed_transform_start, observed_factor_generated, observed_numeric_digested,
        observed_factor_encoded, observed_encoded_digested, observed_numeric_dropped, observed_transform_end,
        observed_generator_returned}
      then err (DftMalformed ''observed lifecycle event code is invalid'')
      else if oe_kind e \<notin> {observed_payload_none, observed_payload_numeric, observed_payload_encoded}
      then err (DftMalformed ''observed lifecycle payload kind is invalid'')
      else Inr \<lparr>ev_sequence = 0, ev_source = source_vendor, ev_code = oe_code e,
        ev_role = (if oe_role e = observed_slots_to_coeffs then role_stc else role_cts), ev_factor = oe_factor e,
        ev_kind = oe_kind e, ev_digest = oe_digest e, ev_value = oe_bytes e\<rparr>)"

text \<open>The events appended so far; the position is their number.\<close>

definition append_lifecycle_event ::
  "lifecycle_event \<Rightarrow> lifecycle_event list \<Rightarrow> (record_error, lifecycle_event list) res" where
  "append_lifecycle_event e es =
     (if length es \<ge> success_event_count then err (DftMalformed ''lifecycle event count overflowed'')
      else Inr (es @ [e\<lparr>ev_sequence := word_of_nat (length es)\<rparr>]))"

fun append_observed_events :: "observed_event list \<Rightarrow> lifecycle_event list \<Rightarrow> (record_error, lifecycle_event list) res" where
  "append_observed_events [] es = Inr es"
| "append_observed_events (x # xs) es =
     and_then (wire_lifecycle_event x) (\<lambda>e. and_then (append_lifecycle_event e es) (append_observed_events xs))"

definition append_trace :: "stream_trace \<Rightarrow> lifecycle_event list \<Rightarrow> (record_error, lifecycle_event list) res" where
  "append_trace t es =
     (if \<not> is_ok (validate_trace t) \<or> tr_status t \<noteq> stream_success \<or> tr_cleanup t \<noteq> []
      then err (DftMalformed ''observed transform trace is not a clean success'')
      else append_observed_events (tr_events t) es)"

definition own_event :: "byte \<Rightarrow> byte \<Rightarrow> digest \<Rightarrow> 64 word \<Rightarrow> lifecycle_event" where
  "own_event code kind d n = \<lparr>ev_sequence = 0, ev_source = source_secure_eval, ev_code = code, ev_role = role_none,
     ev_factor = - 1, ev_kind = kind, ev_digest = d, ev_value = n\<rparr>"

definition build_success_lifecycle :: "stream_trace \<Rightarrow> stream_trace \<Rightarrow> digest \<Rightarrow> (record_error, lifecycle) res" where
  "build_success_lifecycle stc cts pair_identity =
     (if is_zero_digest pair_identity then err (DftMalformed ''artifact pair identity is zero'')
      else and_then (append_lifecycle_event (own_event event_prepare_complete payload_none 0 0) []) (\<lambda>es.
      and_then (append_lifecycle_event (own_event event_encoder_created payload_precision 0 256) es) (\<lambda>es.
      and_then (append_trace stc es) (\<lambda>es.
      and_then (append_trace cts es) (\<lambda>es.
      and_then (append_lifecycle_event (own_event event_artifact_sealed payload_artifact_pair pair_identity
        (word_of_nat artifact_pair_record_bytes)) es) (\<lambda>es.
      and_then (append_lifecycle_event (own_event event_encoder_dropped payload_none 0 0) es) (\<lambda>es.
      if length es \<noteq> success_event_count then err (DftMalformed ''lifecycle event count differs'')
      else let v = \<lparr>lc_status = lifecycle_success, lc_count = word_of_nat success_event_count,
          lc_attempted = word_of_nat success_event_count, lc_stage = failure_none, lc_events = es\<rparr> in
        and_then (validate_lifecycle v) (\<lambda>_. Inr v))))))))"

section \<open>The build\<close>

text \<open>
  A plan, with the outcomes of the profile and literal checks of the lattice library, and the two
  transformations: a constructor call, the library's answers and its check of the finished matrix.
\<close>

record build_plan =
  bl_has_moduli :: bool
  bl_stc_profile :: factor_profile
  bl_cts_profile :: factor_profile
  bl_permit :: digest
  bl_prepared :: digest
  bl_has_sampler :: bool
  bl_library_checks :: "(build_error, unit) res"

record 'm transform_input =
  ti_request :: "'m stream_request"
  ti_outcomes :: "nat \<Rightarrow> 'm factor_outcome"
  ti_consumer_valid :: "(build_error, unit) res"
  ti_matrix_valid :: "(string, unit) res"

record 'm build_product =
  bd_stc :: "'m list"
  bd_cts :: "'m list"
  bd_records :: build_record_set
  bd_receipt :: build_receipt
  bd_payload :: actual_payload

definition validate_build_plan :: "build_plan \<Rightarrow> (build_error, unit) res" where
  "validate_build_plan p =
     (if \<not> bl_has_moduli p \<or> is_zero_digest (bl_permit p) \<or> is_zero_digest (bl_prepared p) \<or> \<not> bl_has_sampler p
      then err (RecordError (DftMalformed ''artifact build plan parameters, identities, or RSS sampler are empty''))
      else if fp_role (bl_stc_profile p) \<noteq> observed_slots_to_coeffs \<or> fp_wire_role (bl_stc_profile p) \<noteq> role_stc \<or>
        fp_role (bl_cts_profile p) \<noteq> observed_coeffs_to_slots \<or> fp_wire_role (bl_cts_profile p) \<noteq> role_cts
      then err (RecordError (DftMalformed ''artifact build plan roles are not STC then CTS''))
      else bl_library_checks p)"

text \<open>One transformation: new consumer, observed construction, promotion of the evidence.\<close>

definition build_transform ::
  "byte \<Rightarrow> factor_profile \<Rightarrow> 'm transform_input \<Rightarrow> (build_error, 'm list \<times> stream_trace \<times> promoted_evidence) res" where
  "build_transform role profile ti =
     and_then (ti_consumer_valid ti) (\<lambda>_.
     let c = new_factor_consumer profile; r = (ti_request ti)\<lparr>rq_role := role, rq_has_consumer := True\<rparr>;
         count = fst (role_factor_count role) in
     case observed_construct r (consumer_replies r count (ti_outcomes ti) c) of
       (Some e, _, _) \<Rightarrow> err (LibraryError e)
     | (None, ms, t) \<Rightarrow>
         and_then (fst (promote (consumer_at r count (ti_outcomes ti) c (consumed t)) (ti_matrix_valid ti) t))
           (\<lambda>evidence. Inr (ms, t, evidence)))"

text \<open>
  The process-wide counters at the start of the build are the argument \<^verbatim>\<open>earlier\<close>; only the build's own
  two constructions move them. The RSS sample and the elapsed time are arguments.
\<close>

definition mint_artifact ::
  "build_plan \<Rightarrow> 'm transform_input \<Rightarrow> 'm transform_input \<Rightarrow> construction_counters \<Rightarrow>
   (string, 64 word) res \<Rightarrow> 64 word \<Rightarrow> (build_error, 'm build_product) res" where
  "mint_artifact plan stc_input cts_input earlier peak_rss elapsed =
     and_then (validate_build_plan plan) (\<lambda>_.
     and_then (build_transform observed_slots_to_coeffs (bl_stc_profile plan) stc_input) (\<lambda>(stc, stc_trace, stc_evidence).
     and_then (build_transform observed_coeffs_to_slots (bl_cts_profile plan) cts_input) (\<lambda>(cts, cts_trace, cts_evidence).
     and_then (map_err LibraryError (counter_delta (note_observed_streaming (note_observed_streaming earlier)) earlier)) (\<lambda>delta.
     if cc_default_whole delta \<noteq> 0 \<or> cc_explicit_whole delta \<noteq> 0 \<or> cc_raw_numeric delta \<noteq> 0 \<or> cc_observed_streaming delta \<noteq> 2
     then err (RecordError (DftBlocked ''artifact build construction delta differs''))
     else and_then (map_err RecordError (build_payload_records (bl_permit plan) stc_evidence cts_evidence))
       (\<lambda>(records, payload, pair_identity).
     and_then (map_err RecordError (build_success_lifecycle stc_trace cts_trace pair_identity)) (\<lambda>life.
     and_then (map_err RecordError (marshal_lifecycle life)) (\<lambda>lifecycle_record.
     and_then (map_err LibraryError peak_rss) (\<lambda>rss.
     if rss = 0 then err (RecordError (DftBlocked ''measured Route-B build peak RSS is zero''))
     else let receipt = \<lparr>br_permit = bl_permit plan, br_prepared = bl_prepared plan, br_builder_id = builder_id,
         br_digest_id = digest_id, br_allocation_id = allocation_id, br_release_id = release_id,
         br_ownership_id = ownership_id, br_generator_precision = 256, br_encoder_precision = 256,
         br_default_delta = cc_default_whole delta, br_explicit_delta = cc_explicit_whole delta,
         br_raw_numeric_delta = cc_raw_numeric delta, br_observed_delta = cc_observed_streaming delta,
         br_lifecycle = sum256 lifecycle_record, br_max_live = 1, br_stc_factors = pe_count stc_evidence,
         br_cts_factors = pe_count cts_evidence, br_payload = payload,
         br_wall = (if elapsed = 0 then 1 else elapsed), br_peak_rss = rss, br_state = private_uninstalled_state,
         br_manifest = pair_identity\<rparr> in
     and_then (map_err RecordError (marshal_build_receipt receipt)) (\<lambda>receipt_record.
     Inr \<lparr>bd_stc = stc, bd_cts = cts,
       bd_records = records\<lparr>bs_lifecycle := lifecycle_record, bs_receipt := receipt_record\<rparr>,
       bd_receipt = receipt, bd_payload = payload\<rparr>)))))))))"

definition build_artifact ::
  "build_plan \<Rightarrow> 'm transform_input \<Rightarrow> 'm transform_input \<Rightarrow> construction_counters \<Rightarrow>
   (string, 64 word) res \<Rightarrow> 64 word \<Rightarrow> (build_error, 'm build_product) res" where
  "build_artifact plan stc_input cts_input earlier peak_rss elapsed =
     and_then (mint_artifact plan stc_input cts_input earlier peak_rss elapsed) (\<lambda>product.
     and_then (map_err RecordError (validate_build_record_links (bd_records product) (bl_permit plan) (bl_prepared plan)))
       (\<lambda>_. Inr product))"

end
