(* ===== verification/AuthWireProps.thy ===== *)
theory AuthWireProps
  imports AuthWire RadixTree
begin

text \<open>
  The records of \<^verbatim>\<open>route_b_auth_wire.go\<close> are canonical: a parser accepts exactly the bytes the
  marshaller produces, a framed value always fits its maximum, and an identity binds its record.
\<close>

section \<open>What the framing checks accept\<close>

lemma check_each_list_all:
  "check_each (\<lambda>_ x. reject_if (P x) e) i xs = Inr () \<longleftrightarrow> list_all (\<lambda>x. \<not> P x) xs"
  by (induction xs arbitrary: i) (auto simp: and_then_ok reject_if_ok)

lemma validate_string_ok: "validate_string s = Inr () \<longleftrightarrow> string_ok s"
  by (auto simp: validate_string_def reject_if_def string_ok_def)

lemma check_strings_ok: "check_each (\<lambda>_. validate_string) i ss = Inr () \<longleftrightarrow> list_all string_ok ss"
  by (induction ss arbitrary: i) (auto simp: and_then_ok validate_string_ok)

definition classification_ok :: "classification \<Rightarrow> bool" where
  "classification_ok v \<longleftrightarrow> string_ok (cl_adaptation_label v) \<and> string_ok (cl_evidence_scope v) \<and> string_ok (cl_maturity v)"

definition capacity_ok :: "capacity_binding \<Rightarrow> bool" where
  "capacity_ok v \<longleftrightarrow> string_ok (cb_snapshot_id v) \<and> trim_space (cb_snapshot_id v) \<noteq> '''' \<and> cb_total v \<noteq> 0 \<and>
     cb_available v \<le> cb_total v \<and> list_all (\<lambda>d. d \<noteq> 0) (capacity_digests v)"

definition build_spec_ok :: "build_spec \<Rightarrow> bool" where
  "build_spec_ok v \<longleftrightarrow> classification_ok (bp_classification v) \<and> capacity_ok (bp_capacity v) \<and>
     list_all (\<lambda>d. d \<noteq> 0) (bp_prepared v # transform_digest_list (bp_transforms v)) \<and>
     list_all string_ok [bp_builder_id v, bp_digest_id v, bp_allocation_id v, bp_release_id v, bp_ownership_id v] \<and>
     sl_digest (bp_scratch v) \<noteq> 0 \<and> pk_digest (bp_peak v) \<noteq> 0"

definition ready_spec_ok :: "ready_spec \<Rightarrow> bool" where
  "ready_spec_ok v \<longleftrightarrow> classification_ok (rs_classification v) \<and> capacity_ok (rs_capacity v) \<and>
     list_all (\<lambda>d. d \<noteq> 0) ([rs_prepared v, rs_build_spec v, rs_build_permit v, rs_build_receipt v, rs_pair_manifest v] @
       map pt_digest (payload_tuples (rs_payload v))) \<and>
     string_ok (rs_artifact_state v)"

lemma validate_classification_ok: "validate_classification v = Inr () \<longleftrightarrow> classification_ok v"
  unfolding validate_classification_def check_strings_ok by (simp add: classification_ok_def)

lemma validate_capacity_ok: "validate_capacity v = Inr () \<longleftrightarrow> capacity_ok v"
  by (auto simp: validate_capacity_def and_then_ok validate_string_ok check_each_list_all is_zero_digest_def
      capacity_ok_def not_less)

lemma validate_build_spec_ok: "validate_build_spec_framing v = Inr () \<longleftrightarrow> build_spec_ok v"
  by (auto simp: validate_build_spec_framing_def and_then_ok validate_classification_ok validate_capacity_ok
      check_each_list_all validate_string_ok reject_if_ok is_zero_digest_def build_spec_ok_def)

lemma validate_ready_spec_ok: "validate_ready_spec_framing v = Inr () \<longleftrightarrow> ready_spec_ok v"
  by (auto simp: validate_ready_spec_framing_def and_then_ok validate_classification_ok validate_capacity_ok
      check_each_list_all validate_string_ok is_zero_digest_def ready_spec_ok_def)

section \<open>The bodies\<close>

interpretation classification: wire_codec wr_classification rd_classification classification_ok
proof
  show "rd_classification bs = Inr (v, rest) \<longleftrightarrow> classification_ok v \<and> bs = wr_classification v @ rest" for bs v rest
    by (cases v) (auto simp: rd_classification_def wire_reads classification_ok_def wr_classification_def)
qed

lemma rd_list_numeral:
  "rd_list (numeral k) p = rd_bind p (\<lambda>x. rd_bind (rd_list (pred_numeral k) p) (\<lambda>xs. rd_return (x # xs)))"
  by (simp add: numeral_eq_Suc)

lemma rd_bind_assoc: "rd_bind (rd_bind p f) g = rd_bind p (\<lambda>x. rd_bind (f x) g)"
  by (auto simp: rd_bind_def fun_eq_iff and_then_assoc and_then_def split: sum.split prod.split)

lemma rd_bind_return: "rd_bind (rd_return x) g = g x"
  by (simp add: rd_bind_def rd_return_def fun_eq_iff)

text \<open>A chain of binds, loops of known length included, flattens to a sequence of primitive reads.\<close>

lemmas wire_chain = rd_list_numeral rd_list.simps rd_bind_assoc rd_bind_return

interpretation capacity: wire_codec wr_capacity rd_capacity capacity_ok
proof
  show "rd_capacity bs = Inr (v, rest) \<longleftrightarrow> capacity_ok v \<and> bs = wr_capacity v @ rest" for bs v rest
    by (cases v) (auto simp: rd_capacity_def wire_chain wire_reads Let_def validate_capacity_ok
        capacity_ok_def wr_capacity_def capacity_digests_def)
qed

interpretation scratch: wire_codec "\<lambda>v. wr_scratch_fields v @ wr_digest (sl_digest v)" rd_scratch "\<lambda>v. sl_digest v \<noteq> 0"
proof
  show "rd_scratch bs = Inr (v, rest) \<longleftrightarrow> sl_digest v \<noteq> 0 \<and> bs = (wr_scratch_fields v @ wr_digest (sl_digest v)) @ rest"
    for bs v rest
    by (cases v) (auto simp: rd_scratch_def wire_reads wire_chain wr_scratch_fields_def scratch_fields_def)
qed

interpretation peak: wire_codec "\<lambda>v. wr_peak_fields v @ wr_digest (pk_digest v)" rd_peak "\<lambda>v. pk_digest v \<noteq> 0"
proof
  show "rd_peak bs = Inr (v, rest) \<longleftrightarrow> pk_digest v \<noteq> 0 \<and> bs = (wr_peak_fields v @ wr_digest (pk_digest v)) @ rest"
    for bs v rest
    by (cases v) (auto simp: rd_peak_def wire_reads wire_chain wr_peak_fields_def peak_fields_def)
qed

interpretation payload: wire_codec wr_payload rd_payload "\<lambda>t. pt_digest t \<noteq> 0"
proof
  show "rd_payload bs = Inr (v, rest) \<longleftrightarrow> pt_digest v \<noteq> 0 \<and> bs = wr_payload v @ rest" for bs v rest
    by (cases v) (auto simp: rd_payload_def wire_reads wr_payload_def)
qed

lemma rd_bind_guard: "rd_bind (if b then rd_fail e else q) f = (if b then rd_fail e else rd_bind q f)"
  by (simp add: rd_bind_def rd_fail_def fun_eq_iff)

text \<open>The count of a list whose length the type fixes.\<close>

lemma rd_count_bind:
  "rd_bind (rd_count n msg) f = rd_bind (rd_u32 AuthMalformed) (\<lambda>count.
     if count \<noteq> word_of_nat n then rd_fail (AuthMalformed msg) else rd_bind (rd_list n (rd_u32 AuthMalformed)) f)"
  by (simp only: rd_count_def rd_bind_assoc rd_bind_guard)

lemma rd_guard_reads: "(if b then rd_fail e else p) bs = Inr (v, rest) \<longleftrightarrow> \<not> b \<and> p bs = Inr (v, rest)"
  by (simp add: rd_fail_def)

lemma transform_digests_eq:
  "\<lparr>td_raw_stc_literal = a, td_raw_stc_scaling = b, td_effective_stc_literal = c, td_effective_stc_scaling = d,
    td_raw_cts_literal = e, td_raw_cts_scaling = f, td_effective_cts_literal = g, td_effective_cts_scaling = h\<rparr> = t \<longleftrightarrow>
   transform_digest_list t = [a, b, c, d, e, f, g, h]"
  by (cases t) (auto simp: transform_digest_list_def)

interpretation build_spec: wire_codec wr_build_spec rd_build_spec build_spec_ok
proof
  show "rd_build_spec bs = Inr (v, rest) \<longleftrightarrow> build_spec_ok v \<and> bs = wr_build_spec v @ rest" for bs v rest
  proof (cases v)
    case v: (fields cl capacity prepared transforms generator encoder b d a r p order stc sds cts cds d1 d2 d3 d4 scratch peak)
    obtain s1 s2 where sds: "sds = (s1, s2)" by (cases sds)
    obtain c1 c2 c3 where cds: "cds = (c1, c2, c3)" by (cases cds)
    show ?thesis
      unfolding rd_build_spec_def
      by (cases transforms) (auto simp: v sds cds rd_count_bind rd_guard_reads wire_chain wire_reads classification.reads capacity.reads scratch.reads
          peak.reads Let_def validate_build_spec_ok build_spec_ok_def wr_build_spec_def transform_digest_list_def)
  qed
qed

interpretation ready_spec: wire_codec wr_ready_spec rd_ready_spec ready_spec_ok
proof
  show "rd_ready_spec bs = Inr (v, rest) \<longleftrightarrow> ready_spec_ok v \<and> bs = wr_ready_spec v @ rest" for bs v rest
  proof (cases v)
    case v: (fields cl capacity prepared spec permit receipt manifest payload artifact)
    show ?thesis
      unfolding rd_ready_spec_def
      by (cases payload) (auto simp: v wire_chain wire_reads classification.reads capacity.reads payload.reads
          Let_def validate_ready_spec_ok ready_spec_ok_def wr_ready_spec_def payload_tuples_def payload_of_def)
  qed
qed

interpretation build_permit: wire_codec wr_build_permit rd_build_permit "\<lambda>v. bm_spec_digest v \<noteq> 0 \<and> build_spec_ok (bm_spec v)"
proof
  show "rd_build_permit bs = Inr (v, rest) \<longleftrightarrow> (bm_spec_digest v \<noteq> 0 \<and> build_spec_ok (bm_spec v)) \<and> bs = wr_build_permit v @ rest"
    for bs v rest
    by (cases v) (auto simp: rd_build_permit_def wire_reads build_spec.reads wr_build_permit_def)
qed

interpretation ready_permit: wire_codec wr_ready_permit rd_ready_permit "\<lambda>v. rm_spec_digest v \<noteq> 0 \<and> ready_spec_ok (rm_spec v)"
proof
  show "rd_ready_permit bs = Inr (v, rest) \<longleftrightarrow> (rm_spec_digest v \<noteq> 0 \<and> ready_spec_ok (rm_spec v)) \<and> bs = wr_ready_permit v @ rest"
    for bs v rest
    by (cases v) (auto simp: rd_ready_permit_def wire_reads ready_spec.reads wr_ready_permit_def)
qed

section \<open>Sealed records\<close>

lemma magic_length [simp]: "length rbauth_magic = 16"
  by (simp add: rbauth_magic_def)

definition sealed :: "byte \<Rightarrow> byte list \<Rightarrow> byte list" where
  "sealed tag body = (let buffer = ascii rbauth_magic @ [tag] @ body in buffer @ sha256 buffer)"

lemma sealed_length [simp]: "length (sealed tag body) = 49 + length body"
  by (simp add: sealed_def Let_def)

lemma marshal_record_ok:
  "marshal_record tag maximum body = Inr bs \<longleftrightarrow> 49 + length body \<le> maximum \<and> bs = sealed tag body"
  by (auto simp: marshal_record_def sealed_def Let_def)

lemma parse_envelope_ok:
  "parse_envelope bs tag maximum = Inr body \<longleftrightarrow> 49 + length body \<le> maximum \<and> bs = sealed tag body"
proof
  assume "parse_envelope bs tag maximum = Inr body"
  then have len: "length bs \<le> maximum" "49 \<le> length bs" and magic: "take 16 bs = ascii rbauth_magic" "bs ! 16 = tag"
    and seal: "sha256 (take (length bs - 32) bs) = drop (length bs - 32) bs"
    and body: "body = drop 17 (take (length bs - 32) bs)"
    by (auto simp: parse_envelope_def Let_def split: if_splits)
  let ?t = "take (length bs - 32) bs"
  have "take 16 ?t = ascii rbauth_magic" "?t ! 16 = tag" "16 < length ?t"
  proof -
    have "16 \<le> length bs - 32" "16 < length bs - 32" using len by simp_all
    then show "take 16 ?t = ascii rbauth_magic" "?t ! 16 = tag" "16 < length ?t"
      using magic by (simp_all add: min_absorb1)
  qed
  then have "?t = ascii rbauth_magic @ [tag] @ body"
    unfolding body using id_take_nth_drop [of 16 ?t] by simp
  moreover have "bs = ?t @ sha256 ?t" unfolding seal by simp
  ultimately have "bs = sealed tag body" by (simp add: sealed_def Let_def)
  then show "49 + length body \<le> maximum \<and> bs = sealed tag body" using len by simp
next
  assume b: "49 + length body \<le> maximum \<and> bs = sealed tag body"
  let ?t = "ascii rbauth_magic @ [tag] @ body"
  have bs: "bs = ?t @ sha256 ?t" using b by (simp add: sealed_def Let_def)
  have "length ?t = 17 + length body" by simp
  then have cut: "take (length bs - 32) bs = ?t" "drop (length bs - 32) bs = sha256 ?t"
    unfolding bs by simp_all
  have head: "take 16 bs = ascii rbauth_magic" "bs ! 16 = tag" "length bs = 49 + length body"
    unfolding bs by (simp_all add: nth_append)
  show "parse_envelope bs tag maximum = Inr body"
    unfolding parse_envelope_def Let_def cut length_ascii magic_length head(1,2) using b head(3) by simp
qed

locale sealed_record = wire_codec +
  fixes tag :: byte and maximum :: nat
  assumes fits: "ok v \<Longrightarrow> 49 + length (enc v) \<le> maximum"
begin

lemma parse_iff: "parse_record tag maximum dec bs = Inr v \<longleftrightarrow> ok v \<and> bs = sealed tag (enc v)"
proof -
  have "parse_record tag maximum dec bs = Inr v \<longleftrightarrow>
      (\<exists>body. parse_envelope bs tag maximum = Inr body \<and>
        and_then (dec body) (\<lambda>(v, rest). and_then (rd_finish AuthMalformed rest) (\<lambda>_. Inr v)) = Inr v)"
    unfolding parse_record_def by (rule and_then_ok)
  also have "\<dots> \<longleftrightarrow> ok v \<and> bs = sealed tag (enc v)"
    unfolding parse_envelope_ok whole using fits by blast
  finally show ?thesis .
qed

lemma marshal_iff: "ok v \<and> marshal_record tag maximum (enc v) = Inr bs \<longleftrightarrow> ok v \<and> bs = sealed tag (enc v)"
  using fits by (auto simp: marshal_record_ok)

lemma marshal_exists: "ok v \<Longrightarrow> \<exists>bs. marshal_record tag maximum (enc v) = Inr bs \<and> length bs \<le> maximum"
  using fits by (simp add: marshal_record_ok)

text \<open>The seal of two different records is the same only when their sealed bytes collide.\<close>

lemma seal_binds:
  assumes "ok v" "ok w" "v \<noteq> w"
  shows "\<exists>x y. x \<noteq> y \<and> sealed tag (enc v) = x @ sha256 x \<and> sealed tag (enc w) = y @ sha256 y"
proof -
  have "enc v \<noteq> enc w" using prefix_free [OF assms(1,2), of "[]" "[]"] assms(3) by simp
  then show ?thesis
    unfolding sealed_def Let_def
    by (intro exI [of _ "ascii rbauth_magic @ [tag] @ enc v"] exI [of _ "ascii rbauth_magic @ [tag] @ enc w"]) simp
qed

end

lemma string_ok_length: "string_ok s \<Longrightarrow> length (wr_string s) \<le> 260"
  by (simp add: string_ok_def)

lemma classification_length: "classification_ok v \<Longrightarrow> length (wr_classification v) \<le> 782"
  using string_ok_length [of "cl_adaptation_label v"] string_ok_length [of "cl_evidence_scope v"]
    string_ok_length [of "cl_maturity v"] by (simp add: classification_ok_def wr_classification_def)

lemma capacity_length: "capacity_ok v \<Longrightarrow> length (wr_capacity v) \<le> 532"
  using string_ok_length [of "cb_snapshot_id v"] by (simp add: capacity_ok_def wr_capacity_def capacity_digests_def)

lemma build_spec_length: "build_spec_ok v \<Longrightarrow> length (wr_build_spec v) \<le> 3163"
  using classification_length [of "bp_classification v"] capacity_length [of "bp_capacity v"]
    string_ok_length [of "bp_builder_id v"] string_ok_length [of "bp_digest_id v"] string_ok_length [of "bp_allocation_id v"]
    string_ok_length [of "bp_release_id v"] string_ok_length [of "bp_ownership_id v"]
  by (simp add: build_spec_ok_def wr_build_spec_def transform_digest_list_def wr_scratch_fields_def scratch_fields_def
      wr_peak_fields_def peak_fields_def split: prod.split)

lemma ready_spec_length: "ready_spec_ok v \<Longrightarrow> length (wr_ready_spec v) \<le> 1894"
  using classification_length [of "rs_classification v"] capacity_length [of "rs_capacity v"]
    string_ok_length [of "rs_artifact_state v"]
  by (simp add: ready_spec_ok_def wr_ready_spec_def payload_tuples_def wr_payload_def)

interpretation build_spec_record: sealed_record wr_build_spec rd_build_spec build_spec_ok artifact_build_spec_type build_spec_max_bytes
  by unfold_locales (use build_spec_length in \<open>force simp: build_spec_max_bytes_def\<close>)

interpretation build_permit_record: sealed_record wr_build_permit rd_build_permit
  "\<lambda>v. bm_spec_digest v \<noteq> 0 \<and> build_spec_ok (bm_spec v)" artifact_build_permit_type build_permit_max_bytes
  by unfold_locales (use build_spec_length in \<open>force simp: build_permit_max_bytes_def wr_build_permit_def\<close>)

interpretation ready_spec_record: sealed_record wr_ready_spec rd_ready_spec ready_spec_ok ready_spec_type ready_spec_max_bytes
  by unfold_locales (use ready_spec_length in \<open>force simp: ready_spec_max_bytes_def\<close>)

interpretation ready_permit_record: sealed_record wr_ready_permit rd_ready_permit
  "\<lambda>v. rm_spec_digest v \<noteq> 0 \<and> ready_spec_ok (rm_spec v)" ready_permit_type ready_permit_max_bytes
  by unfold_locales (use ready_spec_length in \<open>force simp: ready_permit_max_bytes_def wr_ready_permit_def\<close>)

lemma build_spec_canonical: "parse_build_spec bs = Inr v \<longleftrightarrow> build_spec_ok v \<and> bs = sealed artifact_build_spec_type (wr_build_spec v)"
  unfolding parse_build_spec_def by (rule build_spec_record.parse_iff)

lemma marshal_build_spec_ok: "marshal_build_spec v = Inr bs \<longleftrightarrow> build_spec_ok v \<and> bs = sealed artifact_build_spec_type (wr_build_spec v)"
  unfolding build_spec_record.marshal_iff [symmetric]
  by (auto simp: marshal_build_spec_def and_then_ok validate_build_spec_ok)

lemma build_permit_canonical:
  "parse_build_permit bs = Inr v \<longleftrightarrow> (bm_spec_digest v \<noteq> 0 \<and> build_spec_ok (bm_spec v)) \<and> bs = sealed artifact_build_permit_type (wr_build_permit v)"
  unfolding parse_build_permit_def by (rule build_permit_record.parse_iff)

lemma marshal_build_permit_ok:
  "marshal_build_permit v = Inr bs \<longleftrightarrow> (bm_spec_digest v \<noteq> 0 \<and> build_spec_ok (bm_spec v)) \<and> bs = sealed artifact_build_permit_type (wr_build_permit v)"
  unfolding build_permit_record.marshal_iff [symmetric]
  by (auto simp: marshal_build_permit_def and_then_ok validate_build_spec_ok is_zero_digest_def)

lemma ready_spec_canonical: "parse_ready_spec bs = Inr v \<longleftrightarrow> ready_spec_ok v \<and> bs = sealed ready_spec_type (wr_ready_spec v)"
  unfolding parse_ready_spec_def by (rule ready_spec_record.parse_iff)

lemma marshal_ready_spec_ok: "marshal_ready_spec v = Inr bs \<longleftrightarrow> ready_spec_ok v \<and> bs = sealed ready_spec_type (wr_ready_spec v)"
  unfolding ready_spec_record.marshal_iff [symmetric]
  by (auto simp: marshal_ready_spec_def and_then_ok validate_ready_spec_ok)

lemma ready_permit_canonical:
  "parse_ready_permit bs = Inr v \<longleftrightarrow> (rm_spec_digest v \<noteq> 0 \<and> ready_spec_ok (rm_spec v)) \<and> bs = sealed ready_permit_type (wr_ready_permit v)"
  unfolding parse_ready_permit_def by (rule ready_permit_record.parse_iff)

lemma marshal_ready_permit_ok:
  "marshal_ready_permit v = Inr bs \<longleftrightarrow> (rm_spec_digest v \<noteq> 0 \<and> ready_spec_ok (rm_spec v)) \<and> bs = sealed ready_permit_type (wr_ready_permit v)"
  unfolding ready_permit_record.marshal_iff [symmetric]
  by (auto simp: marshal_ready_permit_def and_then_ok validate_ready_spec_ok is_zero_digest_def)

text \<open>
  C9. The binary form of the four authorization records is canonical: each parser accepts exactly
  the bytes its marshaller produces, so parsing inverts marshalling, two byte strings never parse to
  the same record, and a flipped byte, a truncation or a trailing byte is rejected.
\<close>

theorem auth_records_canonical:
  "(parse_build_spec bs = Inr spec \<longleftrightarrow> marshal_build_spec spec = Inr bs) \<and>
   (parse_build_permit bs = Inr permit \<longleftrightarrow> marshal_build_permit permit = Inr bs) \<and>
   (parse_ready_spec bs = Inr ready \<longleftrightarrow> marshal_ready_spec ready = Inr bs) \<and>
   (parse_ready_permit bs = Inr ready_permit \<longleftrightarrow> marshal_ready_permit ready_permit = Inr bs)"
  by (simp only: build_spec_canonical marshal_build_spec_ok build_permit_canonical marshal_build_permit_ok
      ready_spec_canonical marshal_ready_spec_ok ready_permit_canonical marshal_ready_permit_ok)

text \<open>
  The maxima of the four record types are exactly sufficient: a specification marshals, within its
  maximum, if and only if its framing is valid, and so does a permit with a nonzero digest.
\<close>

theorem auth_records_fit:
  "((\<exists>bs. marshal_build_spec spec = Inr bs \<and> length bs \<le> 3212) \<longleftrightarrow> validate_build_spec_framing spec = Inr ()) \<and>
   ((\<exists>bs. marshal_build_permit permit = Inr bs \<and> length bs \<le> 3244) \<longleftrightarrow>
     bm_spec_digest permit \<noteq> 0 \<and> validate_build_spec_framing (bm_spec permit) = Inr ()) \<and>
   ((\<exists>bs. marshal_ready_spec ready = Inr bs \<and> length bs \<le> 1943) \<longleftrightarrow> validate_ready_spec_framing ready = Inr ()) \<and>
   ((\<exists>bs. marshal_ready_permit ready_permit = Inr bs \<and> length bs \<le> 1975) \<longleftrightarrow>
     rm_spec_digest ready_permit \<noteq> 0 \<and> validate_ready_spec_framing (rm_spec ready_permit) = Inr ())"
  unfolding marshal_build_spec_ok marshal_build_permit_ok marshal_ready_spec_ok marshal_ready_permit_ok
    validate_build_spec_ok validate_ready_spec_ok
  using build_spec_length ready_spec_length by (force simp: wr_build_permit_def wr_ready_permit_def)

section \<open>Identities\<close>

lemma sealed_parts:
  "take 16 (sealed tag body) = ascii rbauth_magic" "sealed tag body ! 16 = tag"
  "drop (length body + 17) (sealed tag body) = sha256 (ascii rbauth_magic @ [tag] @ body)"
  by (simp_all add: sealed_def Let_def nth_append)

definition seal_of :: "byte \<Rightarrow> byte list \<Rightarrow> digest" where
  "seal_of tag body = sum256 (ascii rbauth_magic @ [tag] @ body)"

lemma sealed_identity:
  "of_le_bytes (drop (length (sealed tag body) - 32) (sealed tag body)) = seal_of tag body"
proof -
  have "length (sealed tag body) - 32 = length body + 17" by simp
  then show ?thesis by (simp only: sealed_parts seal_of_def sum256_def)
qed

lemmas record_types = artifact_build_spec_type_def artifact_build_permit_type_def ready_spec_type_def ready_permit_type_def

lemma record_identity_build_spec:
  "build_spec_ok v \<Longrightarrow> record_identity (sealed artifact_build_spec_type (wr_build_spec v)) = Inr (seal_of artifact_build_spec_type (wr_build_spec v))"
  unfolding record_identity_def Let_def sealed_identity length_ascii magic_length sealed_parts
  using build_spec_canonical [of "sealed artifact_build_spec_type (wr_build_spec v)" v] by simp

lemma record_identity_build_permit:
  "bm_spec_digest v \<noteq> 0 \<Longrightarrow> build_spec_ok (bm_spec v) \<Longrightarrow>
   record_identity (sealed artifact_build_permit_type (wr_build_permit v)) = Inr (seal_of artifact_build_permit_type (wr_build_permit v))"
  unfolding record_identity_def Let_def sealed_identity length_ascii magic_length sealed_parts
  using build_permit_canonical [of "sealed artifact_build_permit_type (wr_build_permit v)" v] by (simp add: record_types)

lemma record_identity_ready_spec:
  "ready_spec_ok v \<Longrightarrow> record_identity (sealed ready_spec_type (wr_ready_spec v)) = Inr (seal_of ready_spec_type (wr_ready_spec v))"
  unfolding record_identity_def Let_def sealed_identity length_ascii magic_length sealed_parts
  using ready_spec_canonical [of "sealed ready_spec_type (wr_ready_spec v)" v] by (simp add: record_types)

lemma record_identity_ready_permit:
  "rm_spec_digest v \<noteq> 0 \<Longrightarrow> ready_spec_ok (rm_spec v) \<Longrightarrow>
   record_identity (sealed ready_permit_type (wr_ready_permit v)) = Inr (seal_of ready_permit_type (wr_ready_permit v))"
  unfolding record_identity_def Let_def sealed_identity length_ascii magic_length sealed_parts
  using ready_permit_canonical [of "sealed ready_permit_type (wr_ready_permit v)" v] by (simp add: record_types)

text \<open>The bytes a seal covers.\<close>

definition unsealed :: "byte list \<Rightarrow> byte list" where
  "unsealed bs = take (length bs - 32) bs"

lemma unsealed_sealed: "unsealed (sealed tag body) = ascii rbauth_magic @ [tag] @ body"
  by (simp add: unsealed_def sealed_def Let_def)

lemma seal_of_eq:
  assumes "seal_of tag a = seal_of tag b"
  shows "sealed tag a = sealed tag b \<or> sha256_collision (unsealed (sealed tag a)) (unsealed (sealed tag b))"
proof -
  have "sha256 (ascii rbauth_magic @ [tag] @ a) = sha256 (ascii rbauth_magic @ [tag] @ b)"
    using assms by (simp only: seal_of_def sum256_eq)
  then show ?thesis
    unfolding unsealed_sealed sha256_collision_def by (cases "a = b") simp_all
qed

lemma exists_unit: "(\<exists>x :: unit. P x) \<longleftrightarrow> P ()"
  by (metis old.unit.exhaust)

lemma build_permit_embedded_ok:
  "build_permit_embedded v = Inr () \<longleftrightarrow>
     build_spec_ok (bm_spec v) \<and> bm_spec_digest v = seal_of artifact_build_spec_type (wr_build_spec (bm_spec v))"
  by (auto simp: build_permit_embedded_def and_then_ok marshal_build_spec_ok record_identity_build_spec reject_if_ok)

lemma ready_permit_embedded_ok:
  "ready_permit_embedded v = Inr () \<longleftrightarrow>
     ready_spec_ok (rm_spec v) \<and> rm_spec_digest v = seal_of ready_spec_type (wr_ready_spec (rm_spec v))"
  by (auto simp: ready_permit_embedded_def and_then_ok marshal_ready_spec_ok record_identity_ready_spec reject_if_ok)

lemma validate_links_ok:
  "validate_links v sr pr rr mr = Inr () \<longleftrightarrow> (\<exists>spec permit.
     parse_build_spec sr = Inr spec \<and> parse_build_permit pr = Inr permit \<and>
     bm_spec_digest permit = seal_of artifact_build_spec_type (wr_build_spec (bm_spec permit)) \<and>
     validate_rbdft_header rr 7 = Inr () \<and> validate_rbdft_header mr 5 = Inr () \<and>
     rs_build_spec v = seal_of artifact_build_spec_type (wr_build_spec spec) \<and>
     bm_spec_digest permit = rs_build_spec v \<and>
     rs_build_permit v = seal_of artifact_build_permit_type (wr_build_permit permit) \<and>
     rs_build_receipt v = sum256 rr \<and> rs_pair_manifest v = sum256 mr)"
  (is "?L \<longleftrightarrow> ?R")
proof
  assume ?L
  then obtain spec permit where p: "parse_build_spec sr = Inr spec" "parse_build_permit pr = Inr permit"
      "build_permit_embedded permit = Inr ()" "validate_rbdft_header rr 7 = Inr ()" "validate_rbdft_header mr 5 = Inr ()"
    and i: "record_identity sr = Inr (rs_build_spec v)" "record_identity pr = Inr (rs_build_permit v)"
      "bm_spec_digest permit = rs_build_spec v" "rs_build_receipt v = sum256 rr" "rs_pair_manifest v = sum256 mr"
    unfolding validate_links_def and_then_ok reject_if_ok exists_unit by blast
  then have "rs_build_spec v = seal_of artifact_build_spec_type (wr_build_spec spec)"
      "rs_build_permit v = seal_of artifact_build_permit_type (wr_build_permit permit)"
    using record_identity_build_spec [of spec] record_identity_build_permit [of permit]
    unfolding build_spec_canonical build_permit_canonical by auto
  then show ?R using p i(3-) unfolding build_permit_embedded_ok by blast
next
  assume ?R
  then obtain spec permit where p: "parse_build_spec sr = Inr spec" "parse_build_permit pr = Inr permit"
      "bm_spec_digest permit = seal_of artifact_build_spec_type (wr_build_spec (bm_spec permit))"
      "validate_rbdft_header rr 7 = Inr ()" "validate_rbdft_header mr 5 = Inr ()"
    and v: "rs_build_spec v = seal_of artifact_build_spec_type (wr_build_spec spec)" "bm_spec_digest permit = rs_build_spec v"
      "rs_build_permit v = seal_of artifact_build_permit_type (wr_build_permit permit)"
      "rs_build_receipt v = sum256 rr" "rs_pair_manifest v = sum256 mr" by blast
  have "record_identity sr = Inr (rs_build_spec v)" "record_identity pr = Inr (rs_build_permit v)"
      "build_permit_embedded permit = Inr ()"
    using p(1-3) v record_identity_build_spec [of spec] record_identity_build_permit [of permit]
    unfolding build_spec_canonical build_permit_canonical build_permit_embedded_ok by auto
  then show ?L
    using p v by (simp add: validate_links_def)
qed

text \<open>
  A ready specification binds its history: the build permit it links embeds the very build
  specification it links, and a second set of linked records that passes the check is the same set,
  unless the differing records are explicit SHA-256 collisions.
\<close>

lemma ready_links_bind:
  assumes "validate_links v sr pr rr mr = Inr ()" and "validate_links v sr' pr' rr' mr' = Inr ()"
  shows "(\<exists>spec permit. parse_build_spec sr = Inr spec \<and> parse_build_permit pr = Inr permit \<and>
      (marshal_build_spec (bm_spec permit) = Inr sr \<and> bm_spec permit = spec \<or>
       (\<exists>record. marshal_build_spec (bm_spec permit) = Inr record \<and> sha256_collision (unsealed record) (unsealed sr)))) \<and>
    (sr = sr' \<or> sha256_collision (unsealed sr) (unsealed sr')) \<and>
    (pr = pr' \<or> sha256_collision (unsealed pr) (unsealed pr')) \<and>
    (rr = rr' \<or> sha256_collision rr rr') \<and> (mr = mr' \<or> sha256_collision mr mr')"
proof -
  obtain spec permit where p: "parse_build_spec sr = Inr spec" "parse_build_permit pr = Inr permit"
      "bm_spec_digest permit = seal_of artifact_build_spec_type (wr_build_spec (bm_spec permit))"
      "rs_build_spec v = seal_of artifact_build_spec_type (wr_build_spec spec)" "bm_spec_digest permit = rs_build_spec v"
      "rs_build_permit v = seal_of artifact_build_permit_type (wr_build_permit permit)"
      "rs_build_receipt v = sum256 rr" "rs_pair_manifest v = sum256 mr"
    using assms(1) unfolding validate_links_ok by blast
  obtain spec' permit' where q: "parse_build_spec sr' = Inr spec'" "parse_build_permit pr' = Inr permit'"
      "rs_build_spec v = seal_of artifact_build_spec_type (wr_build_spec spec')"
      "rs_build_permit v = seal_of artifact_build_permit_type (wr_build_permit permit')"
      "rs_build_receipt v = sum256 rr'" "rs_pair_manifest v = sum256 mr'"
    using assms(2) unfolding validate_links_ok by blast
  note sr = p(1) [unfolded build_spec_canonical] and sr' = q(1) [unfolded build_spec_canonical]
    and pr = p(2) [unfolded build_permit_canonical] and pr' = q(2) [unfolded build_permit_canonical]
  have embedded: "marshal_build_spec (bm_spec permit) = Inr (sealed artifact_build_spec_type (wr_build_spec (bm_spec permit)))"
    using pr by (simp add: marshal_build_spec_ok)
  have "seal_of artifact_build_spec_type (wr_build_spec (bm_spec permit)) = seal_of artifact_build_spec_type (wr_build_spec spec)"
    using p(3-5) by simp
  from seal_of_eq [OF this] have "marshal_build_spec (bm_spec permit) = Inr sr \<and> bm_spec permit = spec \<or>
      (\<exists>record. marshal_build_spec (bm_spec permit) = Inr record \<and> sha256_collision (unsealed record) (unsealed sr))"
  proof
    assume same: "sealed artifact_build_spec_type (wr_build_spec (bm_spec permit)) =
        sealed artifact_build_spec_type (wr_build_spec spec)"
    then have "parse_build_spec sr = Inr (bm_spec permit)" using sr pr by (simp only: build_spec_canonical)
    then have "bm_spec permit = spec" using p(1) by simp
    then show ?thesis using embedded sr by (simp only: simp_thms)
  next
    assume "sha256_collision (unsealed (sealed artifact_build_spec_type (wr_build_spec (bm_spec permit))))
        (unsealed (sealed artifact_build_spec_type (wr_build_spec spec)))"
    then show ?thesis using embedded sr by metis
  qed
  moreover have "sr = sr' \<or> sha256_collision (unsealed sr) (unsealed sr')"
    using seal_of_eq [of artifact_build_spec_type "wr_build_spec spec" "wr_build_spec spec'"] p(4) q(3) sr sr' by simp
  moreover have "pr = pr' \<or> sha256_collision (unsealed pr) (unsealed pr')"
    using seal_of_eq [of artifact_build_permit_type "wr_build_permit permit" "wr_build_permit permit'"] p(6) q(4) pr pr' by simp
  moreover have "rr = rr' \<or> sha256_collision rr rr'" "mr = mr' \<or> sha256_collision mr mr'"
    using p(7,8) q(5,6) by (auto simp: sum256_eq sha256_collision_def)
  ultimately show ?thesis using p(1,2) by blast
qed


text \<open>
  The identity of a record is the hash of the bytes its seal covers, and RBAUTHRecordIdentity
  returns it for exactly the byte strings that parse as one of the four records.
\<close>

theorem record_identity_iff:
  "record_identity bs = Inr d \<longleftrightarrow>
     (is_ok (parse_build_spec bs) \<or> is_ok (parse_build_permit bs) \<or> is_ok (parse_ready_spec bs) \<or> is_ok (parse_ready_permit bs)) \<and>
     d = sum256 (unsealed bs)"
proof -
  let ?frame = "\<lambda>tag. 49 \<le> length bs \<and> take 16 bs = ascii rbauth_magic \<and> bs ! 16 = tag \<and>
      of_le_bytes (drop (length bs - 32) bs) = sum256 (unsealed bs)"
  have frame: "?frame tag" if "bs = sealed tag body" for tag body
    using sealed_identity [of tag body] sealed_parts [where tag = tag and body = body]
    unfolding that unsealed_sealed seal_of_def by simp
  have tags: "is_ok (parse_build_spec bs) \<Longrightarrow> ?frame artifact_build_spec_type"
      "is_ok (parse_build_permit bs) \<Longrightarrow> ?frame artifact_build_permit_type"
      "is_ok (parse_ready_spec bs) \<Longrightarrow> ?frame ready_spec_type"
      "is_ok (parse_ready_permit bs) \<Longrightarrow> ?frame ready_permit_type"
    unfolding is_ok_iff build_spec_canonical build_permit_canonical ready_spec_canonical ready_permit_canonical
    using frame by blast+
  have step: "record_identity bs = Inr d \<longleftrightarrow> 49 \<le> length bs \<and> take 16 bs = ascii rbauth_magic \<and>
      (bs ! 16 = artifact_build_spec_type \<and> is_ok (parse_build_spec bs) \<or>
       bs ! 16 = artifact_build_permit_type \<and> is_ok (parse_build_permit bs) \<or>
       bs ! 16 = ready_spec_type \<and> is_ok (parse_ready_spec bs) \<or>
       bs ! 16 = ready_permit_type \<and> is_ok (parse_ready_permit bs)) \<and>
      d = of_le_bytes (drop (length bs - 32) bs)"
    by (auto simp: record_identity_def Let_def and_then_ok is_ok_iff record_types)
  show ?thesis unfolding step using tags by metis
qed

section \<open>The memory ledger\<close>

definition guarded_bytes :: "nat \<Rightarrow> nat" where
  "guarded_bytes pre_guard = pre_guard + max (pre_guard div 10) 536870912"

lemma guard_unat:
  "unat (if pre_guard div 10 < 536870912 then 536870912 else pre_guard div 10 :: 64 word) = max (unat pre_guard div 10) 536870912"
  by (simp add: word_less_nat_alt unat_div)

lemma unat_max: "unat (NOT 0 :: 64 word) = 18446744073709551615"
  by (simp add: unsigned_minus_1_eq_mask mask_eq_exp_minus_1)

lemma unat_max_minus: "unat ((NOT 0 :: 64 word) - w) = 18446744073709551615 - unat w"
proof -
  have "w \<le> NOT 0" by (simp add: word_order.extremum)
  then show ?thesis by (simp only: unat_sub unat_max)
qed

lemma peak_bound_overflows:
  "w > (NOT 0) div 4 \<longleftrightarrow> \<not> unat w < 4611686018427387904" for w :: "64 word"
proof -
  have "unat ((NOT 0) div 4 :: 64 word) = 4611686018427387903" unfolding unat_div unat_max by simp
  then show ?thesis unfolding word_less_nat_alt by linarith
qed

lemma sum_overflows: "v > (NOT 0) - w \<longleftrightarrow> \<not> unat v + unat w < 18446744073709551616" for v w :: "64 word"
  unfolding word_less_nat_alt unat_max_minus using unsigned_less [of w, where 'a = nat] by auto

lemma unat_sum: "unat v + unat w < 18446744073709551616 \<Longrightarrow> unat (v + w) = unat v + unat w" for v w :: "64 word"
  using unat_add_lem [of v w] by simp

definition guard_word :: "64 word \<Rightarrow> 64 word" where
  "guard_word pre_guard = (if pre_guard div 10 < 536870912 then 536870912 else pre_guard div 10)"

lemma guarded_unat:
  assumes "unat pre_guard + unat (guard_word pre_guard) < 18446744073709551616"
  shows "unat (pre_guard + guard_word pre_guard) = guarded_bytes (unat pre_guard)"
proof -
  have "unat (guard_word pre_guard) = max (unat pre_guard div 10) 536870912" by (simp add: guard_word_def guard_unat)
  then show ?thesis unfolding unat_sum [OF assms] guarded_bytes_def by simp
qed

lemma peak_contract_cases:
  "peak_contract_for_requirement total_bytes available pre_guard = Inr v \<longleftrightarrow>
     total_bytes \<noteq> 0 \<and> available \<le> total_bytes \<and> pre_guard \<noteq> 0 \<and> \<not> total_bytes > (NOT 0) div 4 \<and>
     \<not> pre_guard > (NOT 0) - guard_word pre_guard \<and>
     \<not> total_bytes - available > (NOT 0) - (pre_guard + guard_word pre_guard) \<and>
     total_bytes - available + (pre_guard + guard_word pre_guard) < total_bytes * 4 div 5 \<and>
     pk_guarded v = pre_guard + guard_word pre_guard \<and>
     pk_remaining v = total_bytes * 4 div 5 - (total_bytes - available + (pre_guard + guard_word pre_guard)) \<and>
     pk_duplicate_excess v = (if pk_remaining v < duplicate_default_bytes then duplicate_default_bytes - pk_remaining v else 0) \<and>
     pk_full_artifact v = full_artifact_peak_bytes \<and> pk_pre_guard v = pre_guard \<and>
     pk_duplicate_default v = duplicate_default_bytes \<and> pk_digest v = peak_identity v"
proof (cases v)
  case v: (fields f p g r d e i)
  have identity: "peak_identity \<lparr>pk_full_artifact = f, pk_pre_guard = p, pk_guarded = g, pk_remaining = r,
      pk_duplicate_default = d, pk_duplicate_excess = e, pk_digest = i\<rparr> =
    peak_identity \<lparr>pk_full_artifact = f, pk_pre_guard = p, pk_guarded = g, pk_remaining = r,
      pk_duplicate_default = d, pk_duplicate_excess = e, pk_digest = 0\<rparr>" for f p g r d e i
    by (simp add: peak_identity_def wr_peak_fields_def peak_fields_def)
  show ?thesis
    unfolding peak_contract_for_requirement_def Let_def guard_word_def [symmetric] v
    by (auto simp: identity [of _ _ _ _ _ _ i] not_le not_less split: if_splits)
qed

text \<open>
  C30. The memory ledger is exact: it is issued if and only if the sample is consistent, small enough for
  the limit computation and the guarded requirement on top of the used memory stays strictly below four
  fifths of the total, all in unbounded arithmetic; then no step has wrapped, and the recorded guard,
  remainder and excess are the true values.
\<close>

theorem peak_contract_exact:
  "peak_contract_for_requirement total_bytes available pre_guard = Inr v \<longleftrightarrow>
     available \<le> total_bytes \<and> unat total_bytes < 2 ^ 62 \<and> pre_guard \<noteq> 0 \<and>
     (unat total_bytes - unat available) + guarded_bytes (unat pre_guard) < unat total_bytes * 4 div 5 \<and>
     unat (pk_guarded v) = guarded_bytes (unat pre_guard) \<and>
     unat (pk_remaining v) =
       unat total_bytes * 4 div 5 - ((unat total_bytes - unat available) + guarded_bytes (unat pre_guard)) \<and>
     unat (pk_duplicate_excess v) = unat duplicate_default_bytes - unat (pk_remaining v) \<and>
     pk_full_artifact v = full_artifact_peak_bytes \<and> pk_pre_guard v = pre_guard \<and>
     pk_duplicate_default v = duplicate_default_bytes \<and> pk_digest v = peak_identity v"
proof -
  let ?T = "unat total_bytes" and ?A = "unat available" and ?P = "unat pre_guard" and ?g = "unat (guard_word pre_guard)"
  have g: "guarded_bytes ?P = ?P + ?g" by (simp add: guarded_bytes_def guard_word_def guard_unat)
  have limit: "unat (total_bytes * 4 div 5) = ?T * 4 div 5" if "?T < 4611686018427387904"
    using that unat_mult_lem [of total_bytes 4] by (simp add: unat_div)
  have used: "unat (total_bytes - available) = ?T - ?A" if "available \<le> total_bytes"
    using that by (rule unat_sub)
  have excess: "unat (if r < duplicate_default_bytes then duplicate_default_bytes - r else 0) = unat duplicate_default_bytes - unat r"
    for r :: "64 word" by (simp add: unat_sub_if_size word_less_nat_alt)
  have needs: "unat (total_bytes - available + (pre_guard + guard_word pre_guard)) = (?T - ?A) + (?P + ?g)"
      "unat (pre_guard + guard_word pre_guard) = ?P + ?g"
    if "available \<le> total_bytes" "(?T - ?A) + (?P + ?g) < 18446744073709551616"
  proof -
    show pg: "unat (pre_guard + guard_word pre_guard) = ?P + ?g" using that(2) by (intro unat_sum) linarith
    show "unat (total_bytes - available + (pre_guard + guard_word pre_guard)) = (?T - ?A) + (?P + ?g)"
      using unat_sum [of "total_bytes - available" "pre_guard + guard_word pre_guard"] that(2)
      unfolding used [OF that(1)] pg .
  qed
  let ?N = "total_bytes - available + (pre_guard + guard_word pre_guard)"
  show ?thesis
  proof (cases "available \<le> total_bytes \<and> ?T < 4611686018427387904 \<and> (?T - ?A) + (?P + ?g) < 18446744073709551616")
    case False
    then show ?thesis
      unfolding peak_contract_cases peak_bound_overflows sum_overflows g
      using used unat_sum [of pre_guard "guard_word pre_guard"] by auto
  next
    case True
    then have a: "available \<le> total_bytes" "?T < 4611686018427387904" and b: "(?T - ?A) + (?P + ?g) < 18446744073709551616" by simp_all
    have fits: "?P + ?g < 18446744073709551616" using b by linarith
    have below: "?N < total_bytes * 4 div 5 \<longleftrightarrow> (?T - ?A) + (?P + ?g) < ?T * 4 div 5"
      unfolding word_less_nat_alt limit [OF a(2)] needs(1) [OF a(1) b] ..
    have remaining: "r = total_bytes * 4 div 5 - ?N \<longleftrightarrow> unat r = ?T * 4 div 5 - ((?T - ?A) + (?P + ?g))"
      if "(?T - ?A) + (?P + ?g) < ?T * 4 div 5" for r
    proof -
      have "?N \<le> total_bytes * 4 div 5" using that below by simp
      then show ?thesis unfolding word_unat_eq_iff by (simp only: unat_sub limit [OF a(2)] needs(1) [OF a(1) b])
    qed
    have excess: "e = (if r < duplicate_default_bytes then duplicate_default_bytes - r else 0) \<longleftrightarrow>
        unat e = unat duplicate_default_bytes - unat r" for e r :: "64 word"
      unfolding word_unat_eq_iff [of e] excess ..
    have guarded: "w = pre_guard + guard_word pre_guard \<longleftrightarrow> unat w = ?P + ?g" for w
      unfolding word_unat_eq_iff [of w] needs(2) [OF a(1) b] ..
    have "total_bytes \<noteq> 0" if "(?T - ?A) + (?P + ?g) < ?T * 4 div 5" using that by auto
    then show ?thesis
      unfolding peak_contract_cases peak_bound_overflows sum_overflows g below excess guarded needs(2) [OF a(1) b] used [OF a(1)]
      using a b fits remaining by auto
  qed
qed

end
