(* ===== verification/DftWireProps.thy ===== *)
theory DftWireProps
  imports DftWire AuthWireProps
begin

text \<open>
  The build records of \<^verbatim>\<open>route_b_rbdft_wire.go\<close> are canonical, an accepted lifecycle never holds two
  numeric factors, the byte ledgers are exact and the seven records of a build name each other.
\<close>

section \<open>Envelope and arrays\<close>

lemma rbdft_magic_length [simp]: "length rbdft_magic = 16"
  by (simp add: rbdft_magic_def)

lemma dft_sizes:
  "dft_header_bytes = 18" "factor_reference_bytes = 44" "aggregate_fixed_bytes = 30" "max_transform_aggregate_bytes = 162"
  "artifact_pair_record_bytes = 210" "lifecycle_max_record_bytes = 1848"
  by (simp_all add: dft_header_bytes_def factor_reference_bytes_def aggregate_fixed_bytes_def max_transform_aggregate_bytes_def
      artifact_pair_record_bytes_def payload_tuple_bytes_def lifecycle_max_record_bytes_def lifecycle_prefix_bytes_def
      lifecycle_event_bytes_def success_event_count_def)

lemma wr_header_length [simp]: "length (wr_header ty role) = 18"
  by (simp add: wr_header_def)

lemma parse_rbdft_envelope_ok:
  "parse_rbdft_envelope bs ty maximum = Inr (role, body) \<longleftrightarrow> 18 + length body \<le> maximum \<and> bs = wr_header ty role @ body"
proof
  assume "parse_rbdft_envelope bs ty maximum = Inr (role, body)"
  then have len: "length bs \<le> maximum" "18 \<le> length bs" and magic: "take 16 bs = ascii rbdft_magic" "bs ! 16 = ty"
    and body: "role = bs ! 17" "body = drop 18 bs"
    by (auto simp: parse_rbdft_envelope_def Let_def dft_sizes split: if_splits)
  have "bs = take 16 bs @ bs ! 16 # bs ! 17 # drop 18 bs"
    using len(2) id_take_nth_drop [of 16 bs] Cons_nth_drop_Suc [of 17 bs] by simp
  then have "bs = wr_header ty role @ body" unfolding magic body [symmetric] wr_header_def by simp
  then show "18 + length body \<le> maximum \<and> bs = wr_header ty role @ body" using len by simp
next
  assume b: "18 + length body \<le> maximum \<and> bs = wr_header ty role @ body"
  have "take 16 bs = ascii rbdft_magic" "bs ! 16 = ty" "bs ! 17 = role" "drop 18 bs = body" "length bs = 18 + length body"
    using b by (simp_all add: wr_header_def nth_append)
  then show "parse_rbdft_envelope bs ty maximum = Inr (role, body)"
    using b by (simp add: parse_rbdft_envelope_def Let_def dft_sizes)
qed

lemma and_then_pair: "and_then m (\<lambda>(a, b). f a b) = Inr v \<longleftrightarrow> (\<exists>a b. m = Inr (a, b) \<and> f a b = Inr v)"
  by (auto simp: and_then_ok)

lemma finish_and_check:
  "and_then m (\<lambda>(v, rest). and_then (rd_finish mal rest) (\<lambda>_. and_then (check v) (\<lambda>_. Inr v))) = Inr w \<longleftrightarrow>
     m = Inr (w, []) \<and> check w = Inr ()"
  unfolding and_then_pair by (auto simp: and_then_ok rd_finish_def reject_if_ok)

definition zero_tail :: "nat \<Rightarrow> 'a \<Rightarrow> nat \<Rightarrow> 'a list \<Rightarrow> bool" where
  "zero_tail n z count xs \<longleftrightarrow> length xs = n \<and> drop count xs = replicate (n - count) z"

lemma into_array_iff:
  assumes "length fs = count" and "count \<le> n"
  shows "into_array n z fs = xs \<longleftrightarrow> zero_tail n z count xs \<and> fs = take count xs"
proof
  assume "into_array n z fs = xs"
  then show "zero_tail n z count xs \<and> fs = take count xs" using assms by (auto simp: into_array_def zero_tail_def)
next
  assume t: "zero_tail n z count xs \<and> fs = take count xs"
  then have "into_array n z fs = take count xs @ drop count xs"
    using assms by (simp add: into_array_def zero_tail_def)
  then show "into_array n z fs = xs" by simp
qed

lemma zero_tail_iff: "count \<le> n \<Longrightarrow> xs = into_array n z (take count xs) \<longleftrightarrow> zero_tail n z count xs"
  using into_array_iff [of "take count xs" count n z xs]
  by (cases "count \<le> length xs") (auto simp: zero_tail_def into_array_def)

section \<open>Transform aggregates\<close>

fun refs_ok :: "nat \<Rightarrow> factor_ref list \<Rightarrow> bool" where
  "refs_ok i [] \<longleftrightarrow> True"
| "refs_ok i (f # fs) \<longleftrightarrow> (fr_index f = word_of_nat i \<and> fr_digest f \<noteq> 0 \<and> fr_bytes f \<noteq> 0) \<and> refs_ok (Suc i) fs"

definition factor_bytes :: "factor_ref list \<Rightarrow> nat" where
  "factor_bytes fs = (\<Sum>f \<leftarrow> fs. unat (fr_bytes f))"

lemma checked_add_exact:
  "checked_add l r = (if unat l + unat r < 18446744073709551616 then Some (l + r) else None)"
  unfolding checked_add_def sum_overflows by simp

lemma checked_add_ok:
  "checked_add l r = Some t \<longleftrightarrow> unat l + unat r < 18446744073709551616 \<and> unat t = unat l + unat r"
  unfolding checked_add_exact using unat_sum [of l r] by (auto simp: word_unat_eq_iff)

lemma aggregate_total_ok:
  "aggregate_total i fs t = Inr t' \<longleftrightarrow>
     refs_ok i fs \<and> unat t + factor_bytes fs < 18446744073709551616 \<and> unat t' = unat t + factor_bytes fs"
proof (induction i fs t rule: aggregate_total.induct)
  case (1 i t)
  show ?case using unsigned_less [of t, where 'a = nat] by (auto simp: factor_bytes_def word_unat_eq_iff)
next
  case (2 i f fs t)
  show ?case
  proof (cases "checked_add t (fr_bytes f)")
    case None
    then have "\<not> unat t + unat (fr_bytes f) < 18446744073709551616"
      by (simp add: checked_add_exact split: if_splits)
    with None show ?thesis by (auto simp: factor_bytes_def)
  next
    case (Some u)
    then have "unat u = unat t + unat (fr_bytes f)" by (simp add: checked_add_ok)
    then show ?thesis using 2 Some by (auto simp: is_zero_digest_def factor_bytes_def ac_simps)
  qed
qed

definition aggregate_ok :: "transform_aggregate \<Rightarrow> bool" where
  "aggregate_ok v \<longleftrightarrow>
     (ag_type v = numeric_aggregate_type \<or> ag_type v = encoded_aggregate_type) \<and>
     (ag_role v = role_stc \<and> ag_count v = 2 \<or> ag_role v = role_cts \<and> ag_count v = 3) \<and>
     refs_ok 0 (take (unat (ag_count v)) (ag_factors v)) \<and>
     unat (ag_bytes v) = 30 + 44 * unat (ag_count v) + factor_bytes (take (unat (ag_count v)) (ag_factors v))"

lemmas dft_types = numeric_aggregate_type_def encoded_aggregate_type_def artifact_pair_type_def lifecycle_type_def
  build_receipt_type_def
lemmas dft_roles = role_none_def role_stc_def role_cts_def

lemma validate_aggregate_ok: "validate_transform_aggregate v = Inr () \<longleftrightarrow> aggregate_ok v"
proof -
  let ?fs = "take (unat (ag_count v)) (ag_factors v)"
  have count: "expected_factor_count r \<noteq> 0 \<and> c = expected_factor_count r \<longleftrightarrow> r = role_stc \<and> c = 2 \<or> r = role_cts \<and> c = 3" for r c
    by (auto simp: expected_factor_count_def dft_roles)
  have frame: "unat (30 + ucast (ag_count v) * 44 :: 64 word) = 30 + 44 * unat (ag_count v)"
    if "ag_count v = 2 \<or> ag_count v = 3" using that by auto
  have "validate_transform_aggregate v = Inr () \<longleftrightarrow>
      (ag_type v = numeric_aggregate_type \<or> ag_type v = encoded_aggregate_type) \<and>
      (ag_role v = role_stc \<and> ag_count v = 2 \<or> ag_role v = role_cts \<and> ag_count v = 3) \<and>
      aggregate_total 0 ?fs (30 + ucast (ag_count v) * 44) = Inr (ag_bytes v)"
    unfolding count [symmetric] by (auto simp: validate_transform_aggregate_def Let_def and_then_ok reject_if_ok dft_sizes)
  also have "\<dots> \<longleftrightarrow> aggregate_ok v"
    using unsigned_less [of "ag_bytes v", where 'a = nat] frame
    unfolding aggregate_total_ok aggregate_ok_def by auto
  finally show ?thesis .
qed

interpretation factor: wire_codec wr_factor "rd_factor i" "\<lambda>f. fr_index f = word_of_nat i \<and> fr_digest f \<noteq> 0 \<and> fr_bytes f \<noteq> 0" for i
proof
  show "rd_factor i bs = Inr (v, rest) \<longleftrightarrow>
      (fr_index v = word_of_nat i \<and> fr_digest v \<noteq> 0 \<and> fr_bytes v \<noteq> 0) \<and> bs = wr_factor v @ rest" for bs v rest
    by (cases v) (auto simp: rd_factor_def rd_guard_reads wire_reads wr_factor_def)
qed

lemma rd_factors_reads:
  "rd_factors i n bs = Inr (fs, rest) \<longleftrightarrow> length fs = n \<and> refs_ok i fs \<and> bs = concat (map wr_factor fs) @ rest"
proof (induction n arbitrary: i bs fs)
  case 0
  show ?case by (auto simp: rd_return_def)
next
  case (Suc n)
  then show ?case by (cases fs) (auto simp: wire_reads factor.reads)
qed

lemma factor_length [simp]: "length (wr_factor f) = 44"
  by (simp add: wr_factor_def)

lemma factors_length [simp]: "length (concat (map wr_factor fs)) = 44 * length fs"
  by (induction fs) simp_all

text \<open>The arrays of a report as a parser leaves them.\<close>

definition aggregate_array :: "transform_aggregate \<Rightarrow> bool" where
  "aggregate_array v \<longleftrightarrow> zero_tail 3 zero_factor (unat (ag_count v)) (ag_factors v)"

definition wr_aggregate :: "transform_aggregate \<Rightarrow> byte list" where
  "wr_aggregate v = wr_u32 (ag_count v) @ concat (map wr_factor (take (unat (ag_count v)) (ag_factors v))) @ wr_u64 (ag_bytes v)"

lemma rd_aggregate_reads:
  assumes "role = role_stc \<or> role = role_cts"
  shows "rd_transform_aggregate ty role bs = Inr (v, rest) \<longleftrightarrow>
    ag_type v = ty \<and> ag_role v = role \<and> ag_count v = expected_factor_count role \<and> aggregate_array v \<and>
    refs_ok 0 (take (unat (ag_count v)) (ag_factors v)) \<and> bs = wr_aggregate v @ rest"
proof (cases v)
  case v: (fields t r c fs n)
  have count: "unat (expected_factor_count role) \<le> 3" using assms by (auto simp: expected_factor_count_def)
  have "rd_transform_aggregate ty role bs = Inr (v, rest) \<longleftrightarrow>
      t = ty \<and> r = role \<and> c = expected_factor_count role \<and>
      (\<exists>gs. length gs = unat c \<and> refs_ok 0 gs \<and> into_array 3 zero_factor gs = fs \<and>
        bs = wr_u32 c @ concat (map wr_factor gs) @ wr_u64 n @ rest)"
    unfolding rd_transform_aggregate_def v by (auto simp: rd_guard_reads wire_reads rd_factors_reads)
  also have "\<dots> \<longleftrightarrow> t = ty \<and> r = role \<and> c = expected_factor_count role \<and> zero_tail 3 zero_factor (unat c) fs \<and>
      refs_ok 0 (take (unat c) fs) \<and> bs = wr_u32 c @ concat (map wr_factor (take (unat c) fs)) @ wr_u64 n @ rest"
  proof (cases "c = expected_factor_count role")
    case True
    then have c: "unat c \<le> 3" using count by simp
    have "length gs = unat c \<and> into_array 3 zero_factor gs = fs \<longleftrightarrow> gs = take (unat c) fs \<and> zero_tail 3 zero_factor (unat c) fs" for gs
      using into_array_iff [of gs "unat c" 3 zero_factor fs] c by (auto simp: zero_tail_def)
    then show ?thesis using True by metis
  qed simp
  finally show ?thesis by (auto simp: v aggregate_array_def wr_aggregate_def)
qed

lemma marshal_aggregate_ok:
  "marshal_transform_aggregate v = Inr bs \<longleftrightarrow> aggregate_ok v \<and> bs = wr_header (ag_type v) (ag_role v) @ wr_aggregate v"
  by (auto simp: marshal_transform_aggregate_def and_then_ok validate_aggregate_ok wr_aggregate_def)

lemma parse_aggregate_ok:
  assumes "ty = numeric_aggregate_type \<or> ty = encoded_aggregate_type"
  shows "parse_transform_aggregate ty bs = Inr v \<longleftrightarrow>
    ag_type v = ty \<and> aggregate_ok v \<and> aggregate_array v \<and> bs = wr_header (ag_type v) (ag_role v) @ wr_aggregate v"
proof -
  have "parse_transform_aggregate ty bs = Inr v \<longleftrightarrow>
      (\<exists>role data. parse_rbdft_envelope bs ty max_transform_aggregate_bytes = Inr (role, data) \<and>
        (role = role_stc \<or> role = role_cts) \<and> rd_transform_aggregate ty role data = Inr (v, []) \<and> aggregate_ok v)"
    unfolding parse_transform_aggregate_def and_then_pair [where m = "parse_rbdft_envelope _ _ _"] validate_aggregate_ok [symmetric]
    by (intro ex_cong1 conj_cong refl) (simp add: finish_and_check)
  also have "\<dots> \<longleftrightarrow> ag_type v = ty \<and> aggregate_ok v \<and> aggregate_array v \<and> bs = wr_header (ag_type v) (ag_role v) @ wr_aggregate v"
  proof
    assume "\<exists>role data. parse_rbdft_envelope bs ty max_transform_aggregate_bytes = Inr (role, data) \<and>
        (role = role_stc \<or> role = role_cts) \<and> rd_transform_aggregate ty role data = Inr (v, []) \<and> aggregate_ok v"
    then show "ag_type v = ty \<and> aggregate_ok v \<and> aggregate_array v \<and> bs = wr_header (ag_type v) (ag_role v) @ wr_aggregate v"
      unfolding parse_rbdft_envelope_ok using rd_aggregate_reads by auto
  next
    assume r: "ag_type v = ty \<and> aggregate_ok v \<and> aggregate_array v \<and> bs = wr_header (ag_type v) (ag_role v) @ wr_aggregate v"
    then have role: "ag_role v = role_stc \<or> ag_role v = role_cts" and count: "ag_count v = expected_factor_count (ag_role v)"
      and refs: "refs_ok 0 (take (unat (ag_count v)) (ag_factors v))" and c: "unat (ag_count v) \<le> 3"
      by (auto simp: aggregate_ok_def expected_factor_count_def dft_roles)
    have "18 + length (wr_aggregate v) \<le> max_transform_aggregate_bytes"
      using c by (simp add: wr_aggregate_def dft_sizes)
    moreover have "rd_transform_aggregate ty (ag_role v) (wr_aggregate v) = Inr (v, [])"
      unfolding rd_aggregate_reads [OF role] using r count refs by simp
    ultimately show "\<exists>role data. parse_rbdft_envelope bs ty max_transform_aggregate_bytes = Inr (role, data) \<and>
        (role = role_stc \<or> role = role_cts) \<and> rd_transform_aggregate ty role data = Inr (v, []) \<and> aggregate_ok v"
      unfolding parse_rbdft_envelope_ok using r role by blast
  qed
  finally show ?thesis .
qed

text \<open>
  C33. The byte ledger of a transform aggregate is exact: it is accepted if and only if its type and
  role are known, its count is the one of its role, its first entries carry the indexes in order,
  nonzero digests and sizes, and its total is the framing plus the factor sizes in unbounded arithmetic.
\<close>

theorem aggregate_ledger_exact:
  "validate_transform_aggregate v = Inr () \<longleftrightarrow>
     (ag_type v = numeric_aggregate_type \<or> ag_type v = encoded_aggregate_type) \<and>
     (ag_role v = role_stc \<and> ag_count v = 2 \<or> ag_role v = role_cts \<and> ag_count v = 3) \<and>
     (\<forall>i < length (take (unat (ag_count v)) (ag_factors v)).
        fr_index (ag_factors v ! i) = word_of_nat i \<and> fr_digest (ag_factors v ! i) \<noteq> 0 \<and> fr_bytes (ag_factors v ! i) \<noteq> 0) \<and>
     unat (ag_bytes v) = 30 + 44 * unat (ag_count v) +
       (\<Sum>f \<leftarrow> take (unat (ag_count v)) (ag_factors v). unat (fr_bytes f))"
proof -
  have refs: "refs_ok k fs \<longleftrightarrow>
      (\<forall>i < length fs. fr_index (fs ! i) = word_of_nat (k + i) \<and> fr_digest (fs ! i) \<noteq> 0 \<and> fr_bytes (fs ! i) \<noteq> 0)" for k fs
    by (induction k fs rule: refs_ok.induct) (simp_all add: All_less_Suc2 ac_simps)
  show ?thesis
    unfolding validate_aggregate_ok aggregate_ok_def refs factor_bytes_def by simp
qed

text \<open>Two factor records of 100 and 200 bytes, framed in 118 bytes.\<close>

definition two_factor_aggregate :: transform_aggregate where
  "two_factor_aggregate = \<lparr>ag_type = numeric_aggregate_type, ag_role = role_stc, ag_count = 2,
     ag_factors = [\<lparr>fr_index = 0, fr_digest = 5, fr_bytes = 100\<rparr>, \<lparr>fr_index = 1, fr_digest = 6, fr_bytes = 200\<rparr>, zero_factor],
     ag_bytes = 418\<rparr>"

theorem aggregate_ledger_exact_witness: "validate_transform_aggregate two_factor_aggregate = Inr ()"
  unfolding aggregate_ledger_exact by (auto simp: two_factor_aggregate_def less_Suc_eq)

section \<open>The artifact pair\<close>

definition tuple_ok :: "payload_tuple \<Rightarrow> bool" where
  "tuple_ok t \<longleftrightarrow> pt_digest t \<noteq> 0 \<and> pt_bytes t \<noteq> 0"

definition pair_ok :: "artifact_pair \<Rightarrow> bool" where
  "pair_ok v \<longleftrightarrow> pr_permit v \<noteq> 0 \<and> list_all tuple_ok (payload_tuples (pr_payload v))"

definition wr_pair :: "artifact_pair \<Rightarrow> byte list" where
  "wr_pair v = wr_digest (pr_permit v) @ concat (map wr_payload (payload_tuples (pr_payload v)))"

lemma validate_pair_ok: "validate_artifact_pair v = Inr () \<longleftrightarrow> pair_ok v"
  by (simp add: validate_artifact_pair_def check_each_list_all is_zero_digest_def pair_ok_def tuple_ok_def [abs_def])

interpretation tuple: wire_codec wr_payload rd_payload_tuple tuple_ok
proof
  show "rd_payload_tuple bs = Inr (v, rest) \<longleftrightarrow> tuple_ok v \<and> bs = wr_payload v @ rest" for bs v rest
    by (cases v) (auto simp: rd_payload_tuple_def rd_guard_reads wire_reads wr_payload_def tuple_ok_def)
qed

interpretation pair: wire_codec wr_pair rd_artifact_pair pair_ok
proof
  show "rd_artifact_pair bs = Inr (v, rest) \<longleftrightarrow> pair_ok v \<and> bs = wr_pair v @ rest" for bs v rest
  proof (cases v)
    case v: (fields permit payload)
    show ?thesis
      by (cases payload) (auto simp: v rd_artifact_pair_def wire_chain wire_reads tuple.reads pair_ok_def wr_pair_def
          payload_tuples_def payload_of_def)
  qed
qed

lemma marshal_pair_ok: "marshal_artifact_pair v = Inr bs \<longleftrightarrow> pair_ok v \<and> bs = wr_header artifact_pair_type role_none @ wr_pair v"
  by (auto simp: marshal_artifact_pair_def and_then_ok validate_pair_ok wr_pair_def)

text \<open>A record whose role byte is zero: its body is read to the end and then checked.\<close>

lemma parse_zero_role:
  "and_then (parse_rbdft_envelope bs ty maximum) (\<lambda>(role, data). if role \<noteq> role_none then err e else f data) = Inr v \<longleftrightarrow>
     (\<exists>data. 18 + length data \<le> maximum \<and> bs = wr_header ty role_none @ data \<and> f data = Inr v)"
  unfolding and_then_pair parse_rbdft_envelope_ok by auto

lemma pair_length: "length (wr_pair v) = 192"
  by (simp add: wr_pair_def payload_tuples_def wr_payload_def)

lemma parse_pair_ok: "parse_artifact_pair bs = Inr v \<longleftrightarrow> pair_ok v \<and> bs = wr_header artifact_pair_type role_none @ wr_pair v"
  unfolding parse_artifact_pair_def parse_zero_role pair.whole dft_sizes using pair_length [of v] by auto

section \<open>The lifecycle\<close>

definition event_ok :: "nat \<Rightarrow> lifecycle_event \<Rightarrow> bool" where
  "event_ok i e \<longleftrightarrow> validate_lifecycle_event e i (expected_lifecycle_events ! i) = Inr ()"

definition lifecycle_frame :: "lifecycle \<Rightarrow> bool" where
  "lifecycle_frame v \<longleftrightarrow>
     lc_status v = lifecycle_success \<and> lc_count v = 35 \<and> lc_attempted v = 35 \<and> lc_stage v = failure_none \<or>
     lc_status v = lifecycle_failure \<and> lc_count v < 35 \<and> lc_count v \<le> lc_attempted v \<and>
       lc_attempted v \<le> lc_count v + 1 \<and> lc_stage v = expected_failure_stage (lc_count v)"

definition completed :: "lifecycle \<Rightarrow> lifecycle_event list" where
  "completed v = take (unat (lc_count v)) (lc_events v)"

definition lifecycle_ok :: "lifecycle \<Rightarrow> bool" where
  "lifecycle_ok v \<longleftrightarrow> lifecycle_frame v \<and> (\<forall>i < length (completed v). event_ok i (completed v ! i))"

lemma validate_lifecycle_ok: "validate_lifecycle v = Inr () \<longleftrightarrow> lifecycle_ok v"
  by (auto simp: validate_lifecycle_def Let_def and_then_ok check_each_ok_from reject_if_ok lifecycle_ok_def lifecycle_frame_def
      completed_def event_ok_def success_event_count_def lifecycle_success_def lifecycle_failure_def not_le not_less)

lemma lifecycle_count: "lifecycle_ok v \<Longrightarrow> unat (lc_count v) \<le> 35"
  by (auto simp: lifecycle_ok_def lifecycle_frame_def word_less_nat_alt)

interpretation event: wire_codec wr_event rd_event "\<lambda>_. True"
proof
  show "rd_event bs = Inr (v, rest) \<longleftrightarrow> True \<and> bs = wr_event v @ rest" for bs v rest
    by (cases v) (auto simp: rd_event_def wire_reads wr_event_def)
qed

definition lifecycle_array :: "lifecycle \<Rightarrow> bool" where
  "lifecycle_array v \<longleftrightarrow> zero_tail 35 zero_event (unat (lc_count v)) (lc_events v)"

interpretation lifecycle: wire_codec wr_lifecycle rd_lifecycle "\<lambda>v. unat (lc_count v) \<le> 35 \<and> lifecycle_array v"
proof
  fix bs v rest
  show "rd_lifecycle bs = Inr (v, rest) \<longleftrightarrow> (unat (lc_count v) \<le> 35 \<and> lifecycle_array v) \<and> bs = wr_lifecycle v @ rest"
  proof (cases v)
    case v: (fields status count attempted stage es)
    have "rd_lifecycle bs = Inr (v, rest) \<longleftrightarrow> unat count \<le> 35 \<and>
        (\<exists>xs. length xs = unat count \<and> into_array 35 zero_event xs = es \<and>
          bs = [status] @ wr_u32 count @ wr_u32 attempted @ [stage] @ concat (map wr_event xs) @ rest)"
      unfolding rd_lifecycle_def v
      by (simp add: rd_guard_reads wire_reads event.reads_list success_event_count_def not_less word_le_nat_alt list_all_iff) blast
    also have "\<dots> \<longleftrightarrow> unat count \<le> 35 \<and> zero_tail 35 zero_event (unat count) es \<and>
        bs = [status] @ wr_u32 count @ wr_u32 attempted @ [stage] @ concat (map wr_event (take (unat count) es)) @ rest"
    proof (cases "unat count \<le> 35")
      case True
      have "length xs = unat count \<and> into_array 35 zero_event xs = es \<longleftrightarrow>
          xs = take (unat count) es \<and> zero_tail 35 zero_event (unat count) es" for xs
        using into_array_iff [of xs "unat count" 35 zero_event es] True by (auto simp: zero_tail_def)
      then show ?thesis using True by metis
    qed simp
    finally show ?thesis by (simp add: v lifecycle_array_def wr_lifecycle_def)
  qed
qed

lemma event_length [simp]: "length (wr_event e) = 52"
  by (simp add: wr_event_def)

lemma events_length [simp]: "length (concat (map wr_event es)) = 52 * length es"
  by (induction es) simp_all

lemma marshal_lifecycle_ok: "marshal_lifecycle v = Inr bs \<longleftrightarrow> lifecycle_ok v \<and> bs = wr_header lifecycle_type role_none @ wr_lifecycle v"
  by (auto simp: marshal_lifecycle_def and_then_ok validate_lifecycle_ok)

lemma parse_lifecycle_ok:
  "parse_lifecycle bs = Inr v \<longleftrightarrow> lifecycle_ok v \<and> lifecycle_array v \<and> bs = wr_header lifecycle_type role_none @ wr_lifecycle v"
proof -
  have "18 + length (wr_lifecycle v) \<le> 1848" if "unat (lc_count v) \<le> 35"
    using that by (simp add: wr_lifecycle_def)
  then show ?thesis
    unfolding parse_lifecycle_def parse_zero_role finish_and_check lifecycle.reads dft_sizes validate_lifecycle_ok
    using lifecycle_count by auto
qed

section \<open>The build receipt\<close>

definition receipt_ok :: "build_receipt \<Rightarrow> bool" where
  "receipt_ok v \<longleftrightarrow>
     br_permit v \<noteq> 0 \<and> br_prepared v \<noteq> 0 \<and> br_lifecycle v \<noteq> 0 \<and> br_manifest v \<noteq> 0 \<and>
     br_builder_id v = builder_id \<and> br_digest_id v = digest_id \<and> br_allocation_id v = allocation_id \<and>
     br_release_id v = release_id \<and> br_ownership_id v = ownership_id \<and>
     br_generator_precision v = 256 \<and> br_encoder_precision v = 256 \<and> br_default_delta v = 0 \<and>
     br_explicit_delta v = 0 \<and> br_raw_numeric_delta v = 0 \<and> br_observed_delta v = 2 \<and>
     br_max_live v = 1 \<and> br_stc_factors v = 2 \<and> br_cts_factors v = 3 \<and>
     list_all tuple_ok (payload_tuples (br_payload v)) \<and> br_wall v \<noteq> 0 \<and> br_peak_rss v \<noteq> 0 \<and>
     br_state v = private_uninstalled_state"

lemma validate_receipt_ok: "validate_build_receipt v = Inr () \<longleftrightarrow> receipt_ok v"
  by (auto simp: validate_build_receipt_def and_then_ok check_each_list_all reject_if_ok is_zero_digest_def receipt_ok_def
      tuple_ok_def [abs_def])

lemmas frozen_ids = builder_id_def digest_id_def allocation_id_def release_id_def ownership_id_def private_uninstalled_state_def

lemma string_ok_ascii:
  "0 < length s \<Longrightarrow> length s \<le> 256 \<Longrightarrow> list_all (\<lambda>c. (of_char c :: nat) < 128) s \<Longrightarrow> string_ok s"
  unfolding string_ok_def by (auto intro!: utf8_ascii simp: ascii_def list_all_iff word_less_nat_alt unat_of_nat)

lemma frozen_ids_ok:
  "string_ok builder_id" "string_ok digest_id" "string_ok allocation_id" "string_ok release_id" "string_ok ownership_id"
  "string_ok private_uninstalled_state"
  unfolding frozen_ids by (rule string_ok_ascii; simp)+

lemma frozen_ids_length:
  "length builder_id + length digest_id + length allocation_id + length release_id + length ownership_id +
   length private_uninstalled_state \<le> 256"
  by (simp add: frozen_ids)

definition receipt_framed :: "build_receipt \<Rightarrow> bool" where
  "receipt_framed v \<longleftrightarrow>
     br_permit v \<noteq> 0 \<and> br_prepared v \<noteq> 0 \<and> br_lifecycle v \<noteq> 0 \<and> br_manifest v \<noteq> 0 \<and>
     list_all string_ok [br_builder_id v, br_digest_id v, br_allocation_id v, br_release_id v, br_ownership_id v, br_state v] \<and>
     list_all (\<lambda>t. pt_digest t \<noteq> 0) (payload_tuples (br_payload v))"

lemma receipt_ok_framed: "receipt_ok v \<Longrightarrow> receipt_framed v"
  using frozen_ids_ok by (simp add: receipt_ok_def receipt_framed_def payload_tuples_def tuple_ok_def)

lemma receipt_length: "receipt_ok v \<Longrightarrow> 18 + length (wr_build_receipt v) \<le> 1934"
  using frozen_ids_length by (simp add: receipt_ok_def wr_build_receipt_def payload_tuples_def)

lemma payload_cases:
  obtains a i b j c k d l where
    "p = \<lparr>ap_stc_numeric = \<lparr>pt_digest = a, pt_bytes = i\<rparr>, ap_stc_encoded = \<lparr>pt_digest = b, pt_bytes = j\<rparr>,
       ap_cts_numeric = \<lparr>pt_digest = c, pt_bytes = k\<rparr>, ap_cts_encoded = \<lparr>pt_digest = d, pt_bytes = l\<rparr>\<rparr>"
  by (metis actual_payload.surjective payload_tuple.surjective old.unit.exhaust)

lemma receipt_reads:
  "rd_build_receipt bs = Inr (v, rest) \<longleftrightarrow> receipt_framed v \<and> bs = wr_build_receipt v @ rest"
proof (cases v)
  case v: (fields permit prepared b d a r p generator encoder d1 d2 d3 d4 life live stc cts payload wall rss state manifest)
  show ?thesis
    unfolding rd_build_receipt_def
    by (rule payload_cases [of payload])
      (auto simp: v wire_chain wire_reads payload_of_def receipt_framed_def wr_build_receipt_def payload_tuples_def)
qed

interpretation receipt: wire_codec wr_build_receipt rd_build_receipt receipt_framed
  by unfold_locales (rule receipt_reads)

lemma marshal_receipt_ok:
  "marshal_build_receipt v = Inr bs \<longleftrightarrow> receipt_ok v \<and> bs = wr_header build_receipt_type role_none @ wr_build_receipt v"
  by (auto simp: marshal_build_receipt_def and_then_ok validate_receipt_ok)

lemma parse_receipt_ok:
  "parse_build_receipt bs = Inr v \<longleftrightarrow> receipt_ok v \<and> bs = wr_header build_receipt_type role_none @ wr_build_receipt v"
  unfolding parse_build_receipt_def parse_zero_role finish_and_check receipt.reads validate_receipt_ok
    build_receipt_max_record_bytes_def
  using receipt_ok_framed receipt_length by auto

text \<open>
  C24. The binary form of the five build records is canonical: each parser accepts exactly the bytes the
  marshaller of its record produces, and returns the marshalled report with the unused entries of its
  fixed array zero; an aggregate is read back under its own type byte only.
\<close>

theorem dft_records_canonical:
  "(parse_numeric_aggregate bs = Inr aggregate \<longleftrightarrow>
     marshal_transform_aggregate aggregate = Inr bs \<and> ag_type aggregate = numeric_aggregate_type \<and>
     ag_factors aggregate = into_array 3 zero_factor (take (unat (ag_count aggregate)) (ag_factors aggregate))) \<and>
   (parse_encoded_aggregate bs = Inr aggregate \<longleftrightarrow>
     marshal_transform_aggregate aggregate = Inr bs \<and> ag_type aggregate = encoded_aggregate_type \<and>
     ag_factors aggregate = into_array 3 zero_factor (take (unat (ag_count aggregate)) (ag_factors aggregate))) \<and>
   (parse_artifact_pair bs = Inr pair \<longleftrightarrow> marshal_artifact_pair pair = Inr bs) \<and>
   (parse_lifecycle bs = Inr life \<longleftrightarrow>
     marshal_lifecycle life = Inr bs \<and> lc_events life = into_array 35 zero_event (take (unat (lc_count life)) (lc_events life))) \<and>
   (parse_build_receipt bs = Inr receipt \<longleftrightarrow> marshal_build_receipt receipt = Inr bs)"
proof -
  have types: "numeric_aggregate_type \<noteq> encoded_aggregate_type" by (simp add: dft_types)
  have aggregate: "ag_factors a = into_array 3 zero_factor (take (unat (ag_count a)) (ag_factors a)) \<longleftrightarrow> aggregate_array a"
    if "aggregate_ok a" for a
    unfolding aggregate_array_def by (rule zero_tail_iff) (use that in \<open>auto simp: aggregate_ok_def\<close>)
  have life: "lc_events v = into_array 35 zero_event (take (unat (lc_count v)) (lc_events v)) \<longleftrightarrow> lifecycle_array v"
    if "lifecycle_ok v" for v
    unfolding lifecycle_array_def by (rule zero_tail_iff) (rule lifecycle_count [OF that])
  show ?thesis
    unfolding parse_numeric_aggregate_def parse_encoded_aggregate_def parse_pair_ok parse_lifecycle_ok parse_receipt_ok
      marshal_aggregate_ok marshal_pair_ok marshal_lifecycle_ok marshal_receipt_ok
      parse_aggregate_ok [OF disjI1 [OF refl]] parse_aggregate_ok [OF disjI2 [OF refl]]
    using aggregate [of aggregate] life [of life] by auto
qed

section \<open>What an accepted lifecycle says\<close>

lemmas expected_events = expected_lifecycle_events_def expected_transform_events_def expected_factor_events_def expect_def

lemmas wire_bytes = source_secure_eval_def source_vendor_def event_prepare_complete_def event_encoder_created_def
  event_transform_start_def event_factor_generated_def event_numeric_digested_def event_factor_encoded_def
  event_encoded_digested_def event_numeric_dropped_def event_transform_end_def event_generator_returned_def
  event_artifact_sealed_def event_encoder_dropped_def dft_roles payload_none_def payload_numeric_factor_def
  payload_encoded_factor_def payload_artifact_pair_def payload_precision_def

lemma expected_codes:
  "map xe_code expected_lifecycle_events =
     [1, 2, 3, 4, 5, 6, 7, 8, 4, 5, 6, 7, 8, 9, 10, 3, 4, 5, 6, 7, 8, 4, 5, 6, 7, 8, 4, 5, 6, 7, 8, 9, 10, 11, 12]"
  by (simp add: expected_events wire_bytes upt_rec)

lemma expected_roles:
  "map xe_role expected_lifecycle_events = replicate 2 role_none @ replicate 13 role_stc @ replicate 18 role_cts @ replicate 2 role_none"
  by (simp add: expected_events dft_roles upt_rec numeral_eq_Suc)

lemma expected_factors:
  "map xe_factor expected_lifecycle_events =
     [-1, -1, -1, 0, 0, 0, 0, 0, 1, 1, 1, 1, 1, -1, -1, -1, 0, 0, 0, 0, 0, 1, 1, 1, 1, 1, 2, 2, 2, 2, 2, -1, -1, -1, -1]"
  by (simp add: expected_events upt_rec)

lemma expected_length [simp]: "length expected_lifecycle_events = 35"
  using arg_cong [OF expected_codes, of length] by simp

lemma event_ok_fields:
  assumes "event_ok i e"
  shows "ev_code e = xe_code (expected_lifecycle_events ! i)" "ev_role e = xe_role (expected_lifecycle_events ! i)"
    "ev_factor e = xe_factor (expected_lifecycle_events ! i)"
  using assms by (auto simp: event_ok_def validate_lifecycle_event_def split: if_splits)

lemma completed_length: "lifecycle_ok v \<Longrightarrow> length (completed v) \<le> 35"
  using lifecycle_count [of v] by (simp add: completed_def)

lemma completed_fields:
  assumes "lifecycle_ok v"
  shows "map ev_code (completed v) = take (length (completed v)) (map xe_code expected_lifecycle_events)"
    "map ev_role (completed v) = take (length (completed v)) (map xe_role expected_lifecycle_events)"
    "map ev_factor (completed v) = take (length (completed v)) (map xe_factor expected_lifecycle_events)"
  using completed_length [OF assms] assms event_ok_fields
  by (auto intro!: nth_equalityI simp: lifecycle_ok_def)

text \<open>The numeric factors alive after a sequence of events.\<close>

fun live_factors :: "byte list \<Rightarrow> int \<Rightarrow> int" where
  "live_factors [] n = n"
| "live_factors (c # cs) n =
     live_factors cs (if c = event_factor_generated then n + 1 else if c = event_numeric_dropped then n - 1 else n)"

lemma live_expected:
  "list_all (\<lambda>k. live_factors (take k (map xe_code expected_lifecycle_events)) 0 \<in> {0, 1}) [0..<36]"
  unfolding expected_codes by (simp add: upt_rec event_factor_generated_def event_numeric_dropped_def)

text \<open>
  C27. An accepted lifecycle, complete or broken off, never holds more than one numeric factor: after
  every prefix of its events at most one generated factor has not been dropped. Its events follow the
  frozen order, so no slots-to-coefficients event comes after a coefficients-to-slots event, and a
  successful lifecycle ends with every factor dropped and the encoder released.
\<close>

theorem lifecycle_single_factor:
  assumes "validate_lifecycle v = Inr ()"
  shows "(\<forall>k. live_factors (take k (map ev_code (completed v))) 0 \<in> {0, 1}) \<and>
    (\<forall>i j. i < j \<and> j < length (completed v) \<and> ev_role (completed v ! i) = role_cts \<longrightarrow> ev_role (completed v ! j) \<noteq> role_stc) \<and>
    (lc_status v = lifecycle_success \<and> length (lc_events v) = 35 \<longrightarrow>
      live_factors (map ev_code (completed v)) 0 = 0 \<and> ev_code (last (completed v)) = event_encoder_dropped)"
proof (intro conjI allI impI)
  have ok: "lifecycle_ok v" using assms by (simp add: validate_lifecycle_ok)
  let ?n = "length (completed v)"
  have n: "?n \<le> 35" by (rule completed_length [OF ok])
  show "live_factors (take k (map ev_code (completed v))) 0 \<in> {0, 1}" for k
  proof -
    have "take k (map ev_code (completed v)) = take (min k ?n) (map xe_code expected_lifecycle_events)"
      unfolding completed_fields(1) [OF ok] by (simp only: take_take)
    moreover have "min k ?n \<in> set [0..<36]" using n by auto
    ultimately show ?thesis using live_expected unfolding list_all_iff by metis
  qed
  show "ev_role (completed v ! j) \<noteq> role_stc"
    if "i < j \<and> j < length (completed v) \<and> ev_role (completed v ! i) = role_cts" for i j
  proof -
    have role: "ev_role (completed v ! k) = (replicate 2 role_none @ replicate 13 role_stc @ replicate 18 role_cts @ replicate 2 role_none) ! k"
      if "k < ?n" for k
    proof -
      have "ev_role (completed v ! k) = map ev_role (completed v) ! k" using that by simp
      then show ?thesis unfolding completed_fields(2) [OF ok] expected_roles using that by (simp only: nth_take)
    qed
    have i: "15 \<le> i"
      using that role [of i] n by (auto simp: nth_append dft_roles split: if_splits)
    have "j < ?n" using that by simp
    moreover have "15 \<le> j" using that i by simp
    ultimately show ?thesis unfolding role [OF \<open>j < ?n\<close>] using n by (auto simp: nth_append dft_roles)
  qed
  assume fin: "lc_status v = lifecycle_success \<and> length (lc_events v) = 35"
  then have n35: "?n = 35"
    using ok by (auto simp: lifecycle_ok_def lifecycle_frame_def completed_def lifecycle_success_def lifecycle_failure_def)
  have codes: "map ev_code (completed v) = map xe_code expected_lifecycle_events"
    using completed_fields(1) [OF ok] n35 by simp
  show "live_factors (map ev_code (completed v)) 0 = 0"
    unfolding codes expected_codes by (simp add: event_factor_generated_def event_numeric_dropped_def)
  have "ev_code (last (completed v)) = last (map ev_code (completed v))" using n35 by (subst last_map) auto
  then show "ev_code (last (completed v)) = event_encoder_dropped"
    unfolding codes expected_codes by (simp add: event_encoder_dropped_def)
qed

text \<open>A build broken off while its first factor is encoded.\<close>

definition broken_off :: lifecycle where
  "broken_off =
     (let event = (\<lambda>i source code role factor kind d n. \<lparr>ev_sequence = i, ev_source = source, ev_code = code,
            ev_role = role, ev_factor = factor, ev_kind = kind, ev_digest = d, ev_value = n\<rparr>) in
      \<lparr>lc_status = 2, lc_count = 5, lc_attempted = 6, lc_stage = 3,
        lc_events = [event 0 1 1 0 (- 1) 0 0 0, event 1 1 2 0 (- 1) 4 0 256, event 2 2 3 1 (- 1) 0 0 0,
          event 3 2 4 1 0 0 0 0, event 4 2 5 1 0 1 77 1000]\<rparr>)"

lemma broken_off_valid: "validate_lifecycle broken_off = Inr ()"
  by (simp add: broken_off_def Let_def validate_lifecycle_def validate_lifecycle_event_def wire_bytes lifecycle_success_def
      lifecycle_failure_def success_event_count_def expected_failure_stage_def failure_prepare_def failure_encoder_def
      failure_stc_factor_def expected_events upt_rec is_zero_digest_def)

theorem lifecycle_single_factor_witness:
  "live_factors (take 4 (map ev_code (completed broken_off))) 0 \<in> {0, 1}"
  using lifecycle_single_factor [OF broken_off_valid] by blast

text \<open>The stage at which a build fails when the given event does not complete.\<close>

definition stage_of :: "expected_event \<Rightarrow> byte" where
  "stage_of x =
     (if xe_code x = event_prepare_complete then failure_prepare
      else if xe_code x = event_encoder_created then failure_encoder
      else if xe_code x = event_artifact_sealed then failure_seal
      else if xe_code x = event_encoder_dropped then failure_encoder_drop
      else if xe_code x = event_generator_returned
        then (if xe_role x = role_stc then failure_stc_return else failure_cts_return)
      else if xe_role x = role_stc then failure_stc_factor else failure_cts_factor)"

lemmas stage_bytes = failure_none_def failure_prepare_def failure_encoder_def failure_stc_factor_def failure_stc_return_def
  failure_cts_factor_def failure_cts_return_def failure_seal_def failure_encoder_drop_def

lemma stage_table:
  "list_all (\<lambda>k. expected_failure_stage (word_of_nat k) = stage_of (expected_lifecycle_events ! k)) [0..<35]"
  by (simp add: upt_rec expected_events wire_bytes stage_bytes stage_of_def expected_failure_stage_def)

text \<open>
  The failure stage of an accepted lifecycle is no independent claim: it is none for a successful
  build, and for a failed one the stage, read off the kind and role of the event, to which the first
  event that did not complete belongs.
\<close>

theorem failure_stage_names_event:
  assumes "validate_lifecycle v = Inr ()"
  shows "lc_stage v = (if lc_status v = lifecycle_success then failure_none
    else stage_of (expected_lifecycle_events ! unat (lc_count v)))"
proof -
  have "lifecycle_frame v" using assms by (simp add: validate_lifecycle_ok lifecycle_ok_def)
  then consider "lc_status v = lifecycle_success" "lc_stage v = failure_none"
    | "lc_status v \<noteq> lifecycle_success" "lc_count v < 35" "lc_stage v = expected_failure_stage (lc_count v)"
    unfolding lifecycle_frame_def by (auto simp: lifecycle_success_def lifecycle_failure_def)
  then show ?thesis
  proof cases
    case 2
    then have "unat (lc_count v) \<in> set [0..<35]" by (simp add: word_less_nat_alt)
    then have "expected_failure_stage (word_of_nat (unat (lc_count v))) = stage_of (expected_lifecycle_events ! unat (lc_count v))"
      using stage_table unfolding list_all_iff by blast
    then show ?thesis using 2 by simp
  qed simp
qed

theorem failure_stage_names_event_witness: "lc_stage broken_off = stage_of (expected_lifecycle_events ! 5)"
  using failure_stage_names_event [OF broken_off_valid] by (simp add: broken_off_def lifecycle_success_def)

section \<open>Links\<close>

text \<open>The digests and sizes a lifecycle records for the factors of one kind and role, in order.\<close>

definition recorded :: "byte \<Rightarrow> byte \<Rightarrow> lifecycle \<Rightarrow> (digest \<times> 64 word) list" where
  "recorded code role v =
     map (\<lambda>e. (ev_digest e, ev_value e)) (filter (\<lambda>e. ev_code e = code \<and> ev_role e = role) (completed v))"

definition referenced :: "transform_aggregate \<Rightarrow> (digest \<times> 64 word) list" where
  "referenced a = map (\<lambda>f. (fr_digest f, fr_bytes f)) (take (unat (ag_count a)) (ag_factors a))"

text \<open>A successful lifecycle accounts for the factors of four aggregates and for the sealed pair.\<close>

definition accounts_for ::
  "lifecycle \<Rightarrow> transform_aggregate \<Rightarrow> transform_aggregate \<Rightarrow> transform_aggregate \<Rightarrow> transform_aggregate \<Rightarrow> digest \<Rightarrow> bool" where
  "accounts_for v sn se cn ce d \<longleftrightarrow>
     recorded event_numeric_digested role_stc v = referenced sn \<and> recorded event_encoded_digested role_stc v = referenced se \<and>
     recorded event_numeric_digested role_cts v = referenced cn \<and> recorded event_encoded_digested role_cts v = referenced ce \<and>
     map ev_digest (filter (\<lambda>e. ev_code e = event_artifact_sealed) (completed v)) = [d]"

lemma success_completed:
  assumes "lifecycle_ok v" and "lifecycle_array v" and "lc_status v = lifecycle_success"
  shows "length (completed v) = 35"
  using assms by (auto simp: lifecycle_ok_def lifecycle_frame_def lifecycle_array_def zero_tail_def completed_def
      lifecycle_success_def lifecycle_failure_def)

lemma upt_35: "[0..<35] = [0, 1, 2, 3, 4, 5, 6, 7, 8, 9, 10, 11, 12, 13, 14, 15, 16, 17, 18, 19, 20, 21, 22, 23, 24, 25, 26, 27, 28, 29, 30, 31, 32, 33, 34]"
  by (simp add: upt_rec)

lemma expected_role_bytes:
  "map xe_role expected_lifecycle_events =
     [0, 0, 1, 1, 1, 1, 1, 1, 1, 1, 1, 1, 1, 1, 1, 2, 2, 2, 2, 2, 2, 2, 2, 2, 2, 2, 2, 2, 2, 2, 2, 2, 2, 0, 0]"
  by (simp add: expected_events dft_roles upt_rec)

lemma list_nths: "length xs = 35 \<Longrightarrow> xs = map ((!) xs) [0..<35]"
  by (metis map_nth)

lemma stc_factors:
  assumes "aggregate_ok a" "aggregate_array a" "ag_role a = role_stc"
  obtains x y where "ag_factors a = [x, y, zero_factor]" "ag_count a = 2"
proof -
  have c: "ag_count a = 2" using assms by (auto simp: aggregate_ok_def dft_roles)
  then have "length (ag_factors a) = 3" "drop 2 (ag_factors a) = [zero_factor]"
    using assms(2) by (simp_all add: aggregate_array_def zero_tail_def)
  then obtain x y where "ag_factors a = [x, y, zero_factor]"
    by (auto simp: numeral_eq_Suc length_Suc_conv)
  then show thesis using that c by blast
qed

lemma cts_factors:
  assumes "aggregate_ok a" "aggregate_array a" "ag_role a = role_cts"
  obtains x y z where "ag_factors a = [x, y, z]" "ag_count a = 3"
proof -
  have c: "ag_count a = 3" using assms by (auto simp: aggregate_ok_def dft_roles)
  then have "length (ag_factors a) = 3" using assms(2) by (simp add: aggregate_array_def zero_tail_def)
  then obtain x y z where "ag_factors a = [x, y, z]" by (auto simp: numeral_eq_Suc length_Suc_conv)
  then show thesis using that c by blast
qed

text \<open>Where a successful lifecycle records what.\<close>

lemma success_table:
  assumes life: "lifecycle_ok v" "lifecycle_array v" "lc_status v = lifecycle_success"
  shows "map ev_code (lc_events v) = map xe_code expected_lifecycle_events" "map ev_role (lc_events v) = map xe_role expected_lifecycle_events"
    "map ev_factor (lc_events v) = map xe_factor expected_lifecycle_events" "completed v = lc_events v" "length (lc_events v) = 35"
proof -
  have n: "length (completed v) = 35" by (rule success_completed [OF life])
  have len: "length (lc_events v) = 35" using life(2) by (simp add: lifecycle_array_def zero_tail_def)
  then show "length (lc_events v) = 35" .
  have "unat (lc_count v) = 35"
    using life(1,3) by (auto simp: lifecycle_ok_def lifecycle_frame_def lifecycle_success_def lifecycle_failure_def)
  then show same: "completed v = lc_events v" using len by (simp add: completed_def)
  show "map ev_code (lc_events v) = map xe_code expected_lifecycle_events" "map ev_role (lc_events v) = map xe_role expected_lifecycle_events"
    "map ev_factor (lc_events v) = map xe_factor expected_lifecycle_events"
    using completed_fields [OF life(1)] n unfolding same by simp_all
qed

lemma accounts_positions:
  assumes life: "lifecycle_ok v" "lifecycle_array v" "lc_status v = lifecycle_success"
  defines "p \<equiv> \<lambda>i. (ev_digest (lc_events v ! i), ev_value (lc_events v ! i))"
  shows "accounts_for v sn se cn ce d \<longleftrightarrow>
    [p 4, p 9] = referenced sn \<and> [p 6, p 11] = referenced se \<and> [p 17, p 22, p 27] = referenced cn \<and>
    [p 19, p 24, p 29] = referenced ce \<and> ev_digest (lc_events v ! 33) = d"
proof -
  note s = success_table [OF life]
  obtain e where es: "lc_events v = map e [0..<35]" using list_nths [OF s(5)] by blast
  note table = s(1,2) [unfolded es upt_35 list.map expected_codes expected_role_bytes list.inject]
  show ?thesis
    using table
    by (simp add: accounts_for_def recorded_def s(4) es upt_35 p_def event_numeric_digested_def event_encoded_digested_def
        event_artifact_sealed_def dft_roles)
qed

lemma lifecycle_links_iff:
  assumes life: "lifecycle_ok v" "lifecycle_array v" "lc_status v = lifecycle_success"
    and stc: "aggregate_ok sn" "aggregate_array sn" "aggregate_ok se" "aggregate_array se" "ag_role sn = role_stc" "ag_role se = role_stc"
    and cts: "aggregate_ok cn" "aggregate_array cn" "aggregate_ok ce" "aggregate_array ce" "ag_role cn = role_cts" "ag_role ce = role_cts"
  shows "validate_lifecycle_links v sn se cn ce d = Inr () \<longleftrightarrow> accounts_for v sn se cn ce d"
proof -
  let ?es = "completed v"
  have n: "length ?es = 35" by (rule success_completed [OF life])
  have fields: "map ev_code ?es = map xe_code expected_lifecycle_events" "map ev_role ?es = map xe_role expected_lifecycle_events"
    "map ev_factor ?es = map xe_factor expected_lifecycle_events"
    using completed_fields [OF life(1)] n by simp_all
  obtain e where es: "?es = map e [0..<35]" using list_nths [OF n] by blast
  note table = fields [unfolded es upt_35 list.map expected_codes expected_role_bytes expected_factors list.inject]
  have small: "\<not> (0 :: 32 word) <s 0" "\<not> (1 :: 32 word) <s 0" "\<not> (2 :: 32 word) <s 0" "\<not> (2 :: 32 word) \<le> 1" "\<not> (3 :: 32 word) \<le> 1"
    by (simp_all add: word_sless_alt word_le_nat_alt)
  obtain n1 n2 where sn: "ag_factors sn = [n1, n2, zero_factor]" "ag_count sn = 2" using stc_factors [OF stc(1,2,5)] .
  obtain m1 m2 where se: "ag_factors se = [m1, m2, zero_factor]" "ag_count se = 2" using stc_factors [OF stc(3,4,6)] .
  obtain k1 k2 k3 where cn: "ag_factors cn = [k1, k2, k3]" "ag_count cn = 3" using cts_factors [OF cts(1,2,5)] .
  obtain l1 l2 l3 where ce: "ag_factors ce = [l1, l2, l3]" "ag_count ce = 3" using cts_factors [OF cts(3,4,6)] .
  have sealed: "ev_value (e 33) = word_of_nat artifact_pair_record_bytes"
  proof -
    have "event_ok 33 (e 33)" using life(1) n unfolding lifecycle_ok_def es by auto
    moreover have "xe_kind (expected_lifecycle_events ! 33) = payload_artifact_pair"
      by (simp add: expected_events upt_rec)
    ultimately show ?thesis
      by (auto simp: event_ok_def validate_lifecycle_event_def reject_if_ok payload_none_def payload_precision_def
          payload_numeric_factor_def payload_encoded_factor_def payload_artifact_pair_def split: if_splits)
  qed
  show ?thesis
    using table
    by (simp add: validate_lifecycle_links_def completed_def [symmetric] accounts_for_def recorded_def referenced_def es upt_35
      small sn se cn ce sealed and_then_ok reject_if_ok validate_event_link_def event_aggregate_def event_numeric_digested_def event_encoded_digested_def event_artifact_sealed_def dft_roles) auto
qed

lemma record_links_ok:
  "validate_build_record_links rs permit prepared = Inr () \<longleftrightarrow>
     permit \<noteq> 0 \<and> prepared \<noteq> 0 \<and>
     (\<exists>sn se cn ce pair life receipt.
        parse_numeric_aggregate (bs_stc_numeric rs) = Inr sn \<and> parse_encoded_aggregate (bs_stc_encoded rs) = Inr se \<and>
        parse_numeric_aggregate (bs_cts_numeric rs) = Inr cn \<and> parse_encoded_aggregate (bs_cts_encoded rs) = Inr ce \<and>
        ag_role sn = role_stc \<and> ag_role se = role_stc \<and> ag_role cn = role_cts \<and> ag_role ce = role_cts \<and>
        parse_artifact_pair (bs_pair rs) = Inr pair \<and> parse_lifecycle (bs_lifecycle rs) = Inr life \<and>
        lc_status life = lifecycle_success \<and> parse_build_receipt (bs_receipt rs) = Inr receipt \<and>
        pr_permit pair = permit \<and> br_permit receipt = permit \<and> br_prepared receipt = prepared \<and>
        pr_payload pair = br_payload receipt \<and>
        br_payload receipt =
          \<lparr>ap_stc_numeric = \<lparr>pt_digest = sum256 (bs_stc_numeric rs), pt_bytes = ag_bytes sn\<rparr>,
           ap_stc_encoded = \<lparr>pt_digest = sum256 (bs_stc_encoded rs), pt_bytes = ag_bytes se\<rparr>,
           ap_cts_numeric = \<lparr>pt_digest = sum256 (bs_cts_numeric rs), pt_bytes = ag_bytes cn\<rparr>,
           ap_cts_encoded = \<lparr>pt_digest = sum256 (bs_cts_encoded rs), pt_bytes = ag_bytes ce\<rparr>\<rparr> \<and>
        br_lifecycle receipt = sum256 (bs_lifecycle rs) \<and> br_manifest receipt = sum256 (bs_pair rs) \<and>
        accounts_for life sn se cn ce (sum256 (bs_pair rs)))"
proof -
  have counts: "br_stc_factors r = ag_count a \<and> br_stc_factors r = ag_count b \<and> br_cts_factors r = ag_count c \<and> br_cts_factors r = ag_count d"
    if "receipt_ok r" "aggregate_ok a" "aggregate_ok b" "aggregate_ok c" "aggregate_ok d"
      "ag_role a = role_stc" "ag_role b = role_stc" "ag_role c = role_cts" "ag_role d = role_cts" for r a b c d
    using that by (auto simp: receipt_ok_def aggregate_ok_def dft_roles)
  have if_err_ok: "(if b then err e else m) = Inr w \<longleftrightarrow> \<not> b \<and> m = Inr w" for b e m and w :: unit
    by simp
  note parsed_iff = parse_numeric_aggregate_def parse_encoded_aggregate_def parse_aggregate_ok [OF disjI1 [OF refl]]
    parse_aggregate_ok [OF disjI2 [OF refl]] parse_lifecycle_ok parse_receipt_ok
  have step: "validate_build_record_links rs permit prepared = Inr () \<longleftrightarrow>
     permit \<noteq> 0 \<and> prepared \<noteq> 0 \<and>
     (\<exists>sn se cn ce pair life receipt.
        parse_numeric_aggregate (bs_stc_numeric rs) = Inr sn \<and> parse_encoded_aggregate (bs_stc_encoded rs) = Inr se \<and>
        parse_numeric_aggregate (bs_cts_numeric rs) = Inr cn \<and> parse_encoded_aggregate (bs_cts_encoded rs) = Inr ce \<and>
        ag_role sn = role_stc \<and> ag_role se = role_stc \<and> ag_role cn = role_cts \<and> ag_role ce = role_cts \<and>
        parse_artifact_pair (bs_pair rs) = Inr pair \<and> parse_lifecycle (bs_lifecycle rs) = Inr life \<and>
        lc_status life = lifecycle_success \<and> parse_build_receipt (bs_receipt rs) = Inr receipt \<and>
        pr_permit pair = permit \<and> br_permit receipt = permit \<and> br_prepared receipt = prepared \<and>
        pr_payload pair = br_payload receipt \<and>
        br_payload receipt =
          \<lparr>ap_stc_numeric = aggregate_tuple (bs_stc_numeric rs) sn, ap_stc_encoded = aggregate_tuple (bs_stc_encoded rs) se,
           ap_cts_numeric = aggregate_tuple (bs_cts_numeric rs) cn, ap_cts_encoded = aggregate_tuple (bs_cts_encoded rs) ce\<rparr> \<and>
        br_lifecycle receipt = sum256 (bs_lifecycle rs) \<and> br_manifest receipt = sum256 (bs_pair rs) \<and>
        (br_stc_factors receipt = ag_count sn \<and> br_stc_factors receipt = ag_count se \<and>
         br_cts_factors receipt = ag_count cn \<and> br_cts_factors receipt = ag_count ce) \<and>
        validate_lifecycle_links life sn se cn ce (sum256 (bs_pair rs)) = Inr ())"
    unfolding validate_build_record_links_def Let_def is_zero_digest_def if_err_ok and_then_ok de_Morgan_disj not_not
      aggregate_tuple_def
    by (intro iffI; elim conjE exE; intro conjI exI; (assumption | simp))
  show ?thesis
    unfolding step aggregate_tuple_def
  proof (intro conj_cong refl ex_cong1)
    fix sn se cn ce pair life receipt
    assume parsed: "parse_numeric_aggregate (bs_stc_numeric rs) = Inr sn" "parse_encoded_aggregate (bs_stc_encoded rs) = Inr se"
      "parse_numeric_aggregate (bs_cts_numeric rs) = Inr cn" "parse_encoded_aggregate (bs_cts_encoded rs) = Inr ce"
      "parse_lifecycle (bs_lifecycle rs) = Inr life" "parse_build_receipt (bs_receipt rs) = Inr receipt"
      and roles: "ag_role sn = role_stc" "ag_role se = role_stc" "ag_role cn = role_cts" "ag_role ce = role_cts"
      and success: "lc_status life = lifecycle_success"
    have ok: "aggregate_ok sn" "aggregate_array sn" "aggregate_ok se" "aggregate_array se" "aggregate_ok cn" "aggregate_array cn"
      "aggregate_ok ce" "aggregate_array ce" "lifecycle_ok life" "lifecycle_array life" "receipt_ok receipt"
      using parsed by (simp_all add: parsed_iff)
    show "(br_stc_factors receipt = ag_count sn \<and> br_stc_factors receipt = ag_count se \<and>
         br_cts_factors receipt = ag_count cn \<and> br_cts_factors receipt = ag_count ce) \<and>
        validate_lifecycle_links life sn se cn ce (sum256 (bs_pair rs)) = Inr () \<longleftrightarrow>
      accounts_for life sn se cn ce (sum256 (bs_pair rs))"
      unfolding lifecycle_links_iff [OF ok(9,10) success ok(1-4) roles(1,2) ok(5-8) roles(3,4)]
      using counts [OF ok(11,1,3,5,7) roles] by blast
  qed
qed

text \<open>
  C16. The seven records of a build are accepted together if and only if each parses, the aggregates have
  their roles, the lifecycle is a successful one, the pair and the receipt name the expected permit and
  preparation and the SHA-256 and ledger of each aggregate, the receipt names the lifecycle and the pair,
  the digests and sizes the lifecycle recorded factor by factor are those of the aggregates, and the
  sealing event names the pair.
\<close>

theorem build_links_iff:
  "validate_build_record_links rs permit prepared = Inr () \<longleftrightarrow>
     permit \<noteq> 0 \<and> prepared \<noteq> 0 \<and>
     (\<exists>sn se cn ce pair life receipt.
        parse_numeric_aggregate (bs_stc_numeric rs) = Inr sn \<and> parse_encoded_aggregate (bs_stc_encoded rs) = Inr se \<and>
        parse_numeric_aggregate (bs_cts_numeric rs) = Inr cn \<and> parse_encoded_aggregate (bs_cts_encoded rs) = Inr ce \<and>
        ag_role sn = role_stc \<and> ag_role se = role_stc \<and> ag_role cn = role_cts \<and> ag_role ce = role_cts \<and>
        parse_artifact_pair (bs_pair rs) = Inr pair \<and> parse_lifecycle (bs_lifecycle rs) = Inr life \<and>
        lc_status life = lifecycle_success \<and> parse_build_receipt (bs_receipt rs) = Inr receipt \<and>
        pr_permit pair = permit \<and> br_permit receipt = permit \<and> br_prepared receipt = prepared \<and>
        pr_payload pair = br_payload receipt \<and>
        br_payload receipt =
          \<lparr>ap_stc_numeric = \<lparr>pt_digest = sum256 (bs_stc_numeric rs), pt_bytes = ag_bytes sn\<rparr>,
           ap_stc_encoded = \<lparr>pt_digest = sum256 (bs_stc_encoded rs), pt_bytes = ag_bytes se\<rparr>,
           ap_cts_numeric = \<lparr>pt_digest = sum256 (bs_cts_numeric rs), pt_bytes = ag_bytes cn\<rparr>,
           ap_cts_encoded = \<lparr>pt_digest = sum256 (bs_cts_encoded rs), pt_bytes = ag_bytes ce\<rparr>\<rparr> \<and>
        br_lifecycle receipt = sum256 (bs_lifecycle rs) \<and> br_manifest receipt = sum256 (bs_pair rs) \<and>
        accounts_for life sn se cn ce (sum256 (bs_pair rs)))"
  by (rule record_links_ok)

end
