(* ===== verification/ObservedProps.thy ===== *)
theory ObservedProps
  imports ObservedStream DftWireProps
begin

text \<open>
  Every trace the observed construction returns validates, whatever the consumer does; a failed
  construction hands out no transformation.
\<close>

section \<open>The traces of a run\<close>

definition observed_at :: "byte \<Rightarrow> 32 word \<Rightarrow> nat \<Rightarrow> byte \<Rightarrow> 32 word \<Rightarrow> byte \<Rightarrow> digest \<Rightarrow> 64 word \<Rightarrow> observed_event" where
  "observed_at role count n code index kind d b = \<lparr>oe_sequence = word_of_nat n, oe_code = code, oe_role = role,
     oe_factor = index, oe_count = count, oe_kind = kind, oe_digest = d, oe_bytes = b\<rparr>"

definition cleanup_at :: "byte \<Rightarrow> 32 word \<Rightarrow> nat \<Rightarrow> byte \<Rightarrow> 32 word \<Rightarrow> cleanup_event" where
  "cleanup_at role count n code index = \<lparr>cu_sequence = word_of_nat n, cu_code = code, cu_role = role,
     cu_factor = index, cu_count = count\<rparr>"

definition generated_event :: "byte \<Rightarrow> 32 word \<Rightarrow> nat \<Rightarrow> observed_event" where
  "generated_event role count i =
     observed_at role count (1 + 5 * i) observed_factor_generated (word_of_nat i) observed_payload_none 0 0"

definition factor_events :: "byte \<Rightarrow> 32 word \<Rightarrow> nat \<Rightarrow> factor_evidence \<Rightarrow> observed_event list" where
  "factor_events role count i f =
     [generated_event role count i,
      observed_at role count (2 + 5 * i) observed_numeric_digested (word_of_nat i) observed_payload_numeric
        (fe_numeric_digest f) (fe_numeric_bytes f),
      observed_at role count (3 + 5 * i) observed_factor_encoded (word_of_nat i) observed_payload_none 0 0,
      observed_at role count (4 + 5 * i) observed_encoded_digested (word_of_nat i) observed_payload_encoded
        (fe_encoded_digest f) (fe_encoded_bytes f),
      observed_at role count (5 + 5 * i) observed_numeric_dropped (word_of_nat i) observed_payload_none 0 0]"

fun run_events :: "byte \<Rightarrow> 32 word \<Rightarrow> factor_evidence list \<Rightarrow> observed_event list" where
  "run_events role count fs =
     observed_at role count 0 observed_transform_start (- 1) observed_payload_none 0 0 #
     concat (map (\<lambda>(i, f). factor_events role count i f) (enumerate 0 fs))"

declare run_events.simps [simp del]

lemma run_events_nil [simp]:
  "run_events role count [] = [observed_at role count 0 observed_transform_start (- 1) observed_payload_none 0 0]"
  by (simp add: run_events.simps)

lemma run_events_snoc [simp]:
  "run_events role count (fs @ [f]) = run_events role count fs @ factor_events role count (length fs) f"
  by (simp add: run_events.simps enumerate_append_eq)

lemma run_events_length [simp]: "length (run_events role count fs) = 1 + 5 * length fs"
  by (induction fs rule: rev_induct) (simp_all add: factor_events_def)

text \<open>The trace after the accepted factors fs.\<close>

definition run_trace :: "byte \<Rightarrow> 32 word \<Rightarrow> factor_evidence list \<Rightarrow> stream_trace" where
  "run_trace role count fs = \<lparr>tr_status = stream_failure, tr_role = role, tr_count = count, tr_stage = stream_failure_none,
     tr_completed = 0, tr_attempted = (case length fs of 0 \<Rightarrow> 0 | Suc k \<Rightarrow> word_of_nat (5 * k + 3)),
     tr_events = run_events role count fs, tr_cleanup = [], tr_factors = fs, tr_digest = 0\<rparr>"

text \<open>The trace after a further factor was not accepted.\<close>

definition broken_trace :: "byte \<Rightarrow> 32 word \<Rightarrow> factor_evidence list \<Rightarrow> byte \<Rightarrow> bool \<Rightarrow> stream_trace" where
  "broken_trace role count fs stage discard =
     (run_trace role count fs)\<lparr>tr_stage := stage, tr_attempted := word_of_nat (5 * length fs + 3),
       tr_events := run_events role count fs @ [generated_event role count (length fs)],
       tr_cleanup := (if discard then [cleanup_at role count 0 cleanup_product_discarded (word_of_nat (length fs))] else []) @
         [cleanup_at role count (if discard then 1 else 0) cleanup_factor_cleared (word_of_nat (length fs))]\<rparr>"

definition evidence_ok :: "byte \<Rightarrow> 32 word \<Rightarrow> nat \<Rightarrow> factor_evidence \<Rightarrow> bool" where
  "evidence_ok role count i f \<longleftrightarrow>
     fe_role f = role \<and> fe_index f = word_of_nat i \<and> fe_count f = count \<and> fe_numeric_digest f \<noteq> 0 \<and>
     fe_numeric_bytes f \<noteq> 0 \<and> fe_encoded_digest f \<noteq> 0 \<and> fe_encoded_bytes f \<noteq> 0 \<and> fe_ownership f = owned_by_matrix"

definition run_evidence :: "byte \<Rightarrow> 32 word \<Rightarrow> factor_evidence list \<Rightarrow> bool" where
  "run_evidence role count fs \<longleftrightarrow> (\<forall>i < length fs. evidence_ok role count i (fs ! i))"

lemma run_evidence_snoc:
  "run_evidence role count (fs @ [f]) \<longleftrightarrow> run_evidence role count fs \<and> evidence_ok role count (length fs) f"
  by (auto simp: run_evidence_def nth_append less_Suc_eq)

lemma take_product_ok:
  "take_product (invocation_of r count i) p = Inr (m, f) \<Longrightarrow> evidence_ok (rq_role r) count i f"
  by (auto simp: take_product_def invocation_of_def evidence_ok_def split: product.splits if_splits option.splits)

text \<open>One factor: the callback and the release of the numeric reference.\<close>

lemma one_factor:
  assumes s: "ss_trace s = run_trace (rq_role r) count fs" "ss_factor_index s = length fs" "length (ss_matrices s) = length fs"
  obtains (failed) e stage discard s' where "emit_factor r count replies s = (Some e, s')"
      "stage = stream_failure_consumer \<or> stage = stream_failure_product"
      "ss_trace (factor_dropped (length fs) s') = broken_trace (rq_role r) count fs stage discard"
      "length (ss_matrices (factor_dropped (length fs) s')) = length fs"
      "ss_factor_index (factor_dropped (length fs) s') = Suc (length fs)"
    | (accepted) f s' where "emit_factor r count replies s = (None, s')" "evidence_ok (rq_role r) count (length fs) f"
      "ss_trace (factor_dropped (length fs) s') = run_trace (rq_role r) count (fs @ [f])"
      "length (ss_matrices (factor_dropped (length fs) s')) = Suc (length fs)"
      "ss_factor_index (factor_dropped (length fs) s') = Suc (length fs)"
proof -
  let ?i = "length fs"
  define s1 where "s1 = on_trace (\<lambda>t. t\<lparr>tr_attempted := word_of_nat (length (tr_events t) + 1)\<rparr>)
    (on_trace (append_event observed_factor_generated (word_of_nat ?i) observed_payload_none 0 0)
      (s\<lparr>ss_factor_index := ?i + 1, ss_pending_index := word_of_nat ?i, ss_pending_ok := False\<rparr>))"
  have s1: "ss_factor_index s1 = Suc ?i" "ss_pending_index s1 = word_of_nat ?i" "\<not> ss_pending_ok s1"
      "ss_matrices s1 = ss_matrices s"
      "ss_trace s1 = (run_trace (rq_role r) count fs)\<lparr>tr_attempted := word_of_nat (5 * ?i + 3),
         tr_events := run_events (rq_role r) count fs @ [generated_event (rq_role r) count ?i]\<rparr>"
    using s by (simp_all add: s1_def on_trace_def append_event_def run_trace_def generated_event_def observed_at_def)
  have emit: "emit_factor r count replies s =
      (case replies ?i of
        Panicked \<Rightarrow> (Some ''observed factor consumer panicked'', fail_factor stream_failure_consumer False ?i s1)
      | Replied p (Some e) \<Rightarrow> (Some e, fail_factor stream_failure_consumer (p \<noteq> NilProduct) ?i s1)
      | Replied p None \<Rightarrow>
          (case take_product (invocation_of r count ?i) p of
             Inl e \<Rightarrow> (Some (message_of e), fail_factor stream_failure_product (p \<noteq> NilProduct) ?i s1)
           | Inr (m, f) \<Rightarrow>
               (case rq_rejects r ?i m of
                  Some e \<Rightarrow> (Some e, fail_factor stream_failure_product True ?i s1)
                | None \<Rightarrow> (None, accept_factor ?i m f s1))))"
    unfolding emit_factor_def Let_def s(2) s1_def [symmetric] ..
  have fails: thesis if "emit_factor r count replies s = (Some e, fail_factor stage discard ?i s1)"
      "stage = stream_failure_consumer \<or> stage = stream_failure_product" for e stage discard
  proof (rule failed [OF that])
    show "ss_trace (factor_dropped ?i (fail_factor stage discard ?i s1)) = broken_trace (rq_role r) count fs stage discard"
      using s1 by (simp add: factor_dropped_def fail_factor_def on_trace_def append_cleanup_def Let_def broken_trace_def
          run_trace_def cleanup_at_def)
    show "length (ss_matrices (factor_dropped ?i (fail_factor stage discard ?i s1))) = ?i"
      "ss_factor_index (factor_dropped ?i (fail_factor stage discard ?i s1)) = Suc ?i"
      using s1 s(3) by (simp_all add: factor_dropped_def fail_factor_def on_trace_def Let_def)
  qed
  show thesis
  proof (cases "replies ?i")
    case Panicked
    then show thesis using fails emit by simp
  next
    case (Replied p err)
    show thesis
    proof (cases err)
      case (Some e)
      then show thesis using fails emit Replied by simp
    next
      case None
      show thesis
      proof (cases "take_product (invocation_of r count ?i) p")
        case (Inl e)
        then show thesis using fails emit Replied None by simp
      next
        case (Inr mf)
        obtain m f where mf: "mf = (m, f)" by (cases mf)
        show thesis
        proof (cases "rq_rejects r ?i m")
          case (Some e)
          then show thesis using fails emit Replied None Inr mf by simp
        next
          case accepts: None
          show thesis
          proof (rule accepted)
            show "emit_factor r count replies s = (None, accept_factor ?i m f s1)" using emit Replied None Inr mf accepts by simp
            show "evidence_ok (rq_role r) count ?i f" using take_product_ok Inr mf by simp
            show "ss_trace (factor_dropped ?i (accept_factor ?i m f s1)) = run_trace (rq_role r) count (fs @ [f])"
              using s1 by (simp add: factor_dropped_def accept_factor_def on_trace_def append_event_def Let_def run_trace_def
                  factor_events_def generated_event_def observed_at_def add.commute)
            show "length (ss_matrices (factor_dropped ?i (accept_factor ?i m f s1))) = Suc ?i"
              "ss_factor_index (factor_dropped ?i (accept_factor ?i m f s1)) = Suc ?i"
              using s1 s(3) by (simp_all add: factor_dropped_def accept_factor_def on_trace_def Let_def)
          qed
        qed
      qed
    qed
  qed
qed

lemma generate_cases:
  assumes "ss_trace s = run_trace (rq_role r) count fs" "ss_factor_index s = length fs" "length (ss_matrices s) = length fs"
    and "run_evidence (rq_role r) count fs" and "generate_factors r count replies (length fs) n s = (e, s')"
  shows "(\<exists>gs. e = None \<and> length gs = length fs + n \<and> run_evidence (rq_role r) count gs \<and>
       ss_trace s' = run_trace (rq_role r) count gs \<and> length (ss_matrices s') = length gs \<and> ss_factor_index s' = length gs) \<or>
    (\<exists>gs stage discard. e \<noteq> None \<and> length gs < length fs + n \<and> run_evidence (rq_role r) count gs \<and>
       (stage = stream_failure_consumer \<or> stage = stream_failure_product) \<and>
       ss_trace s' = broken_trace (rq_role r) count gs stage discard \<and> length (ss_matrices s') = length gs \<and>
       ss_factor_index s' = Suc (length gs))"
  using assms
proof (induction n arbitrary: fs s)
  case 0
  then show ?case by auto
next
  case (Suc n)
  from Suc.prems(1-3) show ?case
  proof (cases rule: one_factor [where replies = replies])
    case (failed m stage discard t)
    then have "e = Some m \<and> s' = factor_dropped (length fs) t" using Suc.prems(5) by (simp add: Let_def)
    then show ?thesis using failed Suc.prems(4) by (intro disjI2 exI [of _ fs] exI [of _ stage] exI [of _ discard]) auto
  next
    case (accepted f t)
    have "generate_factors r count replies (length (fs @ [f])) n (factor_dropped (length fs) t) = (e, s')"
      using Suc.prems(5) accepted(1) by (simp add: Let_def)
    moreover have "run_evidence (rq_role r) count (fs @ [f])" using Suc.prems(4) accepted(2) by (simp add: run_evidence_snoc)
    ultimately show ?thesis
      using Suc.IH [of "factor_dropped (length fs) t" "fs @ [f]"] accepted by simp
  qed
qed

section \<open>Validity\<close>

lemma digest_trace_reseal [simp]: "digest_trace (t\<lparr>tr_digest := d\<rparr>) = digest_trace t"
  by (simp add: digest_trace_def)

lemma length_le_3: "length xs \<le> 3 \<longleftrightarrow> xs = [] \<or> (\<exists>a. xs = [a]) \<or> (\<exists>a b. xs = [a, b]) \<or> (\<exists>a b c. xs = [a, b, c])"
  by (auto simp: numeral_eq_Suc le_Suc_eq length_Suc_conv)

text \<open>What validation checks apart from the digest.\<close>

definition content_ok :: "stream_trace \<Rightarrow> bool" where
  "content_ok t \<longleftrightarrow> (let (count, ok) = role_factor_count (tr_role t) in
     if tr_status t = stream_failure \<and> tr_stage t = stream_failure_validation
     then (if ok then tr_count t = count else tr_count t = 0) \<and> tr_completed t = 0 \<and> tr_events t = [] \<and>
       tr_cleanup t = [] \<and> tr_factors t = [] \<and> tr_attempted t = 0
     else ok \<and> tr_count t = count \<and> tr_completed t = word_of_nat (length (tr_events t)) \<and>
       validate_event_prefix (tr_role t) (tr_count t) (tr_events t) = Inr () \<and>
       check_each (validate_cleanup t) 0 (tr_cleanup t) = Inr () \<and>
       (if tr_status t = stream_success
        then tr_stage t = stream_failure_none \<and> length (tr_events t) = unat (5 * tr_count t + 3) \<and>
          tr_attempted t = tr_completed t \<and> tr_cleanup t = [] \<and> length (tr_factors t) = unat (tr_count t) \<and>
          (\<forall>i < length (tr_factors t). evidence_identity t owned_by_matrix i (tr_factors t ! i) \<and>
            evidence_recorded t i (tr_factors t ! i))
        else tr_status t = stream_failure \<and> tr_stage t \<noteq> stream_failure_none \<and>
          (\<forall>i < length (tr_factors t). evidence_identity t ownership_discarded i (tr_factors t ! i) \<and>
            4 + 5 * i < length (tr_events t) \<and> evidence_recorded t i (tr_factors t ! i)) \<and>
          validate_failure_ledger t = Inr ()))"

lemma validate_trace_ok: "validate_trace t = Inr () \<longleftrightarrow> tr_digest t \<noteq> 0 \<and> tr_digest t = digest_trace t \<and> content_ok t"
proof -
  obtain count ok where c: "role_factor_count (tr_role t) = (count, ok)" by (cases "role_factor_count (tr_role t)")
  show ?thesis
    unfolding validate_trace_def content_ok_def c prod.case Let_def
    by (auto simp: and_then_ok check_each_ok reject_if_ok not_le)
qed

lemmas observed_bytes = observed_slots_to_coeffs_def observed_coeffs_to_slots_def stream_success_def stream_failure_def
  stream_failure_none_def stream_failure_validation_def stream_failure_consumer_def stream_failure_product_def
  stream_failure_generator_def stream_failure_seal_def observed_transform_start_def observed_factor_generated_def
  observed_numeric_digested_def observed_factor_encoded_def observed_encoded_digested_def observed_numeric_dropped_def
  observed_transform_end_def observed_generator_returned_def observed_payload_none_def observed_payload_numeric_def
  observed_payload_encoded_def cleanup_factor_cleared_def cleanup_product_discarded_def cleanup_matrix_discarded_def
  cleanup_generator_cleared_def owned_by_matrix_def ownership_discarded_def

definition count_of :: "byte \<Rightarrow> 32 word" where
  "count_of role = fst (role_factor_count role)"

definition known_role :: "byte \<Rightarrow> bool" where
  "known_role role \<longleftrightarrow> role = observed_slots_to_coeffs \<or> role = observed_coeffs_to_slots"

lemma run_cases:
  assumes "known_role role" "length fs \<le> unat (count_of role)"
  obtains "role = 1" "count_of role = 2" "fs = []" | a where "role = 1" "count_of role = 2" "fs = [a]"
    | a b where "role = 1" "count_of role = 2" "fs = [a, b]"
    | "role = 2" "count_of role = 3" "fs = []" | a where "role = 2" "count_of role = 3" "fs = [a]"
    | a b where "role = 2" "count_of role = 3" "fs = [a, b]"
    | a b c where "role = 2" "count_of role = 3" "fs = [a, b, c]"
proof -
  have "length fs \<le> 3" using assms by (auto simp: known_role_def count_of_def role_factor_count_def observed_bytes)
  then show thesis using assms that unfolding length_le_3
    by (auto simp: known_role_def count_of_def role_factor_count_def observed_bytes)
qed

lemma signed_small:
  "\<not> (0 :: 32 word) <s 0" "\<not> (1 :: 32 word) <s 0" "\<not> (2 :: 32 word) <s 0"
  "\<not> (2 :: 32 word) \<le>s 0" "\<not> (2 :: 32 word) \<le>s 1" "\<not> (3 :: 32 word) \<le>s 0" "\<not> (3 :: 32 word) \<le>s 1" "\<not> (3 :: 32 word) \<le>s 2"
  by (simp_all add: word_sless_alt word_sle_eq)

lemmas run_defs = run_events.simps factor_events_def generated_event_def observed_at_def cleanup_at_def

lemmas validity_defs = content_ok_def role_factor_count_def validate_event_prefix_def validate_observed_event_def
  observed_prefix_def factor_prefix_def validate_cleanup_def evidence_identity_def evidence_recorded_def

lemmas broken_defs = broken_trace_def run_trace_def run_defs append_cleanup_def seal_trace_def validity_defs observed_bytes
  validate_failure_ledger_def consumer_cleanup_def is_cleanup_def signed_small upt_rec

lemma broken_valid:
  assumes role: "known_role role" and fs: "length fs < unat (count_of role)" "run_evidence role (count_of role) fs"
    and stage: "stage = stream_failure_consumer \<or> stage = stream_failure_product"
  shows "content_ok (seal_trace (append_cleanup cleanup_generator_cleared (- 1)
    (discard_matrices 0 (length fs) (broken_trace role (count_of role) fs stage discard))))"
proof -
  have le: "length fs \<le> unat (count_of role)" using fs(1) by simp
  show ?thesis
  proof (cases rule: run_cases [OF role le])
    case 1
    then show ?thesis using stage by (auto simp: broken_defs)
  next
    case (2 a)
    then show ?thesis using stage fs by (auto simp: broken_defs run_evidence_def evidence_ok_def)
  next
    case 4
    then show ?thesis using stage by (auto simp: broken_defs)
  next
    case (5 a)
    then show ?thesis using stage fs by (auto simp: broken_defs run_evidence_def evidence_ok_def)
  next
    case (6 a b)
    then show ?thesis using stage fs
      by (auto simp: broken_defs run_evidence_def evidence_ok_def less_Suc_eq)
  qed (use fs in simp_all)
qed

definition returned_trace :: "byte \<Rightarrow> factor_evidence list \<Rightarrow> stream_trace" where
  "returned_trace role fs = append_event observed_generator_returned (- 1) observed_payload_none 0 0
     (append_event observed_transform_end (- 1) observed_payload_none 0 0 (run_trace role (count_of role) fs))"

definition success_trace :: "byte \<Rightarrow> factor_evidence list \<Rightarrow> stream_trace" where
  "success_trace role fs = seal_trace ((returned_trace role fs)\<lparr>tr_status := stream_success, tr_stage := stream_failure_none,
     tr_attempted := word_of_nat (length (tr_events (returned_trace role fs)))\<rparr>)"

lemmas success_defs = success_trace_def returned_trace_def append_event_def run_trace_def run_defs seal_trace_def validity_defs
  observed_bytes upt_rec

lemma success_valid:
  assumes role: "known_role role" and fs: "length fs = unat (count_of role)" "run_evidence role (count_of role) fs"
  shows "content_ok (success_trace role fs)"
proof -
  have le: "length fs \<le> unat (count_of role)" using fs(1) by simp
  show ?thesis
  proof (cases rule: run_cases [OF role le])
    case (3 a b)
    then show ?thesis using fs
      by (auto simp: success_defs run_evidence_def evidence_ok_def less_Suc_eq)
  next
    case (7 a b c)
    then show ?thesis using fs
      by (auto simp: success_defs run_evidence_def evidence_ok_def numeral_3_eq_3 less_Suc_eq)
  qed (use fs in simp_all)
qed

lemma seal_failure_valid:
  assumes role: "known_role role" and fs: "length fs = unat (count_of role)" "run_evidence role (count_of role) fs"
  shows "content_ok (seal_failure (length fs) (success_trace role fs))"
proof -
  have le: "length fs \<le> unat (count_of role)" using fs(1) by simp
  show ?thesis
  proof (cases rule: run_cases [OF role le])
    case (3 a b)
    then show ?thesis using fs
      by (auto simp: success_defs seal_failure_def append_cleanup_def validate_failure_ledger_def discarded_cleanup_def
          is_cleanup_def signed_small run_evidence_def evidence_ok_def less_Suc_eq)
  next
    case (7 a b c)
    then show ?thesis using fs
      by (auto simp: success_defs seal_failure_def append_cleanup_def validate_failure_ledger_def discarded_cleanup_def
          is_cleanup_def signed_small run_evidence_def evidence_ok_def numeral_3_eq_3 less_Suc_eq)
  qed (use fs in simp_all)
qed

section \<open>What a construction returns\<close>

lemma check_request_known:
  assumes "check_request r = Inr ()"
  shows "known_role (rq_role r)" "nat (literal_depth (rq_literal r)) = unat (count_of (rq_role r))"
proof -
  show role: "known_role (rq_role r)"
    using assms by (auto simp: check_request_def role_factor_count_def known_role_def split: if_splits)
  have "validate_streaming_literal (rq_limits r) (rq_role r) (count_of (rq_role r)) (rq_literal r) = Inr ()"
    using assms by (auto simp: check_request_def count_of_def and_then_ok split: prod.splits if_splits)
  then show "nat (literal_depth (rq_literal r)) = unat (count_of (rq_role r))"
    by (auto simp: validate_streaming_literal_def Let_def split: if_splits)
qed

text \<open>The three ways a construction ends.\<close>

definition broken_end :: "byte \<Rightarrow> factor_evidence list \<Rightarrow> byte \<Rightarrow> bool \<Rightarrow> stream_trace" where
  "broken_end role fs stage discard = seal_trace (append_cleanup cleanup_generator_cleared (- 1)
     (discard_matrices 0 (length fs) (broken_trace role (count_of role) fs stage discard)))"

lemma discard_matrices_status [simp]:
  "tr_status (discard_matrices i n t) = tr_status t" "tr_count (discard_matrices i n t) = tr_count t"
  "tr_stage (discard_matrices i n t) = tr_stage t" "length (tr_factors (discard_matrices i n t)) = length (tr_factors t)"
  by (induction i n t rule: discard_matrices.induct) (simp_all add: append_cleanup_def)

lemma failed_status_kept:
  "tr_status t = stream_failure \<Longrightarrow> t\<lparr>tr_status := stream_failure\<rparr> = t"
  by simp

lemma observed_construct_cases:
  obtains (rejected) e f where "check_request r = Inl f" "observed_construct r replies = (Some e, [],
      seal_trace ((fresh_trace (rq_role r) (count_of (rq_role r)))\<lparr>tr_status := stream_failure, tr_stage := stream_failure_validation\<rparr>))"
  | (broken) e fs stage discard where "check_request r = Inr ()"
      "observed_construct r replies = (Some e, [], broken_end (rq_role r) fs stage discard)"
      "length fs < unat (count_of (rq_role r))" "run_evidence (rq_role r) (count_of (rq_role r)) fs"
      "stage = stream_failure_consumer \<or> stage = stream_failure_product"
  | (unsealed) e fs where "check_request r = Inr ()"
      "observed_construct r replies = (Some e, [], seal_failure (length fs) (success_trace (rq_role r) fs))"
      "length fs = unat (count_of (rq_role r))" "run_evidence (rq_role r) (count_of (rq_role r)) fs"
      "digest_trace (success_trace (rq_role r) fs) = 0"
  | (complete) ms fs where "check_request r = Inr ()"
      "observed_construct r replies = (None, ms, success_trace (rq_role r) fs)" "length ms = unat (count_of (rq_role r))"
      "length fs = unat (count_of (rq_role r))" "run_evidence (rq_role r) (count_of (rq_role r)) fs"
      "digest_trace (success_trace (rq_role r) fs) \<noteq> 0"
proof (cases "check_request r")
  case (Inl f)
  then show thesis
    by (intro rejected [OF Inl, of "message_of f"]) (simp add: observed_construct_def count_of_def split: prod.split)
next
  case (Inr u)
  then have check: "check_request r = Inr ()" by simp
  note known = check_request_known [OF check]
  let ?role = "rq_role r" and ?c = "count_of (rq_role r)"
  obtain ok where c: "role_factor_count ?role = (?c, ok)" by (cases "role_factor_count ?role") (simp add: count_of_def)
  let ?s0 = "\<lparr>ss_trace = run_trace ?role ?c [], ss_matrices = [], ss_factor_index = 0, ss_pending_ok = False, ss_pending_index = - 1\<rparr>"
  have start: "append_event observed_transform_start (- 1) observed_payload_none 0 0 ((fresh_trace ?role ?c)\<lparr>tr_status := stream_failure\<rparr>)
      = run_trace ?role ?c []"
    by (simp add: append_event_def fresh_trace_def run_trace_def observed_at_def stream_failure_none_def)
  obtain e s where g: "generate_factors r ?c replies 0 (unat ?c) ?s0 = (e, s)" by fastforce
  have run: "observed_construct r replies =
      (let s = generator_returned ?c e s; t = ss_trace s in
       case e of
         Some e \<Rightarrow> (Some e, [], seal_trace (t\<lparr>tr_status := stream_failure\<rparr>))
       | None \<Rightarrow>
           if ss_factor_index s \<noteq> unat ?c \<or> length (ss_matrices s) \<noteq> unat ?c
           then (Some ''observed generator returned too few factors'', [], seal_trace (t\<lparr>tr_status := stream_failure\<rparr>))
           else let t = seal_trace (t\<lparr>tr_status := stream_success, tr_stage := stream_failure_none,
                  tr_attempted := word_of_nat (length (tr_events t))\<rparr>) in
             case validate_trace t of
               Inl _ \<Rightarrow> (Some ''seal observed success trace'', [], seal_failure (length (ss_matrices s)) t)
             | Inr _ \<Rightarrow> (None, ss_matrices s, t))"
    unfolding observed_construct_def c check known(2) by (simp add: start g Let_def split: prod.split)
  have "generate_factors r ?c replies (length []) (unat ?c) ?s0 = (e, s)" using g by simp
  then consider
      (all) fs where "e = None" "length fs = unat ?c" "run_evidence ?role ?c fs" "ss_trace s = run_trace ?role ?c fs"
        "length (ss_matrices s) = length fs" "ss_factor_index s = length fs"
    | (some) x fs stage discard where "e = Some x" "length fs < unat ?c" "run_evidence ?role ?c fs"
        "stage = stream_failure_consumer \<or> stage = stream_failure_product"
        "ss_trace s = broken_trace ?role ?c fs stage discard" "length (ss_matrices s) = length fs"
  proof -
    have start_state: "ss_trace ?s0 = run_trace ?role ?c []" "ss_factor_index ?s0 = length ([] :: factor_evidence list)"
      "length (ss_matrices ?s0) = length ([] :: factor_evidence list)" "run_evidence ?role ?c []"
      by (simp_all add: run_evidence_def)
    show thesis if "(\<And>fs. e = None \<Longrightarrow> length fs = unat ?c \<Longrightarrow> run_evidence ?role ?c fs \<Longrightarrow> ss_trace s = run_trace ?role ?c fs \<Longrightarrow>
          length (ss_matrices s) = length fs \<Longrightarrow> ss_factor_index s = length fs \<Longrightarrow> thesis)"
        "(\<And>x fs stage discard. e = Some x \<Longrightarrow> length fs < unat ?c \<Longrightarrow> run_evidence ?role ?c fs \<Longrightarrow>
          stage = stream_failure_consumer \<or> stage = stream_failure_product \<Longrightarrow>
          ss_trace s = broken_trace ?role ?c fs stage discard \<Longrightarrow> length (ss_matrices s) = length fs \<Longrightarrow> thesis)" for thesis
      using generate_cases [OF start_state \<open>generate_factors r ?c replies (length []) (unat ?c) ?s0 = (e, s)\<close>]
    proof (rule disjE; elim exE conjE)
      fix fs assume "e = None" "length fs = length ([] :: factor_evidence list) + unat ?c" "run_evidence ?role ?c fs"
        "ss_trace s = run_trace ?role ?c fs" "length (ss_matrices s) = length fs" "ss_factor_index s = length fs"
      then show thesis using that(1) by simp
    next
      fix fs stage discard
      assume "e \<noteq> None" "length fs < length ([] :: factor_evidence list) + unat ?c" "run_evidence ?role ?c fs"
        "stage = stream_failure_consumer \<or> stage = stream_failure_product"
        "ss_trace s = broken_trace ?role ?c fs stage discard" "length (ss_matrices s) = length fs"
      then show thesis using that(2) by (cases e) simp_all
    qed
  qed
  then show thesis
  proof cases
    case (some x fs stage discard)
    have nonzero: "stage \<noteq> stream_failure_none" using some(4) by (auto simp: observed_bytes)
    have "tr_status (broken_trace ?role ?c fs stage discard) = stream_failure" by (simp add: broken_trace_def run_trace_def)
    then have "ss_trace (generator_returned ?c e s) = append_cleanup cleanup_generator_cleared (- 1)
        (discard_matrices 0 (length fs) (broken_trace ?role ?c fs stage discard))"
      using some nonzero by (simp add: generator_returned_def on_trace_def Let_def broken_trace_def)
    moreover have "tr_status (append_cleanup cleanup_generator_cleared (- 1)
        (discard_matrices 0 (length fs) (broken_trace ?role ?c fs stage discard))) = stream_failure"
      by (simp add: append_cleanup_def broken_trace_def run_trace_def)
    ultimately have "observed_construct r replies = (Some x, [], broken_end ?role fs stage discard)"
      unfolding run broken_end_def Let_def some(1) by (simp only: option.case failed_status_kept)
    then show thesis using broken [OF check] some by blast
  next
    case (all fs)
    have ret: "generator_returned ?c e s = s\<lparr>ss_trace := returned_trace ?role fs\<rparr>"
      using all by (simp add: generator_returned_def on_trace_def returned_trace_def)
    have construct: "observed_construct r replies = (case validate_trace (success_trace ?role fs) of
        Inl _ \<Rightarrow> (Some ''seal observed success trace'', [], seal_failure (length fs) (success_trace ?role fs))
      | Inr _ \<Rightarrow> (None, ss_matrices s, success_trace ?role fs))"
      unfolding run ret success_trace_def Let_def using all by (simp split: sum.split)
    have "tr_digest (success_trace ?role fs) = digest_trace (success_trace ?role fs)"
      by (simp add: success_trace_def seal_trace_def Let_def)
    then have valid: "validate_trace (success_trace ?role fs) = Inr () \<longleftrightarrow> digest_trace (success_trace ?role fs) \<noteq> 0"
      using success_valid [OF known(1) all(2,3)] by (simp add: validate_trace_ok)
    show thesis
    proof (cases "digest_trace (success_trace ?role fs) = 0")
      case True
      then have "validate_trace (success_trace ?role fs) \<noteq> Inr ()" using valid by simp
      then show thesis using unsealed [OF check _ all(2,3) True] construct by (cases "validate_trace (success_trace ?role fs)") auto
    next
      case False
      then show thesis using complete [OF check _ _ all(2,3) False] construct valid all by simp
    qed
  qed
qed

text \<open>
  C20. The observed construction always leaves a trace that passes its own Validate, whatever the consumer
  answers and wherever the construction stops, except when the SHA-256 of the trace is all zero.
\<close>

theorem construct_trace_valid:
  "validate_trace (snd (snd (observed_construct r replies))) = Inr () \<longleftrightarrow> tr_digest (snd (snd (observed_construct r replies))) \<noteq> 0"
proof -
  have sealed: "validate_trace t = Inr () \<longleftrightarrow> tr_digest t \<noteq> 0" if "content_ok t" "tr_digest t = digest_trace t" for t
    using that by (simp add: validate_trace_ok)
  have seal: "tr_digest (seal_trace t) = digest_trace (seal_trace t)" for t
    by (simp add: seal_trace_def Let_def)
  show ?thesis
  proof (cases rule: observed_construct_cases [of r replies])
    case (rejected e f)
    have "content_ok (snd (snd (observed_construct r replies)))"
      unfolding rejected(2) by (auto simp: content_ok_def seal_trace_def fresh_trace_def count_of_def split: prod.split)
        (auto simp: role_factor_count_def split: if_splits)
    then show ?thesis using sealed seal rejected(2) by simp
  next
    case (broken e fs stage discard)
    then show ?thesis
      using sealed [OF broken_valid [OF check_request_known(1) [OF broken(1)] broken(3,4,5)] seal] by (simp add: broken_end_def)
  next
    case (unsealed e fs)
    then show ?thesis
      using sealed [OF seal_failure_valid [OF check_request_known(1) [OF unsealed(1)] unsealed(3,4)]] seal
      by (simp add: seal_failure_def Let_def)
  next
    case (complete ms fs)
    then show ?thesis
      using sealed [OF success_valid [OF check_request_known(1) [OF complete(1)] complete(4,5)]] seal
      by (simp add: success_trace_def)
  qed
qed

lemma discard_matrices_owned:
  "list_all (\<lambda>f. fe_ownership f = ownership_discarded) (take i (tr_factors t)) \<Longrightarrow> i + n = length (tr_factors t) \<Longrightarrow>
   list_all (\<lambda>f. fe_ownership f = ownership_discarded) (tr_factors (discard_matrices i n t))"
proof (induction i n t rule: discard_matrices.induct)
  case (2 i n t)
  let ?t = "append_cleanup cleanup_matrix_discarded (word_of_nat i)
       (t\<lparr>tr_factors := (tr_factors t)[i := (tr_factors t ! i)\<lparr>fe_ownership := ownership_discarded\<rparr>]\<rparr>)"
  have "take (Suc i) (tr_factors ?t) = take i (tr_factors t) @ [(tr_factors t ! i)\<lparr>fe_ownership := ownership_discarded\<rparr>]"
    using 2(3) by (simp add: append_cleanup_def take_Suc_conv_app_nth)
  then have "list_all (\<lambda>f. fe_ownership f = ownership_discarded) (take (Suc i) (tr_factors ?t))" using 2(2) by simp
  moreover have "Suc i + n = length (tr_factors ?t)" using 2(3) by (simp add: append_cleanup_def)
  ultimately show ?case using 2(1) by simp
qed simp

lemma seal_trace_fields [simp]:
  "tr_status (seal_trace t) = tr_status t" "tr_factors (seal_trace t) = tr_factors t" "tr_cleanup (seal_trace t) = tr_cleanup t"
  "tr_count (seal_trace t) = tr_count t"
  by (simp_all add: seal_trace_def Let_def)

lemma append_cleanup_fields [simp]:
  "tr_status (append_cleanup c i t) = tr_status t" "tr_factors (append_cleanup c i t) = tr_factors t"
  by (simp_all add: append_cleanup_def)

text \<open>
  C22. An observed construction is all or nothing: without an error it returns one matrix for each factor of
  its role, a successful trace with an empty cleanup list and evidence that the artifact owns every
  transformation; with an error it returns no matrix, a failed trace, and every piece of evidence says
  that the transformation was discarded.
\<close>

theorem construct_all_or_nothing:
  "case observed_construct r replies of (e, ms, t) \<Rightarrow>
     if e = None then tr_status t = stream_success \<and> length ms = unat (fst (role_factor_count (rq_role r))) \<and>
       length (tr_factors t) = length ms \<and> tr_cleanup t = [] \<and> list_all (\<lambda>f. fe_ownership f = owned_by_matrix) (tr_factors t)
     else ms = [] \<and> tr_status t = stream_failure \<and> list_all (\<lambda>f. fe_ownership f = ownership_discarded) (tr_factors t)"
proof (cases rule: observed_construct_cases [of r replies])
  case (rejected e f)
  then show ?thesis by (simp add: fresh_trace_def)
next
  case (broken e fs stage discard)
  have "list_all (\<lambda>f. fe_ownership f = ownership_discarded) (tr_factors (broken_end (rq_role r) fs stage discard))"
    using discard_matrices_owned [of 0 "broken_trace (rq_role r) (count_of (rq_role r)) fs stage discard" "length fs"]
    by (simp add: broken_end_def broken_trace_def run_trace_def)
  then show ?thesis using broken(2) by (simp add: broken_end_def broken_trace_def run_trace_def)
next
  case (unsealed e fs)
  have "list_all (\<lambda>f. fe_ownership f = ownership_discarded) (tr_factors (seal_failure (length fs) (success_trace (rq_role r) fs)))"
    using discard_matrices_owned [of 0 "success_trace (rq_role r) fs" "length fs"]
    by (simp add: seal_failure_def Let_def success_trace_def returned_trace_def append_event_def run_trace_def)
  then show ?thesis using unsealed(2) by (simp add: seal_failure_def Let_def)
next
  case (complete ms fs)
  have "list_all (\<lambda>f. fe_ownership f = owned_by_matrix) fs"
    using complete(5) by (auto simp: run_evidence_def evidence_ok_def list_all_length)
  then show ?thesis
    using complete by (simp add: success_trace_def returned_trace_def append_event_def run_trace_def count_of_def)
qed

end
