(* ===== verification/BuildArtifactProps.thy ===== *)
theory BuildArtifactProps
  imports BuildArtifact ObservedProps
begin

text \<open>
  The builder's final check of its own records never rejects: minting from promoted evidence already
  gives seven records that name each other.
\<close>

section \<open>Promotion\<close>

lemma promote_ok:
  assumes "fst (promote c valid t) = Inr e"
  shows "validate_trace t = Inr ()" "tr_status t = stream_success" "tr_role t = fp_role (co_profile c)"
    "tr_count t = fp_count (co_profile c)" "length (tr_factors t) = unat (tr_count t)"
    "\<And>i. i < length (tr_factors t) \<Longrightarrow> matches_tentative c i (tr_factors t ! i)"
    "pe_role e = tr_role t" "pe_count e = tr_count t" "pe_factors e = co_tentative c"
  using assms by (auto simp: promote_def Let_def and_then_ok check_each_ok reject_if_ok map_err_ok split: sum.splits if_splits)

text \<open>What a promoted trace and its evidence say of each other.\<close>

definition promoted :: "byte \<Rightarrow> stream_trace \<Rightarrow> promoted_evidence \<Rightarrow> bool" where
  "promoted role t e \<longleftrightarrow> known_role role \<and> validate_trace t = Inr () \<and> tr_status t = stream_success \<and> tr_role t = role \<and>
     pe_role e = role \<and> tr_count t = count_of role \<and> pe_count e = count_of role \<and>
     length (tr_events t) = 5 * unat (count_of role) + 3 \<and>
     (\<forall>i < unat (count_of role).
        oe_digest (tr_events t ! (2 + 5 * i)) = pi_digest (ep_numeric (pe_factors e ! i)) \<and>
        oe_bytes (tr_events t ! (2 + 5 * i)) = pi_bytes (ep_numeric (pe_factors e ! i)) \<and>
        oe_digest (tr_events t ! (4 + 5 * i)) = pi_digest (ep_encoded (pe_factors e ! i)) \<and>
        oe_bytes (tr_events t ! (4 + 5 * i)) = pi_bytes (ep_encoded (pe_factors e ! i)))"

lemma count_of_values: "known_role role \<Longrightarrow> count_of role = 2 \<or> count_of role = 3"
  by (auto simp: known_role_def count_of_def role_factor_count_def)

lemma promote_promoted:
  assumes "fst (promote c valid t) = Inr e" and "fp_role (co_profile c) = role" and "known_role role"
  shows "promoted role t e"
proof -
  note ok = promote_ok [OF assms(1)]
  have content: "content_ok t" using ok(1) by (simp add: validate_trace_ok)
  obtain okay where c: "role_factor_count role = (count_of role, okay)" by (cases "role_factor_count role") (simp add: count_of_def)
  have "stream_success \<noteq> stream_failure" by (simp add: observed_bytes)
  then have success: "tr_count t = count_of role" "length (tr_events t) = unat (5 * tr_count t + 3)"
      "\<And>i. i < length (tr_factors t) \<Longrightarrow> evidence_recorded t i (tr_factors t ! i)"
    using content ok(2,3) assms(2) c by (auto simp: content_ok_def)
  have len: "length (tr_events t) = 5 * unat (count_of role) + 3"
    using success(1,2) count_of_values [OF assms(3)] by auto
  have "length (tr_factors t) = unat (count_of role)" using ok(5) success(1) by simp
  then have each: "evidence_recorded t i (tr_factors t ! i)" "matches_tentative c i (tr_factors t ! i)"
    if "i < unat (count_of role)" for i
    using success(3) ok(6) that by simp_all
  have "oe_digest (tr_events t ! (2 + 5 * i)) = pi_digest (ep_numeric (pe_factors e ! i)) \<and>
      oe_bytes (tr_events t ! (2 + 5 * i)) = pi_bytes (ep_numeric (pe_factors e ! i)) \<and>
      oe_digest (tr_events t ! (4 + 5 * i)) = pi_digest (ep_encoded (pe_factors e ! i)) \<and>
      oe_bytes (tr_events t ! (4 + 5 * i)) = pi_bytes (ep_encoded (pe_factors e ! i))"
    if "i < unat (count_of role)" for i
    using each [OF that] ok(9) by (simp add: evidence_recorded_def matches_tentative_def)
  then show ?thesis
    unfolding promoted_def using assms(2,3) ok success(1) len by simp
qed

section \<open>Aggregates\<close>

lemma collect_factors_ok:
  "collect_factors ty i fs t = Inr (rs, t') \<Longrightarrow>
     refs_ok i rs \<and> length rs = length fs \<and> unat t + factor_bytes rs < 18446744073709551616 \<and>
     unat t' = unat t + factor_bytes rs \<and> (ty = numeric_aggregate_type \<or> ty = encoded_aggregate_type \<or> fs = []) \<and>
     (\<forall>j < length fs. \<exists>d. evidence_identity_of ty (fs ! j) = Inr d \<and> fr_digest (rs ! j) = pi_digest d \<and> fr_bytes (rs ! j) = pi_bytes d)"
proof (induction ty i fs t arbitrary: rs rule: collect_factors.induct)
  case (1 ty i t)
  then show ?case using unsigned_less [of t, where 'a = nat] by (simp add: factor_bytes_def)
next
  case (2 ty i f fs t)
  from 2(2) obtain d t1 rs' where d: "evidence_identity_of ty f = Inr d" "ep_index f = word_of_nat i" "pi_digest d \<noteq> 0" "pi_bytes d \<noteq> 0"
    and t1: "checked_add t (pi_bytes d) = Some t1" and rest: "collect_factors ty (Suc i) fs t1 = Inr (rs', t')"
    and rs: "rs = \<lparr>fr_index = word_of_nat i, fr_digest = pi_digest d, fr_bytes = pi_bytes d\<rparr> # rs'"
    by (auto simp: and_then_ok is_zero_digest_def split: if_splits option.splits)
  have "refs_ok (Suc i) rs' \<and> length rs' = length fs \<and> unat t1 + factor_bytes rs' < 18446744073709551616 \<and>
     unat t' = unat t1 + factor_bytes rs' \<and> (ty = numeric_aggregate_type \<or> ty = encoded_aggregate_type \<or> fs = []) \<and>
     (\<forall>j < length fs. \<exists>d. evidence_identity_of ty (fs ! j) = Inr d \<and> fr_digest (rs' ! j) = pi_digest d \<and> fr_bytes (rs' ! j) = pi_bytes d)"
    by (rule "2.IH" [OF _ t1 rest]) (use d in \<open>simp add: is_zero_digest_def\<close>)
  moreover have "ty = numeric_aggregate_type \<or> ty = encoded_aggregate_type"
    using d(1) by (auto simp: evidence_identity_of_def split: if_splits)
  ultimately show ?case
    using d t1 by (auto simp: rs factor_bytes_def checked_add_ok All_less_Suc2)
qed

lemma build_aggregate_ok:
  assumes "build_transform_aggregate ty e = Inr (bs, v)" and "promoted role t e"
    and "ty = numeric_aggregate_type \<or> ty = encoded_aggregate_type"
  shows "parse_transform_aggregate ty bs = Inr v" "ag_role v = (if role = observed_slots_to_coeffs then role_stc else role_cts)"
    "referenced v = map (\<lambda>i. let d = (if ty = encoded_aggregate_type then ep_encoded else ep_numeric) (pe_factors e ! i)
       in (pi_digest d, pi_bytes d)) [0..<unat (count_of role)]"
proof -
  from assms(1) obtain rs n where len: "unat (pe_count e) \<le> length (pe_factors e)"
    and collect: "collect_factors ty 0 (take (unat (pe_count e)) (pe_factors e))
          (word_of_nat aggregate_fixed_bytes + ucast (pe_count e) * word_of_nat factor_reference_bytes) = Inr (rs, n)"
    and v: "v = \<lparr>ag_type = ty, ag_role = (if pe_role e = observed_slots_to_coeffs then role_stc else role_cts), ag_count = pe_count e,
          ag_factors = into_array 3 zero_factor rs, ag_bytes = n\<rparr>"
    and marshal: "marshal_transform_aggregate v = Inr bs"
    by (auto simp: build_transform_aggregate_def and_then_ok Let_def split: if_splits)
  have role: "pe_role e = role" "pe_count e = count_of role" using assms(2) by (simp_all add: promoted_def)
  note c = collect_factors_ok [OF collect]
  have "unat (count_of role) \<le> 3"
    using count_of_values [of role] assms(2) by (auto simp: promoted_def)
  moreover have "length rs = unat (count_of role)" using c len role by simp
  ultimately have rs: "length rs = unat (count_of role)" "unat (count_of role) \<le> 3" by simp_all
  show "ag_role v = (if role = observed_slots_to_coeffs then role_stc else role_cts)" by (simp add: v role)
  have "aggregate_array v"
    using into_array_iff [of rs "unat (count_of role)" 3 zero_factor "ag_factors v"] rs by (simp add: aggregate_array_def v role)
  then show "parse_transform_aggregate ty bs = Inr v"
    unfolding parse_aggregate_ok [OF assms(3)] using marshal unfolding marshal_aggregate_ok by (simp add: v)
  have taken: "take (unat (count_of role)) (ag_factors v) = rs"
    using rs by (simp add: v into_array_def)
  show "referenced v = map (\<lambda>i. let d = (if ty = encoded_aggregate_type then ep_encoded else ep_numeric) (pe_factors e ! i)
       in (pi_digest d, pi_bytes d)) [0..<unat (count_of role)]"
  proof (rule nth_equalityI)
    fix i assume "i < length (referenced v)"
    then have i: "i < unat (count_of role)" using rs taken by (simp add: referenced_def v role)
    moreover have "unat (count_of role) \<le> length (pe_factors e)" using len role by simp
    ultimately obtain d where "evidence_identity_of ty (pe_factors e ! i) = Inr d" "fr_digest (rs ! i) = pi_digest d" "fr_bytes (rs ! i) = pi_bytes d"
      using c role(2) by (metis length_take min.absorb2 nth_take)
    then show "referenced v ! i = map (\<lambda>i. let d = (if ty = encoded_aggregate_type then ep_encoded else ep_numeric) (pe_factors e ! i)
       in (pi_digest d, pi_bytes d)) [0..<unat (count_of role)] ! i"
      using i taken rs role by (auto simp: referenced_def v evidence_identity_of_def split: if_splits)
  qed (use taken rs in \<open>simp add: referenced_def v role\<close>)
qed

section \<open>The lifecycle\<close>

lemma append_observed_ok:
  "append_observed_events xs es = Inr es' \<Longrightarrow>
     length es' = length es + length xs \<and> take (length es) es' = es \<and>
     (\<forall>i < length xs. ev_digest (es' ! (length es + i)) = oe_digest (xs ! i) \<and> ev_value (es' ! (length es + i)) = oe_bytes (xs ! i))"
proof (induction xs arbitrary: es)
  case Nil
  then show ?case by simp
next
  case (Cons x xs)
  then obtain e es1 where e: "wire_lifecycle_event x = Inr e" and a: "append_lifecycle_event e es = Inr es1"
    and r: "append_observed_events xs es1 = Inr es'"
    by (auto simp: and_then_ok)
  have es1: "es1 = es @ [e\<lparr>ev_sequence := word_of_nat (length es)\<rparr>]"
    using a by (auto simp: append_lifecycle_event_def split: if_splits)
  have fields: "ev_digest e = oe_digest x" "ev_value e = oe_bytes x"
    using e by (auto simp: wire_lifecycle_event_def split: if_splits)
  note IH = Cons.IH [OF r]
  have "es' ! length es = es1 ! length es" using IH by (metis es1 length_append_singleton lessI nth_take)
  then have here: "ev_digest (es' ! length es) = oe_digest x" "ev_value (es' ! length es) = oe_bytes x"
    using fields by (simp_all add: es1)
  have "take (length es) (take (length es1) es') = es" using IH by (simp add: es1)
  then have "take (length es) es' = es" by (simp add: es1 min_def)
  moreover have "ev_digest (es' ! (length es + i)) = oe_digest ((x # xs) ! i) \<and> ev_value (es' ! (length es + i)) = oe_bytes ((x # xs) ! i)"
    if "i < length (x # xs)" for i
  proof (cases i)
    case 0
    then show ?thesis using here by simp
  next
    case (Suc j)
    moreover have "j < length xs" using Suc that by simp
    ultimately show ?thesis using conjunct2 [OF conjunct2 [OF IH]] by (simp add: es1)
  qed
  ultimately show ?case using IH by (simp add: es1)
qed

lemma append_one_ok:
  "append_lifecycle_event e es = Inr es' \<longleftrightarrow> length es < 35 \<and> es' = es @ [e\<lparr>ev_sequence := word_of_nat (length es)\<rparr>]"
  by (auto simp: append_lifecycle_event_def success_event_count_def)

lemma success_lifecycle_ok:
  assumes "build_success_lifecycle stc cts d = Inr v"
    and stc: "promoted observed_slots_to_coeffs stc se" and cts: "promoted observed_coeffs_to_slots cts ce"
  shows "lifecycle_ok v" "lifecycle_array v" "lc_status v = lifecycle_success" "d \<noteq> 0" "ev_digest (lc_events v ! 33) = d"
    "\<And>i. i < 13 \<Longrightarrow> ev_digest (lc_events v ! (2 + i)) = oe_digest (tr_events stc ! i) \<and> ev_value (lc_events v ! (2 + i)) = oe_bytes (tr_events stc ! i)"
    "\<And>i. i < 18 \<Longrightarrow> ev_digest (lc_events v ! (15 + i)) = oe_digest (tr_events cts ! i) \<and> ev_value (lc_events v ! (15 + i)) = oe_bytes (tr_events cts ! i)"
proof -
  have counts: "count_of observed_slots_to_coeffs = 2" "count_of observed_coeffs_to_slots = 3"
    by (simp_all add: count_of_def role_factor_count_def observed_bytes)
  have len: "length (tr_events stc) = 13" "length (tr_events cts) = 18"
    using stc cts by (simp_all add: promoted_def counts)
  from assms(1) obtain a b es1 es2 x y where d: "d \<noteq> 0"
    and es1: "append_observed_events (tr_events stc) [a, b] = Inr es1"
    and es2: "append_observed_events (tr_events cts) es1 = Inr es2"
    and x: "ev_digest x = d" and n: "length (es2 @ [x, y]) = 35"
    and v: "v = \<lparr>lc_status = lifecycle_success, lc_count = word_of_nat success_event_count,
          lc_attempted = word_of_nat success_event_count, lc_stage = failure_none, lc_events = es2 @ [x, y]\<rparr>"
    and valid: "validate_lifecycle v = Inr ()"
    by (auto simp: build_success_lifecycle_def and_then_ok append_one_ok append_trace_def is_zero_digest_def own_event_def
        success_event_count_def Let_def split: if_splits)
  note o1 = append_observed_ok [OF es1] and o2 = append_observed_ok [OF es2]
  have l1: "length es1 = 15" and l2: "length es2 = 33" using o1 o2 len by simp_all
  show "lifecycle_ok v" using valid by (simp add: validate_lifecycle_ok)
  show "lc_status v = lifecycle_success" "d \<noteq> 0" using d by (simp_all add: v)
  show "lifecycle_array v" using n by (simp add: lifecycle_array_def zero_tail_def v success_event_count_def)
  show "ev_digest (lc_events v ! 33) = d" using x l2 by (simp add: v nth_append)
  show "ev_digest (lc_events v ! (15 + i)) = oe_digest (tr_events cts ! i) \<and> ev_value (lc_events v ! (15 + i)) = oe_bytes (tr_events cts ! i)"
    if "i < 18" for i
    using o2 l1 l2 len that by (simp add: v nth_append)
  show "ev_digest (lc_events v ! (2 + i)) = oe_digest (tr_events stc ! i) \<and> ev_value (lc_events v ! (2 + i)) = oe_bytes (tr_events stc ! i)"
    if "i < 13" for i
  proof -
    have "2 + i < length es1" using l1 that by simp
    then have "es2 ! (2 + i) = es1 ! (2 + i)" using o2 by (metis nth_take)
    then have "lc_events v ! (2 + i) = es1 ! (2 + i)" using l2 that by (simp add: v nth_append)
    then show ?thesis using o1 len that by simp
  qed
qed

section \<open>The final check\<close>

lemma consumer_keeps_profile: "co_profile (consumer_at r count outcomes (new_factor_consumer p) i) = p"
  by (induction i) (auto simp: new_factor_consumer_def consume_factor_def abort_evidence_def split: sum.split)

lemma build_transform_promoted:
  assumes "build_transform role profile ti = Inr (ms, t, e)" and "fp_role profile = role" and "known_role role"
  shows "promoted role t e"
proof -
  from assms(1) obtain r count c i valid where c: "c = consumer_at r count (ti_outcomes ti) (new_factor_consumer profile) i"
    and promote: "fst (promote c valid t) = Inr e"
    by (auto simp: build_transform_def and_then_ok Let_def split: prod.splits option.splits)
  have "co_profile c = profile" unfolding c by (rule consumer_keeps_profile)
  then show ?thesis using promote_promoted [OF promote] assms(2,3) by simp
qed

lemma mint_artifact_ok:
  assumes "mint_artifact plan si ci earlier rss elapsed = Inr p"
  obtains stc st se cts ct ce rs life lr r rr d where
    "bl_permit plan \<noteq> 0" "bl_prepared plan \<noteq> 0"
    "promoted observed_slots_to_coeffs st se" "promoted observed_coeffs_to_slots ct ce"
    "build_payload_records (bl_permit plan) se ce = Inr (rs, br_payload r, d)"
    "build_success_lifecycle st ct d = Inr life" "marshal_lifecycle life = Inr lr" "marshal_build_receipt r = Inr rr"
    "br_permit r = bl_permit plan" "br_prepared r = bl_prepared plan" "br_lifecycle r = sum256 lr" "br_manifest r = d"
    "bd_records p = rs\<lparr>bs_lifecycle := lr, bs_receipt := rr\<rparr>"
proof -
  from assms obtain stc st se cts ct ce delta rs pay d life lr v r rr where
    plan: "validate_build_plan plan = Inr ()"
    and t: "build_transform observed_slots_to_coeffs (bl_stc_profile plan) si = Inr (stc, st, se)"
      "build_transform observed_coeffs_to_slots (bl_cts_profile plan) ci = Inr (cts, ct, ce)"
    and rest: "build_payload_records (bl_permit plan) se ce = Inr (rs, pay, d)"
      "build_success_lifecycle st ct d = Inr life" "marshal_lifecycle life = Inr lr" "marshal_build_receipt r = Inr rr"
    and r: "br_permit r = bl_permit plan" "br_prepared r = bl_prepared plan" "br_lifecycle r = sum256 lr" "br_manifest r = d"
      "br_payload r = pay"
    and p: "bd_records p = rs\<lparr>bs_lifecycle := lr, bs_receipt := rr\<rparr>"
    unfolding mint_artifact_def
    by (auto simp: and_then_ok map_err_ok Let_def split: if_splits)
  have plan: "bl_permit plan \<noteq> 0" "bl_prepared plan \<noteq> 0" "fp_role (bl_stc_profile plan) = observed_slots_to_coeffs"
    "fp_role (bl_cts_profile plan) = observed_coeffs_to_slots"
    using plan by (auto simp: validate_build_plan_def is_zero_digest_def split: if_splits)
  have known: "known_role observed_slots_to_coeffs" "known_role observed_coeffs_to_slots"
    by (simp_all add: known_role_def)
  show thesis
    by (rule that [of st se ct ce rs r d life lr rr])
      (use plan rest r p build_transform_promoted [OF t(1) plan(3) known(1)] build_transform_promoted [OF t(2) plan(4) known(2)] in simp_all)
qed

lemma minted_records_account:
  assumes t: "promoted observed_slots_to_coeffs st se" "promoted observed_coeffs_to_slots ct ce"
    and ag: "build_transform_aggregate numeric_aggregate_type se = Inr (sn, snr)" "build_transform_aggregate encoded_aggregate_type se = Inr (sen, ser)"
      "build_transform_aggregate numeric_aggregate_type ce = Inr (cn, cnr)" "build_transform_aggregate encoded_aggregate_type ce = Inr (cen, cer)"
    and life: "lifecycle_ok v" "lifecycle_array v" "lc_status v = lifecycle_success" "ev_digest (lc_events v ! 33) = d"
    and stc: "\<And>i. i < 13 \<Longrightarrow> ev_digest (lc_events v ! (2 + i)) = oe_digest (tr_events st ! i) \<and> ev_value (lc_events v ! (2 + i)) = oe_bytes (tr_events st ! i)"
    and cts: "\<And>i. i < 18 \<Longrightarrow> ev_digest (lc_events v ! (15 + i)) = oe_digest (tr_events ct ! i) \<and> ev_value (lc_events v ! (15 + i)) = oe_bytes (tr_events ct ! i)"
  shows "accounts_for v snr ser cnr cer d"
proof -
  have counts: "count_of observed_slots_to_coeffs = 2" "count_of observed_coeffs_to_slots = 3"
    by (simp_all add: count_of_def role_factor_count_def observed_bytes)
  have types: "encoded_aggregate_type \<noteq> numeric_aggregate_type" by (simp add: dft_types)
  note a = build_aggregate_ok(3) [OF ag(1) t(1) disjI1 [OF refl]] build_aggregate_ok(3) [OF ag(2) t(1) disjI2 [OF refl]]
    build_aggregate_ok(3) [OF ag(3) t(2) disjI1 [OF refl]] build_aggregate_ok(3) [OF ag(4) t(2) disjI2 [OF refl]]
  have events: "\<forall>i < 2. oe_digest (tr_events st ! (2 + 5 * i)) = pi_digest (ep_numeric (pe_factors se ! i)) \<and>
        oe_bytes (tr_events st ! (2 + 5 * i)) = pi_bytes (ep_numeric (pe_factors se ! i)) \<and>
        oe_digest (tr_events st ! (4 + 5 * i)) = pi_digest (ep_encoded (pe_factors se ! i)) \<and>
        oe_bytes (tr_events st ! (4 + 5 * i)) = pi_bytes (ep_encoded (pe_factors se ! i))"
    "\<forall>i < 3. oe_digest (tr_events ct ! (2 + 5 * i)) = pi_digest (ep_numeric (pe_factors ce ! i)) \<and>
        oe_bytes (tr_events ct ! (2 + 5 * i)) = pi_bytes (ep_numeric (pe_factors ce ! i)) \<and>
        oe_digest (tr_events ct ! (4 + 5 * i)) = pi_digest (ep_encoded (pe_factors ce ! i)) \<and>
        oe_bytes (tr_events ct ! (4 + 5 * i)) = pi_bytes (ep_encoded (pe_factors ce ! i))"
    using t by (simp_all add: promoted_def counts)
  have up: "[0..<2] = [0, 1]" "[0..<3] = [0, 1, 2]" by (simp_all add: upt_rec)
  have e1: "oe_digest (tr_events st ! 2) = pi_digest (ep_numeric (pe_factors se ! 0))" "oe_bytes (tr_events st ! 2) = pi_bytes (ep_numeric (pe_factors se ! 0))"
     "oe_digest (tr_events st ! 4) = pi_digest (ep_encoded (pe_factors se ! 0))" "oe_bytes (tr_events st ! 4) = pi_bytes (ep_encoded (pe_factors se ! 0))"
     "oe_digest (tr_events st ! 7) = pi_digest (ep_numeric (pe_factors se ! 1))" "oe_bytes (tr_events st ! 7) = pi_bytes (ep_numeric (pe_factors se ! 1))"
     "oe_digest (tr_events st ! 9) = pi_digest (ep_encoded (pe_factors se ! 1))" "oe_bytes (tr_events st ! 9) = pi_bytes (ep_encoded (pe_factors se ! 1))"
    using events(1) [rule_format, of 0] events(1) [rule_format, of 1] by simp_all
  have e2: "oe_digest (tr_events ct ! 2) = pi_digest (ep_numeric (pe_factors ce ! 0))" "oe_bytes (tr_events ct ! 2) = pi_bytes (ep_numeric (pe_factors ce ! 0))"
     "oe_digest (tr_events ct ! 4) = pi_digest (ep_encoded (pe_factors ce ! 0))" "oe_bytes (tr_events ct ! 4) = pi_bytes (ep_encoded (pe_factors ce ! 0))"
     "oe_digest (tr_events ct ! 7) = pi_digest (ep_numeric (pe_factors ce ! 1))" "oe_bytes (tr_events ct ! 7) = pi_bytes (ep_numeric (pe_factors ce ! 1))"
     "oe_digest (tr_events ct ! 9) = pi_digest (ep_encoded (pe_factors ce ! 1))" "oe_bytes (tr_events ct ! 9) = pi_bytes (ep_encoded (pe_factors ce ! 1))"
     "oe_digest (tr_events ct ! 12) = pi_digest (ep_numeric (pe_factors ce ! 2))" "oe_bytes (tr_events ct ! 12) = pi_bytes (ep_numeric (pe_factors ce ! 2))"
     "oe_digest (tr_events ct ! 14) = pi_digest (ep_encoded (pe_factors ce ! 2))" "oe_bytes (tr_events ct ! 14) = pi_bytes (ep_encoded (pe_factors ce ! 2))"
    using events(2) [rule_format, of 0] events(2) [rule_format, of 1] events(2) [rule_format, of 2] by simp_all
  show ?thesis
    unfolding accounts_positions [OF life(1-3)] a
    using stc [of 2] stc [of 4] stc [of 7] stc [of 9] cts [of 2] cts [of 4] cts [of 7] cts [of 9] cts [of 12] cts [of 14] e1 e2
    by (simp add: counts up types life(4) types [symmetric] Let_def)
qed

lemma minted_records_link:
  assumes plan: "permit \<noteq> 0" "prepared \<noteq> 0"
    and t: "promoted observed_slots_to_coeffs st se" "promoted observed_coeffs_to_slots ct ce"
    and payload: "build_payload_records permit se ce = Inr (rs, br_payload r, d)"
    and built: "build_success_lifecycle st ct d = Inr life" "marshal_lifecycle life = Inr lr" "marshal_build_receipt r = Inr rr"
    and r: "br_permit r = permit" "br_prepared r = prepared" "br_lifecycle r = sum256 lr" "br_manifest r = d"
  shows "validate_build_record_links (rs\<lparr>bs_lifecycle := lr, bs_receipt := rr\<rparr>) permit prepared = Inr ()"
proof -
  from payload obtain sn snr sen ser cn cnr cen cer pair where
    ag: "build_transform_aggregate numeric_aggregate_type se = Inr (sn, snr)" "build_transform_aggregate encoded_aggregate_type se = Inr (sen, ser)"
      "build_transform_aggregate numeric_aggregate_type ce = Inr (cn, cnr)" "build_transform_aggregate encoded_aggregate_type ce = Inr (cen, cer)"
    and pay: "br_payload r = \<lparr>ap_stc_numeric = aggregate_tuple sn snr, ap_stc_encoded = aggregate_tuple sen ser,
       ap_cts_numeric = aggregate_tuple cn cnr, ap_cts_encoded = aggregate_tuple cen cer\<rparr>"
    and pair: "marshal_artifact_pair \<lparr>pr_permit = permit, pr_payload = br_payload r\<rparr> = Inr pair"
    and rs: "rs = \<lparr>bs_stc_numeric = sn, bs_stc_encoded = sen, bs_cts_numeric = cn, bs_cts_encoded = cen, bs_pair = pair,
       bs_lifecycle = [], bs_receipt = []\<rparr>" "d = sum256 pair"
    by (auto simp: build_payload_records_def and_then_ok Let_def)
  have types: "numeric_aggregate_type = numeric_aggregate_type \<or> numeric_aggregate_type = encoded_aggregate_type"
    "encoded_aggregate_type = numeric_aggregate_type \<or> encoded_aggregate_type = encoded_aggregate_type" by simp_all
  note s = build_aggregate_ok [OF ag(1) t(1) types(1)] build_aggregate_ok [OF ag(2) t(1) types(2)]
    build_aggregate_ok [OF ag(3) t(2) types(1)] build_aggregate_ok [OF ag(4) t(2) types(2)]
  have roles: "observed_coeffs_to_slots \<noteq> observed_slots_to_coeffs" "encoded_aggregate_type \<noteq> numeric_aggregate_type"
    by (simp_all add: observed_bytes dft_types)
  note life = success_lifecycle_ok [OF built(1) t]
  have parsed: "parse_artifact_pair pair = Inr \<lparr>pr_permit = permit, pr_payload = br_payload r\<rparr>" "parse_lifecycle lr = Inr life"
    "parse_build_receipt rr = Inr r"
    using pair built(2,3) life(1,2)
    by (simp_all add: parse_pair_ok marshal_pair_ok parse_lifecycle_ok marshal_lifecycle_ok parse_receipt_ok marshal_receipt_ok)
  have accounts: "accounts_for life snr ser cnr cer d"
    by (rule minted_records_account [OF t ag life(1-3) life(5-7)])
  show ?thesis
    unfolding record_links_ok
    using plan parsed accounts life(3) r pay s roles
    by (simp add: rs parse_numeric_aggregate_def parse_encoded_aggregate_def aggregate_tuple_def)
qed

text \<open>
  C18. The builder's last check is redundant: whatever the plan, the consumer and the library answer, the
  records BuildRouteBArtifact mints from the promoted evidence of its two constructions already pass the
  cross-record validation, so the build returns exactly what it minted.
\<close>

theorem build_needs_no_recheck:
  "build_artifact plan stc_input cts_input earlier rss elapsed = mint_artifact plan stc_input cts_input earlier rss elapsed"
proof (cases "mint_artifact plan stc_input cts_input earlier rss elapsed")
  case (Inr p)
  from mint_artifact_ok [OF Inr] obtain st se ct ce rs life lr r rr d where
    plan: "bl_permit plan \<noteq> 0" "bl_prepared plan \<noteq> 0"
    and t: "promoted observed_slots_to_coeffs st se" "promoted observed_coeffs_to_slots ct ce"
    and payload: "build_payload_records (bl_permit plan) se ce = Inr (rs, br_payload r, d)"
    and built: "build_success_lifecycle st ct d = Inr life" "marshal_lifecycle life = Inr lr" "marshal_build_receipt r = Inr rr"
    and r: "br_permit r = bl_permit plan" "br_prepared r = bl_prepared plan" "br_lifecycle r = sum256 lr" "br_manifest r = d"
    and p: "bd_records p = rs\<lparr>bs_lifecycle := lr, bs_receipt := rr\<rparr>" .
  have "validate_build_record_links (bd_records p) (bl_permit plan) (bl_prepared plan) = Inr ()"
    unfolding p by (rule minted_records_link [OF plan t payload built r])
  then show ?thesis by (simp add: build_artifact_def Inr)
qed (simp add: build_artifact_def)

end
