(* ===== verification/Authority.thy ===== *)
theory Authority
  imports BuildArtifact
begin

unbundle bit_operations_syntax

text \<open>
  The capacity gate of a Route-B authority (\<^verbatim>\<open>integer/secureeval/route_b_authority.go\<close>) and the runtime
  evidence it leaves (\<^verbatim>\<open>route_b_live_artifact.go\<close>): under its mutex an authority draws a fresh generation,
  samples the physical memory, turns the sample into a capability it consumes at once, and has a
  capacity plan judge the snapshot.

  The plan is an interface in the source, here a record of the answers of its methods; \<^verbatim>\<open>plans\<close> gives the
  plan of each gate. What the memory sampler and the clock answer are arguments. A pointer to an owner is
  a number, the nil pointer 0. An instant is the zero \<^verbatim>\<open>time.Time\<close> or its Unix nanoseconds.
\<close>

section \<open>Gates\<close>

definition gate_authorize_build :: byte where "gate_authorize_build = 1"
definition gate_begin_build :: byte where "gate_begin_build = 2"
definition gate_authorize_ready :: byte where "gate_authorize_ready = 3"
definition gate_install :: byte where "gate_install = 4"
definition gate_preflight :: byte where "gate_preflight = 5"
definition gate_a2b_first_round :: byte where "gate_a2b_first_round = 6"
definition gate_a2b_full :: byte where "gate_a2b_full = 7"
definition gate_root_tree :: byte where "gate_root_tree = 8"
definition gate_node_batch :: byte where "gate_node_batch = 9"
definition gate_selected_child :: byte where "gate_selected_child = 10"
definition gate_radix4_node :: byte where "gate_radix4_node = 11"

definition validate_gate :: "byte \<Rightarrow> (record_error, unit) res" where
  "validate_gate gate =
     (if gate \<in> {gate_authorize_build, gate_begin_build, gate_authorize_ready, gate_install, gate_preflight,
        gate_a2b_first_round, gate_a2b_full, gate_root_tree, gate_node_batch, gate_selected_child, gate_radix4_node}
      then Inr () else err (AuthLineage ''Route-B capacity gate is invalid''))"

definition op_begin_build :: string where "op_begin_build = ''begin-build''"
definition op_authorize_ready :: string where "op_authorize_ready = ''authorize-ready''"
definition op_install :: string where "op_install = ''install''"
definition op_preflight :: string where "op_preflight = ''preflight''"
definition op_a2b_first_round :: string where "op_a2b_first_round = ''a2b-first-round''"
definition op_a2b_full :: string where "op_a2b_full = ''a2b-full''"
definition op_root_tree :: string where "op_root_tree = ''signed8-root-tree''"
definition op_node_batch :: string where "op_node_batch = ''signed8-depth2-node-batch''"
definition op_selected_child :: string where "op_selected_child = ''signed8-depth2-selected-child''"
definition op_radix4_node :: string where "op_radix4_node = ''signed8-radix4-node''"

definition gate_for_operation :: "string \<Rightarrow> (record_error, byte) res" where
  "gate_for_operation operation =
     (if operation = op_begin_build then Inr gate_begin_build
      else if operation = op_authorize_ready then Inr gate_authorize_ready
      else if operation = op_install then Inr gate_install
      else if operation = op_preflight then Inr gate_preflight
      else if operation = op_a2b_first_round then Inr gate_a2b_first_round
      else if operation = op_a2b_full then Inr gate_a2b_full
      else if operation = op_root_tree then Inr gate_root_tree
      else if operation = op_node_batch then Inr gate_node_batch
      else if operation = op_selected_child then Inr gate_selected_child
      else if operation = op_radix4_node then Inr gate_radix4_node
      else err (AuthLineage ''runtime-capacity evidence operation is invalid''))"

section \<open>Samples, plans, evidence\<close>

type_synonym instant = "64 word option"

record memory_totals =
  mt_total :: "64 word"
  mt_available :: "64 word"

record memory_snapshot =
  ms_id :: string
  ms_total :: "64 word"
  ms_available :: "64 word"

record plan_report =
  cr_snapshot :: memory_snapshot
  cr_probe :: string
  cr_digest :: string
  cr_parameter :: string
  cr_profile :: string
  cr_shape :: string
  cr_policy :: string
  cr_guarded :: "64 word"
  cr_remaining :: "64 word"

record 'p capacity_plan =
  pn_digest :: string
  pn_full_peak :: "64 word"
  pn_projected :: "64 word"
  pn_evaluate :: "memory_snapshot \<Rightarrow> (string, plan_report \<times> 'p) res"
  pn_valid_report :: "memory_snapshot \<Rightarrow> plan_report \<Rightarrow> (string, unit) res"
  pn_valid_permit :: "memory_snapshot \<Rightarrow> 'p \<Rightarrow> (string, unit) res"
  pn_permit_digest :: "'p \<Rightarrow> string"

record capacity_evidence =
  ce_generation :: "64 word"
  ce_sampled_at :: instant
  ce_gate :: byte
  ce_binding :: capacity_binding
  ce_peak :: peak_contract

definition validate_totals :: "memory_totals \<Rightarrow> (string, unit) res" where
  "validate_totals v = reject_if (mt_total v = 0 \<or> mt_available v > mt_total v) ''invalid physical-memory totals''"

definition snapshot_id :: "byte list \<Rightarrow> 64 word \<Rightarrow> memory_totals \<Rightarrow> string" where
  "snapshot_id secret generation totals =
     hex_string (sha256 (ascii ''RBAUTH-capacity-snapshot-v1'' @ secret @ wr_u64 generation @
       wr_u64 (mt_total totals) @ wr_u64 (mt_available totals)))"

text \<open>
  A 64-character lowercase hexadecimal digest. A letter \<^verbatim>\<open>strings.ToLower\<close> changes outside ASCII is
  reported by the decoder here; both are blocked errors.
\<close>

definition upper_ascii :: "char \<Rightarrow> bool" where
  "upper_ascii c \<longleftrightarrow> (of_char c :: nat) \<in> {65..90}"

definition decode_hex_digest :: "string \<Rightarrow> string \<Rightarrow> (record_error, digest) res" where
  "decode_hex_digest name encoded =
     (if length encoded \<noteq> 64 \<or> list_ex upper_ascii encoded
      then err (AuthBlocked (name @ '' digest is not canonical lowercase SHA-256''))
      else case hex_decode encoded of
        None \<Rightarrow> err (AuthBlocked (''decode '' @ name @ '' digest''))
      | Some payload \<Rightarrow>
          if length payload \<noteq> 32 then err (AuthBlocked (''decode '' @ name @ '' digest''))
          else let d = of_le_bytes (map word_of_nat payload) in
            if is_zero_digest d then err (AuthBlocked (name @ '' digest is zero'')) else Inr d)"

definition capacity_binding_of ::
  "'p capacity_plan \<Rightarrow> plan_report \<Rightarrow> 'p \<Rightarrow> (record_error, capacity_binding) res" where
  "capacity_binding_of plan report permit =
     and_then (map_each (\<lambda>_ (name, encoded). decode_hex_digest name encoded) 0
       [(''capacity plan'', pn_digest plan), (''capacity probe'', cr_probe report), (''capacity report'', cr_digest report),
        (''capacity permit'', pn_permit_digest plan permit), (''parameter'', cr_parameter report),
        (''profile'', cr_profile report), (''shape'', cr_shape report), (''policy'', cr_policy report)])
       (\<lambda>ds. let v = \<lparr>cb_snapshot_id = ms_id (cr_snapshot report), cb_total = ms_total (cr_snapshot report),
          cb_available = ms_available (cr_snapshot report), cb_plan = ds ! 0, cb_probe = ds ! 1, cb_report = ds ! 2,
          cb_permit = ds ! 3, cb_parameter = ds ! 4, cb_profile = ds ! 5, cb_shape = ds ! 6, cb_policy = ds ! 7\<rparr>
        in and_then (validate_capacity v) (\<lambda>_. Inr v))"

section \<open>The authority and its capacity gate\<close>

record authority =
  au_owner :: nat
  au_has_sampler :: bool
  au_secret :: "byte list"
  au_generation :: "64 word"
  au_sample_calls :: "64 word"
  au_evaluation_calls :: "64 word"
  au_prepare_calls :: "64 word"

record capacity_capability =
  kp_owner :: nat
  kp_cell_generation :: "64 word"
  kp_consumed :: bool
  kp_generation :: "64 word"
  kp_sampled_at :: instant
  kp_totals :: memory_totals
  kp_snapshot_id :: string

text \<open>
  The consumption of a capability; the compare-and-swap of its flag is the second component.
\<close>

definition consume_capability ::
  "authority \<Rightarrow> capacity_capability \<Rightarrow> (record_error, memory_snapshot \<times> instant) res \<times> capacity_capability" where
  "consume_capability a k =
     (if kp_owner k = 0 \<or> kp_owner k \<noteq> au_owner a \<or> kp_cell_generation k \<noteq> kp_generation k \<or>
        kp_generation k \<noteq> au_generation a
      then (err (AuthLineage ''capacity capability owner or generation is foreign''), k)
      else if kp_consumed k then (err (AuthLineage ''capacity capability was already consumed''), k)
      else (case validate_totals (kp_totals k) of
          Inl _ \<Rightarrow> err (AuthBlocked ''capacity capability totals'')
        | Inr _ \<Rightarrow>
            if kp_snapshot_id k = '''' \<or> kp_snapshot_id k \<noteq> snapshot_id (au_secret a) (kp_generation k) (kp_totals k) \<or>
              kp_sampled_at k = None
            then err (AuthLineage ''capacity capability identity or sample time changed'')
            else Inr (\<lparr>ms_id = kp_snapshot_id k, ms_total = mt_total (kp_totals k),
              ms_available = mt_available (kp_totals k)\<rparr>, kp_sampled_at k),
        k\<lparr>kp_consumed := True\<rparr>))"

definition blocked :: "string \<Rightarrow> (string, 'a) res \<Rightarrow> (record_error, 'a) res" where
  "blocked context = map_err (\<lambda>_. AuthBlocked context)"

definition evaluate_plan ::
  "(string, 'p capacity_plan) res \<Rightarrow> memory_totals \<Rightarrow> memory_snapshot \<Rightarrow>
   (record_error, capacity_binding \<times> peak_contract) res" where
  "evaluate_plan plan totals snapshot =
     and_then (blocked ''construct L11 gate capacity plan'' plan) (\<lambda>plan.
     and_then (blocked ''evaluate L11 capacity'' (pn_evaluate plan snapshot)) (\<lambda>(report, permit).
     and_then (blocked ''validate L11 capacity report'' (pn_valid_report plan snapshot report)) (\<lambda>_.
     and_then (blocked ''validate L11 capacity permit'' (pn_valid_permit plan snapshot permit)) (\<lambda>_.
     and_then (peak_contract_for_requirement (mt_total totals) (mt_available totals) (pn_projected plan)) (\<lambda>peak.
     if pn_full_peak plan \<noteq> pk_full_artifact peak \<or> pn_projected plan \<noteq> pk_pre_guard peak \<or>
       cr_guarded report \<noteq> pk_guarded peak \<or> cr_remaining report \<noteq> pk_remaining peak
     then err (AuthBlocked ''capacity plan/report and RBAUTH peak ledger disagree'')
     else and_then (capacity_binding_of plan report permit) (\<lambda>binding. Inr (binding, peak)))))))"

definition sample_capacity ::
  "(byte \<Rightarrow> (string, 'p capacity_plan) res) \<Rightarrow> byte \<Rightarrow> (string, memory_totals) res \<Rightarrow> instant \<Rightarrow> authority \<Rightarrow>
   (record_error, capacity_evidence) res \<times> authority" where
  "sample_capacity plans gate sample now a =
     (if \<not> is_ok (validate_gate gate) then (err (AuthLineage ''Route-B capacity gate is invalid''), a)
      else if au_owner a = 0 \<or> \<not> au_has_sampler a
      then (err (AuthLineage ''Authority capacity owner or sampler is nil''), a)
      else if au_generation a = NOT 0 then (err (AuthBlocked ''Authority capacity generation is exhausted''), a)
      else let a = a\<lparr>au_generation := au_generation a + 1, au_sample_calls := au_sample_calls a + 1\<rparr>;
          generation = au_generation a in
        case and_then (blocked ''sample physical memory'' sample) (\<lambda>totals.
          and_then (blocked ''validate physical-memory sample'' (validate_totals totals)) (\<lambda>_.
          and_then (fst (consume_capability a \<lparr>kp_owner = au_owner a, kp_cell_generation = generation, kp_consumed = False,
             kp_generation = generation, kp_sampled_at = now, kp_totals = totals,
             kp_snapshot_id = snapshot_id (au_secret a) generation totals\<rparr>)) (\<lambda>(snapshot, sampled_at).
          Inr (totals, snapshot, sampled_at)))) of
          Inl e \<Rightarrow> (Inl e, a)
        | Inr (totals, snapshot, sampled_at) \<Rightarrow>
            (and_then (evaluate_plan (plans gate) totals snapshot) (\<lambda>(binding, peak).
               Inr \<lparr>ce_generation = generation, ce_sampled_at = sampled_at, ce_gate = gate, ce_binding = binding, ce_peak = peak\<rparr>),
             a\<lparr>au_evaluation_calls := au_evaluation_calls a + 1\<rparr>))"

section \<open>Runtime evidence\<close>

record runtime_evidence =
  re_operation :: string
  re_generation :: "64 word"
  re_sampled_at :: instant
  re_capacity :: capacity_binding
  re_peak :: peak_contract
  re_lineage :: digest
  re_digest :: digest

text \<open>The Unix nanoseconds of an instant; those of the zero time are its wrapped difference to 1970.\<close>

definition unix_nano :: "instant \<Rightarrow> 64 word" where
  "unix_nano t = (case t of None \<Rightarrow> word_of_int (- 6795364578871345152) | Some n \<Rightarrow> n)"

definition digest_runtime :: "runtime_evidence \<Rightarrow> digest" where
  "digest_runtime v = sum256 (wr_string ''RBAUTH-runtime-capacity-v1'' @ wr_string (re_operation v) @
     wr_u64 (re_generation v) @ wr_u64 (unix_nano (re_sampled_at v)) @ wr_capacity (re_capacity v) @
     wr_peak_fields (re_peak v) @ wr_digest (pk_digest (re_peak v)) @ wr_digest (re_lineage v))"

definition new_runtime_evidence :: "string \<Rightarrow> capacity_evidence \<Rightarrow> digest \<Rightarrow> runtime_evidence" where
  "new_runtime_evidence operation e lineage_identity =
     (let v = \<lparr>re_operation = operation, re_generation = ce_generation e, re_sampled_at = ce_sampled_at e,
        re_capacity = ce_binding e, re_peak = ce_peak e, re_lineage = lineage_identity, re_digest = 0\<rparr>
      in v\<lparr>re_digest := digest_runtime v\<rparr>)"

definition validate_runtime ::
  "(byte \<Rightarrow> (string, 'p capacity_plan) res) \<Rightarrow> runtime_evidence \<Rightarrow> (record_error, unit) res" where
  "validate_runtime plans v =
     (if re_operation v \<notin> {op_begin_build, op_authorize_ready, op_install, op_preflight, op_a2b_first_round, op_a2b_full,
        op_root_tree, op_node_batch, op_selected_child, op_radix4_node}
      then err (AuthLineage ''runtime-capacity evidence operation is invalid'')
      else if re_generation v = 0 \<or> re_sampled_at v = None \<or> unix_nano (re_sampled_at v) \<le>s 0 \<or> is_zero_digest (re_lineage v)
      then err (AuthLineage ''runtime-capacity evidence operation, generation, time, or lineage is empty'')
      else and_then (validate_capacity (re_capacity v)) (\<lambda>_.
        and_then (gate_for_operation (re_operation v)) (\<lambda>gate.
        and_then (map_err (\<lambda>_. AuthLineage ''cannot reconstruct runtime-capacity phase plan'') (plans gate)) (\<lambda>plan.
        let snapshot = \<lparr>ms_id = cb_snapshot_id (re_capacity v), ms_total = cb_total (re_capacity v),
          ms_available = cb_available (re_capacity v)\<rparr> in
        and_then (map_err (\<lambda>_. AuthLineage ''runtime-capacity phase is not canonically admitted'') (pn_evaluate plan snapshot))
          (\<lambda>(report, permit).
        and_then (capacity_binding_of plan report permit) (\<lambda>expected_binding.
        and_then (peak_contract_for_requirement (cb_total (re_capacity v)) (cb_available (re_capacity v)) (pn_projected plan))
          (\<lambda>expected_peak.
        reject_if (re_capacity v \<noteq> expected_binding \<or> re_peak v \<noteq> expected_peak \<or> re_digest v \<noteq> digest_runtime v)
          (AuthLineage ''runtime-capacity phase binding, peak, or identity changed''))))))))"

end
