(* ===== verification/Lineage.thy ===== *)
theory Lineage
  imports Authority
begin

text \<open>
  The life of an artifact under a Route-B authority: AuthorizeBuild, BeginBuild, AuthorizeReady, Install
  and the first operation of the installed evaluator
  (\<^verbatim>\<open>route_b_authority.go\<close>, \<^verbatim>\<open>route_b_live_artifact.go\<close>, \<^verbatim>\<open>route_b_ready.go\<close>, \<^verbatim>\<open>route_b_install.go\<close>,
  \<^verbatim>\<open>route_b_preflight.go\<close>).

  The cells the handles of the source point to are lists of a world; a handle holds the index of its
  cell, or none for the nil pointer. Each operation has the same eight steps, which \<^verbatim>\<open>LineageRace\<close>
  interleaves: validate the handles, sample the capacity, prepare the parameters, validate again,
  swap the lineage into the state of the operation, consume the generation, do the work, publish or fail.
  What the builder, the validators, the key generator and the evaluator answer are arguments.
\<close>

section \<open>Lineages and their handles\<close>

datatype lineage_state =
  LineageZero | Authorized | Building | PrivateUninstalled | Readying | ReadyState | Installing | InstalledUnverified
  | Preflighting | Operational | LineageFailed

record lineage =
  ln_owner :: nat
  ln_state :: lineage_state
  ln_mint :: "64 word"
  ln_last :: "64 word"
  ln_mint_time :: instant
  ln_build_spec :: digest
  ln_build_permit :: digest
  ln_mint_report :: digest
  ln_mint_permit :: digest
  ln_build_use :: digest
  ln_receipt :: digest
  ln_manifest :: digest
  ln_payload :: actual_payload
  ln_ready_use :: digest
  ln_ready_spec :: digest
  ln_ready_permit :: digest
  ln_install_use :: digest
  ln_preflight_use :: digest

record build_permit =
  bx_report :: build_permit_report
  bx_lineage :: "nat option"

record live_receipt =
  rx_report :: build_receipt
  rx_records :: build_record_set
  rx_runtime :: runtime_evidence
  rx_lineage :: "nat option"

record ready_permit =
  yx_report :: ready_permit_report
  yx_runtime :: runtime_evidence
  yx_lineage :: "nat option"

record 'm artifact_cell =
  ac_lineage :: "nat option"
  ac_available :: bool
  ac_stc :: "'m list"
  ac_cts :: "'m list"
  ac_records :: build_record_set

record 'k installed_cell =
  ic_lineage :: "nat option"
  ic_available :: bool
  ic_evaluator :: "'k option"
  ic_receipt :: build_receipt
  ic_records :: build_record_set
  ic_ready :: ready_permit_report
  ic_install :: runtime_evidence
  ic_prepared_a2b :: bool

record ('m, 'k) world =
  wd_authority :: authority
  wd_lineages :: "lineage list"
  wd_artifacts :: "'m artifact_cell list"
  wd_installed :: "'k installed_cell list"

definition cell_at :: "'a list \<Rightarrow> nat option \<Rightarrow> 'a option" where
  "cell_at cells p = (case p of None \<Rightarrow> None | Some i \<Rightarrow> if i < length cells then Some (cells ! i) else None)"

definition on_lineage :: "nat \<Rightarrow> (lineage \<Rightarrow> lineage) \<Rightarrow> ('m, 'k) world \<Rightarrow> ('m, 'k) world" where
  "on_lineage i f w = w\<lparr>wd_lineages := (wd_lineages w)[i := f (wd_lineages w ! i)]\<rparr>"

section \<open>Zero values\<close>

definition zero_records :: build_record_set where
  "zero_records = \<lparr>bs_stc_numeric = [], bs_stc_encoded = [], bs_cts_numeric = [], bs_cts_encoded = [], bs_pair = [],
     bs_lifecycle = [], bs_receipt = []\<rparr>"

definition zero_payload :: actual_payload where
  "zero_payload = (let z = \<lparr>pt_digest = 0, pt_bytes = 0\<rparr> in
     \<lparr>ap_stc_numeric = z, ap_stc_encoded = z, ap_cts_numeric = z, ap_cts_encoded = z\<rparr>)"

definition zero_classification :: classification where
  "zero_classification = \<lparr>cl_adaptation_label = [], cl_evidence_scope = [], cl_maturity = [], cl_source_faithful = False,
     cl_full_packed = False\<rparr>"

definition zero_capacity :: capacity_binding where
  "zero_capacity = \<lparr>cb_snapshot_id = [], cb_total = 0, cb_available = 0, cb_plan = 0, cb_probe = 0, cb_report = 0,
     cb_permit = 0, cb_parameter = 0, cb_profile = 0, cb_shape = 0, cb_policy = 0\<rparr>"

definition zero_peak :: peak_contract where
  "zero_peak = \<lparr>pk_full_artifact = 0, pk_pre_guard = 0, pk_guarded = 0, pk_remaining = 0, pk_duplicate_default = 0,
     pk_duplicate_excess = 0, pk_digest = 0\<rparr>"

definition zero_build_spec :: build_spec where
  "zero_build_spec = \<lparr>bp_classification = zero_classification, bp_capacity = zero_capacity, bp_prepared = 0,
     bp_transforms = \<lparr>td_raw_stc_literal = 0, td_raw_stc_scaling = 0, td_effective_stc_literal = 0,
       td_effective_stc_scaling = 0, td_raw_cts_literal = 0, td_raw_cts_scaling = 0, td_effective_cts_literal = 0,
       td_effective_cts_scaling = 0\<rparr>,
     bp_generator_precision = 0, bp_encoder_precision = 0, bp_builder_id = [], bp_digest_id = [], bp_allocation_id = [],
     bp_release_id = [], bp_ownership_id = [], bp_construction_order = 0, bp_stc_factor_count = 0,
     bp_stc_diagonals = (0, 0), bp_cts_factor_count = 0, bp_cts_diagonals = (0, 0, 0), bp_default_delta = 0,
     bp_explicit_delta = 0, bp_raw_numeric_delta = 0, bp_observed_delta = 0,
     bp_scratch = \<lparr>sl_roots = 0, sl_pow5 = 0, sl_abc_layer = 0, sl_largest_stc_factor = 0, sl_largest_cts_factor = 0,
       sl_stc_phase_maximum = 0, sl_cts_phase_maximum = 0, sl_artifact_envelope = 0, sl_remaining_envelope = 0,
       sl_digest = 0\<rparr>,
     bp_peak = zero_peak\<rparr>"

definition zero_build_permit :: build_permit_report where
  "zero_build_permit = \<lparr>bm_spec_digest = 0, bm_spec = zero_build_spec\<rparr>"

definition zero_ready_permit :: ready_permit_report where
  "zero_ready_permit = \<lparr>rm_spec_digest = 0, rm_spec = \<lparr>rs_classification = zero_classification,
     rs_capacity = zero_capacity, rs_prepared = 0, rs_build_spec = 0, rs_build_permit = 0, rs_build_receipt = 0,
     rs_pair_manifest = 0, rs_payload = zero_payload, rs_artifact_state = []\<rparr>\<rparr>"

definition zero_receipt :: build_receipt where
  "zero_receipt = \<lparr>br_permit = 0, br_prepared = 0, br_builder_id = [], br_digest_id = [], br_allocation_id = [],
     br_release_id = [], br_ownership_id = [], br_generator_precision = 0, br_encoder_precision = 0,
     br_default_delta = 0, br_explicit_delta = 0, br_raw_numeric_delta = 0, br_observed_delta = 0, br_lifecycle = 0,
     br_max_live = 0, br_stc_factors = 0, br_cts_factors = 0, br_payload = zero_payload, br_wall = 0, br_peak_rss = 0,
     br_state = [], br_manifest = 0\<rparr>"

definition build_permit_is_zero :: "build_permit \<Rightarrow> bool" where
  "build_permit_is_zero p \<longleftrightarrow> bx_lineage p = None \<or> bx_report p = zero_build_permit"

definition receipt_is_zero :: "live_receipt \<Rightarrow> bool" where
  "receipt_is_zero r \<longleftrightarrow> rx_lineage r = None \<or> rx_report r = zero_receipt \<or> bs_receipt (rx_records r) = [] \<or>
     re_digest (rx_runtime r) = 0"

definition ready_permit_is_zero :: "ready_permit \<Rightarrow> bool" where
  "ready_permit_is_zero p \<longleftrightarrow> yx_lineage p = None \<or> yx_report p = zero_ready_permit \<or> re_digest (yx_runtime p) = 0"

definition artifact_is_zero :: "('m, 'k) world \<Rightarrow> nat option \<Rightarrow> bool" where
  "artifact_is_zero w p = (case cell_at (wd_artifacts w) p of None \<Rightarrow> True | Some c \<Rightarrow> ac_lineage c = None \<or> \<not> ac_available c)"

definition installed_is_zero :: "('m, 'k) world \<Rightarrow> nat option \<Rightarrow> bool" where
  "installed_is_zero w p = (case cell_at (wd_installed w) p of
     None \<Rightarrow> True | Some c \<Rightarrow> ic_lineage c = None \<or> ic_evaluator c = None \<or> \<not> ic_available c)"

section \<open>AuthorizeBuild\<close>

definition frozen_build_spec :: "capacity_evidence \<Rightarrow> digest \<Rightarrow> transform_digests \<Rightarrow> build_spec" where
  "frozen_build_spec e prepared transforms =
     \<lparr>bp_classification = \<lparr>cl_adaptation_label = adaptation_label, cl_evidence_scope = build_evidence_scope,
        cl_maturity = rbauth_maturity, cl_source_faithful = False, cl_full_packed = False\<rparr>,
      bp_capacity = ce_binding e, bp_prepared = prepared, bp_transforms = transforms,
      bp_generator_precision = 256, bp_encoder_precision = 256, bp_builder_id = builder_id, bp_digest_id = digest_id,
      bp_allocation_id = allocation_id, bp_release_id = release_id, bp_ownership_id = ownership_id,
      bp_construction_order = construction_order_stc_drop_cts, bp_stc_factor_count = 2, bp_stc_diagonals = (63, 64),
      bp_cts_factor_count = 3, bp_cts_diagonals = (16, 31, 15), bp_default_delta = 0, bp_explicit_delta = 0,
      bp_raw_numeric_delta = 0, bp_observed_delta = 2, bp_scratch = default_scratch_ledger, bp_peak = ce_peak e\<rparr>"

definition mint_build_permit ::
  "authority \<Rightarrow> capacity_evidence \<Rightarrow> digest \<Rightarrow> transform_digests \<Rightarrow> (record_error, build_permit_report \<times> lineage) res" where
  "mint_build_permit a e prepared transforms =
     (if au_owner a = 0 \<or> ce_generation e = 0 \<or> ce_sampled_at e = None \<or> is_zero_digest prepared
      then err (AuthLineage ''build authorization inputs are empty'')
      else let spec = frozen_build_spec e prepared transforms in
        and_then (build_spec_frozen spec) (\<lambda>_.
        and_then (marshal_build_spec spec) (\<lambda>spec_record.
        and_then (record_identity spec_record) (\<lambda>spec_identity.
        let report = \<lparr>bm_spec_digest = spec_identity, bm_spec = spec\<rparr> in
        and_then (build_permit_frozen report) (\<lambda>_.
        and_then (marshal_build_permit report) (\<lambda>permit_record.
        and_then (record_identity permit_record) (\<lambda>permit_identity.
        Inr (report, \<lparr>ln_owner = au_owner a, ln_state = Authorized, ln_mint = ce_generation e, ln_last = ce_generation e,
          ln_mint_time = ce_sampled_at e, ln_build_spec = spec_identity, ln_build_permit = permit_identity,
          ln_mint_report = cb_report (ce_binding e), ln_mint_permit = cb_permit (ce_binding e), ln_build_use = 0,
          ln_receipt = 0, ln_manifest = 0, ln_payload = zero_payload, ln_ready_use = 0, ln_ready_spec = 0,
          ln_ready_permit = 0, ln_install_use = 0, ln_preflight_use = 0\<rparr>))))))))"

text \<open>The answers of the sampler, the clock and the preparation of the stored parameters to one operation.\<close>

record 'p gate_environment =
  en_sample :: "(string, memory_totals) res"
  en_now :: instant
  en_prepare :: "(string, 'p \<times> digest \<times> transform_digests) res"

definition prepare_stored ::
  "string \<Rightarrow> 'p gate_environment \<Rightarrow> authority \<Rightarrow> (record_error, 'p \<times> digest \<times> transform_digests) res \<times> authority" where
  "prepare_stored context env a = (blocked context (en_prepare env), a\<lparr>au_prepare_calls := au_prepare_calls a + 1\<rparr>)"

definition authorize_build ::
  "(byte \<Rightarrow> (string, 'q capacity_plan) res) \<Rightarrow> 'p gate_environment \<Rightarrow> ('m, 'k) world \<Rightarrow>
   (record_error, build_spec \<times> build_permit) res \<times> ('m, 'k) world" where
  "authorize_build plans env w =
     (let a = wd_authority w in
      if au_owner a = 0 \<or> \<not> au_has_sampler a then (err (AuthLineage ''Authority is nil or uninitialized''), w)
      else case sample_capacity plans gate_authorize_build (en_sample env) (en_now env) a of
        (Inl e, a) \<Rightarrow> (Inl e, w\<lparr>wd_authority := a\<rparr>)
      | (Inr evidence, a) \<Rightarrow>
          (case prepare_stored ''prepare stored Route-B parameters'' env a of
             (Inl e, a) \<Rightarrow> (Inl e, w\<lparr>wd_authority := a\<rparr>)
           | (Inr (_, prepared, transforms), a) \<Rightarrow>
               (case mint_build_permit a evidence prepared transforms of
                  Inl e \<Rightarrow> (Inl e, w\<lparr>wd_authority := a\<rparr>)
                | Inr (report, cell) \<Rightarrow>
                    (Inr (bm_spec report, \<lparr>bx_report = report, bx_lineage = Some (length (wd_lineages w))\<rparr>),
                     w\<lparr>wd_authority := a, wd_lineages := wd_lineages w @ [cell]\<rparr>))))"

section \<open>Validation of the handles\<close>

text \<open>The lineage and the permit identity of a live build permit.\<close>

definition validate_permit_canonical :: "('m, 'k) world \<Rightarrow> build_permit \<Rightarrow> (record_error, nat \<times> digest) res" where
  "validate_permit_canonical w p =
     (let a = wd_authority w; report = bx_report p in
      if au_owner a = 0 \<or> \<not> au_has_sampler a then err (AuthLineage ''Authority is nil or uninitialized'')
      else if build_permit_is_zero p then err (AuthLineage ''build permit is zero or belongs to a foreign Authority'')
      else case cell_at (wd_lineages w) (bx_lineage p) of
        None \<Rightarrow> Inl Panic
      | Some l \<Rightarrow>
          if ln_owner l = 0 \<or> ln_owner l \<noteq> au_owner a
          then err (AuthLineage ''build permit is zero or belongs to a foreign Authority'')
          else and_then (build_permit_frozen report) (\<lambda>_.
            and_then (marshal_build_spec (bm_spec report)) (\<lambda>spec_record.
            and_then (marshal_build_permit report) (\<lambda>permit_record.
            and_then (record_identity spec_record) (\<lambda>spec_identity.
            and_then (record_identity permit_record) (\<lambda>permit_identity.
            if bm_spec_digest report \<noteq> spec_identity \<or> ln_build_spec l \<noteq> spec_identity \<or>
              ln_build_permit l \<noteq> permit_identity \<or> ln_mint_report l \<noteq> cb_report (bp_capacity (bm_spec report)) \<or>
              ln_mint_permit l \<noteq> cb_permit (bp_capacity (bm_spec report)) \<or> ln_mint l = 0 \<or> ln_mint_time l = None
            then err (AuthLineage ''build permit differs from its mint-time private anchors'')
            else Inr (the (bx_lineage p), permit_identity)))))))"

definition validate_permit_before_use :: "('m, 'k) world \<Rightarrow> build_permit \<Rightarrow> (record_error, nat \<times> digest) res" where
  "validate_permit_before_use w p =
     and_then (validate_permit_canonical w p) (\<lambda>(i, identity).
     let l = wd_lineages w ! i in
     if ln_state l \<noteq> Authorized \<or> ln_last l \<noteq> ln_mint l
     then err (AuthLineage ''build lineage is not in its mint-time authorized state'')
     else Inr (i, identity))"

definition validate_ready_inputs ::
  "('m, 'k) world \<Rightarrow> build_permit \<Rightarrow> live_receipt \<Rightarrow> nat option \<Rightarrow> (record_error, nat \<times> digest) res" where
  "validate_ready_inputs w p r artifact =
     and_then (validate_permit_canonical w p) (\<lambda>(i, identity).
     if receipt_is_zero r \<or> artifact_is_zero w artifact \<or> rx_lineage r \<noteq> Some i \<or>
       (case cell_at (wd_artifacts w) artifact of None \<Rightarrow> True | Some c \<Rightarrow> ac_lineage c \<noteq> Some i)
     then err (AuthLineage ''Ready inputs are zero or belong to different lineages'')
     else let l = wd_lineages w ! i in
       if ln_state l \<noteq> PrivateUninstalled then err (AuthLineage ''build lineage is not private-uninstalled'')
       else if ln_last l \<le> ln_mint l \<or> is_zero_digest (ln_build_use l) \<or> is_zero_digest (ln_receipt l) \<or>
         is_zero_digest (ln_manifest l) \<or> ln_payload l = zero_payload
       then err (AuthLineage ''build lineage has incomplete post-build anchors'')
       else if br_permit (rx_report r) \<noteq> identity \<or> br_prepared (rx_report r) \<noteq> bp_prepared (bm_spec (bx_report p)) \<or>
         br_payload (rx_report r) \<noteq> ln_payload l \<or> br_manifest (rx_report r) \<noteq> ln_manifest l \<or>
         re_operation (rx_runtime r) \<noteq> op_begin_build \<or> re_lineage (rx_runtime r) \<noteq> identity \<or>
         re_digest (rx_runtime r) \<noteq> ln_build_use l
       then err (AuthLineage ''live build receipt differs from the post-build anchors'')
       else Inr (i, identity))"

text \<open>The record of a live receipt, released only when it still matches its anchors.\<close>

definition marshal_live_receipt ::
  "(byte \<Rightarrow> (string, 'q capacity_plan) res) \<Rightarrow> ('m, 'k) world \<Rightarrow> live_receipt \<Rightarrow> (record_error, byte list) res" where
  "marshal_live_receipt plans w r =
     (if receipt_is_zero r then err (AuthLineage ''build receipt is zero or unowned'')
      else case cell_at (wd_lineages w) (rx_lineage r) of
        None \<Rightarrow> Inl Panic
      | Some l \<Rightarrow>
          if ln_owner l = 0 then err (AuthLineage ''build receipt is zero or unowned'')
          else and_then (validate_runtime plans (rx_runtime r)) (\<lambda>_.
            and_then (validate_build_record_links (rx_records r) (ln_build_permit l) (br_prepared (rx_report r))) (\<lambda>_.
            and_then (parse_build_receipt (bs_receipt (rx_records r))) (\<lambda>parsed.
            if parsed \<noteq> rx_report r \<or> sum256 (bs_receipt (rx_records r)) \<noteq> ln_receipt l \<or>
              sum256 (bs_pair (rx_records r)) \<noteq> ln_manifest l \<or> br_payload (rx_report r) \<noteq> ln_payload l \<or>
              re_digest (rx_runtime r) \<noteq> ln_build_use l
            then err (AuthLineage ''build receipt differs from its private anchors'')
            else Inr (bs_receipt (rx_records r))))))"

definition marshal_live_ready ::
  "(byte \<Rightarrow> (string, 'q capacity_plan) res) \<Rightarrow> ('m, 'k) world \<Rightarrow> ready_permit \<Rightarrow> (record_error, byte list) res" where
  "marshal_live_ready plans w p =
     (if ready_permit_is_zero p then err (AuthLineage ''ready permit is zero or unowned'')
      else case cell_at (wd_lineages w) (yx_lineage p) of
        None \<Rightarrow> Inl Panic
      | Some l \<Rightarrow>
          if ln_owner l = 0 then err (AuthLineage ''ready permit is zero or unowned'')
          else and_then (validate_runtime plans (yx_runtime p)) (\<lambda>_.
            and_then (ready_permit_frozen (yx_report p)) (\<lambda>_.
            let spec = rm_spec (yx_report p) in
            and_then (marshal_ready_spec spec) (\<lambda>spec_record.
            and_then (record_identity spec_record) (\<lambda>spec_identity.
            and_then (marshal_ready_permit (yx_report p)) (\<lambda>record.
            and_then (record_identity record) (\<lambda>permit_identity.
            if rm_spec_digest (yx_report p) \<noteq> spec_identity \<or> spec_identity \<noteq> ln_ready_spec l \<or>
              permit_identity \<noteq> ln_ready_permit l \<or> re_digest (yx_runtime p) \<noteq> ln_ready_use l \<or>
              re_lineage (yx_runtime p) \<noteq> ln_build_permit l \<or> rs_build_spec spec \<noteq> ln_build_spec l \<or>
              rs_build_permit spec \<noteq> ln_build_permit l \<or> rs_build_receipt spec \<noteq> ln_receipt l \<or>
              rs_pair_manifest spec \<noteq> ln_manifest l \<or> rs_payload spec \<noteq> ln_payload l
            then err (AuthLineage ''ready permit differs from its private anchors'')
            else Inr record)))))))"

definition validate_install_inputs ::
  "(byte \<Rightarrow> (string, 'q capacity_plan) res) \<Rightarrow> ('m, 'k) world \<Rightarrow> ready_permit \<Rightarrow> live_receipt \<Rightarrow> nat option \<Rightarrow> bool \<Rightarrow>
   (record_error, nat \<times> digest) res" where
  "validate_install_inputs plans w p r artifact has_secret_key =
     (let a = wd_authority w; spec = rm_spec (yx_report p) in
      if au_owner a = 0 \<or> \<not> au_has_sampler a then err (AuthLineage ''Authority is nil or uninitialized'')
      else if \<not> has_secret_key \<or> ready_permit_is_zero p \<or> receipt_is_zero r \<or> artifact_is_zero w artifact
      then err (AuthLineage ''Install secret key or live input is empty'')
      else case cell_at (wd_lineages w) (yx_lineage p) of
        None \<Rightarrow> Inl Panic
      | Some l \<Rightarrow>
          if ln_owner l = 0 \<or> ln_owner l \<noteq> au_owner a \<or> rx_lineage r \<noteq> yx_lineage p \<or>
            (case cell_at (wd_artifacts w) artifact of None \<Rightarrow> True | Some c \<Rightarrow> ac_lineage c \<noteq> yx_lineage p)
          then err (AuthLineage ''Install inputs belong to a foreign Authority or lineage'')
          else if ln_state l \<noteq> ReadyState then err (AuthLineage ''Route-B lineage is not ready'')
          else and_then (marshal_live_ready plans w p) (\<lambda>_.
            if re_operation (yx_runtime p) \<noteq> op_authorize_ready \<or> re_generation (yx_runtime p) \<noteq> ln_last l \<or>
              rs_build_receipt spec \<noteq> ln_receipt l \<or> rs_pair_manifest spec \<noteq> ln_manifest l \<or>
              rs_payload spec \<noteq> ln_payload l \<or> br_payload (rx_report r) \<noteq> ln_payload l \<or>
              br_manifest (rx_report r) \<noteq> ln_manifest l
            then err (AuthLineage ''Install inputs differ from their Ready anchors'')
            else Inr (the (yx_lineage p), ln_ready_permit l)))"

definition validate_first_inputs ::
  "(byte \<Rightarrow> (string, 'q capacity_plan) res) \<Rightarrow> ('m, 'k) world \<Rightarrow> nat option \<Rightarrow> bool \<Rightarrow> (record_error, nat \<times> digest) res" where
  "validate_first_inputs plans w installed has_input =
     (if \<not> has_input \<or> installed_is_zero w installed
      then err (AuthLineage ''first-operation input or installed evaluator is empty'')
      else case cell_at (wd_installed w) installed of
        None \<Rightarrow> Inl Panic
      | Some c \<Rightarrow>
          (case cell_at (wd_lineages w) (ic_lineage c) of
             None \<Rightarrow> Inl Panic
           | Some l \<Rightarrow>
               if au_owner (wd_authority w) = 0 \<or> ln_owner l \<noteq> au_owner (wd_authority w)
               then err (AuthLineage ''installed evaluator Authority or owner is invalid'')
               else if ln_state l \<noteq> InstalledUnverified then err (AuthLineage ''Route-B lineage is not installed-unverified'')
               else and_then (validate_runtime plans (ic_install c)) (\<lambda>_.
                 and_then (ready_permit_frozen (ic_ready c)) (\<lambda>_.
                 and_then (marshal_ready_permit (ic_ready c)) (\<lambda>ready_record.
                 and_then (record_identity ready_record) (\<lambda>ready_identity.
                 let spec = rm_spec (ic_ready c) in
                 if re_operation (ic_install c) \<noteq> op_install \<or> re_generation (ic_install c) \<noteq> ln_last l \<or>
                   re_digest (ic_install c) \<noteq> ln_install_use l \<or> re_lineage (ic_install c) \<noteq> ln_ready_permit l \<or>
                   ready_identity \<noteq> ln_ready_permit l \<or> rs_build_receipt spec \<noteq> ln_receipt l \<or>
                   rs_pair_manifest spec \<noteq> ln_manifest l \<or> rs_payload spec \<noteq> ln_payload l \<or>
                   br_payload (ic_receipt c) \<noteq> ln_payload l \<or> br_manifest (ic_receipt c) \<noteq> ln_manifest l
                 then err (AuthLineage ''installed evaluator differs from its private anchors'')
                 else Inr (the (ic_lineage c), ln_ready_permit l)))))))"

end
