(* ===== verification/LineageOps.thy ===== *)
theory LineageOps
  imports Lineage
begin

text \<open>
  The operations that move a lineage: BeginBuild, AuthorizeReady, Install and the first operation. What
  each does after it has won its transition is a \<^verbatim>\<open>finish\<close> function; the way there, which the four share
  line by line, is the stage machine at the end.

  A \<^verbatim>\<open>finish\<close> includes the deferred function of the source: a panic of a hook is recovered into an error,
  and without publication the lineage fails and the private cells are cleared. The hooks cannot be nil.
\<close>

definition lib :: "string \<Rightarrow> (string, 'a) res \<Rightarrow> (build_error, 'a) res" where
  "lib context = map_err (\<lambda>_. LibraryError context)"

definition record_res :: "(record_error, 'a) res \<Rightarrow> (build_error, 'a) res" where
  "record_res = map_err RecordError"

definition recovered :: "string \<Rightarrow> (build_error, 'a) res \<Rightarrow> (build_error, 'a) res" where
  "recovered context m = (case m of Inl Panic \<Rightarrow> err (LibraryError context) | _ \<Rightarrow> m)"

definition lineage_error :: "string \<Rightarrow> (build_error, 'a) res" where
  "lineage_error message = err (RecordError (AuthLineage message))"

datatype outcome = Built live_receipt nat | Readied ready_spec ready_permit | InstalledAt nat | FirstDone

definition fail_lineage :: "nat \<Rightarrow> ('m, 'k) world \<Rightarrow> ('m, 'k) world" where
  "fail_lineage i = on_lineage i (\<lambda>l. l\<lparr>ln_state := LineageFailed\<rparr>)"

definition on_artifact :: "nat option \<Rightarrow> ('m artifact_cell \<Rightarrow> 'm artifact_cell) \<Rightarrow> ('m, 'k) world \<Rightarrow> ('m, 'k) world" where
  "on_artifact p f w = (case p of None \<Rightarrow> w | Some j \<Rightarrow> w\<lparr>wd_artifacts := (wd_artifacts w)[j := f (wd_artifacts w ! j)]\<rparr>)"

definition clear_artifact :: "'m artifact_cell \<Rightarrow> 'm artifact_cell" where
  "clear_artifact c = c\<lparr>ac_available := False, ac_stc := [], ac_cts := [], ac_records := zero_records\<rparr>"

section \<open>BeginBuild\<close>

record ('p, 'm) build_hooks =
  bh_build :: "'p \<Rightarrow> digest \<Rightarrow> (string, 'm build_product) res"
  bh_validate :: "'m build_product \<Rightarrow> 'p \<Rightarrow> (string, unit) res"

definition build_product_is_zero :: "'m build_product \<Rightarrow> bool" where
  "build_product_is_zero b \<longleftrightarrow> bd_stc b = [] \<and> bd_cts b = [] \<and> bd_records b = zero_records \<and> bd_receipt b = zero_receipt \<and>
     bd_payload b = zero_payload"

definition validate_build_product ::
  "'m build_product \<Rightarrow> 'p \<Rightarrow> digest \<Rightarrow> digest \<Rightarrow> ('p, 'm) build_hooks \<Rightarrow> (build_error, unit) res" where
  "validate_build_product b prepared permit_identity prepared_identity hooks =
     (if build_product_is_zero b then lineage_error ''private Route-B artifact build product is empty''
      else and_then (lib ''artifact product validator'' (bh_validate hooks b prepared)) (\<lambda>_.
        and_then (record_res (validate_build_record_links (bd_records b) permit_identity prepared_identity)) (\<lambda>_.
        and_then (record_res (parse_build_receipt (bs_receipt (bd_records b)))) (\<lambda>parsed.
        if parsed \<noteq> bd_receipt b \<or> br_payload parsed \<noteq> bd_payload b \<or> br_permit parsed \<noteq> permit_identity \<or>
          br_prepared parsed \<noteq> prepared_identity \<or> br_manifest parsed \<noteq> sum256 (bs_pair (bd_records b))
        then lineage_error ''private Route-B artifact product differs from its linked receipt''
        else Inr ()))))"

definition finish_build ::
  "('p, 'm) build_hooks \<Rightarrow> nat \<Rightarrow> digest \<Rightarrow> 'p \<Rightarrow> digest \<Rightarrow> runtime_evidence \<Rightarrow> ('m, 'k) world \<Rightarrow>
   (build_error, outcome) res \<times> ('m, 'k) world" where
  "finish_build hooks i permit_identity prepared prepared_identity runtime w =
     (case recovered ''Route-B BeginBuild panicked''
        (and_then (lib ''build private Route-B artifact'' (bh_build hooks prepared permit_identity)) (\<lambda>b.
         and_then (validate_build_product b prepared permit_identity prepared_identity hooks) (\<lambda>_. Inr b))) of
        Inl e \<Rightarrow> (Inl e, fail_lineage i w)
      | Inr b \<Rightarrow>
          (Inr (Built \<lparr>rx_report = bd_receipt b, rx_records = bd_records b, rx_runtime = runtime, rx_lineage = Some i\<rparr>
             (length (wd_artifacts w))),
           on_lineage i (\<lambda>l. l\<lparr>ln_receipt := sum256 (bs_receipt (bd_records b)),
               ln_manifest := sum256 (bs_pair (bd_records b)), ln_payload := bd_payload b,
               ln_state := PrivateUninstalled\<rparr>)
             (w\<lparr>wd_artifacts := wd_artifacts w @ [\<lparr>ac_lineage = Some i, ac_available = True, ac_stc = bd_stc b,
               ac_cts = bd_cts b, ac_records = bd_records b\<rparr>]\<rparr>)))"

section \<open>AuthorizeReady\<close>

type_synonym ('p, 'm) resident_validator =
  "'m artifact_cell \<Rightarrow> live_receipt \<Rightarrow> 'p \<Rightarrow> (string, actual_payload \<times> digest) res"

definition ready_spec_of ::
  "capacity_evidence \<Rightarrow> digest \<Rightarrow> lineage \<Rightarrow> digest \<Rightarrow> digest \<Rightarrow> digest \<Rightarrow> actual_payload \<Rightarrow> ready_spec" where
  "ready_spec_of e prepared_identity l permit_identity receipt_identity pair_identity payload =
     \<lparr>rs_classification = \<lparr>cl_adaptation_label = adaptation_label, cl_evidence_scope = ready_evidence_scope,
        cl_maturity = rbauth_maturity, cl_source_faithful = False, cl_full_packed = False\<rparr>,
      rs_capacity = ce_binding e, rs_prepared = prepared_identity, rs_build_spec = ln_build_spec l,
      rs_build_permit = permit_identity, rs_build_receipt = receipt_identity, rs_pair_manifest = pair_identity,
      rs_payload = payload, rs_artifact_state = private_uninstalled_state\<rparr>"

definition ready_records ::
  "(byte \<Rightarrow> (string, 'q capacity_plan) res) \<Rightarrow> build_permit \<Rightarrow> live_receipt \<Rightarrow> nat option \<Rightarrow> ('p, 'm) resident_validator \<Rightarrow>
   nat \<Rightarrow> digest \<Rightarrow> 'p \<Rightarrow> digest \<Rightarrow> capacity_evidence \<Rightarrow> ('m, 'k) world \<Rightarrow>
   (build_error, ready_permit_report \<times> digest \<times> digest) res" where
  "ready_records plans p r artifact validator i permit_identity prepared prepared_identity e w =
     (let l = wd_lineages w ! i in
      and_then (record_res (marshal_live_receipt plans w r)) (\<lambda>receipt_record.
      and_then (case cell_at (wd_artifacts w) artifact of
          None \<Rightarrow> Inl Panic
        | Some c \<Rightarrow> lib ''validate resident Route-B artifact for Ready'' (validator c r prepared)) (\<lambda>(payload, pair_identity).
      if payload \<noteq> ln_payload l \<or> pair_identity \<noteq> ln_manifest l \<or> br_payload (rx_report r) \<noteq> payload \<or>
        br_manifest (rx_report r) \<noteq> pair_identity
      then lineage_error ''resident Route-B artifact differs from its private anchors''
      else and_then (record_res (marshal_build_spec (bm_spec (bx_report p)))) (\<lambda>build_spec_record.
        and_then (record_res (marshal_build_permit (bx_report p))) (\<lambda>build_permit_record.
        if sum256 receipt_record \<noteq> ln_receipt l
        then lineage_error ''Ready build-receipt identity differs from its private anchor''
        else let spec = ready_spec_of e prepared_identity l permit_identity (sum256 receipt_record) pair_identity payload in
          and_then (record_res (ready_spec_frozen spec)) (\<lambda>_.
          and_then (record_res (validate_links spec build_spec_record build_permit_record receipt_record
            (bs_pair (rx_records r)))) (\<lambda>_.
          and_then (record_res (marshal_ready_spec spec)) (\<lambda>spec_record.
          and_then (record_res (record_identity spec_record)) (\<lambda>spec_identity.
          let report = \<lparr>rm_spec_digest = spec_identity, rm_spec = spec\<rparr> in
          and_then (record_res (ready_permit_frozen report)) (\<lambda>_.
          and_then (record_res (marshal_ready_permit report)) (\<lambda>ready_record.
          and_then (record_res (record_identity ready_record)) (\<lambda>ready_identity.
          Inr (report, spec_identity, ready_identity)))))))))))))"

definition finish_ready ::
  "(byte \<Rightarrow> (string, 'q capacity_plan) res) \<Rightarrow> build_permit \<Rightarrow> live_receipt \<Rightarrow> nat option \<Rightarrow> ('p, 'm) resident_validator \<Rightarrow>
   nat \<Rightarrow> digest \<Rightarrow> 'p \<Rightarrow> digest \<Rightarrow> capacity_evidence \<Rightarrow> runtime_evidence \<Rightarrow> ('m, 'k) world \<Rightarrow>
   (build_error, outcome) res \<times> ('m, 'k) world" where
  "finish_ready plans p r artifact validator i permit_identity prepared prepared_identity e runtime w =
     (case recovered ''Route-B AuthorizeReady panicked''
        (ready_records plans p r artifact validator i permit_identity prepared prepared_identity e w) of
        Inl f \<Rightarrow> (Inl f, on_artifact artifact clear_artifact (fail_lineage i w))
      | Inr (report, spec_identity, ready_identity) \<Rightarrow>
          (Inr (Readied (rm_spec report) \<lparr>yx_report = report, yx_runtime = runtime, yx_lineage = Some i\<rparr>),
           on_lineage i (\<lambda>l. l\<lparr>ln_ready_spec := spec_identity, ln_ready_permit := ready_identity, ln_state := ReadyState\<rparr>) w))"

section \<open>Install\<close>

text \<open>
  What the assembler of the evaluator answers and leaves behind: its result, whether the key donor is
  still there, and the matrices it left in the artifact cell.
\<close>

record ('m, 'k) assembly =
  as_result :: "(string, 'k option) res"
  as_donor_left :: bool
  as_stc :: "'m list"
  as_cts :: "'m list"

record ('p, 'm, 'k) install_hooks =
  ih_resident :: "('p, 'm) resident_validator"
  ih_keys :: "'p \<Rightarrow> (string, bool) res"
  ih_assemble :: "'p \<Rightarrow> 'm artifact_cell \<Rightarrow> ('m, 'k) assembly"
  ih_installed :: "'k \<Rightarrow> 'p \<Rightarrow> (string, unit) res"
  ih_before :: construction_counters
  ih_after :: construction_counters

definition resident_matches ::
  "(byte \<Rightarrow> (string, 'q capacity_plan) res) \<Rightarrow> ready_permit \<Rightarrow> live_receipt \<Rightarrow> 'm artifact_cell \<Rightarrow> ('p, 'm, 'k) install_hooks \<Rightarrow>
   lineage \<Rightarrow> 'p \<Rightarrow> ('m, 'k) world \<Rightarrow> (build_error, unit) res" where
  "resident_matches plans p r c hooks l prepared w =
     and_then (record_res (marshal_live_receipt plans w r)) (\<lambda>_.
     and_then (lib ''validate resident Route-B artifact for Install'' (ih_resident hooks c r prepared)) (\<lambda>(payload, pair_identity).
     let spec = rm_spec (yx_report p) in
     if payload \<noteq> ln_payload l \<or> payload \<noteq> rs_payload spec \<or> pair_identity \<noteq> ln_manifest l \<or>
       pair_identity \<noteq> rs_pair_manifest spec
     then lineage_error ''install-time resident artifact differs from the Ready anchors''
     else Inr ()))"

definition assemble_evaluator ::
  "('p, 'm, 'k) install_hooks \<Rightarrow> 'm artifact_cell \<Rightarrow> 'p \<Rightarrow> (build_error, 'k) res" where
  "assemble_evaluator hooks c prepared =
     and_then (lib ''generate Route-B evaluation keys'' (ih_keys hooks prepared)) (\<lambda>has_keys.
     if \<not> has_keys then lineage_error ''Route-B evaluation-key generator returned nil''
     else let built = ih_assemble hooks prepared c in
       and_then (lib ''assemble prebuilt Route-B evaluator'' (as_result built)) (\<lambda>evaluator.
       if as_donor_left built then lineage_error ''prebuilt evaluator assembler did not consume its key donor''
       else case evaluator of
         None \<Rightarrow> lineage_error ''prebuilt Route-B assembler returned a nil evaluator''
       | Some k \<Rightarrow>
           if as_stc built \<noteq> [] \<or> as_cts built \<noteq> []
           then lineage_error ''prebuilt Route-B assembler retained a matrix donor''
           else and_then (lib ''validate installed Route-B evaluator'' (ih_installed hooks k prepared)) (\<lambda>_. Inr k)))"

definition construction_idle :: "('p, 'm, 'k) install_hooks \<Rightarrow> (build_error, unit) res" where
  "construction_idle hooks =
     and_then (map_err LibraryError (counter_delta (ih_after hooks) (ih_before hooks))) (\<lambda>delta.
     if cc_default_whole delta \<noteq> 0 \<or> cc_explicit_whole delta \<noteq> 0 \<or> cc_raw_numeric delta \<noteq> 0 \<or> cc_observed_streaming delta \<noteq> 0
     then err (RecordError (DftBlocked ''Route-B install construction delta differs'')) else Inr ())"

text \<open>
  The construction guard is looked at in the deferred function, so it also rejects an evaluator that was
  already assembled; the joined error is the first one.
\<close>

definition install_evaluator ::
  "(byte \<Rightarrow> (string, 'q capacity_plan) res) \<Rightarrow> ready_permit \<Rightarrow> live_receipt \<Rightarrow> nat option \<Rightarrow> ('p, 'm, 'k) install_hooks \<Rightarrow>
   nat \<Rightarrow> 'p \<Rightarrow> ('m, 'k) world \<Rightarrow> (build_error, 'k) res" where
  "install_evaluator plans p r artifact hooks i prepared w =
     (case cell_at (wd_artifacts w) artifact of
        None \<Rightarrow> err (LibraryError ''Route-B Install panicked'')
      | Some c \<Rightarrow>
          and_then (recovered ''Route-B Install panicked''
            (resident_matches plans p r c hooks (wd_lineages w ! i) prepared w)) (\<lambda>_.
          and_then (recovered ''Route-B Install panicked'' (assemble_evaluator hooks c prepared)) (\<lambda>k.
          and_then (construction_idle hooks) (\<lambda>_. Inr k))))"

definition finish_install ::
  "(byte \<Rightarrow> (string, 'q capacity_plan) res) \<Rightarrow> ready_permit \<Rightarrow> live_receipt \<Rightarrow> nat option \<Rightarrow> ('p, 'm, 'k) install_hooks \<Rightarrow>
   nat \<Rightarrow> 'p \<Rightarrow> runtime_evidence \<Rightarrow> ('m, 'k) world \<Rightarrow> (build_error, outcome) res \<times> ('m, 'k) world" where
  "finish_install plans p r artifact hooks i prepared runtime w =
     (case install_evaluator plans p r artifact hooks i prepared w of
        Inl e \<Rightarrow> (Inl e, on_artifact artifact clear_artifact (fail_lineage i w))
      | Inr k \<Rightarrow>
          (Inr (InstalledAt (length (wd_installed w))),
           on_lineage i (\<lambda>l. l\<lparr>ln_state := InstalledUnverified\<rparr>)
             (on_artifact artifact clear_artifact
               (w\<lparr>wd_installed := wd_installed w @ [\<lparr>ic_lineage = Some i, ic_available = True, ic_evaluator = Some k,
                 ic_receipt = rx_report r, ic_records = rx_records r, ic_ready = yx_report p, ic_install = runtime,
                 ic_prepared_a2b = False\<rparr>]\<rparr>))))"

section \<open>The first operation\<close>

text \<open>
  The runner answers whether it returned a ciphertext and whether it left a prepared A2B circuit in the
  cell; the report it is turned into is checked against fixed expectations.
\<close>

record ('p, 'k) first_hooks =
  fh_gate :: byte
  fh_operation :: string
  fh_resident :: "'k installed_cell \<Rightarrow> 'p \<Rightarrow> (string, actual_payload \<times> digest) res"
  fh_installed :: "'k option \<Rightarrow> 'p \<Rightarrow> (string, unit) res"
  fh_run :: "'k option \<Rightarrow> (string, bool \<times> bool) res"
  fh_report :: "(string, unit) res"

definition validate_first_gate :: "('p, 'k) first_hooks \<Rightarrow> (record_error, unit) res" where
  "validate_first_gate hooks =
     (if gate_for_operation (fh_operation hooks) \<noteq> Inr (fh_gate hooks) \<or>
        fh_operation hooks \<notin> {op_preflight, op_a2b_first_round, op_a2b_full, op_root_tree, op_node_batch, op_selected_child,
          op_radix4_node}
      then err (AuthLineage ''first-operation capacity gate and runtime operation disagree'') else Inr ())"

definition clear_installed :: "'k installed_cell \<Rightarrow> 'k installed_cell" where
  "clear_installed c = c\<lparr>ic_available := False, ic_evaluator := None, ic_records := zero_records, ic_prepared_a2b := False\<rparr>"

definition on_installed :: "nat option \<Rightarrow> ('k installed_cell \<Rightarrow> 'k installed_cell) \<Rightarrow> ('m, 'k) world \<Rightarrow> ('m, 'k) world" where
  "on_installed p f w = (case p of None \<Rightarrow> w | Some j \<Rightarrow> w\<lparr>wd_installed := (wd_installed w)[j := f (wd_installed w ! j)]\<rparr>)"

definition first_run :: "('p, 'k) first_hooks \<Rightarrow> 'k installed_cell \<Rightarrow> lineage \<Rightarrow> 'p \<Rightarrow> (build_error, bool) res" where
  "first_run hooks c l prepared =
     and_then (lib ''preflight installed Route-B artifact'' (fh_resident hooks c prepared)) (\<lambda>(payload, pair_identity).
     let spec = rm_spec (ic_ready c) in
     if payload \<noteq> ln_payload l \<or> payload \<noteq> rs_payload spec \<or> pair_identity \<noteq> ln_manifest l \<or>
       pair_identity \<noteq> rs_pair_manifest spec
     then lineage_error ''installed-resident artifact differs from the Ready anchors''
     else and_then (lib ''validate installed evaluator before first HE'' (fh_installed hooks (ic_evaluator c) prepared)) (\<lambda>_.
       and_then (lib ''execute first sparse MR0'' (fh_run hooks (ic_evaluator c))) (\<lambda>(has_output, prepared_a2b).
       if \<not> has_output then lineage_error ''first sparse MR0 returned nil output''
       else and_then (lib ''first-operation report'' (fh_report hooks)) (\<lambda>_. Inr prepared_a2b))))"

definition finish_first ::
  "('p, 'k) first_hooks \<Rightarrow> nat option \<Rightarrow> nat \<Rightarrow> 'p \<Rightarrow> ('m, 'k) world \<Rightarrow> (build_error, outcome) res \<times> ('m, 'k) world" where
  "finish_first hooks installed i prepared w =
     (case recovered ''Route-B first sparse MR0 panicked''
        (case cell_at (wd_installed w) installed of
           None \<Rightarrow> Inl Panic
         | Some c \<Rightarrow> first_run hooks c (wd_lineages w ! i) prepared) of
        Inl e \<Rightarrow> (Inl e, on_installed installed clear_installed (fail_lineage i w))
      | Inr prepared_a2b \<Rightarrow>
          (Inr FirstDone,
           on_lineage i (\<lambda>l. l\<lparr>ln_state := Operational\<rparr>)
             (on_installed installed (\<lambda>c. c\<lparr>ic_prepared_a2b := ic_prepared_a2b c \<or> prepared_a2b\<rparr>) w)))"

section \<open>The stages of an operation\<close>

datatype ('p, 'm, 'k) operation =
  BeginBuild build_permit "('p, 'm) build_hooks"
| AuthorizeReady build_permit live_receipt "nat option" "('p, 'm) resident_validator"
| Install ready_permit live_receipt "nat option" bool "('p, 'm, 'k) install_hooks"
| FirstOperation "nat option" bool "('p, 'k) first_hooks"

fun op_gate :: "('p, 'm, 'k) operation \<Rightarrow> byte" where
  "op_gate (BeginBuild p h) = gate_begin_build"
| "op_gate (AuthorizeReady p r a v) = gate_authorize_ready"
| "op_gate (Install y r a k h) = gate_install"
| "op_gate (FirstOperation c x h) = fh_gate h"

fun op_name :: "('p, 'm, 'k) operation \<Rightarrow> string" where
  "op_name (BeginBuild p h) = op_begin_build"
| "op_name (AuthorizeReady p r a v) = op_authorize_ready"
| "op_name (Install y r a k h) = op_install"
| "op_name (FirstOperation c x h) = fh_operation h"

text \<open>The state an operation starts from, the state it holds the lineage in, the state it publishes.\<close>

fun op_from :: "('p, 'm, 'k) operation \<Rightarrow> lineage_state" where
  "op_from (BeginBuild p h) = Authorized"
| "op_from (AuthorizeReady p r a v) = PrivateUninstalled"
| "op_from (Install y r a k h) = ReadyState"
| "op_from (FirstOperation c x h) = InstalledUnverified"

fun op_via :: "('p, 'm, 'k) operation \<Rightarrow> lineage_state" where
  "op_via (BeginBuild p h) = Building"
| "op_via (AuthorizeReady p r a v) = Readying"
| "op_via (Install y r a k h) = Installing"
| "op_via (FirstOperation c x h) = Preflighting"

fun validate_operation ::
  "(byte \<Rightarrow> (string, 'q capacity_plan) res) \<Rightarrow> ('p, 'm, 'k) operation \<Rightarrow> ('m, 'k) world \<Rightarrow> (record_error, nat \<times> digest) res" where
  "validate_operation plans (BeginBuild p h) w = validate_permit_before_use w p"
| "validate_operation plans (AuthorizeReady p r a v) w = validate_ready_inputs w p r a"
| "validate_operation plans (Install y r a k h) w = validate_install_inputs plans w y r a k"
| "validate_operation plans (FirstOperation c x h) w =
     and_then (validate_first_gate h) (\<lambda>_. validate_first_inputs plans w c x)"

definition transform_identity_hex :: "string list" where
  "transform_identity_hex =
     [''b6468918cbd2c3f8ca76d22cb000bfe0c970c4d1932bbb9bcc27b03baa5fdcbb'',
      ''ca2fd7688b462df6336d04bdbf0e324723e490fc7afa7808822df3e10a7681ff'',
      ''85ee70d5fd49463fcd46ed37f5ab9ccc511e766bf5e73adbf60ea019dd3b8655'',
      ''58b7bebf46c178efaf34a42a723ebfa05ad770a948ed8efa607b7161871650d0'',
      ''b97fff2a1a6c730a827dd18200038af9c3e13c1b2db556dd2e75cd45bd40d3c7'',
      ''2280bfc7e749da1ebfb2d673e165cde835daa0dd3c2a512cb0689eb583484c6a'',
      ''527bec38d2a4582d9d40592ec0b529fdbeadbadfb99bcd8872952a47db1cdb6e'',
      ''db13c608527e9be98ce64dd5614cfff68b35f28c976e49dec8abdfae9a7f7840'']"

definition validate_transform_identities :: "transform_digests \<Rightarrow> (record_error, unit) res" where
  "validate_transform_identities v =
     (if map (\<lambda>d. hex_string (wr_digest d)) (transform_digest_list v) \<noteq> transform_identity_hex
      then err (PlainError ''canonical Route-B transform identity changed'') else Inr ())"

fun check_preparation ::
  "('p, 'm, 'k) operation \<Rightarrow> ('m, 'k) world \<Rightarrow> digest \<Rightarrow> transform_digests \<Rightarrow> (record_error, unit) res" where
  "check_preparation (BeginBuild p h) w d t =
     reject_if (d \<noteq> bp_prepared (bm_spec (bx_report p)) \<or> t \<noteq> bp_transforms (bm_spec (bx_report p)))
       (AuthLineage ''build-use preparation differs from the authorized specification'')"
| "check_preparation (AuthorizeReady p r a v) w d t =
     reject_if (d \<noteq> bp_prepared (bm_spec (bx_report p)) \<or> t \<noteq> bp_transforms (bm_spec (bx_report p)))
       (AuthLineage ''ready-use preparation differs from the authorized specification'')"
| "check_preparation (Install y r a k h) w d t =
     (if d \<noteq> rs_prepared (rm_spec (yx_report y)) \<or> d \<noteq> br_prepared (rx_report r)
      then err (AuthLineage ''install-use preparation differs from the ready lineage'')
      else validate_transform_identities t)"
| "check_preparation (FirstOperation c x h) w d t =
     (case cell_at (wd_installed w) c of
        None \<Rightarrow> Inl Panic
      | Some cell \<Rightarrow>
          if d \<noteq> rs_prepared (rm_spec (ic_ready cell)) \<or> d \<noteq> br_prepared (ic_receipt cell)
          then err (AuthLineage ''first-operation preparation differs from the installed lineage'')
          else validate_transform_identities t)"

text \<open>The anchor of the lineage that records the capacity evidence of the operation.\<close>

fun record_use :: "('p, 'm, 'k) operation \<Rightarrow> digest \<Rightarrow> lineage \<Rightarrow> lineage" where
  "record_use (BeginBuild p h) d l = l\<lparr>ln_build_use := d\<rparr>"
| "record_use (AuthorizeReady p r a v) d l = l\<lparr>ln_ready_use := d\<rparr>"
| "record_use (Install y r a k h) d l = l\<lparr>ln_install_use := d\<rparr>"
| "record_use (FirstOperation c x h) d l = l\<lparr>ln_preflight_use := d\<rparr>"

fun finish_operation ::
  "(byte \<Rightarrow> (string, 'q capacity_plan) res) \<Rightarrow> ('p, 'm, 'k) operation \<Rightarrow> nat \<Rightarrow> digest \<Rightarrow> 'p \<Rightarrow> digest \<Rightarrow> capacity_evidence \<Rightarrow>
   runtime_evidence \<Rightarrow> ('m, 'k) world \<Rightarrow> (build_error, outcome) res \<times> ('m, 'k) world" where
  "finish_operation plans (BeginBuild p h) i identity prepared d e runtime w = finish_build h i identity prepared d runtime w"
| "finish_operation plans (AuthorizeReady p r a v) i identity prepared d e runtime w =
     finish_ready plans p r a v i identity prepared d e runtime w"
| "finish_operation plans (Install y r a k h) i identity prepared d e runtime w = finish_install plans y r a h i prepared runtime w"
| "finish_operation plans (FirstOperation c x h) i identity prepared d e runtime w = finish_first h c i prepared w"

text \<open>
  The program points of an operation: before its first validation, after it, after the sample, after the
  preparation, admitted, winner of the transition, after the store of the generation, returned.

  The lineage and its identity are those the second validation returns. BeginBuild and AuthorizeReady use
  the result of the first one, which is the same: both read it off the permit (lemma
  \<^verbatim>\<open>permit_use_stable\<close>).
\<close>

datatype 'p stage =
  Starting
| Validated
| Sampled capacity_evidence
| Prepared capacity_evidence 'p digest transform_digests
| Admitted nat digest capacity_evidence 'p digest runtime_evidence
| Winner nat digest capacity_evidence 'p digest runtime_evidence
| Marked nat digest capacity_evidence 'p digest runtime_evidence
| Returned "(build_error, outcome) res"

definition admit ::
  "(byte \<Rightarrow> (string, 'q capacity_plan) res) \<Rightarrow> ('p, 'm, 'k) operation \<Rightarrow> capacity_evidence \<Rightarrow> digest \<Rightarrow>
   transform_digests \<Rightarrow> ('m, 'k) world \<Rightarrow> (record_error, nat \<times> digest \<times> runtime_evidence) res" where
  "admit plans op e d t w =
     and_then (check_preparation op w d t) (\<lambda>_.
     and_then (validate_operation plans op w) (\<lambda>(i, identity).
     if ce_generation e \<le> ln_last (wd_lineages w ! i)
     then err (AuthLineage ''capacity generation is not newer than the lineage'')
     else let runtime = new_runtime_evidence (op_name op) e identity in
       and_then (validate_runtime plans runtime) (\<lambda>_. Inr (i, identity, runtime))))"

fun stage_step ::
  "(byte \<Rightarrow> (string, 'q capacity_plan) res) \<Rightarrow> 'p gate_environment \<Rightarrow> ('p, 'm, 'k) operation \<Rightarrow> 'p stage \<Rightarrow> ('m, 'k) world \<Rightarrow>
   'p stage \<times> ('m, 'k) world" where
  "stage_step plans env op Starting w =
     (case validate_operation plans op w of
        Inl e \<Rightarrow> (Returned (record_res (Inl e)), w)
      | Inr _ \<Rightarrow> (Validated, w))"
| "stage_step plans env op Validated w =
     (case sample_capacity plans (op_gate op) (en_sample env) (en_now env) (wd_authority w) of
        (Inl e, a) \<Rightarrow> (Returned (record_res (Inl e)), w\<lparr>wd_authority := a\<rparr>)
      | (Inr e, a) \<Rightarrow> (Sampled e, w\<lparr>wd_authority := a\<rparr>))"
| "stage_step plans env op (Sampled e) w =
     (case prepare_stored ''prepare stored Route-B parameters'' env (wd_authority w) of
        (Inl f, a) \<Rightarrow> (Returned (record_res (Inl f)), w\<lparr>wd_authority := a\<rparr>)
      | (Inr (prepared, d, t), a) \<Rightarrow> (Prepared e prepared d t, w\<lparr>wd_authority := a\<rparr>))"
| "stage_step plans env op (Prepared e prepared d t) w =
     (case admit plans op e d t w of
        Inl f \<Rightarrow> (Returned (record_res (Inl f)), w)
      | Inr (i, identity, runtime) \<Rightarrow> (Admitted i identity e prepared d runtime, w))"
| "stage_step plans env op (Admitted i identity e prepared d runtime) w =
     (if ln_state (wd_lineages w ! i) \<noteq> op_from op
      then (Returned (lineage_error ''lineage is no longer in the expected state''), w)
      else (Winner i identity e prepared d runtime, on_lineage i (\<lambda>l. l\<lparr>ln_state := op_via op\<rparr>) w))"
| "stage_step plans env op (Winner i identity e prepared d runtime) w =
     (Marked i identity e prepared d runtime,
      on_lineage i (\<lambda>l. record_use op (re_digest runtime) (l\<lparr>ln_last := ce_generation e\<rparr>)) w)"
| "stage_step plans env op (Marked i identity e prepared d runtime) w =
     (case finish_operation plans op i identity prepared d e runtime w of (result, w) \<Rightarrow> (Returned result, w))"
| "stage_step plans env op (Returned result) w = (Returned result, w)"

lemma permit_use_stable:
  "validate_permit_canonical w p = Inr x \<Longrightarrow> validate_permit_canonical w' p = Inr y \<Longrightarrow> x = y"
  by (auto simp: validate_permit_canonical_def Let_def and_then_ok split: if_splits option.splits)

text \<open>An operation that runs alone.\<close>

fun run_stages ::
  "nat \<Rightarrow> (byte \<Rightarrow> (string, 'q capacity_plan) res) \<Rightarrow> 'p gate_environment \<Rightarrow> ('p, 'm, 'k) operation \<Rightarrow> 'p stage \<Rightarrow> ('m, 'k) world \<Rightarrow>
   'p stage \<times> ('m, 'k) world" where
  "run_stages 0 plans env op s w = (s, w)"
| "run_stages (Suc n) plans env op s w = (case stage_step plans env op s w of (s, w) \<Rightarrow> run_stages n plans env op s w)"

definition begin_build ::
  "(byte \<Rightarrow> (string, 'q capacity_plan) res) \<Rightarrow> ('p, 'm) build_hooks \<Rightarrow> 'p gate_environment \<Rightarrow> build_permit \<Rightarrow> ('m, 'k) world \<Rightarrow>
   'p stage \<times> ('m, 'k) world" where
  "begin_build plans hooks env p = run_stages 7 plans env (BeginBuild p hooks) Starting"

definition authorize_ready ::
  "(byte \<Rightarrow> (string, 'q capacity_plan) res) \<Rightarrow> ('p, 'm) resident_validator \<Rightarrow> 'p gate_environment \<Rightarrow> build_permit \<Rightarrow>
   live_receipt \<Rightarrow> nat option \<Rightarrow> ('m, 'k) world \<Rightarrow> 'p stage \<times> ('m, 'k) world" where
  "authorize_ready plans validator env p r artifact =
     run_stages 7 plans env (AuthorizeReady p r artifact validator) Starting"

definition install ::
  "(byte \<Rightarrow> (string, 'q capacity_plan) res) \<Rightarrow> ('p, 'm, 'k) install_hooks \<Rightarrow> 'p gate_environment \<Rightarrow> ready_permit \<Rightarrow>
   live_receipt \<Rightarrow> nat option \<Rightarrow> bool \<Rightarrow> ('m, 'k) world \<Rightarrow> 'p stage \<times> ('m, 'k) world" where
  "install plans hooks env y r artifact has_secret_key =
     run_stages 7 plans env (Install y r artifact has_secret_key hooks) Starting"

definition first_operation ::
  "(byte \<Rightarrow> (string, 'q capacity_plan) res) \<Rightarrow> ('p, 'k) first_hooks \<Rightarrow> 'p gate_environment \<Rightarrow> nat option \<Rightarrow> bool \<Rightarrow>
   ('m, 'k) world \<Rightarrow> 'p stage \<times> ('m, 'k) world" where
  "first_operation plans hooks env installed has_input =
     run_stages 7 plans env (FirstOperation installed has_input hooks) Starting"

end
