(* ===== verification/LineageRace.thy ===== *)
theory LineageRace
  imports LineageOps
begin

text \<open>
  Any number of goroutines on one authority: calls of AuthorizeBuild, BeginBuild, AuthorizeReady, Install
  and first operations whose atomic steps interleave in any order. A step is one access to the shared
  cells or one critical section of the authority's mutexes; the reads of one validation count as one.
  The mutex of an installed cell, held over a whole first operation, is left out, so the relation has
  more schedules than the source.
\<close>

section \<open>Minting in steps\<close>

datatype mint_stage =
  MintStarting
| MintSampled capacity_evidence
| MintPrepared capacity_evidence digest transform_digests
| MintReturned "(record_error, build_spec \<times> build_permit) res"

fun mint_step ::
  "(byte \<Rightarrow> (string, 'q capacity_plan) res) \<Rightarrow> 'p gate_environment \<Rightarrow> mint_stage \<Rightarrow> ('m, 'k) world \<Rightarrow>
   mint_stage \<times> ('m, 'k) world" where
  "mint_step plans env MintStarting w =
     (let a = wd_authority w in
      if au_owner a = 0 \<or> \<not> au_has_sampler a
      then (MintReturned (err (AuthLineage ''Authority is nil or uninitialized'')), w)
      else case sample_capacity plans gate_authorize_build (en_sample env) (en_now env) a of
        (Inl e, a) \<Rightarrow> (MintReturned (Inl e), w\<lparr>wd_authority := a\<rparr>)
      | (Inr e, a) \<Rightarrow> (MintSampled e, w\<lparr>wd_authority := a\<rparr>))"
| "mint_step plans env (MintSampled e) w =
     (case prepare_stored ''prepare stored Route-B parameters'' env (wd_authority w) of
        (Inl f, a) \<Rightarrow> (MintReturned (Inl f), w\<lparr>wd_authority := a\<rparr>)
      | (Inr (_, d, t), a) \<Rightarrow> (MintPrepared e d t, w\<lparr>wd_authority := a\<rparr>))"
| "mint_step plans env (MintPrepared e d t) w =
     (case mint_build_permit (wd_authority w) e d t of
        Inl f \<Rightarrow> (MintReturned (Inl f), w)
      | Inr (report, cell) \<Rightarrow>
          (MintReturned (Inr (bm_spec report, \<lparr>bx_report = report, bx_lineage = Some (length (wd_lineages w))\<rparr>)),
           w\<lparr>wd_lineages := wd_lineages w @ [cell]\<rparr>))"
| "mint_step plans env (MintReturned result) w = (MintReturned result, w)"

section \<open>Goroutines\<close>

text \<open>An operating goroutine remembers the lineage whose transition it has won.\<close>

datatype ('p, 'm, 'k) goroutine =
  Minting "'p gate_environment" mint_stage
| Operating "'p gate_environment" "('p, 'm, 'k) operation" "'p stage" "nat option"

record ('p, 'm, 'k) race =
  rc_world :: "('m, 'k) world"
  rc_threads :: "('p, 'm, 'k) goroutine list"

definition now_won :: "'p stage \<Rightarrow> nat option \<Rightarrow> nat option" where
  "now_won s won = (case s of Winner i identity e prepared d runtime \<Rightarrow> Some i | _ \<Rightarrow> won)"

fun goroutine_step ::
  "(byte \<Rightarrow> (string, 'q capacity_plan) res) \<Rightarrow> ('p, 'm, 'k) goroutine \<Rightarrow> ('m, 'k) world \<Rightarrow>
   ('p, 'm, 'k) goroutine \<times> ('m, 'k) world" where
  "goroutine_step plans (Minting env s) w = (case mint_step plans env s w of (s, w) \<Rightarrow> (Minting env s, w))"
| "goroutine_step plans (Operating env op s won) w =
     (case stage_step plans env op s w of (s, w) \<Rightarrow> (Operating env op s (now_won s won), w))"

fun has_returned :: "('p, 'm, 'k) goroutine \<Rightarrow> bool" where
  "has_returned (Minting env s) \<longleftrightarrow> (case s of MintReturned _ \<Rightarrow> True | _ \<Rightarrow> False)"
| "has_returned (Operating env op s won) \<longleftrightarrow> (case s of Returned _ \<Rightarrow> True | _ \<Rightarrow> False)"

inductive race_step ::
  "(byte \<Rightarrow> (string, 'q capacity_plan) res) \<Rightarrow> ('p, 'm, 'k) race \<Rightarrow> ('p, 'm, 'k) race \<Rightarrow> bool" for plans where
  move: "a < length (rc_threads s) \<Longrightarrow> \<not> has_returned (rc_threads s ! a) \<Longrightarrow>
     goroutine_step plans (rc_threads s ! a) (rc_world s) = (t, w) \<Longrightarrow>
     race_step plans s \<lparr>rc_world = w, rc_threads = (rc_threads s)[a := t]\<rparr>"

inductive_cases race_stepE: "race_step plans s s'"

section \<open>Where a race starts\<close>

definition transient :: "lineage_state \<Rightarrow> bool" where
  "transient st \<longleftrightarrow> st \<in> {Building, Readying, Installing, Preflighting}"

definition lineage_ok :: "64 word \<Rightarrow> lineage \<Rightarrow> bool" where
  "lineage_ok generation l \<longleftrightarrow> ln_mint l \<le> ln_last l \<and> ln_last l \<le> generation"

text \<open>
  A race is watched from any point at which no goroutine is between its transition and its return: every
  call is waiting to start, on its way to the transition, or back. What a call has already drawn or seen
  then still holds; in particular an admitted call found its lineage in the state it starts from, used
  last by an older generation, which is what \<^verbatim>\<open>admit\<close> checks.
\<close>

fun mint_drawn :: "64 word \<Rightarrow> mint_stage \<Rightarrow> bool" where
  "mint_drawn generation (MintSampled e) \<longleftrightarrow> ce_generation e \<le> generation"
| "mint_drawn generation (MintPrepared e d t) \<longleftrightarrow> ce_generation e \<le> generation"
| "mint_drawn generation s \<longleftrightarrow> True"

fun yet_to_win :: "('m, 'k) world \<Rightarrow> ('p, 'm, 'k) operation \<Rightarrow> 'p stage \<Rightarrow> bool" where
  "yet_to_win w op (Sampled e) \<longleftrightarrow> ce_generation e \<le> au_generation (wd_authority w)"
| "yet_to_win w op (Prepared e prepared d t) \<longleftrightarrow> ce_generation e \<le> au_generation (wd_authority w)"
| "yet_to_win w op (Admitted i identity e prepared d runtime) \<longleftrightarrow>
     ce_generation e \<le> au_generation (wd_authority w) \<and> i < length (wd_lineages w) \<and>
     ln_state (wd_lineages w ! i) = op_from op \<and> ln_last (wd_lineages w ! i) < ce_generation e"
| "yet_to_win w op (Winner i identity e prepared d runtime) \<longleftrightarrow> False"
| "yet_to_win w op (Marked i identity e prepared d runtime) \<longleftrightarrow> False"
| "yet_to_win w op s \<longleftrightarrow> True"

fun may_start :: "('m, 'k) world \<Rightarrow> ('p, 'm, 'k) goroutine \<Rightarrow> bool" where
  "may_start w (Minting env s) \<longleftrightarrow> mint_drawn (au_generation (wd_authority w)) s"
| "may_start w (Operating env op s won) \<longleftrightarrow> won = None \<and> yet_to_win w op s"

definition race_start :: "('p, 'm, 'k) race \<Rightarrow> bool" where
  "race_start s \<longleftrightarrow>
     list_all (\<lambda>l. lineage_ok (au_generation (wd_authority (rc_world s))) l \<and> \<not> transient (ln_state l)) (wd_lineages (rc_world s)) \<and>
     list_all (may_start (rc_world s)) (rc_threads s)"

inductive race_reachable :: "(byte \<Rightarrow> (string, 'q capacity_plan) res) \<Rightarrow> ('p, 'm, 'k) race \<Rightarrow> bool" for plans where
  start: "race_start s \<Longrightarrow> race_reachable plans s"
| step: "race_reachable plans s \<Longrightarrow> race_step plans s s' \<Longrightarrow> race_reachable plans s'"

section \<open>What a finishing operation may touch\<close>

fun op_published :: "('p, 'm, 'k) operation \<Rightarrow> lineage_state" where
  "op_published (BeginBuild p h) = PrivateUninstalled"
| "op_published (AuthorizeReady p r a v) = ReadyState"
| "op_published (Install y r a k h) = InstalledUnverified"
| "op_published (FirstOperation c x h) = Operational"

locale lineage_finish =
  fixes finish :: "nat \<Rightarrow> ('m, 'k) world \<Rightarrow> (build_error, outcome) res \<times> ('m, 'k) world"
    and published :: lineage_state
  assumes same_authority: "wd_authority (snd (finish i w)) = wd_authority w"
    and touched: "\<exists>f. wd_lineages (snd (finish i w)) = (wd_lineages w)[i := f (wd_lineages w ! i)] \<and>
      (\<forall>l. ln_mint (f l) = ln_mint l \<and> ln_last (f l) = ln_last l \<and>
        ln_state (f l) = (if is_ok (fst (finish i w)) then published else LineageFailed))"
begin

lemma finish_length: "length (wd_lineages (snd (finish i w))) = length (wd_lineages w)"
  using touched [of i w] by auto

lemma finish_other: "j \<noteq> i \<Longrightarrow> wd_lineages (snd (finish i w)) ! j = wd_lineages w ! j"
  using touched [of i w] by auto

lemma finish_own:
  assumes "i < length (wd_lineages w)"
  shows "ln_mint (wd_lineages (snd (finish i w)) ! i) = ln_mint (wd_lineages w ! i)"
    "ln_last (wd_lineages (snd (finish i w)) ! i) = ln_last (wd_lineages w ! i)"
    "ln_state (wd_lineages (snd (finish i w)) ! i) = (if is_ok (fst (finish i w)) then published else LineageFailed)"
  using touched [of i w] assms by auto

end

lemma cell_updates [simp]:
  "wd_lineages (on_artifact p f w) = wd_lineages w" "wd_authority (on_artifact p f w) = wd_authority w"
  "wd_lineages (on_installed p g w) = wd_lineages w" "wd_authority (on_installed p g w) = wd_authority w"
  "wd_authority (on_lineage i h w) = wd_authority w"
  "wd_lineages (on_lineage i h w) = (wd_lineages w)[i := h (wd_lineages w ! i)]"
  by (simp_all add: on_artifact_def on_installed_def on_lineage_def split: option.splits)

lemma touches:
  assumes "wd_lineages w' = (wd_lineages w)[i := f (wd_lineages w ! i)]"
    and "\<And>l. ln_mint (f l) = ln_mint l \<and> ln_last (f l) = ln_last l \<and> ln_state (f l) = st"
  shows "\<exists>f. wd_lineages w' = (wd_lineages w)[i := f (wd_lineages w ! i)] \<and>
      (\<forall>l. ln_mint (f l) = ln_mint l \<and> ln_last (f l) = ln_last l \<and> ln_state (f l) = st)"
  using assms by (intro exI [of _ f]) simp

interpretation building: lineage_finish "\<lambda>i. finish_build hooks i identity prepared d runtime" PrivateUninstalled
  for hooks identity prepared d runtime
  by unfold_locales
    (auto simp: finish_build_def fail_lineage_def split: sum.split intro!: touches)

interpretation readying: lineage_finish "\<lambda>i. finish_ready plans p r artifact validator i identity prepared d e runtime" ReadyState
  for plans p r artifact validator identity prepared d e runtime
  by unfold_locales
    (auto simp: finish_ready_def fail_lineage_def split: sum.split prod.split intro!: touches)

interpretation installing: lineage_finish "\<lambda>i. finish_install plans p r artifact hooks i prepared runtime" InstalledUnverified
  for plans p r artifact hooks prepared runtime
  by unfold_locales
    (auto simp: finish_install_def fail_lineage_def split: sum.split intro!: touches)

interpretation preflighting: lineage_finish "\<lambda>i. finish_first hooks installed i prepared" Operational
  for hooks installed prepared
  by unfold_locales
    (auto simp: finish_first_def fail_lineage_def split: sum.split intro!: touches)

lemma finish_operation_lineages:
  fixes op :: "('p, 'm, 'k) operation"
  assumes "finish_operation plans op i identity prepared d e runtime w = (result, w')"
  shows "wd_authority w' = wd_authority w" "length (wd_lineages w') = length (wd_lineages w)"
    "j \<noteq> i \<Longrightarrow> wd_lineages w' ! j = wd_lineages w ! j"
    "i < length (wd_lineages w) \<Longrightarrow> ln_mint (wd_lineages w' ! i) = ln_mint (wd_lineages w ! i)"
    "i < length (wd_lineages w) \<Longrightarrow> ln_last (wd_lineages w' ! i) = ln_last (wd_lineages w ! i)"
    "i < length (wd_lineages w) \<Longrightarrow>
       ln_state (wd_lineages w' ! i) = (if is_ok result then op_published op else LineageFailed)"
proof -
  have w': "w' = snd (finish_operation plans op i identity prepared d e runtime w)"
    and result: "result = fst (finish_operation plans op i identity prepared d e runtime w)"
    using assms by simp_all
  show "wd_authority w' = wd_authority w" "length (wd_lineages w') = length (wd_lineages w)"
    "j \<noteq> i \<Longrightarrow> wd_lineages w' ! j = wd_lineages w ! j"
    "i < length (wd_lineages w) \<Longrightarrow> ln_mint (wd_lineages w' ! i) = ln_mint (wd_lineages w ! i)"
    "i < length (wd_lineages w) \<Longrightarrow> ln_last (wd_lineages w' ! i) = ln_last (wd_lineages w ! i)"
    "i < length (wd_lineages w) \<Longrightarrow>
       ln_state (wd_lineages w' ! i) = (if is_ok result then op_published op else LineageFailed)"
    unfolding w' result
    by (cases op; simp add: building.same_authority building.finish_length building.finish_other building.finish_own
        readying.same_authority readying.finish_length readying.finish_other readying.finish_own
        installing.same_authority installing.finish_length installing.finish_other installing.finish_own
        preflighting.same_authority preflighting.finish_length preflighting.finish_other preflighting.finish_own)+
qed

end
