(* ===== verification/LineageProps.thy ===== *)
theory LineageProps
  imports LineageRace
begin

text \<open>
  Whatever the schedule: lineages move along their edges only, generations grow, one goroutine at most
  wins a transition, and no lineage is left in the middle of an operation.
\<close>

section \<open>One atomic step\<close>

lemma inc_generation:
  fixes g :: "64 word"
  assumes "g \<noteq> NOT 0"
  shows "g < g + 1"
proof -
  have "unat g \<noteq> 2 ^ 64 - 1"
  proof
    assume "unat g = 2 ^ 64 - 1"
    then have "word_of_nat (unat g) = (word_of_nat (2 ^ 64 - 1) :: 64 word)" by (rule arg_cong)
    then show False using assms by simp
  qed
  then have "unat g + 1 < 2 ^ 64" using unsigned_less [of g, where 'a = nat] by simp
  then have "unat (g + 1) = unat g + 1" by (simp add: unat_word_ariths)
  then show ?thesis by (simp add: word_less_nat_alt)
qed

lemma sample_generation:
  assumes "sample_capacity plans gate sample now a = (r, a')"
  shows "au_owner a' = au_owner a" "au_generation a \<le> au_generation a'" "r = Inr e \<Longrightarrow> ce_generation e = au_generation a'"
proof -
  have up: "au_generation a \<le> au_generation a + 1" if "au_generation a \<noteq> NOT 0"
    using inc_generation [OF that] by simp
  show "au_owner a' = au_owner a" "au_generation a \<le> au_generation a'" "r = Inr e \<Longrightarrow> ce_generation e = au_generation a'"
    using assms up by (auto simp: sample_capacity_def Let_def and_then_ok split: if_splits sum.splits prod.splits)
qed

lemma sample_newer:
  "sample_capacity plans gate sample now a = (r, a') \<Longrightarrow>
     au_generation a \<le> au_generation a' \<and> (\<forall>e. r = Inr e \<longrightarrow> ce_generation e = au_generation a')"
  by (cases r) (auto dest: sample_generation(2) sample_generation(3) [OF _ refl])

lemma prepare_authority:
  "prepare_stored context env a = (r, a') \<Longrightarrow> au_owner a' = au_owner a \<and> au_generation a' = au_generation a"
  by (auto simp: prepare_stored_def)

lemma mint_cell:
  "mint_build_permit a e d t = Inr (report, cell) \<Longrightarrow>
     ln_state cell = Authorized \<and> ln_mint cell = ce_generation e \<and> ln_last cell = ce_generation e"
  by (auto simp: mint_build_permit_def Let_def and_then_ok split: if_splits)

lemma cell_at_Some: "cell_at cells p = Some c \<longleftrightarrow> p \<noteq> None \<and> the p < length cells \<and> cells ! the p = c"
  by (auto simp: cell_at_def split: option.splits)

lemma validate_permit_lineage:
  "validate_permit_canonical w p = Inr (i, identity) \<Longrightarrow> i < length (wd_lineages w)"
  by (auto simp: validate_permit_canonical_def Let_def and_then_ok cell_at_Some split: if_splits option.splits)

lemma validate_operation_lineage:
  assumes "validate_operation plans op w = Inr (i, identity)"
  shows "i < length (wd_lineages w)" "ln_state (wd_lineages w ! i) = op_from op"
  using assms validate_permit_lineage
  by (cases op; force simp: validate_permit_before_use_def validate_ready_inputs_def validate_install_inputs_def
      validate_first_inputs_def Let_def and_then_ok cell_at_Some split: if_splits option.splits)+

lemma admit_lineage:
  assumes "admit plans op e d t w = Inr (i, identity, runtime)"
  shows "i < length (wd_lineages w)" "ln_state (wd_lineages w ! i) = op_from op" "ln_last (wd_lineages w ! i) < ce_generation e"
  using assms validate_operation_lineage
  by (auto simp: admit_def and_then_ok Let_def split: if_splits)

lemma admit_checked:
  "admit plans op e d t w = Inr (i, identity, runtime) \<Longrightarrow> i < length (wd_lineages w) \<and>
     ln_state (wd_lineages w ! i) = op_from op \<and> ln_last (wd_lineages w ! i) < ce_generation e"
  by (auto dest: admit_lineage)

section \<open>The order of the states\<close>

fun rank :: "lineage_state \<Rightarrow> nat" where
  "rank LineageZero = 0"
| "rank Authorized = 1"
| "rank Building = 2"
| "rank PrivateUninstalled = 3"
| "rank Readying = 4"
| "rank ReadyState = 5"
| "rank Installing = 6"
| "rank InstalledUnverified = 7"
| "rank Preflighting = 8"
| "rank Operational = 9"
| "rank LineageFailed = 10"

lemma rank_inject [simp]: "rank a = rank b \<longleftrightarrow> a = b"
  by (cases a; cases b; simp)

lemma rank_bound [simp]: "rank st \<le> 10"
  by (cases st) simp_all

lemma op_states [simp]:
  "transient (op_via op)" "\<not> transient (op_from op)" "\<not> transient (op_published op)" "\<not> transient LineageFailed"
  "rank (op_from op) < rank (op_via op)" "rank (op_via op) < rank (op_published op)" "rank (op_via op) < rank LineageFailed"
  by (cases op; simp add: transient_def)+

definition edge :: "lineage_state \<Rightarrow> lineage_state \<Rightarrow> bool" where
  "edge s t \<longleftrightarrow> (s, t) \<in> {(Authorized, Building), (PrivateUninstalled, Readying), (ReadyState, Installing),
     (InstalledUnverified, Preflighting), (Building, PrivateUninstalled), (Readying, ReadyState),
     (Installing, InstalledUnverified), (Preflighting, Operational)} \<or> transient s \<and> t = LineageFailed"

lemma op_edges [simp]:
  "edge (op_from op) (op_via op)" "edge (op_via op) (op_published op)" "edge (op_via op) LineageFailed"
  by (cases op; simp add: edge_def transient_def)+

lemma not_transient_Authorized [simp]: "\<not> transient Authorized"
  by (simp add: transient_def)

lemma edge_rank: "edge s t \<Longrightarrow> rank s < rank t"
  by (auto simp: edge_def transient_def)

section \<open>The invariant\<close>

text \<open>The lineage a goroutine holds between winning its transition and returning.\<close>

fun owns :: "('p, 'm, 'k) goroutine \<Rightarrow> nat option" where
  "owns (Minting env s) = None"
| "owns (Operating env op (Winner i identity e prepared d runtime) won) = Some i"
| "owns (Operating env op (Marked i identity e prepared d runtime) won) = Some i"
| "owns (Operating env op s won) = None"

fun wins :: "('p, 'm, 'k) goroutine \<Rightarrow> (lineage_state \<times> nat) option" where
  "wins (Minting env s) = None"
| "wins (Operating env op s won) = (case won of None \<Rightarrow> None | Some i \<Rightarrow> Some (op_via op, i))"

definition generation_of :: "('m, 'k) world \<Rightarrow> 64 word" where
  "generation_of w = au_generation (wd_authority w)"

fun mint_ok :: "('m, 'k) world \<Rightarrow> mint_stage \<Rightarrow> bool" where
  "mint_ok w (MintSampled e) \<longleftrightarrow> ce_generation e \<le> generation_of w"
| "mint_ok w (MintPrepared e d t) \<longleftrightarrow> ce_generation e \<le> generation_of w"
| "mint_ok w s \<longleftrightarrow> True"

fun stage_ok :: "('m, 'k) world \<Rightarrow> ('p, 'm, 'k) operation \<Rightarrow> 'p stage \<Rightarrow> bool" where
  "stage_ok w op (Sampled e) \<longleftrightarrow> ce_generation e \<le> generation_of w"
| "stage_ok w op (Prepared e prepared d t) \<longleftrightarrow> ce_generation e \<le> generation_of w"
| "stage_ok w op (Admitted i identity e prepared d runtime) \<longleftrightarrow>
     ce_generation e \<le> generation_of w \<and> i < length (wd_lineages w) \<and>
     rank (op_from op) \<le> rank (ln_state (wd_lineages w ! i)) \<and>
     (ln_state (wd_lineages w ! i) = op_from op \<longrightarrow> ln_last (wd_lineages w ! i) < ce_generation e)"
| "stage_ok w op (Winner i identity e prepared d runtime) \<longleftrightarrow>
     ce_generation e \<le> generation_of w \<and> i < length (wd_lineages w) \<and> ln_state (wd_lineages w ! i) = op_via op \<and>
     ln_last (wd_lineages w ! i) < ce_generation e"
| "stage_ok w op (Marked i identity e prepared d runtime) \<longleftrightarrow>
     i < length (wd_lineages w) \<and> ln_state (wd_lineages w ! i) = op_via op"
| "stage_ok w op s \<longleftrightarrow> True"

definition won_ok :: "('m, 'k) world \<Rightarrow> ('p, 'm, 'k) operation \<Rightarrow> nat option \<Rightarrow> bool" where
  "won_ok w op won \<longleftrightarrow> (case won of None \<Rightarrow> True
     | Some i \<Rightarrow> i < length (wd_lineages w) \<and> rank (op_via op) \<le> rank (ln_state (wd_lineages w ! i)))"

fun goroutine_ok :: "('m, 'k) world \<Rightarrow> ('p, 'm, 'k) goroutine \<Rightarrow> bool" where
  "goroutine_ok w (Minting env s) \<longleftrightarrow> mint_ok w s"
| "goroutine_ok w (Operating env op s won) \<longleftrightarrow>
     stage_ok w op s \<and> won_ok w op won \<and> (\<forall>i. owns (Operating env op s won) = Some i \<longrightarrow> won = Some i)"

text \<open>What a step that owns or wins lineage i at most does to the world.\<close>

definition effect :: "nat \<Rightarrow> ('m, 'k) world \<Rightarrow> ('m, 'k) world \<Rightarrow> bool" where
  "effect i w w' \<longleftrightarrow> generation_of w \<le> generation_of w' \<and> length (wd_lineages w) \<le> length (wd_lineages w') \<and>
     (\<forall>j < length (wd_lineages w).
        (j \<noteq> i \<longrightarrow> wd_lineages w' ! j = wd_lineages w ! j) \<and>
        ln_mint (wd_lineages w' ! j) = ln_mint (wd_lineages w ! j) \<and>
        (ln_state (wd_lineages w' ! j) = ln_state (wd_lineages w ! j) \<or>
          edge (ln_state (wd_lineages w ! j)) (ln_state (wd_lineages w' ! j))) \<and>
        ln_last (wd_lineages w ! j) \<le> ln_last (wd_lineages w' ! j) \<and>
        (ln_last (wd_lineages w' ! j) = ln_last (wd_lineages w ! j) \<or> transient (ln_state (wd_lineages w ! j))))"

lemma effect_rank:
  "effect i w w' \<Longrightarrow> j < length (wd_lineages w) \<Longrightarrow>
     rank (ln_state (wd_lineages w ! j)) \<le> rank (ln_state (wd_lineages w' ! j))"
  using edge_rank by (fastforce simp: effect_def)

lemma stage_ok_stable:
  assumes "effect i w w'" and "owns (Operating env op s won) \<noteq> Some i" and "stage_ok w op s"
  shows "stage_ok w' op s"
proof (cases s)
  case (Admitted j identity e prepared d runtime)
  have j: "j < length (wd_lineages w)" using assms(3) Admitted by simp
  have "ln_last (wd_lineages w' ! j) < ce_generation e" if "ln_state (wd_lineages w' ! j) = op_from op"
  proof -
    have "rank (ln_state (wd_lineages w ! j)) = rank (op_from op)"
      using effect_rank [OF assms(1) j] assms(3) Admitted that by (intro order_antisym) auto
    then have "ln_state (wd_lineages w ! j) = op_from op" by simp
    then show ?thesis using assms(1,3) Admitted j by (auto simp: effect_def)
  qed
  then show ?thesis using assms(1,3) Admitted j effect_rank [OF assms(1) j]
    by (auto simp: effect_def intro: order_trans)
qed (use assms in \<open>auto simp: effect_def intro: order_trans\<close>)

lemma effect_length: "effect i w w' \<Longrightarrow> length (wd_lineages w) \<le> length (wd_lineages w')"
  by (simp add: effect_def)

lemma won_ok_stable:
  assumes "effect i w w'" and "won_ok w op won"
  shows "won_ok w' op won"
proof (cases won)
  case (Some j)
  then have "j < length (wd_lineages w)" using assms(2) by (simp add: won_ok_def)
  then show ?thesis
    using Some assms(2) effect_rank [OF assms(1)] effect_length [OF assms(1)] order_trans
    by (fastforce simp: won_ok_def)
qed (simp add: won_ok_def)

lemma goroutine_ok_stable:
  assumes "effect i w w'" and "owns g \<noteq> Some i" and "goroutine_ok w g"
  shows "goroutine_ok w' g"
proof (cases g)
  case (Minting env s)
  then show ?thesis using assms by (cases s) (auto simp: effect_def intro: order_trans)
next
  case (Operating env op s won)
  then show ?thesis using assms stage_ok_stable won_ok_stable by auto
qed

definition world_ok :: "('m, 'k) world \<Rightarrow> bool" where
  "world_ok w \<longleftrightarrow> (\<forall>j < length (wd_lineages w). lineage_ok (generation_of w) (wd_lineages w ! j))"

definition race_ok :: "('p, 'm, 'k) race \<Rightarrow> bool" where
  "race_ok s \<longleftrightarrow> world_ok (rc_world s) \<and>
     (\<forall>a < length (rc_threads s). goroutine_ok (rc_world s) (rc_threads s ! a)) \<and>
     (\<forall>a < length (rc_threads s). \<forall>b < length (rc_threads s).
        wins (rc_threads s ! a) \<noteq> None \<longrightarrow> wins (rc_threads s ! a) = wins (rc_threads s ! b) \<longrightarrow> a = b) \<and>
     (\<forall>j < length (wd_lineages (rc_world s)). transient (ln_state (wd_lineages (rc_world s) ! j)) \<longrightarrow>
        (\<exists>a < length (rc_threads s). owns (rc_threads s ! a) = Some j))"

section \<open>One step of one goroutine\<close>

text \<open>
  The step touches lineage i at most, which another goroutine can only own if this one owns it too, or
  which is not in a transient state.
\<close>

definition local_step ::
  "('p, 'm, 'k) goroutine \<Rightarrow> ('m, 'k) world \<Rightarrow> ('p, 'm, 'k) goroutine \<Rightarrow> ('m, 'k) world \<Rightarrow> nat \<Rightarrow> bool" where
  "local_step g w g' w' i \<longleftrightarrow> effect i w w' \<and> world_ok w' \<and> goroutine_ok w' g' \<and>
     (i < length (wd_lineages w) \<longrightarrow> transient (ln_state (wd_lineages w ! i)) \<longrightarrow> owns g = Some i) \<and>
     (\<forall>j < length (wd_lineages w'). transient (ln_state (wd_lineages w' ! j)) \<longrightarrow>
        owns g' = Some j \<or> j < length (wd_lineages w) \<and> transient (ln_state (wd_lineages w ! j)) \<and> owns g \<noteq> Some j) \<and>
     (\<forall>st k. wins g' = Some (st, k) \<longrightarrow> wins g = Some (st, k) \<or>
        k < length (wd_lineages w) \<and> rank (ln_state (wd_lineages w ! k)) < rank st)"

lemma lineage_ok_later: "lineage_ok n l \<Longrightarrow> n \<le> m \<Longrightarrow> lineage_ok m l"
  by (auto simp: lineage_ok_def)

lemma quiet_step:
  assumes "world_ok w" and "wd_lineages w' = wd_lineages w" and "generation_of w \<le> generation_of w'"
    and "goroutine_ok w' g'" and "owns g = None" and "wins g' = wins g"
  shows "\<exists>i. local_step g w g' w' i"
  using assms by (intro exI [of _ "length (wd_lineages w)"]) (auto simp: local_step_def effect_def world_ok_def intro: lineage_ok_later)

lemma minting_step:
  assumes "goroutine_ok w (Minting env s)" and "world_ok w" and "mint_step plans env s w = (s', w')"
  shows "\<exists>i. local_step (Minting env s) w (Minting env s') w' i"
proof (cases s)
  case MintStarting
  then show ?thesis using assms
    by (intro quiet_step)
      (auto simp: generation_of_def Let_def split: if_splits prod.splits sum.splits dest!: sample_newer)
next
  case (MintSampled e)
  then show ?thesis using assms
    by (intro quiet_step)
      (auto simp: generation_of_def split: prod.splits sum.splits dest!: prepare_authority)
next
  case (MintPrepared e d t)
  show ?thesis
  proof (cases "mint_build_permit (wd_authority w) e d t")
    case (Inl f)
    then show ?thesis using assms MintPrepared by (intro quiet_step) auto
  next
    case (Inr c)
    then show ?thesis using assms MintPrepared
      by (intro exI [of _ "length (wd_lineages w)"], cases c)
        (auto simp: local_step_def effect_def world_ok_def generation_of_def nth_append lineage_ok_def less_Suc_eq
          dest!: mint_cell)
  qed
next
  case (MintReturned r)
  then show ?thesis using assms by (intro quiet_step) auto
qed

lemma operating_quiet:
  assumes "goroutine_ok w (Operating env op s won)" and "world_ok w" and "stage_step plans env op s w = (s', w')"
    and "s = Starting \<or> s = Validated \<or> s = Sampled e \<or> s = Prepared e prepared d t \<or> s = Returned r"
  shows "\<exists>i. local_step (Operating env op s won) w (Operating env op s' (now_won s' won)) w' i"
proof (rule quiet_step)
  show "world_ok w" by fact
  show "wd_lineages w' = wd_lineages w" "generation_of w \<le> generation_of w'"
      using assms(3,4) by (auto simp: generation_of_def split: prod.splits sum.splits
          dest!: prepare_authority dest!: sample_newer)
    then show "goroutine_ok w' (Operating env op s' (now_won s' won))"
      using assms by (auto simp: generation_of_def now_won_def won_ok_def split: prod.splits sum.splits option.splits
          dest!: prepare_authority admit_checked dest!: sample_newer)
    show "owns (Operating env op s won) = None" using assms(4) by auto
    show "wins (Operating env op s' (now_won s' won)) = wins (Operating env op s won)"
      using assms(3,4) by (auto simp: now_won_def split: prod.splits sum.splits)
qed

lemma record_use_fields [simp]:
  "ln_mint (record_use op d l) = ln_mint l" "ln_last (record_use op d l) = ln_last l"
  "ln_state (record_use op d l) = ln_state l"
  by (cases op; simp)+

lemma touching_step:
  assumes "world_ok w" and i: "i < length (wd_lineages w)"
    and w': "wd_authority w' = wd_authority w" "length (wd_lineages w') = length (wd_lineages w)"
      "\<And>j. j \<noteq> i \<Longrightarrow> wd_lineages w' ! j = wd_lineages w ! j"
    and own: "ln_mint (wd_lineages w' ! i) = ln_mint (wd_lineages w ! i)"
      "ln_state (wd_lineages w' ! i) = ln_state (wd_lineages w ! i) \<or>
        edge (ln_state (wd_lineages w ! i)) (ln_state (wd_lineages w' ! i))"
      "ln_last (wd_lineages w ! i) \<le> ln_last (wd_lineages w' ! i)" "ln_last (wd_lineages w' ! i) \<le> generation_of w"
      "ln_last (wd_lineages w' ! i) = ln_last (wd_lineages w ! i) \<or> transient (ln_state (wd_lineages w ! i))"
    and holder: "owns g = (if transient (ln_state (wd_lineages w ! i)) then Some i else None)"
      "transient (ln_state (wd_lineages w' ! i)) \<Longrightarrow> owns g' = Some i"
    and g': "goroutine_ok w' g'"
      "\<And>st k. wins g' = Some (st, k) \<Longrightarrow> wins g = Some (st, k) \<or>
        k < length (wd_lineages w) \<and> rank (ln_state (wd_lineages w ! k)) < rank st"
  shows "\<exists>i. local_step g w g' w' i"
proof (rule exI [of _ i])
  have "lineage_ok (generation_of w) (wd_lineages w' ! j)" if "j < length (wd_lineages w)" for j
    using that assms(1) own w'(3) by (cases "j = i") (auto simp: world_ok_def lineage_ok_def)
  then have "world_ok w'" using w' by (simp add: world_ok_def generation_of_def)
  moreover have "effect i w w'"
    unfolding effect_def
  proof (intro conjI allI impI)
    fix j assume "j < length (wd_lineages w)"
    show "ln_mint (wd_lineages w' ! j) = ln_mint (wd_lineages w ! j)"
      "ln_state (wd_lineages w' ! j) = ln_state (wd_lineages w ! j) \<or>
        edge (ln_state (wd_lineages w ! j)) (ln_state (wd_lineages w' ! j))"
      "ln_last (wd_lineages w ! j) \<le> ln_last (wd_lineages w' ! j)"
      "ln_last (wd_lineages w' ! j) = ln_last (wd_lineages w ! j) \<or> transient (ln_state (wd_lineages w ! j))"
      using own w'(3) by (cases "j = i"; simp)+
  qed (use w' in \<open>simp_all add: generation_of_def\<close>)
  moreover have "owns g' = Some j \<or> j < length (wd_lineages w) \<and> transient (ln_state (wd_lineages w ! j)) \<and> owns g \<noteq> Some j"
    if "j < length (wd_lineages w')" "transient (ln_state (wd_lineages w' ! j))" for j
    using that holder w' by (cases "j = i") auto
  ultimately show "local_step g w g' w' i"
    using holder(1) g' by (auto simp: local_step_def)
qed

lemma admitted_step:
  assumes ok: "goroutine_ok w (Operating env op s won)" and world: "world_ok w"
    and step: "stage_step plans env op s w = (s', w')" and s: "s = Admitted i identity e prepared d runtime"
  shows "\<exists>i. local_step (Operating env op s won) w (Operating env op s' (now_won s' won)) w' i"
proof (cases "ln_state (wd_lineages w ! i) = op_from op")
  case True
  then have new: "s' = Winner i identity e prepared d runtime" "w' = on_lineage i (\<lambda>l. l\<lparr>ln_state := op_via op\<rparr>) w"
    using step s by auto
  have i: "i < length (wd_lineages w)" using ok s by simp
  show ?thesis
    by (rule touching_step [OF world i])
      (use ok s i True world in \<open>auto simp: new now_won_def won_ok_def generation_of_def world_ok_def lineage_ok_def\<close>)
next
  case False
  then show ?thesis using assms by (intro quiet_step) (auto simp: now_won_def won_ok_def split: option.splits)
qed

lemma winner_step:
  assumes ok: "goroutine_ok w (Operating env op s won)" and world: "world_ok w"
    and step: "stage_step plans env op s w = (s', w')" and s: "s = Winner i identity e prepared d runtime"
  shows "\<exists>i. local_step (Operating env op s won) w (Operating env op s' (now_won s' won)) w' i"
proof -
  have new: "s' = Marked i identity e prepared d runtime"
    "w' = on_lineage i (\<lambda>l. record_use op (re_digest runtime) (l\<lparr>ln_last := ce_generation e\<rparr>)) w"
    using step s by auto
  have i: "i < length (wd_lineages w)" using ok s by simp
  show ?thesis
    by (rule touching_step [OF world i])
      (use ok s i in \<open>auto simp: new now_won_def won_ok_def generation_of_def\<close>)
qed

lemma marked_step:
  assumes ok: "goroutine_ok w (Operating env op s won)" and world: "world_ok w"
    and step: "stage_step plans env op s w = (s', w')" and s: "s = Marked i identity e prepared d runtime"
  shows "\<exists>i. local_step (Operating env op s won) w (Operating env op s' (now_won s' won)) w' i"
proof -
  obtain r where fin: "finish_operation plans op i identity prepared d e runtime w = (r, w')" and new: "s' = Returned r"
    using step s by (auto split: prod.splits)
  note after = finish_operation_lineages [OF fin]
  have i: "i < length (wd_lineages w)" using ok s by simp
  have now: "ln_state (wd_lineages w ! i) = op_via op"
    "ln_state (wd_lineages w' ! i) = op_published op \<or> ln_state (wd_lineages w' ! i) = LineageFailed"
    using ok s after(6) by simp_all
  have "won_ok w' op (Some i)"
    using now(2) i after(2) by (auto simp: won_ok_def intro: less_imp_le)
  then show ?thesis
    by (intro touching_step [OF world i])
      (use ok s i after now world in \<open>auto simp: new now_won_def generation_of_def world_ok_def lineage_ok_def\<close>)
qed

lemma goroutine_local:
  assumes "goroutine_ok w g" and "world_ok w" and "goroutine_step plans g w = (g', w')"
  shows "\<exists>i. local_step g w g' w' i"
proof (cases g)
  case (Minting env s)
  then show ?thesis using assms minting_step by (auto split: prod.splits)
next
  case (Operating env op s won)
  obtain t where t: "stage_step plans env op s w = (t, w')" "g' = Operating env op t (now_won t won)"
    using assms(3) Operating by (auto split: prod.splits)
  have ok: "goroutine_ok w (Operating env op s won)" using assms(1) Operating by simp
  show ?thesis
    unfolding Operating t(2)
    by (cases s) (use operating_quiet [OF ok assms(2) t(1)] admitted_step [OF ok assms(2) t(1)]
        winner_step [OF ok assms(2) t(1)] marked_step [OF ok assms(2) t(1)] in auto)
qed

section \<open>The invariant over all schedules\<close>

lemma owner_wins: "goroutine_ok w g \<Longrightarrow> owns g = Some i \<Longrightarrow>
   i < length (wd_lineages w) \<and> transient (ln_state (wd_lineages w ! i)) \<and> wins g = Some (ln_state (wd_lineages w ! i), i)"
  by (cases g rule: owns.cases) auto

lemma winner_rank: "goroutine_ok w g \<Longrightarrow> wins g = Some (st, k) \<Longrightarrow>
   k < length (wd_lineages w) \<and> rank st \<le> rank (ln_state (wd_lineages w ! k))"
  by (cases g) (auto simp: won_ok_def split: option.splits)

lemma may_start_ok:
  assumes "may_start w g"
  shows "goroutine_ok w g \<and> wins g = None"
proof (cases g)
  case (Minting env s)
  then show ?thesis using assms by (cases s) (auto simp: generation_of_def)
next
  case (Operating env op s won)
  then show ?thesis using assms by (cases s) (auto simp: won_ok_def generation_of_def)
qed

lemma race_ok_start: "race_start s \<Longrightarrow> race_ok s"
  using may_start_ok by (auto simp: race_ok_def race_start_def world_ok_def generation_of_def list_all_length)

lemma race_ok_step:
  assumes "race_ok s" and "race_step plans s s'"
  shows "race_ok s'"
proof -
  obtain a t w where 1: "s' = \<lparr>rc_world = w, rc_threads = (rc_threads s)[a := t]\<rparr>" "a < length (rc_threads s)"
      "\<not> has_returned (rc_threads s ! a)" "goroutine_step plans (rc_threads s ! a) (rc_world s) = (t, w)"
    using assms(2) by (cases rule: race_stepE) auto
  let ?w = "rc_world s" and ?g = "rc_threads s ! a"
  have ok: "goroutine_ok ?w (rc_threads s ! b)" if "b < length (rc_threads s)" for b
    using assms(1) that by (simp add: race_ok_def)
  have unique: "b = c" if "b < length (rc_threads s)" "c < length (rc_threads s)"
      "wins (rc_threads s ! b) = Some x" "wins (rc_threads s ! c) = Some x" for b c x
    using assms(1) that by (auto simp: race_ok_def)
  have world: "world_ok ?w" using assms(1) by (simp add: race_ok_def)
  obtain i where loc: "local_step ?g ?w t w i" using goroutine_local [OF ok [OF 1(2)] world 1(4)] by blast
  have eff: "effect i ?w w" using loc by (simp add: local_step_def)
  have others: "owns (rc_threads s ! b) \<noteq> Some i" if b: "b < length (rc_threads s)" "b \<noteq> a" for b
  proof
    assume own: "owns (rc_threads s ! b) = Some i"
    note held = owner_wins [OF ok [OF b(1)] own]
    then have "owns ?g = Some i" using loc by (simp add: local_step_def)
    then show False using owner_wins [OF ok [OF 1(2)]] held unique [OF b(1) 1(2)] b(2) by auto
  qed
  have "goroutine_ok w ((rc_threads s)[a := t] ! b)" if "b < length (rc_threads s)" for b
    using that loc goroutine_ok_stable [OF eff others ok] by (cases "b = a") (auto simp: local_step_def)
  moreover have first: "b = a" if b: "b < length (rc_threads s)" "wins (rc_threads s ! b) = Some x" "wins t = Some x" for b x
  proof (cases x)
    case (Pair st k)
    then show ?thesis
      using loc b unique [OF b(1) 1(2) b(2)] winner_rank [OF ok [OF b(1)]] by (force simp: local_step_def)
  qed
  moreover have "\<exists>b < length (rc_threads s). owns ((rc_threads s)[a := t] ! b) = Some j"
    if "j < length (wd_lineages w)" "transient (ln_state (wd_lineages w ! j))" for j
  proof -
    note j = that
    consider "owns t = Some j"
      | "j < length (wd_lineages ?w)" "transient (ln_state (wd_lineages ?w ! j))" "owns ?g \<noteq> Some j"
      using loc j by (auto simp: local_step_def)
    then show ?thesis
    proof cases
      case 2
      then obtain b where "b < length (rc_threads s)" "owns (rc_threads s ! b) = Some j"
        using assms(1) by (auto simp: race_ok_def)
      moreover from this have "b \<noteq> a" using 2(3) by auto
      ultimately show ?thesis by (intro exI [of _ b]) simp
    qed (use 1(2) in auto)
  qed
  moreover have "b = c" if "b < length (rc_threads s)" "c < length (rc_threads s)"
      "wins ((rc_threads s)[a := t] ! b) \<noteq> None" "wins ((rc_threads s)[a := t] ! b) = wins ((rc_threads s)[a := t] ! c)" for b c
    using that first unique 1(2) by (metis nth_list_update_eq nth_list_update_neq option.exhaust)
  moreover have "world_ok w" using loc by (simp add: local_step_def)
  ultimately show ?thesis
    unfolding race_ok_def 1(1) race.simps length_list_update by blast
qed

lemma race_ok_reachable: "race_reachable plans s \<Longrightarrow> race_ok s"
  by (induction rule: race_reachable.induct) (auto intro: race_ok_start race_ok_step)


section \<open>How long a race can last\<close>












section \<open>One holder, one winner\<close>

lemma at_most_one: "length (filter P xs) \<le> 1"
  if "\<And>a b. a < length xs \<Longrightarrow> b < length xs \<Longrightarrow> P (xs ! a) \<Longrightarrow> P (xs ! b) \<Longrightarrow> a = b"
  unfolding length_filter_conv_card using that by (auto simp: card_le_Suc0_iff_eq)

lemma wins_unique:
  assumes "race_ok s" and "a < length (rc_threads s)" "b < length (rc_threads s)"
    and "wins (rc_threads s ! a) = Some x" "wins (rc_threads s ! b) = Some x"
  shows "a = b"
  using assms by (auto simp: race_ok_def)

lemma owns_unique:
  assumes "race_ok s" and "a < length (rc_threads s)" "b < length (rc_threads s)"
    and "owns (rc_threads s ! a) = Some j" "owns (rc_threads s ! b) = Some j"
  shows "a = b"
proof -
  have "goroutine_ok (rc_world s) (rc_threads s ! a)" "goroutine_ok (rc_world s) (rc_threads s ! b)"
    using assms(1-3) by (auto simp: race_ok_def)
  then show ?thesis using wins_unique [OF assms(1-3)] owner_wins assms(4,5) by blast
qed

lemma held_iff:
  assumes "race_ok s" and "j < length (wd_lineages (rc_world s))"
  shows "(\<exists>a < length (rc_threads s). owns (rc_threads s ! a) = Some j) \<longleftrightarrow> transient (ln_state (wd_lineages (rc_world s) ! j))"
proof
  assume "\<exists>a < length (rc_threads s). owns (rc_threads s ! a) = Some j"
  then obtain a where "a < length (rc_threads s)" and own: "owns (rc_threads s ! a) = Some j" by blast
  then have "goroutine_ok (rc_world s) (rc_threads s ! a)" using assms(1) by (simp add: race_ok_def)
  then show "transient (ln_state (wd_lineages (rc_world s) ! j))" using owner_wins own by blast
qed (use assms in \<open>simp add: race_ok_def\<close>)

section \<open>A race on one lineage\<close>

text \<open>
  An authority that has drawn three generations, one lineage authorized at the first, two builders that were
  both admitted to it, with the second and the third, and a goroutine about to mint a permit. The
  first builder wins the transition; the other comes second and returns an error.
\<close>

definition example_authority :: authority where
  "example_authority = \<lparr>au_owner = 1, au_has_sampler = True, au_secret = [], au_generation = 3, au_sample_calls = 3,
     au_evaluation_calls = 3, au_prepare_calls = 3\<rparr>"

definition example_lineage :: lineage where
  "example_lineage = \<lparr>ln_owner = 1, ln_state = Authorized, ln_mint = 1, ln_last = 1, ln_mint_time = Some 1, ln_build_spec = 1,
     ln_build_permit = 1, ln_mint_report = 1, ln_mint_permit = 1, ln_build_use = 0, ln_receipt = 0, ln_manifest = 0,
     ln_payload = zero_payload, ln_ready_use = 0, ln_ready_spec = 0, ln_ready_permit = 0, ln_install_use = 0,
     ln_preflight_use = 0\<rparr>"

definition example_environment :: "unit gate_environment" where
  "example_environment = \<lparr>en_sample = err ''sampler'', en_now = Some 2, en_prepare = err ''parameters''\<rparr>"

definition example_plans :: "byte \<Rightarrow> (string, unit capacity_plan) res" where
  "example_plans gate = err ''no plan''"

definition example_evidence :: "64 word \<Rightarrow> capacity_evidence" where
  "example_evidence generation = \<lparr>ce_generation = generation, ce_sampled_at = Some generation, ce_gate = gate_begin_build,
     ce_binding = zero_capacity, ce_peak = zero_peak\<rparr>"

definition example_build :: "(unit, unit, unit) operation" where
  "example_build = BeginBuild \<lparr>bx_report = zero_build_permit, bx_lineage = Some 0\<rparr>
     \<lparr>bh_build = \<lambda>_ _. err ''build'', bh_validate = \<lambda>_ _. Inr ()\<rparr>"

definition example_admitted :: "64 word \<Rightarrow> (unit, unit, unit) goroutine" where
  "example_admitted generation = Operating example_environment example_build
     (Admitted 0 1 (example_evidence generation) () 1 (new_runtime_evidence op_begin_build (example_evidence generation) 1)) None"

definition example_winner :: "(unit, unit, unit) goroutine" where
  "example_winner = Operating example_environment example_build
     (Winner 0 1 (example_evidence 2) () 1 (new_runtime_evidence op_begin_build (example_evidence 2) 1)) (Some 0)"

definition example_loser :: "(unit, unit, unit) goroutine" where
  "example_loser = Operating example_environment example_build
     (Returned (lineage_error ''lineage is no longer in the expected state'')) None"

definition example_world :: "lineage_state \<Rightarrow> (unit, unit) world" where
  "example_world st = \<lparr>wd_authority = example_authority, wd_lineages = [example_lineage\<lparr>ln_state := st\<rparr>], wd_artifacts = [],
     wd_installed = []\<rparr>"

definition example_race :: "lineage_state \<Rightarrow> (unit, unit, unit) goroutine list \<Rightarrow> (unit, unit, unit) race" where
  "example_race st builders = \<lparr>rc_world = example_world st, rc_threads = builders @ [Minting example_environment MintStarting]\<rparr>"

abbreviation "example_start \<equiv> example_race Authorized [example_admitted 2, example_admitted 3]"
abbreviation "example_won \<equiv> example_race Building [example_winner, example_admitted 3]"
abbreviation "example_lost \<equiv> example_race Building [example_winner, example_loser]"

lemma example_start_reachable: "race_reachable example_plans example_start"
  by (rule race_reachable.start)
    (simp add: race_start_def example_race_def example_world_def example_lineage_def example_authority_def
      example_admitted_def example_evidence_def example_build_def lineage_ok_def)

lemma example_moves:
  assumes "a < length (rc_threads s)" and "\<not> has_returned (rc_threads s ! a)"
    and "goroutine_step plans (rc_threads s ! a) (rc_world s) = (rc_threads s' ! a, rc_world s')"
    and "rc_threads s' = (rc_threads s)[a := rc_threads s' ! a]"
  shows "race_step plans s s'"
proof -
  have "race_step plans s \<lparr>rc_world = rc_world s', rc_threads = (rc_threads s)[a := rc_threads s' ! a]\<rparr>"
    using assms(1-3) by (rule race_step.move)
  then show ?thesis using assms(4) by (cases s') simp
qed

lemma example_wins: "race_step example_plans example_start example_won"
  by (rule example_moves [of 0])
    (simp_all add: example_race_def example_world_def example_lineage_def example_admitted_def example_winner_def
      example_build_def on_lineage_def now_won_def)

lemma example_loses: "race_step example_plans example_won example_lost"
  by (rule example_moves [of 1])
    (simp_all add: example_race_def example_world_def example_lineage_def example_admitted_def example_loser_def
      example_build_def now_won_def)

lemma example_reachable:
  "race_reachable example_plans example_won" "race_reachable example_plans example_lost"
  using race_reachable.step [OF example_start_reachable example_wins] race_reachable.step [OF _ example_loses] by blast+

section \<open>The properties of a race\<close>

text \<open>
  Whatever calls of the authority race and however their steps interleave, every lineage was last used
  no earlier than it was minted, and never with a capacity generation the authority has not drawn.
\<close>

theorem race_generations_ordered:
  assumes "race_reachable plans s"
  shows "list_all (lineage_ok (au_generation (wd_authority (rc_world s)))) (wd_lineages (rc_world s))"
  using race_ok_reachable [OF assms] by (simp add: race_ok_def world_ok_def generation_of_def list_all_length)

theorem race_generations_ordered_witness:
  "lineage_ok 3 (example_lineage\<lparr>ln_state := Building\<rparr>)"
  using race_generations_ordered [OF example_reachable(1)]
  by (simp add: example_race_def example_world_def example_authority_def)



text \<open>
  C11. Mutual exclusion. A lineage in the middle of an operation is held by exactly one goroutine, and any
  other lineage by none; and over the whole race one goroutine at most ever wins a given transition of a
  lineage, so a permit builds at most one artifact and an artifact is made ready and installed at most once.
\<close>

theorem lineage_held_once:
  assumes "race_reachable plans s" and "j < length (wd_lineages (rc_world s))"
  shows "length (filter (\<lambda>g. owns g = Some j) (rc_threads s)) =
      (if transient (ln_state (wd_lineages (rc_world s) ! j)) then 1 else 0) \<and>
    length (filter (\<lambda>g. wins g = Some (st, j)) (rc_threads s)) \<le> 1"
proof (intro conjI)
  note ok = race_ok_reachable [OF assms(1)]
  show "length (filter (\<lambda>g. wins g = Some (st, j)) (rc_threads s)) \<le> 1"
    by (rule at_most_one) (rule wins_unique [OF ok])
  have le: "length (filter (\<lambda>g. owns g = Some j) (rc_threads s)) \<le> 1"
    by (rule at_most_one) (rule owns_unique [OF ok])
  have "filter (\<lambda>g. owns g = Some j) (rc_threads s) \<noteq> [] \<longleftrightarrow> transient (ln_state (wd_lineages (rc_world s) ! j))"
    unfolding held_iff [OF ok assms(2), symmetric] filter_empty_conv by (auto simp: in_set_conv_nth intro: bexI [OF _ nth_mem])
  then show "length (filter (\<lambda>g. owns g = Some j) (rc_threads s)) =
      (if transient (ln_state (wd_lineages (rc_world s) ! j)) then 1 else 0)"
    using le by (cases "filter (\<lambda>g. owns g = Some j) (rc_threads s)") auto
qed

theorem lineage_held_once_witness:
  "length (filter (\<lambda>g. owns g = Some 0) (rc_threads example_won)) = 1 \<and>
   length (filter (\<lambda>g. wins g = Some (Building, 0)) (rc_threads example_lost)) \<le> 1 \<and>
   rc_threads example_lost ! 1 = example_loser"
  using lineage_held_once [OF example_reachable(1), of 0] lineage_held_once [OF example_reachable(2), of 0 Building]
  by (simp add: example_race_def example_world_def transient_def)



section \<open>A minted permit\<close>

lemma frozen_not_zero: "frozen_build_spec e d t \<noteq> zero_build_spec"
proof
  assume "frozen_build_spec e d t = zero_build_spec"
  then have "bp_generator_precision (frozen_build_spec e d t) = bp_generator_precision zero_build_spec" by simp
  then show False by (simp add: frozen_build_spec_def zero_build_spec_def)
qed

lemma minted_permit_valid:
  assumes mint: "mint_build_permit a e d t = Inr (report, cell)" and w: "wd_authority w = a" "au_has_sampler a"
    and lineages: "wd_lineages w = ls @ [cell]"
  shows "\<exists>identity. validate_permit_before_use w \<lparr>bx_report = report, bx_lineage = Some (length ls)\<rparr> =
    Inr (length ls, identity)"
proof -
  have report: "bm_spec report = frozen_build_spec e d t"
    using mint by (auto simp: mint_build_permit_def Let_def and_then_ok split: if_splits)
  then have "report \<noteq> zero_build_permit"
    using frozen_not_zero [of e d t] by (metis build_permit_report.select_convs(2) zero_build_permit_def)
  then obtain identity where
    canonical: "validate_permit_canonical w \<lparr>bx_report = report, bx_lineage = Some (length ls)\<rparr> = Inr (length ls, identity)"
    using mint w lineages
    by (auto simp: mint_build_permit_def validate_permit_canonical_def Let_def and_then_ok build_permit_is_zero_def cell_at_def
        frozen_build_spec_def nth_append split: if_splits)
  have "ln_state cell = Authorized" "ln_last cell = ln_mint cell" using mint_cell [OF mint] by simp_all
  then show ?thesis
    by (simp add: validate_permit_before_use_def canonical lineages nth_append)
qed

text \<open>
  AuthorizeBuild mints at most one permit, whatever the plan, the sampler and the preparation answer: a
  failed call leaves the lineages as they were; a successful one appends one authorized lineage minted and
  last used at the generation just drawn, and the permit it returns for that lineage passes the validation
  that every use of the permit begins with.
\<close>

theorem minted_permit_usable:
  "case authorize_build plans env w of
     (Inl e, w') \<Rightarrow> wd_lineages w' = wd_lineages w
   | (Inr (spec, p), w') \<Rightarrow> bm_spec (bx_report p) = spec \<and> bx_lineage p = Some (length (wd_lineages w)) \<and>
       (\<exists>identity. validate_permit_before_use w' p = Inr (length (wd_lineages w), identity)) \<and>
       (\<exists>l. wd_lineages w' = wd_lineages w @ [l] \<and> ln_state l = Authorized \<and>
          ln_mint l = au_generation (wd_authority w') \<and> ln_last l = ln_mint l \<and>
          au_generation (wd_authority w') = au_generation (wd_authority w) + 1)"
proof (cases "authorize_build plans env w")
  case (Pair r w')
  show ?thesis
  proof (cases r)
    case (Inl e)
    then show ?thesis
      using Pair by (auto simp: authorize_build_def Let_def split: if_splits sum.splits prod.splits)
  next
    case (Inr sp)
    let ?a = "wd_authority w"
    obtain e a1 prepared d t a2 report cell where
      steps: "au_has_sampler ?a" "sample_capacity plans gate_authorize_build (en_sample env) (en_now env) ?a = (Inr e, a1)"
        "prepare_stored ''prepare stored Route-B parameters'' env a1 = (Inr (prepared, d, t), a2)"
        "mint_build_permit a2 e d t = Inr (report, cell)"
      and sp: "sp = (bm_spec report, \<lparr>bx_report = report, bx_lineage = Some (length (wd_lineages w))\<rparr>)"
      and w': "w' = w\<lparr>wd_authority := a2, wd_lineages := wd_lineages w @ [cell]\<rparr>"
      using Pair Inr by (auto simp: authorize_build_def Let_def split: if_splits sum.splits prod.splits)
    have drawn: "au_has_sampler a2" "au_generation a2 = au_generation ?a + 1" "ce_generation e = au_generation a2"
      using steps(1,3) sample_generation(3) [OF steps(2) refl] steps(2)
      by (auto simp: prepare_stored_def sample_capacity_def Let_def split: if_splits sum.splits prod.splits)
    show ?thesis
      using minted_permit_valid [OF steps(4), of w' "wd_lineages w"] mint_cell [OF steps(4)] drawn
      by (simp add: Pair Inr sp w')
  qed
qed

end
