(* ===== verification/Spec2Isabelle.thy ===== *)
theory Spec2Isabelle
  imports ScheduleProps Multiway TreeEvalPlain OrderedForest Z2nOracle Signed8Reports TransformSpecProps BuildArtifactProps LineageProps
begin

text \<open>
  A verification library for LCPDTE, integer decision-tree evaluation over homomorphic encryption,
  written in Go. File names below are relative to the source root.

  \<^bold>\<open>The program.\<close> A model is read as arenas of nodes and compiled to complete binary trees
  (\<^verbatim>\<open>integer/treecompile\<close>). The planner (\<^verbatim>\<open>integer/treeplan\<close>) groups the levels of such a tree into
  supernodes of radix 2, 4, 8 or 16, certifies the grouping by SHA-256, and predicts what each evaluation
  schedule costs. The evaluators (\<^verbatim>\<open>integer/treeeval\<close>) run a tree obliviously over any backend that adds,
  multiplies and compares; a plaintext backend is their reference. Integers travel through CKKS ciphertexts
  as coefficients of X^n - X + 2 (\<^verbatim>\<open>integer/z2n\<close>); \<^verbatim>\<open>integer/homchain\<close> specifies the linear transforms and
  Boolean conversions between representations. The secure sessions (\<^verbatim>\<open>integer/secureeval\<close>) hold small
  signed eight-bit models with cleartext oracles, and build, seal and authorize the matrices of the
  bootstrapping transforms, which an observed construction of the lattice library
  (\<^verbatim>\<open>lattigo/circuits/ckks/dft\<close>) streams to them factor by factor.

  \<^bold>\<open>Conventions.\<close> A Go function that returns a value and an error is a function into \<^verbatim>\<open>res\<close>: a value, an
  error, a panic or exhausted fuel. Structs are records, enumerations datatypes or the bytes of their
  constants, \<^verbatim>\<open>uint64\<close> and the like words of their width; \<^verbatim>\<open>int\<close> is an integer whose wrap-around is written
  out where it can be reached. A float is its bit pattern. A pointer that is shared is a position in an
  explicit list; one that is not is its value. Recorded error messages drop their arguments and their
  wrapped causes, never the sentinel that tells one class of error from another.

  \<^bold>\<open>Foundations.\<close> \<^verbatim>\<open>Prelude\<close>: outcomes and Go loops. \<^verbatim>\<open>StateRes\<close>: fallible code over a state.
  \<^verbatim>\<open>GoFloat\<close>, \<^verbatim>\<open>FloatExact\<close>: IEEE arithmetic on patterns and when it is exact. \<^verbatim>\<open>GoScalar\<close>, \<^verbatim>\<open>GoString\<close>:
  ordered scalars; trimming, hexadecimal and UTF-8. \<^verbatim>\<open>Sha256\<close>: the hash function itself, which the kernel
  evaluates. \<^verbatim>\<open>BigFloat\<close>: rounded arithmetic of \<^verbatim>\<open>math/big\<close>.

  \<^bold>\<open>integer/treeplan.\<close> \<^verbatim>\<open>BinaryTree\<close> (\<^verbatim>\<open>binary.go\<close>, \<^verbatim>\<open>cost.go\<close>): heap-ordered trees; evaluation returns the value of
  the decision tree the heap stands for and fails closed. \<^verbatim>\<open>Digest\<close> (\<^verbatim>\<open>digest.go\<close>): the canonical encoder,
  whose writers are self-delimiting (locale \<^verbatim>\<open>writer\<close>), so encodings are injective. \<^verbatim>\<open>RadixTree\<close> (\<^verbatim>\<open>radix.go\<close>):
  compilation to supernodes, routing, certificates; a grouped plan evaluates as its source, and a plan
  verified against a source is its compilation unless SHA-256 collides. \<^verbatim>\<open>Multiway\<close> (\<^verbatim>\<open>multiway.go\<close>): arenas
  with a depth-first validation and memoised metrics; fuel is the number of nodes plus two, which a proof
  shows is never exhausted. \<^verbatim>\<open>ScheduleData\<close>, \<^verbatim>\<open>Schedule\<close>, \<^verbatim>\<open>ScheduleFacts\<close>, \<^verbatim>\<open>ScheduleProps\<close> (\<^verbatim>\<open>schedule.go\<close>,
  \<^verbatim>\<open>schedule_certificate.go\<close>): plans, their certificates, attached measurements; closed forms of the costs.

  \<^bold>\<open>integer/treeeval.\<close> \<^verbatim>\<open>Numeric\<close> (\<^verbatim>\<open>numeric.go\<close>): scalars and comparator policies with their overflow
  justification. \<^verbatim>\<open>PlainBackend\<close> (\<^verbatim>\<open>plain.go\<close>). \<^verbatim>\<open>TreeEval\<close> (\<^verbatim>\<open>backend.go\<close>, \<^verbatim>\<open>counts.go\<close>, \<^verbatim>\<open>engine.go\<close>,
  \<^verbatim>\<open>evaluator.go\<close>): the backend is a record of functions; \<^verbatim>\<open>TreeEvalCounts\<close>, \<^verbatim>\<open>TreeEvalSafety\<close> hold for every
  backend (operation counts, no panic), \<^verbatim>\<open>TreeEvalCorrect\<close>, \<^verbatim>\<open>TreeEvalPlain\<close> for the plaintext one (the leaf
  of the decision tree).

  \<^bold>\<open>integer/treecompile.\<close> \<^verbatim>\<open>TreeCompile\<close>, \<^verbatim>\<open>TreeCompileCorrect\<close> (\<^verbatim>\<open>compile.go\<close>): analysis of an arena and
  padding to a complete tree; the fuel is the length of the arena plus one and is never exhausted.
  \<^verbatim>\<open>Forest\<close> (\<^verbatim>\<open>forest.go\<close>): model compilation and the margin oracles; \<^verbatim>\<open>OrderedForest\<close>
  (\<^verbatim>\<open>ordered_float32.go\<close>): the integer view, which routes as the floats do.

  \<^bold>\<open>integer/z2n.\<close> \<^verbatim>\<open>Z2nConstants\<close>, \<^verbatim>\<open>Z2nRing\<close>, \<^verbatim>\<open>Z2nEncode\<close>, \<^verbatim>\<open>Z2nTransform\<close>, \<^verbatim>\<open>Z2nOracle\<close> are the files of the
  package; \<^verbatim>\<open>Z2nAlgebra\<close>, \<^verbatim>\<open>Z2nExact\<close> show that at the admitted precisions the rounded operations on encodings
  are exact, so that sums, differences and products of encodings decode to machine arithmetic.

  \<^bold>\<open>integer/homchain, integer/secureeval.\<close> \<^verbatim>\<open>TransformSpec\<close>, \<^verbatim>\<open>TransformSpecProps\<close> (\<^verbatim>\<open>matrix.go\<close>, \<^verbatim>\<open>spec.go\<close>,
  \<^verbatim>\<open>z2n_adapter.go\<close>): compact and flattened diagonals denote the same linear map. \<^verbatim>\<open>Signed8Range\<close>,
  \<^verbatim>\<open>Signed8Models\<close>, \<^verbatim>\<open>Signed8Reports\<close>: range certificates, the four eight-bit models and their oracles,
  equal to evaluation of the binary tree. The digests the source registers (model 7f10d6..., input pattern
  d7d933..., equivalence proof 8b0f5a89...) are constants the digests of the model's texts are compared with.
  \<^verbatim>\<open>Wire\<close>: the byte writers and readers, each a \<^verbatim>\<open>wire_codec\<close> (a locale: a reader accepts
  exactly what its writer produces), closed under concatenation. \<^verbatim>\<open>AuthWire\<close>, \<^verbatim>\<open>AuthWireProps\<close>
  (\<^verbatim>\<open>route_b_auth_wire.go\<close>): the four sealed authorization records and the memory-peak ledger.
  \<^verbatim>\<open>DftWire\<close>, \<^verbatim>\<open>DftWireProps\<close> (\<^verbatim>\<open>route_b_rbdft_wire.go\<close>): aggregates, artifact pair, lifecycle and build
  receipt. Both families are canonical, so no two byte strings stand for one record.
  \<^verbatim>\<open>ObservedStream\<close>, \<^verbatim>\<open>ObservedProps\<close> (\<^verbatim>\<open>observed_streaming.go\<close>, \<^verbatim>\<open>construction_counters.go\<close>): the observed
  construction with its events, cleanup ledger and failure stages. \<^verbatim>\<open>BuildArtifact\<close>, \<^verbatim>\<open>BuildArtifactProps\<close>
  (\<^verbatim>\<open>route_b_rbdft_factor.go\<close>, \<^verbatim>\<open>route_b_artifact.go\<close>): the consumer of that construction, the build of the two
  matrices and the records minted from their evidence.

  \<^bold>\<open>The life of an artifact.\<close> \<^verbatim>\<open>Authority\<close> (\<^verbatim>\<open>route_b_authority.go\<close>): the gates, each of which draws a fresh
  generation and has a capacity plan judge the physical memory. \<^verbatim>\<open>Lineage\<close>: the cells a lineage and its
  handles share, and their validation; \<^verbatim>\<open>LineageOps\<close> (\<^verbatim>\<open>route_b_live_artifact.go\<close>, \<^verbatim>\<open>route_b_ready.go\<close>,
  \<^verbatim>\<open>route_b_install.go\<close>, \<^verbatim>\<open>route_b_preflight.go\<close>): BeginBuild, AuthorizeReady, Install and the first operation,
  as eight atomic stages each. \<^verbatim>\<open>LineageRace\<close>, \<^verbatim>\<open>LineageProps\<close>: any number of calls, interleaved in any order from
  any point at which none of them is between its transition and its return.
  A lineage moves along the edges of the source's state machine only, at most one call holds it at a time,
  every schedule is finite and leaves no lineage in the middle of an operation. A call takes at most seven
  steps, AuthorizeBuild three: fuel seven is enough for a call run alone. Left out: what a second operation
  of an installed evaluator does, the fields of its reports, and the mutex of an installed cell, so the
  model has more schedules than the program.

  \<^bold>\<open>Interfaces.\<close> The locales are the contracts between these parts, each interpreted on the model's own
  definitions in the theory that provides them: \<^verbatim>\<open>writer\<close> (\<^verbatim>\<open>Digest\<close>: self-delimiting encoders), \<^verbatim>\<open>split_order\<close>
  (\<^verbatim>\<open>GoScalar\<close>: the order of thresholds), \<^verbatim>\<open>selector_backend\<close> (\<^verbatim>\<open>TreeEvalCorrect\<close>: what the evaluators need of a
  backend; \<^verbatim>\<open>TreeEvalPlain\<close> provides it), \<^verbatim>\<open>wire_codec\<close> (\<^verbatim>\<open>Wire\<close>: a reader and writer of a field) with its extension
  \<^verbatim>\<open>sealed_record\<close> (\<^verbatim>\<open>AuthWireProps\<close>), \<^verbatim>\<open>word_arithmetic\<close> (\<^verbatim>\<open>Z2nEncode\<close>: an operation on encodings that decodes to
  one on words) and \<^verbatim>\<open>lineage_finish\<close> (\<^verbatim>\<open>LineageRace\<close>: what the work of an operation may do to its lineage).

  \<^bold>\<open>Choices where the source leaves one.\<close> Go's map iteration has no order. Range bounds are checked minimum
  first, the roots and leaves of an ordered model left to right, the base matrix of a specification before
  the others; the plaintext evaluation of a specification takes the key order as an argument. The clones
  of the source are copies of values here. Counters of calls that could only wrap after 2^64 steps are
  natural numbers or words that wrap. The capacity of a slice is its length. The construction counters at
  the end of a build are those at its start plus its own two constructions: no other construction runs
  meanwhile. \<^verbatim>\<open>SetPrec\<close> clamps a precision to \<^verbatim>\<open>MaxPrec\<close>, 2^32-1, and \<^verbatim>\<open>ArithmeticEncode\<close> panics above it.

  \<^bold>\<open>Parameters.\<close> \<^verbatim>\<open>net/url.Parse\<close>, \<^verbatim>\<open>math.Log\<close> and \<^verbatim>\<open>math.Exp\<close>; the sampler of physical memory and the clock;
  the answers of the lattice library: the numeric factors of a transform, their encodings, its checks of a
  literal or a matrix, and with them the profile checks of \<^verbatim>\<open>validateBuildPlan\<close>; the builder, validators, key
  generator and evaluator of a lineage's operations. No property assumes anything of them beyond their types.

  \<^bold>\<open>Not modelled.\<close> Evaluation on CKKS ciphertexts: the circuits of \<^verbatim>\<open>integer/homchain\<close>, the sessions of
  \<^verbatim>\<open>integer/secureeval\<close>, \<^verbatim>\<open>integer/evaluator\<close>, \<^verbatim>\<open>he\<close>, \<^verbatim>\<open>pack\<close>, \<^verbatim>\<open>tree\<close> and the Lattigo fork itself work with approximate
  arithmetic whose noise has no exact specification in the source. \<^verbatim>\<open>integer/secureprofile\<close> holds frozen
  parameter tables over the vendored types. Commands, printing, JSON input, benchmark parsing and vendored
  packages have no logic of the evaluator. Within the modelled files: the text form of a \<^verbatim>\<open>big.Float\<close> scaling
  and the literal digests built on it, infinities and the exponent range of \<^verbatim>\<open>big.Float\<close>, memory limits of
  \<^verbatim>\<open>make\<close> (such as the row buffer of \<^verbatim>\<open>PredictRows\<close>, which panics first for a huge row count), the parsing of
  \<^verbatim>\<open>/proc/meminfo\<close>, logging accessors.
\<close>

end
